(* ===== verification/Prelude.thy ===== *)
theory Prelude
  imports Main "HOL-Library.Sublist" "HOL-Library.List_Lexorder" "HOL-Library.Code_Target_Int"
begin

text \<open>
  Prelude of the development: the type of Python strings, the exception values the
  components raise, the collections of simplification and introduction rules that the
  component theories extend, and generic facts about lists that several of them share.

  A Python \<open>str\<close> is a sequence of Unicode code points, so it is modelled as a list of
  integers (\<open>ord\<close> of each character). Most literals of the program are Chinese; they are
  written as lists of hexadecimal code points, ASCII literals through \<open>asc\<close>.
\<close>

named_theorems py_str \<open>equations of the Python string operations\<close>
named_theorems state_simps \<open>projections of the component states after an operation\<close>
named_theorems inv_intros \<open>preservation of the component invariants\<close>

type_synonym pystr = "int list"

definition asc :: "string \<Rightarrow> pystr" where
  "asc cs = map of_char cs"

lemma asc_Nil [simp]: "asc [] = []"
  by (simp add: asc_def)

lemma asc_Cons [simp]: "asc (c # cs) = of_char c # asc cs"
  by (simp add: asc_def)

text \<open>
  The exceptions the modelled code raises or catches. \<open>AppError\<close> is the business error of
  \<open>backend/core/exceptions.py\<close> (code, message, HTTP status); the other constructors are Python's
  exceptions, with their message where the code uses \<open>str(exc)\<close>.
\<close>

datatype exn =
    AppError pystr pystr int
  | RuntimeError pystr
  | ValueError pystr
  | OtherError pystr

type_synonym 'a result = "exn + 'a"

fun exn_str :: "exn \<Rightarrow> pystr" where
  "exn_str (AppError _ m _) = m"
| "exn_str (RuntimeError m) = m"
| "exn_str (ValueError m) = m"
| "exn_str (OtherError m) = m"

section \<open>Shared facts about lists\<close>

lemma dropWhile_length_le [simp]: "length (dropWhile p xs) \<le> length xs"
  by (rule length_dropWhile_le)

lemma takeWhile_append_dropWhile_filter:
  "filter q xs = filter q (takeWhile p xs) @ filter q (dropWhile p xs)"
  by (metis filter_append takeWhile_dropWhile_id)

lemma filter_dropWhile_idle:
  assumes "\<And>x. p x \<Longrightarrow> \<not> q x"
  shows "filter q (dropWhile p xs) = filter q xs"
  using assms by (induction xs) auto

lemma sorted_wrt_filter_index:
  "sorted_wrt (\<lambda>a b. f a \<ge> (f b :: 'b::linorder)) xs \<Longrightarrow>
   sorted_wrt (\<lambda>a b. f a \<ge> f b) (filter p xs)"
  by (rule sorted_wrt_filter)

lemma sorted_wrt_take_ge:
  "sorted_wrt R xs \<Longrightarrow> x \<in> set (take k xs) \<Longrightarrow> y \<in> set (drop k xs) \<Longrightarrow> R x y"
  by (metis append_take_drop_id sorted_wrt_append)

lemma distinct_map_filter_fst:
  "distinct (map fst xs) \<Longrightarrow> distinct (map fst (filter p xs))"
  by (induction xs) auto

lemma subseq_set: "subseq xs ys \<Longrightarrow> set xs \<subseteq> set ys"
  by (auto simp: subseq_conv_nths dest: in_set_nthsD)

end
