(* ===== verification/Py_Strings.thy ===== *)
theory Py_Strings
  imports Prelude
begin

text \<open>
  The string operations of the Python standard library that the program uses, on lists of
  code points: case folding, stripping, searching, splitting, joining, replacing, slicing and
  decimal conversion. \<open>lower_table\<close> is the simple lower-case mapping of Unicode 14.0 (the
  version of Python 3.11, the image of \<open>Dockerfile.backend\<close>); each entry \<open>(lo, hi, step, d)\<close>
  maps \<open>lo, lo + step, \<dots>, hi\<close> to itself plus \<open>d\<close>. One case is not modelled: the
  context rule that maps a word-final capital sigma to U+03C2 (here U+03C3).
\<close>

section \<open>Case folding\<close>

definition lower_table :: "(int \<times> int \<times> int \<times> int) list" where
  "lower_table = [
    (192, 214, 1, 32), (216, 222, 1, 32), (256, 302, 2, 1), (306, 310, 2, 1), (313, 327, 2, 1),
    (330, 374, 2, 1), (376, 376, 1, -121), (377, 381, 2, 1), (385, 385, 1, 210),
    (386, 388, 2, 1), (390, 390, 1, 206), (391, 391, 1, 1), (393, 394, 1, 205),
    (395, 395, 1, 1), (398, 398, 1, 79), (399, 399, 1, 202), (400, 400, 1, 203),
    (401, 401, 1, 1), (403, 403, 1, 205), (404, 404, 1, 207), (406, 406, 1, 211),
    (407, 407, 1, 209), (408, 408, 1, 1), (412, 412, 1, 211), (413, 413, 1, 213),
    (415, 415, 1, 214), (416, 420, 2, 1), (422, 422, 1, 218), (423, 423, 1, 1),
    (425, 425, 1, 218), (428, 428, 1, 1), (430, 430, 1, 218), (431, 431, 1, 1),
    (433, 434, 1, 217), (435, 437, 2, 1), (439, 439, 1, 219), (440, 440, 1, 1),
    (444, 444, 1, 1), (452, 452, 1, 2), (453, 453, 1, 1), (455, 455, 1, 2), (456, 456, 1, 1),
    (458, 458, 1, 2), (459, 475, 2, 1), (478, 494, 2, 1), (497, 497, 1, 2), (498, 500, 2, 1),
    (502, 502, 1, -97), (503, 503, 1, -56), (504, 542, 2, 1), (544, 544, 1, -130),
    (546, 562, 2, 1), (570, 570, 1, 10795), (571, 571, 1, 1), (573, 573, 1, -163),
    (574, 574, 1, 10792), (577, 577, 1, 1), (579, 579, 1, -195), (580, 580, 1, 69),
    (581, 581, 1, 71), (582, 590, 2, 1), (880, 882, 2, 1), (886, 886, 1, 1),
    (895, 895, 1, 116), (902, 902, 1, 38), (904, 906, 1, 37), (908, 908, 1, 64),
    (910, 911, 1, 63), (913, 929, 1, 32), (931, 939, 1, 32), (975, 975, 1, 8),
    (984, 1006, 2, 1), (1012, 1012, 1, -60), (1015, 1015, 1, 1), (1017, 1017, 1, -7),
    (1018, 1018, 1, 1), (1021, 1023, 1, -130), (1024, 1039, 1, 80), (1040, 1071, 1, 32),
    (1120, 1152, 2, 1), (1162, 1214, 2, 1), (1216, 1216, 1, 15), (1217, 1229, 2, 1),
    (1232, 1326, 2, 1), (1329, 1366, 1, 48), (4256, 4293, 1, 7264), (4295, 4295, 1, 7264),
    (4301, 4301, 1, 7264), (5024, 5103, 1, 38864), (5104, 5109, 1, 8), (7312, 7354, 1, -3008),
    (7357, 7359, 1, -3008), (7680, 7828, 2, 1), (7838, 7838, 1, -7615), (7840, 7934, 2, 1),
    (7944, 7951, 1, -8), (7960, 7965, 1, -8), (7976, 7983, 1, -8), (7992, 7999, 1, -8),
    (8008, 8013, 1, -8), (8025, 8031, 2, -8), (8040, 8047, 1, -8), (8072, 8079, 1, -8),
    (8088, 8095, 1, -8), (8104, 8111, 1, -8), (8120, 8121, 1, -8), (8122, 8123, 1, -74),
    (8124, 8124, 1, -9), (8136, 8139, 1, -86), (8140, 8140, 1, -9), (8152, 8153, 1, -8),
    (8154, 8155, 1, -100), (8168, 8169, 1, -8), (8170, 8171, 1, -112), (8172, 8172, 1, -7),
    (8184, 8185, 1, -128), (8186, 8187, 1, -126), (8188, 8188, 1, -9), (8486, 8486, 1, -7517),
    (8490, 8490, 1, -8383), (8491, 8491, 1, -8262), (8498, 8498, 1, 28), (8544, 8559, 1, 16),
    (8579, 8579, 1, 1), (9398, 9423, 1, 26), (11264, 11311, 1, 48), (11360, 11360, 1, 1),
    (11362, 11362, 1, -10743), (11363, 11363, 1, -3814), (11364, 11364, 1, -10727),
    (11367, 11371, 2, 1), (11373, 11373, 1, -10780), (11374, 11374, 1, -10749),
    (11375, 11375, 1, -10783), (11376, 11376, 1, -10782), (11378, 11378, 1, 1),
    (11381, 11381, 1, 1), (11390, 11391, 1, -10815), (11392, 11490, 2, 1),
    (11499, 11501, 2, 1), (11506, 11506, 1, 1), (42560, 42604, 2, 1), (42624, 42650, 2, 1),
    (42786, 42798, 2, 1), (42802, 42862, 2, 1), (42873, 42875, 2, 1),
    (42877, 42877, 1, -35332), (42878, 42886, 2, 1), (42891, 42891, 1, 1),
    (42893, 42893, 1, -42280), (42896, 42898, 2, 1), (42902, 42920, 2, 1),
    (42922, 42922, 1, -42308), (42923, 42923, 1, -42319), (42924, 42924, 1, -42315),
    (42925, 42925, 1, -42305), (42926, 42926, 1, -42308), (42928, 42928, 1, -42258),
    (42929, 42929, 1, -42282), (42930, 42930, 1, -42261), (42931, 42931, 1, 928),
    (42932, 42946, 2, 1), (42948, 42948, 1, -48), (42949, 42949, 1, -42307),
    (42950, 42950, 1, -35384), (42951, 42953, 2, 1), (42960, 42960, 1, 1),
    (42966, 42968, 2, 1), (42997, 42997, 1, 1), (65313, 65338, 1, 32), (66560, 66599, 1, 40),
    (66736, 66771, 1, 40), (66928, 66964, 2, 39), (66929, 66937, 2, 39), (66941, 66953, 2, 39),
    (66957, 66961, 2, 39), (66965, 66965, 1, 39), (68736, 68786, 1, 64), (71840, 71871, 1, 32),
    (93760, 93791, 1, 32), (125184, 125217, 1, 34)]"

fun lower_ranges :: "(int \<times> int \<times> int \<times> int) list \<Rightarrow> int \<Rightarrow> int" where
  "lower_ranges [] c = c"
| "lower_ranges ((lo, hi, st, d) # rs) c =
     (if lo \<le> c \<and> c \<le> hi \<and> (c - lo) mod st = 0 then c + d else lower_ranges rs c)"

text \<open>The two guards before the table are short cuts over ranges without upper-case letters.\<close>

definition lower_cp :: "int \<Rightarrow> pystr" where
  "lower_cp c =
     (if c < 128 then (if 65 \<le> c \<and> c \<le> 90 then [c + 32] else [c])
      else if 0x2CF3 \<le> c \<and> c < 0xA640 then [c]
      else if c = 0x130 then [105, 775]
      else [lower_ranges lower_table c])"

definition py_lower :: "pystr \<Rightarrow> pystr" where
  "py_lower s = concat (map lower_cp s)"

text \<open>
  \<open>str.upper\<close>, exact for a comparison with an ASCII word: only the code points below have an
  upper case made of ASCII letters; every other non-ASCII code point is left as it is.
\<close>

definition upper_cp :: "int \<Rightarrow> pystr" where
  "upper_cp c =
     (if 97 \<le> c \<and> c \<le> 122 then [c - 32]
      else if c = 0xDF then (asc ''SS'') else if c = 0x131 then (asc ''I'') else if c = 0x17F then (asc ''S'')
      else if c = 0xFB00 then (asc ''FF'') else if c = 0xFB01 then (asc ''FI'') else if c = 0xFB02 then (asc ''FL'')
      else if c = 0xFB03 then (asc ''FFI'') else if c = 0xFB04 then (asc ''FFL'')
      else if c = 0xFB05 \<or> c = 0xFB06 then (asc ''ST'') else [c])"

definition py_upper :: "pystr \<Rightarrow> pystr" where
  "py_upper s = concat (map upper_cp s)"

definition is_ascii_upper :: "int \<Rightarrow> bool" where
  "is_ascii_upper c \<longleftrightarrow> 65 \<le> c \<and> c \<le> 90"

lemma py_lower_Nil [simp]: "py_lower [] = []"
  by (simp add: py_lower_def)

lemma py_lower_append [simp]: "py_lower (s @ t) = py_lower s @ py_lower t"
  by (simp add: py_lower_def)

lemma py_lower_Cons [simp]: "py_lower (c # s) = lower_cp c @ py_lower s"
  by (simp add: py_lower_def)

lemma lower_cp_ascii: "c < 128 \<Longrightarrow> \<not> is_ascii_upper c \<Longrightarrow> lower_cp c = [c]"
  by (auto simp: lower_cp_def is_ascii_upper_def)

lemma lower_cp_cjk: "0x2CF3 \<le> c \<Longrightarrow> c < 0xA640 \<Longrightarrow> lower_cp c = [c]"
  by (auto simp: lower_cp_def)

lemma lower_cp_not_Nil [simp]: "lower_cp c \<noteq> []"
  by (auto simp: lower_cp_def)

lemma py_lower_eq_Nil [simp]: "py_lower s = [] \<longleftrightarrow> s = []"
  by (cases s) auto

lemma py_lower_fixed:
  "\<forall>c\<in>set s. (c < 128 \<and> \<not> is_ascii_upper c) \<or> (0x2CF3 \<le> c \<and> c < 0xA640) \<Longrightarrow> py_lower s = s"
  by (induction s) (auto simp: lower_cp_ascii lower_cp_cjk)

text \<open>No upper-case ASCII letter is left.\<close>

lemma lower_ranges_not_upper:
  "\<not> is_ascii_upper c \<Longrightarrow> \<forall>(lo, hi, st, d)\<in>set tab. 90 < lo + d \<Longrightarrow> \<not> is_ascii_upper (lower_ranges tab c)"
  by (induction tab c rule: lower_ranges.induct) (auto simp: is_ascii_upper_def)

lemma py_lower_not_upper: "c \<in> set (py_lower s) \<Longrightarrow> \<not> is_ascii_upper c"
proof (induction s)
  case (Cons b s)
  have "\<forall>x\<in>set (lower_cp b). \<not> is_ascii_upper x"
    using lower_ranges_not_upper [of b lower_table]
    by (auto simp: lower_cp_def is_ascii_upper_def lower_table_def simp del: lower_ranges.simps)
  with Cons show ?case by auto
qed simp

section \<open>White space and stripping\<close>

definition py_space :: "int \<Rightarrow> bool" where
  "py_space c \<longleftrightarrow> (9 \<le> c \<and> c \<le> 13) \<or> (28 \<le> c \<and> c \<le> 32) \<or> c = 0x85 \<or> c = 0xA0 \<or> c = 0x1680
     \<or> (0x2000 \<le> c \<and> c \<le> 0x200A) \<or> c = 0x2028 \<or> c = 0x2029 \<or> c = 0x202F \<or> c = 0x205F \<or> c = 0x3000"

definition lstrip_by :: "(int \<Rightarrow> bool) \<Rightarrow> pystr \<Rightarrow> pystr" where
  "lstrip_by p s = dropWhile p s"

definition rstrip_by :: "(int \<Rightarrow> bool) \<Rightarrow> pystr \<Rightarrow> pystr" where
  "rstrip_by p s = rev (dropWhile p (rev s))"

definition strip_by :: "(int \<Rightarrow> bool) \<Rightarrow> pystr \<Rightarrow> pystr" where
  "strip_by p s = rstrip_by p (lstrip_by p s)"

definition py_strip :: "pystr \<Rightarrow> pystr" where
  "py_strip s = strip_by py_space s"

text \<open>\<open>s.strip().strip('\"').strip(\"'\")\<close>, the clean-up of environment values.\<close>

definition strip_env :: "pystr \<Rightarrow> pystr" where
  "strip_env s = strip_by (\<lambda>c. c = 39) (strip_by (\<lambda>c. c = 34) (py_strip s))"

lemma strip_by_Nil [simp]: "strip_by p [] = []"
  by (simp add: strip_by_def rstrip_by_def lstrip_by_def)

lemma rstrip_by_prefix: "\<exists>t. s = rstrip_by p s @ t \<and> (\<forall>c\<in>set t. p c)"
proof -
  have "rev s = takeWhile p (rev s) @ dropWhile p (rev s)" by simp
  then have "s = rev (dropWhile p (rev s)) @ rev (takeWhile p (rev s))"
    by (metis rev_append rev_rev_ident)
  moreover have "\<forall>c\<in>set (rev (takeWhile p (rev s))). p c"
    using set_takeWhileD by fastforce
  ultimately show ?thesis unfolding rstrip_by_def by blast
qed

lemma strip_by_split: "\<exists>u t. s = u @ strip_by p s @ t \<and> (\<forall>c\<in>set u. p c) \<and> (\<forall>c\<in>set t. p c)"
proof -
  obtain t where "lstrip_by p s = strip_by p s @ t" "\<forall>c\<in>set t. p c"
    using rstrip_by_prefix [of "lstrip_by p s" p] by (auto simp: strip_by_def)
  moreover have "s = takeWhile p s @ lstrip_by p s" by (simp add: lstrip_by_def)
  moreover have "\<forall>c\<in>set (takeWhile p s). p c" using set_takeWhileD by fastforce
  ultimately show ?thesis by metis
qed

lemma strip_by_length [simp]: "length (strip_by p s) \<le> length s"
proof -
  obtain u t where "s = u @ strip_by p s @ t" using strip_by_split by blast
  then have "length s = length (u @ strip_by p s @ t)" by simp
  then show ?thesis by simp
qed

lemma py_strip_length [simp]: "length (py_strip s) \<le> length s"
  by (simp add: py_strip_def)

lemma strip_by_set: "set (strip_by p s) \<subseteq> set s"
proof -
  obtain u t where "s = u @ strip_by p s @ t" using strip_by_split by blast
  then have "set s = set (u @ strip_by p s @ t)" by simp
  then show ?thesis by auto
qed

lemma strip_by_sublist: "sublist (strip_by p s) s"
  using strip_by_split [of s p] unfolding sublist_def by metis

lemma rstrip_by_last: "rstrip_by p s \<noteq> [] \<Longrightarrow> \<not> p (last (rstrip_by p s))"
  by (simp add: rstrip_by_def last_rev hd_dropWhile)

lemma rstrip_by_hd: "rstrip_by p s \<noteq> [] \<Longrightarrow> hd (rstrip_by p s) = hd s"
  by (metis append_is_Nil_conv hd_append2 rstrip_by_prefix)

lemma strip_by_last: "strip_by p s \<noteq> [] \<Longrightarrow> \<not> p (last (strip_by p s))"
  by (simp add: strip_by_def rstrip_by_last)

lemma strip_by_hd: "strip_by p s \<noteq> [] \<Longrightarrow> \<not> p (hd (strip_by p s))"
proof -
  assume ne: "strip_by p s \<noteq> []"
  then have "lstrip_by p s \<noteq> []" by (auto simp: strip_by_def rstrip_by_def)
  moreover have "hd (strip_by p s) = hd (lstrip_by p s)"
    using ne by (simp add: strip_by_def rstrip_by_hd)
  ultimately show ?thesis by (simp add: lstrip_by_def hd_dropWhile)
qed

lemma strip_by_idle: "s = [] \<or> (\<not> p (hd s) \<and> \<not> p (last s)) \<Longrightarrow> strip_by p s = s"
proof -
  assume a: "s = [] \<or> (\<not> p (hd s) \<and> \<not> p (last s))"
  have "lstrip_by p s = s" using a by (cases s) (auto simp: lstrip_by_def)
  moreover have "rstrip_by p s = s"
    using a by (cases s rule: rev_cases) (auto simp: rstrip_by_def)
  ultimately show ?thesis by (simp add: strip_by_def)
qed

lemma strip_by_idem [simp]: "strip_by p (strip_by p s) = strip_by p s"
  by (rule strip_by_idle) (use strip_by_hd strip_by_last in blast)

lemma py_strip_idem [simp]: "py_strip (py_strip s) = py_strip s"
  by (simp add: py_strip_def)

lemma py_strip_Nil [simp]: "py_strip [] = []"
  by (simp add: py_strip_def)

lemma strip_by_filter:
  assumes "\<And>c. p c \<Longrightarrow> \<not> q c"
  shows "filter q (strip_by p s) = filter q s"
proof -
  obtain u t where s: "s = u @ strip_by p s @ t" "\<forall>c\<in>set u. p c" "\<forall>c\<in>set t. p c"
    using strip_by_split by blast
  have "filter q u = []" "filter q t = []" using s(2,3) assms by (auto simp: filter_empty_conv)
  moreover have "filter q s = filter q (u @ strip_by p s @ t)" using s(1) by simp
  ultimately show ?thesis by simp
qed

section \<open>Searching, splitting, joining, replacing\<close>

text \<open>\<open>needle in hay\<close>\<close>

fun py_in :: "pystr \<Rightarrow> pystr \<Rightarrow> bool" where
  "py_in n [] \<longleftrightarrow> n = []"
| "py_in n (c # h) \<longleftrightarrow> prefix n (c # h) \<or> py_in n h"

text \<open>\<open>any(marker in s for marker in markers)\<close>, the test of all intent classifiers.\<close>

definition any_in :: "pystr list \<Rightarrow> pystr \<Rightarrow> bool" where
  "any_in markers s \<longleftrightarrow> list_ex (\<lambda>m. py_in m s) markers"

definition starts_with :: "pystr \<Rightarrow> pystr \<Rightarrow> bool" where
  "starts_with s p \<longleftrightarrow> prefix p s"

definition ends_with :: "pystr \<Rightarrow> pystr \<Rightarrow> bool" where
  "ends_with s p \<longleftrightarrow> suffix p s"

lemma py_in_sublist: "py_in n h \<longleftrightarrow> sublist n h"
  by (induction n h rule: py_in.induct) (auto simp: sublist_Cons_right)

lemma py_in_append: "py_in n h \<Longrightarrow> py_in n (u @ h @ v)"
  by (auto simp: py_in_sublist sublist_def) (metis append.assoc)

lemma any_in_iff: "any_in ms s \<longleftrightarrow> (\<exists>m\<in>set ms. sublist m s)"
  by (auto simp: any_in_def list_ex_iff py_in_sublist)

lemma any_in_append: "any_in ms h \<Longrightarrow> any_in ms (u @ h @ v)"
  unfolding any_in_def list_ex_iff using py_in_append by blast

text \<open>\<open>s.split(sep)\<close> for a non-empty separator; \<open>acc\<close> holds the current piece reversed.\<close>

function split_aux :: "pystr \<Rightarrow> pystr \<Rightarrow> pystr \<Rightarrow> pystr list" where
  "split_aux sep acc s =
     (case s of
        [] \<Rightarrow> [rev acc]
      | c # t \<Rightarrow>
          if sep \<noteq> [] \<and> prefix sep s then rev acc # split_aux sep [] (drop (length sep) s)
          else split_aux sep (c # acc) t)"
  by pat_completeness auto
termination
  by (relation "measure (\<lambda>(sep, acc, s). length s)") (auto simp: length_greater_0_conv)

definition py_split :: "pystr \<Rightarrow> pystr \<Rightarrow> pystr list" where
  "py_split sep s = split_aux sep [] s"

fun py_join :: "pystr \<Rightarrow> pystr list \<Rightarrow> pystr" where
  "py_join sep [] = []"
| "py_join sep [x] = x"
| "py_join sep (x # y # zs) = x @ sep @ py_join sep (y # zs)"

text \<open>\<open>s.replace(old, new)\<close> for a non-empty \<open>old\<close>.\<close>

definition py_replace :: "pystr \<Rightarrow> pystr \<Rightarrow> pystr \<Rightarrow> pystr" where
  "py_replace old new s = py_join new (py_split old s)"

declare split_aux.simps [simp del]

lemma split_aux_Nil: "split_aux sep acc [] = [rev acc]"
  by (simp add: split_aux.simps)

lemma split_aux_hit:
  "s = c # t \<Longrightarrow> sep \<noteq> [] \<and> prefix sep s \<Longrightarrow>
   split_aux sep acc s = rev acc # split_aux sep [] (drop (length sep) s)"
  by (subst split_aux.simps) simp

lemma split_aux_miss:
  "s = c # t \<Longrightarrow> \<not> (sep \<noteq> [] \<and> prefix sep s) \<Longrightarrow> split_aux sep acc s = split_aux sep (c # acc) t"
  by (subst split_aux.simps) auto

lemma split_aux_not_Nil [simp]: "split_aux sep acc s \<noteq> []"
  by (induction sep acc s rule: split_aux.induct)
     (subst split_aux.simps, auto split: list.splits)

lemma py_join_Cons: "xs \<noteq> [] \<Longrightarrow> py_join sep (x # xs) = x @ sep @ py_join sep xs"
  by (cases xs) auto

lemma join_split_aux: "py_join sep (split_aux sep acc s) = rev acc @ s"
proof (induction sep acc s rule: split_aux.induct)
  case (1 sep acc s)
  show ?case
  proof (cases s)
    case Nil
    then show ?thesis by (simp add: split_aux.simps)
  next
    case (Cons c t)
    show ?thesis
    proof (cases "sep \<noteq> [] \<and> prefix sep s")
      case True
      then have "sep @ drop (length sep) s = s" by (auto simp: prefix_def)
      then show ?thesis
        using "1.IH"(1) [OF Cons True] split_aux_hit [OF Cons True] by (simp add: py_join_Cons)
    next
      case False
      then show ?thesis
        using Cons "1.IH"(2) [OF Cons False] split_aux_miss [OF Cons False] by simp
    qed
  qed
qed

lemma join_split [simp]: "py_join sep (py_split sep s) = s"
  by (simp add: py_split_def join_split_aux)

lemma py_split_not_Nil [simp]: "py_split sep s \<noteq> []"
  by (simp add: py_split_def)

lemma length_split_aux:
  "x \<in> set (split_aux sep acc s) \<Longrightarrow> length x \<le> length acc + length s"
proof (induction sep acc s rule: split_aux.induct)
  case (1 sep acc s)
  show ?case
  proof (cases s)
    case Nil
    with "1.prems" show ?thesis by (simp add: split_aux.simps)
  next
    case (Cons c t)
    show ?thesis
    proof (cases "sep \<noteq> [] \<and> prefix sep s")
      case True
      have "x = rev acc \<or> x \<in> set (split_aux sep [] (drop (length sep) s))"
        using "1.prems" split_aux_hit [OF Cons True] by simp
      then show ?thesis using "1.IH"(1) [OF Cons True] by auto
    next
      case False
      have "x \<in> set (split_aux sep (c # acc) t)"
        using "1.prems" split_aux_miss [OF Cons False] by simp
      from "1.IH"(2) [OF Cons False this] Cons show ?thesis by simp
    qed
  qed
qed

text \<open>A single-character separator does not occur in the pieces.\<close>

lemma split_aux_single_free:
  "x \<in> set (split_aux [c] acc s) \<Longrightarrow> c \<notin> set acc \<Longrightarrow> c \<notin> set x"
proof (induction s arbitrary: acc)
  case Nil
  then show ?case by (simp add: split_aux_Nil)
next
  case (Cons d t)
  show ?case
  proof (cases "c = d")
    case True
    then have "split_aux [c] acc (d # t) = rev acc # split_aux [c] [] t"
      by (simp add: split_aux_hit)
    then show ?thesis using Cons.prems Cons.IH [of "[]"] by auto
  next
    case False
    then have "split_aux [c] acc (d # t) = split_aux [c] (d # acc) t"
      by (simp add: split_aux_miss)
    then show ?thesis using Cons False by auto
  qed
qed

lemma py_split_single_free: "x \<in> set (py_split [c] s) \<Longrightarrow> c \<notin> set x"
  unfolding py_split_def by (rule split_aux_single_free) auto

lemma py_join_free: "\<forall>x\<in>set xs. c \<notin> set x \<Longrightarrow> c \<notin> set sep \<Longrightarrow> c \<notin> set (py_join sep xs)"
  by (induction sep xs rule: py_join.induct) auto

lemma py_replace_single_free: "c \<notin> set new \<Longrightarrow> c \<notin> set (py_replace [c] new s)"
  by (simp add: py_replace_def py_join_free py_split_single_free)

lemma py_join_set: "set (py_join sep xs) \<subseteq> set sep \<union> (\<Union>x\<in>set xs. set x)"
  by (induction sep xs rule: py_join.induct) auto

lemma py_join_length:
  "xs \<noteq> [] \<Longrightarrow> length (py_join sep xs) + length sep = sum_list (map (\<lambda>x. length x + length sep) xs)"
  by (induction sep xs rule: py_join.induct) auto

lemma py_join_append:
  "xs \<noteq> [] \<Longrightarrow> ys \<noteq> [] \<Longrightarrow> py_join sep (xs @ ys) = py_join sep xs @ sep @ py_join sep ys"
  by (induction sep xs rule: py_join.induct) (auto simp: py_join_Cons)

section \<open>Slices, truthiness, decimal numbers\<close>

text \<open>\<open>xs[:k]\<close>; a negative bound counts from the end.\<close>

definition py_take :: "int \<Rightarrow> 'a list \<Rightarrow> 'a list" where
  "py_take k xs = (if 0 \<le> k then take (nat k) xs else take (length xs - nat (- k)) xs)"

text \<open>\<open>a or b\<close> on strings.\<close>

definition str_or :: "pystr \<Rightarrow> pystr \<Rightarrow> pystr" where
  "str_or a b = (if a = [] then b else a)"

fun show_nat :: "nat \<Rightarrow> pystr" where
  "show_nat n = (if n < 10 then [48 + int n] else show_nat (n div 10) @ [48 + int (n mod 10)])"

declare show_nat.simps [simp del]

definition show_int :: "int \<Rightarrow> pystr" where
  "show_int i = (if i < 0 then 45 # show_nat (nat (- i)) else show_nat (nat i))"

lemma py_take_set: "set (py_take k xs) \<subseteq> set xs"
  by (auto simp: py_take_def dest: in_set_takeD)

lemma py_take_length: "0 \<le> k \<Longrightarrow> length (py_take k xs) \<le> nat k"
  by (simp add: py_take_def)

lemma py_take_all: "int (length xs) \<le> k \<Longrightarrow> py_take k xs = xs"
  by (simp add: py_take_def)

lemma py_take_Nil [simp]: "py_take k [] = []"
  by (simp add: py_take_def)

lemma show_nat_not_Nil [simp]: "show_nat n \<noteq> []"
  by (subst show_nat.simps) simp

definition read_digits :: "pystr \<Rightarrow> nat" where
  "read_digits s = foldl (\<lambda>n c. 10 * n + nat (c - 48)) 0 s"

lemma read_show_nat [simp]: "read_digits (show_nat n) = n"
proof (induction n rule: show_nat.induct)
  case (1 n)
  show ?case
  proof (cases "n < 10")
    case True
    then show ?thesis by (simp add: show_nat.simps [of n] read_digits_def)
  next
    case False
    then have "read_digits (show_nat n) = 10 * read_digits (show_nat (n div 10)) + n mod 10"
      by (simp add: show_nat.simps [of n] read_digits_def nat_mod_distrib)
    with 1 False show ?thesis by simp
  qed
qed

lemma show_nat_inject [simp]: "show_nat m = show_nat n \<longleftrightarrow> m = n"
  by (metis read_show_nat)

lemma show_nat_digits: "c \<in> set (show_nat n) \<Longrightarrow> 48 \<le> c \<and> c \<le> 57"
proof (induction n rule: show_nat.induct)
  case (1 n)
  then show ?case by (cases "n < 10") (auto simp: show_nat.simps [of n])
qed

lemma show_int_inject [simp]: "show_int i = show_int j \<longleftrightarrow> i = j"
proof
  assume eq: "show_int i = show_int j"
  have minus: "45 \<notin> set (show_nat n)" for n using show_nat_digits [of 45 n] by auto
  show "i = j"
  proof (cases "i < 0"; cases "j < 0")
    assume "i < 0" "\<not> j < 0"
    with eq have "45 \<in> set (show_nat (nat j))" by (metis list.set_intros(1) show_int_def)
    with minus show ?thesis by blast
  next
    assume "\<not> i < 0" "j < 0"
    with eq have "45 \<in> set (show_nat (nat i))" by (metis list.set_intros(1) show_int_def)
    with minus show ?thesis by blast
  qed (use eq in \<open>auto simp: show_int_def\<close>)
qed simp

end
