(* ===== verification/Py_Regex.thy ===== *)
theory Py_Regex
  imports Py_Strings
begin

text \<open>
  The part of Python's \<open>re\<close> module that the program uses. A pattern is a value of \<open>re\<close>; its
  meaning is \<open>re_matches\<close>, the list of all ways the pattern matches a prefix of the input, in
  the order a backtracking matcher tries them (alternatives left to right, greedy repetition:
  one more iteration first). An entry holds the rest of the input and the captured groups. The
  match Python reports is the first entry, so greediness and backtracking are both explicit.
  \<open>re_search\<close>, \<open>re_sub\<close>, \<open>re_findall\<close> scan from left to right without overlap, as the module
  does. Every pattern of the source is written in this type where it is used.
\<close>

datatype re =
    Cls "int \<Rightarrow> bool"
  | Eps
  | Cat re re
  | Alt re re
  | Star re
  | Grp re

type_synonym re_match = "pystr \<times> pystr list"

function re_matches :: "re \<Rightarrow> pystr \<Rightarrow> re_match list" where
  "re_matches (Cls p) s =
     (case s of [] \<Rightarrow> [] | c # t \<Rightarrow> if p c then [(t, [])] else [])"
| "re_matches Eps s = [(s, [])]"
| "re_matches (Cat a b) s =
     concat (map (\<lambda>m. map (\<lambda>n. (fst n, snd m @ snd n)) (re_matches b (fst m))) (re_matches a s))"
| "re_matches (Alt a b) s = re_matches a s @ re_matches b s"
| "re_matches (Star a) s =
     concat (map (\<lambda>m. if length (fst m) < length s
                      then map (\<lambda>n. (fst n, snd m @ snd n)) (re_matches (Star a) (fst m))
                      else []) (re_matches a s)) @ [(s, [])]"
| "re_matches (Grp a) s =
     map (\<lambda>m. (fst m, snd m @ [take (length s - length (fst m)) s])) (re_matches a s)"
  by pat_completeness auto
termination
  by (relation "measure size <*lex*> measure length") auto

section \<open>Derived patterns\<close>

definition Plus :: "re \<Rightarrow> re" where
  "Plus a = Cat a (Star a)"

definition Opt :: "re \<Rightarrow> re" where
  "Opt a = Alt a Eps"

definition Chr :: "int \<Rightarrow> re" where
  "Chr c = Cls (\<lambda>x. x = c)"

fun Lit :: "pystr \<Rightarrow> re" where
  "Lit [] = Eps"
| "Lit (c # s) = Cat (Chr c) (Lit s)"

fun Alts :: "re list \<Rightarrow> re" where
  "Alts [] = Cls (\<lambda>_. False)"
| "Alts [a] = a"
| "Alts (a # b # rs) = Alt a (Alts (b # rs))"

fun Rep :: "nat \<Rightarrow> re \<Rightarrow> re" where
  "Rep 0 a = Eps"
| "Rep (Suc n) a = Cat a (Rep n a)"

fun UpTo :: "nat \<Rightarrow> re \<Rightarrow> re" where
  "UpTo 0 a = Eps"
| "UpTo (Suc n) a = Opt (Cat a (UpTo n a))"

text \<open>The dot: every character but the newline.\<close>

definition Dot :: re where
  "Dot = Cls (\<lambda>c. c \<noteq> 10)"

definition Spaces :: re where
  "Spaces = Star (Cls py_space)"

section \<open>Matching, searching, replacing\<close>

definition re_first :: "re \<Rightarrow> pystr \<Rightarrow> re_match option" where
  "re_first r s = (case re_matches r s of [] \<Rightarrow> None | m # _ \<Rightarrow> Some m)"

fun re_search :: "re \<Rightarrow> pystr \<Rightarrow> re_match option" where
  "re_search r [] = re_first r []"
| "re_search r (c # t) = (case re_first r (c # t) of Some m \<Rightarrow> Some m | None \<Rightarrow> re_search r t)"

text \<open>Group 1 of the leftmost match.\<close>

definition re_search1 :: "re \<Rightarrow> pystr \<Rightarrow> pystr option" where
  "re_search1 r s = (case re_search r s of Some (_, g # _) \<Rightarrow> Some g | _ \<Rightarrow> None)"

definition re_found :: "re \<Rightarrow> pystr \<Rightarrow> bool" where
  "re_found r s \<longleftrightarrow> re_search r s \<noteq> None"

text \<open>\<open>re.sub(r, f, s)\<close>; \<open>f\<close> maps the captured groups to the replacement.\<close>

function re_sub :: "re \<Rightarrow> (pystr list \<Rightarrow> pystr) \<Rightarrow> pystr \<Rightarrow> pystr" where
  "re_sub r f s =
     (case re_first r s of
        Some m \<Rightarrow>
          (if length (fst m) < length s then f (snd m) @ re_sub r f (fst m)
           else f (snd m) @ (case s of [] \<Rightarrow> [] | c # t \<Rightarrow> c # re_sub r f t))
      | None \<Rightarrow> (case s of [] \<Rightarrow> [] | c # t \<Rightarrow> c # re_sub r f t))"
  by pat_completeness auto
termination
  by (relation "measure (\<lambda>(r, f, s). length s)") auto

text \<open>\<open>re.findall(r, s)\<close> for a pattern without groups that never matches the empty string.\<close>

function re_findall :: "re \<Rightarrow> pystr \<Rightarrow> pystr list" where
  "re_findall r s =
     (case re_first r s of
        Some m \<Rightarrow>
          (if length (fst m) < length s
           then take (length s - length (fst m)) s # re_findall r (fst m)
           else (case s of [] \<Rightarrow> [] | c # t \<Rightarrow> re_findall r t))
      | None \<Rightarrow> (case s of [] \<Rightarrow> [] | c # t \<Rightarrow> re_findall r t))"
  by pat_completeness auto
termination
  by (relation "measure (\<lambda>(r, s). length s)") auto

text \<open>\<open>re.split(r\"[...]\", s)\<close> at every single character of a class.\<close>

fun re_split_cls :: "(int \<Rightarrow> bool) \<Rightarrow> pystr \<Rightarrow> pystr list" where
  "re_split_cls p [] = [[]]"
| "re_split_cls p (c # s) =
     (if p c then [] # re_split_cls p s
      else (case re_split_cls p s of [] \<Rightarrow> [[c]] | w # ws \<Rightarrow> (c # w) # ws))"

text \<open>A pattern anchored with \<open>^\<close>: only a match at the start counts.\<close>

definition re_sub_start :: "re \<Rightarrow> pystr \<Rightarrow> pystr" where
  "re_sub_start r s = (case re_first r s of Some m \<Rightarrow> fst m | None \<Rightarrow> s)"

declare re_matches.simps(5) [simp del]
declare re_sub.simps [simp del]
declare re_findall.simps [simp del]

section \<open>Facts about the matcher\<close>

text \<open>A match leaves a suffix of the input.\<close>

lemma re_matches_suffix: "m \<in> set (re_matches r s) \<Longrightarrow> suffix (fst m) s"
proof (induction r s arbitrary: m rule: re_matches.induct)
  case (1 p s)
  then show ?case by (auto split: list.splits if_splits simp: suffix_Cons)
next
  case (2 s)
  then show ?case by simp
next
  case (3 a b s)
  from "3.prems" obtain k n where "k \<in> set (re_matches a s)" "n \<in> set (re_matches b (fst k))"
    "fst m = fst n" by auto
  then show ?case using "3.IH" by (metis suffix_order.trans)
next
  case (4 a b s)
  then have "m \<in> set (re_matches a s) \<or> m \<in> set (re_matches b s)" by simp
  then show ?case using "4.IH" by blast
next
  case (5 a s)
  from "5.prems" have "fst m = s \<or> (\<exists>k\<in>set (re_matches a s). length (fst k) < length s
      \<and> (\<exists>n\<in>set (re_matches (Star a) (fst k)). fst m = fst n))"
    by (subst (asm) re_matches.simps(5)) (fastforce split: if_splits)
  then show ?case using "5.IH" by (metis suffix_order.refl suffix_order.trans)
next
  case (6 a s)
  then show ?case by auto
qed

lemma re_first_in: "re_first r s = Some m \<Longrightarrow> m \<in> set (re_matches r s)"
  by (cases "re_matches r s") (auto simp: re_first_def)

lemma re_first_suffix: "re_first r s = Some m \<Longrightarrow> suffix (fst m) s"
  by (rule re_matches_suffix) (rule re_first_in)

lemma re_search_suffix: "re_search r s = Some m \<Longrightarrow> suffix (fst m) s"
  by (induction r s rule: re_search.induct)
     (auto split: option.splits dest: re_first_suffix intro: suffix_ConsI)

lemma re_matches_Cls_Cons [simp]:
  "re_matches (Cls p) (c # t) = (if p c then [(t, [])] else [])"
  by simp

lemma re_matches_Cls_Nil [simp]: "re_matches (Cls p) [] = []"
  by simp

lemma re_matches_Cat_Cls:
  "re_matches (Cat (Cls p) b) s =
     (case s of [] \<Rightarrow> [] | c # t \<Rightarrow> if p c then re_matches b t else [])"
  by (cases s) auto

lemma re_matches_Cat_Chr:
  "re_matches (Cat (Chr x) b) s =
     (case s of [] \<Rightarrow> [] | c # t \<Rightarrow> if c = x then re_matches b t else [])"
  by (cases s) (auto simp: Chr_def)

text \<open>Greedy repetition of a class consumes the longest prefix inside the class.\<close>

lemma re_matches_Star_Cls_Cons:
  "re_matches (Star (Cls p)) (c # t) =
     (if p c then re_matches (Star (Cls p)) t else []) @ [(c # t, [])]"
  by (subst re_matches.simps(5)) (simp add: case_prod_beta)

lemma re_first_Star_Cls: "re_first (Star (Cls p)) s = Some (dropWhile p s, [])"
proof -
  have "\<exists>ms. re_matches (Star (Cls p)) s = (dropWhile p s, []) # ms"
    by (induction s) (auto simp: re_matches_Star_Cls_Cons re_matches.simps(5) [of _ "[]"])
  then show ?thesis by (auto simp: re_first_def)
qed

lemma re_first_Plus_Cls:
  "re_first (Plus (Cls p)) s =
     (case s of [] \<Rightarrow> None | c # t \<Rightarrow> if p c then Some (dropWhile p t, []) else None)"
  using re_first_Star_Cls [of p]
  by (cases s) (auto simp: Plus_def re_matches_Cat_Cls re_first_def simp del: re_matches.simps)

lemma re_sub_Nil:
  "re_first r [] = None \<Longrightarrow> re_sub r f [] = []"
  by (simp add: re_sub.simps)

lemma re_sub_hit:
  "re_first r s = Some m \<Longrightarrow> length (fst m) < length s \<Longrightarrow> re_sub r f s = f (snd m) @ re_sub r f (fst m)"
  by (subst re_sub.simps) simp

lemma re_sub_miss: "re_first r (c # t) = None \<Longrightarrow> re_sub r f (c # t) = c # re_sub r f t"
  by (subst re_sub.simps) simp

text \<open>\<open>re.sub(r\"[...]+\", rep, s)\<close> as a plain recursion.\<close>

lemma re_sub_Plus_Cls_Nil: "re_sub (Plus (Cls p)) f [] = []"
  by (simp add: re_sub_Nil re_first_Plus_Cls)

lemma re_sub_Plus_Cls_Cons:
  "re_sub (Plus (Cls p)) f (c # t) =
     (if p c then f [] @ re_sub (Plus (Cls p)) f (dropWhile p t)
      else c # re_sub (Plus (Cls p)) f t)"
proof (cases "p c")
  case True
  then have "re_first (Plus (Cls p)) (c # t) = Some (dropWhile p t, [])"
    by (simp add: re_first_Plus_Cls)
  then show ?thesis using True by (subst re_sub_hit) (auto simp: le_imp_less_Suc)
next
  case False
  then show ?thesis by (simp add: re_sub_miss re_first_Plus_Cls)
qed

lemmas re_sub_Plus_Cls = re_sub_Plus_Cls_Nil re_sub_Plus_Cls_Cons

lemma re_findall_Plus_Cls_Nil: "re_findall (Plus (Cls p)) [] = []"
  by (subst re_findall.simps) (simp add: re_first_Plus_Cls)

lemma re_findall_Plus_Cls_Cons:
  "re_findall (Plus (Cls p)) (c # t) =
     (if p c then (c # takeWhile p t) # re_findall (Plus (Cls p)) (dropWhile p t)
      else re_findall (Plus (Cls p)) t)"
proof -
  have "take (length t - length (dropWhile p t)) t = takeWhile p t"
    by (metis add_diff_cancel_right' append_eq_conv_conj length_append takeWhile_dropWhile_id)
  moreover have "length (c # t) - length (dropWhile p t) = Suc (length t - length (dropWhile p t))"
    by (simp add: Suc_diff_le)
  ultimately show ?thesis
    by (subst re_findall.simps) (auto simp: re_first_Plus_Cls le_imp_less_Suc)
qed

lemmas re_findall_Plus_Cls = re_findall_Plus_Cls_Nil re_findall_Plus_Cls_Cons

text \<open>Every maximal run that \<open>findall\<close> of a class returns is non-empty and inside the class.\<close>

lemma re_findall_Plus_Cls_runs:
  "w \<in> set (re_findall (Plus (Cls p)) s) \<Longrightarrow> w \<noteq> [] \<and> (\<forall>c\<in>set w. p c)"
proof (induction s rule: length_induct)
  case (1 s)
  show ?case
  proof (cases s)
    case Nil
    with "1.prems" show ?thesis by (simp add: re_findall_Plus_Cls)
  next
    case (Cons c t)
    show ?thesis
    proof (cases "p c")
      case True
      have "w = c # takeWhile p t \<or> w \<in> set (re_findall (Plus (Cls p)) (dropWhile p t))"
        using "1.prems" Cons True by (simp add: re_findall_Plus_Cls)
      moreover have "length (dropWhile p t) < length s"
        using Cons by (simp add: le_imp_less_Suc)
      moreover have "\<forall>x\<in>set (takeWhile p t). p x" using set_takeWhileD by fastforce
      ultimately show ?thesis using "1.IH" True by (metis set_ConsD list.distinct(1))
    next
      case False
      then have "w \<in> set (re_findall (Plus (Cls p)) t)"
        using "1.prems" Cons by (simp add: re_findall_Plus_Cls)
      then show ?thesis using "1.IH" Cons by (metis length_Cons lessI)
    qed
  qed
qed

lemma re_findall_hit:
  "re_first r s = Some m \<Longrightarrow> length (fst m) < length s \<Longrightarrow>
   re_findall r s = take (length s - length (fst m)) s # re_findall r (fst m)"
  by (subst re_findall.simps) simp

lemma re_findall_step:
  "w \<in> set (re_findall r s) \<Longrightarrow>
   \<exists>t. length t < length s \<and> suffix t s \<and>
     (w \<in> set (re_findall r t) \<or> prefix w s \<and> w \<noteq> [] \<and> s = w @ t \<and> (\<exists>m. re_first r s = Some m \<and> t = fst m))"
proof -
  assume w: "w \<in> set (re_findall r s)"
  have skip: "w \<in> set (case s of [] \<Rightarrow> [] | c # t \<Rightarrow> re_findall r t) \<Longrightarrow> ?thesis"
    by (cases s) (auto intro!: exI [of _ "tl s"] simp: suffix_Cons)
  show ?thesis
  proof (cases "re_first r s")
    case None
    with w show ?thesis by (intro skip) (simp add: re_findall.simps [of r s])
  next
    case (Some m)
    show ?thesis
    proof (cases "length (fst m) < length s")
      case True
      obtain u where u: "s = u @ fst m" using re_first_suffix [OF Some] by (auto simp: suffix_def)
      have "w = u \<or> w \<in> set (re_findall r (fst m))"
        using w u unfolding re_findall_hit [OF Some True] by (auto simp: append_eq_conv_conj)
      then show ?thesis using True u Some
        by (intro exI [of _ "fst m"]) (auto simp: suffix_def)
    next
      case False
      with w Some show ?thesis by (intro skip) (simp add: re_findall.simps [of r s])
    qed
  qed
qed

lemma re_findall_sublist: "w \<in> set (re_findall r s) \<Longrightarrow> sublist w s"
proof (induction s rule: length_induct)
  case (1 s)
  from re_findall_step [OF "1.prems"] obtain t where t: "length t < length s" "suffix t s"
    "w \<in> set (re_findall r t) \<or> prefix w s" by blast
  then show ?case using "1.IH" by (meson prefix_imp_sublist sublist_order.order_trans suffix_imp_sublist)
qed

lemma re_split_cls_not_Nil [simp]: "re_split_cls p s \<noteq> []"
  by (cases s) (auto split: list.splits)

lemma re_split_cls_free: "w \<in> set (re_split_cls p s) \<Longrightarrow> c \<in> set w \<Longrightarrow> \<not> p c"
proof (induction s arbitrary: w)
  case (Cons d s)
  obtain v vs where v: "re_split_cls p s = v # vs" by (cases "re_split_cls p s") auto
  show ?case
  proof (cases "p d")
    case True
    with Cons.prems have "w \<in> set (re_split_cls p s)" by auto
    then show ?thesis using Cons.IH Cons.prems(2) by blast
  next
    case False
    with Cons.prems v have "w = d # v \<or> w \<in> set vs" by simp
    then show ?thesis using Cons.IH [of v] Cons.IH [of w] Cons.prems(2) False v by auto
  qed
qed simp

lemma re_findall_not_Nil: "w \<in> set (re_findall r s) \<Longrightarrow> w \<noteq> []"
proof (induction s rule: length_induct)
  case (1 s)
  then show ?case using re_findall_step [OF "1.prems"] by blast
qed

lemma re_split_cls_pieces:
  "prefix (hd (re_split_cls p s)) s \<and> (\<forall>w\<in>set (re_split_cls p s). sublist w s)"
proof (induction s)
  case (Cons c s)
  obtain v vs where "re_split_cls p s = v # vs" by (cases "re_split_cls p s") auto
  then show ?case using Cons by (auto intro: sublist_Cons_right [THEN iffD2])
qed simp

lemma re_split_cls_sublist: "w \<in> set (re_split_cls p s) \<Longrightarrow> sublist w s"
  using re_split_cls_pieces by blast

section \<open>Replacing every run of a class by one character\<close>

definition squeeze :: "(int \<Rightarrow> bool) \<Rightarrow> int \<Rightarrow> pystr \<Rightarrow> pystr" where
  "squeeze p r s = re_sub (Plus (Cls p)) (\<lambda>_. [r]) s"

lemma squeeze_Nil [simp]: "squeeze p r [] = []"
  by (simp add: squeeze_def re_sub_Plus_Cls)

lemma squeeze_Cons:
  "squeeze p r (c # t) = (if p c then r # squeeze p r (dropWhile p t) else c # squeeze p r t)"
  by (simp add: squeeze_def re_sub_Plus_Cls)

lemma squeeze_induct [case_names Nil hit miss]:
  assumes "P []"
    and "\<And>c t. p c \<Longrightarrow> P (dropWhile p t) \<Longrightarrow> P (c # t)"
    and "\<And>c t. \<not> p c \<Longrightarrow> P t \<Longrightarrow> P (c # t)"
  shows "P s"
proof (induction s rule: length_induct)
  case (1 s)
  show ?case
  proof (cases s)
    case (Cons c t)
    have "length (dropWhile p t) < length s" using Cons by (simp add: le_imp_less_Suc)
    then show ?thesis using 1 Cons assms(2,3) by (cases "p c") auto
  qed (simp add: assms(1))
qed

lemma squeeze_set: "set (squeeze p r s) \<subseteq> insert r {c \<in> set s. \<not> p c}"
  by (induction s rule: squeeze_induct [where p = p]) (auto simp: squeeze_Cons dest: set_dropWhileD)

lemma squeeze_length: "length (squeeze p r s) \<le> length s"
proof (induction s rule: squeeze_induct [where p = p])
  case (hit c t)
  then have "length (squeeze p r (dropWhile p t)) \<le> length t"
    by (meson dropWhile_length_le order_trans)
  then show ?case using hit by (simp add: squeeze_Cons)
qed (auto simp: squeeze_Cons)

lemma squeeze_eq_Nil [simp]: "squeeze p r s = [] \<longleftrightarrow> s = []"
  by (cases s) (auto simp: squeeze_Cons)

lemma squeeze_idle: "\<forall>c\<in>set s. \<not> p c \<Longrightarrow> squeeze p r s = s"
  by (induction s) (auto simp: squeeze_Cons)

text \<open>The result has no two adjacent characters of the class, and every one of them is \<open>r\<close>.\<close>

definition squeezed :: "(int \<Rightarrow> bool) \<Rightarrow> int \<Rightarrow> pystr \<Rightarrow> bool" where
  "squeezed p r s \<longleftrightarrow> successively (\<lambda>a b. \<not> (p a \<and> p b)) s \<and> (\<forall>c\<in>set s. p c \<longrightarrow> c = r)"

lemma squeezed_Nil [simp]: "squeezed p r []"
  by (simp add: squeezed_def)

lemma squeezed_Cons:
  "squeezed p r (c # s) \<longleftrightarrow>
     (p c \<longrightarrow> c = r \<and> (s = [] \<or> \<not> p (hd s))) \<and> squeezed p r s"
  by (auto simp: squeezed_def successively_Cons)

lemma squeeze_hd: "s \<noteq> [] \<Longrightarrow> \<not> p (hd s) \<Longrightarrow> hd (squeeze p r s) = hd s"
  by (cases s) (auto simp: squeeze_Cons)

lemma squeezed_squeeze: "p r \<Longrightarrow> squeezed p r (squeeze p r s)"
proof (induction s rule: squeeze_induct [where p = p])
  case (hit c t)
  have "dropWhile p t = [] \<or> \<not> p (hd (squeeze p r (dropWhile p t)))"
    by (cases "dropWhile p t = []") (auto simp: squeeze_hd hd_dropWhile simp del: dropWhile_eq_Nil_conv)
  then show ?case using hit by (auto simp: squeeze_Cons squeezed_Cons)
qed (auto simp: squeeze_Cons squeezed_Cons)

lemma squeeze_squeezed: "squeezed p r s \<Longrightarrow> squeeze p r s = s"
proof (induction s)
  case (Cons c s)
  then have "dropWhile p s = s" if "p c"
    using that by (cases s) (auto simp: squeezed_Cons)
  with Cons show ?case by (auto simp: squeeze_Cons squeezed_Cons)
qed simp

lemma squeeze_last: "s \<noteq> [] \<Longrightarrow> \<not> p (last s) \<Longrightarrow> last (squeeze p r s) = last s"
proof (induction s rule: squeeze_induct [where p = p])
  case (hit c t)
  have ne: "dropWhile p t \<noteq> []" using hit by (auto simp: last_in_set split: if_splits)
  then have "last (dropWhile p t) = last t" by (metis last_appendR takeWhile_dropWhile_id)
  then show ?case using hit ne by (auto simp: squeeze_Cons simp del: dropWhile_eq_Nil_conv split: if_splits)
qed (auto simp: squeeze_Cons)

end
