(* ===== verification/Text_Clean.thy ===== *)
theory Text_Clean
  imports Py_Regex
begin

text \<open>
  Text normalisation of \<open>backend/retriever.py\<close>: \<open>clean_text\<close>, with each of its three regular
  expressions as a pattern, and the normal form of its result (no carriage return, tab or soft
  hyphen, no two adjacent blanks, no three newlines in a row, no surrounding white space).
\<close>

section \<open>clean_text\<close>

definition is_alpha :: "int \<Rightarrow> bool" where
  "is_alpha c \<longleftrightarrow> (65 \<le> c \<and> c \<le> 90) \<or> (97 \<le> c \<and> c \<le> 122)"

definition is_blank :: "int \<Rightarrow> bool" where
  "is_blank c \<longleftrightarrow> c = 32 \<or> c = 9"

text \<open>\<open>([A-Za-z])-\n([A-Za-z])\<close>, \<open>[ \t]+\<close> and \<open>\n{3,}\<close>\<close>

definition re_hyphen_break :: re where
  "re_hyphen_break = Cat (Grp (Cls is_alpha)) (Cat (Chr 45) (Cat (Chr 10) (Grp (Cls is_alpha))))"

definition re_blanks :: re where
  "re_blanks = Plus (Cls is_blank)"

definition re_newlines3 :: re where
  "re_newlines3 = Cat (Chr 10) (Cat (Chr 10) (Plus (Chr 10)))"

definition join_hyphens :: "pystr \<Rightarrow> pystr" where
  "join_hyphens s = re_sub re_hyphen_break concat s"

definition squeeze_blanks :: "pystr \<Rightarrow> pystr" where
  "squeeze_blanks s = re_sub re_blanks (\<lambda>_. [32]) s"

definition squeeze_newlines :: "pystr \<Rightarrow> pystr" where
  "squeeze_newlines s = re_sub re_newlines3 (\<lambda>_. [10, 10]) s"

definition clean_text :: "pystr \<Rightarrow> pystr" where
  "clean_text text =
     (let text = py_replace [13] [10] (py_replace [13, 10] [10] text);
          text = py_replace [0xAD] [] text;
          text = join_hyphens text;
          text = squeeze_blanks text;
          text = squeeze_newlines text
      in py_strip text)"

section \<open>Facts about clean_text\<close>

lemma re_first_hyphen_break:
  "re_first re_hyphen_break s =
     (case s of a # b # c # d # t \<Rightarrow>
        if is_alpha a \<and> b = 45 \<and> c = 10 \<and> is_alpha d then Some (t, [[a], [d]]) else None
      | _ \<Rightarrow> None)"
  by (auto simp: re_first_def re_hyphen_break_def Chr_def split: list.splits)

lemma re_first_newlines3:
  "re_first re_newlines3 s =
     (case s of a # b # c # t \<Rightarrow>
        if a = 10 \<and> b = 10 \<and> c = 10 then Some (dropWhile (\<lambda>x. x = 10) t, []) else None
      | _ \<Rightarrow> None)"
proof -
  have "re_matches re_newlines3 s =
     (case s of a # b # c # t \<Rightarrow>
        if a = 10 \<and> b = 10 \<and> c = 10 then re_matches (Star (Chr 10)) t else []
      | _ \<Rightarrow> [])"
    by (auto simp: re_newlines3_def Plus_def re_matches_Cat_Chr simp del: re_matches.simps split: list.splits)
  moreover have "re_first (Star (Chr 10)) t = Some (dropWhile (\<lambda>x. x = 10) t, [])" for t
    by (simp add: Chr_def re_first_Star_Cls)
  ultimately show ?thesis
    by (auto simp: re_first_def split: list.splits)
qed

lemma re_first_blanks:
  "re_first re_blanks s =
     (case s of [] \<Rightarrow> None | c # t \<Rightarrow> if is_blank c then Some (dropWhile is_blank t, []) else None)"
  by (simp add: re_blanks_def re_first_Plus_Cls)

text \<open>A substitution whose replacement is no longer than the match does not lengthen the text.\<close>

lemma re_sub_length:
  assumes "\<And>s m. re_first r s = Some m \<Longrightarrow> length (f (snd m)) + length (fst m) \<le> length s"
  shows "length (re_sub r f s) \<le> length s"
proof (induction s rule: length_induct)
  case (1 s)
  have skip: "length (case s of [] \<Rightarrow> [] | c # t \<Rightarrow> c # re_sub r f t) \<le> length s"
    using "1.IH" by (cases s) auto
  show ?case
  proof (cases "re_first r s")
    case None
    then show ?thesis using skip by (simp add: re_sub.simps [of r f s])
  next
    case (Some m)
    note short = assms [OF Some]
    show ?thesis
    proof (cases "length (fst m) < length s")
      case True
      with "1.IH" have "length (re_sub r f (fst m)) \<le> length (fst m)" by blast
      with short show ?thesis by (simp add: re_sub_hit [OF Some True])
    next
      case False
      with short have "length (f (snd m)) = 0" by linarith
      then have "f (snd m) = []" by simp
      with False Some skip show ?thesis by (simp add: re_sub.simps [of r f s])
    qed
  qed
qed

lemma re_sub_set:
  assumes "\<And>s m. re_first r s = Some m \<Longrightarrow> set (f (snd m)) \<subseteq> set s \<union> A"
  shows "set (re_sub r f s) \<subseteq> set s \<union> A"
proof (induction s rule: length_induct)
  case (1 s)
  have skip: "set (case s of [] \<Rightarrow> [] | c # t \<Rightarrow> c # re_sub r f t) \<subseteq> set s \<union> A"
  proof (cases s)
    case (Cons c t)
    then have "set (re_sub r f t) \<subseteq> set t \<union> A" using "1.IH" by simp
    then show ?thesis using Cons by auto
  qed simp
  show ?case
  proof (cases "re_first r s")
    case None
    then show ?thesis using skip by (simp add: re_sub.simps [of r f s])
  next
    case (Some m)
    note sub = assms [OF Some]
    show ?thesis
    proof (cases "length (fst m) < length s")
      case True
      with "1.IH" have "set (re_sub r f (fst m)) \<subseteq> set (fst m) \<union> A" by blast
      moreover have "set (fst m) \<subseteq> set s" using re_first_suffix [OF Some] by (rule set_mono_suffix)
      ultimately show ?thesis using sub by (auto simp: re_sub_hit [OF Some True])
    next
      case False
      with Some skip sub show ?thesis by (simp add: re_sub.simps [of r f s])
    qed
  qed
qed

lemma join_hyphens_length: "length (join_hyphens s) \<le> length s"
  unfolding join_hyphens_def
  by (rule re_sub_length) (auto simp: re_first_hyphen_break split: list.splits if_splits)

lemma squeeze_blanks_length: "length (squeeze_blanks s) \<le> length s"
  unfolding squeeze_blanks_def
  by (rule re_sub_length) (auto simp: re_first_blanks split: list.splits if_splits)

lemma squeeze_newlines_length: "length (squeeze_newlines s) \<le> length s"
  unfolding squeeze_newlines_def
  by (rule re_sub_length)
     (auto simp: re_first_newlines3 split: list.splits if_splits intro: le_SucI)

lemma join_hyphens_set: "set (join_hyphens s) \<subseteq> set s"
proof -
  have "set (join_hyphens s) \<subseteq> set s \<union> {}"
    unfolding join_hyphens_def
    by (rule re_sub_set) (auto simp: re_first_hyphen_break split: list.splits if_splits)
  then show ?thesis by simp
qed

lemma squeeze_blanks_set: "set (squeeze_blanks s) \<subseteq> set s \<union> {32}"
  unfolding squeeze_blanks_def by (rule re_sub_set) simp

lemma squeeze_newlines_set: "set (squeeze_newlines s) \<subseteq> set s \<union> {10}"
  unfolding squeeze_newlines_def by (rule re_sub_set) simp

lemma py_join_length_pieces:
  "xs \<noteq> [] \<Longrightarrow> length (py_join sep xs) = sum_list (map length xs) + (length xs - 1) * length sep"
  by (induction sep xs rule: py_join.induct) auto

lemma py_replace_length: "length new \<le> length old \<Longrightarrow> length (py_replace old new s) \<le> length s"
proof -
  assume le: "length new \<le> length old"
  let ?ps = "py_split old s"
  have "length (py_replace old new s) = sum_list (map length ?ps) + (length ?ps - 1) * length new"
    by (simp add: py_replace_def py_join_length_pieces)
  also have "\<dots> \<le> sum_list (map length ?ps) + (length ?ps - 1) * length old"
    using le by simp
  also have "\<dots> = length (py_join old ?ps)" by (subst py_join_length_pieces) auto
  finally show ?thesis by simp
qed

lemma py_replace_set: "set (py_replace old new s) \<subseteq> set s \<union> set new"
proof -
  have "set (py_join old xs) \<supseteq> (\<Union>x\<in>set xs. set x)" for xs
    by (induction old xs rule: py_join.induct) auto
  from this [of "py_split old s"] have "(\<Union>x\<in>set (py_split old s). set x) \<subseteq> set s" by simp
  then show ?thesis unfolding py_replace_def using py_join_set by fastforce
qed

lemma clean_text_length: "length (clean_text s) \<le> length s"
proof -
  let ?a = "py_replace [13, 10] [10] s"
  let ?b = "py_replace [13] [10] ?a"
  let ?c = "py_replace [0xAD] [] ?b"
  let ?d = "squeeze_blanks (join_hyphens ?c)"
  have "length (clean_text s) \<le> length (squeeze_newlines ?d)"
    by (simp add: clean_text_def Let_def)
  also have "\<dots> \<le> length ?d" by (rule squeeze_newlines_length)
  also have "\<dots> \<le> length (join_hyphens ?c)" by (rule squeeze_blanks_length)
  also have "\<dots> \<le> length ?c" by (rule join_hyphens_length)
  also have "\<dots> \<le> length ?b" by (rule py_replace_length) simp
  also have "\<dots> \<le> length ?a" by (rule py_replace_length) simp
  also have "\<dots> \<le> length s" by (rule py_replace_length) simp
  finally show ?thesis .
qed

lemma clean_text_Nil [simp]: "clean_text [] = []"
  using clean_text_length [of "[]"] by simp

subsection \<open>The normal form\<close>

text \<open>No two adjacent blanks, no three newlines in a row.\<close>

definition no_double_blank :: "pystr \<Rightarrow> bool" where
  "no_double_blank s \<longleftrightarrow> successively (\<lambda>a b. \<not> (is_blank a \<and> is_blank b)) s"

fun no_triple_newline :: "pystr \<Rightarrow> bool" where
  "no_triple_newline (a # b # c # s) \<longleftrightarrow>
     \<not> (a = 10 \<and> b = 10 \<and> c = 10) \<and> no_triple_newline (b # c # s)"
| "no_triple_newline _ \<longleftrightarrow> True"

definition trimmed :: "pystr \<Rightarrow> bool" where
  "trimmed s \<longleftrightarrow> s \<noteq> [] \<longrightarrow> \<not> py_space (hd s) \<and> \<not> py_space (last s)"

definition clean_form :: "pystr \<Rightarrow> bool" where
  "clean_form s \<longleftrightarrow> 13 \<notin> set s \<and> 9 \<notin> set s \<and> 0xAD \<notin> set s \<and>
     no_double_blank s \<and> no_triple_newline s \<and> trimmed s"

lemma squeeze_blanks_Nil: "squeeze_blanks [] = []"
  by (simp add: squeeze_blanks_def re_blanks_def re_sub_Plus_Cls)

lemma squeeze_blanks_Cons:
  "squeeze_blanks (c # t) =
     (if is_blank c then 32 # squeeze_blanks (dropWhile is_blank t) else c # squeeze_blanks t)"
  by (simp add: squeeze_blanks_def re_blanks_def re_sub_Plus_Cls)

lemma squeeze_newlines_Nil: "squeeze_newlines [] = []"
  by (simp add: squeeze_newlines_def re_sub_Nil re_first_newlines3)

lemma squeeze_newlines_hit:
  "squeeze_newlines (10 # 10 # 10 # t) = 10 # 10 # squeeze_newlines (dropWhile (\<lambda>x. x = 10) t)"
  unfolding squeeze_newlines_def
  by (subst re_sub_hit [where m = "(dropWhile (\<lambda>x. x = 10) t, [])"])
     (auto simp: re_first_newlines3 le_imp_less_Suc le_SucI)

lemma squeeze_newlines_miss:
  "\<not> (\<exists>u. c # t = 10 # 10 # 10 # u) \<Longrightarrow> squeeze_newlines (c # t) = c # squeeze_newlines t"
  unfolding squeeze_newlines_def
  by (rule re_sub_miss) (auto simp: re_first_newlines3 split: list.splits)

lemma squeeze_newlines_hd: "s \<noteq> [] \<Longrightarrow> \<exists>t. squeeze_newlines s = hd s # t"
proof (cases "\<exists>u. s = 10 # 10 # 10 # u")
  case True
  then show ?thesis by (auto simp: squeeze_newlines_hit)
next
  case False
  moreover assume "s \<noteq> []"
  ultimately show ?thesis by (cases s) (auto simp: squeeze_newlines_miss)
qed

lemma squeeze_blanks_form:
  "no_double_blank (squeeze_blanks s) \<and> 9 \<notin> set (squeeze_blanks s) \<and>
   (s \<noteq> [] \<and> \<not> is_blank (hd s) \<longrightarrow> hd (squeeze_blanks s) = hd s)"
proof (induction s rule: length_induct)
  case (1 s)
  show ?case
  proof (cases s)
    case Nil
    then show ?thesis by (simp add: squeeze_blanks_Nil no_double_blank_def)
  next
    case (Cons c t)
    show ?thesis
    proof (cases "is_blank c")
      case True
      define u where u: "u = dropWhile is_blank t"
      have len: "length u < length s" using Cons by (simp add: u le_imp_less_Suc)
      have ih: "no_double_blank (squeeze_blanks u) \<and> 9 \<notin> set (squeeze_blanks u) \<and>
          (u \<noteq> [] \<and> \<not> is_blank (hd u) \<longrightarrow> hd (squeeze_blanks u) = hd u)"
        using "1.IH" len by blast
      have nb: "u \<noteq> [] \<Longrightarrow> \<not> is_blank (hd u)" unfolding u by (rule hd_dropWhile)
      have "squeeze_blanks u = [] \<or> \<not> is_blank (hd (squeeze_blanks u))"
        using ih nb by (cases "u = []") (auto simp: squeeze_blanks_Nil)
      then have "no_double_blank (32 # squeeze_blanks u)"
        using ih by (auto simp: no_double_blank_def successively_Cons)
      then show ?thesis using ih Cons True by (simp add: squeeze_blanks_Cons u)
    next
      case False
      have ih: "no_double_blank (squeeze_blanks t) \<and> 9 \<notin> set (squeeze_blanks t)"
        using "1.IH" Cons by simp
      then have "no_double_blank (c # squeeze_blanks t)"
        using False by (auto simp: no_double_blank_def successively_Cons)
      moreover have "c \<noteq> 9" using False by (auto simp: is_blank_def)
      ultimately show ?thesis using ih Cons False by (simp add: squeeze_blanks_Cons)
    qed
  qed
qed

lemma squeeze_newlines_blank:
  "no_double_blank s \<Longrightarrow> no_double_blank (squeeze_newlines s)"
proof (induction s rule: length_induct)
  case (1 s)
  have sub: "no_double_blank (dropWhile p t)" if "no_double_blank t" for p t
    using that by (induction t) (auto simp: no_double_blank_def successively_Cons)
  show ?case
  proof (cases s)
    case Nil
    then show ?thesis by (simp add: squeeze_newlines_Nil no_double_blank_def)
  next
    case (Cons c t)
    show ?thesis
    proof (cases "\<exists>u. s = 10 # 10 # 10 # u")
      case True
      then obtain u where u: "s = 10 # 10 # 10 # u" by blast
      let ?v = "dropWhile (\<lambda>x. x = 10) u"
      have "no_double_blank u" using "1.prems" u by (cases u) (auto simp: no_double_blank_def)
      then have "no_double_blank (squeeze_newlines ?v)"
        using "1.IH" u sub by (simp add: le_imp_less_Suc le_SucI)
      then show ?thesis
        unfolding u squeeze_newlines_hit by (simp add: no_double_blank_def successively_Cons is_blank_def)
    next
      case False
      have t: "no_double_blank t" using "1.prems" Cons by (cases t) (auto simp: no_double_blank_def)
      then have "no_double_blank (squeeze_newlines t)" using "1.IH" Cons by simp
      moreover have "t = [] \<or> hd (squeeze_newlines t) = hd t"
        using squeeze_newlines_hd [of t] by (cases "t = []") auto
      ultimately show ?thesis
        using False Cons "1.prems" squeeze_newlines_hd [of t]
        by (auto simp: squeeze_newlines_miss no_double_blank_def successively_Cons squeeze_newlines_Nil)
    qed
  qed
qed

lemma no_triple_Cons: "c \<noteq> 10 \<Longrightarrow> no_triple_newline s \<Longrightarrow> no_triple_newline (c # s)"
  by (cases s; cases "tl s") auto

lemma no_triple_pair: "s = [] \<or> hd s \<noteq> 10 \<Longrightarrow> no_triple_newline s \<Longrightarrow> no_triple_newline (a # b # s)"
  by (cases s; cases "tl s") auto

lemma squeeze_newlines_form: "no_triple_newline (squeeze_newlines s)"
proof (induction s rule: length_induct)
  case (1 s)
  show ?case
  proof (cases s)
    case Nil
    then show ?thesis by (simp add: squeeze_newlines_Nil)
  next
    case (Cons c t)
    show ?thesis
    proof (cases "\<exists>u. s = 10 # 10 # 10 # u")
      case True
      then obtain u where u: "s = 10 # 10 # 10 # u" by blast
      define v where v: "v = dropWhile (\<lambda>x. x = 10) u"
      have "length v < length s" using u by (simp add: v le_imp_less_Suc le_SucI)
      then have "no_triple_newline (squeeze_newlines v)"
        using "1.IH" by blast
      moreover have "v \<noteq> [] \<Longrightarrow> hd v \<noteq> 10" unfolding v by (rule hd_dropWhile)
      then have "squeeze_newlines v = [] \<or> hd (squeeze_newlines v) \<noteq> 10"
        using squeeze_newlines_hd [of v] by (cases "v = []") (auto simp: squeeze_newlines_Nil)
      ultimately show ?thesis unfolding u squeeze_newlines_hit v [symmetric] by (rule no_triple_pair [rotated])
    next
      case False
      have step: "squeeze_newlines s = c # squeeze_newlines t"
        using False Cons by (simp add: squeeze_newlines_miss)
      have ih: "no_triple_newline (squeeze_newlines t)" using "1.IH" Cons by simp
      show ?thesis
      proof (cases "c = 10 \<and> t \<noteq> [] \<and> hd t = 10")
        case True
        then obtain v where v: "t = 10 # v" by (cases t) auto
        with False True Cons have vh: "v = [] \<or> hd v \<noteq> 10" by (cases v) auto
        then have "squeeze_newlines t = 10 # squeeze_newlines v"
          using v by (cases v) (auto simp: squeeze_newlines_miss)
        moreover have "squeeze_newlines v = [] \<or> hd (squeeze_newlines v) \<noteq> 10"
          using vh squeeze_newlines_hd [of v] by (cases "v = []") (auto simp: squeeze_newlines_Nil)
        moreover have "no_triple_newline (squeeze_newlines v)" using "1.IH" Cons v by simp
        ultimately show ?thesis unfolding step by (simp add: no_triple_pair)
      next
        case c: False
        show ?thesis
        proof (cases "c = 10")
          case False
          then show ?thesis unfolding step using ih by (rule no_triple_Cons)
        next
          case True
          with c have "t = [] \<or> hd t \<noteq> 10" by simp
          then have "squeeze_newlines t = [] \<or> hd (squeeze_newlines t) \<noteq> 10"
            using squeeze_newlines_hd [of t] by (cases "t = []") (auto simp: squeeze_newlines_Nil)
          then show ?thesis unfolding step using ih
            by (cases "squeeze_newlines t"; cases "tl (squeeze_newlines t)") auto
        qed
      qed
    qed
  qed
qed

lemma no_double_blank_sublist: "sublist t s \<Longrightarrow> no_double_blank s \<Longrightarrow> no_double_blank t"
  by (auto simp: no_double_blank_def sublist_def successively_append_iff)

lemma no_triple_newline_tl: "no_triple_newline (c # s) \<Longrightarrow> no_triple_newline s"
  by (cases s; cases "tl s") auto

lemma no_triple_newline_sublist: "sublist t s \<Longrightarrow> no_triple_newline s \<Longrightarrow> no_triple_newline t"
proof -
  have app: "no_triple_newline (u @ v) \<Longrightarrow> no_triple_newline v" for u v
    by (induction u) (auto dest: no_triple_newline_tl)
  have pre: "no_triple_newline (u @ v) \<Longrightarrow> no_triple_newline u" for u v
    by (induction u rule: no_triple_newline.induct) auto
  assume "sublist t s" "no_triple_newline s"
  then show ?thesis by (auto simp: sublist_def dest: app pre)
qed

lemma trimmed_py_strip [simp]: "trimmed (py_strip s)"
  by (auto simp: trimmed_def py_strip_def strip_by_hd strip_by_last)

lemma py_strip_trimmed: "trimmed s \<Longrightarrow> py_strip s = s"
  unfolding py_strip_def by (rule strip_by_idle) (auto simp: trimmed_def)

lemma trimmed_clean_text [simp]: "trimmed (clean_text s)"
  by (simp add: clean_text_def Let_def)

lemma clean_text_form: "clean_form (clean_text s)"
proof -
  define a where a: "a = py_replace [13] [10] (py_replace [13, 10] [10] s)"
  define c where c: "c = py_replace [0xAD] [] a"
  define h where h: "h = join_hyphens c"
  define d where d: "d = squeeze_blanks h"
  define e where e: "e = squeeze_newlines d"
  have eq: "clean_text s = py_strip e" by (simp add: clean_text_def Let_def a c h d e)
  have sub: "sublist (py_strip e) e" unfolding py_strip_def by (rule strip_by_sublist)
  have chain: "set e \<subseteq> set d \<union> {10}" "set d \<subseteq> set h \<union> {32}" "set h \<subseteq> set c" "set c \<subseteq> set a"
    using squeeze_newlines_set [of d] squeeze_blanks_set [of h] join_hyphens_set [of c]
      py_replace_set [of "[0xAD]" "[]" a] by (simp_all add: c d e h)
  have "13 \<notin> set a" unfolding a by (rule py_replace_single_free) simp
  moreover have "0xAD \<notin> set c" unfolding c by (rule py_replace_single_free) simp
  moreover have ec: "set e \<subseteq> set c \<union> {10, 32}" using chain(1-3) by blast
  ultimately have "13 \<notin> set e" and "0xAD \<notin> set e"
    using chain(4) subsetD [OF ec, of 13] subsetD [OF ec, of "0xAD"] by auto
  moreover have "9 \<notin> set d" unfolding d using squeeze_blanks_form by blast
  then have "9 \<notin> set e" using chain(1) by auto
  moreover have "no_double_blank e"
    unfolding e d by (intro squeeze_newlines_blank) (simp add: squeeze_blanks_form)
  moreover have "no_triple_newline e" unfolding e by (rule squeeze_newlines_form)
  ultimately show ?thesis
    unfolding eq clean_form_def
    using set_mono_sublist [OF sub] no_double_blank_sublist [OF sub] no_triple_newline_sublist [OF sub]
    by auto
qed

section \<open>Properties\<close>

text \<open>Cleaned text is in normal form (no carriage return, tab or soft hyphen, no two
  blanks and no three newlines in a row, no white space at either end) and is never longer than
  its input.\<close>

theorem clean_text_normal_form:
  "clean_form (clean_text s) \<and> length (clean_text s) \<le> length s"
  by (simp add: clean_text_form clean_text_length)

text \<open>Cleaning is not idempotent. The hyphenation pattern consumes the letter
  after the break, so of two breaks one letter apart only the first is joined; a second pass joins
  the other.\<close>

theorem clean_text_not_idempotent:
  "clean_text (asc ''a-'' @ [10] @ asc ''b-'' @ [10] @ asc ''c'') = (asc ''ab-'' @ [10] @ asc ''c'') \<and> clean_text (clean_text (asc ''a-'' @ [10] @ asc ''b-'' @ [10] @ asc ''c'')) = (asc ''abc'')"
  by code_simp

end
