(* ===== verification/Chunking.thy ===== *)
theory Chunking
  imports Text_Clean
begin

text \<open>
  The recursive separator-aware splitter and the hard splitter of \<open>backend/retriever.py\<close>. Sizes
  are Python integers. The hard splitter is a loop that does not end when \<open>chunk_size \<le> 0\<close>, so
  it is a \<open>partial_function\<close> into \<open>option\<close> and \<open>None\<close> is "does not return"; a positive size
  always returns.
\<close>

section \<open>Splitting by separators\<close>

definition RECURSIVE_SEPARATORS :: "pystr list" where
  "RECURSIVE_SEPARATORS =
     [[10, 10], [10], ([0x3002] @ asc '' ''), [0x3002], [0xff01], [0xff1f], (asc ''. ''),
         (asc ''; ''), [0xff1b], [0xff0c], (asc '', ''), (asc '' '')]"

text \<open>\<open>text[start:end]\<close>, with Python's treatment of negative and large bounds.\<close>

definition slice_bound :: "'a list \<Rightarrow> int \<Rightarrow> nat" where
  "slice_bound xs i = (if i < 0 then nat (int (length xs) + i) else min (nat i) (length xs))"

definition py_slice :: "int \<Rightarrow> int \<Rightarrow> 'a list \<Rightarrow> 'a list" where
  "py_slice i j xs = take (slice_bound xs j - slice_bound xs i) (drop (slice_bound xs i) xs)"

text \<open>The \<open>while start < len(text)\<close> loop of \<open>_hard_split_text\<close>.\<close>

partial_function (option) hard_split_loop ::
  "pystr \<Rightarrow> int \<Rightarrow> int \<Rightarrow> pystr list \<Rightarrow> pystr list option" where
  "hard_split_loop text chunk_size start chunks =
     (if start < int (length text) then
        let end' = min (start + chunk_size) (int (length text));
            chunks' = chunks @ [py_slice start end' text]
        in if end' \<ge> int (length text) then Some chunks'
           else hard_split_loop text chunk_size end' chunks'
      else Some chunks)"

definition hard_split_text :: "pystr \<Rightarrow> int \<Rightarrow> pystr list option" where
  "hard_split_text text chunk_size = hard_split_loop text chunk_size 0 []"

text \<open>
  The loop over the pieces of one separator: empty pieces are skipped together with the
  separator that follows them, a segment that is still too long is split by the remaining
  separators (\<open>rec\<close>).
\<close>

fun segment_loop ::
  "(pystr \<Rightarrow> pystr list option) \<Rightarrow> int \<Rightarrow> pystr \<Rightarrow> pystr list \<Rightarrow> pystr list option" where
  "segment_loop rec chunk_size separator [] = Some []"
| "segment_loop rec chunk_size separator (piece # pieces) =
     (if piece = [] then segment_loop rec chunk_size separator pieces
      else
        let segment = piece @ (if pieces \<noteq> [] then separator else [])
        in case (if int (length segment) > chunk_size then rec segment else Some [segment]) of
             None \<Rightarrow> None
           | Some xs \<Rightarrow> map_option ((@) xs) (segment_loop rec chunk_size separator pieces))"

fun split_by_separators :: "pystr \<Rightarrow> int \<Rightarrow> pystr list \<Rightarrow> pystr list option" where
  "split_by_separators text chunk_size [] =
     (if int (length text) \<le> chunk_size then Some [text] else hard_split_text text chunk_size)"
| "split_by_separators text chunk_size (separator # separators) =
     (if int (length text) \<le> chunk_size then Some [text]
      else
        let pieces = py_split separator text
        in if length pieces = 1 then split_by_separators text chunk_size separators
           else segment_loop (\<lambda>segment. split_by_separators segment chunk_size separators)
                  chunk_size separator pieces)"

section \<open>Facts about the splitters\<close>

lemma py_slice_nonneg: "0 \<le> i \<Longrightarrow> i \<le> j \<Longrightarrow> py_slice i j xs = take (nat j - nat i) (drop (nat i) xs)"
proof (cases "nat j \<le> length xs")
  case True
  assume "0 \<le> i" "i \<le> j"
  with True show ?thesis by (simp add: py_slice_def slice_bound_def min_def)
next
  case False
  assume "0 \<le> i" "i \<le> j"
  with False show ?thesis
    by (cases "nat i \<le> length xs") (auto simp: py_slice_def slice_bound_def min_def)
qed

text \<open>With a positive size the loop ends, and its chunks partition the rest of the text.\<close>

lemma hard_split_loop_returns:
  assumes "0 < n" "0 \<le> start" "start < int (length t)"
  shows "\<exists>cs. hard_split_loop t n start acc = Some (acc @ cs) \<and>
     concat cs = drop (nat start) t \<and> (\<forall>c\<in>set cs. c \<noteq> [] \<and> int (length c) \<le> n)"
  using assms
proof (induction "nat (int (length t) - start)" arbitrary: start acc rule: less_induct)
  case less
  define e where e: "e = min (start + n) (int (length t))"
  define c where c: "c = py_slice start e t"
  have e_gt: "start < e" "e \<le> int (length t)" "e \<le> start + n" using less.prems by (auto simp: e)
  have c_eq: "c = take (nat e - nat start) (drop (nat start) t)"
    unfolding c using less.prems e_gt by (intro py_slice_nonneg) auto
  then have len: "int (length c) = e - start" using less.prems e_gt by (simp add: nat_diff_distrib)
  then have cn: "c \<noteq> [] \<and> int (length c) \<le> n" using e_gt by auto
  have "drop (nat e) t = drop (nat e - nat start) (drop (nat start) t)"
    using less.prems e_gt by simp
  then have split: "c @ drop (nat e) t = drop (nat start) t"
    unfolding c_eq by (metis append_take_drop_id)
  have step: "hard_split_loop t n start acc =
      (if e \<ge> int (length t) then Some (acc @ [c]) else hard_split_loop t n e (acc @ [c]))"
    using less.prems by (subst hard_split_loop.simps) (simp only: Let_def e c if_True)
  show ?case
  proof (cases "e \<ge> int (length t)")
    case True
    then have "drop (nat e) t = []" by simp
    then have "concat [c] = drop (nat start) t" using split by (simp del: drop_eq_Nil)
    moreover have "\<forall>x\<in>set [c]. x \<noteq> [] \<and> int (length x) \<le> n" using cn by (simp only: list.set) blast
    moreover have "hard_split_loop t n start acc = Some (acc @ [c])" using step True by (simp only: if_True)
    ultimately show ?thesis by blast
  next
    case False
    have "nat (int (length t) - e) < nat (int (length t) - start)" using False e_gt by simp
    then obtain cs where "hard_split_loop t n e (acc @ [c]) = Some ((acc @ [c]) @ cs)"
      "concat cs = drop (nat e) t" "\<forall>c\<in>set cs. c \<noteq> [] \<and> int (length c) \<le> n"
      using less.hyps [of e "acc @ [c]"] less.prems False e_gt by auto
    then show ?thesis using step False split cn by (intro exI [of _ "c # cs"]) auto
  qed
qed

text \<open>With a size of at most zero the loop never ends on a non-empty text.\<close>

lemma hard_split_loop_diverges:
  assumes ret: "hard_split_loop t n start acc = Some r"
  shows "\<not> (n \<le> 0 \<and> start < int (length t))"
proof (rule hard_split_loop.raw_induct
    [where P = "\<lambda>t n start acc r. \<not> (n \<le> 0 \<and> start < int (length t))", OF _ ret])
  fix f :: "pystr \<Rightarrow> int \<Rightarrow> int \<Rightarrow> pystr list \<Rightarrow> pystr list option"
  fix tx n start acc r
  assume IH: "\<And>tx n start acc r. f tx n start acc = Some r \<Longrightarrow> \<not> (n \<le> 0 \<and> start < int (length tx))"
    and eq: "(if start < int (length tx)
        then let end' = min (start + n) (int (length tx)); chunks' = acc @ [py_slice start end' tx]
             in if int (length tx) \<le> end' then Some chunks' else f tx n end' chunks'
        else Some acc) = Some r"
  show "\<not> (n \<le> 0 \<and> start < int (length tx))"
  proof
    assume pre: "n \<le> 0 \<and> start < int (length tx)"
    let ?e = "min (start + n) (int (length tx))"
    have e: "?e < int (length tx)" using pre by auto
    with eq pre have "f tx n ?e (acc @ [py_slice start ?e tx]) = Some r"
      by (simp add: Let_def del: min_less_iff_disj)
    from IH [OF this] pre e show False by blast
  qed
qed

lemma hard_split_text_diverges: "n \<le> 0 \<Longrightarrow> t \<noteq> [] \<Longrightarrow> hard_split_text t n = None"
  unfolding hard_split_text_def using hard_split_loop_diverges [of t n 0 "[]"]
  by (cases "hard_split_loop t n 0 []") auto

text \<open>What a splitter owes its caller, for the characters \<open>q\<close> that it must not lose.\<close>

definition split_ok :: "(int \<Rightarrow> bool) \<Rightarrow> int \<Rightarrow> pystr \<Rightarrow> pystr list \<Rightarrow> bool" where
  "split_ok q n t segs \<longleftrightarrow>
     (\<forall>s\<in>set segs. s \<noteq> [] \<and> int (length s) \<le> n) \<and> filter q (concat segs) = filter q t"

lemma split_ok_single: "t \<noteq> [] \<Longrightarrow> int (length t) \<le> n \<Longrightarrow> split_ok q n t [t]"
  by (simp add: split_ok_def)

lemma hard_split_text_ok:
  "0 < n \<Longrightarrow> t \<noteq> [] \<Longrightarrow> \<exists>segs. hard_split_text t n = Some segs \<and> split_ok q n t segs"
  using hard_split_loop_returns [of n 0 t "[]"] by (auto simp: hard_split_text_def split_ok_def)

lemma segment_loop_ok:
  assumes rec: "\<And>seg. seg \<noteq> [] \<Longrightarrow> \<exists>segs. rec seg = Some segs \<and> split_ok q n seg segs"
    and sep: "filter q sep = []"
  shows "\<exists>segs. segment_loop rec n sep ps = Some segs \<and> split_ok q n (concat ps) segs"
proof (induction ps)
  case Nil
  then show ?case by (simp add: split_ok_def)
next
  case (Cons p ps)
  then obtain segs where segs: "segment_loop rec n sep ps = Some segs" "split_ok q n (concat ps) segs"
    by blast
  show ?case
  proof (cases "p = []")
    case True
    then show ?thesis using segs by simp
  next
    case False
    let ?seg = "p @ (if ps \<noteq> [] then sep else [])"
    have ne: "?seg \<noteq> []" using False by simp
    obtain xs where xs: "(if int (length ?seg) > n then rec ?seg else Some [?seg]) = Some xs"
      "split_ok q n ?seg xs"
    proof (cases "int (length ?seg) > n")
      case True
      then show ?thesis using rec [OF ne] that by auto
    next
      case False
      then show ?thesis using that [of "[?seg]"] split_ok_single [OF ne] by (simp del: append_is_Nil_conv)
    qed
    then have "segment_loop rec n sep (p # ps) = Some (xs @ segs)"
      using False segs by (simp add: Let_def del: if_split)
    moreover have "split_ok q n (concat (p # ps)) (xs @ segs)"
      using xs(2) segs(2) sep by (auto simp: split_ok_def)
    ultimately show ?thesis by blast
  qed
qed

lemma filter_join:
  "filter q sep = [] \<Longrightarrow> filter q (py_join sep ps) = filter q (concat ps)"
  by (induction sep ps rule: py_join.induct) auto

lemma split_by_separators_ok:
  assumes "0 < n" "t \<noteq> []" "\<forall>sep\<in>set seps. filter q sep = []"
  shows "\<exists>segs. split_by_separators t n seps = Some segs \<and> split_ok q n t segs"
  using assms(2,3)
proof (induction seps arbitrary: t)
  case Nil
  then show ?case
    using hard_split_text_ok [OF assms(1)] split_ok_single by auto
next
  case (Cons sep seps)
  let ?ps = "py_split sep t"
  have rec: "\<exists>segs. split_by_separators u n seps = Some segs \<and> split_ok q n u segs" if "u \<noteq> []" for u
    using Cons.IH [OF that] Cons.prems(2) by simp
  show ?case
  proof (cases "int (length t) \<le> n \<or> length ?ps = 1")
    case True
    then show ?thesis using rec [OF Cons.prems(1)] split_ok_single [OF Cons.prems(1)] by (auto simp: Let_def)
  next
    case False
    have "filter q sep = []" using Cons.prems(2) by simp
    then obtain segs where "segment_loop (\<lambda>u. split_by_separators u n seps) n sep ?ps = Some segs"
      "split_ok q n (concat ?ps) segs"
      using segment_loop_ok [of "\<lambda>u. split_by_separators u n seps", OF rec] by blast
    moreover have "filter q t = filter q (concat ?ps)"
      using filter_join [OF \<open>filter q sep = []\<close>, of ?ps] by simp
    ultimately show ?thesis using False by (auto simp: Let_def split_ok_def)
  qed
qed

section \<open>Properties\<close>

text \<open>The hard splitter returns on a non-empty text exactly when the size is positive, and
  its chunks then are non-empty, at most that long and concatenate to the text.\<close>

theorem hard_split_text_total_iff:
  assumes "t \<noteq> []"
  shows "(if 0 < n
          then \<exists>cs. hard_split_text t n = Some cs \<and> concat cs = t \<and>
                 (\<forall>c\<in>set cs. c \<noteq> [] \<and> int (length c) \<le> n)
          else hard_split_text t n = None)"
  using hard_split_loop_returns [of n 0 t "[]"] hard_split_text_diverges [of n t] assms
  by (auto simp: hard_split_text_def)

theorem hard_split_text_total_iff_witness:
  "\<exists>cs. hard_split_text (asc ''abcde'') 2 = Some cs \<and> concat cs = (asc ''abcde'') \<and>
     (\<forall>c\<in>set cs. c \<noteq> [] \<and> int (length c) \<le> 2)"
  using hard_split_text_total_iff [of "(asc ''abcde'')" 2] by simp

text \<open>With a positive chunk size the recursive splitter returns on every non-empty text; its
  segments are non-empty and at most that long, and every character that belongs to no separator
  survives, in order.\<close>

theorem split_by_separators_total:
  assumes "0 < n" "t \<noteq> []"
  shows "\<exists>segs. split_by_separators t n RECURSIVE_SEPARATORS = Some segs \<and>
     (\<forall>s\<in>set segs. s \<noteq> [] \<and> int (length s) \<le> n) \<and>
     filter (\<lambda>c. \<forall>sep\<in>set RECURSIVE_SEPARATORS. c \<notin> set sep) (concat segs) =
     filter (\<lambda>c. \<forall>sep\<in>set RECURSIVE_SEPARATORS. c \<notin> set sep) t"
  using split_by_separators_ok [OF assms, of RECURSIVE_SEPARATORS
      "\<lambda>c. \<forall>sep\<in>set RECURSIVE_SEPARATORS. c \<notin> set sep"]
  by (auto simp: split_ok_def filter_empty_conv)

theorem split_by_separators_total_witness:
  "\<exists>segs. split_by_separators (asc ''one. two'') 4 RECURSIVE_SEPARATORS = Some segs \<and>
     (\<forall>s\<in>set segs. s \<noteq> [] \<and> int (length s) \<le> 4)"
  using split_by_separators_total [of 4 "(asc ''one. two'')"] by auto

end
