(* ===== verification/Chunk_Merge.thy ===== *)
theory Chunk_Merge
  imports Chunking
begin

text \<open>
  The merge loop \<open>_merge_segments\<close> that builds overlapping chunks from segments, and \<open>split_text\<close>,
  the composition used for parent and child chunks. One iteration is \<open>merge_step\<close> on the loop's
  three variables; the invariant \<open>merge_inv\<close> says what they mean.
\<close>

section \<open>Merging segments into overlapping chunks\<close>

definition tail_overlap :: "pystr \<Rightarrow> int \<Rightarrow> pystr" where
  "tail_overlap text overlap =
     (if overlap \<le> 0 \<or> int (length text) \<le> overlap then []
      else py_strip (drop (length text - nat overlap) text))"

record merge_state =
  m_chunks :: "pystr list"
  m_current :: "pystr list"
  m_current_len :: int

definition append_chunk :: "pystr list \<Rightarrow> pystr \<Rightarrow> pystr list" where
  "append_chunk cs chunk = (if chunk \<noteq> [] then cs @ [chunk] else cs)"

definition current_chunk :: "merge_state \<Rightarrow> pystr" where
  "current_chunk st = py_strip (py_join [32] (m_current st))"

text \<open>One iteration of the \<open>for segment in segments\<close> loop of \<open>_merge_segments\<close>.\<close>

definition flush_current :: "int \<Rightarrow> merge_state \<Rightarrow> merge_state" where
  "flush_current overlap st =
     (let chunk = current_chunk st;
          overlap_text = tail_overlap chunk overlap
      in st\<lparr>m_chunks := append_chunk (m_chunks st) chunk,
            m_current := (if overlap_text \<noteq> [] then [overlap_text] else []),
            m_current_len := int (length overlap_text)\<rparr>)"

definition push_segment :: "pystr \<Rightarrow> merge_state \<Rightarrow> merge_state" where
  "push_segment segment st =
     st\<lparr>m_current := m_current st @ [segment],
        m_current_len := m_current_len st + (if m_current_len st \<noteq> 0 then 1 else 0) + int (length segment)\<rparr>"

definition merge_step :: "int \<Rightarrow> int \<Rightarrow> pystr \<Rightarrow> merge_state \<Rightarrow> merge_state" where
  "merge_step chunk_size overlap segment0 st =
     (let segment = clean_text segment0
      in if segment = [] then st
         else
           let separator_len = (if m_current st \<noteq> [] then 1 else 0 :: int);
               st' = (if m_current st \<noteq> [] \<and>
                         m_current_len st + separator_len + int (length segment) > chunk_size
                      then flush_current overlap st else st)
           in push_segment segment st')"

definition merge_init :: merge_state where
  "merge_init = \<lparr>m_chunks = [], m_current = [], m_current_len = 0\<rparr>"

definition merge_segments :: "pystr list \<Rightarrow> int \<Rightarrow> int \<Rightarrow> pystr list" where
  "merge_segments segments chunk_size overlap =
     (let st = fold (merge_step chunk_size overlap) segments merge_init
      in if m_current st \<noteq> [] then append_chunk (m_chunks st) (current_chunk st) else m_chunks st)"

definition split_text :: "pystr \<Rightarrow> int \<Rightarrow> int \<Rightarrow> pystr list option" where
  "split_text text0 chunk_size overlap =
     (let text = clean_text text0
      in if text = [] then Some []
         else map_option (\<lambda>segments. merge_segments segments chunk_size overlap)
                (split_by_separators text chunk_size RECURSIVE_SEPARATORS))"

section \<open>The invariant of the merge loop\<close>

text \<open>A piece of text the loop handles: not empty, no white space at either end.\<close>

definition tidy :: "pystr \<Rightarrow> bool" where
  "tidy s \<longleftrightarrow> s \<noteq> [] \<and> trimmed s"

definition merge_bound :: "int \<Rightarrow> int \<Rightarrow> int" where
  "merge_bound chunk_size overlap = chunk_size + (if overlap > 0 then overlap + 1 else 0)"

definition merge_inv :: "int \<Rightarrow> int \<Rightarrow> pystr set \<Rightarrow> merge_state \<Rightarrow> bool" where
  "merge_inv n ov done st \<longleftrightarrow>
     (\<forall>x\<in>set (m_current st). tidy x) \<and>
     m_current_len st = int (length (py_join [32] (m_current st))) \<and>
     m_current_len st \<le> merge_bound n ov \<and>
     (\<forall>c\<in>set (m_chunks st). tidy c \<and> int (length c) \<le> merge_bound n ov) \<and>
     successively (\<lambda>c d. prefix (tail_overlap c ov) d) (m_chunks st) \<and>
     (m_chunks st \<noteq> [] \<longrightarrow> m_current st \<noteq> [] \<and>
        prefix (tail_overlap (last (m_chunks st)) ov) (py_join [32] (m_current st))) \<and>
     (\<forall>s\<in>done. s \<noteq> [] \<longrightarrow> (\<exists>c\<in>set (m_chunks st) \<union> set (m_current st). sublist s c))"

lemma merge_inv_cover:
  "merge_inv n ov D st \<Longrightarrow> s \<in> D \<Longrightarrow> s \<noteq> [] \<Longrightarrow>
   \<exists>c\<in>set (m_chunks st) \<union> set (m_current st). sublist s c"
  unfolding merge_inv_def by blast

lemma tidy_join: "xs \<noteq> [] \<Longrightarrow> \<forall>x\<in>set xs. tidy x \<Longrightarrow> tidy (py_join sep xs)"
proof (induction sep xs rule: py_join.induct)
  case (3 sep x y zs)
  then have "tidy x" "tidy (py_join sep (y # zs))" by auto
  then show ?case by (auto simp: tidy_def trimmed_def)
qed auto

lemma tidy_strip: "tidy s \<Longrightarrow> py_strip s = s"
  by (simp add: tidy_def py_strip_trimmed)

lemma current_chunk_eq:
  "m_current st \<noteq> [] \<Longrightarrow> \<forall>x\<in>set (m_current st). tidy x \<Longrightarrow>
   current_chunk st = py_join [32] (m_current st) \<and> tidy (py_join [32] (m_current st))"
  using tidy_join [of "m_current st" "[32]"] by (simp add: current_chunk_def tidy_strip)

lemma tail_overlap_length: "int (length (tail_overlap s ov)) \<le> (if ov > 0 then ov else 0)"
proof -
  have "length (py_strip (drop (length s - nat ov) s)) \<le> length (drop (length s - nat ov) s)"
    by (rule py_strip_length)
  also have "\<dots> \<le> nat ov" by simp
  finally show ?thesis by (auto simp: tail_overlap_def)
qed

lemma tail_overlap_tidy: "tail_overlap s ov \<noteq> [] \<Longrightarrow> tidy (tail_overlap s ov)"
  by (auto simp: tail_overlap_def tidy_def split: if_splits)

lemma py_join_snoc: "xs \<noteq> [] \<Longrightarrow> py_join sep (xs @ [y]) = py_join sep xs @ sep @ y"
  by (simp add: py_join_append)

lemma py_join_member_sublist: "x \<in> set xs \<Longrightarrow> sublist x (py_join sep xs)"
proof (induction sep xs rule: py_join.induct)
  case (3 sep y z zs)
  have "sublist x y \<Longrightarrow> ?case" "sublist x (py_join sep (z # zs)) \<Longrightarrow> ?case"
    by (simp_all add: sublist_append sublist_order.order_trans [OF _ sublist_append_leftI])
  with 3 show ?case by fastforce
qed auto

lemma merge_inv_init: "0 \<le> n \<Longrightarrow> merge_inv n ov {} merge_init"
  by (simp add: merge_inv_def merge_init_def merge_bound_def)

text \<open>Appending a tidy segment to the current buffer when it fits.\<close>

lemma merge_inv_push:
  assumes inv: "merge_inv n ov D st" and seg: "tidy seg"
    and fits: "m_current_len st + (if m_current st \<noteq> [] then 1 else 0) + int (length seg) \<le> merge_bound n ov"
  shows "merge_inv n ov (insert seg D) (push_segment seg st)"
proof (cases "m_current st = []")
  case True
  then show ?thesis
    using inv seg fits by (auto simp: merge_inv_def push_segment_def tidy_def)
next
  case False
  have join: "py_join [32] (m_current st @ [seg]) = py_join [32] (m_current st) @ [32] @ seg"
    using False by (rule py_join_snoc)
  have "py_join [32] (m_current st) \<noteq> []"
    using inv False tidy_join [of "m_current st" "[32]"] by (auto simp: merge_inv_def tidy_def)
  then have "m_current_len st \<noteq> 0" using inv by (simp add: merge_inv_def)
  then show ?thesis
    using inv seg fits False
    by (auto simp: merge_inv_def push_segment_def join intro: prefix_prefix)
qed

text \<open>Flushing the current buffer and pushing the segment that did not fit.\<close>

lemma merge_inv_flush:
  assumes inv: "merge_inv n ov D st" and cur: "m_current st \<noteq> []"
    and seg: "tidy seg" and len: "int (length seg) \<le> n"
  shows "merge_inv n ov (insert seg D) (push_segment seg (flush_current ov st))"
proof -
  define chunk where "chunk = py_join [32] (m_current st)"
  define tail where "tail = tail_overlap chunk ov"
  have tidy_cur: "\<forall>x\<in>set (m_current st). tidy x" using inv by (simp add: merge_inv_def)
  have chunk: "current_chunk st = chunk" "tidy chunk"
    using current_chunk_eq [OF cur tidy_cur] by (simp_all add: chunk_def)
  then have ne: "chunk \<noteq> []" by (simp add: tidy_def)
  let ?st = "push_segment seg (flush_current ov st)"
  have cur': "m_current ?st = (if tail \<noteq> [] then [tail, seg] else [seg])"
    by (simp add: push_segment_def flush_current_def Let_def chunk tail_def)
  have chunks': "m_chunks ?st = m_chunks st @ [chunk]"
    using ne by (simp add: push_segment_def flush_current_def Let_def chunk append_chunk_def)
  have len': "m_current_len ?st = int (length (py_join [32] (m_current ?st)))"
    by (simp add: push_segment_def flush_current_def Let_def chunk tail_def)
  have bound: "m_current_len ?st \<le> merge_bound n ov"
    using len tail_overlap_length [of chunk ov]
    unfolding len' cur' by (auto simp: merge_bound_def tail_def split: if_splits)
  have tidy': "\<forall>x\<in>set (m_current ?st). tidy x"
    unfolding cur' using seg tail_overlap_tidy by (auto simp: tail_def)
  have succ: "successively (\<lambda>c d. prefix (tail_overlap c ov) d) (m_chunks st @ [chunk])"
    using inv by (auto simp: merge_inv_def successively_append_iff chunk_def)
  have chunk_le: "int (length chunk) \<le> merge_bound n ov"
    using inv by (simp add: merge_inv_def chunk_def)
  have pre: "prefix (tail_overlap chunk ov) (py_join [32] (m_current ?st))"
    unfolding cur' by (auto simp: tail_def)
  have old: "\<exists>c\<in>set (m_chunks ?st) \<union> set (m_current ?st). sublist s c"
    if "s \<in> insert seg D" "s \<noteq> []" for s
  proof (cases "s = seg")
    case True
    then show ?thesis by (auto simp: cur')
  next
    case False
    with that obtain c where c: "c \<in> set (m_chunks st) \<union> set (m_current st)" "sublist s c"
      using merge_inv_cover [OF inv, of s] by blast
    show ?thesis
    proof (cases "c \<in> set (m_chunks st)")
      case True
      then show ?thesis using c(2) chunks' by auto
    next
      case False
      with c(1) have "sublist c chunk" unfolding chunk_def by (auto intro: py_join_member_sublist)
      with c(2) have "sublist s chunk" by (rule sublist_order.order_trans)
      then show ?thesis using chunks' by auto
    qed
  qed
  show ?thesis
    unfolding merge_inv_def
    using tidy' len' bound succ chunk(2) chunk_le pre old inv
    by (auto simp: chunks' cur' merge_inv_def)
qed

lemma merge_step_inv:
  assumes inv: "merge_inv n ov D st" and n: "0 \<le> n" and len: "int (length s) \<le> n"
  shows "merge_inv n ov (insert (clean_text s) D) (merge_step n ov s st)"
proof (cases "clean_text s = []")
  case True
  then show ?thesis using inv by (auto simp: merge_step_def Let_def merge_inv_def)
next
  case False
  let ?seg = "clean_text s"
  have seg: "tidy ?seg" "int (length ?seg) \<le> n"
    using False clean_text_length [of s] len by (auto simp: tidy_def)
  show ?thesis
  proof (cases "m_current st \<noteq> [] \<and> m_current_len st + 1 + int (length ?seg) > n")
    case True
    then have "merge_step n ov s st = push_segment ?seg (flush_current ov st)"
      using False by (simp add: merge_step_def Let_def)
    then show ?thesis using merge_inv_flush [OF inv _ seg] True by simp
  next
    case nofit: False
    then have "merge_step n ov s st = push_segment ?seg st"
      using False by (auto simp: merge_step_def Let_def)
    moreover have "m_current_len st + (if m_current st \<noteq> [] then 1 else 0) + int (length ?seg) \<le> merge_bound n ov"
      using nofit seg(2) inv by (auto simp: merge_bound_def merge_inv_def)
    ultimately show ?thesis using merge_inv_push [OF inv seg(1)] by simp
  qed
qed

lemma merge_fold_inv:
  "merge_inv n ov D st \<Longrightarrow> 0 \<le> n \<Longrightarrow> \<forall>s\<in>set segs. int (length s) \<le> n \<Longrightarrow>
   merge_inv n ov (D \<union> clean_text ` set segs) (fold (merge_step n ov) segs st)"
proof (induction segs arbitrary: D st)
  case (Cons s segs)
  have "merge_inv n ov (insert (clean_text s) D) (merge_step n ov s st)"
    by (rule merge_step_inv) (use Cons.prems in auto)
  then have "merge_inv n ov (insert (clean_text s) D \<union> clean_text ` set segs)
      (fold (merge_step n ov) segs (merge_step n ov s st))"
    by (rule Cons.IH) (use Cons.prems in auto)
  moreover have "insert (clean_text s) D \<union> clean_text ` set segs = D \<union> clean_text ` set (s # segs)"
    by auto
  ultimately show ?case by simp
qed simp

text \<open>What the merge loop returns, for segments no longer than the chunk size.\<close>

definition merged_ok :: "int \<Rightarrow> int \<Rightarrow> pystr list \<Rightarrow> pystr list \<Rightarrow> bool" where
  "merged_ok n ov segs cs \<longleftrightarrow>
     (\<forall>c\<in>set cs. tidy c \<and> int (length c) \<le> merge_bound n ov) \<and>
     successively (\<lambda>c d. prefix (tail_overlap c ov) d) cs \<and>
     (\<forall>s\<in>set segs. clean_text s \<noteq> [] \<longrightarrow> (\<exists>c\<in>set cs. sublist (clean_text s) c))"

lemma merge_segments_ok:
  assumes "0 \<le> n" "\<forall>s\<in>set segs. int (length s) \<le> n"
  shows "merged_ok n ov segs (merge_segments segs n ov)"
proof -
  define st where "st = fold (merge_step n ov) segs merge_init"
  have inv: "merge_inv n ov (clean_text ` set segs) st"
    using merge_fold_inv [OF merge_inv_init assms] assms by (simp add: st_def)
  show ?thesis
  proof (cases "m_current st = []")
    case True
    then have "m_chunks st = []" using inv by (auto simp: merge_inv_def)
    then have "merge_segments segs n ov = []"
      using True by (simp add: merge_segments_def Let_def st_def)
    then show ?thesis
      using inv True \<open>m_chunks st = []\<close> by (auto simp: merged_ok_def merge_inv_def)
  next
    case False
    define chunk where "chunk = py_join [32] (m_current st)"
    have c: "current_chunk st = chunk" "tidy chunk"
      using current_chunk_eq [OF False] inv by (simp_all add: merge_inv_def chunk_def)
    then have eq: "merge_segments segs n ov = m_chunks st @ [chunk]"
      using False by (simp add: merge_segments_def Let_def st_def [symmetric] append_chunk_def tidy_def)
    have cover: "\<exists>d\<in>set (m_chunks st @ [chunk]). sublist (clean_text s) d"
      if s: "s \<in> set segs" "clean_text s \<noteq> []" for s
    proof -
      obtain d where d: "d \<in> set (m_chunks st) \<union> set (m_current st)" "sublist (clean_text s) d"
        using merge_inv_cover [OF inv imageI [OF s(1)] s(2)] by blast
      have "d \<in> set (m_current st) \<Longrightarrow> sublist d chunk"
        unfolding chunk_def by (rule py_join_member_sublist)
      with d show ?thesis by (auto intro: sublist_order.order_trans)
    qed
    have "successively (\<lambda>c d. prefix (tail_overlap c ov) d) (m_chunks st @ [chunk])"
      using inv by (auto simp: merge_inv_def successively_append_iff chunk_def)
    then show ?thesis
      unfolding merged_ok_def eq using inv c(2) cover by (auto simp: merge_inv_def chunk_def)
  qed
qed

lemma split_text_ok:
  assumes "0 < n"
  shows "\<exists>cs. split_text t n ov = Some cs \<and> (clean_text t = [] \<longrightarrow> cs = []) \<and>
     (\<forall>c\<in>set cs. tidy c \<and> int (length c) \<le> merge_bound n ov) \<and>
     successively (\<lambda>c d. prefix (tail_overlap c ov) d) cs"
proof (cases "clean_text t = []")
  case False
  from split_by_separators_ok [OF assms False, of RECURSIVE_SEPARATORS "\<lambda>_. False"]
  obtain segs where segs: "split_by_separators (clean_text t) n RECURSIVE_SEPARATORS = Some segs"
    "\<forall>s\<in>set segs. int (length s) \<le> n" by (auto simp: split_ok_def)
  then show ?thesis
    using False merge_segments_ok [OF _ segs(2), of ov] assms
    by (auto simp: split_text_def merged_ok_def)
qed (simp add: split_text_def)

section \<open>Properties\<close>

text \<open>C25: for segments no longer than the chunk size, every chunk the merge loop returns is
  non-empty, trimmed and at most \<open>chunk_size + overlap + 1\<close> long; each chunk begins with the
  overlap tail of the one before; and every non-blank segment appears whole in some chunk.\<close>

theorem merge_segments_correct:
  assumes "0 \<le> n" "\<forall>s\<in>set segs. int (length s) \<le> n"
  shows "(\<forall>c\<in>set (merge_segments segs n ov). c \<noteq> [] \<and> trimmed c \<and>
            int (length c) \<le> n + (if ov > 0 then ov + 1 else 0)) \<and>
     successively (\<lambda>c d. prefix (tail_overlap c ov) d) (merge_segments segs n ov) \<and>
     (\<forall>s\<in>set segs. clean_text s \<noteq> [] \<longrightarrow> (\<exists>c\<in>set (merge_segments segs n ov). sublist (clean_text s) c))"
  using merge_segments_ok [OF assms, of ov] by (auto simp: merged_ok_def tidy_def merge_bound_def)

theorem merge_segments_correct_witness:
  "\<exists>c\<in>set (merge_segments [(asc ''abcd ''), (asc ''efgh '')] 6 3). sublist (clean_text (asc ''abcd '')) c"
proof -
  have "clean_text (asc ''abcd '') \<noteq> []" by code_simp
  then show ?thesis
    using merge_segments_correct [of 6 "[(asc ''abcd ''), (asc ''efgh '')]" 3] by simp
qed

text \<open>With a positive chunk size \<open>split_text\<close> returns for every input and every overlap, an empty
  list for blank text; its chunks are trimmed, non-empty, bounded by \<open>chunk_size + overlap + 1\<close>
  and overlap pairwise.\<close>

theorem split_text_total:
  assumes "0 < n"
  shows "\<exists>cs. split_text t n ov = Some cs \<and> (clean_text t = [] \<longrightarrow> cs = []) \<and>
     (\<forall>c\<in>set cs. c \<noteq> [] \<and> trimmed c \<and> int (length c) \<le> n + (if ov > 0 then ov + 1 else 0)) \<and>
     successively (\<lambda>c d. prefix (tail_overlap c ov) d) cs"
  using split_text_ok [OF assms, of t ov] by (auto simp: tidy_def merge_bound_def)

theorem split_text_total_witness:
  "\<exists>cs. split_text (asc ''alpha. beta'') 7 2 = Some cs \<and> (\<forall>c\<in>set cs. int (length c) \<le> 10)"
  using split_text_total [of 7 "(asc ''alpha. beta'')" 2] by fastforce

text \<open>The bound is not \<open>chunk_size\<close> itself. After a flush the carried overlap and the next
  segment are joined without a second test, so a chunk can be longer than the configured size.\<close>

theorem split_text_exceeds_chunk_size:
  "split_text (asc ''abcdefghi jklmnopqr'') 10 4 = Some [(asc ''abcdefghi''), (asc ''fghi jklmnopqr'')]"
  by code_simp

end
