(* ===== verification/Py_Collections.thy ===== *)
theory Py_Collections
  imports Py_Strings "HOL-Library.AList" "HOL-Library.Multiset" Complex_Main
begin

text \<open>
  Python's insertion-ordered \<open>dict\<close> as an association list, with its interface as a locale, and
  the stable \<open>sorted(..., key=..., reverse=True)\<close>. A component that fills a dictionary in a
  loop (rank fusion, term counting, de-duplication) proves its loop once, inside the locale,
  against the laws of look-up and assignment.
\<close>

section \<open>The dictionary interface\<close>

locale py_dict =
  fixes emp :: "'d"
    and get :: "'d \<Rightarrow> 'k \<Rightarrow> 'v option"
    and put :: "'k \<Rightarrow> 'v \<Rightarrow> 'd \<Rightarrow> 'd"
    and keys :: "'d \<Rightarrow> 'k list"
    and ok :: "'d \<Rightarrow> bool"
  assumes get_emp: "get emp k = None"
    and get_put: "ok d \<Longrightarrow> get (put k v d) = (get d)(k \<mapsto> v)"
    and keys_get: "ok d \<Longrightarrow> set (keys d) = {k. get d k \<noteq> None}"
    and keys_emp: "keys emp = []"
    and keys_put: "ok d \<Longrightarrow> keys (put k v d) = (if get d k = None then keys d @ [k] else keys d)"
    and ok_emp: "ok emp"
    and ok_put: "ok d \<Longrightarrow> ok (put k v d)"
begin

text \<open>A loop of assignments: the last one for a key wins, the position is the first one's.\<close>

lemma ok_fold_put: "ok d \<Longrightarrow> ok (fold (\<lambda>x. put (kf x) (vf x)) xs d)"
  by (induction xs arbitrary: d) (auto simp: ok_put)

lemma get_fold_put:
  "ok d \<Longrightarrow> get (fold (\<lambda>x. put (kf x) (vf x)) xs d) k =
     (case find (\<lambda>x. kf x = k) (rev xs) of Some x \<Rightarrow> Some (vf x) | None \<Rightarrow> get d k)"
proof (induction xs arbitrary: d)
  case (Cons x xs)
  have "find P (ys @ [y]) = (case find P ys of Some z \<Rightarrow> Some z | None \<Rightarrow> if P y then Some y else None)"
    for P ys and y :: 'a
    by (induction ys) auto
  with Cons show ?case by (auto simp: ok_put get_put split: option.splits)
qed simp

text \<open>A loop of guarded assignments \<open>if k not in d: d[k] = v\<close>: the first one for a key wins.\<close>

definition put_new :: "'k \<Rightarrow> 'v \<Rightarrow> 'd \<Rightarrow> 'd" where
  "put_new k v d = (if get d k = None then put k v d else d)"

lemma ok_fold_put_new: "ok d \<Longrightarrow> ok (fold (\<lambda>x. put_new (kf x) (vf x)) xs d)"
  by (induction xs arbitrary: d) (auto simp: ok_put put_new_def)

lemma get_fold_put_new:
  "ok d \<Longrightarrow> get (fold (\<lambda>x. put_new (kf x) (vf x)) xs d) k =
     (case get d k of Some v \<Rightarrow> Some v
      | None \<Rightarrow> map_option vf (find (\<lambda>x. kf x = k) xs))"
proof (induction xs arbitrary: d)
  case Nil
  then show ?case by (auto split: option.splits)
next
  case (Cons x xs)
  then have "ok (put_new (kf x) (vf x) d)" by (auto simp: put_new_def ok_put)
  with Cons show ?case by (auto simp: put_new_def get_put split: option.splits)
qed

end

text \<open>A dictionary of numbers: \<open>d[k] += w\<close> with a default of zero (\<open>defaultdict\<close>, \<open>Counter\<close>).\<close>

locale py_counter = py_dict emp get put keys ok
  for emp :: "'d" and get :: "'d \<Rightarrow> 'k \<Rightarrow> ('v :: comm_monoid_add) option"
    and put :: "'k \<Rightarrow> 'v \<Rightarrow> 'd \<Rightarrow> 'd" and keys :: "'d \<Rightarrow> 'k list" and ok :: "'d \<Rightarrow> bool"
begin

definition bump :: "'k \<Rightarrow> 'v \<Rightarrow> 'd \<Rightarrow> 'd" where
  "bump k w d = put k ((case get d k of None \<Rightarrow> 0 | Some v \<Rightarrow> v) + w) d"

definition val :: "'d \<Rightarrow> 'k \<Rightarrow> 'v" where
  "val d k = (case get d k of None \<Rightarrow> 0 | Some v \<Rightarrow> v)"

lemma ok_bump: "ok d \<Longrightarrow> ok (bump k w d)"
  by (simp add: bump_def ok_put)

lemma ok_fold_bump: "ok d \<Longrightarrow> ok (fold (\<lambda>x. bump (kf x) (amt x)) xs d)"
  by (induction xs arbitrary: d) (auto simp: ok_bump)

lemma val_bump: "ok d \<Longrightarrow> val (bump k w d) k' = val d k' + (if k' = k then w else 0)"
  by (auto simp: val_def bump_def get_put)

lemma val_fold_bump:
  "ok d \<Longrightarrow> val (fold (\<lambda>x. bump (kf x) (amt x)) xs d) k =
     val d k + sum_list (map amt (filter (\<lambda>x. kf x = k) xs))"
  by (induction xs arbitrary: d) (auto simp: ok_bump val_bump add.assoc)

lemma get_fold_bump_None:
  "ok d \<Longrightarrow> get (fold (\<lambda>x. bump (kf x) (amt x)) xs d) k = None \<longleftrightarrow> get d k = None \<and> k \<notin> kf ` set xs"
proof (induction xs arbitrary: d)
  case (Cons x xs)
  have "get (bump (kf x) (amt x) d) k = None \<longleftrightarrow> get d k = None \<and> k \<noteq> kf x"
    using Cons.prems by (auto simp: bump_def get_put)
  with Cons show ?case by (auto simp: ok_bump)
qed simp

end

section \<open>The association-list dictionary\<close>

type_synonym ('k, 'v) dict = "('k \<times> 'v) list"

abbreviation dict_get :: "('k, 'v) dict \<Rightarrow> 'k \<Rightarrow> 'v option" where
  "dict_get \<equiv> map_of"

abbreviation dict_put :: "'k \<Rightarrow> 'v \<Rightarrow> ('k, 'v) dict \<Rightarrow> ('k, 'v) dict" where
  "dict_put \<equiv> AList.update"

definition dict_keys :: "('k, 'v) dict \<Rightarrow> 'k list" where
  "dict_keys d = map fst d"

definition dict_values :: "('k, 'v) dict \<Rightarrow> 'v list" where
  "dict_values d = map snd d"

definition dict_ok :: "('k, 'v) dict \<Rightarrow> bool" where
  "dict_ok d \<longleftrightarrow> distinct (map fst d)"

text \<open>\<open>d.get(k, default)\<close>, \<open>d[k] += w\<close>, \<open>if k not in d: d[k] = v\<close>, \<open>Counter(xs)\<close>\<close>

definition dict_get_or :: "'v \<Rightarrow> ('k, 'v) dict \<Rightarrow> 'k \<Rightarrow> 'v" where
  "dict_get_or z d k = (case dict_get d k of None \<Rightarrow> z | Some v \<Rightarrow> v)"

definition dict_add :: "'k \<Rightarrow> ('v :: comm_monoid_add) \<Rightarrow> ('k, 'v) dict \<Rightarrow> ('k, 'v) dict" where
  "dict_add k w d = dict_put k (dict_get_or 0 d k + w) d"

definition dict_put_new :: "'k \<Rightarrow> 'v \<Rightarrow> ('k, 'v) dict \<Rightarrow> ('k, 'v) dict" where
  "dict_put_new k v d = (if dict_get d k = None then dict_put k v d else d)"

definition py_counter_of :: "'k list \<Rightarrow> ('k, int) dict" where
  "py_counter_of xs = fold (\<lambda>x. dict_add x 1) xs []"

interpretation alist_dict: py_dict "[]" dict_get dict_put dict_keys dict_ok
proof unfold_locales
  fix d :: "('a, 'b) dict" and k :: 'a and v :: 'b
  show "set (dict_keys d) = {k. dict_get d k \<noteq> None}"
    by (auto simp: dict_keys_def map_of_eq_None_iff)
  show "dict_keys (dict_put k v d) = (if dict_get d k = None then dict_keys d @ [k] else dict_keys d)"
    by (auto simp: dict_keys_def update_keys map_of_eq_None_iff)
  show "dict_ok d \<Longrightarrow> dict_ok (dict_put k v d)"
    by (simp add: dict_ok_def distinct_update)
qed (auto simp: dict_keys_def dict_ok_def update_conv)

interpretation alist_counter: py_counter "[]" dict_get dict_put dict_keys dict_ok
  by unfold_locales

lemma dict_add_bump: "alist_counter.bump = dict_add"
  by (intro ext) (simp add: alist_counter.bump_def dict_add_def dict_get_or_def)

lemma dict_get_or_val: "dict_get_or 0 d k = alist_counter.val d k"
  by (simp add: alist_counter.val_def dict_get_or_def)

lemma dict_put_new_eq: "alist_dict.put_new = dict_put_new"
  by (intro ext) (simp add: alist_dict.put_new_def dict_put_new_def)

lemmas dict_fold_put = alist_dict.get_fold_put alist_dict.ok_fold_put
lemmas dict_fold_new = alist_dict.get_fold_put_new [unfolded dict_put_new_eq]
  alist_dict.ok_fold_put_new [unfolded dict_put_new_eq]
lemmas dict_fold_add = alist_counter.val_fold_bump [unfolded dict_add_bump dict_get_or_val [symmetric]]
lemmas dict_ok_fold_add = alist_counter.ok_fold_bump [unfolded dict_add_bump]
lemmas dict_fold_add_None = alist_counter.get_fold_bump_None [unfolded dict_add_bump]

lemma dict_ok_Nil [simp]: "dict_ok []"
  by (simp add: dict_ok_def)

lemma dict_get_Some_in: "dict_ok d \<Longrightarrow> dict_get d k = Some v \<longleftrightarrow> (k, v) \<in> set d"
  by (auto simp: dict_ok_def dest: map_of_SomeD)

lemma dict_keys_fold_add:
  assumes "dict_ok d"
  shows "set (dict_keys (fold (\<lambda>x. dict_add (kf x) (amt x)) xs d)) = set (dict_keys d) \<union> kf ` set xs"
  unfolding alist_dict.keys_get [OF dict_ok_fold_add [OF assms]] alist_dict.keys_get [OF assms]
  by (auto simp only: dict_fold_add_None [OF assms] mem_Collect_eq Un_iff)

lemma length_counter_of: "dict_get_or 0 (py_counter_of xs) x = int (count_list xs x)"
proof -
  have "dict_get_or 0 (py_counter_of xs) x = dict_get_or 0 [] x + sum_list (map (\<lambda>_. 1) (filter (\<lambda>y. y = x) xs))"
    unfolding py_counter_of_def
    using dict_fold_add [where kf = "\<lambda>x. x" and amt = "\<lambda>_. 1 :: int" and d = "[]"] by simp
  moreover have "sum_list (map (\<lambda>_. 1) (filter (\<lambda>y. y = x) xs)) = int (count_list xs x)"
    by (induction xs) auto
  ultimately show ?thesis by (simp add: dict_get_or_def)
qed

lemma dict_ok_counter: "dict_ok (py_counter_of xs)"
  unfolding py_counter_of_def
  by (rule dict_ok_fold_add [where kf = "\<lambda>x. x" and amt = "\<lambda>_. 1"]) simp

lemma dict_keys_counter: "set (dict_keys (py_counter_of xs)) = set xs"
proof -
  have "dict_get (py_counter_of xs) x = None \<longleftrightarrow> x \<notin> set xs" for x
    unfolding py_counter_of_def
    using dict_fold_add_None [where kf = "\<lambda>x. x" and amt = "\<lambda>_. 1 :: int" and d = "[]"] by simp
  then show ?thesis using alist_dict.keys_get [OF dict_ok_counter, of xs] by auto
qed

section \<open>Stable sorting by a numeric key, descending\<close>

definition sort_desc :: "('a \<Rightarrow> real) \<Rightarrow> 'a list \<Rightarrow> 'a list" where
  "sort_desc f xs = sort_key (\<lambda>x. - f x) xs"

lemma sort_desc_set [simp]: "set (sort_desc f xs) = set xs"
  by (simp add: sort_desc_def)

lemma sort_desc_length [simp]: "length (sort_desc f xs) = length xs"
  by (simp add: sort_desc_def)

lemma sort_desc_mset [simp]: "mset (sort_desc f xs) = mset xs"
  by (simp add: sort_desc_def)

lemma sort_desc_Nil [simp]: "sort_desc f [] = []"
  by (simp add: sort_desc_def)

lemma sort_desc_sorted: "sorted_wrt (\<lambda>x y. f x \<ge> f y) (sort_desc f xs)"
proof -
  have "sorted (map (\<lambda>x. - f x) (sort_desc f xs))" by (simp add: sort_desc_def)
  then show ?thesis by (simp add: sorted_map)
qed

lemma sort_desc_distinct: "distinct (map g (sort_desc f xs)) \<longleftrightarrow> distinct (map g xs)"
  by (metis mset_map sort_desc_mset distinct_count_atmost_1 mset_eq_imp_distinct_iff)

text \<open>Elements with the same key keep their order.\<close>

lemma sort_desc_stable: "filter (\<lambda>x. f x = k) (sort_desc f xs) = filter (\<lambda>x. f x = k) xs"
proof -
  have "filter (\<lambda>x. - f x = - k) (sort_key (\<lambda>x. - f x) xs) = filter (\<lambda>x. - f x = - k) xs"
    by (rule sort_key_stable)
  then show ?thesis by (simp add: sort_desc_def)
qed

text \<open>The first \<open>k\<close> elements dominate the rest.\<close>

lemma sort_desc_top:
  "x \<in> set (take k (sort_desc f xs)) \<Longrightarrow> y \<in> set (drop k (sort_desc f xs)) \<Longrightarrow> f x \<ge> f y"
  by (rule sorted_wrt_take_ge [OF sort_desc_sorted])

end
