(* ===== verification/Bm25.thy ===== *)
theory Bm25
  imports Py_Collections Py_Regex
begin

text \<open>
  The tokenisers and the \<open>BM25Index\<close> of \<open>backend/retriever.py\<close>, over the \<open>Chunk\<close> record of the
  same file. Python floats are modelled as real numbers: \<open>math.log\<close> is \<open>ln\<close> and rounding errors
  are not modelled. With \<open>k1 \<ge> 0\<close> and \<open>0 \<le> b \<le> 1\<close> (the defaults are 1.5 and 0.75) no
  denominator of the scoring formula is zero; the properties assume these ranges.
\<close>

section \<open>Chunks\<close>

record chunk =
  c_id :: pystr
  c_content :: pystr
  c_source :: pystr
  c_page :: int
  c_chunk_index :: int
  c_parent_id :: pystr
  c_parent_content :: pystr
  c_parent_index :: int
  c_child_index :: int
  c_strategy :: pystr

text \<open>The chunk with the given content and the field defaults of the dataclass, used by examples.\<close>

definition sample_chunk :: "pystr \<Rightarrow> chunk" where
  "sample_chunk content =
     \<lparr>c_id = asc ''c'', c_content = content, c_source = asc ''s'', c_page = 1, c_chunk_index = 0,
      c_parent_id = [], c_parent_content = [], c_parent_index = 0, c_child_index = 0,
      c_strategy = asc ''parent_child_recursive''\<rparr>"

section \<open>Tokenisers\<close>

definition is_lower_alnum :: "int \<Rightarrow> bool" where
  "is_lower_alnum c \<longleftrightarrow> (97 \<le> c \<and> c \<le> 122) \<or> (48 \<le> c \<and> c \<le> 57)"

definition is_cjk :: "int \<Rightarrow> bool" where
  "is_cjk c \<longleftrightarrow> 0x4E00 \<le> c \<and> c \<le> 0x9FFF"

definition is_joiner :: "int \<Rightarrow> bool" where
  "is_joiner c \<longleftrightarrow> c = 45 \<or> c = 95 \<or> c = 46 \<or> c = 47"

text \<open>\<open>[a-z0-9]+(?:[-_./][a-z0-9]+)*%?\<close>, \<open>[\u4e00-\u9fff]+\<close> and \<open>[a-z0-9_]+\<close>\<close>

definition re_term :: re where
  "re_term = Cat (Plus (Cls is_lower_alnum))
     (Cat (Star (Cat (Cls is_joiner) (Plus (Cls is_lower_alnum)))) (Opt (Chr 37)))"

definition re_cjk_run :: re where
  "re_cjk_run = Plus (Cls is_cjk)"

definition re_word :: re where
  "re_word = Plus (Cls (\<lambda>c. is_lower_alnum c \<or> c = 95))"

text \<open>The slices \<open>phrase[i : i + size]\<close> for \<open>i\<close> in \<open>range(0, len(phrase) - size + 1)\<close>.\<close>

definition ngrams :: "nat \<Rightarrow> pystr \<Rightarrow> pystr list" where
  "ngrams n phrase = map (\<lambda>i. take n (drop i phrase)) [0 ..< length phrase + 1 - n]"

definition cjk_tokens :: "pystr \<Rightarrow> pystr list" where
  "cjk_tokens phrase =
     (if length phrase \<le> 2 then [phrase] else ngrams 2 phrase @ ngrams 3 phrase)"

definition term_tokens :: "pystr \<Rightarrow> pystr list" where
  "term_tokens token = token # filter (\<lambda>part. part \<noteq> [] \<and> part \<noteq> token) (re_split_cls is_joiner token)"

definition bm25_tokenize :: "pystr \<Rightarrow> pystr list" where
  "bm25_tokenize text0 =
     (let text = py_lower text0
      in concat (map term_tokens (re_findall re_term text)) @
         concat (map cjk_tokens (re_findall re_cjk_run text)))"

text \<open>The tokeniser of the hashing fallback embedding.\<close>

definition tokenize :: "pystr \<Rightarrow> pystr list" where
  "tokenize text0 =
     (let text = py_lower text0
      in re_findall re_word text @ concat (map cjk_tokens (re_findall re_cjk_run text)))"

section \<open>The index\<close>

record bm25_index =
  bm_enabled :: bool
  bm_k1 :: real
  bm_b :: real
  bm_doc_count :: nat
  bm_avg_doc_len :: real
  bm_doc_lens :: "nat list"
  bm_term_freqs :: "(pystr, int) dict list"
  bm_idf :: "(pystr, real) dict"

definition bm25_init :: "bool \<Rightarrow> real \<Rightarrow> real \<Rightarrow> bm25_index" where
  "bm25_init enabled k1 b =
     \<lparr>bm_enabled = enabled, bm_k1 = k1, bm_b = b, bm_doc_count = 0, bm_avg_doc_len = 0,
      bm_doc_lens = [], bm_term_freqs = [], bm_idf = []\<rparr>"

text \<open>\<open>document_frequency.update(term_frequency.keys())\<close>\<close>

definition count_keys :: "(pystr, int) dict \<Rightarrow> (pystr, int) dict \<Rightarrow> (pystr, int) dict" where
  "count_keys tf df = fold (\<lambda>t. dict_add t 1) (dict_keys tf) df"

definition idf_value :: "nat \<Rightarrow> int \<Rightarrow> real" where
  "idf_value doc_count freq =
     ln (1 + (real doc_count - real_of_int freq + 1/2) / (real_of_int freq + 1/2))"

definition bm25_rebuild :: "bm25_index \<Rightarrow> chunk list \<Rightarrow> bm25_index" where
  "bm25_rebuild idx cs =
     (let idx = idx\<lparr>bm_doc_count := length cs, bm_doc_lens := [], bm_term_freqs := [], bm_idf := []\<rparr>
      in if cs = [] then idx\<lparr>bm_avg_doc_len := 0\<rparr>
         else
           let token_lists = map (\<lambda>c. bm25_tokenize (c_content c)) cs;
               term_freqs = map py_counter_of token_lists;
               doc_lens = map length token_lists;
               document_frequency = fold count_keys term_freqs []
           in idx\<lparr>bm_term_freqs := term_freqs, bm_doc_lens := doc_lens,
                  bm_avg_doc_len := real (sum_list doc_lens) / real (max (length cs) 1),
                  bm_idf := map (\<lambda>(t, freq). (t, idf_value (length cs) freq)) document_frequency\<rparr>)"

definition length_norm :: "bm25_index \<Rightarrow> nat \<Rightarrow> real" where
  "length_norm idx doc_len =
     bm_k1 idx * (1 - bm_b idx + bm_b idx * real doc_len / bm_avg_doc_len idx)"

text \<open>The contribution of one query term to the score of one document.\<close>

definition term_score :: "bm25_index \<Rightarrow> (pystr, int) dict \<Rightarrow> nat \<Rightarrow> pystr \<times> int \<Rightarrow> real" where
  "term_score idx tf doc_len q =
     (let freq = dict_get_or 0 tf (fst q)
      in if freq = 0 then 0
         else real_of_int (snd q) * dict_get_or 0 (bm_idf idx) (fst q)
              * (real_of_int freq * (bm_k1 idx + 1)) / (real_of_int freq + length_norm idx doc_len))"

definition doc_score :: "bm25_index \<Rightarrow> (pystr, int) dict \<Rightarrow> nat \<Rightarrow> real" where
  "doc_score idx query_counts i =
     (let doc_len = (if bm_doc_lens idx ! i = 0 then 1 else bm_doc_lens idx ! i)
      in sum_list (map (term_score idx (bm_term_freqs idx ! i) doc_len) query_counts))"

definition bm25_search :: "bm25_index \<Rightarrow> pystr \<Rightarrow> int \<Rightarrow> (nat \<times> real) list" where
  "bm25_search idx query top_k =
     (if \<not> bm_enabled idx \<or> bm_term_freqs idx = [] \<or> top_k \<le> 0 then []
      else
        let query_terms = bm25_tokenize query
        in if query_terms = [] \<or> bm_avg_doc_len idx \<le> 0 then []
           else
             let query_counts = py_counter_of query_terms;
                 scored = filter (\<lambda>h. snd h > 0)
                   (map (\<lambda>i. (i, doc_score idx query_counts i)) [0 ..< length (bm_term_freqs idx)])
             in py_take top_k (sort_desc snd scored))"

section \<open>Facts about the index\<close>

lemma bm25_rebuild_simps [state_simps]:
  "bm_enabled (bm25_rebuild idx cs) = bm_enabled idx"
  "bm_k1 (bm25_rebuild idx cs) = bm_k1 idx"
  "bm_b (bm25_rebuild idx cs) = bm_b idx"
  "bm_doc_count (bm25_rebuild idx cs) = length cs"
  "bm_doc_lens (bm25_rebuild idx cs) = map (\<lambda>c. length (bm25_tokenize (c_content c))) cs"
  "bm_term_freqs (bm25_rebuild idx cs) = map (\<lambda>c. py_counter_of (bm25_tokenize (c_content c))) cs"
  by (auto simp: bm25_rebuild_def Let_def)

lemma bm25_avg_doc_len:
  "bm_avg_doc_len (bm25_rebuild idx cs) =
     (if cs = [] then 0
      else real (sum_list (map (\<lambda>c. length (bm25_tokenize (c_content c))) cs)) / real (length cs))"
  by (cases cs) (auto simp: bm25_rebuild_def Let_def comp_def)

lemma count_keys_ok: "dict_ok df \<Longrightarrow> dict_ok (count_keys tf df)"
  unfolding count_keys_def by (rule dict_ok_fold_add [where kf = "\<lambda>x. x" and amt = "\<lambda>_. 1"])

lemma distinct_count_one: "distinct ks \<Longrightarrow> length (filter (\<lambda>k. k = t) ks) = (if t \<in> set ks then 1 else 0)"
  by (induction ks) auto

lemma count_keys_val:
  assumes ok: "dict_ok df"
  shows "dict_get_or 0 (count_keys (py_counter_of ts) df) t =
     dict_get_or 0 df t + (if t \<in> set ts then 1 else 0)"
proof -
  let ?ks = "dict_keys (py_counter_of ts)"
  have "distinct ?ks" using dict_ok_counter [of ts] by (simp add: dict_ok_def dict_keys_def)
  then have "sum_list (map (\<lambda>_. 1 :: int) (filter (\<lambda>k. k = t) ?ks)) = (if t \<in> set ?ks then 1 else 0)"
    by (simp add: sum_list_triv distinct_count_one)
  then show ?thesis
    unfolding count_keys_def
    using dict_fold_add [OF ok, where kf = "\<lambda>x. x" and amt = "\<lambda>_. 1 :: int" and xs = ?ks and k = t]
    by (simp add: dict_keys_counter)
qed

lemma count_keys_None:
  assumes ok: "dict_ok df"
  shows "dict_get (count_keys (py_counter_of ts) df) t = None \<longleftrightarrow> dict_get df t = None \<and> t \<notin> set ts"
  unfolding count_keys_def
  using dict_fold_add_None [OF ok, where kf = "\<lambda>x. x" and amt = "\<lambda>_. 1 :: int"
      and xs = "dict_keys (py_counter_of ts)" and k = t]
  by (simp add: dict_keys_counter)

text \<open>The document frequency of a term is the number of documents that contain it.\<close>

definition doc_freq :: "pystr list list \<Rightarrow> pystr \<Rightarrow> nat" where
  "doc_freq tss t = length (filter (\<lambda>ts. t \<in> set ts) tss)"

lemma count_keys_fold:
  "dict_ok df \<Longrightarrow>
   dict_get_or 0 (fold count_keys (map py_counter_of tss) df) t = dict_get_or 0 df t + int (doc_freq tss t) \<and>
   (dict_get (fold count_keys (map py_counter_of tss) df) t = None \<longleftrightarrow>
      dict_get df t = None \<and> (\<forall>ts\<in>set tss. t \<notin> set ts))"
proof (induction tss arbitrary: df)
  case Nil
  then show ?case by (simp add: doc_freq_def)
next
  case (Cons ts tss)
  from Cons.IH [OF count_keys_ok [OF Cons.prems, of "py_counter_of ts"]] show ?case
    by (auto simp: count_keys_val [OF Cons.prems] count_keys_None [OF Cons.prems] doc_freq_def)
qed

lemma bm25_idf:
  "dict_get_or 0 (bm_idf (bm25_rebuild idx cs)) t =
     (let tss = map (\<lambda>c. bm25_tokenize (c_content c)) cs
      in if \<exists>ts\<in>set tss. t \<in> set ts then idf_value (length cs) (int (doc_freq tss t)) else 0)"
proof (cases "cs = []")
  case True
  then show ?thesis by (simp add: bm25_rebuild_def Let_def dict_get_or_def)
next
  case False
  define tss where "tss = map (\<lambda>c. bm25_tokenize (c_content c)) cs"
  define df where "df = fold count_keys (map py_counter_of tss) []"
  have idf: "bm_idf (bm25_rebuild idx cs) = map (\<lambda>(t, freq). (t, idf_value (length cs) freq)) df"
    using False by (simp add: bm25_rebuild_def Let_def df_def tss_def comp_def)
  have "dict_get (map (\<lambda>(t, freq). (t, idf_value (length cs) freq)) df) t =
      map_option (idf_value (length cs)) (dict_get df t)"
    by (simp add: map_of_map)
  moreover have "dict_get_or 0 df t = int (doc_freq tss t)"
    "dict_get df t = None \<longleftrightarrow> (\<forall>ts\<in>set tss. t \<notin> set ts)"
    using count_keys_fold [of "[]" tss t] by (simp_all add: df_def dict_get_or_def)
  ultimately show ?thesis
    unfolding idf tss_def [symmetric] Let_def
    by (auto simp: dict_get_or_def split: option.splits)
qed

lemma idf_value_pos: "0 < f \<Longrightarrow> f \<le> n \<Longrightarrow> 0 < idf_value n (int f)"
proof -
  assume "0 < f" "f \<le> n"
  then have "0 < (real n - real f + 1/2) / (real f + 1/2)" by simp
  then show ?thesis unfolding idf_value_def by (simp add: ln_gt_zero)
qed

lemma doc_freq_le: "doc_freq tss t \<le> length tss"
  by (simp add: doc_freq_def)

lemma doc_freq_pos: "ts \<in> set tss \<Longrightarrow> t \<in> set ts \<Longrightarrow> 0 < doc_freq tss t"
  by (auto simp: doc_freq_def filter_empty_conv)

text \<open>Entries of a counter.\<close>

lemma counter_entry: "(t, n) \<in> set (py_counter_of ts) \<longleftrightarrow> t \<in> set ts \<and> n = int (count_list ts t)"
proof -
  have "(t, n) \<in> set (py_counter_of ts) \<longleftrightarrow> dict_get (py_counter_of ts) t = Some n"
    by (simp add: dict_get_Some_in dict_ok_counter)
  moreover have "dict_get (py_counter_of ts) t = None \<longleftrightarrow> t \<notin> set ts"
    using alist_dict.keys_get [OF dict_ok_counter, of ts] dict_keys_counter [of ts] by auto
  moreover have "dict_get_or 0 (py_counter_of ts) t = int (count_list ts t)" by (rule length_counter_of)
  ultimately show ?thesis by (auto simp: dict_get_or_def split: option.splits)
qed

lemma count_list_pos: "t \<in> set ts \<Longrightarrow> 0 < count_list ts t"
  by (induction ts) auto

definition bm25_params :: "bm25_index \<Rightarrow> bool" where
  "bm25_params idx \<longleftrightarrow> 0 \<le> bm_k1 idx \<and> 0 \<le> bm_b idx \<and> bm_b idx \<le> 1"

lemma length_norm_nonneg:
  assumes "bm25_params idx" "0 < bm_avg_doc_len idx"
  shows "0 \<le> length_norm idx n"
proof -
  have "0 \<le> bm_b idx * real n / bm_avg_doc_len idx" using assms by (simp add: bm25_params_def)
  then show ?thesis using assms by (simp add: length_norm_def bm25_params_def)
qed

text \<open>
  A term of the query contributes nothing to a document without it and a positive amount to a
  document that contains it.
\<close>

lemma term_score_sign:
  fixes cs idx0
  defines "idx \<equiv> bm25_rebuild idx0 cs"
  assumes params: "bm25_params idx" and avg: "0 < bm_avg_doc_len idx"
    and i: "i < length cs" and n: "0 < n"
  shows "(if t \<in> set (bm25_tokenize (c_content (cs ! i)))
          then 0 < term_score idx (bm_term_freqs idx ! i) dl (t, n)
          else term_score idx (bm_term_freqs idx ! i) dl (t, n) = 0)"
proof -
  define ts where "ts = bm25_tokenize (c_content (cs ! i))"
  define tss where "tss = map (\<lambda>c. bm25_tokenize (c_content c)) cs"
  have tf: "bm_term_freqs idx ! i = py_counter_of ts"
    using i by (simp add: idx_def bm25_rebuild_simps ts_def)
  have freq: "dict_get_or 0 (py_counter_of ts) t = int (count_list ts t)" by (rule length_counter_of)
  show ?thesis
  proof (cases "t \<in> set ts")
    case False
    then have "count_list ts t = 0" by simp
    then show ?thesis using False by (simp add: term_score_def tf freq ts_def [symmetric])
  next
    case True
    have "ts \<in> set tss" using i by (simp add: ts_def tss_def)
    then have "0 < dict_get_or 0 (bm_idf idx) t"
      using True doc_freq_pos [of ts tss t] doc_freq_le [of tss t]
      by (auto simp: idx_def bm25_idf Let_def tss_def [symmetric] intro!: idf_value_pos)
        (simp add: tss_def)
    moreover have "0 < real (count_list ts t)" using True by (simp add: count_list_pos)
    moreover have "0 < bm_k1 idx + 1" using params by (simp add: bm25_params_def)
    moreover have "0 \<le> length_norm idx dl" using params avg by (rule length_norm_nonneg)
    ultimately have "0 < term_score idx (bm_term_freqs idx ! i) dl (t, n)"
      using n True unfolding term_score_def tf Let_def fst_conv snd_conv freq
      by (auto intro!: divide_pos_pos mult_pos_pos add_pos_nonneg)
    then show ?thesis using True by (simp add: ts_def)
  qed
qed

lemma doc_score_sign:
  fixes cs idx0 query
  defines "idx \<equiv> bm25_rebuild idx0 cs"
  assumes params: "bm25_params idx" and avg: "0 < bm_avg_doc_len idx" and i: "i < length cs"
  shows "0 < doc_score idx (py_counter_of qs) i \<longleftrightarrow>
     (\<exists>t\<in>set qs. t \<in> set (bm25_tokenize (c_content (cs ! i))))"
proof -
  define dl where "dl = (if bm_doc_lens idx ! i = 0 then 1 else bm_doc_lens idx ! i)"
  let ?s = "\<lambda>q. term_score idx (bm_term_freqs idx ! i) dl q"
  have score: "doc_score idx (py_counter_of qs) i = sum_list (map ?s (py_counter_of qs))"
    by (simp add: doc_score_def Let_def dl_def)
  have sign: "if fst q \<in> set (bm25_tokenize (c_content (cs ! i))) then 0 < ?s q else ?s q = 0"
    if q: "q \<in> set (py_counter_of qs)" for q
  proof -
    obtain t n where tn: "q = (t, n)" by fastforce
    with q have "0 < n" by (auto simp: counter_entry count_list_pos)
    then show ?thesis
      using term_score_sign [of idx0 cs i n t dl] params avg i unfolding tn idx_def by simp
  qed
  have nonneg: "\<forall>x\<in>set (map ?s (py_counter_of qs)). 0 \<le> x" using sign by (fastforce split: if_splits)
  then have "0 \<le> sum_list (map ?s (py_counter_of qs))" by (intro sum_list_nonneg) auto
  moreover have "sum_list (map ?s (py_counter_of qs)) = 0 \<longleftrightarrow> (\<forall>x\<in>set (map ?s (py_counter_of qs)). x = 0)"
    using nonneg by (intro sum_list_nonneg_eq_0_iff) auto
  ultimately have "0 < sum_list (map ?s (py_counter_of qs)) \<longleftrightarrow> (\<exists>q\<in>set (py_counter_of qs). ?s q \<noteq> 0)"
    by (auto simp: less_le)
  also have "\<dots> \<longleftrightarrow> (\<exists>q\<in>set (py_counter_of qs). fst q \<in> set (bm25_tokenize (c_content (cs ! i))))"
  proof (intro bex_cong refl)
    fix q assume "q \<in> set (py_counter_of qs)"
    from sign [OF this] show "?s q \<noteq> 0 \<longleftrightarrow> fst q \<in> set (bm25_tokenize (c_content (cs ! i)))"
      by (simp split: if_splits)
  qed
  also have "\<dots> \<longleftrightarrow> (\<exists>t\<in>set qs. t \<in> set (bm25_tokenize (c_content (cs ! i))))"
  proof
    assume "\<exists>q\<in>set (py_counter_of qs). fst q \<in> set (bm25_tokenize (c_content (cs ! i)))"
    then show "\<exists>t\<in>set qs. t \<in> set (bm25_tokenize (c_content (cs ! i)))"
      by (auto simp: counter_entry)
  next
    assume "\<exists>t\<in>set qs. t \<in> set (bm25_tokenize (c_content (cs ! i)))"
    then obtain t where "t \<in> set qs" "t \<in> set (bm25_tokenize (c_content (cs ! i)))" by blast
    then show "\<exists>q\<in>set (py_counter_of qs). fst q \<in> set (bm25_tokenize (c_content (cs ! i)))"
      by (intro bexI [of _ "(t, int (count_list qs t))"]) (auto simp: counter_entry)
  qed
  finally show ?thesis unfolding score .
qed

text \<open>Every search result: an indexed document with its positive score, each at most once, best first.\<close>

lemma bm25_search_sound:
  assumes "h \<in> set (bm25_search idx q k)"
  shows "fst h < length (bm_term_freqs idx) \<and> 0 < snd h \<and>
     snd h = doc_score idx (py_counter_of (bm25_tokenize q)) (fst h)"
proof -
  have "h \<in> set (filter (\<lambda>h. snd h > 0)
      (map (\<lambda>i. (i, doc_score idx (py_counter_of (bm25_tokenize q)) i)) [0 ..< length (bm_term_freqs idx)]))"
    using assms py_take_set by (fastforce simp: bm25_search_def Let_def split: if_splits)
  then show ?thesis by auto
qed

lemma bm25_search_order:
  "sorted_wrt (\<lambda>a b. snd a \<ge> snd b) (bm25_search idx q k) \<and> distinct (map fst (bm25_search idx q k)) \<and>
   int (length (bm25_search idx q k)) \<le> max k 0"
proof -
  have take: "sorted_wrt P xs \<and> distinct (map fst xs) \<Longrightarrow>
      sorted_wrt P (py_take k xs) \<and> distinct (map fst (py_take k xs))"
    for P and xs :: "(nat \<times> real) list"
    by (simp add: py_take_def sorted_wrt_take take_map [symmetric] distinct_take)
  define scored where "scored = filter (\<lambda>h. snd h > 0)
      (map (\<lambda>i. (i, doc_score idx (py_counter_of (bm25_tokenize q)) i)) [0 ..< length (bm_term_freqs idx)])"
  have "distinct (map fst scored)"
    unfolding scored_def by (rule distinct_map_filter_fst) (simp add: comp_def)
  then have "sorted_wrt (\<lambda>a b. snd a \<ge> snd b) (sort_desc snd scored) \<and> distinct (map fst (sort_desc snd scored))"
    by (simp add: sort_desc_sorted sort_desc_distinct)
  from take [OF this] py_take_length [of k "sort_desc snd scored"]
  show ?thesis by (auto simp: bm25_search_def Let_def scored_def [symmetric])
qed

text \<open>With room for every document, exactly the documents that share a term with the query are found.\<close>

lemma bm25_search_complete:
  fixes cs idx0
  defines "idx \<equiv> bm25_rebuild idx0 cs"
  assumes params: "bm25_params idx" and enabled: "bm_enabled idx" and k: "0 < k" "int (length cs) \<le> k"
  shows "fst ` set (bm25_search idx q k) =
     {i. i < length cs \<and> (\<exists>t\<in>set (bm25_tokenize q). t \<in> set (bm25_tokenize (c_content (cs ! i))))}"
    (is "_ = {i. i < length cs \<and> ?shares i}")
proof (cases "0 < bm_avg_doc_len idx")
  case False
  have "i < length cs \<Longrightarrow> bm25_tokenize (c_content (cs ! i)) = []" for i
  proof (rule ccontr)
    assume i: "i < length cs" and ne: "bm25_tokenize (c_content (cs ! i)) \<noteq> []"
    have "length (bm25_tokenize (c_content (cs ! i))) \<le>
        sum_list (map (\<lambda>c. length (bm25_tokenize (c_content c))) cs)"
      using i by (intro member_le_sum_list) auto
    then have "0 < sum_list (map (\<lambda>c. length (bm25_tokenize (c_content c))) cs)"
      using ne by (auto simp: neq_Nil_conv)
    then have "0 < bm_avg_doc_len idx" using i by (auto simp: idx_def bm25_avg_doc_len)
    with False show False by simp
  qed
  then show ?thesis using False by (auto simp: bm25_search_def Let_def)
next
  case True
  then have cs: "cs \<noteq> []" by (auto simp: idx_def bm25_avg_doc_len)
  let ?q = "bm25_tokenize q"
  show ?thesis
  proof (cases "?q = []")
    case True
    then show ?thesis by (auto simp: bm25_search_def Let_def)
  next
    case q: False
    have n: "length (bm_term_freqs idx) = length cs" by (simp add: idx_def bm25_rebuild_simps)
    define scored where "scored = filter (\<lambda>h. snd h > 0)
      (map (\<lambda>i. (i, doc_score idx (py_counter_of ?q) i)) [0 ..< length cs])"
    have "bm_term_freqs idx \<noteq> []" using n cs by auto
    then have "bm25_search idx q k = py_take k (sort_desc snd scored)"
      using q True enabled k(1) n by (simp add: bm25_search_def Let_def scored_def)
    moreover have "int (length scored) \<le> k"
      using k(2) length_filter_le [of "\<lambda>h. snd h > 0" "map (\<lambda>i. (i, doc_score idx (py_counter_of ?q) i)) [0 ..< length cs]"]
      unfolding scored_def by (simp only: length_map length_upt)
    ultimately have "set (bm25_search idx q k) = set scored" by (simp add: py_take_all)
    then have "fst ` set (bm25_search idx q k) =
        {i. i < length cs \<and> 0 < doc_score idx (py_counter_of ?q) i}"
      by (force simp: scored_def)
    then show ?thesis using doc_score_sign [of idx0 cs] params True unfolding idx_def by auto
  qed
qed

lemma bm25_params_rebuild: "bm25_params (bm25_rebuild idx cs) = bm25_params idx"
  by (simp add: bm25_params_def bm25_rebuild_simps)

text \<open>Tokens are stretches of the text.\<close>

lemma ngrams_sound: "0 < n \<Longrightarrow> w \<in> set (ngrams n phrase) \<Longrightarrow> w \<noteq> [] \<and> sublist w phrase"
  by (auto simp: ngrams_def intro: sublist_order.order_trans [OF sublist_take sublist_drop])

lemma cjk_tokens_sound: "phrase \<noteq> [] \<Longrightarrow> w \<in> set (cjk_tokens phrase) \<Longrightarrow> w \<noteq> [] \<and> sublist w phrase"
  using ngrams_sound [of 2 w phrase] ngrams_sound [of 3 w phrase]
  by (auto simp: cjk_tokens_def split: if_splits)

lemma bm25_token_sound:
  assumes "w \<in> set (bm25_tokenize s)"
  shows "w \<noteq> [] \<and> sublist w (py_lower s)"
proof -
  consider (en) u where "u \<in> set (re_findall re_term (py_lower s))" "w \<in> set (term_tokens u)"
    | (cjk) u where "u \<in> set (re_findall re_cjk_run (py_lower s))" "w \<in> set (cjk_tokens u)"
    using assms by (auto simp: bm25_tokenize_def Let_def)
  then show ?thesis
  proof cases
    case en
    from en(2) have "w = u \<or> w \<noteq> [] \<and> w \<in> set (re_split_cls is_joiner u)"
      by (auto simp: term_tokens_def)
    then have "(w \<noteq> [] \<or> w = u) \<and> sublist w u" using re_split_cls_sublist by auto
    then show ?thesis
      using re_findall_not_Nil [OF en(1)] re_findall_sublist [OF en(1)] sublist_order.order_trans by blast
  next
    case cjk
    then have "w \<noteq> [] \<and> sublist w u"
      using cjk_tokens_sound re_findall_not_Nil by blast
    then show ?thesis using re_findall_sublist [OF cjk(1)] sublist_order.order_trans by blast
  qed
qed

section \<open>Properties\<close>

text \<open>C26: after a rebuild with \<open>k1 \<ge> 0\<close> and \<open>0 \<le> b \<le> 1\<close>, a search with room for every document
  finds exactly the documents that share a token with the query: no document that shares none is
  returned and none that does is lost.\<close>

theorem bm25_search_exact:
  assumes "bm25_params idx0" "bm_enabled idx0" "0 < k" "int (length cs) \<le> k"
  shows "fst ` set (bm25_search (bm25_rebuild idx0 cs) q k) =
     {i. i < length cs \<and> (\<exists>t\<in>set (bm25_tokenize q). t \<in> set (bm25_tokenize (c_content (cs ! i))))}"
  using bm25_search_complete [of idx0 cs k q] assms by (simp add: bm25_params_rebuild bm25_rebuild_simps)

theorem bm25_search_exact_witness:
  "0 \<in> fst ` set (bm25_search (bm25_rebuild (bm25_init True (3/2) (3/4))
     [sample_chunk (asc ''RAG index''), sample_chunk (asc ''cache'')]) (asc ''index?'') 5)"
proof -
  have "\<exists>t\<in>set (bm25_tokenize (asc ''index?'')). t \<in> set (bm25_tokenize (c_content (sample_chunk (asc ''RAG index''))))"
    by code_simp
  then show ?thesis
    using bm25_search_exact [of "bm25_init True (3/2) (3/4)" 5
        "[sample_chunk (asc ''RAG index''), sample_chunk (asc ''cache'')]" "(asc ''index?'')"]
    by (simp add: bm25_params_def bm25_init_def)
qed

text \<open>Every search, on any index, returns at most \<open>top_k\<close> hits, best score first, each document
  at most once, each with its strictly positive BM25 score.\<close>

theorem bm25_search_ranked:
  "int (length (bm25_search idx q k)) \<le> max k 0 \<and>
   sorted_wrt (\<lambda>a b. snd a \<ge> snd b) (bm25_search idx q k) \<and>
   distinct (map fst (bm25_search idx q k)) \<and>
   (\<forall>h\<in>set (bm25_search idx q k). fst h < length (bm_term_freqs idx) \<and> 0 < snd h \<and>
      snd h = doc_score idx (py_counter_of (bm25_tokenize q)) (fst h))"
  using bm25_search_order [of idx q k] bm25_search_sound [of _ idx q k] by blast

theorem bm25_search_ranked_witness:
  "\<exists>h\<in>set (bm25_search (bm25_rebuild (bm25_init True (3/2) (3/4)) [sample_chunk (asc ''RAG index'')]) (asc ''index?'') 5).
     fst h = 0 \<and> 0 < snd h"
proof -
  let ?idx = "bm25_rebuild (bm25_init True (3/2) (3/4)) [sample_chunk (asc ''RAG index'')]"
  have "\<exists>t\<in>set (bm25_tokenize (asc ''index?'')). t \<in> set (bm25_tokenize (c_content (sample_chunk (asc ''RAG index''))))"
    by code_simp
  then have "0 \<in> fst ` set (bm25_search ?idx (asc ''index?'') 5)"
    using bm25_search_complete [of "bm25_init True (3/2) (3/4)" "[sample_chunk (asc ''RAG index'')]" 5 "(asc ''index?'')"]
    by (simp add: bm25_params_def bm25_init_def bm25_rebuild_simps)
  then obtain h where "h \<in> set (bm25_search ?idx (asc ''index?'') 5)" "fst h = 0" by force
  then show ?thesis using bm25_search_ranked [of ?idx "(asc ''index?'')" 5] by blast
qed

text \<open>Every token is a non-empty stretch of the lower-cased text.\<close>

theorem bm25_tokens_from_text:
  "\<forall>w\<in>set (bm25_tokenize s). w \<noteq> [] \<and> sublist w (py_lower s)"
  using bm25_token_sound by blast

theorem bm25_tokens_from_text_witness:
  "(asc ''bge-m3'') \<in> set (bm25_tokenize (asc ''BGE-M3!'')) \<and> sublist (asc ''bge-m3'') (py_lower (asc ''BGE-M3!''))"
proof -
  have "(asc ''bge-m3'') \<in> set (bm25_tokenize (asc ''BGE-M3!''))" by code_simp
  then show ?thesis using bm25_tokens_from_text [of "(asc ''BGE-M3!'')"] by blast
qed

end
