(* ===== verification/Py_Json.thy ===== *)
theory Py_Json
  imports Py_Collections
begin

text \<open>
  Values that \<open>json.loads\<close> returns, with the accesses and conversions the program applies to
  them: \<open>dict.get\<close>, truthiness, \<open>int(...)\<close> and \<open>float(...)\<close>. Numbers with a fraction are reals;
  the literals \<open>NaN\<close> and \<open>Infinity\<close>, and digits outside ASCII, are outside the model. An exception
  of the interpreter carries its leading text only.
\<close>

section \<open>The result monad\<close>

definition rbind :: "'a result \<Rightarrow> ('a \<Rightarrow> 'b result) \<Rightarrow> 'b result" where
  "rbind m f = (case m of Inl e \<Rightarrow> Inl e | Inr x \<Rightarrow> f x)"

lemma rbind_simps [simp]: "rbind (Inl e) f = Inl e" "rbind (Inr x) f = f x"
  by (simp_all add: rbind_def)

lemma rbind_Inr_iff: "rbind m f = Inr y \<longleftrightarrow> (\<exists>x. m = Inr x \<and> f x = Inr y)"
  by (cases m) auto

fun mapr :: "('a \<Rightarrow> 'b result) \<Rightarrow> 'a list \<Rightarrow> 'b list result" where
  "mapr f [] = Inr []"
| "mapr f (x # xs) = rbind (f x) (\<lambda>y. rbind (mapr f xs) (\<lambda>ys. Inr (y # ys)))"

lemma mapr_length: "mapr f xs = Inr ys \<Longrightarrow> length ys = length xs"
  by (induction xs arbitrary: ys) (auto simp: rbind_Inr_iff)

lemma mapr_in: "mapr f xs = Inr ys \<Longrightarrow> y \<in> set ys \<Longrightarrow> \<exists>x\<in>set xs. f x = Inr y"
  by (induction xs arbitrary: ys) (auto simp: rbind_Inr_iff)

lemma mapr_map_total: "(\<And>x. x \<in> set xs \<Longrightarrow> f (h x) = Inr (g x)) \<Longrightarrow> mapr f (map h xs) = Inr (map g xs)"
  by (induction xs) auto

section \<open>Values\<close>

datatype json =
    JNull
  | JBool bool
  | JInt int
  | JReal real
  | JStr pystr
  | JArr "json list"
  | JObj "(pystr \<times> json) list"

fun truthy :: "json \<Rightarrow> bool" where
  "truthy JNull = False"
| "truthy (JBool b) = b"
| "truthy (JInt i) = (i \<noteq> 0)"
| "truthy (JReal r) = (r \<noteq> 0)"
| "truthy (JStr s) = (s \<noteq> [])"
| "truthy (JArr xs) = (xs \<noteq> [])"
| "truthy (JObj kvs) = (kvs \<noteq> [])"

text \<open>\<open>a or b\<close>, and \<open>obj.get(key, default)\<close>; \<open>get\<close> on a value that is no object raises.\<close>

definition json_or :: "json \<Rightarrow> json \<Rightarrow> json" where
  "json_or a b = (if truthy a then a else b)"

fun json_get_or :: "json \<Rightarrow> pystr \<Rightarrow> json \<Rightarrow> json result" where
  "json_get_or (JObj kvs) k d = Inr (case map_of kvs k of None \<Rightarrow> d | Some v \<Rightarrow> v)"
| "json_get_or _ k d = Inl (OtherError (asc ''object has no attribute get''))"

definition json_get :: "json \<Rightarrow> pystr \<Rightarrow> json result" where
  "json_get j k = json_get_or j k JNull"

text \<open>
  \<open>str(v)\<close> of a JSON value; the rendering of floats, lists and dictionaries by the interpreter is
  the parameter \<open>repr\<close>.
\<close>

fun json_str :: "(json \<Rightarrow> pystr) \<Rightarrow> json \<Rightarrow> pystr" where
  "json_str repr JNull = (asc ''None'')"
| "json_str repr (JBool b) = (if b then (asc ''True'') else (asc ''False''))"
| "json_str repr (JInt i) = show_int i"
| "json_str repr (JStr s) = s"
| "json_str repr v = repr v"

text \<open>What a \<open>for\<close> loop over a value yields; other values are not iterable.\<close>

fun json_iter :: "json \<Rightarrow> json list result" where
  "json_iter (JArr xs) = Inr xs"
| "json_iter (JObj kvs) = Inr (map (\<lambda>kv. JStr (fst kv)) kvs)"
| "json_iter (JStr s) = Inr (map (\<lambda>c. JStr [c]) s)"
| "json_iter _ = Inl (OtherError (asc ''object is not iterable''))"

definition obj_get :: "(pystr \<times> json) list \<Rightarrow> pystr \<Rightarrow> json \<Rightarrow> json" where
  "obj_get kvs k d = (case map_of kvs k of None \<Rightarrow> d | Some v \<Rightarrow> v)"

text \<open>\<open>obj[key]\<close> on a dictionary.\<close>

fun json_item :: "json \<Rightarrow> pystr \<Rightarrow> json result" where
  "json_item (JObj kvs) k = (case map_of kvs k of None \<Rightarrow> Inl (OtherError k) | Some v \<Rightarrow> Inr v)"
| "json_item _ k = Inl (OtherError (asc ''object is not subscriptable''))"

section \<open>Conversions\<close>

text \<open>Decimal digits with single underscores between them.\<close>

fun digits_from :: "bool \<Rightarrow> nat \<Rightarrow> pystr \<Rightarrow> nat option" where
  "digits_from prev acc [] = (if prev then Some acc else None)"
| "digits_from prev acc (c # cs) =
     (if 48 \<le> c \<and> c \<le> 57 then digits_from True (10 * acc + nat (c - 48)) cs
      else if c = 95 \<and> prev then digits_from False acc cs
      else None)"

definition signed :: "(pystr \<Rightarrow> ('a :: uminus) option) \<Rightarrow> pystr \<Rightarrow> 'a option" where
  "signed f s = (case s of
       [] \<Rightarrow> f []
     | c # t \<Rightarrow> if c = 45 then map_option uminus (f t) else if c = 43 then f t else f s)"

definition int_of_str :: "pystr \<Rightarrow> int option" where
  "int_of_str s = signed (\<lambda>t. map_option int (digits_from False 0 t)) (py_strip s)"

definition scale10 :: "real \<Rightarrow> int \<Rightarrow> real" where
  "scale10 x e = (if 0 \<le> e then x * 10 ^ nat e else x / 10 ^ nat (- e))"

definition mantissa_of_str :: "pystr \<Rightarrow> real option" where
  "mantissa_of_str m =
     (let ip = takeWhile (\<lambda>c. c \<noteq> 46) m; fp = drop (length ip + 1) m;
          ival = (if ip = [] then Some 0 else digits_from False 0 ip);
          fval = (if fp = [] then Some 0 else digits_from False 0 fp)
      in if ip = [] \<and> fp = [] then None
         else case (ival, fval) of
           (Some a, Some b) \<Rightarrow>
             Some (real a + scale10 (real b) (- int (length (filter (\<lambda>c. c \<noteq> 95) fp))))
         | _ \<Rightarrow> None)"

definition float_of_str :: "pystr \<Rightarrow> real option" where
  "float_of_str s = signed
     (\<lambda>t. let m = takeWhile (\<lambda>c. c \<noteq> 69 \<and> c \<noteq> 101) t; ex = drop (length m) t
          in case (mantissa_of_str m,
                   if ex = [] then Some 0
                   else signed (\<lambda>d. map_option int (digits_from False 0 d)) (tl ex)) of
               (Some x, Some e) \<Rightarrow> Some (scale10 x e)
             | _ \<Rightarrow> None) (py_strip s)"

fun py_int :: "json \<Rightarrow> int result" where
  "py_int (JBool b) = Inr (of_bool b)"
| "py_int (JInt i) = Inr i"
| "py_int (JReal r) = Inr (if 0 \<le> r then \<lfloor>r\<rfloor> else \<lceil>r\<rceil>)"
| "py_int (JStr s) = (case int_of_str s of
       None \<Rightarrow> Inl (ValueError (asc ''invalid literal for int() with base 10''))
     | Some i \<Rightarrow> Inr i)"
| "py_int _ = Inl (OtherError (asc ''int() argument must be a string or a real number''))"

fun py_float :: "json \<Rightarrow> real result" where
  "py_float (JBool b) = Inr (of_bool b)"
| "py_float (JInt i) = Inr (real_of_int i)"
| "py_float (JReal r) = Inr r"
| "py_float (JStr s) = (case float_of_str s of
       None \<Rightarrow> Inl (ValueError (asc ''could not convert string to float''))
     | Some r \<Rightarrow> Inr r)"
| "py_float _ = Inl (OtherError (asc ''float() argument must be a string or a real number''))"

text \<open>\<open>round(x, n)\<close>: to the nearest multiple of \<open>10\<close> to the power \<open>-n\<close>, ties to even.\<close>

definition py_round :: "nat \<Rightarrow> real \<Rightarrow> real" where
  "py_round n x =
     (let y = x * 10 ^ n; f = \<lfloor>y\<rfloor>; r = y - of_int f
      in of_int (if r < 1 / 2 \<or> (r = 1 / 2 \<and> even f) then f else f + 1) / 10 ^ n)"

text \<open>\<open>f\"{x:.nf}\"\<close>: the decimal rendering with \<open>n\<close> digits after the point.\<close>

definition pad_digits :: "nat \<Rightarrow> nat \<Rightarrow> pystr" where
  "pad_digits n k = replicate (n - length (show_nat k)) 48 @ show_nat k"

definition show_fixed :: "nat \<Rightarrow> real \<Rightarrow> pystr" where
  "show_fixed n x =
     (let k = nat \<lfloor>py_round n \<bar>x\<bar> * 10 ^ n\<rfloor>
      in (if x < 0 then [45] else []) @ show_nat (k div 10 ^ n) @
         (if n = 0 then [] else [46] @ pad_digits n (k mod 10 ^ n)))"

text \<open>Rounding is monotone and moves a value by at most half a unit.\<close>

lemma py_round_error: "\<bar>py_round n x - x\<bar> \<le> 1 / (2 * 10 ^ n)"
proof -
  define y f where "y = x * 10 ^ n" and "f = \<lfloor>y\<rfloor>"
  define g where "g = (if y - of_int f < 1/2 \<or> (y - of_int f = 1/2 \<and> even f) then f else f + 1)"
  have "\<bar>of_int g - y\<bar> \<le> 1 / 2"
  proof -
    have "of_int f \<le> y" "y < of_int f + 1" unfolding f_def by linarith+
    then show ?thesis unfolding g_def by (cases "y - of_int f < 1/2") (auto simp: abs_le_iff)
  qed
  moreover have "py_round n x - x = (of_int g - y) / 10 ^ n"
    by (simp add: py_round_def Let_def g_def f_def y_def field_simps)
  moreover have "(0 :: real) < 10 ^ n" by simp
  ultimately show ?thesis
    by (simp only: abs_divide abs_of_pos pos_divide_le_eq) simp
qed

lemma py_round_mono: "x \<le> y \<Longrightarrow> py_round n x \<le> py_round n y"
proof -
  assume le: "x \<le> y"
  define a b where "a = x * 10 ^ n" and "b = y * 10 ^ n"
  define h where "h = (\<lambda>z :: real. if z - of_int \<lfloor>z\<rfloor> < 1/2 \<or> (z - of_int \<lfloor>z\<rfloor> = 1/2 \<and> even \<lfloor>z\<rfloor>)
    then \<lfloor>z\<rfloor> else \<lfloor>z\<rfloor> + 1)"
  have ab: "a \<le> b" using le by (simp add: a_def b_def)
  then have fl: "\<lfloor>a\<rfloor> \<le> \<lfloor>b\<rfloor>" by (rule floor_mono)
  have "h a \<le> h b"
  proof (cases "\<lfloor>a\<rfloor> = \<lfloor>b\<rfloor>")
    case True
    then show ?thesis using ab unfolding h_def by auto
  next
    case False
    then show ?thesis using fl unfolding h_def by (auto split: if_splits)
  qed
  moreover have "py_round n x = of_int (h a) / 10 ^ n" "py_round n y = of_int (h b) / 10 ^ n"
    by (simp_all add: py_round_def Let_def h_def a_def b_def)
  ultimately show ?thesis by (simp add: divide_right_mono)
qed

end
