(* ===== verification/Retrieval.thy ===== *)
theory Retrieval
  imports Bm25 Text_Clean Py_Json
begin

text \<open>
  Hybrid retrieval of \<open>backend/retriever.py\<close>: overview queries, reciprocal rank fusion, the
  grouping of child hits under their parents, the merge of overview and fused results, the
  reranker and \<open>KnowledgeBase.search\<close>. The FAISS index with the embedding of the query, and the
  HTTP client of the reranker, are parameters. Environment variables are read as configuration
  values; scores are real numbers, but the index may report non-finite ones.
\<close>

section \<open>Results and configuration\<close>

record search_result =
  sr_content :: pystr
  sr_source :: pystr
  sr_page :: int
  sr_score :: real
  sr_retrieval_score :: "real option"

datatype fscore = Finite real | Non_Finite

record search_config =
  sc_overview_boost :: bool
  sc_candidate_k :: "int option"
  sc_bm25_candidate_k :: "int option"
  sc_rrf_k :: int
  sc_vector_weight :: real
  sc_bm25_weight :: real

definition default_config :: search_config where
  "default_config =
     \<lparr>sc_overview_boost = True, sc_candidate_k = None, sc_bm25_candidate_k = None, sc_rrf_k = 60,
      sc_vector_weight = 1, sc_bm25_weight = 1\<rparr>"

section \<open>Overview queries\<close>

definition overview_phrases :: "pystr list" where
  "overview_phrases =
     [[0x8bb2, 0x4ec0, 0x4e48], [0x5199, 0x4ec0, 0x4e48], [0x5199, 0x7684, 0x4ec0, 0x4e48], [0x5199,
         0x5f97, 0x4ec0, 0x4e48], [0x8bf4, 0x4ec0, 0x4e48], [0x662f, 0x5565], [0x5e72, 0x561b],
         [0x4e3b, 0x8981, 0x5185, 0x5bb9], [0x6838, 0x5fc3, 0x5185, 0x5bb9],
      [0x603b, 0x7ed3], [0x6982, 0x62ec], [0x6982, 0x8ff0], [0x6458, 0x8981], [0x4ecb, 0x7ecd,
          0x4e00, 0x4e0b], [0x8fd9, 0x7bc7], [0x8fd9, 0x4efd], [0x8fd9, 0x4e2a, 0x6587, 0x6863],
          [0x8fd9, 0x7bc7, 0x8bba, 0x6587], [0x8fd9, 0x7bc7, 0x6587, 0x7ae0],
      [0x8bba, 0x6587, 0x5185, 0x5bb9], [0x6587, 0x6863, 0x5185, 0x5bb9], (asc ''what is this''),
          (asc ''summarize''), (asc ''summary''), (asc ''overview'')]"

definition is_document_overview_query :: "pystr \<Rightarrow> bool" where
  "is_document_overview_query query0 =
     (let query = py_lower (clean_text query0)
      in if query = [] then False else any_in overview_phrases query)"

definition parent_key :: "chunk \<Rightarrow> pystr" where
  "parent_key ch = str_or (c_parent_id ch) (c_id ch)"

definition parent_text :: "chunk \<Rightarrow> pystr" where
  "parent_text ch = str_or (c_parent_content ch) (c_content ch)"

definition overview_score :: "chunk \<Rightarrow> real" where
  "overview_score ch =
     (let tx = py_lower (parent_text ch)
      in 1 + (if c_page ch \<le> 2 then 3 else 0)
           + (if c_parent_index ch = 0 then 2 else 0)
           + (if any_in [(asc ''abstract''), (asc ''a b s t r a c t''), [0x6458, 0x8981]] tx then 4 else 0)
           + (if any_in [(asc ''introduction''), (asc ''related work''), [0x5f15, 0x8a00], [0x80cc,
               0x666f]] tx then 2 else 0)
           + (if any_in [(asc ''conclusion''), (asc ''conclusions''), [0x7ed3, 0x8bba],
               (asc ''summary'')] tx then 3 else 0))"

definition result_of_chunk :: "chunk \<Rightarrow> real \<Rightarrow> search_result" where
  "result_of_chunk ch score =
     \<lparr>sr_content = parent_text ch, sr_source = c_source ch, sr_page = c_page ch,
      sr_score = py_round 4 score, sr_retrieval_score = Some (py_round 4 score)\<rparr>"

text \<open>The first chunk of every parent, in the order of the chunk list.\<close>

definition first_of_parents :: "chunk list \<Rightarrow> (pystr, chunk) dict" where
  "first_of_parents cs = fold (\<lambda>ch. dict_put_new (parent_key ch) ch) cs []"

definition overview_results :: "chunk list \<Rightarrow> int \<Rightarrow> search_result list" where
  "overview_results cs top_k =
     map (\<lambda>ch. result_of_chunk ch (overview_score ch))
       (py_take top_k (sort_desc overview_score (dict_values (first_of_parents cs))))"

section \<open>Reciprocal rank fusion\<close>

text \<open>One loop \<open>for rank, (index, _score) in enumerate(hits, start=1)\<close>; dividing by zero raises.\<close>

fun rrf_accumulate ::
  "real \<Rightarrow> int \<Rightarrow> int \<Rightarrow> (int \<times> real) list \<Rightarrow> (int, real) dict \<Rightarrow> (int, real) dict result" where
  "rrf_accumulate w k rank [] fused = Inr fused"
| "rrf_accumulate w k rank (hit # hits) fused =
     (if k + rank = 0 then Inl (OtherError (asc ''float division by zero''))
      else rrf_accumulate w k (rank + 1) hits (dict_add (fst hit) (w / real_of_int (k + rank)) fused))"

definition rrf_fuse ::
  "search_config \<Rightarrow> (int \<times> real) list \<Rightarrow> (int \<times> real) list \<Rightarrow> (int, real) dict result" where
  "rrf_fuse cfg vector_hits bm25_hits =
     rbind (rrf_accumulate (sc_vector_weight cfg) (sc_rrf_k cfg) 1 vector_hits [])
       (rrf_accumulate (sc_bm25_weight cfg) (sc_rrf_k cfg) 1 bm25_hits)"

section \<open>Parents of the fused hits\<close>

definition parent_hit_step ::
  "chunk list \<Rightarrow> int \<times> real \<Rightarrow> (pystr, search_result) dict \<Rightarrow> (pystr, search_result) dict" where
  "parent_hit_step cs hit parent_hits =
     (if fst hit < 0 \<or> fst hit \<ge> int (length cs) then parent_hits
      else
        let ch = cs ! nat (fst hit);
            result = result_of_chunk ch (snd hit)
        in case dict_get parent_hits (parent_key ch) of
             None \<Rightarrow> dict_put (parent_key ch) result parent_hits
           | Some existing \<Rightarrow>
               if sr_score result > sr_score existing
               then dict_put (parent_key ch) result parent_hits else parent_hits)"

definition parent_results :: "chunk list \<Rightarrow> (int, real) dict \<Rightarrow> search_result list" where
  "parent_results cs fused =
     sort_desc sr_score (dict_values (fold (parent_hit_step cs) (sort_desc snd fused) []))"

definition merge_key :: "search_result \<Rightarrow> pystr \<times> int \<times> pystr" where
  "merge_key r = (sr_source r, sr_page r, take 160 (sr_content r))"

text \<open>The loop of \<open>_merge_search_results\<close>; the test of \<open>top_k\<close> comes after the append.\<close>

fun merge_loop ::
  "int \<Rightarrow> (pystr \<times> int \<times> pystr) set \<Rightarrow> search_result list \<Rightarrow> search_result list \<Rightarrow> search_result list" where
  "merge_loop top_k seen merged [] = merged"
| "merge_loop top_k seen merged (r # rs) =
     (if merge_key r \<in> seen then merge_loop top_k seen merged rs
      else if int (length (merged @ [r])) \<ge> top_k then merged @ [r]
      else merge_loop top_k (insert (merge_key r) seen) (merged @ [r]) rs)"

definition merge_search_results ::
  "search_result list \<Rightarrow> search_result list \<Rightarrow> int \<Rightarrow> search_result list" where
  "merge_search_results primary secondary top_k = merge_loop top_k {} [] (primary @ secondary)"

section \<open>The reranker\<close>

record reranker =
  rr_enabled :: bool
  rr_api_base :: pystr
  rr_model_name :: pystr
  rr_active_model :: pystr
  rr_last_error :: pystr

text \<open>
  A response of the rerank endpoint: its status and text, the outcome of \<open>json()\<close> and the message
  of the exception \<open>raise_for_status\<close> raises. The client \<open>post\<close> is asked with the number of the
  attempt, the endpoint and the fields of the request body, and may raise.
\<close>

record rerank_response =
  hr_status :: int
  hr_text :: pystr
  hr_json :: "json result"
  hr_error :: pystr

type_synonym rerank_client =
  "nat \<Rightarrow> pystr \<Rightarrow> pystr \<Rightarrow> pystr \<Rightarrow> pystr list \<Rightarrow> int \<Rightarrow> rerank_response result"

definition reranker_init :: "bool \<Rightarrow> pystr \<Rightarrow> pystr \<Rightarrow> reranker" where
  "reranker_init enabled api_base model =
     (let base = rstrip_by (\<lambda>c. c = 47) (py_strip api_base);
          off = enabled \<and> base = []
      in \<lparr>rr_enabled = (enabled \<and> \<not> off), rr_api_base = base, rr_model_name = py_strip model,
          rr_active_model = [], rr_last_error = (if off then (asc ''RERANK_API_BASE is empty.'') else [])\<rparr>)"

definition candidate_models :: "reranker \<Rightarrow> pystr option \<Rightarrow> pystr list" where
  "candidate_models rr env_model =
     (let configured = (case env_model of None \<Rightarrow> rr_model_name rr | Some m \<Rightarrow> m);
          models = filter (\<lambda>m. m \<noteq> []) (map py_strip (py_split [44] configured))
      in if models = [] then [(asc ''rerank-v4.0-fast'')] else models)"

definition rerank_endpoint :: "reranker \<Rightarrow> pystr" where
  "rerank_endpoint rr =
     (if ends_with (rr_api_base rr) (asc ''/rerank'') then rr_api_base rr else rr_api_base rr @ (asc ''/rerank''))"

text \<open>The loop over the candidate models: the response it leaves, the active model, the last error.\<close>

fun rerank_attempts ::
  "(nat \<Rightarrow> pystr \<Rightarrow> rerank_response result) \<Rightarrow> nat \<Rightarrow> pystr list \<Rightarrow> pystr \<Rightarrow> reranker \<Rightarrow>
   reranker \<times> (rerank_response option \<times> pystr) result" where
  "rerank_attempts post n [] last_error rr = (rr, Inr (None, last_error))"
| "rerank_attempts post n (model # models) last_error rr =
     (case post n model of
        Inl e \<Rightarrow> (rr, Inl e)
      | Inr resp \<Rightarrow>
          if hr_status resp < 400 then (rr\<lparr>rr_active_model := model\<rparr>, Inr (Some resp, last_error))
          else
            let err = show_int (hr_status resp) @ [32] @ take 500 (hr_text resp)
            in if hr_status resp = 401 \<or> hr_status resp = 403 then (rr, Inr (Some resp, err))
               else rerank_attempts post (n + 1) models err rr)"

text \<open>\<open>payload.get("results") or payload.get("data") or payload.get("documents") or []\<close>\<close>

definition rerank_items :: "json \<Rightarrow> json list result" where
  "rerank_items payload =
     rbind (json_get payload (asc ''results'')) (\<lambda>a.
     rbind (json_get payload (asc ''data'')) (\<lambda>b.
     rbind (json_get payload (asc ''documents'')) (\<lambda>c.
       case json_or a (json_or b (json_or c (JArr []))) of
         JArr xs \<Rightarrow> Inr xs
       | _ \<Rightarrow> Inl (OtherError (asc ''object has no attribute get'')))))"

text \<open>The index an item refers to; \<open>None\<close> is the code's \<open>None\<close>.\<close>

definition item_index :: "json \<Rightarrow> int option result" where
  "item_index item =
     rbind (json_get item (asc ''index'')) (\<lambda>index0.
     rbind (json_get item (asc ''document'')) (\<lambda>doc.
       let index = (case (index0, doc) of
             (JNull, JObj kvs) \<Rightarrow> (case map_of kvs (asc ''index'') of None \<Rightarrow> JNull | Some v \<Rightarrow> v)
           | _ \<Rightarrow> index0)
       in if index = JNull then Inr None else rbind (py_int index) (\<lambda>i. Inr (Some i))))"

definition item_score :: "json \<Rightarrow> json result" where
  "item_score item =
     rbind (json_get item (asc ''rank_score'')) (\<lambda>c.
     rbind (json_get_or item (asc ''score'') c) (\<lambda>b.
       json_get_or item (asc ''relevance_score'') b))"

definition rescored :: "search_result \<Rightarrow> json \<Rightarrow> search_result result" where
  "rescored result score =
     rbind (if score = JNull then Inr (sr_score result)
            else rbind (py_float score) (\<lambda>x. Inr (py_round 4 x))) (\<lambda>s.
       Inr (result\<lparr>sr_score := s,
              sr_retrieval_score := Some (case sr_retrieval_score result of
                 None \<Rightarrow> sr_score result | Some r \<Rightarrow> r)\<rparr>))"

fun rank_items :: "search_result list \<Rightarrow> json list \<Rightarrow> search_result list result" where
  "rank_items results [] = Inr []"
| "rank_items results (item # items) =
     rbind (item_index item) (\<lambda>index.
       case index of
         None \<Rightarrow> rank_items results items
       | Some i \<Rightarrow>
           if i < 0 \<or> i \<ge> int (length results) then rank_items results items
           else
             rbind (item_score item) (\<lambda>score.
             rbind (rescored (results ! nat i) score) (\<lambda>r.
             rbind (rank_items results items) (\<lambda>ranked. Inr (r # ranked)))))"

definition rerank_api ::
  "rerank_client \<Rightarrow> pystr option \<Rightarrow> pystr \<Rightarrow> search_result list \<Rightarrow> int \<Rightarrow> reranker \<Rightarrow>
   reranker \<times> search_result list result" where
  "rerank_api post env_model query results top_k rr =
     (let docs = map sr_content results
      in case rerank_attempts (\<lambda>n model. post n (rerank_endpoint rr) model query docs top_k) 0
                (candidate_models rr env_model) [] rr of
           (rr', Inl e) \<Rightarrow> (rr', Inl e)
         | (rr', Inr (None, last_error)) \<Rightarrow>
             (rr', Inl (RuntimeError (str_or last_error (asc ''Rerank API failed.''))))
         | (rr', Inr (Some resp, last_error)) \<Rightarrow>
             (rr', if 400 \<le> hr_status resp \<and> hr_status resp < 600 then Inl (OtherError (hr_error resp))
                   else
                     rbind (hr_json resp) (\<lambda>payload.
                     rbind (rerank_items payload) (\<lambda>items.
                     rbind (rank_items results items) (\<lambda>ranked.
                       Inr (if ranked = [] then py_take top_k results else py_take top_k ranked))))))"

definition rerank ::
  "rerank_client \<Rightarrow> pystr option \<Rightarrow> pystr \<Rightarrow> search_result list \<Rightarrow> int \<Rightarrow> reranker \<Rightarrow>
   reranker \<times> search_result list" where
  "rerank post env_model query results top_k rr =
     (if \<not> rr_enabled rr \<or> results = [] then (rr, py_take top_k results)
      else case rerank_api post env_model query results top_k rr of
          (rr', Inr ranked) \<Rightarrow> (rr'\<lparr>rr_last_error := []\<rparr>, ranked)
        | (rr', Inl e) \<Rightarrow> (rr'\<lparr>rr_last_error := exn_str e\<rparr>, py_take top_k results))"

section \<open>The search\<close>

definition vector_hits_of :: "real \<Rightarrow> (fscore \<times> int) list \<Rightarrow> (int \<times> real) list" where
  "vector_hits_of min_score raw =
     concat (map (\<lambda>(score, index). case score of
         Non_Finite \<Rightarrow> []
       | Finite s \<Rightarrow> if index < 0 \<or> s < min_score then [] else [(index, s)]) raw)"

text \<open>
  \<open>KnowledgeBase.search\<close> on the chunk list, the number of vectors \<open>ntotal\<close> and the BM25 index.
  \<open>vsearch query k\<close> is the embedding of the query followed by the search of the vector index;
  either may raise, and the exception leaves \<open>search\<close>.
\<close>

definition search_hits ::
  "search_config \<Rightarrow> (pystr \<Rightarrow> int \<Rightarrow> (fscore \<times> int) list result) \<Rightarrow> chunk list \<Rightarrow> bm25_index \<Rightarrow>
   pystr \<Rightarrow> int \<Rightarrow> real \<Rightarrow> (int, real) dict result" where
  "search_hits cfg vsearch cs bm25 query top_k min_score =
     (let candidate_k = min (case sc_candidate_k cfg of None \<Rightarrow> max (top_k * 8) top_k | Some k \<Rightarrow> k)
            (int (length cs))
      in rbind (vsearch query candidate_k) (\<lambda>raw.
           let bm25_k = min (case sc_bm25_candidate_k cfg of None \<Rightarrow> candidate_k | Some k \<Rightarrow> k)
                 (int (length cs));
               bm25_hits = map (\<lambda>h. (int (fst h), snd h)) (bm25_search bm25 query bm25_k)
           in rrf_fuse cfg (vector_hits_of min_score raw) bm25_hits))"

definition kb_search ::
  "search_config \<Rightarrow> (pystr \<Rightarrow> int \<Rightarrow> (fscore \<times> int) list result) \<Rightarrow> rerank_client \<Rightarrow> pystr option \<Rightarrow>
   chunk list \<Rightarrow> nat \<Rightarrow> bm25_index \<Rightarrow> pystr \<Rightarrow> int \<Rightarrow> real \<Rightarrow> reranker \<Rightarrow>
   reranker \<times> search_result list result" where
  "kb_search cfg vsearch post env_model cs ntotal bm25 query top_k min_score rr =
     (if cs = [] \<or> ntotal = 0 then (rr, Inr [])
      else
        let overview = (if sc_overview_boost cfg \<and> is_document_overview_query query
                        then overview_results cs top_k else [])
        in case search_hits cfg vsearch cs bm25 query top_k min_score of
             Inl e \<Rightarrow> (rr, Inl e)
           | Inr fused \<Rightarrow>
               let results = merge_search_results overview (parent_results cs fused) top_k;
                   (rr', final) = rerank post env_model query results top_k rr
               in (rr', Inr final))"

section \<open>Facts about the fusion\<close>

lemma rrf_accumulate_fold:
  "0 < k + rank \<Longrightarrow> rrf_accumulate w k rank hits d =
     Inr (fold (\<lambda>r. dict_add (fst (hits ! r)) (w / real_of_int (k + rank + int r))) [0 ..< length hits] d)"
proof (induction hits arbitrary: rank d)
  case (Cons h hits)
  have "[0 ..< length (h # hits)] = 0 # map Suc [0 ..< length hits]"
    by (simp add: map_Suc_upt upt_conv_Cons del: upt_Suc)
  then show ?case using Cons by (simp add: fold_map comp_def algebra_simps del: upt_Suc)
qed simp

text \<open>What a channel of hits contributes to one index.\<close>

definition rrf_share :: "real \<Rightarrow> int \<Rightarrow> (int \<times> real) list \<Rightarrow> int \<Rightarrow> real" where
  "rrf_share w k hits i =
     (\<Sum>r\<leftarrow>filter (\<lambda>r. fst (hits ! r) = i) [0 ..< length hits]. w / real_of_int (k + 1 + int r))"

lemma rrf_channel:
  assumes "0 \<le> k" "dict_ok d"
  shows "\<exists>f. rrf_accumulate w k 1 hits d = Inr f \<and> dict_ok f \<and>
     (\<forall>i. dict_get_or 0 f i = dict_get_or 0 d i + rrf_share w k hits i) \<and>
     set (dict_keys f) = set (dict_keys d) \<union> fst ` set hits"
proof -
  let ?f = "fold (\<lambda>r. dict_add (fst (hits ! r)) (w / real_of_int (k + 1 + int r))) [0 ..< length hits] d"
  have run: "rrf_accumulate w k 1 hits d = Inr ?f" using assms by (intro rrf_accumulate_fold) simp
  have ok: "dict_ok ?f" by (rule dict_ok_fold_add [OF assms(2)])
  have "dict_get_or 0 ?f i = dict_get_or 0 d i + rrf_share w k hits i" for i
    unfolding rrf_share_def by (rule dict_fold_add [OF assms(2)])
  moreover have "set (dict_keys ?f) = set (dict_keys d) \<union> fst ` set hits"
  proof -
    have "map fst hits = map (\<lambda>r. fst (hits ! r)) [0 ..< length hits]" by (rule nth_equalityI) simp_all
    then have "set (map fst hits) = set (map (\<lambda>r. fst (hits ! r)) [0 ..< length hits])" by (rule arg_cong)
    then have "fst ` set hits = (\<lambda>r. fst (hits ! r)) ` set [0 ..< length hits]" by (simp only: set_map)
    then show ?thesis unfolding dict_keys_fold_add [OF assms(2)] by simp
  qed
  ultimately show ?thesis using run ok by blast
qed

lemma rrf_fuse_ok:
  assumes "0 \<le> sc_rrf_k cfg"
  shows "\<exists>f. rrf_fuse cfg vh bh = Inr f \<and> dict_ok f \<and>
     (\<forall>i. dict_get_or 0 f i = rrf_share (sc_vector_weight cfg) (sc_rrf_k cfg) vh i +
                             rrf_share (sc_bm25_weight cfg) (sc_rrf_k cfg) bh i) \<and>
     set (dict_keys f) = fst ` set vh \<union> fst ` set bh"
proof -
  obtain g where g: "rrf_accumulate (sc_vector_weight cfg) (sc_rrf_k cfg) 1 vh [] = Inr g" "dict_ok g"
    "\<forall>i. dict_get_or 0 g i = rrf_share (sc_vector_weight cfg) (sc_rrf_k cfg) vh i"
    "set (dict_keys g) = fst ` set vh"
    using rrf_channel [OF assms, of "[]" "sc_vector_weight cfg" vh]
    by (auto simp: dict_get_or_def dict_keys_def)
  then show ?thesis
    using rrf_channel [OF assms g(2), of "sc_bm25_weight cfg" bh] by (auto simp: rrf_fuse_def)
qed

section \<open>Facts about the parents\<close>

definition valid_hit :: "chunk list \<Rightarrow> int \<times> real \<Rightarrow> bool" where
  "valid_hit cs h \<longleftrightarrow> 0 \<le> fst h \<and> fst h < int (length cs)"

definition hit_key :: "chunk list \<Rightarrow> int \<times> real \<Rightarrow> pystr" where
  "hit_key cs h = parent_key (cs ! nat (fst h))"

lemma valid_hit_mem: "valid_hit cs h \<Longrightarrow> cs ! nat (fst h) \<in> set cs"
  by (rule nth_mem) (auto simp: valid_hit_def)

text \<open>What the dictionary of parents holds after the hits \<open>H\<close>: for every key the best hit's result.\<close>

definition parents_inv :: "chunk list \<Rightarrow> (int \<times> real) set \<Rightarrow> (pystr, search_result) dict \<Rightarrow> bool" where
  "parents_inv cs H d \<longleftrightarrow> dict_ok d \<and>
     (\<forall>h\<in>H. valid_hit cs h \<longrightarrow>
        (\<exists>r. dict_get d (hit_key cs h) = Some r \<and> py_round 4 (snd h) \<le> sr_score r)) \<and>
     (\<forall>k r. dict_get d k = Some r \<longrightarrow>
        (\<exists>h\<in>H. valid_hit cs h \<and> hit_key cs h = k \<and> r = result_of_chunk (cs ! nat (fst h)) (snd h)))"

lemma result_score [simp]: "sr_score (result_of_chunk ch s) = py_round 4 s"
  by (simp add: result_of_chunk_def)

lemma parent_hit_step_inv:
  assumes "parents_inv cs H d"
  shows "parents_inv cs (insert h H) (parent_hit_step cs h d)"
proof (cases "valid_hit cs h")
  case False
  then have "parent_hit_step cs h d = d" by (auto simp: parent_hit_step_def valid_hit_def)
  then show ?thesis using assms False by (auto simp: parents_inv_def)
next
  case True
  let ?r = "result_of_chunk (cs ! nat (fst h)) (snd h)"
  have step: "parent_hit_step cs h d =
     (case dict_get d (hit_key cs h) of None \<Rightarrow> dict_put (hit_key cs h) ?r d
      | Some e \<Rightarrow> if sr_score ?r > sr_score e then dict_put (hit_key cs h) ?r d else d)"
    using True unfolding parent_hit_step_def valid_hit_def hit_key_def Let_def
    by (simp cong: option.case_cong)
  have ok: "dict_ok (parent_hit_step cs h d)"
    using assms by (auto simp: step parents_inv_def alist_dict.ok_put split: option.splits)
  show ?thesis
    unfolding parents_inv_def
  proof (intro conjI ok ballI allI impI)
    fix h' assume h': "h' \<in> insert h H" "valid_hit cs h'"
    show "\<exists>r. dict_get (parent_hit_step cs h d) (hit_key cs h') = Some r \<and> py_round 4 (snd h') \<le> sr_score r"
    proof (cases "h' = h")
      case True
      then show ?thesis by (auto simp: step update_conv split: option.splits)
    next
      case False
      with h' assms obtain r where r: "dict_get d (hit_key cs h') = Some r" "py_round 4 (snd h') \<le> sr_score r"
        by (auto simp: parents_inv_def)
      then show ?thesis
        by (cases "hit_key cs h' = hit_key cs h") (auto simp: step update_conv split: option.splits)
    qed
  next
    fix k r assume "dict_get (parent_hit_step cs h d) k = Some r"
    then have "dict_get d k = Some r \<or> k = hit_key cs h \<and> r = ?r"
      by (auto simp: step update_conv split: option.splits if_splits)
    then show "\<exists>h'\<in>insert h H. valid_hit cs h' \<and> hit_key cs h' = k \<and>
        r = result_of_chunk (cs ! nat (fst h')) (snd h')"
      using assms True by (auto simp: parents_inv_def)
  qed
qed

lemma parent_fold_inv:
  "parents_inv cs H d \<Longrightarrow> parents_inv cs (H \<union> set hits) (fold (parent_hit_step cs) hits d)"
proof (induction hits arbitrary: H d)
  case (Cons h hits)
  from Cons.IH [OF parent_hit_step_inv [OF Cons.prems, of h]] show ?case by simp
qed simp

lemma parent_results_inv:
  "\<exists>d. parents_inv cs (set fused) d \<and> parent_results cs fused = sort_desc sr_score (dict_values d)"
proof -
  have "parents_inv cs {} []" by (simp add: parents_inv_def)
  from parent_fold_inv [OF this, of "sort_desc snd fused"] show ?thesis
    unfolding parent_results_def by auto
qed

lemma dict_values_iff: "dict_ok d \<Longrightarrow> r \<in> set (dict_values d) \<longleftrightarrow> (\<exists>k. dict_get d k = Some r)"
  by (force simp: dict_values_def dict_get_Some_in)

lemma parent_results_ok:
  "(\<forall>h\<in>set fused. valid_hit cs h \<longrightarrow>
      (\<exists>r\<in>set (parent_results cs fused). py_round 4 (snd h) \<le> sr_score r \<and>
         (\<exists>h'\<in>set fused. valid_hit cs h' \<and> hit_key cs h' = hit_key cs h \<and>
            r = result_of_chunk (cs ! nat (fst h')) (snd h')))) \<and>
   (\<forall>r\<in>set (parent_results cs fused).
      \<exists>h\<in>set fused. valid_hit cs h \<and> r = result_of_chunk (cs ! nat (fst h)) (snd h)) \<and>
   length (parent_results cs fused) = card (hit_key cs ` {h \<in> set fused. valid_hit cs h})"
proof -
  obtain d where inv: "parents_inv cs (set fused) d"
    and eq: "parent_results cs fused = sort_desc sr_score (dict_values d)"
    using parent_results_inv by blast
  have ok: "dict_ok d" using inv by (simp add: parents_inv_def)
  have mem: "r \<in> set (parent_results cs fused) \<longleftrightarrow> (\<exists>k. dict_get d k = Some r)" for r
    by (simp add: eq dict_values_iff [OF ok])
  have keys: "set (dict_keys d) = hit_key cs ` {h \<in> set fused. valid_hit cs h}"
  proof (intro equalityI subsetI)
    fix k assume "k \<in> set (dict_keys d)"
    then obtain r where "dict_get d k = Some r" unfolding alist_dict.keys_get [OF ok] by auto
    then show "k \<in> hit_key cs ` {h \<in> set fused. valid_hit cs h}"
      using inv unfolding parents_inv_def by blast
  next
    fix k assume "k \<in> hit_key cs ` {h \<in> set fused. valid_hit cs h}"
    then show "k \<in> set (dict_keys d)"
      using inv unfolding alist_dict.keys_get [OF ok] parents_inv_def by auto
  qed
  have len: "length (parent_results cs fused) = card (set (dict_keys d))"
    using ok distinct_card by (fastforce simp: eq dict_values_def dict_keys_def dict_ok_def)
  have best: "\<exists>r\<in>set (parent_results cs fused). py_round 4 (snd h) \<le> sr_score r \<and>
         (\<exists>h'\<in>set fused. valid_hit cs h' \<and> hit_key cs h' = hit_key cs h \<and>
            r = result_of_chunk (cs ! nat (fst h')) (snd h'))"
    if h: "h \<in> set fused" "valid_hit cs h" for h
  proof -
    obtain r where r: "dict_get d (hit_key cs h) = Some r" "py_round 4 (snd h) \<le> sr_score r"
      using inv h unfolding parents_inv_def by blast
    with inv obtain h' where "h' \<in> set fused" "valid_hit cs h'" "hit_key cs h' = hit_key cs h"
      "r = result_of_chunk (cs ! nat (fst h')) (snd h')" unfolding parents_inv_def by blast
    with r show ?thesis using mem by blast
  qed
  have drawn: "\<forall>r\<in>set (parent_results cs fused).
      \<exists>h\<in>set fused. valid_hit cs h \<and> r = result_of_chunk (cs ! nat (fst h)) (snd h)"
  proof
    fix r assume "r \<in> set (parent_results cs fused)"
    then obtain k where "dict_get d k = Some r" using mem by blast
    then show "\<exists>h\<in>set fused. valid_hit cs h \<and> r = result_of_chunk (cs ! nat (fst h)) (snd h)"
      using inv unfolding parents_inv_def by blast
  qed
  show ?thesis using len [unfolded keys] drawn best by (intro conjI ballI impI) simp_all
qed

section \<open>Facts about the merge\<close>

lemma merge_loop_ok:
  assumes "distinct (map merge_key merged)" "seen = merge_key ` set merged" "int (length merged) < max top_k 1"
  shows "\<exists>rest. merge_loop top_k seen merged rs = merged @ rest \<and> subseq rest rs \<and>
     distinct (map merge_key (merged @ rest)) \<and> int (length (merged @ rest)) \<le> max top_k 1 \<and>
     (int (length (merged @ rest)) < top_k \<longrightarrow> merge_key ` set rs \<subseteq> merge_key ` set (merged @ rest))"
  using assms
proof (induction top_k seen merged rs rule: merge_loop.induct)
  case (2 top_k seen merged r rs)
  show ?case
  proof (cases "merge_key r \<in> seen")
    case True
    then show ?thesis using "2.IH"(1) [OF True "2.prems"] "2.prems"(2) by force
  next
    case fresh: False
    then have d: "distinct (map merge_key (merged @ [r]))" using "2.prems" by auto
    show ?thesis
    proof (cases "int (length (merged @ [r])) \<ge> top_k")
      case True
      then show ?thesis using fresh d "2.prems"(3) by (intro exI [of _ "[r]"]) auto
    next
      case False
      then obtain rest where "merge_loop top_k (insert (merge_key r) seen) (merged @ [r]) rs = (merged @ [r]) @ rest"
        "subseq rest rs" "distinct (map merge_key ((merged @ [r]) @ rest))"
        "int (length ((merged @ [r]) @ rest)) \<le> max top_k 1"
        "int (length ((merged @ [r]) @ rest)) < top_k \<longrightarrow>
           merge_key ` set rs \<subseteq> merge_key ` set ((merged @ [r]) @ rest)"
        using "2.IH"(2) [OF fresh False d] "2.prems" by (auto simp: less_max_iff_disj)
      then show ?thesis using fresh False by (intro exI [of _ "r # rest"]) auto
    qed
  qed
qed auto

lemma merge_search_results_ok:
  fixes p s top_k
  defines "m \<equiv> merge_search_results p s top_k"
  shows "subseq m (p @ s) \<and> distinct (map merge_key m) \<and> int (length m) \<le> max top_k 1 \<and>
     (int (length m) < top_k \<longrightarrow> merge_key ` set m = merge_key ` set (p @ s))"
proof -
  obtain rest where rest: "m = rest" "subseq rest (p @ s)" "distinct (map merge_key rest)"
    "int (length rest) \<le> max top_k 1"
    "int (length rest) < top_k \<longrightarrow> merge_key ` set (p @ s) \<subseteq> merge_key ` set rest"
    using merge_loop_ok [of "[]" "{}" top_k "p @ s"] by (auto simp: m_def merge_search_results_def)
  moreover have "set rest \<subseteq> set (p @ s)" using rest(2) by (rule subseq_set)
  ultimately show ?thesis by (metis image_mono subset_antisym)
qed

lemma merge_search_results_set: "set (merge_search_results p s k) \<subseteq> set p \<union> set s"
  using merge_search_results_ok [of p s k] subseq_set [of _ "p @ s"] by fastforce

section \<open>Facts about the reranker\<close>

text \<open>A reranked result is a candidate with another score; its retrieval score is kept.\<close>

definition rescored_of :: "search_result \<Rightarrow> search_result \<Rightarrow> bool" where
  "rescored_of c r \<longleftrightarrow> sr_content r = sr_content c \<and> sr_source r = sr_source c \<and> sr_page r = sr_page c \<and>
     (r = c \<or> sr_retrieval_score r =
        Some (case sr_retrieval_score c of None \<Rightarrow> sr_score c | Some x \<Rightarrow> x))"

lemma rescored_ok: "rescored c j = Inr r \<Longrightarrow> rescored_of c r"
  by (auto simp: rescored_def rescored_of_def rbind_Inr_iff)

lemma rank_items_ok:
  "rank_items results items = Inr ranked \<Longrightarrow> \<forall>r\<in>set ranked. \<exists>c\<in>set results. rescored_of c r"
proof (induction items arbitrary: ranked)
  case (Cons item items)
  from Cons.prems obtain index where index: "item_index item = Inr index"
    and rest: "(case index of None \<Rightarrow> rank_items results items
       | Some i \<Rightarrow> if i < 0 \<or> i \<ge> int (length results) then rank_items results items
           else rbind (item_score item) (\<lambda>score. rbind (rescored (results ! nat i) score)
             (\<lambda>r. rbind (rank_items results items) (\<lambda>ranked. Inr (r # ranked))))) = Inr ranked"
    unfolding rank_items.simps rbind_Inr_iff by blast
  show ?case
  proof (cases "\<exists>i. index = Some i \<and> 0 \<le> i \<and> i < int (length results)")
    case False
    then have "rank_items results items = Inr ranked"
      using rest by (auto split: option.splits if_splits)
    then show ?thesis
      by (rule Cons.IH)
  next
    case True
    then obtain i where i: "index = Some i" "0 \<le> i" "i < int (length results)" by blast
    then obtain score r rs where rs: "item_score item = Inr score"
      "rescored (results ! nat i) score = Inr r" "rank_items results items = Inr rs" "ranked = r # rs"
      using rest by (auto simp: rbind_Inr_iff)
    have "\<forall>r\<in>set rs. \<exists>c\<in>set results. rescored_of c r"
      using Cons.IH [OF rs(3)] .
    moreover have "results ! nat i \<in> set results" using i by simp
    ultimately show ?thesis using rescored_ok [OF rs(2)] rs(4) by auto
  qed
qed simp

lemma rescored_of_refl [simp]: "rescored_of c c"
  by (simp add: rescored_of_def)

lemma rerank_api_ok:
  assumes "rerank_api post em q results k rr = (rr', Inr ranked)"
  shows "(\<forall>r\<in>set ranked. \<exists>c\<in>set results. rescored_of c r) \<and> (0 \<le> k \<longrightarrow> int (length ranked) \<le> k)"
proof -
  from assms obtain resp payload items xs where run: "rank_items results items = Inr xs"
    "ranked = (if xs = [] then py_take k results else py_take k xs)"
    by (auto simp: rerank_api_def Let_def rbind_Inr_iff
        split: prod.splits sum.splits option.splits if_split_asm)
  have "\<forall>r\<in>set xs. \<exists>c\<in>set results. rescored_of c r" by (rule rank_items_ok [OF run(1)])
  moreover have "set ranked \<subseteq> set results \<union> set xs" using run(2) py_take_set [of k results] py_take_set [of k xs] by (cases "xs = []") auto
  moreover have "0 \<le> k \<Longrightarrow> int (length ranked) \<le> k"
    using run(2) py_take_length [of k results] py_take_length [of k xs] by (auto split: if_splits)
  ultimately show ?thesis using rescored_of_refl by blast
qed

lemma rerank_ok:
  fixes post em q results k rr
  defines "final \<equiv> snd (rerank post em q results k rr)"
  shows "(\<forall>r\<in>set final. \<exists>c\<in>set results. rescored_of c r) \<and> (0 \<le> k \<longrightarrow> int (length final) \<le> k)"
proof -
  have take: "(\<forall>r\<in>set (py_take k results). \<exists>c\<in>set results. rescored_of c r) \<and>
      (0 \<le> k \<longrightarrow> int (length (py_take k results)) \<le> k)"
    using py_take_set [of k results] py_take_length [of k results] rescored_of_refl by fastforce
  show ?thesis
  proof (cases "\<not> rr_enabled rr \<or> results = []")
    case True
    then show ?thesis using take by (simp add: final_def rerank_def)
  next
    case False
    obtain rr' res where "rerank_api post em q results k rr = (rr', res)" by fastforce
    then show ?thesis using take rerank_api_ok False by (cases res) (auto simp: final_def rerank_def)
  qed
qed

section \<open>Facts about the search\<close>

text \<open>A result quotes a chunk: its parent's text, its source and page.\<close>

definition quotes :: "chunk \<Rightarrow> search_result \<Rightarrow> bool" where
  "quotes ch r \<longleftrightarrow> sr_content r = parent_text ch \<and> sr_source r = c_source ch \<and> sr_page r = c_page ch"

lemma quotes_result [simp]: "quotes ch (result_of_chunk ch s)"
  by (simp add: quotes_def result_of_chunk_def)

lemma overview_results_quote: "r \<in> set (overview_results cs k) \<Longrightarrow> \<exists>ch\<in>set cs. quotes ch r"
proof -
  have ok: "dict_ok (first_of_parents cs)"
    unfolding first_of_parents_def by (rule dict_fold_new(2)) simp
  have get: "dict_get (first_of_parents cs) k = find (\<lambda>x. parent_key x = k) cs" for k
    unfolding first_of_parents_def by (subst dict_fold_new(1)) (simp_all add: option.map_ident)
  assume "r \<in> set (overview_results cs k)"
  then obtain ch where "r = result_of_chunk ch (overview_score ch)"
    "ch \<in> set (sort_desc overview_score (dict_values (first_of_parents cs)))"
    using py_take_set by (fastforce simp: overview_results_def)
  then have "\<exists>k. find (\<lambda>x. parent_key x = k) cs = Some ch" using get dict_values_iff [OF ok] by simp
  then have "ch \<in> set cs" by (metis find_Some_iff nth_mem)
  then show ?thesis using \<open>r = _\<close> quotes_result by blast
qed

lemma parent_results_quote: "r \<in> set (parent_results cs fused) \<Longrightarrow> \<exists>ch\<in>set cs. quotes ch r"
proof -
  assume "r \<in> set (parent_results cs fused)"
  then obtain h where h: "valid_hit cs h" "r = result_of_chunk (cs ! nat (fst h)) (snd h)"
    using parent_results_ok [of fused cs] by blast
  then show ?thesis using valid_hit_mem quotes_result by blast
qed

text \<open>The results handed to the reranker.\<close>

definition merged_results :: "search_config \<Rightarrow> chunk list \<Rightarrow> pystr \<Rightarrow> int \<Rightarrow> (int, real) dict \<Rightarrow> search_result list" where
  "merged_results cfg cs query top_k fused = merge_search_results
     (if sc_overview_boost cfg \<and> is_document_overview_query query then overview_results cs top_k else [])
     (parent_results cs fused) top_k"

lemma merged_results_quote: "r \<in> set (merged_results cfg cs q k fused) \<Longrightarrow> \<exists>ch\<in>set cs. quotes ch r"
  using merge_search_results_set [of _ "parent_results cs fused" k] overview_results_quote parent_results_quote
  by (fastforce simp: merged_results_def split: if_splits)

lemma kb_search_cases:
  assumes "cs \<noteq> []" "ntotal \<noteq> 0"
  shows "kb_search cfg vsearch post em cs ntotal bm q k ms rr =
     (case search_hits cfg vsearch cs bm q k ms of
        Inl e \<Rightarrow> (rr, Inl e)
      | Inr fused \<Rightarrow> (let (rr', final) = rerank post em q (merged_results cfg cs q k fused) k rr in (rr', Inr final)))"
  using assms by (simp add: kb_search_def merged_results_def Let_def split: sum.splits)

lemma search_hits_raise:
  assumes "0 \<le> sc_rrf_k cfg" "search_hits cfg vsearch cs bm q k ms = Inl e"
  shows "\<exists>n. vsearch q n = Inl e"
proof (rule ccontr)
  assume "\<not> ?thesis"
  with assms(2) obtain raw bh where "rrf_fuse cfg (vector_hits_of ms raw) bh = Inl e"
    by (auto simp: search_hits_def Let_def rbind_def split: sum.splits)
  then show False using rrf_fuse_ok [OF assms(1), of "vector_hits_of ms raw" bh] by auto
qed

lemma kb_search_quotes:
  assumes "1 \<le> k" "snd (kb_search cfg vsearch post em cs ntotal bm q k ms rr) = Inr rs"
  shows "int (length rs) \<le> k \<and> (\<forall>r\<in>set rs. \<exists>ch\<in>set cs. quotes ch r)"
proof (cases "cs = [] \<or> ntotal = 0")
  case True
  then show ?thesis using assms by (auto simp: kb_search_def)
next
  case False
  then have ne: "cs \<noteq> []" "ntotal \<noteq> 0" by auto
  with assms(2) obtain fused where hits: "search_hits cfg vsearch cs bm q k ms = Inr fused"
    by (auto simp: kb_search_cases [OF ne] split: sum.splits)
  let ?final = "snd (rerank post em q (merged_results cfg cs q k fused) k rr)"
  have rs: "rs = ?final" using assms(2) hits by (simp add: kb_search_cases [OF ne] split_def Let_def)
  have final: "(\<forall>r\<in>set ?final. \<exists>c\<in>set (merged_results cfg cs q k fused). rescored_of c r) \<and>
      int (length ?final) \<le> k"
    using rerank_ok [of post em q "merged_results cfg cs q k fused" k rr] assms(1) by simp
  have "\<exists>ch\<in>set cs. quotes ch r" if r: "r \<in> set ?final" for r
  proof -
    obtain c where c: "c \<in> set (merged_results cfg cs q k fused)" "rescored_of c r"
      using final r by blast
    then obtain ch where "ch \<in> set cs" "quotes ch c" using merged_results_quote by blast
    with c(2) show ?thesis by (auto simp: quotes_def rescored_of_def)
  qed
  then show ?thesis using final rs by simp
qed

lemma kb_search_ok:
  assumes "0 \<le> sc_rrf_k cfg" "1 \<le> k"
  shows "case snd (kb_search cfg vsearch post em cs ntotal bm q k ms rr) of
       Inl e \<Rightarrow> \<exists>n. vsearch q n = Inl e
     | Inr rs \<Rightarrow> int (length rs) \<le> k \<and> (\<forall>r\<in>set rs. \<exists>ch\<in>set cs. quotes ch r)"
proof (cases "cs = [] \<or> ntotal = 0")
  case True
  then show ?thesis using assms by (simp add: kb_search_def)
next
  case False
  then have ne: "cs \<noteq> []" "ntotal \<noteq> 0" by auto
  show ?thesis
  proof (cases "snd (kb_search cfg vsearch post em cs ntotal bm q k ms rr)")
    case (Inl e)
    then have "search_hits cfg vsearch cs bm q k ms = Inl e"
      by (auto simp: kb_search_cases [OF ne] split_def Let_def split: sum.splits)
    then show ?thesis using search_hits_raise [OF assms(1)] Inl by simp
  next
    case (Inr rs)
    then show ?thesis using kb_search_quotes [OF assms(2) Inr] by simp
  qed
qed

section \<open>Recall of keyword matches\<close>

text \<open>The chunks of one parent agree on what a result quotes, as the ingestion makes them.\<close>

definition family_ok :: "chunk list \<Rightarrow> bool" where
  "family_ok cs \<longleftrightarrow> (\<forall>c\<in>set cs. \<forall>d\<in>set cs. parent_key c = parent_key d \<longrightarrow>
     parent_text c = parent_text d \<and> c_source c = c_source d \<and> c_page c = c_page d)"

definition shares_token :: "pystr \<Rightarrow> chunk \<Rightarrow> bool" where
  "shares_token q ch \<longleftrightarrow> (\<exists>t\<in>set (bm25_tokenize q). t \<in> set (bm25_tokenize (c_content ch)))"

definition chunk_key :: "chunk \<Rightarrow> pystr \<times> int \<times> pystr" where
  "chunk_key ch = (c_source ch, c_page ch, take 160 (parent_text ch))"

lemma quotes_key: "quotes ch r \<Longrightarrow> merge_key r = chunk_key ch"
  by (simp add: quotes_def merge_key_def chunk_key_def)

lemma merged_results_short: "length (merged_results cfg cs q k fused) \<le> length cs"
proof -
  let ?m = "merged_results cfg cs q k fused"
  have "distinct (map merge_key ?m)" unfolding merged_results_def using merge_search_results_ok by blast
  then have "length ?m = card (merge_key ` set ?m)" using distinct_card by fastforce
  also have "merge_key ` set ?m \<subseteq> chunk_key ` set cs"
  proof
    fix y assume "y \<in> merge_key ` set ?m"
    then obtain r where "r \<in> set ?m" "y = merge_key r" by blast
    then show "y \<in> chunk_key ` set cs" using merged_results_quote quotes_key by blast
  qed
  then have "card (merge_key ` set ?m) \<le> card (chunk_key ` set cs)" by (intro card_mono) auto
  also have "\<dots> \<le> length cs" by (meson card_image_le card_length finite_set le_trans)
  finally show ?thesis .
qed

lemma parent_results_cover:
  assumes "family_ok cs" "h \<in> set fused" "valid_hit cs h"
  shows "\<exists>r\<in>set (parent_results cs fused). merge_key r = chunk_key (cs ! nat (fst h))"
proof -
  obtain r h' where r: "r \<in> set (parent_results cs fused)" "valid_hit cs h'" "hit_key cs h' = hit_key cs h"
    "r = result_of_chunk (cs ! nat (fst h')) (snd h')"
    using parent_results_ok [of fused cs] assms(2,3) by blast
  have "cs ! nat (fst h) \<in> set cs" "cs ! nat (fst h') \<in> set cs"
    using assms(3) r(2) valid_hit_mem by blast+
  then have "chunk_key (cs ! nat (fst h')) = chunk_key (cs ! nat (fst h))"
    using assms(1) r(3) unfolding family_ok_def hit_key_def chunk_key_def by metis
  moreover have "merge_key r = chunk_key (cs ! nat (fst h'))" unfolding r(4) by (rule quotes_key) simp
  ultimately show ?thesis using r(1) by auto
qed

lemma search_hits_keyword:
  assumes k: "0 \<le> sc_rrf_k cfg" "sc_candidate_k cfg = None" "sc_bm25_candidate_k cfg = None"
    and bm: "bm25_params idx0" "bm_enabled idx0" "bm = bm25_rebuild idx0 cs"
    and v: "\<And>n. \<exists>raw. vsearch q n = Inr raw"
    and n: "cs \<noteq> []" "int (length cs) \<le> top_k"
  shows "\<exists>fused. search_hits cfg vsearch cs bm q top_k ms = Inr fused \<and>
     (\<forall>i < length cs. shares_token q (cs ! i) \<longrightarrow> (\<exists>s. (int i, s) \<in> set fused))"
proof -
  have ck: "min (max (top_k * 8) top_k) (int (length cs)) = int (length cs)" using n by auto
  obtain raw where raw: "vsearch q (int (length cs)) = Inr raw" using v by blast
  define bh where "bh = map (\<lambda>h. (int (fst h), snd h)) (bm25_search bm q (int (length cs)))"
  obtain fused where f: "rrf_fuse cfg (vector_hits_of ms raw) bh = Inr fused" "dict_ok fused"
    "set (dict_keys fused) = fst ` set (vector_hits_of ms raw) \<union> fst ` set bh"
    using rrf_fuse_ok [OF k(1)] by blast
  have "search_hits cfg vsearch cs bm q top_k ms = Inr fused"
    using f(1) raw ck k by (simp add: search_hits_def Let_def bh_def)
  moreover have "\<exists>s. (int i, s) \<in> set fused" if i: "i < length cs" "shares_token q (cs ! i)" for i
  proof -
    have "i \<in> fst ` set (bm25_search bm q (int (length cs)))"
      using i n(1) bm25_search_complete [of idx0 cs "int (length cs)" q] bm
      by (auto simp: shares_token_def bm25_params_rebuild bm25_rebuild_simps)
    then have "int i \<in> set (dict_keys fused)" unfolding f(3) bh_def by force
    then show ?thesis by (auto simp: dict_keys_def)
  qed
  ultimately show ?thesis by blast
qed

text \<open>With room for every chunk a fused hit is never lost.\<close>

lemma kb_search_recall_hit:
  assumes f: "search_hits cfg vsearch cs bm q top_k ms = Inr fused"
    and n: "ntotal \<noteq> 0" "int (length cs) < top_k" and off: "\<not> rr_enabled rr"
    and fam: "family_ok cs" and hit: "(int i, s) \<in> set fused" "i < length cs"
  shows "\<exists>rs. kb_search cfg vsearch post em cs ntotal bm q top_k ms rr = (rr, Inr rs) \<and>
     (\<exists>r\<in>set rs. merge_key r = chunk_key (cs ! i))"
proof -
  have ne: "cs \<noteq> []" using hit(2) by auto
  let ?m = "merged_results cfg cs q top_k fused"
  have short: "int (length ?m) < top_k" using merged_results_short [of cfg cs q top_k fused] n(2) by linarith
  have run: "kb_search cfg vsearch post em cs ntotal bm q top_k ms rr = (rr, Inr ?m)"
    using f off short by (simp add: kb_search_cases [OF ne n(1)] rerank_def py_take_all)
  obtain r where "r \<in> set (parent_results cs fused)" "merge_key r = chunk_key (cs ! i)"
    using parent_results_cover [OF fam hit(1)] hit(2) by (auto simp: valid_hit_def)
  moreover have "merge_key ` set (parent_results cs fused) \<subseteq> merge_key ` set ?m"
  proof -
    define p where "p = (if sc_overview_boost cfg \<and> is_document_overview_query q then overview_results cs top_k else [])"
    have m: "?m = merge_search_results p (parent_results cs fused) top_k" by (simp only: merged_results_def p_def)
    then have "merge_key ` set ?m = merge_key ` set (p @ parent_results cs fused)"
      using merge_search_results_ok [of p "parent_results cs fused" top_k] short by (simp only: m simp_thms)
    then show ?thesis by auto
  qed
  ultimately have "chunk_key (cs ! i) \<in> merge_key ` set ?m" using imageI [of _ "set (parent_results cs fused)" merge_key] by (metis subsetD)
  then have "\<exists>r\<in>set ?m. merge_key r = chunk_key (cs ! i)" by auto
  then show ?thesis using run by blast
qed

lemma kb_search_recall:
  assumes k: "0 \<le> sc_rrf_k cfg" "sc_candidate_k cfg = None" "sc_bm25_candidate_k cfg = None"
    and bm: "bm25_params idx0" "bm_enabled idx0" "bm = bm25_rebuild idx0 cs"
    and v: "\<And>n. \<exists>raw. vsearch q n = Inr raw"
    and n: "ntotal \<noteq> 0" "int (length cs) < top_k" and off: "\<not> rr_enabled rr"
    and fam: "family_ok cs" and ch: "ch \<in> set cs" "shares_token q ch"
  shows "\<exists>rs. kb_search cfg vsearch post em cs ntotal bm q top_k ms rr = (rr, Inr rs) \<and>
     (\<exists>r\<in>set rs. merge_key r = chunk_key ch)"
proof -
  have ne: "cs \<noteq> []" using ch by auto
  obtain fused where f: "search_hits cfg vsearch cs bm q top_k ms = Inr fused"
    "\<forall>i < length cs. shares_token q (cs ! i) \<longrightarrow> (\<exists>s. (int i, s) \<in> set fused)"
    using search_hits_keyword [OF k bm _ ne, of vsearch q top_k ms] v n(2) by auto
  obtain i where i: "i < length cs" "cs ! i = ch" using ch(1) by (auto simp: in_set_conv_nth)
  then obtain s where "(int i, s) \<in> set fused" using f(2) ch(2) by blast
  from kb_search_recall_hit [OF f(1) n off fam this i(1)] show ?thesis by (simp add: i(2))
qed

section \<open>Properties\<close>

text \<open>Keyword recall of the whole search. With the reranker off, default candidate counts,
  chunks whose siblings agree on their parent, a BM25 index in step with the chunks and an index
  that answers, a query with room for all chunks returns, for every chunk that shares a token with
  it, a result with that chunk's source, page and the first 160 characters of its parent.\<close>

theorem kb_search_keyword_recall:
  assumes "0 \<le> sc_rrf_k cfg" "sc_candidate_k cfg = None" "sc_bm25_candidate_k cfg = None"
    and "bm25_params idx0" "bm_enabled idx0" "bm = bm25_rebuild idx0 cs"
    and "\<And>n. \<exists>raw. vsearch q n = Inr raw"
    and "ntotal \<noteq> 0" "int (length cs) < top_k" "\<not> rr_enabled rr"
    and "family_ok cs" "ch \<in> set cs" "shares_token q ch"
  shows "\<exists>rs. kb_search cfg vsearch post em cs ntotal bm q top_k ms rr = (rr, Inr rs) \<and>
     (\<exists>r\<in>set rs. sr_source r = c_source ch \<and> sr_page r = c_page ch \<and>
        take 160 (sr_content r) = take 160 (parent_text ch))"
  using kb_search_recall [OF assms(1-6) _ assms(8-13), where vsearch = vsearch and post = post and em = em and ms = ms]
    assms(7)
  by (auto simp: merge_key_def chunk_key_def)

theorem kb_search_keyword_recall_witness:
  "\<exists>rs. kb_search default_config (\<lambda>q n. Inr []) (\<lambda>n ep m q ds k. Inl (OtherError [])) None
       [sample_chunk (asc ''RAG index'')] 1 (bm25_rebuild (bm25_init True (3/2) (3/4)) [sample_chunk (asc ''RAG index'')])
       (asc ''index?'') 5 (8/100) (reranker_init False [] []) = (reranker_init False [] [], Inr rs) \<and>
     (\<exists>r\<in>set rs. take 160 (sr_content r) = (asc ''RAG index''))"
proof -
  have share: "shares_token (asc ''index?'') (sample_chunk (asc ''RAG index''))" unfolding shares_token_def by code_simp
  show ?thesis
    using kb_search_keyword_recall [where cfg = default_config and ?idx0.0 = "bm25_init True (3/2) (3/4)" and
        bm = "bm25_rebuild (bm25_init True (3/2) (3/4)) [sample_chunk (asc ''RAG index'')]" and
        cs = "[sample_chunk (asc ''RAG index'')]" and vsearch = "\<lambda>q n. Inr []" and q = "(asc ''index?'')" and ntotal = 1 and
        top_k = 5 and rr = "reranker_init False [] []" and ch = "sample_chunk (asc ''RAG index'')" and
        post = "\<lambda>n ep m q ds k. Inl (OtherError [])" and em = None and ms = "8/100", OF _ _ _ _ _ _ _ _ _ _ _ _ share]
    by (force simp: default_config_def bm25_params_def bm25_init_def reranker_init_def family_ok_def
        parent_text_def str_or_def sample_chunk_def)
qed

text \<open>For \<open>top_k \<ge> 1\<close> a search returns at most \<open>top_k\<close> results, each quoting an indexed chunk
  (its parent's text, source and page), whatever the vector index and the rerank service answer; it
  raises only when the embedding or the vector index raises, never because of the reranker.\<close>

theorem kb_search_sound:
  assumes "0 \<le> sc_rrf_k cfg" "1 \<le> top_k"
  shows "case snd (kb_search cfg vsearch post em cs ntotal bm q top_k ms rr) of
       Inl e \<Rightarrow> \<exists>n. vsearch q n = Inl e
     | Inr rs \<Rightarrow> int (length rs) \<le> top_k \<and>
         (\<forall>r\<in>set rs. \<exists>ch\<in>set cs. sr_content r = parent_text ch \<and> sr_source r = c_source ch \<and>
            sr_page r = c_page ch)"
  using kb_search_ok [OF assms, where vsearch = vsearch and post = post and em = em and cs = cs and
      ntotal = ntotal and bm = bm and q = q and ms = ms and rr = rr]
  by (simp add: quotes_def split: sum.splits)

theorem kb_search_sound_witness:
  "case snd (kb_search default_config (\<lambda>q n. Inr [(Finite (9/10), 0)]) (\<lambda>n ep m q ds k. Inl (OtherError []))
       None [sample_chunk (asc ''RAG index'')] 1 (bm25_init False (3/2) (3/4)) (asc ''what'') 1 (8/100)
       (reranker_init True (asc ''http://rerank'') (asc ''m''))) of
     Inl e \<Rightarrow> False
   | Inr rs \<Rightarrow> int (length rs) \<le> 1"
  using kb_search_sound [where cfg = default_config and top_k = 1 and vsearch = "\<lambda>q n. Inr [(Finite (9/10), 0)]" and
      post = "\<lambda>n ep m q ds k. Inl (OtherError [])" and em = None and cs = "[sample_chunk (asc ''RAG index'')]" and
      ntotal = 1 and bm = "bm25_init False (3/2) (3/4)" and q = "(asc ''what'')" and ms = "8/100" and
      rr = "reranker_init True (asc ''http://rerank'') (asc ''m'')"]
  by (auto simp: default_config_def split: sum.splits)

text \<open>With a non-negative fusion constant the fused score of every index is the sum, over the ranks
  \<open>r\<close> (from 1) at which it occurs in a channel, of that channel's weight over \<open>k + r\<close>; exactly the
  indices some channel returned are scored.\<close>

theorem rrf_fuse_scores:
  assumes "0 \<le> sc_rrf_k cfg"
  shows "\<exists>f. rrf_fuse cfg vh bh = Inr f \<and> dict_ok f \<and> set (dict_keys f) = fst ` set vh \<union> fst ` set bh \<and>
     (\<forall>i. dict_get_or 0 f i =
        (\<Sum>r\<leftarrow>filter (\<lambda>r. fst (vh ! r) = i) [0 ..< length vh].
           sc_vector_weight cfg / real_of_int (sc_rrf_k cfg + 1 + int r)) +
        (\<Sum>r\<leftarrow>filter (\<lambda>r. fst (bh ! r) = i) [0 ..< length bh].
           sc_bm25_weight cfg / real_of_int (sc_rrf_k cfg + 1 + int r)))"
  using rrf_fuse_ok [OF assms, of vh bh] by (auto simp: rrf_share_def)

theorem rrf_fuse_scores_witness:
  "\<exists>f. rrf_fuse default_config [(3, 9/10), (5, 8/10)] [(5, 7)] = Inr f \<and>
     dict_get_or 0 f 5 = 1/62 + 1/61 \<and> dict_get_or 0 f 3 = 1/61"
proof -
  obtain f where "rrf_fuse default_config [(3, 9/10), (5, 8/10)] [(5, 7)] = Inr f"
    and sums: "\<forall>i. dict_get_or 0 f i =
        (\<Sum>r\<leftarrow>filter (\<lambda>r. fst ([(3, 9/10), (5, 8/10 :: real)] ! r) = i) [0 ..< 2].
           1 / real_of_int (61 + int r)) +
        (\<Sum>r\<leftarrow>filter (\<lambda>r. fst ([(5, 7 :: real)] ! r) = i) [0 ..< 1]. 1 / real_of_int (61 + int r))"
    using rrf_fuse_scores [of default_config "[(3, 9/10), (5, 8/10)]" "[(5, 7)]"]
    by (auto simp: default_config_def numeral_2_eq_2)
  then show ?thesis using sums [rule_format, of 5] sums [rule_format, of 3] by (auto simp: upt_rec)
qed

text \<open>The parent results are ordered by score, one per parent that some valid hit belongs to;
  every result is made from one of its parent's hits and scores at least as high as each of them.\<close>

theorem parent_results_best:
  "sorted_wrt (\<lambda>a b. sr_score a \<ge> sr_score b) (parent_results cs fused) \<and>
   length (parent_results cs fused) =
     card {parent_key (cs ! nat i) | i s. (i, s) \<in> set fused \<and> 0 \<le> i \<and> i < int (length cs)} \<and>
   (\<forall>i s. (i, s) \<in> set fused \<and> 0 \<le> i \<and> i < int (length cs) \<longrightarrow>
      (\<exists>j t. (j, t) \<in> set fused \<and> 0 \<le> j \<and> j < int (length cs) \<and>
         parent_key (cs ! nat j) = parent_key (cs ! nat i) \<and> py_round 4 s \<le> py_round 4 t \<and>
         result_of_chunk (cs ! nat j) t \<in> set (parent_results cs fused)))"
proof (intro conjI allI impI)
  show "sorted_wrt (\<lambda>a b. sr_score a \<ge> sr_score b) (parent_results cs fused)"
    unfolding parent_results_def by (rule sort_desc_sorted)
  have "hit_key cs ` {h \<in> set fused. valid_hit cs h} =
      {parent_key (cs ! nat i) | i s. (i, s) \<in> set fused \<and> 0 \<le> i \<and> i < int (length cs)}"
    by (force simp: hit_key_def valid_hit_def)
  then show "length (parent_results cs fused) =
     card {parent_key (cs ! nat i) | i s. (i, s) \<in> set fused \<and> 0 \<le> i \<and> i < int (length cs)}"
    using parent_results_ok [of fused cs] by simp
next
  fix i s assume "(i, s) \<in> set fused \<and> 0 \<le> i \<and> i < int (length cs)"
  then obtain r h' where "r \<in> set (parent_results cs fused)" "py_round 4 s \<le> sr_score r"
    "h' \<in> set fused" "valid_hit cs h'" "hit_key cs h' = hit_key cs (i, s)"
    "r = result_of_chunk (cs ! nat (fst h')) (snd h')"
    using parent_results_ok [of fused cs] by (fastforce simp: valid_hit_def)
  then show "\<exists>j t. (j, t) \<in> set fused \<and> 0 \<le> j \<and> j < int (length cs) \<and>
         parent_key (cs ! nat j) = parent_key (cs ! nat i) \<and> py_round 4 s \<le> py_round 4 t \<and>
         result_of_chunk (cs ! nat j) t \<in> set (parent_results cs fused)"
    by (intro exI [of _ "fst h'"] exI [of _ "snd h'"]) (auto simp: valid_hit_def hit_key_def)
qed

theorem parent_results_best_witness:
  "result_of_chunk (sample_chunk (asc ''a'')) 1 \<in> set (parent_results [sample_chunk (asc ''a'')] [(0, 1)])"
proof -
  have "(0 :: int, 1 :: real) \<in> set [(0, 1)] \<and> 0 \<le> (0 :: int) \<and> 0 < int (length [sample_chunk (asc ''a'')])" by simp
  then obtain j t where "(j, t) \<in> set [(0 :: int, 1 :: real)]"
    "result_of_chunk ([sample_chunk (asc ''a'')] ! nat j) t \<in> set (parent_results [sample_chunk (asc ''a'')] [(0, 1)])"
    using parent_results_best [of "[sample_chunk (asc ''a'')]" "[(0, 1)]"] by blast
  then show ?thesis by simp
qed

text \<open>Merging keeps a sub-sequence of the overview results followed by the fused ones, no two
  with the same source, page and 160-character prefix, at most \<open>top_k\<close> of them (one when
  \<open>top_k\<close> is below one); while there is room left, no key is lost.\<close>

theorem merge_search_results_dedup:
  "subseq (merge_search_results p s k) (p @ s) \<and>
   distinct (map (\<lambda>r. (sr_source r, sr_page r, take 160 (sr_content r))) (merge_search_results p s k)) \<and>
   int (length (merge_search_results p s k)) \<le> max k 1 \<and>
   (int (length (merge_search_results p s k)) < k \<longrightarrow>
      merge_key ` set (merge_search_results p s k) = merge_key ` set (p @ s))"
proof -
  have "merge_key = (\<lambda>r. (sr_source r, sr_page r, take 160 (sr_content r)))"
    by (intro ext) (simp add: merge_key_def)
  then show ?thesis using merge_search_results_ok [of p s k] by metis
qed

theorem merge_search_results_dedup_witness:
  "merge_key ` set (merge_search_results [result_of_chunk (sample_chunk (asc ''a'')) 1] [result_of_chunk (sample_chunk (asc ''a'')) 2] 5)
   = {merge_key (result_of_chunk (sample_chunk (asc ''a'')) 1)}"
proof -
  let ?m = "merge_search_results [result_of_chunk (sample_chunk (asc ''a'')) 1] [result_of_chunk (sample_chunk (asc ''a'')) 2] 5"
  have "length ?m \<le> 2"
    using merge_search_results_ok [of "[result_of_chunk (sample_chunk (asc ''a'')) 1]"
        "[result_of_chunk (sample_chunk (asc ''a'')) 2]" 5] list_emb_length by fastforce
  then show ?thesis
    using merge_search_results_dedup [of "[result_of_chunk (sample_chunk (asc ''a'')) 1]"
        "[result_of_chunk (sample_chunk (asc ''a'')) 2]" 5]
    by (simp add: merge_key_def result_of_chunk_def)
qed

text \<open>Whatever the rerank service answers or raises, \<open>rerank\<close> returns candidates only, with their
  content, source and page, and at most \<open>top_k\<close> of them for \<open>top_k \<ge> 0\<close>; after a failure they are
  the first candidates unchanged and the error is recorded.\<close>

theorem rerank_from_candidates:
  "(\<forall>r\<in>set (snd (rerank post em q results k rr)). \<exists>c\<in>set results.
      sr_content r = sr_content c \<and> sr_source r = sr_source c \<and> sr_page r = sr_page c) \<and>
   (0 \<le> k \<longrightarrow> int (length (snd (rerank post em q results k rr))) \<le> k) \<and>
   (\<forall>rr' e. rr_enabled rr \<and> results \<noteq> [] \<and> rerank_api post em q results k rr = (rr', Inl e) \<longrightarrow>
      rerank post em q results k rr = (rr'\<lparr>rr_last_error := exn_str e\<rparr>, py_take k results))"
  using rerank_ok [of post em q results k rr] by (auto simp: rescored_of_def rerank_def)

theorem rerank_from_candidates_witness:
  "snd (rerank (\<lambda>n ep m q ds k. Inl (OtherError (asc ''refused''))) None (asc ''q'') [result_of_chunk (sample_chunk (asc ''a'')) 1] 3
     (reranker_init True (asc ''http://rerank'') (asc ''m''))) = [result_of_chunk (sample_chunk (asc ''a'')) 1]"
proof -
  let ?rr = "reranker_init True (asc ''http://rerank'') (asc ''m'')"
  have on: "rr_enabled ?rr" by code_simp
  obtain m ms where models: "candidate_models ?rr None = m # ms"
    by (cases "candidate_models ?rr None") (auto simp: candidate_models_def Let_def split: if_splits)
  have "rerank_api (\<lambda>n ep m q ds k. Inl (OtherError (asc ''refused''))) None (asc ''q'') [result_of_chunk (sample_chunk (asc ''a'')) 1] 3 ?rr =
      (?rr, Inl (OtherError (asc ''refused'')))"
    unfolding rerank_api_def Let_def models by simp
  then show ?thesis
    using rerank_from_candidates [of "\<lambda>n ep m q ds k. Inl (OtherError (asc ''refused''))" None "(asc ''q'')"
        "[result_of_chunk (sample_chunk (asc ''a'')) 1]" 3 ?rr] on by (simp add: py_take_def)
qed

end
