(* ===== verification/Ingestion.thy ===== *)
theory Ingestion
  imports Chunk_Merge Retrieval
begin

text \<open>
  From the pages of a PDF to chunks (\<open>KnowledgeBase._chunks_from_reader\<close>), the dictionary form of
  a chunk (\<open>asdict\<close>, \<open>_chunk_from_dict\<close>) and the names of uploaded files. \<open>uuid4\<close> is a parameter:
  \<open>uu i\<close> is the \<open>i\<close>-th identifier the process draws. \<open>None\<close> is a splitter that does not return.
\<close>

section \<open>Parent and child chunks\<close>

record kb_config =
  kc_parent_size :: int
  kc_parent_overlap :: int
  kc_child_size :: int
  kc_child_overlap :: int

definition default_kb_config :: kb_config where
  "default_kb_config = \<lparr>kc_parent_size = 2200, kc_parent_overlap = 260, kc_child_size = 520, kc_child_overlap = 90\<rparr>"

definition CHUNKING_STRATEGY :: pystr where
  "CHUNKING_STRATEGY = (asc ''parent_child_recursive'')"

text \<open>The number of identifiers drawn so far and the chunks made so far.\<close>

type_synonym gen_state = "nat \<times> chunk list"

definition make_child ::
  "(nat \<Rightarrow> pystr) \<Rightarrow> pystr \<Rightarrow> int \<Rightarrow> nat \<Rightarrow> pystr \<Rightarrow> pystr \<Rightarrow> nat \<Rightarrow> pystr \<Rightarrow> gen_state \<Rightarrow> gen_state" where
  "make_child uu source page parent_index parent_id parent_tx child_index child_tx st =
     (fst st + 1,
      snd st @ [\<lparr>c_id = uu (fst st), c_content = child_tx, c_source = source, c_page = page,
        c_chunk_index = int (length (snd st)), c_parent_id = parent_id, c_parent_content = parent_tx,
        c_parent_index = int parent_index, c_child_index = int child_index,
        c_strategy = CHUNKING_STRATEGY\<rparr>])"

fun make_children ::
  "(nat \<Rightarrow> pystr) \<Rightarrow> pystr \<Rightarrow> int \<Rightarrow> nat \<Rightarrow> pystr \<Rightarrow> pystr \<Rightarrow> nat \<Rightarrow> pystr list \<Rightarrow> gen_state \<Rightarrow> gen_state" where
  "make_children uu source page parent_index parent_id parent_tx child_index [] st = st"
| "make_children uu source page parent_index parent_id parent_tx child_index (child_tx # rest) st =
     make_children uu source page parent_index parent_id parent_tx (child_index + 1) rest
       (make_child uu source page parent_index parent_id parent_tx child_index child_tx st)"

fun parents_loop ::
  "kb_config \<Rightarrow> (nat \<Rightarrow> pystr) \<Rightarrow> pystr \<Rightarrow> int \<Rightarrow> nat \<Rightarrow> pystr list \<Rightarrow> gen_state \<Rightarrow> gen_state option" where
  "parents_loop cfg uu source page parent_index [] st = Some st"
| "parents_loop cfg uu source page parent_index (parent_tx # rest) st =
     (let parent_id = uu (fst st)
      in case split_text parent_tx (kc_child_size cfg) (kc_child_overlap cfg) of
           None \<Rightarrow> None
         | Some child_texts0 \<Rightarrow>
             let child_texts = (if child_texts0 = [] then [parent_tx] else child_texts0)
             in parents_loop cfg uu source page (parent_index + 1) rest
                  (make_children uu source page parent_index parent_id parent_tx 0 child_texts
                     (fst st + 1, snd st)))"

text \<open>A page's text is \<open>None\<close> when \<open>extract_text\<close> returns nothing.\<close>

fun pages_loop ::
  "kb_config \<Rightarrow> (nat \<Rightarrow> pystr) \<Rightarrow> pystr \<Rightarrow> int \<Rightarrow> pystr option list \<Rightarrow> gen_state \<Rightarrow> gen_state option" where
  "pages_loop cfg uu source page_number [] st = Some st"
| "pages_loop cfg uu source page_number (page # pages) st =
     (let page_tx = clean_text (case page of None \<Rightarrow> [] | Some t \<Rightarrow> t)
      in case split_text page_tx (kc_parent_size cfg) (kc_parent_overlap cfg) of
           None \<Rightarrow> None
         | Some parent_texts \<Rightarrow>
             (case parents_loop cfg uu source page_number 0 parent_texts st of
                None \<Rightarrow> None
              | Some st' \<Rightarrow> pages_loop cfg uu source (page_number + 1) pages st'))"

definition chunks_from_reader ::
  "kb_config \<Rightarrow> (nat \<Rightarrow> pystr) \<Rightarrow> pystr \<Rightarrow> pystr option list \<Rightarrow> nat \<Rightarrow> gen_state option" where
  "chunks_from_reader cfg uu source pages n = pages_loop cfg uu source 1 pages (n, [])"

section \<open>The dictionary form of a chunk\<close>

definition asdict :: "chunk \<Rightarrow> json" where
  "asdict ch = JObj
     [((asc ''id''), JStr (c_id ch)), ((asc ''content''), JStr (c_content ch)), ((asc ''source''), JStr (c_source ch)),
      ((asc ''page''), JInt (c_page ch)), ((asc ''chunk_index''), JInt (c_chunk_index ch)),
      ((asc ''parent_id''), JStr (c_parent_id ch)), ((asc ''parent_content''), JStr (c_parent_content ch)),
      ((asc ''parent_index''), JInt (c_parent_index ch)), ((asc ''child_index''), JInt (c_child_index ch)),
      ((asc ''chunking_strategy''), JStr (c_strategy ch))]"

text \<open>
  \<open>item.get(key, default)\<close> and \<open>item.get(key) or default\<close> for the text fields. The dataclass does not
  check types; a text field that holds another JSON value is outside the model (\<open>OtherError\<close>).
\<close>

definition text_get :: "json \<Rightarrow> pystr \<Rightarrow> pystr \<Rightarrow> pystr result" where
  "text_get item k d = rbind (json_get_or item k (JStr d)) (\<lambda>v.
     case v of JStr s \<Rightarrow> Inr s | _ \<Rightarrow> Inl (OtherError (asc ''text field expected'')))"

definition text_get_or :: "json \<Rightarrow> pystr \<Rightarrow> pystr \<Rightarrow> pystr result" where
  "text_get_or item k d = rbind (json_get item k) (\<lambda>v.
     if \<not> truthy v then Inr d
     else case v of JStr s \<Rightarrow> Inr s | _ \<Rightarrow> Inl (OtherError (asc ''text field expected'')))"

text \<open>\<open>int(item.get(key, default) or 0)\<close>\<close>

definition int_get :: "json \<Rightarrow> pystr \<Rightarrow> int \<Rightarrow> int result" where
  "int_get item k d = rbind (json_get_or item k (JInt d)) (\<lambda>v. py_int (json_or v (JInt 0)))"

text \<open>\<open>_chunk_from_dict\<close>; \<open>u\<close> and \<open>v\<close> are the identifiers drawn for a missing parent id and a missing id.\<close>

definition chunk_from_dict :: "pystr \<Rightarrow> pystr \<Rightarrow> json \<Rightarrow> chunk result" where
  "chunk_from_dict u v item =
     rbind (text_get item (asc ''content'') []) (\<lambda>content.
     rbind (int_get item (asc ''page'') 0) (\<lambda>page.
     rbind (int_get item (asc ''chunk_index'') 0) (\<lambda>chunk_index.
     rbind (text_get_or item (asc ''id'') []) (\<lambda>id0.
     rbind (text_get_or item (asc ''parent_id'') (str_or id0 u)) (\<lambda>parent_id.
     rbind (text_get_or item (asc ''parent_content'') content) (\<lambda>parent_content.
     rbind (text_get item (asc ''source'') []) (\<lambda>source.
     rbind (int_get item (asc ''parent_index'') chunk_index) (\<lambda>parent_index.
     rbind (int_get item (asc ''child_index'') 0) (\<lambda>child_index.
     rbind (text_get_or item (asc ''chunking_strategy'') (asc ''legacy_flat'')) (\<lambda>strategy.
       Inr \<lparr>c_id = str_or id0 v, c_content = content, c_source = source, c_page = page,
            c_chunk_index = chunk_index, c_parent_id = parent_id, c_parent_content = parent_content,
            c_parent_index = parent_index, c_child_index = child_index, c_strategy = strategy\<rparr>))))))))))"

section \<open>Names of uploaded files\<close>

definition name_char :: "int \<Rightarrow> bool" where
  "name_char c \<longleftrightarrow> (97 \<le> c \<and> c \<le> 122) \<or> (65 \<le> c \<and> c \<le> 90) \<or> (48 \<le> c \<and> c \<le> 57) \<or>
     c = 46 \<or> c = 95 \<or> c = 45 \<or> is_cjk c"

definition safe_name :: "pystr \<Rightarrow> pystr" where
  "safe_name filename = re_sub (Plus (Cls (\<lambda>c. \<not> name_char c))) (\<lambda>_. [95]) filename"

definition is_hex :: "int \<Rightarrow> bool" where
  "is_hex c \<longleftrightarrow> (48 \<le> c \<and> c \<le> 57) \<or> (97 \<le> c \<and> c \<le> 102) \<or> (65 \<le> c \<and> c \<le> 70)"

definition re_upload_prefix :: re where
  "re_upload_prefix = Cat (Rep 32 (Cls is_hex)) (Chr 95)"

definition display_source_name :: "pystr \<Rightarrow> pystr" where
  "display_source_name name = re_sub_start re_upload_prefix name"

text \<open>The file name \<open>save_upload\<close> writes, for the hexadecimal identifier it draws.\<close>

definition upload_name :: "pystr \<Rightarrow> pystr \<Rightarrow> pystr" where
  "upload_name hex filename = hex @ [95] @ safe_name filename"

section \<open>What the generated chunks satisfy\<close>

text \<open>
  The chunks made from identifier \<open>lo\<close> on: identifiers are drawn once and in range, texts are
  non-empty and bounded, children of one parent agree on it, positions are consecutive.
\<close>

definition chunk_fresh :: "(nat \<Rightarrow> pystr) \<Rightarrow> nat \<Rightarrow> nat \<Rightarrow> chunk \<Rightarrow> bool" where
  "chunk_fresh uu lo hi c \<longleftrightarrow> (\<exists>i. lo \<le> i \<and> i < hi \<and> c_id c = uu i) \<and> (\<exists>i. lo \<le> i \<and> i < hi \<and> c_parent_id c = uu i)"

definition siblings_agree :: "chunk list \<Rightarrow> bool" where
  "siblings_agree cs \<longleftrightarrow> (\<forall>c\<in>set cs. \<forall>d\<in>set cs. c_parent_id c = c_parent_id d \<longrightarrow>
     c_parent_content c = c_parent_content d \<and> c_source c = c_source d \<and> c_page c = c_page d)"

definition gen_inv :: "(nat \<Rightarrow> pystr) \<Rightarrow> pystr \<Rightarrow> int \<Rightarrow> nat \<Rightarrow> gen_state \<Rightarrow> bool" where
  "gen_inv uu source bound lo st \<longleftrightarrow> lo \<le> fst st \<and>
     (\<forall>c\<in>set (snd st). chunk_fresh uu lo (fst st) c \<and> c_source c = source \<and>
        c_content c \<noteq> [] \<and> int (length (c_content c)) \<le> bound \<and> c_parent_content c \<noteq> [] \<and>
        c_strategy c = CHUNKING_STRATEGY) \<and>
     siblings_agree (snd st) \<and> distinct (map c_id (snd st)) \<and>
     map c_chunk_index (snd st) = map int [0 ..< length (snd st)]"

text \<open>The parent under construction: its identifier is drawn, its children so far agree.\<close>

definition parent_open :: "(nat \<Rightarrow> pystr) \<Rightarrow> pystr \<Rightarrow> int \<Rightarrow> nat \<Rightarrow> gen_state \<Rightarrow> bool" where
  "parent_open uu ptx page p st \<longleftrightarrow> p < fst st \<and>
     (\<forall>c\<in>set (snd st). c_parent_id c = uu p \<longrightarrow> c_parent_content c = ptx \<and> c_page c = page)"

lemma chunk_fresh_weaken: "chunk_fresh uu lo hi c \<Longrightarrow> lo' \<le> lo \<Longrightarrow> hi \<le> hi' \<Longrightarrow> chunk_fresh uu lo' hi' c"
  unfolding chunk_fresh_def by (meson less_le_trans order_trans)

lemmas chunk_fresh_mono = chunk_fresh_weaken [OF _ order_refl]

lemma chunk_fresh_ids:
  assumes "inj uu" "chunk_fresh uu lo n c"
  shows "c_id c \<noteq> uu n \<and> c_parent_id c \<noteq> uu n"
proof -
  have "i < n \<Longrightarrow> uu i \<noteq> uu n" for i using injD [OF assms(1)] by blast
  then show ?thesis using assms(2) unfolding chunk_fresh_def by metis
qed

lemma gen_inv_draw: "gen_inv uu source bound lo st \<Longrightarrow> gen_inv uu source bound lo (fst st + 1, snd st)"
  unfolding gen_inv_def by (auto intro: chunk_fresh_mono)

lemma make_child_inv:
  assumes inv: "gen_inv uu source bound lo st" and par: "parent_open uu ptx page p st"
    and uu: "inj uu" and p: "lo \<le> p" and tx: "tx \<noteq> []" "int (length tx) \<le> bound" "ptx \<noteq> []"
  shows "gen_inv uu source bound lo (make_child uu source page pidx (uu p) ptx ci tx st) \<and>
     parent_open uu ptx page p (make_child uu source page pidx (uu p) ptx ci tx st)"
proof -
  let ?st = "make_child uu source page pidx (uu p) ptx ci tx st"
  define new where "new = last (snd ?st)"
  have snd_st: "snd ?st = snd st @ [new]" "fst ?st = fst st + 1" by (simp_all add: make_child_def new_def)
  have new: "c_id new = uu (fst st)" "c_content new = tx" "c_source new = source" "c_page new = page"
    "c_chunk_index new = int (length (snd st))" "c_parent_id new = uu p" "c_parent_content new = ptx"
    "c_strategy new = CHUNKING_STRATEGY"
    by (simp_all add: make_child_def new_def)
  have lo: "lo \<le> fst st" and each: "\<And>c. c \<in> set (snd st) \<Longrightarrow> chunk_fresh uu lo (fst st) c \<and> c_source c = source \<and>
        c_content c \<noteq> [] \<and> int (length (c_content c)) \<le> bound \<and> c_parent_content c \<noteq> [] \<and>
        c_strategy c = CHUNKING_STRATEGY"
    and sib: "siblings_agree (snd st)" and dist: "distinct (map c_id (snd st))"
    and pos: "map c_chunk_index (snd st) = map int [0 ..< length (snd st)]"
    using inv by (simp_all add: gen_inv_def)
  have par': "p < fst st" "\<And>c. c \<in> set (snd st) \<Longrightarrow> c_parent_id c = uu p \<Longrightarrow>
      c_parent_content c = ptx \<and> c_page c = page" using par by (simp_all add: parent_open_def)
  have fresh: "c_id c \<noteq> uu (fst st)" if c: "c \<in> set (snd st)" for c
    using chunk_fresh_ids [OF uu] each [OF c] by blast
  have fresh_new: "chunk_fresh uu lo (fst st + 1) new"
    unfolding chunk_fresh_def using lo p par'(1) by (auto simp: new intro: exI [of _ "fst st"] exI [of _ p])
  have agree: "siblings_agree (snd st @ [new])"
    unfolding siblings_agree_def
  proof (intro ballI impI)
    fix c d assume "c \<in> set (snd st @ [new])" "d \<in> set (snd st @ [new])" "c_parent_id c = c_parent_id d"
    then have cd: "c \<in> set (snd st) \<or> c = new" "d \<in> set (snd st) \<or> d = new"
      and eq: "c_parent_id c = c_parent_id d" by auto
    have mixed: "c_parent_content x = ptx \<and> c_source x = source \<and> c_page x = page"
      if "x \<in> set (snd st)" "c_parent_id x = uu p" for x using each par'(2) that by blast
    from cd show "c_parent_content c = c_parent_content d \<and> c_source c = c_source d \<and> c_page c = c_page d"
    proof (elim disjE)
      assume "c \<in> set (snd st)" "d \<in> set (snd st)"
      then show ?thesis using sib eq unfolding siblings_agree_def by blast
    next
      assume "c \<in> set (snd st)" "d = new"
      then show ?thesis using mixed [of c] eq by (simp add: new)
    next
      assume "c = new" "d \<in> set (snd st)"
      then show ?thesis using mixed [of d] eq by (simp add: new)
    qed simp
  qed
  have "gen_inv uu source bound lo ?st"
    unfolding gen_inv_def snd_st
  proof (intro conjI ballI)
    show "lo \<le> fst st + 1" using lo by simp
    show "siblings_agree (snd st @ [new])" by (rule agree)
    show "distinct (map c_id (snd st @ [new]))" 
    proof -
      have "uu (fst st) \<notin> c_id ` set (snd st)" using fresh by (metis imageE)
      then show ?thesis using dist by (simp add: new)
    qed
    show "map c_chunk_index (snd st @ [new]) = map int [0 ..< length (snd st @ [new])]"
      using pos by (simp add: new)
  next
    fix c assume "c \<in> set (snd st @ [new])"
    then have "c \<in> set (snd st) \<or> c = new" by auto
    then have "chunk_fresh uu lo (fst st + 1) c \<and> c_source c = source \<and> c_content c \<noteq> [] \<and>
        int (length (c_content c)) \<le> bound \<and> c_parent_content c \<noteq> [] \<and> c_strategy c = CHUNKING_STRATEGY"
    proof
      assume "c \<in> set (snd st)"
      then show ?thesis using each chunk_fresh_mono [of uu lo "fst st" c "fst st + 1"] by simp
    next
      assume "c = new"
      then show ?thesis using fresh_new tx by (simp add: new)
    qed
    then show "chunk_fresh uu lo (fst st + 1) c" "c_source c = source" "c_content c \<noteq> []"
      "int (length (c_content c)) \<le> bound" "c_parent_content c \<noteq> []" "c_strategy c = CHUNKING_STRATEGY"
      by simp_all
  qed
  moreover have "parent_open uu ptx page p ?st"
    unfolding parent_open_def snd_st using par' by (auto simp: new)
  ultimately show ?thesis by blast
qed

lemma make_children_inv:
  "gen_inv uu source bound lo st \<Longrightarrow> parent_open uu ptx page p st \<Longrightarrow> inj uu \<Longrightarrow> lo \<le> p \<Longrightarrow>
   \<forall>tx\<in>set txs. tx \<noteq> [] \<and> int (length tx) \<le> bound \<Longrightarrow> ptx \<noteq> [] \<Longrightarrow>
   gen_inv uu source bound lo (make_children uu source page pidx (uu p) ptx ci txs st)"
proof (induction txs arbitrary: ci st)
  case (Cons tx txs)
  have "gen_inv uu source bound lo (make_child uu source page pidx (uu p) ptx ci tx st) \<and>
      parent_open uu ptx page p (make_child uu source page pidx (uu p) ptx ci tx st)"
    by (rule make_child_inv) (use Cons.prems in auto)
  then show ?case using Cons by auto
qed simp

lemma parents_loop_inv:
  assumes "0 < kc_child_size cfg" "inj uu" "merge_bound (kc_child_size cfg) (kc_child_overlap cfg) \<le> bound"
  shows "gen_inv uu source bound lo st \<Longrightarrow> \<forall>t\<in>set ptxs. t \<noteq> [] \<and> int (length t) \<le> bound \<Longrightarrow>
   \<exists>st'. parents_loop cfg uu source page pidx ptxs st = Some st' \<and> gen_inv uu source bound lo st'"
proof (induction ptxs arbitrary: pidx st)
  case (Cons ptx ptxs)
  obtain ctxs0 where c0: "split_text ptx (kc_child_size cfg) (kc_child_overlap cfg) = Some ctxs0"
    "\<forall>c\<in>set ctxs0. tidy c \<and> int (length c) \<le> merge_bound (kc_child_size cfg) (kc_child_overlap cfg)"
    using split_text_ok [OF assms(1), of ptx "kc_child_overlap cfg"] by blast
  define ctxs where "ctxs = (if ctxs0 = [] then [ptx] else ctxs0)"
  let ?st = "make_children uu source page pidx (uu (fst st)) ptx 0 ctxs (fst st + 1, snd st)"
  have fresh: "c_parent_id c \<noteq> uu (fst st)" if "c \<in> set (snd st)" for c
    using Cons.prems(1) that chunk_fresh_ids [OF assms(2)] unfolding gen_inv_def by blast
  have "\<forall>tx\<in>set ctxs. tx \<noteq> [] \<and> int (length tx) \<le> bound"
  proof (cases "ctxs0 = []")
    case True
    then show ?thesis using Cons.prems(2) by (simp add: ctxs_def)
  next
    case False
    have "tidy c \<and> int (length c) \<le> bound" if "c \<in> set ctxs0" for c
      using c0(2) that assms(3) by (meson order_trans)
    then show ?thesis using False by (simp add: ctxs_def tidy_def)
  qed
  then have "gen_inv uu source bound lo ?st"
    using Cons.prems fresh gen_inv_draw [OF Cons.prems(1)] assms(2)
    by (intro make_children_inv) (auto simp: parent_open_def gen_inv_def)
  from Cons.IH [OF this, of "pidx + 1"] Cons.prems(2) c0(1) show ?case by (simp add: Let_def ctxs_def)
qed simp

definition config_ok :: "kb_config \<Rightarrow> bool" where
  "config_ok cfg \<longleftrightarrow> 0 < kc_parent_size cfg \<and> 0 < kc_child_size cfg"

definition content_bound :: "kb_config \<Rightarrow> int" where
  "content_bound cfg = max (merge_bound (kc_parent_size cfg) (kc_parent_overlap cfg))
     (merge_bound (kc_child_size cfg) (kc_child_overlap cfg))"

lemma pages_loop_inv:
  assumes "config_ok cfg" "inj uu"
  shows "gen_inv uu source (content_bound cfg) lo st \<Longrightarrow>
   \<exists>st'. pages_loop cfg uu source page pages st = Some st' \<and> gen_inv uu source (content_bound cfg) lo st'"
proof (induction pages arbitrary: page st)
  case (Cons pg pages)
  define tx where "tx = clean_text (case pg of None \<Rightarrow> [] | Some t \<Rightarrow> t)"
  obtain ptxs where p: "split_text tx (kc_parent_size cfg) (kc_parent_overlap cfg) = Some ptxs"
    "\<forall>c\<in>set ptxs. tidy c \<and> int (length c) \<le> merge_bound (kc_parent_size cfg) (kc_parent_overlap cfg)"
    using split_text_ok [of "kc_parent_size cfg" tx "kc_parent_overlap cfg"] assms(1)
    by (auto simp: config_ok_def)
  obtain st' where "parents_loop cfg uu source page 0 ptxs st = Some st'"
    "gen_inv uu source (content_bound cfg) lo st'"
    using parents_loop_inv [of cfg uu "content_bound cfg" source lo st ptxs page 0] Cons.prems p(2) assms
    by (fastforce simp: config_ok_def content_bound_def tidy_def)
  then show ?case using Cons.IH p(1) by (simp add: Let_def tx_def)
qed simp

lemma chunks_from_reader_inv:
  assumes "config_ok cfg" "inj uu"
  shows "\<exists>st. chunks_from_reader cfg uu source pages n = Some st \<and> gen_inv uu source (content_bound cfg) n st"
  unfolding chunks_from_reader_def
  by (rule pages_loop_inv [OF assms]) (simp add: gen_inv_def siblings_agree_def)

text \<open>The identifiers are the only part of a chunk that depends on what was drawn before.\<close>

definition strip_ids :: "chunk \<Rightarrow> chunk" where
  "strip_ids c = c\<lparr>c_id := [], c_parent_id := []\<rparr>"

abbreviation same_texts :: "gen_state \<Rightarrow> gen_state \<Rightarrow> bool" where
  "same_texts st st' \<equiv> map strip_ids (snd st) = map strip_ids (snd st')"

lemma make_children_strip:
  "same_texts st st' \<Longrightarrow> same_texts (make_children uu source page pidx i ptx ci txs st)
     (make_children uu source page pidx j ptx ci txs st')"
proof (induction txs arbitrary: ci st st')
  case (Cons tx txs)
  have "length (snd st) = length (snd st')" using Cons.prems by (metis length_map)
  then have "same_texts (make_child uu source page pidx i ptx ci tx st) (make_child uu source page pidx j ptx ci tx st')"
    using Cons.prems by (simp add: make_child_def) (simp add: strip_ids_def)
  then show ?case using Cons.IH by simp
qed simp

lemma parents_loop_strip:
  "same_texts st st' \<Longrightarrow> rel_option same_texts (parents_loop cfg uu source page pidx ptxs st)
     (parents_loop cfg uu source page pidx ptxs st')"
proof (induction ptxs arbitrary: pidx st st')
  case (Cons ptx ptxs)
  show ?case
  proof (cases "split_text ptx (kc_child_size cfg) (kc_child_overlap cfg)")
    case (Some ctxs)
    have "same_texts (make_children uu source page pidx (uu (fst st)) ptx 0 (if ctxs = [] then [ptx] else ctxs) (fst st + 1, snd st))
        (make_children uu source page pidx (uu (fst st')) ptx 0 (if ctxs = [] then [ptx] else ctxs) (fst st' + 1, snd st'))"
      by (rule make_children_strip) (simp add: Cons.prems)
    from Cons.IH [OF this, of "pidx + 1"] Some show ?thesis by (simp add: Let_def)
  qed (simp add: Let_def)
qed simp

lemma pages_loop_strip:
  "same_texts st st' \<Longrightarrow> rel_option same_texts (pages_loop cfg uu source page pages st)
     (pages_loop cfg uu source page pages st')"
proof (induction pages arbitrary: page st st')
  case (Cons pg pages)
  show ?case
  proof (cases "split_text (clean_text (case pg of None \<Rightarrow> [] | Some t \<Rightarrow> t)) (kc_parent_size cfg) (kc_parent_overlap cfg)")
    case (Some ptxs)
    from parents_loop_strip [OF Cons.prems, of cfg uu source page 0 ptxs]
    show ?thesis using Some Cons.IH by (cases rule: option.rel_cases) (auto simp: Let_def)
  qed (simp add: Let_def)
qed simp

lemma chunks_from_reader_strip:
  "rel_option same_texts (chunks_from_reader cfg uu source pages m) (chunks_from_reader cfg uu source pages n)"
  unfolding chunks_from_reader_def by (rule pages_loop_strip) simp

section \<open>Upload names\<close>

lemma is_hex_32:
  "re_matches (Rep (length h) (Cls p)) (h @ t) = (if \<forall>c\<in>set h. p c then [(t, [])] else [])"
proof (induction h)
  case (Cons c h)
  then show ?case by (cases "p c") (simp_all add: re_matches_Cat_Cls)
qed simp

lemma display_prefix:
  assumes "length h = 32" "\<forall>c\<in>set h. is_hex c"
  shows "display_source_name (h @ [95] @ name) = name"
proof -
  have "re_matches (Rep 32 (Cls is_hex)) (h @ 95 # name) = [(95 # name, [])]"
    using is_hex_32 [of h is_hex "95 # name"] assms by simp
  then show ?thesis
    by (simp add: display_source_name_def re_sub_start_def re_first_def re_upload_prefix_def Chr_def)
qed

lemma safe_name_chars: "\<forall>c\<in>set (safe_name s). name_char c"
proof -
  have "\<forall>c\<in>set (re_sub (Plus (Cls (\<lambda>c. \<not> name_char c))) (\<lambda>_. [95]) s). name_char c"
  proof (induction s rule: length_induct)
    case (1 s)
    show ?case
    proof (cases s)
      case (Cons c t)
      have "length (dropWhile (\<lambda>c. \<not> name_char c) t) < length s" using Cons by (simp add: le_imp_less_Suc)
      then show ?thesis using 1 Cons by (auto simp: re_sub_Plus_Cls name_char_def)
    qed (simp add: re_sub_Plus_Cls)
  qed
  then show ?thesis by (simp add: safe_name_def)
qed

lemma safe_name_idle: "\<forall>c\<in>set s. name_char c \<Longrightarrow> safe_name s = s"
  unfolding safe_name_def by (induction s) (auto simp: re_sub_Plus_Cls)

section \<open>Reading a saved chunk\<close>

lemma chunk_from_dict_asdict:
  assumes "c_id ch \<noteq> []" "c_parent_id ch \<noteq> []" "c_parent_content ch \<noteq> []" "c_strategy ch \<noteq> []"
  shows "chunk_from_dict u v (asdict ch) = Inr ch"
  using assms
  by (simp add: chunk_from_dict_def asdict_def text_get_def text_get_or_def int_get_def json_get_def
      json_or_def str_or_def)

section \<open>Properties\<close>

text \<open>C39: with positive chunk sizes and identifiers that do not repeat, chunking a PDF returns;
  every chunk carries the source, has a non-empty bounded text and a non-empty parent text, chunk
  identifiers are distinct and freshly drawn, chunks of one parent agree on text, source and page,
  and \<open>chunk_index\<close> counts the chunks of the document from zero.\<close>

theorem chunks_from_reader_correct:
  assumes "config_ok cfg" "inj uu"
  shows "\<exists>m new. chunks_from_reader cfg uu source pages n = Some (m, new) \<and> n \<le> m \<and>
     (\<forall>c\<in>set new. c_source c = source \<and> c_content c \<noteq> [] \<and>
        int (length (c_content c)) \<le> content_bound cfg \<and> c_parent_content c \<noteq> [] \<and>
        (\<exists>i j. n \<le> i \<and> i < m \<and> c_id c = uu i \<and> n \<le> j \<and> j < m \<and> c_parent_id c = uu j)) \<and>
     distinct (map c_id new) \<and> siblings_agree new \<and>
     map c_chunk_index new = map int [0 ..< length new]"
  using chunks_from_reader_inv [OF assms, of source pages n]
  unfolding gen_inv_def chunk_fresh_def by (metis prod.collapse)

theorem chunks_from_reader_correct_witness:
  "\<exists>m new. chunks_from_reader default_kb_config show_nat (asc ''a.pdf'') [Some (asc ''Hello world.'')] 7 = Some (m, new) \<and>
     7 \<le> m \<and> distinct (map c_id new)"
  using chunks_from_reader_correct [of default_kb_config show_nat "(asc ''a.pdf'')" "[Some (asc ''Hello world.'')]" 7]
  by (fastforce simp: config_ok_def default_kb_config_def inj_def)

text \<open>Loading the dictionary that \<open>asdict\<close> saved gives the chunk back, for every chunk whose
  identifier, parent identifier, parent text and strategy are not empty (as the ingestion makes
  them); the load draws no identifier.\<close>

theorem chunk_dict_roundtrip:
  assumes "c_id ch \<noteq> []" "c_parent_id ch \<noteq> []" "c_parent_content ch \<noteq> []" "c_strategy ch \<noteq> []"
  shows "chunk_from_dict u v (asdict ch) = Inr ch"
  using assms by (rule chunk_from_dict_asdict)

theorem chunk_dict_roundtrip_witness:
  "chunk_from_dict [] [] (asdict ((sample_chunk (asc ''x''))\<lparr>c_parent_id := (asc ''p''), c_parent_content := (asc ''x y'')\<rparr>)) =
     Inr ((sample_chunk (asc ''x''))\<lparr>c_parent_id := (asc ''p''), c_parent_content := (asc ''x y'')\<rparr>)"
  by (rule chunk_dict_roundtrip) (simp_all add: sample_chunk_def)

text \<open>The display name of a saved upload is its sanitised file name, which holds letters,
  digits, dots, underscores, hyphens and CJK characters only (no slash), and is the file name itself
  when that has no other character.\<close>

theorem upload_name_roundtrip:
  assumes "length hex = 32" "\<forall>c\<in>set hex. is_hex c"
  shows "display_source_name (upload_name hex filename) = safe_name filename \<and>
     (\<forall>c\<in>set (safe_name filename). name_char c \<and> c \<noteq> 47) \<and>
     ((\<forall>c\<in>set filename. name_char c) \<longrightarrow> safe_name filename = filename)"
  using display_prefix [OF assms] safe_name_chars [of filename] safe_name_idle [of filename]
  by (auto simp: upload_name_def name_char_def is_cjk_def)

theorem upload_name_roundtrip_witness:
  "display_source_name (upload_name (replicate 32 97) (asc ''my file.pdf'')) = (asc ''my_file.pdf'')"
proof -
  have "safe_name (asc ''my file.pdf'') = (asc ''my_file.pdf'')" by code_simp
  then show ?thesis
    using upload_name_roundtrip [of "replicate 32 97" "(asc ''my file.pdf'')"] by (simp add: is_hex_def)
qed

end
