(* ===== verification/Source_Store.thy ===== *)
theory Source_Store
  imports Prelude
begin

text \<open>
  The contract between the document-change consumer and the index: a store that keeps a list of
  items per source, with replace and remove. Kafka delivers events at least once and in order per
  key; the lemmas of the locale say what any sequence of events leaves behind, and that delivering
  it again changes nothing.
\<close>

datatype ('s, 'c) change = Upsert 's "'c list" | Remove 's

fun change_source :: "('s, 'c) change \<Rightarrow> 's" where
  "change_source (Upsert s cs) = s"
| "change_source (Remove s) = s"

fun change_items :: "('s, 'c) change \<Rightarrow> 'c list" where
  "change_items (Upsert s cs) = cs"
| "change_items (Remove s) = []"

locale source_store =
  fixes view :: "'st \<Rightarrow> 's \<Rightarrow> 'c list"
    and replace :: "'s \<Rightarrow> 'c list \<Rightarrow> 'st \<Rightarrow> 'st"
    and remove :: "'s \<Rightarrow> 'st \<Rightarrow> 'st"
    and owns :: "'s \<Rightarrow> 'c list \<Rightarrow> bool"
  assumes view_replace: "owns s cs \<Longrightarrow> view (replace s cs st) t = (if t = s then cs else view st t)"
    and view_remove: "view (remove s st) t = (if t = s then [] else view st t)"
begin

fun deliver :: "('s, 'c) change \<Rightarrow> 'st \<Rightarrow> 'st" where
  "deliver (Upsert s cs) st = replace s cs st"
| "deliver (Remove s) st = remove s st"

definition owned :: "('s, 'c) change \<Rightarrow> bool" where
  "owned e \<longleftrightarrow> (case e of Upsert s cs \<Rightarrow> owns s cs | Remove s \<Rightarrow> True)"

lemma view_deliver:
  "owned e \<Longrightarrow> view (deliver e st) t = (if t = change_source e then change_items e else view st t)"
  by (cases e) (simp_all add: owned_def view_replace view_remove)

text \<open>What a source holds after a sequence of events: the last event about it decides.\<close>

lemma view_fold:
  "\<forall>e\<in>set evs. owned e \<Longrightarrow> view (fold deliver evs st) t =
     (case find (\<lambda>e. change_source e = t) (rev evs) of
        None \<Rightarrow> view st t | Some e \<Rightarrow> change_items e)"
proof (induction evs arbitrary: st)
  case (Cons e evs)
  have last: "find P (xs @ [y]) = (case find P xs of Some z \<Rightarrow> Some z | None \<Rightarrow> if P y then Some y else None)"
    for P xs and y :: "('s, 'c) change"
    by (induction xs) auto
  from Cons show ?case by (auto simp: last view_deliver split: option.splits)
qed simp

text \<open>At-least-once delivery: repeating any suffix of the sequence changes nothing.\<close>

lemma view_redelivery:
  assumes "\<forall>e\<in>set (xs @ ys). owned e"
  shows "view (fold deliver (xs @ ys @ ys) st) t = view (fold deliver (xs @ ys) st) t"
proof -
  let ?P = "\<lambda>e. change_source e = t"
  have app: "find ?P (as @ bs) = (case find ?P as of Some z \<Rightarrow> Some z | None \<Rightarrow> find ?P bs)" for as bs
    by (induction as) auto
  have "\<forall>e\<in>set (xs @ ys @ ys). owned e" using assms by auto
  from view_fold [OF this] view_fold [OF assms] show ?thesis
    by (simp add: app split: option.splits)
qed

end

end
