(* ===== verification/Knowledge_Base.thy ===== *)
theory Knowledge_Base
  imports Ingestion Source_Store
begin

text \<open>
  The operations of \<open>KnowledgeBase\<close> in \<open>backend/retriever.py\<close> that change its state. The state holds
  the chunk list and its file \<open>chunks.json\<close>, the vector index and its file, the BM25 index, the
  names in the upload directory and the number of identifiers drawn. The embedding, the PDF parser,
  \<open>uuid4\<close> and the resolution of upload paths are parameters (the record of the environment). Every
  operation runs under the class's lock, so it is one step; file-system errors are not modelled.
\<close>

section \<open>State and environment\<close>

record 'v kb =
  kb_chunks :: "chunk list"
  kb_saved :: "json list option"
  kb_index :: "'v list"
  kb_saved_index :: "(int \<times> 'v list) option"
  kb_bm25 :: bm25_index
  kb_uploads :: "pystr list"
  kb_next :: nat

record 'v kb_env =
  ke_cfg :: kb_config
  ke_uuid :: "nat \<Rightarrow> pystr"
  ke_hex :: "nat \<Rightarrow> pystr"
  ke_pdf :: "pystr \<Rightarrow> pystr option list result"
  ke_embed :: "pystr list \<Rightarrow> 'v list result"
  ke_dim :: int
  ke_inside :: "pystr \<Rightarrow> bool"

section \<open>Saving and indexing\<close>

definition save_chunks :: "'v kb \<Rightarrow> 'v kb" where
  "save_chunks st = st\<lparr>kb_saved := Some (map asdict (kb_chunks st))\<rparr>"

definition rebuild_index :: "'v kb_env \<Rightarrow> 'v kb \<Rightarrow> 'v kb \<times> unit result" where
  "rebuild_index env st =
     (case (if kb_chunks st = [] then Inr [] else ke_embed env (map c_content (kb_chunks st))) of
        Inl e \<Rightarrow> (st, Inl e)
      | Inr vs \<Rightarrow>
          (st\<lparr>kb_index := vs, kb_saved_index := Some (ke_dim env, vs),
              kb_bm25 := bm25_rebuild (kb_bm25 st) (kb_chunks st)\<rparr>, Inr ()))"

text \<open>The locked block every mutation ends with: assign the chunks, save them, rebuild the index.\<close>

definition commit :: "'v kb_env \<Rightarrow> chunk list \<Rightarrow> 'v kb \<Rightarrow> 'v kb \<times> unit result" where
  "commit env cs st = rebuild_index env (save_chunks (st\<lparr>kb_chunks := cs\<rparr>))"

text \<open>Loading at start-up. Two identifiers are set aside per chunk for missing ids.\<close>

fun load_items :: "(nat \<Rightarrow> pystr) \<Rightarrow> nat \<Rightarrow> json list \<Rightarrow> chunk list result" where
  "load_items uu n [] = Inr []"
| "load_items uu n (item # items) =
     rbind (chunk_from_dict (uu n) (uu (n + 1)) item) (\<lambda>c.
     rbind (load_items uu (n + 2) items) (\<lambda>cs. Inr (c # cs)))"

definition load_chunks :: "'v kb_env \<Rightarrow> 'v kb \<Rightarrow> chunk list result" where
  "load_chunks env st = (case kb_saved st of None \<Rightarrow> Inr []
     | Some items \<Rightarrow> load_items (ke_uuid env) (kb_next st) items)"

definition load_or_rebuild_index :: "'v kb_env \<Rightarrow> 'v kb \<Rightarrow> 'v kb \<times> unit result" where
  "load_or_rebuild_index env st =
     (case kb_saved_index st of
        Some (d, vs) \<Rightarrow>
          if kb_chunks st \<noteq> [] \<and> d = ke_dim env \<and> length vs = length (kb_chunks st)
          then (st\<lparr>kb_index := vs\<rparr>, Inr ()) else rebuild_index env st
      | None \<Rightarrow> rebuild_index env st)"

text \<open>\<open>KnowledgeBase.__init__\<close> on what is on disk (the saved fields and the uploads of \<open>st\<close>).\<close>

definition kb_open :: "'v kb_env \<Rightarrow> 'v kb \<Rightarrow> 'v kb \<times> unit result" where
  "kb_open env st =
     (case load_chunks env st of
        Inl e \<Rightarrow> (st, Inl e)
      | Inr cs \<Rightarrow>
          let n = (case kb_saved st of None \<Rightarrow> 0 | Some items \<Rightarrow> 2 * length items)
          in load_or_rebuild_index env
               (st\<lparr>kb_chunks := cs, kb_bm25 := bm25_rebuild (kb_bm25 st) cs, kb_next := kb_next st + n\<rparr>))"

section \<open>Ingestion\<close>

record add_report =
  ar_source :: pystr
  ar_pages :: nat
  ar_chunks_added :: nat
  ar_parents_added :: nat
  ar_total_chunks :: nat

definition save_upload :: "'v kb_env \<Rightarrow> pystr \<Rightarrow> 'v kb \<Rightarrow> 'v kb \<times> pystr" where
  "save_upload env filename st =
     (let name = upload_name (ke_hex env (kb_next st)) filename
      in (st\<lparr>kb_uploads := name # kb_uploads st, kb_next := kb_next st + 1\<rparr>, name))"

text \<open>
  \<open>add_pdf\<close> and \<open>upsert_pdf\<close> differ in the chunks they keep: all of them, or those of other
  sources. \<open>None\<close> is a call that does not return.
\<close>

definition ingest_pdf ::
  "(chunk \<Rightarrow> bool) \<Rightarrow> 'v kb_env \<Rightarrow> pystr \<Rightarrow> pystr \<Rightarrow> 'v kb \<Rightarrow> ('v kb \<times> add_report result) option" where
  "ingest_pdf keep env path source st =
     (case ke_pdf env path of
        Inl e \<Rightarrow> Some (st, Inl e)
      | Inr pages \<Rightarrow>
          (case chunks_from_reader (ke_cfg env) (ke_uuid env) source pages (kb_next st) of
             None \<Rightarrow> None
           | Some (n, new) \<Rightarrow>
               let (st', r) = commit env (filter keep (kb_chunks st) @ new) (st\<lparr>kb_next := n\<rparr>)
               in Some (st', rbind r (\<lambda>_. Inr
                    \<lparr>ar_source = source, ar_pages = length pages, ar_chunks_added = length new,
                     ar_parents_added = card (set (map c_parent_id new)),
                     ar_total_chunks = length (kb_chunks st')\<rparr>))))"

definition add_pdf :: "'v kb_env \<Rightarrow> pystr \<Rightarrow> pystr \<Rightarrow> 'v kb \<Rightarrow> ('v kb \<times> add_report result) option" where
  "add_pdf env path source st = ingest_pdf (\<lambda>_. True) env path source st"

definition upsert_pdf :: "'v kb_env \<Rightarrow> pystr \<Rightarrow> pystr \<Rightarrow> 'v kb \<Rightarrow> ('v kb \<times> add_report result) option" where
  "upsert_pdf env path source st = ingest_pdf (\<lambda>c. c_source c \<noteq> source) env path source st"

section \<open>Rebuilding from the uploads\<close>

text \<open>\<open>sorted(UPLOAD_DIR.glob("*.pdf"))\<close>\<close>

definition pdf_uploads :: "'v kb \<Rightarrow> pystr list" where
  "pdf_uploads st = sort (filter (\<lambda>name. ends_with name (asc ''.pdf'')) (kb_uploads st))"

record rebuild_report =
  rb_sources :: "pystr list"
  rb_pages :: nat
  rb_chunks :: "chunk list"
  rb_next :: nat

fun read_uploads :: "'v kb_env \<Rightarrow> pystr list \<Rightarrow> rebuild_report \<Rightarrow> rebuild_report result option" where
  "read_uploads env [] acc = Some (Inr acc)"
| "read_uploads env (name # names) acc =
     (let source = display_source_name name
      in case ke_pdf env name of
           Inl e \<Rightarrow> Some (Inl e)
         | Inr pages \<Rightarrow>
             (case chunks_from_reader (ke_cfg env) (ke_uuid env) source pages (rb_next acc) of
                None \<Rightarrow> None
              | Some (n, new) \<Rightarrow>
                  read_uploads env names
                    \<lparr>rb_sources = rb_sources acc @ [source], rb_pages = rb_pages acc + length pages,
                     rb_chunks = rb_chunks acc @ new, rb_next = n\<rparr>))"

definition rebuild_from_uploads :: "'v kb_env \<Rightarrow> 'v kb \<Rightarrow> ('v kb \<times> rebuild_report result) option" where
  "rebuild_from_uploads env st =
     (case read_uploads env (pdf_uploads st)
             \<lparr>rb_sources = [], rb_pages = 0, rb_chunks = [], rb_next = kb_next st\<rparr> of
        None \<Rightarrow> None
      | Some (Inl e) \<Rightarrow> Some (st, Inl e)
      | Some (Inr rep) \<Rightarrow>
          let (st', r) = commit env (rb_chunks rep) (st\<lparr>kb_next := rb_next rep\<rparr>)
          in Some (st', rbind r (\<lambda>_. Inr rep)))"

section \<open>Deleting\<close>

definition upload_files_for_source :: "pystr \<Rightarrow> 'v kb \<Rightarrow> pystr list" where
  "upload_files_for_source source st =
     filter (\<lambda>name. display_source_name name = source \<or> name = source) (pdf_uploads st)"

fun delete_files ::
  "(pystr \<Rightarrow> bool) \<Rightarrow> pystr list \<Rightarrow> pystr list \<Rightarrow> pystr list \<Rightarrow> pystr list \<times> pystr list result" where
  "delete_files inside [] uploads deleted = (uploads, Inr deleted)"
| "delete_files inside (name # names) uploads deleted =
     (if \<not> inside name
      then (uploads, Inl (RuntimeError ((asc ''Refusing to delete outside upload dir: '') @ name)))
      else delete_files inside names (removeAll name uploads) (deleted @ [name]))"

record delete_report =
  dr_source :: pystr
  dr_chunks_removed :: nat
  dr_deleted_uploads :: "pystr list"

definition delete_source :: "'v kb_env \<Rightarrow> pystr \<Rightarrow> 'v kb \<Rightarrow> 'v kb \<times> delete_report result" where
  "delete_source env name st =
     (let source = py_strip name
      in if source = []
         then (st, Inr \<lparr>dr_source = source, dr_chunks_removed = 0, dr_deleted_uploads = []\<rparr>)
         else
           case delete_files (ke_inside env) (upload_files_for_source source st) (kb_uploads st) [] of
             (uploads, Inl e) \<Rightarrow> (st\<lparr>kb_uploads := uploads\<rparr>, Inl e)
           | (uploads, Inr deleted) \<Rightarrow>
               let kept = filter (\<lambda>c. c_source c \<noteq> source) (kb_chunks st);
                   (st', r) = commit env kept (st\<lparr>kb_uploads := uploads\<rparr>)
               in (st', rbind r (\<lambda>_. Inr \<lparr>dr_source = source,
                    dr_chunks_removed = length (kb_chunks st) - length kept, dr_deleted_uploads = deleted\<rparr>)))"

definition clear :: "'v kb_env \<Rightarrow> 'v kb \<Rightarrow> 'v kb \<times> unit result" where
  "clear env st = commit env [] st"

section \<open>Statistics\<close>

definition parent_count :: "chunk list \<Rightarrow> nat" where
  "parent_count cs = length (remdups (map parent_key cs))"

definition document_stats :: "'v kb \<Rightarrow> pystr \<Rightarrow> json" where
  "document_stats st source =
     (let own = filter (\<lambda>c. c_source c = source) (kb_chunks st)
      in JObj [((asc ''source''), JStr source), ((asc ''chunks''), JInt (int (length own))),
           ((asc ''parent_chunks''), JInt (int (parent_count own))),
           ((asc ''upload_count''), JInt (int (length (upload_files_for_source source st))))])"

definition bm25_stats :: "bm25_index \<Rightarrow> json" where
  "bm25_stats idx = JObj [((asc ''enabled''), JBool (bm_enabled idx)), ((asc ''algorithm''), JStr (asc ''BM25Okapi'')),
     ((asc ''documents''), JInt (int (bm_doc_count idx))), ((asc ''avg_doc_len''), JReal (py_round 2 (bm_avg_doc_len idx))),
     ((asc ''k1''), JReal (bm_k1 idx)), ((asc ''b''), JReal (bm_b idx))]"

text \<open>The values of the embedding's and the reranker's entries and of the directories are the argument \<open>rest\<close>.\<close>

definition kb_stats :: "kb_config \<Rightarrow> search_config \<Rightarrow> (pystr \<Rightarrow> json) \<Rightarrow> 'v kb \<Rightarrow> json" where
  "kb_stats cfg scfg rest st =
     (let sources = sort (remdups (map c_source (kb_chunks st)))
      in JObj ([((asc ''vector_store''), JStr (asc ''faiss'')),
        ((asc ''chunks''), JInt (int (length (kb_chunks st)))),
        ((asc ''parent_chunks''), JInt (int (parent_count (kb_chunks st)))),
        ((asc ''chunking_strategy''), JStr CHUNKING_STRATEGY),
        ((asc ''parent_chunk_size''), JInt (kc_parent_size cfg)),
        ((asc ''parent_chunk_overlap''), JInt (kc_parent_overlap cfg)),
        ((asc ''child_chunk_size''), JInt (kc_child_size cfg)),
        ((asc ''child_chunk_overlap''), JInt (kc_child_overlap cfg)),
        ((asc ''retrieval_mode''), JStr (if bm_enabled (kb_bm25 st) then (asc ''hybrid_vector_bm25_rrf'') else (asc ''vector''))),
        ((asc ''hybrid''), JObj [((asc ''fusion''), JStr (asc ''reciprocal_rank_fusion'')), ((asc ''rrf_k''), JInt (sc_rrf_k scfg)),
           ((asc ''vector_weight''), JReal (sc_vector_weight scfg)), ((asc ''bm25_weight''), JReal (sc_bm25_weight scfg))]),
        ((asc ''bm25''), bm25_stats (kb_bm25 st)),
        ((asc ''sources''), JArr (map JStr sources)),
        ((asc ''documents''), JArr (map (document_stats st) sources)),
        ((asc ''source_count''), JInt (int (length sources)))] @
        map (\<lambda>k. (k, rest k)) [(asc ''embedding_provider''), (asc ''embedding_device''), (asc ''embedding_api_base''),
          (asc ''embedding_dimension''), (asc ''embedding''), (asc ''reranker''), (asc ''data_dir''), (asc ''model_cache_dir'')]))"

section \<open>Searching\<close>

definition search ::
  "search_config \<Rightarrow> (pystr \<Rightarrow> int \<Rightarrow> (fscore \<times> int) list result) \<Rightarrow> rerank_client \<Rightarrow> pystr option \<Rightarrow>
   'v kb \<Rightarrow> pystr \<Rightarrow> int \<Rightarrow> real \<Rightarrow> reranker \<Rightarrow> reranker \<times> search_result list result" where
  "search cfg vsearch post env_model st query top_k min_score rr =
     kb_search cfg vsearch post env_model (kb_chunks st) (length (kb_index st)) (kb_bm25 st)
       query top_k min_score rr"

section \<open>The invariants\<close>

text \<open>Memory, files and indexes agree on the chunk list.\<close>

definition kb_synced :: "'v kb_env \<Rightarrow> 'v kb \<Rightarrow> bool" where
  "kb_synced env st \<longleftrightarrow> kb_saved st = Some (map asdict (kb_chunks st)) \<and>
     kb_saved_index st = Some (ke_dim env, kb_index st) \<and>
     (if kb_chunks st = [] then kb_index st = []
      else ke_embed env (map c_content (kb_chunks st)) = Inr (kb_index st)) \<and>
     kb_bm25 st = bm25_rebuild (kb_bm25 st) (kb_chunks st)"

text \<open>The chunk list is well formed: identifiers drawn once, siblings agree, no text is empty.\<close>

definition chunks_wf :: "(nat \<Rightarrow> pystr) \<Rightarrow> nat \<Rightarrow> chunk list \<Rightarrow> bool" where
  "chunks_wf uu n cs \<longleftrightarrow> siblings_agree cs \<and> distinct (map c_id cs) \<and>
     (\<forall>c\<in>set cs. chunk_fresh uu 0 n c \<and> c_content c \<noteq> [] \<and> c_parent_content c \<noteq> [] \<and>
        c_strategy c = CHUNKING_STRATEGY)"

definition kb_wf :: "'v kb_env \<Rightarrow> 'v kb \<Rightarrow> bool" where
  "kb_wf env st \<longleftrightarrow> chunks_wf (ke_uuid env) (kb_next st) (kb_chunks st)"

text \<open>What the development asks of the parameters: positive sizes, identifiers without repetition.\<close>

definition env_ok :: "'v kb_env \<Rightarrow> bool" where
  "env_ok env \<longleftrightarrow> config_ok (ke_cfg env) \<and> inj (ke_uuid env)"

lemma bm25_rebuild_idem: "bm25_rebuild (bm25_rebuild idx cs) cs = bm25_rebuild idx cs"
  by (simp add: bm25_rebuild_def Let_def)

lemma commit_ok:
  assumes "commit env cs st = (st', Inr u)"
  shows "kb_synced env st' \<and> kb_chunks st' = cs \<and> kb_next st' = kb_next st \<and> kb_uploads st' = kb_uploads st \<and>
     bm_k1 (kb_bm25 st') = bm_k1 (kb_bm25 st) \<and> bm_b (kb_bm25 st') = bm_b (kb_bm25 st) \<and>
     bm_enabled (kb_bm25 st') = bm_enabled (kb_bm25 st)"
  using assms unfolding commit_def rebuild_index_def save_chunks_def kb_synced_def
  by (auto simp: bm25_rebuild_idem bm25_rebuild_simps split: sum.splits if_splits)

text \<open>Whether or not the embedding succeeds, the chunks are assigned and saved.\<close>

lemma commit_state:
  assumes "commit env cs st = (st', r)"
  shows "kb_chunks st' = cs \<and> kb_saved st' = Some (map asdict cs) \<and> kb_next st' = kb_next st \<and>
     kb_uploads st' = kb_uploads st"
  using assms unfolding commit_def rebuild_index_def save_chunks_def
  by (auto split: sum.splits if_splits)

lemma commit_fails:
  "cs \<noteq> [] \<Longrightarrow> ke_embed env (map c_content cs) = Inl e \<Longrightarrow>
   commit env cs st = (st\<lparr>kb_chunks := cs, kb_saved := Some (map asdict cs)\<rparr>, Inl e)"
  by (simp add: commit_def rebuild_index_def save_chunks_def)

section \<open>Well-formedness is preserved\<close>

lemma chunks_wf_mono: "chunks_wf uu m cs \<Longrightarrow> m \<le> n \<Longrightarrow> chunks_wf uu n cs"
  unfolding chunks_wf_def using chunk_fresh_mono by blast

lemma chunks_wf_filter: "chunks_wf uu n cs \<Longrightarrow> chunks_wf uu n (filter p cs)"
  unfolding chunks_wf_def siblings_agree_def by (auto simp: distinct_map_filter)

lemma chunks_wf_append:
  assumes old: "chunks_wf uu n cs" and gen: "gen_inv uu source bound n (m, new)" and uu: "inj uu"
  shows "chunks_wf uu m (cs @ new)"
proof -
  have nm: "n \<le> m" using gen by (simp add: gen_inv_def)
  have o: "chunk_fresh uu 0 n c" if "c \<in> set cs" for c using old that by (simp add: chunks_wf_def)
  have w: "chunk_fresh uu n m d" if "d \<in> set new" for d using gen that by (simp add: gen_inv_def)
  have ne: "c_id c \<noteq> c_id d \<and> c_parent_id c \<noteq> c_parent_id d" if "c \<in> set cs" "d \<in> set new" for c d
  proof -
    have "i < n \<Longrightarrow> n \<le> j \<Longrightarrow> uu i \<noteq> uu j" for i j using injD [OF uu, of i j] by auto
    then show ?thesis using o [OF that(1)] w [OF that(2)] unfolding chunk_fresh_def by metis
  qed
  have "siblings_agree cs" "siblings_agree new" using old gen by (simp_all add: chunks_wf_def gen_inv_def)
  moreover have "\<forall>c\<in>set cs. \<forall>d\<in>set new. c_parent_id c \<noteq> c_parent_id d"
    "\<forall>d\<in>set new. \<forall>c\<in>set cs. c_parent_id d \<noteq> c_parent_id c" using ne by force+
  ultimately have "siblings_agree (cs @ new)"
    unfolding siblings_agree_def set_append ball_Un by (intro conjI) blast+
  moreover have "distinct (map c_id (cs @ new))"
    using old gen ne unfolding chunks_wf_def gen_inv_def by auto
  moreover have "chunk_fresh uu 0 m c" if "c \<in> set (cs @ new)" for c
    using that o w nm chunk_fresh_weaken [of uu 0 n c 0 m] chunk_fresh_weaken [of uu n m c 0 m] by auto
  ultimately show ?thesis using old gen unfolding chunks_wf_def gen_inv_def by auto
qed


lemma gen_of_reader:
  assumes "env_ok env" "chunks_from_reader (ke_cfg env) (ke_uuid env) source pages n = Some (m, new)"
  shows "gen_inv (ke_uuid env) source (content_bound (ke_cfg env)) n (m, new)"
  using chunks_from_reader_inv [of "ke_cfg env" "ke_uuid env" source pages n] assms by (auto simp: env_ok_def)

text \<open>A call of \<open>add_pdf\<close> or \<open>upsert_pdf\<close>: the parser raised, or the new chunks were committed.\<close>

lemma ingest_cases:
  assumes "ingest_pdf keep env path source st = Some (st', r)"
  obtains (unread) e where "ke_pdf env path = Inl e" "st' = st" "r = Inl e"
  | (committed) pages n new u where "ke_pdf env path = Inr pages"
      "chunks_from_reader (ke_cfg env) (ke_uuid env) source pages (kb_next st) = Some (n, new)"
      "commit env (filter keep (kb_chunks st) @ new) (st\<lparr>kb_next := n\<rparr>) = (st', u)"
      "r = rbind u (\<lambda>_. Inr \<lparr>ar_source = source, ar_pages = length pages, ar_chunks_added = length new,
         ar_parents_added = card (set (map c_parent_id new)), ar_total_chunks = length (kb_chunks st')\<rparr>)"
proof (cases "ke_pdf env path")
  case (Inl e)
  then show ?thesis using assms unread by (simp add: ingest_pdf_def)
next
  case (Inr pages)
  then obtain n new where "chunks_from_reader (ke_cfg env) (ke_uuid env) source pages (kb_next st) = Some (n, new)"
    using assms by (auto simp: ingest_pdf_def split: option.splits)
  moreover obtain u where "commit env (filter keep (kb_chunks st) @ new) (st\<lparr>kb_next := n\<rparr>) = (st', u)"
    using assms Inr calculation by (auto simp: ingest_pdf_def split: prod.splits)
  ultimately show ?thesis using assms Inr committed by (simp add: ingest_pdf_def)
qed

lemma ingest_returns:
  assumes "env_ok env"
  shows "\<exists>st' r. ingest_pdf keep env path source st = Some (st', r)"
proof (cases "ke_pdf env path")
  case (Inr pages)
  obtain m new where "chunks_from_reader (ke_cfg env) (ke_uuid env) source pages (kb_next st) = Some (m, new)"
    using chunks_from_reader_inv [of "ke_cfg env" "ke_uuid env" source pages "kb_next st"] assms
    by (auto simp: env_ok_def)
  then show ?thesis using Inr by (simp add: ingest_pdf_def split: prod.splits)
qed (simp add: ingest_pdf_def)

lemma ingest_wf [inv_intros]:
  assumes env: "env_ok env" and wf: "kb_wf env st" and run: "ingest_pdf keep env path source st = Some (st', r)"
  shows "kb_wf env st'"
  using run
proof (cases rule: ingest_cases)
  case (committed pages n new u)
  have "chunks_wf (ke_uuid env) n (filter keep (kb_chunks st) @ new)"
    using chunks_wf_append [OF chunks_wf_filter gen_of_reader [OF env committed(2)]] wf env
    by (simp add: kb_wf_def env_ok_def)
  then show ?thesis using commit_state [OF committed(3)] by (simp add: kb_wf_def)
qed (use wf in simp)

lemma ingest_synced:
  assumes "ingest_pdf keep env path source st = Some (st', Inr rep)"
  shows "kb_synced env st'"
  using assms
proof (cases rule: ingest_cases)
  case (committed pages n new u)
  then show ?thesis using commit_ok [of env _ "st\<lparr>kb_next := n\<rparr>" st'] by (cases u) auto
qed simp

lemma ingest_bm25:
  assumes "ingest_pdf keep env path source st = Some (st', Inr rep)"
  shows "bm25_params (kb_bm25 st') = bm25_params (kb_bm25 st) \<and> bm_enabled (kb_bm25 st') = bm_enabled (kb_bm25 st)"
  using assms
proof (cases rule: ingest_cases)
  case (committed pages n new u)
  then show ?thesis
    using commit_ok [of env _ "st\<lparr>kb_next := n\<rparr>" st'] by (cases u) (auto simp: bm25_params_def)
qed simp

text \<open>The loop over the uploads accumulates well-formed chunks.\<close>

lemma read_uploads_wf:
  "env_ok env \<Longrightarrow> chunks_wf (ke_uuid env) (rb_next acc) (rb_chunks acc) \<Longrightarrow>
   read_uploads env names acc = Some (Inr rep) \<Longrightarrow> chunks_wf (ke_uuid env) (rb_next rep) (rb_chunks rep)"
proof (induction env names acc rule: read_uploads.induct)
  case (2 env name names acc)
  from "2.prems"(3) obtain pages n new where run: "ke_pdf env name = Inr pages"
    "chunks_from_reader (ke_cfg env) (ke_uuid env) (display_source_name name) pages (rb_next acc) = Some (n, new)"
    by (auto simp: Let_def split: sum.splits option.splits)
  have "chunks_wf (ke_uuid env) n (rb_chunks acc @ new)"
    using chunks_wf_append [OF "2.prems"(2) gen_of_reader [OF "2.prems"(1) run(2)]] "2.prems"(1)
    by (simp add: env_ok_def)
  then show ?case using "2.IH" [OF refl run(1) run(2) refl "2.prems"(1)] "2.prems"(3) run by (simp add: Let_def)
qed simp

lemma rebuild_cases:
  assumes "rebuild_from_uploads env st = Some (st', r)"
  obtains (unread) e where "st' = st" "r = Inl e"
  | (committed) rep u where "read_uploads env (pdf_uploads st)
        \<lparr>rb_sources = [], rb_pages = 0, rb_chunks = [], rb_next = kb_next st\<rparr> = Some (Inr rep)"
      "commit env (rb_chunks rep) (st\<lparr>kb_next := rb_next rep\<rparr>) = (st', u)" "r = rbind u (\<lambda>_. Inr rep)"
  using assms unfolding rebuild_from_uploads_def
  by (auto split: option.splits sum.splits prod.splits)

lemma rebuild_wf [inv_intros]:
  assumes "env_ok env" "rebuild_from_uploads env st = Some (st', r)" "kb_wf env st"
  shows "kb_wf env st'"
  using assms(2)
proof (cases rule: rebuild_cases)
  case (committed rep u)
  have "chunks_wf (ke_uuid env) (rb_next rep) (rb_chunks rep)"
    by (rule read_uploads_wf [OF assms(1) _ committed(1)]) (simp add: chunks_wf_def siblings_agree_def)
  then show ?thesis using commit_state [OF committed(2)] by (simp add: kb_wf_def)
qed (use assms(3) in simp)

lemma rebuild_synced:
  assumes "rebuild_from_uploads env st = Some (st', Inr rep)"
  shows "kb_synced env st'"
  using assms
proof (cases rule: rebuild_cases)
  case (committed rep' u)
  then show ?thesis using commit_ok [of env "rb_chunks rep'" "st\<lparr>kb_next := rb_next rep'\<rparr>" st'] by (cases u) auto
qed auto

text \<open>Deleting: nothing named, a path outside the directory, or a commit of the other sources.\<close>

lemma delete_cases:
  assumes "delete_source env name st = (st', r)"
  obtains (blank) "py_strip name = []" "st' = st"
  | (outside) e ups where "py_strip name \<noteq> []" "st' = st\<lparr>kb_uploads := ups\<rparr>" "r = Inl e"
  | (committed) ups deleted u where "py_strip name \<noteq> []"
      "delete_files (ke_inside env) (upload_files_for_source (py_strip name) st) (kb_uploads st) [] = (ups, Inr deleted)"
      "commit env (filter (\<lambda>c. c_source c \<noteq> py_strip name) (kb_chunks st)) (st\<lparr>kb_uploads := ups\<rparr>) = (st', u)"
      "r = rbind u (\<lambda>_. Inr \<lparr>dr_source = py_strip name, dr_chunks_removed = length (kb_chunks st) -
         length (filter (\<lambda>c. c_source c \<noteq> py_strip name) (kb_chunks st)), dr_deleted_uploads = deleted\<rparr>)"
proof (cases "py_strip name = []")
  case True
  then show ?thesis using assms blank by (simp add: delete_source_def)
next
  case named: False
  obtain ups res where files: "delete_files (ke_inside env) (upload_files_for_source (py_strip name) st)
      (kb_uploads st) [] = (ups, res)" by fastforce
  show ?thesis
  proof (cases res)
    case (Inl e)
    then have "st' = st\<lparr>kb_uploads := ups\<rparr>" "r = Inl e"
      using assms named files by (auto simp: delete_source_def Let_def)
    then show ?thesis by (rule outside [OF named])
  next
    case (Inr deleted)
    obtain st2 u where "commit env (filter (\<lambda>c. c_source c \<noteq> py_strip name) (kb_chunks st))
        (st\<lparr>kb_uploads := ups\<rparr>) = (st2, u)" by fastforce
    then show ?thesis using assms named files Inr committed [of ups deleted u]
      by (simp add: delete_source_def Let_def)
  qed
qed

lemma delete_wf [inv_intros]:
  assumes "delete_source env name st = (st', r)" "kb_wf env st"
  shows "kb_wf env st'"
  using assms(1)
proof (cases rule: delete_cases)
  case (committed ups deleted u)
  then show ?thesis
    using commit_state [OF committed(3)] chunks_wf_filter assms(2) by (simp add: kb_wf_def)
qed (use assms(2) in \<open>simp_all add: kb_wf_def\<close>)

lemma delete_files_ok:
  "delete_files inside names ups deleted = (ups', Inr del) \<Longrightarrow>
   del = deleted @ names \<and> set ups' = set ups - set names"
  by (induction inside names ups deleted rule: delete_files.induct) (auto split: if_splits)

section \<open>The store of sources\<close>

definition source_chunks :: "chunk list \<Rightarrow> pystr \<Rightarrow> chunk list" where
  "source_chunks cs s = filter (\<lambda>c. c_source c = s) cs"

definition replace_source :: "pystr \<Rightarrow> chunk list \<Rightarrow> chunk list \<Rightarrow> chunk list" where
  "replace_source s new cs = filter (\<lambda>c. c_source c \<noteq> s) cs @ new"

definition remove_source :: "pystr \<Rightarrow> chunk list \<Rightarrow> chunk list" where
  "remove_source s cs = filter (\<lambda>c. c_source c \<noteq> s) cs"

definition all_of_source :: "pystr \<Rightarrow> chunk list \<Rightarrow> bool" where
  "all_of_source s cs \<longleftrightarrow> (\<forall>c\<in>set cs. c_source c = s)"

lemma source_filter_other [simp]:
  "filter (\<lambda>c. c_source c \<noteq> s \<and> c_source c = t) cs = (if t = s then [] else filter (\<lambda>c. c_source c = t) cs)"
  by (induction cs) auto

interpretation chunk_store: source_store source_chunks replace_source remove_source all_of_source
proof
  fix s t cs st
  assume own: "all_of_source s cs"
  have "filter (\<lambda>c. c_source c = t) cs = (if t = s then cs else [])"
    using own by (induction cs) (auto simp: all_of_source_def)
  then show "source_chunks (replace_source s cs st) t = (if t = s then cs else source_chunks st t)"
    by (simp add: source_chunks_def replace_source_def)
qed (simp add: source_chunks_def remove_source_def)

text \<open>A document change applied to the chunk list, as \<open>upsert_pdf\<close> and \<open>delete_source\<close> apply it.\<close>

fun apply_change :: "(pystr, chunk) change \<Rightarrow> chunk list \<Rightarrow> chunk list" where
  "apply_change (Upsert s new) cs = replace_source s new cs"
| "apply_change (Remove s) cs = remove_source s cs"

definition change_ok :: "(pystr, chunk) change \<Rightarrow> bool" where
  "change_ok e \<longleftrightarrow> all_of_source (change_source e) (change_items e)"

lemma apply_change_deliver: "apply_change = chunk_store.deliver"
proof (intro ext)
  fix e cs show "apply_change e cs = chunk_store.deliver e cs" by (cases e) simp_all
qed

lemma change_ok_owned: "change_ok e \<longleftrightarrow> chunk_store.owned e"
  by (cases e) (simp_all add: change_ok_def chunk_store.owned_def all_of_source_def)

lemma upsert_chunks:
  assumes "upsert_pdf env path s st = Some (st', Inr rep)"
  shows "\<exists>pages n new. ke_pdf env path = Inr pages \<and>
     chunks_from_reader (ke_cfg env) (ke_uuid env) s pages (kb_next st) = Some (n, new) \<and>
     kb_chunks st' = apply_change (Upsert s new) (kb_chunks st) \<and> ar_chunks_added rep = length new \<and>
     ar_total_chunks rep = length (kb_chunks st')"
  using assms unfolding upsert_pdf_def
proof (cases rule: ingest_cases)
  case (committed pages n new u)
  then show ?thesis using commit_state [OF committed(3)] by (cases u) (auto simp: replace_source_def)
qed simp

lemma delete_chunks:
  assumes "delete_source env name st = (st', Inr d)" "py_strip name \<noteq> []"
  shows "kb_chunks st' = apply_change (Remove (py_strip name)) (kb_chunks st) \<and>
     set (kb_uploads st') = set (kb_uploads st) - set (upload_files_for_source (py_strip name) st) \<and>
     dr_deleted_uploads d = upload_files_for_source (py_strip name) st \<and>
     dr_chunks_removed d = length (source_chunks (kb_chunks st) (py_strip name)) \<and> kb_synced env st'"
  using assms(1)
proof (cases rule: delete_cases)
  case (committed ups deleted u)
  have "length (kb_chunks st) = length (filter (\<lambda>c. c_source c = py_strip name) (kb_chunks st)) +
      length (filter (\<lambda>c. c_source c \<noteq> py_strip name) (kb_chunks st))"
    by (rule sum_length_filter_compl [symmetric])
  then show ?thesis
    using committed commit_ok [of env _ "st\<lparr>kb_uploads := ups\<rparr>" st'] delete_files_ok [OF committed(2)]
    by (cases u) (auto simp: remove_source_def source_chunks_def)
qed (use assms(2) in auto)

section \<open>Retries and restarts\<close>

lemma reader_strip:
  assumes "chunks_from_reader cfg uu s pages m = Some (m', a)" "chunks_from_reader cfg uu s pages n = Some (n', b)"
  shows "map strip_ids a = map strip_ids b"
  using chunks_from_reader_strip [of cfg uu s pages m n] assms by simp

lemma strip_ids_source [simp]: "c_source (strip_ids c) = c_source c"
  by (simp add: strip_ids_def)

lemma map_strip_filter:
  "map strip_ids (filter (\<lambda>c. P (c_source c)) cs) = filter (\<lambda>c. P (c_source c)) (map strip_ids cs)"
  by (simp add: filter_map comp_def)

lemma load_items_asdict:
  "\<forall>c\<in>set cs. c_id c \<noteq> [] \<and> c_parent_id c \<noteq> [] \<and> c_parent_content c \<noteq> [] \<and> c_strategy c \<noteq> [] \<Longrightarrow>
   load_items uu n (map asdict cs) = Inr cs"
  by (induction cs arbitrary: n) (simp_all add: chunk_from_dict_asdict)

definition uuids_nonempty :: "'v kb_env \<Rightarrow> bool" where
  "uuids_nonempty env \<longleftrightarrow> (\<forall>i. ke_uuid env i \<noteq> [])"

lemma fresh_nonempty:
  "uuids_nonempty env \<Longrightarrow> chunk_fresh (ke_uuid env) lo n c \<Longrightarrow> c_id c \<noteq> [] \<and> c_parent_id c \<noteq> []"
  unfolding uuids_nonempty_def chunk_fresh_def by metis

lemma load_items_wf:
  assumes "chunks_wf (ke_uuid env) n cs" "uuids_nonempty env"
  shows "load_items (ke_uuid env) m (map asdict cs) = Inr cs"
proof (rule load_items_asdict, intro ballI)
  fix c assume "c \<in> set cs"
  then have "chunk_fresh (ke_uuid env) 0 n c" "c_parent_content c \<noteq> []" "c_strategy c = CHUNKING_STRATEGY"
    using assms(1) by (simp_all add: chunks_wf_def)
  then show "c_id c \<noteq> [] \<and> c_parent_id c \<noteq> [] \<and> c_parent_content c \<noteq> [] \<and> c_strategy c \<noteq> []"
    using fresh_nonempty [OF assms(2)] by (simp add: CHUNKING_STRATEGY_def)
qed

text \<open>Opening on saved chunks and a saved index of the same length takes both over.\<close>

lemma kb_open_takes_over:
  assumes "chunks_wf (ke_uuid env) n cs" "uuids_nonempty env" "cs \<noteq> []"
    and "kb_saved st = Some (map asdict cs)" "kb_saved_index st = Some (ke_dim env, vs)" "length vs = length cs"
  shows "kb_open env st = (st\<lparr>kb_chunks := cs, kb_index := vs, kb_bm25 := bm25_rebuild (kb_bm25 st) cs,
     kb_next := kb_next st + 2 * length cs\<rparr>, Inr ())"
  using assms load_items_wf [OF assms(1,2)]
  by (simp add: kb_open_def load_chunks_def load_or_rebuild_index_def)

text \<open>Well-formed chunks group under their parents as the search expects.\<close>

lemma family_of_wf:
  assumes "chunks_wf (ke_uuid env) n cs" "uuids_nonempty env"
  shows "family_ok cs"
proof -
  have key: "parent_key c = c_parent_id c \<and> parent_text c = c_parent_content c" if "c \<in> set cs" for c
  proof -
    have "chunk_fresh (ke_uuid env) 0 n c" "c_parent_content c \<noteq> []"
      using assms(1) that by (simp_all add: chunks_wf_def)
    then show ?thesis
      using fresh_nonempty [OF assms(2)] by (simp add: parent_key_def parent_text_def str_or_def)
  qed
  have agree: "siblings_agree cs" using assms(1) by (simp add: chunks_wf_def)
  show ?thesis
    unfolding family_ok_def
  proof (intro ballI impI)
    fix c d assume cd: "c \<in> set cs" "d \<in> set cs" and eq: "parent_key c = parent_key d"
    have "c_parent_id c = c_parent_id d" using key [OF cd(1)] key [OF cd(2)] eq by simp
    then have "c_parent_content c = c_parent_content d \<and> c_source c = c_source d \<and> c_page c = c_page d"
      using agree cd unfolding siblings_agree_def by blast
    then show "parent_text c = parent_text d \<and> c_source c = c_source d \<and> c_page c = c_page d"
      using key [OF cd(1)] key [OF cd(2)] by simp
  qed
qed

section \<open>Uploads that survive a deletion\<close>

lemma delete_files_keep:
  "delete_files inside names ups deleted = (ups', r) \<Longrightarrow> u \<in> set ups \<Longrightarrow> u \<notin> set names \<Longrightarrow> u \<in> set ups'"
  by (induction inside names ups deleted rule: delete_files.induct) (auto split: if_splits)

lemma delete_keeps_upload:
  assumes "delete_source env name st = (st1, r)" "u \<in> set (kb_uploads st)"
    and "display_source_name u \<noteq> py_strip name" "u \<noteq> py_strip name"
  shows "u \<in> set (kb_uploads st1)"
proof (cases "py_strip name = []")
  case True
  then show ?thesis using assms by (simp add: delete_source_def)
next
  case False
  obtain ups res where files: "delete_files (ke_inside env) (upload_files_for_source (py_strip name) st)
      (kb_uploads st) [] = (ups, res)" by fastforce
  have keep: "u \<in> set ups"
    using delete_files_keep [OF files assms(2)] assms(3,4) by (simp add: upload_files_for_source_def)
  show ?thesis
    using assms(1) False files keep commit_state [of env _ "st\<lparr>kb_uploads := ups\<rparr>"]
    by (cases res) (auto simp: delete_source_def Let_def split: prod.splits)
qed

lemma read_uploads_sources:
  "read_uploads env names acc = Some (Inr rep) \<Longrightarrow>
   rb_sources rep = rb_sources acc @ map display_source_name names"
  by (induction env names acc rule: read_uploads.induct)
    (auto simp: Let_def split: sum.splits option.splits)

lemma rebuild_lists_upload:
  assumes "rebuild_from_uploads env st = Some (st', Inr rep)" "u \<in> set (kb_uploads st)" "ends_with u (asc ''.pdf'')"
  shows "display_source_name u \<in> set (rb_sources rep)"
  using assms(1)
proof (cases rule: rebuild_cases)
  case (committed rep' v)
  have "rb_sources rep' = map display_source_name (pdf_uploads st)"
    using read_uploads_sources [OF committed(1)] by simp
  moreover have "rep' = rep" using committed(3) by (cases v) simp_all
  ultimately show ?thesis using assms(2,3) by (simp add: pdf_uploads_def)
qed simp

section \<open>A small environment for the examples\<close>

definition demo_text :: pystr where
  "demo_text = (asc ''Hello world.'')"

definition demo_env :: "pystr kb_env" where
  "demo_env = \<lparr>ke_cfg = default_kb_config, ke_uuid = show_nat, ke_hex = (\<lambda>_. replicate 32 97),
     ke_pdf = (\<lambda>_. Inr [Some demo_text]), ke_embed = (\<lambda>ts. Inr ts), ke_dim = 1, ke_inside = (\<lambda>_. True)\<rparr>"

definition demo_kb :: "pystr kb" where
  "demo_kb = \<lparr>kb_chunks = [], kb_saved = None, kb_index = [], kb_saved_index = None,
     kb_bm25 = bm25_init True (3/2) (3/4), kb_uploads = [], kb_next = 0\<rparr>"

lemma ke_inside_demo: "ke_inside demo_env = (\<lambda>_. True)"
  by (simp add: demo_env_def)

lemma demo_env_ok: "env_ok demo_env" "uuids_nonempty demo_env"
  by (simp_all add: env_ok_def uuids_nonempty_def demo_env_def config_ok_def default_kb_config_def inj_def)

lemma demo_kb_wf: "kb_wf demo_env demo_kb"
  by (simp add: kb_wf_def chunks_wf_def siblings_agree_def demo_kb_def)

definition demo_chunk :: "nat \<Rightarrow> pystr \<Rightarrow> chunk" where
  "demo_chunk n source = \<lparr>c_id = show_nat (n + 1), c_content = demo_text, c_source = source, c_page = 1,
     c_chunk_index = 0, c_parent_id = show_nat n, c_parent_content = demo_text, c_parent_index = 0,
     c_child_index = 0, c_strategy = CHUNKING_STRATEGY\<rparr>"

lemma demo_reader:
  "chunks_from_reader default_kb_config show_nat source [Some demo_text] n =
     Some (n + 2, [demo_chunk n source])"
proof -
  have "clean_text demo_text = demo_text" by code_simp
  moreover have "split_text demo_text 2200 260 = Some [demo_text]" by code_simp
  moreover have "split_text demo_text 520 90 = Some [demo_text]" by code_simp
  ultimately show ?thesis
    by (simp add: chunks_from_reader_def default_kb_config_def make_child_def demo_chunk_def)
qed

lemma demo_upsert:
  "\<exists>st' rep. upsert_pdf demo_env path source st = Some (st', Inr rep) \<and>
     kb_chunks st' = filter (\<lambda>c. c_source c \<noteq> source) (kb_chunks st) @ [demo_chunk (kb_next st) source]"
  by (simp add: upsert_pdf_def ingest_pdf_def demo_env_def demo_reader commit_def rebuild_index_def
      save_chunks_def split_def)

lemma demo_add:
  "\<exists>st' rep. add_pdf demo_env path source st = Some (st', Inr rep) \<and>
     kb_chunks st' = kb_chunks st @ [demo_chunk (kb_next st) source]"
  by (simp add: add_pdf_def ingest_pdf_def demo_env_def demo_reader commit_def rebuild_index_def
      save_chunks_def Let_def)

lemma demo_commit: "\<exists>st'. commit demo_env cs st = (st', Inr ())"
  by (simp add: commit_def rebuild_index_def save_chunks_def demo_env_def)

lemma demo_delete_files: "\<exists>ups' del'. delete_files (\<lambda>_. True) names ups del = (ups', Inr del')"
  by (induction names arbitrary: ups del) simp_all

lemma demo_delete: "\<exists>st' d. delete_source demo_env name st = (st', Inr d)"
proof (cases "py_strip name = []")
  case False
  obtain ups del where files: "delete_files (\<lambda>_. True) (upload_files_for_source (py_strip name) st)
      (kb_uploads st) [] = (ups, Inr del)" using demo_delete_files by blast
  obtain st' where "commit demo_env (filter (\<lambda>c. c_source c \<noteq> py_strip name) (kb_chunks st))
      (st\<lparr>kb_uploads := ups\<rparr>) = (st', Inr ())" using demo_commit by blast
  then show ?thesis using files False by (simp add: delete_source_def Let_def ke_inside_demo)
qed (simp add: delete_source_def)

lemma demo_read_uploads: "\<exists>rep. read_uploads demo_env names acc = Some (Inr rep)"
  by (induction names arbitrary: acc) (simp_all add: demo_env_def demo_reader Let_def)

lemma demo_rebuild: "\<exists>st' rep. rebuild_from_uploads demo_env st = Some (st', Inr rep)"
proof -
  obtain rep where "read_uploads demo_env (pdf_uploads st)
      \<lparr>rb_sources = [], rb_pages = 0, rb_chunks = [], rb_next = kb_next st\<rparr> = Some (Inr rep)"
    using demo_read_uploads by blast
  then show ?thesis
    by (simp add: rebuild_from_uploads_def commit_def rebuild_index_def save_chunks_def demo_env_def split_def)
qed

section \<open>Properties\<close>

text \<open>C3: every mutation that returns normally leaves the files, the vector index and the BM25 index
  in step with the chunk list: the saved chunks are the chunk list, the vectors are the embedding
  of its texts in order, the saved index is the index in use, BM25 is rebuilt.\<close>

theorem kb_operations_sync:
  "(add_pdf env path s st = Some (st', Inr rep) \<longrightarrow> kb_synced env st') \<and>
   (upsert_pdf env path s st = Some (st', Inr rep) \<longrightarrow> kb_synced env st') \<and>
   (rebuild_from_uploads env st = Some (st', Inr rb) \<longrightarrow> kb_synced env st') \<and>
   (delete_source env s st = (st', Inr d) \<and> py_strip s \<noteq> [] \<longrightarrow> kb_synced env st') \<and>
   (clear env st = (st', Inr u) \<longrightarrow> kb_synced env st' \<and> kb_chunks st' = [])"
  using ingest_synced [of _ env path s st st' rep] rebuild_synced [of env st st' rb]
    delete_chunks [of env s st st' d] commit_ok [of env "[]" st st']
  unfolding add_pdf_def upsert_pdf_def clear_def by blast

theorem kb_operations_sync_witness:
  "\<exists>st' rep. upsert_pdf demo_env (asc ''p'') (asc ''a.pdf'') demo_kb = Some (st', Inr rep) \<and> kb_synced demo_env st'"
  using demo_upsert [of "(asc ''p'')" "(asc ''a.pdf'')" demo_kb] kb_operations_sync [of demo_env "(asc ''p'')" "(asc ''a.pdf'')" demo_kb]
  by blast

text \<open>Every operation keeps the chunk list well formed (identifiers drawn once, children of one parent
  agreeing, no empty text), whether or not it raises; ingestion returns for positive sizes.\<close>

theorem kb_operations_wf:
  assumes "env_ok env" "kb_wf env st"
  shows "(\<exists>st' r. add_pdf env path s st = Some (st', r) \<and> kb_wf env st') \<and>
     (\<exists>st' r. upsert_pdf env path s st = Some (st', r) \<and> kb_wf env st') \<and>
     (\<forall>st' r. rebuild_from_uploads env st = Some (st', r) \<longrightarrow> kb_wf env st') \<and>
     kb_wf env (fst (delete_source env s st)) \<and> kb_wf env (fst (clear env st))"
proof -
  have "kb_wf env (fst (clear env st))"
    using commit_state [of env "[]" st] by (cases "commit env [] st")
      (auto simp: clear_def kb_wf_def chunks_wf_def siblings_agree_def)
  moreover have "kb_wf env (fst (delete_source env s st))"
    using delete_wf [of env s st] assms(2) by (cases "delete_source env s st") auto
  moreover have "\<exists>st' r. ingest_pdf keep env path s st = Some (st', r) \<and> kb_wf env st'" for keep
    using ingest_returns [OF assms(1)] ingest_wf [OF assms] by blast
  ultimately show ?thesis
    using rebuild_wf [OF assms(1) _ assms(2)] unfolding add_pdf_def upsert_pdf_def by blast
qed

theorem kb_operations_wf_witness:
  "\<exists>st' r. add_pdf demo_env (asc ''p'') (asc ''a.pdf'') demo_kb = Some (st', r) \<and> kb_wf demo_env st'"
  using kb_operations_wf [OF demo_env_ok(1) demo_kb_wf] by blast

text \<open>A successful upsert replaces exactly the chunks of its source by those of the parsed file and
  leaves every other source's chunks, and their order, alone; the counts it reports are right.\<close>

theorem upsert_pdf_replaces:
  assumes "env_ok env" "upsert_pdf env path s st = Some (st', Inr rep)"
  shows "\<exists>pages n new. ke_pdf env path = Inr pages \<and>
     chunks_from_reader (ke_cfg env) (ke_uuid env) s pages (kb_next st) = Some (n, new) \<and>
     (\<forall>t. source_chunks (kb_chunks st') t = (if t = s then new else source_chunks (kb_chunks st) t)) \<and>
     ar_chunks_added rep = length new \<and> ar_total_chunks rep = length (kb_chunks st')"
proof -
  obtain pages n new where run: "ke_pdf env path = Inr pages"
    "chunks_from_reader (ke_cfg env) (ke_uuid env) s pages (kb_next st) = Some (n, new)"
    "kb_chunks st' = apply_change (Upsert s new) (kb_chunks st)" "ar_chunks_added rep = length new"
    "ar_total_chunks rep = length (kb_chunks st')"
    using upsert_chunks [OF assms(2)] by blast
  have "all_of_source s new"
    using gen_of_reader [OF assms(1) run(2)] by (simp add: gen_inv_def all_of_source_def)
  then show ?thesis using run chunk_store.view_replace [of s new "kb_chunks st"] by auto
qed

theorem upsert_pdf_replaces_witness:
  "\<exists>st' rep n new. upsert_pdf demo_env (asc ''p'') (asc ''a.pdf'') demo_kb = Some (st', Inr rep) \<and>
     source_chunks (kb_chunks st') (asc ''a.pdf'') = new \<and> ar_chunks_added rep = length new"
  using demo_upsert [of "(asc ''p'')" "(asc ''a.pdf'')" demo_kb]
    upsert_pdf_replaces [OF demo_env_ok(1), of "(asc ''p'')" "(asc ''a.pdf'')" demo_kb] by metis

text \<open>C4: upserting the same file again changes nothing but the drawn identifiers: the chunk list
  keeps its texts, sources, pages, positions and order.\<close>

theorem upsert_pdf_idempotent:
  assumes "env_ok env" "upsert_pdf env path s st = Some (st1, Inr rep1)"
    and "upsert_pdf env path s st1 = Some (st2, Inr rep2)"
  shows "map strip_ids (kb_chunks st2) = map strip_ids (kb_chunks st1) \<and> ar_total_chunks rep2 = ar_total_chunks rep1"
proof -
  obtain pages n new where a: "ke_pdf env path = Inr pages"
    "chunks_from_reader (ke_cfg env) (ke_uuid env) s pages (kb_next st) = Some (n, new)"
    "kb_chunks st1 = apply_change (Upsert s new) (kb_chunks st)" "ar_total_chunks rep1 = length (kb_chunks st1)"
    using upsert_chunks [OF assms(2)] by blast
  obtain n' new' where b:
    "chunks_from_reader (ke_cfg env) (ke_uuid env) s pages (kb_next st1) = Some (n', new')"
    "kb_chunks st2 = apply_change (Upsert s new') (kb_chunks st1)" "ar_total_chunks rep2 = length (kb_chunks st2)"
    using upsert_chunks [OF assms(3)] a(1) by auto
  have "\<forall>c\<in>set new. c_source c = s" using gen_of_reader [OF assms(1) a(2)] by (simp add: gen_inv_def)
  then have "kb_chunks st2 = filter (\<lambda>c. c_source c \<noteq> s) (kb_chunks st) @ new'"
    using a(3) b(2) by (simp add: replace_source_def filter_empty_conv)
  moreover have "map strip_ids new' = map strip_ids new" by (rule reader_strip [OF b(1) a(2)])
  ultimately have "map strip_ids (kb_chunks st2) = map strip_ids (kb_chunks st1)"
    using a(3) by (simp add: replace_source_def)
  then show ?thesis using a(4) b(3) by (metis length_map)
qed

theorem upsert_pdf_idempotent_witness:
  "\<exists>st1 rep1 st2 rep2. upsert_pdf demo_env (asc ''p'') (asc ''a.pdf'') demo_kb = Some (st1, Inr rep1) \<and>
     upsert_pdf demo_env (asc ''p'') (asc ''a.pdf'') st1 = Some (st2, Inr rep2) \<and>
     map strip_ids (kb_chunks st2) = map strip_ids (kb_chunks st1)"
  using demo_upsert [of "(asc ''p'')" "(asc ''a.pdf'')"] upsert_pdf_idempotent [OF demo_env_ok(1), of "(asc ''p'')" "(asc ''a.pdf'')" demo_kb]
  by metis

text \<open>Document changes are delivered at least once. For well-formed changes, redelivering any suffix
  of the sequence leaves every source as one delivery does, and the last change about a source
  decides what it holds.\<close>

theorem change_redelivery:
  assumes "\<forall>e\<in>set (xs @ ys). change_ok e"
  shows "source_chunks (fold apply_change (xs @ ys @ ys) cs) t = source_chunks (fold apply_change (xs @ ys) cs) t \<and>
     source_chunks (fold apply_change ys cs) t = (case find (\<lambda>e. change_source e = t) (rev ys) of
        None \<Rightarrow> source_chunks cs t | Some e \<Rightarrow> change_items e)"
  using chunk_store.view_redelivery [of xs ys cs t] chunk_store.view_fold [of ys cs t] assms
  by (simp add: apply_change_deliver change_ok_owned)

theorem change_redelivery_witness:
  "source_chunks (fold apply_change [Upsert (asc ''a'') [demo_chunk 0 (asc ''a'')], Remove (asc ''a''), Remove (asc ''a'')] []) (asc ''a'') = []"
  using change_redelivery [of "[Upsert (asc ''a'') [demo_chunk 0 (asc ''a'')]]" "[Remove (asc ''a'')]" "[]" "(asc ''a'')"]
  by (simp add: change_ok_def all_of_source_def demo_chunk_def source_chunks_def remove_source_def)

text \<open>\<open>add_pdf\<close> is not safe to retry. When the embedding fails after the new chunks were
  added and saved, a second call that succeeds leaves the document's chunks in the list twice.\<close>

theorem add_pdf_retry_duplicates:
  assumes "ke_pdf env path = Inr pages"
    and "chunks_from_reader (ke_cfg env) (ke_uuid env) s pages (kb_next st) = Some (n, new)" "new \<noteq> []"
    and "ke_embed env (map c_content (kb_chunks st @ new)) = Inl e"
    and "add_pdf (env\<lparr>ke_embed := emb\<rparr>) path s (fst (the (add_pdf env path s st))) = Some (st2, Inr rep)"
  shows "snd (the (add_pdf env path s st)) = Inl e \<and>
     map strip_ids (kb_chunks st2) =
       map strip_ids (kb_chunks st) @ map strip_ids new @ map strip_ids new"
proof -
  define st1 where "st1 = st\<lparr>kb_next := n, kb_chunks := kb_chunks st @ new,
    kb_saved := Some (map asdict (kb_chunks st @ new))\<rparr>"
  have first: "add_pdf env path s st = Some (st1, Inl e)"
    using assms(1-4) commit_fails [of "kb_chunks st @ new" env e "st\<lparr>kb_next := n\<rparr>"]
    by (simp add: add_pdf_def ingest_pdf_def st1_def)
  then have "add_pdf (env\<lparr>ke_embed := emb\<rparr>) path s st1 = Some (st2, Inr rep)" using assms(5) by simp
  then obtain n' new' where second: "chunks_from_reader (ke_cfg env) (ke_uuid env) s pages (kb_next st1) = Some (n', new')"
    "kb_chunks st2 = kb_chunks st1 @ new'"
    unfolding add_pdf_def
  proof (cases rule: ingest_cases)
    case (committed pages' m' new' u)
    then show ?thesis using that [of m' new'] commit_state [OF committed(3)] assms(1) by simp
  qed simp
  have "map strip_ids new' = map strip_ids new" by (rule reader_strip [OF second(1) assms(2)])
  then show ?thesis using first second(2) by (simp add: st1_def)
qed

theorem add_pdf_retry_duplicates_witness:
  "\<exists>st2 rep. add_pdf demo_env (asc ''p'') (asc ''a.pdf'')
       (fst (the (add_pdf (demo_env\<lparr>ke_embed := (\<lambda>_. Inl (OtherError []))\<rparr>) (asc ''p'') (asc ''a.pdf'') demo_kb))) = Some (st2, Inr rep) \<and>
     length (kb_chunks st2) = 2"
proof -
  let ?bad = "demo_env\<lparr>ke_embed := (\<lambda>_. Inl (OtherError []))\<rparr>"
  let ?st1 = "fst (the (add_pdf ?bad (asc ''p'') (asc ''a.pdf'') demo_kb))"
  have pages: "ke_pdf ?bad (asc ''p'') = Inr [Some demo_text]" by (simp add: demo_env_def)
  have read: "chunks_from_reader (ke_cfg ?bad) (ke_uuid ?bad) (asc ''a.pdf'') [Some demo_text] (kb_next demo_kb) =
      Some (2, [demo_chunk 0 (asc ''a.pdf'')])" by (simp add: demo_env_def demo_reader demo_kb_def)
  have again: "?bad\<lparr>ke_embed := (\<lambda>ts. Inr ts)\<rparr> = demo_env" by (simp add: demo_env_def)
  have "\<exists>st2 rep. add_pdf demo_env (asc ''p'') (asc ''a.pdf'') ?st1 = Some (st2, Inr rep)"
    by (simp add: add_pdf_def ingest_pdf_def demo_env_def demo_reader commit_def rebuild_index_def
        save_chunks_def split_def)
  then obtain st2 rep where run: "add_pdf demo_env (asc ''p'') (asc ''a.pdf'') ?st1 = Some (st2, Inr rep)" by blast
  then have "map strip_ids (kb_chunks st2) = map strip_ids (kb_chunks demo_kb) @
      map strip_ids [demo_chunk 0 (asc ''a.pdf'')] @ map strip_ids [demo_chunk 0 (asc ''a.pdf'')]"
    using add_pdf_retry_duplicates [OF pages read, of "OtherError []" "\<lambda>ts. Inr ts" st2 rep] again by simp
  from arg_cong [OF this, of length] have "length (kb_chunks st2) = 2" by (simp add: demo_kb_def)
  then show ?thesis using run by blast
qed

text \<open>Deleting a source removes all its chunks and no other, removes exactly the uploads whose
  display name or file name is the source, reports both, and leaves the index in step; deleting a
  blank name changes nothing.\<close>

theorem delete_source_correct:
  assumes "delete_source env name st = (st', Inr d)"
  shows "if py_strip name = [] then st' = st
     else kb_chunks st' = filter (\<lambda>c. c_source c \<noteq> py_strip name) (kb_chunks st) \<and>
       set (kb_uploads st') = set (kb_uploads st) - {f. (display_source_name f = py_strip name \<or> f = py_strip name) \<and>
         ends_with f (asc ''.pdf'')} \<and>
       dr_chunks_removed d = length (source_chunks (kb_chunks st) (py_strip name)) \<and> kb_synced env st'"
  using assms delete_chunks [OF assms]
  by (auto simp: remove_source_def upload_files_for_source_def pdf_uploads_def delete_source_def Let_def)

theorem delete_source_correct_witness:
  "kb_chunks (fst (delete_source demo_env (asc '' a.pdf '') (demo_kb\<lparr>kb_chunks := [demo_chunk 0 (asc ''a.pdf''), demo_chunk 2 (asc ''b.pdf'')]\<rparr>))) =
     [demo_chunk 2 (asc ''b.pdf'')]"
proof -
  let ?st = "demo_kb\<lparr>kb_chunks := [demo_chunk 0 (asc ''a.pdf''), demo_chunk 2 (asc ''b.pdf'')]\<rparr>"
  have strip: "py_strip (asc '' a.pdf '') = (asc ''a.pdf'')" by code_simp
  obtain st' d where run: "delete_source demo_env (asc '' a.pdf '') ?st = (st', Inr d)"
    using demo_delete [of "(asc '' a.pdf '')" ?st] by blast
  show ?thesis using delete_source_correct [OF run] run unfolding strip by (simp add: demo_chunk_def)
qed

text \<open>A document whose file name was changed by the sanitising of \<open>save_upload\<close> cannot be
  deleted completely: deleting it under its own name leaves its upload in place, and the next
  rebuild from the uploads indexes the document again, under the sanitised name.\<close>

theorem delete_source_keeps_renamed_upload:
  assumes "length hex = 32" "\<forall>c\<in>set hex. is_hex c" "safe_name f \<noteq> py_strip f" "upload_name hex f \<noteq> py_strip f"
    and "upload_name hex f \<in> set (kb_uploads st)" "ends_with (upload_name hex f) (asc ''.pdf'')"
    and "delete_source env f st = (st1, r)" "rebuild_from_uploads env st1 = Some (st2, Inr rep)"
  shows "upload_name hex f \<in> set (kb_uploads st1) \<and> safe_name f \<in> set (rb_sources rep)"
proof -
  have disp: "display_source_name (upload_name hex f) = safe_name f"
    using display_prefix [OF assms(1,2)] by (simp add: upload_name_def)
  have keep: "upload_name hex f \<in> set (kb_uploads st1)"
    using delete_keeps_upload [OF assms(7,5)] assms(3,4) disp by simp
  have "safe_name f \<in> set (rb_sources rep)"
    using rebuild_lists_upload [OF assms(8) keep assms(6)] disp by simp
  with keep show ?thesis by blast
qed

theorem delete_source_keeps_renamed_upload_witness:
  "\<exists>st1 r st2 rep. delete_source demo_env (asc ''my file.pdf'')
      (demo_kb\<lparr>kb_uploads := [upload_name (replicate 32 97) (asc ''my file.pdf'')]\<rparr>) = (st1, r) \<and>
     rebuild_from_uploads demo_env st1 = Some (st2, Inr rep) \<and> (asc ''my_file.pdf'') \<in> set (rb_sources rep)"
proof -
  let ?f = "(asc ''my file.pdf'')" and ?hex = "replicate 32 (97 :: int)"
  let ?st = "demo_kb\<lparr>kb_uploads := [upload_name ?hex ?f]\<rparr>"
  have safe: "safe_name ?f = (asc ''my_file.pdf'')" and strip: "py_strip ?f = ?f" by code_simp+
  have name: "upload_name ?hex ?f = ?hex @ (asc ''_my_file.pdf'')" unfolding upload_name_def safe by simp
  have pdf: "ends_with (upload_name ?hex ?f) (asc ''.pdf'')" unfolding name by code_simp
  have disp: "display_source_name (upload_name ?hex ?f) = (asc ''my_file.pdf'')"
    using display_prefix [of ?hex "(asc ''my_file.pdf'')"] unfolding name by (simp add: is_hex_def)
  have ne: "(asc ''my_file.pdf'') \<noteq> ?f" "upload_name ?hex ?f \<noteq> ?f" unfolding name by code_simp+
  obtain st1 r where del: "delete_source demo_env ?f ?st = (st1, r)" by fastforce
  obtain st2 rep where re: "rebuild_from_uploads demo_env st1 = Some (st2, Inr rep)"
    using demo_rebuild [of st1] by blast
  show ?thesis
    using delete_source_keeps_renamed_upload [of ?hex ?f ?st demo_env st1 r st2 rep] del re pdf ne
    unfolding safe strip by (auto simp: is_hex_def)
qed

text \<open>A new process: nothing in memory but an empty BM25 index with the same parameters.\<close>

definition fresh_process :: "'v kb \<Rightarrow> 'v kb" where
  "fresh_process st = st\<lparr>kb_chunks := [], kb_index := [],
     kb_bm25 := bm25_init (bm_enabled (kb_bm25 st)) (bm_k1 (kb_bm25 st)) (bm_b (kb_bm25 st))\<rparr>"

lemma bm25_rebuild_init:
  "bm25_rebuild (bm25_init (bm_enabled i) (bm_k1 i) (bm_b i)) cs = bm25_rebuild i cs"
  by (simp add: bm25_rebuild_def bm25_init_def Let_def)

text \<open>C38: a restart on the files of a synchronised, well-formed knowledge base restores its chunks,
  vectors and BM25 index without asking the embedding. The new process begins with no chunks, no
  vectors and an empty BM25 index of the same parameters (\<open>fresh_process\<close>); it ends with the same chunks,
  the same vectors and the index built from the chunks, whatever the embedding would do.\<close>

theorem kb_restart_restores:
  assumes "kb_synced env st" "kb_wf env st" "uuids_nonempty env" "kb_chunks st \<noteq> []"
    and "\<And>ts vs. ke_embed env ts = Inr vs \<Longrightarrow> length vs = length ts"
  shows "kb_open (env\<lparr>ke_embed := emb\<rparr>) (fresh_process st) =
     (st\<lparr>kb_next := kb_next st + 2 * length (kb_chunks st)\<rparr>, Inr ())"
proof -
  have "length (kb_index st) = length (kb_chunks st)"
    using assms(1,4) assms(5) [of "map c_content (kb_chunks st)" "kb_index st"] by (simp add: kb_synced_def)
  moreover have "uuids_nonempty (env\<lparr>ke_embed := emb\<rparr>)" using assms(3) by (simp add: uuids_nonempty_def)
  ultimately show ?thesis
    using kb_open_takes_over [of "env\<lparr>ke_embed := emb\<rparr>" "kb_next st" "kb_chunks st" "fresh_process st" "kb_index st"]
      assms(1,2,4)
    by (simp add: kb_synced_def kb_wf_def fresh_process_def bm25_rebuild_init)
qed

theorem kb_restart_restores_witness:
  "\<exists>st. kb_chunks st = [demo_chunk 0 (asc ''a.pdf'')] \<and>
     kb_chunks (fst (kb_open (demo_env\<lparr>ke_embed := (\<lambda>_. Inl (OtherError []))\<rparr>) (fresh_process st))) = [demo_chunk 0 (asc ''a.pdf'')] \<and>
     bm_doc_count (kb_bm25 (fresh_process st)) = 0 \<and>
     bm_doc_count (kb_bm25 (fst (kb_open (demo_env\<lparr>ke_embed := (\<lambda>_. Inl (OtherError []))\<rparr>) (fresh_process st)))) = 1"
proof -
  obtain st rep where run: "upsert_pdf demo_env (asc ''p'') (asc ''a.pdf'') demo_kb = Some (st, Inr rep)"
    "kb_chunks st = [demo_chunk 0 (asc ''a.pdf'')]"
    using demo_upsert [of "(asc ''p'')" "(asc ''a.pdf'')" demo_kb] by (auto simp: demo_kb_def)
  have base: "kb_synced demo_env st" "kb_wf demo_env st"
    using run(1) ingest_synced ingest_wf [OF demo_env_ok(1) demo_kb_wf] unfolding upsert_pdf_def by blast+
  then have "kb_bm25 st = bm25_rebuild (kb_bm25 st) [demo_chunk 0 (asc ''a.pdf'')]" using run(2) by (simp add: kb_synced_def)
  then have one: "bm_doc_count (kb_bm25 st) = 1" using bm25_rebuild_simps(4) [of "kb_bm25 st" "[demo_chunk 0 (asc ''a.pdf'')]"] by simp
  show ?thesis
    using kb_restart_restores [OF base demo_env_ok(2), of "\<lambda>_. Inl (OtherError [])"] run(2) one
    by (intro exI [of _ st]) (simp add: demo_env_def fresh_process_def bm25_init_def del: asc_Cons)
qed

text \<open>The restart compares only the number of vectors. When the embedding fails while a
  mutation replaces the chunks by as many others, the chunk file is new and the index file old, and
  the next start pairs the new chunks with the old vectors, raising nothing.\<close>

theorem restart_accepts_stale_index:
  assumes "kb_saved_index st = Some (ke_dim env, vs)" "length vs = length cs" "cs \<noteq> []"
    and "chunks_wf (ke_uuid env) n cs" "uuids_nonempty env" "ke_embed env (map c_content cs) = Inl e"
  shows "\<exists>st1 st2. commit env cs st = (st1, Inl e) \<and> kb_open env st1 = (st2, Inr ()) \<and>
     kb_chunks st2 = cs \<and> kb_index st2 = vs"
  using commit_fails [OF assms(3,6), of st]
    kb_open_takes_over [OF assms(4,5,3), of "st\<lparr>kb_chunks := cs, kb_saved := Some (map asdict cs)\<rparr>" vs] assms(1,2)
  by simp

theorem restart_accepts_stale_index_witness:
  "\<exists>st1 st2. commit (demo_env\<lparr>ke_embed := (\<lambda>_. Inl (OtherError []))\<rparr>) [demo_chunk 0 (asc ''a.pdf'')]
       (demo_kb\<lparr>kb_saved_index := Some (1, [(asc ''old'')])\<rparr>) = (st1, Inl (OtherError [])) \<and>
     kb_open (demo_env\<lparr>ke_embed := (\<lambda>_. Inl (OtherError []))\<rparr>) st1 = (st2, Inr ()) \<and>
     kb_index st2 = [(asc ''old'')]"
proof -
  have fresh: "chunk_fresh show_nat 0 2 (demo_chunk 0 s)" for s
    by (auto simp: chunk_fresh_def demo_chunk_def intro: exI [of _ "1 :: nat"] exI [of _ "0 :: nat"])
  have "chunks_wf show_nat 2 [demo_chunk 0 (asc ''a.pdf'')]"
    using fresh unfolding chunks_wf_def siblings_agree_def by (simp add: demo_chunk_def demo_text_def)
  then show ?thesis
    using restart_accepts_stale_index [of "demo_kb\<lparr>kb_saved_index := Some (1, [(asc ''old'')])\<rparr>"
        "demo_env\<lparr>ke_embed := (\<lambda>_. Inl (OtherError []))\<rparr>" "[(asc ''old'')]" "[demo_chunk 0 (asc ''a.pdf'')]" 2 "OtherError []"]
    by (auto simp: demo_env_def uuids_nonempty_def)
qed

text \<open>The statistics hold the number of chunks under \<open>chunks\<close> and the sorted, duplicate-free sources;
  they have no entry \<open>total_chunks\<close> or \<open>total_documents\<close>, which the upload endpoint and the health
  task read with default 0.\<close>

theorem kb_stats_keys:
  "json_get (kb_stats cfg scfg rest st) (asc ''chunks'') = Inr (JInt (int (length (kb_chunks st)))) \<and>
   json_get_or (kb_stats cfg scfg rest st) (asc ''total_chunks'') (JInt 0) = Inr (JInt 0) \<and>
   json_get_or (kb_stats cfg scfg rest st) (asc ''total_documents'') (JInt 0) = Inr (JInt 0)"
  by (simp add: kb_stats_def json_get_def Let_def)

end
