(* ===== verification/Ranked_System.thy ===== *)
theory Ranked_System
  imports Prelude
begin

text \<open>
  Step relations that end: every step lowers a rank. The locale's lemmas bound the length of runs and
  give a final configuration; with a step that is also deterministic the final one is unique.
\<close>

locale ranked_system =
  fixes step :: "'c \<Rightarrow> 'c \<Rightarrow> bool"
    and rank :: "'c \<Rightarrow> nat"
  assumes rank_step: "step c c' \<Longrightarrow> rank c' < rank c"
begin

definition final :: "'c \<Rightarrow> bool" where
  "final c \<longleftrightarrow> (\<forall>c'. \<not> step c c')"

lemma steps_bound: "(step ^^ n) c c' \<Longrightarrow> n + rank c' \<le> rank c"
proof (induction n arbitrary: c')
  case (Suc n)
  then obtain d where "(step ^^ n) c d" "step d c'" by auto
  with Suc.IH [of d] rank_step [of d c'] show ?case by simp
qed simp

lemma reaches_final: "\<exists>n c'. n \<le> rank c \<and> (step ^^ n) c c' \<and> final c'"
proof (induction "rank c" arbitrary: c rule: less_induct)
  case less
  show ?case
  proof (cases "final c")
    case True
    then show ?thesis by (intro exI [of _ 0] exI [of _ c]) simp
  next
    case False
    then obtain d where d: "step c d" by (auto simp: final_def)
    obtain n c' where "(step ^^ n) d c'" "final c'" using less.hyps [OF rank_step [OF d]] by blast
    then have "(step ^^ Suc n) c c'" using d by (metis relpowp_Suc_I2)
    then show ?thesis using steps_bound [of "Suc n" c c'] \<open>final c'\<close> by (metis add_leE)
  qed
qed

end

locale deterministic_system = ranked_system +
  assumes step_unique: "step c d \<Longrightarrow> step c e \<Longrightarrow> d = e"
begin

lemma final_unique:
  "step\<^sup>*\<^sup>* c d \<Longrightarrow> step\<^sup>*\<^sup>* c e \<Longrightarrow> final d \<Longrightarrow> final e \<Longrightarrow> d = e"
proof (induction arbitrary: e rule: converse_rtranclp_induct)
  case base
  then show ?case by (metis final_def converse_rtranclpE)
next
  case (step c c')
  from step.prems(1) show ?case
  proof (cases rule: converse_rtranclpE)
    case base
    then show ?thesis using step.hyps(1) step.prems(3) by (simp add: final_def)
  next
    case (step y)
    then have "y = c'" using step_unique \<open>step c c'\<close> by blast
    then show ?thesis using step step.IH step.prems by blast
  qed
qed

end

end
