(* ===== verification/Routing.thy ===== *)
theory Routing
  imports Retrieval
begin

text \<open>
  Question routing and the evidence test of \<open>backend/graph.py\<close>: the marker lists, \<open>choose_route\<close>
  (documents before web before direct answers), \<open>local_results_confident\<close>, and the reading of
  Tavily's answers.
\<close>

section \<open>Routes\<close>

datatype route = Auto | Local | Web | Model

definition web_markers :: "pystr list" where
  "web_markers =
     [[0x5929, 0x6c14], [0x6c14, 0x6e29], [0x4e0b, 0x96e8], [0x964d, 0x96e8], [0x53f0, 0x98ce],
         [0x7a7a, 0x6c14, 0x8d28, 0x91cf], [0x80a1, 0x4ef7], [0x80a1, 0x7968], [0x6c47, 0x7387],
         [0x5e01, 0x4ef7], [0x4ef7, 0x683c], [0x8d5b, 0x4e8b],
      [0x8d5b, 0x7a0b], [0x8054, 0x7f51], [0x7f51, 0x4e0a], [0x5168, 0x7f51], [0x641c, 0x7d22,
          0x4e00, 0x4e0b], [0x67e5, 0x4e00, 0x4e0b, 0x6700, 0x65b0], [0x6700, 0x65b0], [0x4eca,
          0x5929], [0x5b9e, 0x65f6], [0x65b0, 0x95fb], [0x5f53, 0x524d], [0x73b0, 0x5728],
      (asc ''web''), (asc ''internet''), (asc ''latest''), (asc ''today''), (asc ''current'')]"

definition wants_web_search :: "pystr \<Rightarrow> bool" where
  "wants_web_search question = any_in web_markers (py_lower question)"

definition document_markers :: "pystr list" where
  "document_markers =
     [[0x6587, 0x6863], [0x6587, 0x4ef6], (asc ''pdf''), [0x9644, 0x4ef6], [0x77e5, 0x8bc6, 0x5e93],
         [0x5df2, 0x4e0a, 0x4f20], [0x5165, 0x5e93], [0x8fd9, 0x7bc7], [0x8fd9, 0x4efd], [0x8fd9,
         0x672c], [0x8fd9, 0x4e2a, 0x6750, 0x6599], [0x8fd9, 0x7bc7, 0x6587, 0x7ae0],
      [0x8fd9, 0x7bc7, 0x8bba, 0x6587], [0x8bba, 0x6587], [0x62a5, 0x544a], [0x7814, 0x62a5],
          [0x7b80, 0x5386], [0x5408, 0x540c], [0x6807, 0x4e66], [0x6750, 0x6599], [0x6750, 0x6599,
          0x91cc], [0x6587, 0x6863, 0x91cc], [0x6587, 0x4ef6, 0x91cc], [0x62a5, 0x544a, 0x91cc],
      [0x7b80, 0x5386, 0x91cc], [0x5408, 0x540c, 0x91cc], [0x4f9d, 0x636e], [0x9875, 0x7801],
          [0x7ae0, 0x8282], [0x4f5c, 0x8005], [0x8bb2, 0x4ec0, 0x4e48], [0x5199, 0x4ec0, 0x4e48],
          [0x5199, 0x7684, 0x4ec0, 0x4e48], [0x5199, 0x5f97, 0x4ec0, 0x4e48]]"

definition wants_document_search :: "pystr \<Rightarrow> bool" where
  "wants_document_search question = any_in document_markers (py_lower question)"

definition casual_patterns :: "pystr list" where
  "casual_patterns =
     [[0x4f60, 0x597d], (asc ''hello''), (asc ''hi''), [0x4f60, 0x662f, 0x8c01], [0x4f60, 0x80fd,
         0x505a, 0x4ec0, 0x4e48], [0x4ecb, 0x7ecd, 0x4e00, 0x4e0b, 0x4f60]]"

definition writing_markers :: "pystr list" where
  "writing_markers =
     [[0x5e2e, 0x6211, 0x5199], [0x5199, 0x4e00, 0x5c01], [0x6da6, 0x8272], [0x7ffb, 0x8bd1],
         [0x6539, 0x5199], [0x6269, 0x5199], [0x8d77, 0x8349], [0x751f, 0x6210, 0x4e00, 0x6bb5],
         [0x5199, 0x4ee3, 0x7801], [0x89e3, 0x91ca, 0x4e00, 0x4e0b]]"

definition wants_direct_model :: "pystr \<Rightarrow> bool" where
  "wants_direct_model question0 =
     (let question = py_strip (py_lower question0)
      in if question = [] then True else any_in (casual_patterns @ writing_markers) question)"

definition choose_route :: "pystr \<Rightarrow> route" where
  "choose_route question =
     (if wants_document_search question then Local
      else if wants_web_search question then Web
      else if wants_direct_model question then Model
      else Auto)"

section \<open>Documents and sources\<close>

text \<open>The dictionaries of the graph state; a source's keys differ by its kind, so it is a JSON object.\<close>

record document =
  d_content :: pystr
  d_source :: pystr
  d_meta :: json

definition search_result_to_source :: "search_result \<Rightarrow> json" where
  "search_result_to_source r = JObj
     [((asc ''source''), JStr (sr_source r)), ((asc ''page''), JInt (sr_page r)), ((asc ''score''), JReal (sr_score r)),
      ((asc ''retrieval_score''), case sr_retrieval_score r of None \<Rightarrow> JNull | Some x \<Rightarrow> JReal x),
      ((asc ''type''), JStr (asc ''local''))]"

definition search_result_to_document :: "search_result \<Rightarrow> document" where
  "search_result_to_document r =
     \<lparr>d_content = sr_content r, d_source = sr_source r @ (asc '' p.'') @ show_int (sr_page r),
      d_meta = search_result_to_source r\<rparr>"

section \<open>Is the local evidence good enough?\<close>

definition meta_score :: "document \<Rightarrow> real result" where
  "meta_score doc = rbind (json_get (d_meta doc) (asc ''score'')) (\<lambda>v. py_float (json_or v (JInt 0)))"

definition question_stopwords :: "pystr list" where
  "question_stopwords = [[0x8fd9, 0x4e2a], [0x90a3, 0x4e2a], [0x4ec0, 0x4e48], [0x600e, 0x4e48],
      [0x5982, 0x4f55], [0x4e00, 0x4e0b]]"

definition query_terms :: "pystr \<Rightarrow> pystr list" where
  "query_terms question =
     remdups (filter (\<lambda>t. 2 \<le> length t \<and> t \<notin> set question_stopwords) (bm25_tokenize question))"

definition local_context :: "document list \<Rightarrow> pystr" where
  "local_context docs = py_join [10] (map (\<lambda>d. py_lower (take 1200 (d_content d))) (take 3 docs))"

definition local_results_confident :: "real \<Rightarrow> pystr \<Rightarrow> document list \<Rightarrow> bool result" where
  "local_results_confident threshold question docs =
     (if docs = [] then Inr False
      else rbind (mapr meta_score docs) (\<lambda>scores.
        if Max (set scores) \<ge> threshold then Inr True
        else
          let terms = query_terms question
          in if terms = [] then Inr False
             else
               let overlap = length (filter (\<lambda>t. py_in t (local_context docs)) terms)
               in Inr (overlap \<ge> min 2 (length terms))))"

section \<open>Web search results\<close>

definition tavily_item :: "(json \<Rightarrow> pystr) \<Rightarrow> json \<Rightarrow> pystr \<times> json list" where
  "tavily_item repr item =
     (case item of
        JObj kvs \<Rightarrow>
          let title = obj_get kvs (asc ''title'') (JStr (asc ''Web result''));
              url = obj_get kvs (asc ''url'') (JStr []);
              content = json_or (obj_get kvs (asc ''content'') JNull)
                (json_or (obj_get kvs (asc ''raw_content'') JNull) (JStr []))
          in (py_strip ((asc ''- '') @ json_str repr title @ ([10] @ asc ''  URL: '') @ json_str repr url @
                ([10] @ asc ''  Content: '') @ json_str repr content),
              [JObj [((asc ''source''), title), ((asc ''url''), url), ((asc ''type''), JStr (asc ''web'')),
                     ((asc ''score''), obj_get kvs (asc ''score'') JNull)]])
      | _ \<Rightarrow> (json_str repr item, []))"

definition normalize_tavily_results :: "(json \<Rightarrow> pystr) \<Rightarrow> json \<Rightarrow> (pystr \<times> json list) result" where
  "normalize_tavily_results repr results =
     (case results of
        JStr s \<Rightarrow> Inr (s, [])
      | _ \<Rightarrow>
        let (answer, items) = (case results of
              JObj kvs \<Rightarrow> (obj_get kvs (asc ''answer'') (JStr []), obj_get kvs (asc ''results'') (JArr [results]))
            | _ \<Rightarrow> (JStr [], json_or results (JArr [])))
        in rbind (json_iter items) (\<lambda>xs.
           rbind (if \<not> truthy answer then Inr []
                  else case answer of JStr s \<Rightarrow> Inr [s]
                       | _ \<Rightarrow> Inl (OtherError (asc ''sequence item 0: expected str instance''))) (\<lambda>head.
             let blocks = map (tavily_item repr) xs
             in Inr (py_strip (py_join [10] (head @ map fst blocks)), concat (map snd blocks)))))"

definition has_valid_tavily_key :: "pystr \<Rightarrow> bool" where
  "has_valid_tavily_key env_key =
     (let key = strip_env env_key
      in key \<noteq> [] \<and> starts_with key (asc ''tvly-'') \<and> \<not> py_in (asc ''your-tavily-api-key'') key)"

text \<open>\<open>search_web\<close>; the tool's call is the parameter \<open>tavily\<close>.\<close>

definition search_web ::
  "pystr \<Rightarrow> (pystr \<Rightarrow> json result) \<Rightarrow> (json \<Rightarrow> pystr) \<Rightarrow> pystr \<Rightarrow> (pystr \<times> json list) result" where
  "search_web env_key tavily repr query =
     (if \<not> has_valid_tavily_key env_key then Inl (RuntimeError (asc ''TAVILY_API_KEY is not configured.''))
      else rbind (tavily query) (normalize_tavily_results repr))"

section \<open>Facts about routing\<close>

lemma py_in_any: "m \<in> set ms \<Longrightarrow> py_in m s \<Longrightarrow> any_in ms s"
  by (auto simp: any_in_iff py_in_sublist)

text \<open>What the local search returns always has a numeric score, so the evidence test never raises.\<close>

lemma meta_score_local: "meta_score (search_result_to_document r) = Inr (sr_score r)"
  by (simp add: meta_score_def search_result_to_document_def search_result_to_source_def json_get_def json_or_def)

lemma mapr_meta_score: "mapr meta_score (map search_result_to_document rs) = Inr (map sr_score rs)"
  by (induction rs) (simp_all add: meta_score_local)

lemma local_results_confident_returns:
  "local_results_confident th q (map search_result_to_document rs) \<noteq> Inl e"
  by (simp add: local_results_confident_def mapr_meta_score Let_def)

section \<open>Properties\<close>

text \<open>The greeting \<open>hi\<close> is looked for as a substring. A question with no document or web
  marker that has the letters \<open>hi\<close> anywhere (as in "which", "this", "China", "machine") is answered
  directly by the model and never reaches the knowledge base.\<close>

theorem choose_route_greeting_substring:
  assumes "\<not> wants_document_search q" "\<not> wants_web_search q" "py_in (asc ''hi'') (py_strip (py_lower q))"
  shows "choose_route q = Model"
  using assms py_in_any [of "(asc ''hi'')" "casual_patterns @ writing_markers" "py_strip (py_lower q)"]
  by (simp add: choose_route_def wants_direct_model_def Let_def casual_patterns_def)

theorem choose_route_greeting_substring_witness:
  "choose_route (asc ''Which embedding model does the machine use?'') = Model"
  by (rule choose_route_greeting_substring; code_simp)

text \<open>Document markers win over web markers, web markers over direct answers, and a question
  is decided automatically exactly when it has none of the markers and is not blank.\<close>

theorem choose_route_priority:
  "(choose_route q = Local \<longleftrightarrow> (\<exists>m\<in>set document_markers. sublist m (py_lower q))) \<and>
   (choose_route q = Web \<longleftrightarrow> (\<exists>m\<in>set web_markers. sublist m (py_lower q)) \<and>
      \<not> (\<exists>m\<in>set document_markers. sublist m (py_lower q))) \<and>
   (choose_route q = Auto \<longleftrightarrow> py_strip (py_lower q) \<noteq> [] \<and>
      \<not> (\<exists>m\<in>set (document_markers @ web_markers). sublist m (py_lower q)) \<and>
      \<not> (\<exists>m\<in>set (casual_patterns @ writing_markers). sublist m (py_strip (py_lower q))))"
  by (auto simp: choose_route_def wants_document_search_def wants_web_search_def wants_direct_model_def
      any_in_iff Let_def)

theorem choose_route_priority_witness:
  "choose_route (asc ''pdf today'') = Local"
proof -
  have "list_ex (\<lambda>m. py_in m (py_lower (asc ''pdf today''))) document_markers" by code_simp
  then have "\<exists>m\<in>set document_markers. sublist m (py_lower (asc ''pdf today''))" by (simp only: list_ex_iff py_in_sublist)
  then show ?thesis using choose_route_priority [of "(asc ''pdf today'')"] by blast
qed

end
