(* ===== verification/Crag_Graph.thy ===== *)
theory Crag_Graph
  imports Routing Ranked_System
begin

text \<open>
  The LangGraph workflow of \<open>backend/graph.py\<close>: its state, its six nodes with the calls they make,
  its edges, a step relation and the function that runs it. The language model, the Tavily tool and
  the local search are parameters; a state counts the model calls made, and the \<open>n\<close>-th call may
  answer or raise. Waiting between attempts, streaming and metrics are not modelled.
\<close>

section \<open>State and environment\<close>

record graph_state =
  gs_question :: pystr
  gs_history :: pystr
  gs_memory :: pystr
  gs_generation :: pystr
  gs_route :: route
  gs_web_fallback :: bool
  gs_documents :: "document list"
  gs_steps :: "pystr list"
  gs_sources :: "json list"
  gs_reasoning :: "pystr list"

record graph_env =
  ge_search :: "pystr \<Rightarrow> search_result list result"
  ge_llm :: "nat \<Rightarrow> pystr \<Rightarrow> pystr result"
  ge_tavily_key :: pystr
  ge_tavily :: "pystr \<Rightarrow> json result"
  ge_repr :: "json \<Rightarrow> pystr"
  ge_threshold :: real

definition initial_state :: "pystr \<Rightarrow> pystr \<Rightarrow> pystr \<Rightarrow> graph_state" where
  "initial_state question history_context memory_context =
     \<lparr>gs_question = question, gs_history = history_context, gs_memory = memory_context, gs_generation = [],
      gs_route = Auto, gs_web_fallback = False, gs_documents = [], gs_steps = [], gs_sources = [],
      gs_reasoning = []\<rparr>"

definition add_step :: "pystr \<Rightarrow> graph_state \<Rightarrow> graph_state" where
  "add_step s st = st\<lparr>gs_steps := gs_steps st @ [s]\<rparr>"

definition add_reason :: "pystr \<Rightarrow> graph_state \<Rightarrow> graph_state" where
  "add_reason s st = st\<lparr>gs_reasoning := gs_reasoning st @ [s]\<rparr>"

section \<open>Calling the model\<close>

definition transient_codes :: "pystr list" where
  "transient_codes = [(asc ''502''), (asc ''503''), (asc ''504''), (asc ''timeout''), (asc ''temporarily'')]"

definition transient :: "exn \<Rightarrow> bool" where
  "transient e = any_in transient_codes (py_lower (exn_str e))"

text \<open>\<open>invoke_llm\<close> from attempt number \<open>attempt\<close> on; \<open>n\<close> counts all calls made.\<close>

function invoke_attempts ::
  "(nat \<Rightarrow> pystr \<Rightarrow> pystr result) \<Rightarrow> pystr \<Rightarrow> nat \<Rightarrow> nat \<Rightarrow> nat \<times> pystr result" where
  "invoke_attempts llm prompt attempt n =
     (case llm n prompt of
        Inr response \<Rightarrow> (n + 1, Inr response)
      | Inl e \<Rightarrow>
          if attempt < 2 \<and> transient e then invoke_attempts llm prompt (attempt + 1) (n + 1)
          else (n + 1, Inl e))"
  by pat_completeness auto
termination
  by (relation "measure (\<lambda>(llm, prompt, attempt, n). 2 - attempt)") auto

declare invoke_attempts.simps [simp del]

definition invoke_llm :: "graph_env \<Rightarrow> nat \<Rightarrow> pystr \<Rightarrow> nat \<times> pystr result" where
  "invoke_llm env n prompt = invoke_attempts (ge_llm env) prompt 0 n"

section \<open>Nodes\<close>

text \<open>A node may call the model: it maps the call count and the state to a count and a state, or raises.\<close>

fun route_label :: "route \<Rightarrow> pystr" where
  "route_label Local = [0x6587, 0x6863, 0x95ee, 0x7b54]"
| "route_label Web = [0x8054, 0x7f51, 0x641c, 0x7d22]"
| "route_label Model = [0x76f4, 0x63a5, 0x56de, 0x7b54]"
| "route_label Auto = [0x81ea, 0x52a8, 0x5224, 0x65ad]"

definition route_question :: "graph_state \<Rightarrow> graph_state" where
  "route_question st =
     (let route = choose_route (gs_question st)
      in add_reason ([0x7cfb, 0x7edf, 0x6839, 0x636e, 0x95ee, 0x9898, 0x610f, 0x56fe, 0x9009,
          0x62e9, 0x201c] @ route_label route @ [0x201d, 0x3002])
           (add_step ([0x81ea, 0x52a8, 0x9009, 0x62e9, 0xff1a] @
               route_label route) st)\<lparr>gs_route := route\<rparr>)"

definition retrieve :: "graph_env \<Rightarrow> graph_state \<Rightarrow> graph_state result" where
  "retrieve env st =
     rbind (ge_search env (gs_question st)) (\<lambda>results.
       let st = add_step (asc ''1. '' @ [0x672c, 0x5730, 0x68c0, 0x7d22, 0xff1a, 0x67e5, 0x8be2] @
           asc '' FAISS '' @ [0x77e5, 0x8bc6, 0x5e93]) st;
           st = add_reason
             (if results \<noteq> [] then ([0x672c, 0x5730, 0x77e5, 0x8bc6, 0x5e93, 0x547d,
                 0x4e2d] @ asc '' '') @ show_int (int (length results)) @ (asc '' '' @ [0x4e2a,
                 0x5019, 0x9009, 0x7247, 0x6bb5, 0x3002])
              else [0x672c, 0x5730, 0x77e5, 0x8bc6, 0x5e93, 0x6ca1, 0x6709, 0x547d, 0x4e2d, 0x5019,
                  0x9009, 0x7247, 0x6bb5, 0x3002]) st
       in Inr (st\<lparr>gs_documents := map search_result_to_document results,
                  gs_sources := map search_result_to_source results\<rparr>))"

text \<open>The grading loop over the documents; kept are those the model answers with "yes".\<close>

definition grader_prompt :: "pystr \<Rightarrow> pystr \<Rightarrow> pystr" where
  "grader_prompt doc question =
     ([0x4f60, 0x662f] @ asc '' RAG '' @ [0x76f8, 0x5173, 0x6027, 0x8bc4, 0x5206, 0x5668, 0x3002,
         0x5224, 0x65ad, 0x6587, 0x6863, 0x662f, 0x5426, 0x80fd, 0x76f4, 0x63a5, 0x56de, 0x7b54,
         0x95ee, 0x9898, 0x3002, 0x53ea, 0x8f93, 0x51fa] @ asc '' yes '' @ [0x6216] @ asc '' no'' @
         [0x3002, 10, 10, 0x6587, 0x6863, 0xff1a]) @ doc @ [10, 0x95ee, 0x9898, 0xff1a] @ question"

fun grade_loop ::
  "graph_env \<Rightarrow> pystr \<Rightarrow> document list \<Rightarrow> nat \<Rightarrow> document list \<Rightarrow> nat \<times> document list result" where
  "grade_loop env question [] n kept = (n, Inr kept)"
| "grade_loop env question (doc # docs) n kept =
     (case invoke_llm env n (grader_prompt (d_content doc) question) of
        (n', Inl e) \<Rightarrow> (n', Inl e)
      | (n', Inr answer) \<Rightarrow>
          grade_loop env question docs n'
            (if starts_with (py_lower (py_strip answer)) (asc ''yes'') then kept @ [doc] else kept))"

text \<open>The branch of the grader proper, for a route that is neither local nor automatic.\<close>

definition grade_with_llm :: "graph_env \<Rightarrow> nat \<Rightarrow> graph_state \<Rightarrow> nat \<times> graph_state result" where
  "grade_with_llm env n st =
     (case grade_loop env (gs_question st) (gs_documents st) n [] of
        (n', Inl e) \<Rightarrow> (n', Inl e)
      | (n', Inr kept) \<Rightarrow>
          (n', Inr (if kept = []
             then add_reason [0x672c, 0x5730, 0x77e5, 0x8bc6, 0x5e93, 0x5df2, 0x6709, 0x5019,
                 0x9009, 0x7247, 0x6bb5, 0xff0c, 0x672a, 0x5207, 0x6362, 0x5230, 0x8054, 0x7f51,
                 0x515c, 0x5e95, 0x3002]
                    (add_step ([0x8bc4, 0x5206, 0x672a, 0x4fdd, 0x7559, 0x7247, 0x6bb5, 0xff0c,
                        0x964d, 0x7ea7, 0x4f7f, 0x7528, 0x672c, 0x5730, 0x68c0, 0x7d22] @
                        asc '' Top-K'' @ [0xff0c, 0x907f, 0x514d, 0x7b54, 0x975e, 0x6240,
                        0x95ee]) st)
                    \<lparr>gs_route := Local, gs_web_fallback := False\<rparr>
             else add_reason (([0x672c, 0x5730, 0x68c0, 0x7d22, 0x7ed3, 0x679c, 0x901a, 0x8fc7,
                 0x8bc4, 0x5206, 0xff0c, 0x4f7f, 0x7528] @ asc '' '') @
                 show_int (int (length kept)) @ (asc '' '' @ [0x4e2a, 0x7247, 0x6bb5, 0x751f,
                 0x6210, 0x7b54, 0x6848, 0x3002]))
                    (add_step (([0x4fdd, 0x7559] @ asc '' '') @ show_int (int (length kept)) @
                        (asc '' '' @ [0x4e2a, 0x672c, 0x5730, 0x7247, 0x6bb5, 0x4f5c, 0x4e3a,
                        0x4e0a, 0x4e0b, 0x6587])) st)
                    \<lparr>gs_route := Local, gs_documents := kept, gs_web_fallback := False,
                     gs_sources := map d_meta kept\<rparr>)))"

definition grade_documents :: "graph_env \<Rightarrow> nat \<Rightarrow> graph_state \<Rightarrow> nat \<times> graph_state result" where
  "grade_documents env n st0 =
     (let st = add_step (asc ''2. '' @ [0x76f8, 0x5173, 0x6027, 0x8bc4, 0x5206, 0xff1a] @
         asc ''DeepSeek '' @ [0x5224, 0x65ad, 0x672c, 0x5730, 0x7247, 0x6bb5, 0x662f, 0x5426,
         0x80fd, 0x56de, 0x7b54, 0x95ee, 0x9898]) st0;
          documents = gs_documents st; route = gs_route st
      in if documents = [] then
           (n, Inr
             (if route = Local
              then add_reason [0x7528, 0x6237, 0x5728, 0x95ee, 0x6587, 0x6863, 0xff0c, 0x4f46,
                  0x77e5, 0x8bc6, 0x5e93, 0x6ca1, 0x6709, 0x547d, 0x4e2d, 0x53ef, 0x7528, 0x5185,
                  0x5bb9, 0x3002]
                     (add_step [0x672c, 0x5730, 0x6ca1, 0x6709, 0x53ef, 0x7528, 0x7247, 0x6bb5,
                         0xff0c, 0x8fd4, 0x56de, 0x7f3a, 0x5c11, 0x8d44, 0x6599, 0x63d0, 0x793a] st)
                     \<lparr>gs_route := Local, gs_documents := [], gs_web_fallback := False\<rparr>
              else add_reason [0x6ca1, 0x6709, 0x627e, 0x5230, 0x53ef, 0x9760, 0x672c, 0x5730,
                  0x8bc1, 0x636e, 0xff0c, 0x4f7f, 0x7528, 0x901a, 0x7528, 0x6a21, 0x578b, 0x56de,
                  0x7b54, 0x3002]
                     (add_step [0x672c, 0x5730, 0x6ca1, 0x6709, 0x9ad8, 0x53ef, 0x4fe1, 0x547d,
                         0x4e2d, 0xff0c, 0x4ea4, 0x7ed9, 0x6a21, 0x578b, 0x76f4, 0x63a5, 0x56de,
                         0x7b54] st)
                     \<lparr>gs_route := Model, gs_documents := [], gs_web_fallback := False\<rparr>))
         else if route = Local then
           (n, Inr (add_reason [0x95ee, 0x9898, 0x660e, 0x786e, 0x6307, 0x5411, 0x5df2, 0x5165,
               0x5e93, 0x6587, 0x6863, 0xff0c, 0x4f7f, 0x7528, 0x672c, 0x5730, 0x77e5, 0x8bc6,
               0x5e93, 0x3002]
                     (add_step [0x4f7f, 0x7528, 0x672c, 0x5730, 0x6587, 0x6863, 0x751f, 0x6210,
                         0x7b54, 0x6848] st)\<lparr>gs_route := Local,
                         gs_web_fallback := False\<rparr>))
         else if route = Auto then
           (n, rbind (local_results_confident (ge_threshold env) (gs_question st) documents) (\<lambda>confident. Inr
             (if confident
              then add_reason [0x672c, 0x5730, 0x68c0, 0x7d22, 0x547d, 0x4e2d, 0x8f83, 0x53ef,
                  0x4fe1, 0xff0c, 0x4f7f, 0x7528, 0x672c, 0x5730, 0x77e5, 0x8bc6, 0x5e93, 0x56de,
                  0x7b54, 0x3002]
                     (add_step [0x81ea, 0x52a8, 0x5224, 0x65ad, 0x4e3a, 0x672c, 0x5730, 0x6587,
                         0x6863, 0x95ee, 0x9898] st)\<lparr>gs_route := Local,
                         gs_web_fallback := False\<rparr>
              else add_reason [0x672a, 0x53d1, 0x73b0, 0x8db3, 0x591f, 0x53ef, 0x9760, 0x7684,
                  0x672c, 0x5730, 0x8bc1, 0x636e, 0xff0c, 0x907f, 0x514d, 0x786c, 0x5957, 0x6587,
                  0x6863, 0x3002]
                     (add_step [0x672c, 0x5730, 0x547d, 0x4e2d, 0x4e0d, 0x591f, 0x53ef, 0x4fe1,
                         0xff0c, 0x4ea4, 0x7ed9, 0x6a21, 0x578b, 0x76f4, 0x63a5, 0x56de, 0x7b54] st)
                     \<lparr>gs_route := Model, gs_documents := [], gs_web_fallback := False, gs_sources := []\<rparr>)))
         else grade_with_llm env n st)"

definition fallback_prompt :: "pystr \<Rightarrow> pystr" where
  "fallback_prompt question =
     [0x8054, 0x7f51, 0x641c, 0x7d22, 0x6682, 0x65f6, 0x4e0d, 0x53ef, 0x7528, 0x3002, 0x8bf7,
         0x57fa, 0x4e8e, 0x901a, 0x7528, 0x77e5, 0x8bc6, 0x4e3a, 0x4e0b, 0x9762, 0x95ee, 0x9898,
         0x6574, 0x7406, 0x80cc, 0x666f, 0x6750, 0x6599, 0xff1b] @
     [0x5982, 0x679c, 0x95ee, 0x9898, 0x6d89, 0x53ca, 0x5b9e, 0x65f6, 0x4fe1, 0x606f, 0xff0c,
         0x8bf7, 0x8bf4, 0x660e, 0x53ef, 0x80fd, 0x4e0d, 0x662f, 0x6700, 0x65b0, 0x3002, 10, 10] @
         [0x95ee, 0x9898, 0xff1a] @ question"

definition add_evidence :: "pystr \<Rightarrow> pystr \<Rightarrow> pystr \<Rightarrow> json list \<Rightarrow> graph_state \<Rightarrow> graph_state" where
  "add_evidence content name kind sources st =
     st\<lparr>gs_documents := gs_documents st @
          [\<lparr>d_content = content, d_source = name,
            d_meta = JObj [((asc ''source''), JStr name), ((asc ''type''), JStr kind)]\<rparr>],
        gs_sources := gs_sources st @ sources\<rparr>"

definition web_search :: "graph_env \<Rightarrow> nat \<Rightarrow> graph_state \<Rightarrow> nat \<times> graph_state result" where
  "web_search env n st0 =
     (let st = add_step (asc ''3. '' @ [0x8054, 0x7f51, 0x515c, 0x5e95, 0xff1a] @ asc ''Tavily '' @
         [0x5168, 0x7f51, 0x641c, 0x7d22]) st0
      in case search_web (ge_tavily_key env) (ge_tavily env) (ge_repr env) (gs_question st) of
           Inr (web_context, web_sources) \<Rightarrow>
             (n, Inr (add_reason ([0x4f7f, 0x7528] @ asc '' Tavily '' @ [0x83b7, 0x53d6, 0x8054,
                 0x7f51, 0x8d44, 0x6599, 0xff0c, 0x518d, 0x4ea4, 0x7ed9] @ asc '' DeepSeek '' @
                 [0x7efc, 0x5408, 0x3002])
                (add_step (asc ''Tavily '' @ [0x641c, 0x7d22, 0x5b8c, 0x6210])
                  (add_evidence web_context (asc ''Tavily '' @ [0x5168, 0x7f51, 0x641c,
                      0x7d22]) (asc ''web'') web_sources st))
                \<lparr>gs_route := Web, gs_web_fallback := True\<rparr>))
         | Inl exc \<Rightarrow>
             (case invoke_llm env n (fallback_prompt (gs_question st)) of
                (n', Inl e) \<Rightarrow> (n', Inl e)
              | (n', Inr response) \<Rightarrow>
                  (n', Inr (add_reason ((asc ''Tavily '' @ [0x8c03, 0x7528, 0x5931, 0x8d25, 0xff0c,
                      0x5df2, 0x964d, 0x7ea7, 0x4e3a, 0x6a21, 0x578b, 0x77e5, 0x8bc6, 0x515c,
                      0x5e95, 0xff1a]) @ exn_str exc)
                     (add_evidence response (asc ''DeepSeek '' @ [0x6a21, 0x578b, 0x77e5, 0x8bc6,
                         0x515c, 0x5e95]) (asc ''model'')
                        [JObj [((asc ''source''), JStr (asc ''DeepSeek '' @ [0x6a21, 0x578b, 0x77e5,
                            0x8bc6, 0x515c, 0x5e95])), ((asc ''type''), JStr (asc ''model''))]]
                        (add_step (asc ''Tavily '' @ [0x4e0d, 0x53ef, 0x7528, 0xff0c, 0x964d,
                            0x7ea7, 0x4e3a] @ asc '' DeepSeek '' @ [0x5e38, 0x8bc6, 0x515c,
                            0x5e95]) st))
                     \<lparr>gs_route := Web, gs_web_fallback := True\<rparr>))))"

definition personalization_block :: "pystr \<Rightarrow> pystr \<Rightarrow> pystr" where
  "personalization_block history_context memory_context =
     (let blocks =
        (if memory_context \<noteq> []
         then [[0x957f, 0x671f, 0x8bb0, 0x5fc6, 0xff08, 0x53ea, 0x7528, 0x4e8e, 0x4e2a, 0x6027,
             0x5316, 0x3001, 0x504f, 0x597d, 0x548c, 0x79f0, 0x547c, 0xff1b, 0x4e0d, 0x8981, 0x628a,
             0x5b83, 0x5f53, 0x4f5c, 0x4e8b, 0x5b9e, 0x8bc1, 0x636e, 0xff09, 0xff1a, 10] @
             memory_context] else []) @
        (if history_context \<noteq> []
         then [[0x6700, 0x8fd1, 0x4f1a, 0x8bdd, 0xff08, 0x7528, 0x4e8e, 0x7406, 0x89e3, 0x4ee3,
             0x8bcd, 0x3001, 0x7701, 0x7565, 0x548c, 0x5ef6, 0x7eed, 0x95ee, 0x9898, 0xff09, 0xff1a,
             10] @ history_context] else [])
      in if blocks = [] then []
         else [0x8bb0, 0x5fc6, 0x4f7f, 0x7528, 0x89c4, 0x5219, 0xff1a, 0x5f53, 0x524d, 0x7528,
             0x6237, 0x6d88, 0x606f, 0x4f18, 0x5148, 0x7ea7, 0x6700, 0x9ad8, 0xff1b, 0x5982, 0x679c,
             0x5f53, 0x524d, 0x6d88, 0x606f, 0x4e0e, 0x957f, 0x671f, 0x8bb0, 0x5fc6, 0x51b2, 0x7a81,
             0xff0c] @
           [0x4ee5, 0x5f53, 0x524d, 0x6d88, 0x606f, 0x4e3a, 0x51c6, 0xff0c, 0x5e76, 0x81ea, 0x7136,
               0x627f, 0x8ba4, 0x66f4, 0x65b0, 0xff0c, 0x4e0d, 0x8981, 0x88ab, 0x65e7, 0x8bb0,
               0x5fc6, 0x8bef, 0x5bfc, 0x3002, 10] @ py_join [10, 10] blocks @ [10, 10])"

definition direct_prompt :: "graph_state \<Rightarrow> pystr" where
  "direct_prompt st =
     [0x4f60, 0x662f, 0x4e00, 0x4e2a, 0x81ea, 0x7136, 0x3001, 0x53ef, 0x9760, 0x7684, 0x4e2d,
         0x6587, 0x52a9, 0x624b, 0x3002, 0x8bf7, 0x76f4, 0x63a5, 0x56de, 0x7b54, 0x7528, 0x6237,
         0x95ee, 0x9898, 0x3002, 10] @
     [0x5982, 0x679c, 0x95ee, 0x9898, 0x660e, 0x663e, 0x9700, 0x8981, 0x5b9e, 0x65f6, 0x4fe1,
         0x606f, 0xff0c, 0x4f46, 0x6ca1, 0x6709, 0x8054, 0x7f51, 0x641c, 0x7d22, 0x7ed3, 0x679c,
         0xff0c, 0x8bf7, 0x63d0, 0x9192, 0x7528, 0x6237, 0x9700, 0x8981, 0x8054, 0x7f51, 0x67e5,
         0x8be2, 0x3002, 10] @
     ([0x56de, 0x7b54, 0x8981, 0x50cf] @ asc '' ChatGPT '' @ [0x4e00, 0x6837, 0x81ea, 0x7136,
         0xff0c, 0x4e0d, 0x8981, 0x63d0, 0x53ca, 0x5185, 0x90e8, 0x8def, 0x7531, 0x3001, 0x5de5,
         0x5177, 0x94fe, 0x6216, 0x8c03, 0x8bd5, 0x8fc7, 0x7a0b, 0x3002, 10, 10]) @
     personalization_block (gs_history st) (gs_memory st) @ [0x95ee, 0x9898, 0xff1a] @ gs_question st"

definition direct_answer :: "graph_env \<Rightarrow> nat \<Rightarrow> graph_state \<Rightarrow> nat \<times> graph_state result" where
  "direct_answer env n st0 =
     (let st = add_step [0x76f4, 0x63a5, 0x56de, 0x7b54, 0xff1a, 0x4f7f, 0x7528, 0x901a, 0x7528,
         0x6a21, 0x578b, 0x80fd, 0x529b] st0
      in case invoke_llm env n (direct_prompt st) of
           (n', Inl e) \<Rightarrow> (n', Inl e)
         | (n', Inr response) \<Rightarrow>
             (n', Inr (add_step [0x4efb, 0x52a1, 0x5b8c, 0x6210] st
                \<lparr>gs_route := Model, gs_generation := response, gs_web_fallback := False,
                 gs_documents := [], gs_sources := []\<rparr>)))"

fun context_blocks :: "nat \<Rightarrow> document list \<Rightarrow> pystr list" where
  "context_blocks i [] = []"
| "context_blocks i (d # ds) =
     ((asc ''['') @ show_int (int i + 1) @ (asc ''] '') @ d_source d @ [10] @ d_content d) # context_blocks (i + 1) ds"

definition generate_prompt :: "graph_state \<Rightarrow> pystr" where
  "generate_prompt st =
     [0x4f60, 0x662f, 0x4e00, 0x4e2a, 0x81ea, 0x7136, 0x3001, 0x53ef, 0x9760, 0x7684, 0x4e2d,
         0x6587, 0x52a9, 0x624b, 0x3002, 0x8bf7, 0x57fa, 0x4e8e, 0x4e0a, 0x4e0b, 0x6587, 0x56de,
         0x7b54, 0x7528, 0x6237, 0x95ee, 0x9898, 0x3002, 10] @
     [0x8981, 0x6c42, 0xff1a, 10] @
     (asc ''1. '' @ [0x5148, 0x7ed9, 0x76f4, 0x63a5, 0x7b54, 0x6848, 0xff0c, 0x518d, 0x7ed9, 0x5173,
         0x952e, 0x4f9d, 0x636e, 0x3002, 10]) @
     (asc ''2. '' @ [0x4e0d, 0x8981, 0x8f93, 0x51fa, 0x9690, 0x85cf, 0x601d, 0x7ef4, 0x94fe, 0xff0c,
         0x4e5f, 0x4e0d, 0x8981, 0x63d0, 0x53ca, 0x5185, 0x90e8, 0x8def, 0x7531, 0x3001, 0x5de5,
         0x5177, 0x94fe, 0x6216, 0x8c03, 0x8bd5, 0x8fc7, 0x7a0b, 0x3002, 10]) @
     (asc ''3. '' @ [0x4f18, 0x5148, 0x4f7f, 0x7528, 0x672c, 0x5730, 0x77e5, 0x8bc6, 0x5e93, 0xff1b,
         0x53ea, 0x6709, 0x4e0a, 0x4e0b, 0x6587, 0x91cc, 0x51fa, 0x73b0] @ asc '' Tavily '' @
         [0x8d44, 0x6599, 0x65f6, 0xff0c, 0x624d, 0x8bf4, 0x660e, 0x6765, 0x81ea, 0x8054, 0x7f51,
         0x68c0, 0x7d22, 0x3002, 10]) @
     (asc ''4. '' @ [0x4e2d, 0x6587, 0x56de, 0x7b54, 0xff0c, 0x7ed3, 0x6784, 0x6e05, 0x6670, 0x3002, 10]) @
     (asc ''5. '' @ [0x9664, 0x975e, 0x7528, 0x6237, 0x660e, 0x786e, 0x8981, 0x6c42, 0x201c, 0x7b80,
         0x77ed] @ asc ''/'' @ [0x4e00, 0x53e5, 0x8bdd, 0x201d, 0xff0c, 0x5426, 0x5219, 0x4e0d,
         0x8981, 0x8fc7, 0x77ed, 0xff1b, 0x8bf7, 0x5145, 0x5206, 0x5c55, 0x5f00, 0xff0c, 0x81f3,
         0x5c11, 0x5305, 0x542b, 0xff1a, 0x76f4, 0x63a5, 0x7ed3, 0x8bba, 0x3001, 0x5173, 0x952e,
         0x4f9d, 0x636e, 0x3001, 0x5206, 0x70b9, 0x5206, 0x6790, 0x3001, 0x53ef, 0x6267, 0x884c,
         0x5efa, 0x8bae, 0x6216, 0x6ce8, 0x610f, 0x4e8b, 0x9879, 0x3002, 10]) @
     (asc ''6. '' @ [0x5982, 0x679c, 0x7528, 0x6237, 0x95ee, 0x201c, 0x8fd9, 0x7bc7] @ asc ''/'' @
         [0x8fd9, 0x4efd, 0x6587, 0x6863, 0x8bb2, 0x4ec0, 0x4e48, 0x3001, 0x603b, 0x7ed3, 0x4e00,
         0x4e0b, 0x3001, 0x4e3b, 0x8981, 0x5185, 0x5bb9, 0x201d, 0xff0c, 0x8bf7, 0x76f4, 0x63a5,
         0x5bf9, 0x672c, 0x5730, 0x6587, 0x6863, 0x505a, 0x6982, 0x89c8, 0x603b, 0x7ed3, 0xff0c,
         0x4e0d, 0x8981, 0x56de, 0x7b54, 0x6210, 0x7f3a, 0x5c11, 0x8bba, 0x6587, 0x5185, 0x5bb9,
         0x3002, 10]) @
     (asc ''7. '' @ [0x5982, 0x679c, 0x4e0a, 0x4e0b, 0x6587, 0x8bc1, 0x636e, 0x5145, 0x8db3, 0xff0c,
         0x56de, 0x7b54, 0x5e94, 0x5c3d, 0x91cf, 0x5b8c, 0x6574, 0xff1b, 0x5982, 0x679c, 0x8bc1,
         0x636e, 0x4e0d, 0x8db3, 0xff0c, 0x8981, 0x660e, 0x786e, 0x8bf4, 0x660e, 0x7f3a, 0x53e3,
         0xff0c, 0x5e76, 0x7ed9, 0x51fa, 0x4e0b, 0x4e00, 0x6b65, 0x68c0, 0x7d22, 0x6216, 0x8865,
         0x5145, 0x6750, 0x6599, 0x5efa, 0x8bae, 0x3002, 10, 10]) @
     [0x63a8, 0x7406, 0x6458, 0x8981, 0xff1a, 10] @
         py_join [10] (map ((@) (asc ''- '')) (gs_reasoning st)) @ [10, 10] @
     personalization_block (gs_history st) (gs_memory st) @
     [0x4e0a, 0x4e0b, 0x6587, 0xff1a, 10] @ py_join [10, 10] (context_blocks 0 (gs_documents st)) @ [10, 10] @
     [0x95ee, 0x9898, 0xff1a] @ gs_question st"

definition generate :: "graph_env \<Rightarrow> nat \<Rightarrow> graph_state \<Rightarrow> nat \<times> graph_state result" where
  "generate env n st0 =
     (let st = add_step (asc ''4. '' @ [0x7b54, 0x6848, 0x751f, 0x6210, 0xff1a] @
         asc ''DeepSeek '' @ [0x57fa, 0x4e8e, 0x68c0, 0x7d22, 0x4e0a, 0x4e0b, 0x6587, 0x56de,
         0x7b54]) st0
      in case invoke_llm env n (generate_prompt st) of
           (n', Inl e) \<Rightarrow> (n', Inl e)
         | (n', Inr response) \<Rightarrow> (n', Inr (add_step [0x4efb, 0x52a1, 0x5b8c,
             0x6210] st\<lparr>gs_generation := response\<rparr>)))"

section \<open>Edges\<close>

datatype node = Route_question | Retrieve | Grade_documents | Web_search | Direct_answer | Generate | End

definition decide_after_route :: "graph_state \<Rightarrow> node" where
  "decide_after_route st =
     (if gs_route st = Web then Web_search else if gs_route st = Model then Direct_answer else Retrieve)"

definition decide_to_generate :: "graph_state \<Rightarrow> node" where
  "decide_to_generate st =
     (if gs_route st = Model then Direct_answer else if gs_web_fallback st then Web_search else Generate)"

fun run_node :: "graph_env \<Rightarrow> node \<Rightarrow> nat \<Rightarrow> graph_state \<Rightarrow> nat \<times> graph_state result" where
  "run_node env Route_question n st = (n, Inr (route_question st))"
| "run_node env Retrieve n st = (n, retrieve env st)"
| "run_node env Grade_documents n st = grade_documents env n st"
| "run_node env Web_search n st = web_search env n st"
| "run_node env Direct_answer n st = direct_answer env n st"
| "run_node env Generate n st = generate env n st"
| "run_node env End n st = (n, Inr st)"

fun next_node :: "node \<Rightarrow> graph_state \<Rightarrow> node" where
  "next_node Route_question st = decide_after_route st"
| "next_node Retrieve st = Grade_documents"
| "next_node Grade_documents st = decide_to_generate st"
| "next_node Web_search st = Generate"
| "next_node Direct_answer st = End"
| "next_node Generate st = End"
| "next_node End st = End"

section \<open>Runs\<close>

text \<open>A configuration: about to run a node, or stopped by an exception.\<close>

datatype config = At node nat graph_state | Failed exn nat

inductive crag_step :: "graph_env \<Rightarrow> config \<Rightarrow> config \<Rightarrow> bool" for env where
  advance: "v \<noteq> End \<Longrightarrow> run_node env v n st = (n', Inr st') \<Longrightarrow>
    crag_step env (At v n st) (At (next_node v st') n' st')"
| raise: "v \<noteq> End \<Longrightarrow> run_node env v n st = (n', Inl e) \<Longrightarrow> crag_step env (At v n st) (Failed e n')"

inductive_cases crag_step_At: "crag_step env (At v n st) c"
inductive_simps crag_step_At_iff: "crag_step env (At v n st) c"
inductive_simps crag_step_Failed: "crag_step env (Failed e n) c"

fun node_rank :: "node \<Rightarrow> nat" where
  "node_rank Route_question = 5"
| "node_rank Retrieve = 4"
| "node_rank Grade_documents = 3"
| "node_rank Web_search = 2"
| "node_rank Generate = 1"
| "node_rank Direct_answer = 1"
| "node_rank End = 0"

lemma next_node_rank: "v \<noteq> End \<Longrightarrow> node_rank (next_node v st) < node_rank v"
  by (cases v) (auto simp: decide_after_route_def decide_to_generate_def)

function crag_run :: "graph_env \<Rightarrow> node \<Rightarrow> nat \<Rightarrow> graph_state \<Rightarrow> nat \<times> graph_state result" where
  "crag_run env v n st =
     (if v = End then (n, Inr st)
      else case run_node env v n st of
          (n', Inl e) \<Rightarrow> (n', Inl e)
        | (n', Inr st') \<Rightarrow> crag_run env (next_node v st') n' st')"
  by pat_completeness auto
termination
  by (relation "measure (\<lambda>(env, v, n, st). node_rank v)") (auto intro: next_node_rank)

declare crag_run.simps [simp del]

text \<open>\<open>crag_app.invoke(initial_state(...))\<close>\<close>

definition crag_invoke :: "graph_env \<Rightarrow> pystr \<Rightarrow> pystr \<Rightarrow> pystr \<Rightarrow> nat \<times> graph_state result" where
  "crag_invoke env question history_context memory_context =
     crag_run env Route_question 0 (initial_state question history_context memory_context)"

section \<open>Every run ends\<close>

fun config_rank :: "config \<Rightarrow> nat" where
  "config_rank (At v n st) = node_rank v"
| "config_rank (Failed e n) = 0"

interpretation crag: deterministic_system "crag_step env" config_rank for env
proof
  fix c c' assume "crag_step env c c'"
  then show "config_rank c' < config_rank c"
  proof cases
    case (advance v n st n' st')
    then show ?thesis using next_node_rank by simp
  next
    case (raise v n st n' e)
    then show ?thesis by (cases v) simp_all
  qed
next
  fix c d e assume "crag_step env c d" "crag_step env c e"
  then show "d = e" by (cases c) (auto simp: crag_step_At_iff crag_step_Failed)
qed

definition outcome :: "nat \<times> graph_state result \<Rightarrow> config" where
  "outcome r = (case snd r of Inl e \<Rightarrow> Failed e (fst r) | Inr st \<Rightarrow> At End (fst r) st)"

lemma outcome_final: "crag.final env (outcome r)"
  by (auto simp: crag.final_def outcome_def crag_step_At_iff crag_step_Failed split: sum.splits)

lemma crag_run_steps: "(crag_step env)\<^sup>*\<^sup>* (At v n st) (outcome (crag_run env v n st))"
proof (induction env v n st rule: crag_run.induct)
  case (1 env v n st)
  show ?case
  proof (cases "v = End")
    case True
    then show ?thesis by (simp add: crag_run.simps [of env End] outcome_def)
  next
    case run: False
    obtain n' r where r: "run_node env v n st = (n', r)" by fastforce
    show ?thesis
    proof (cases r)
      case (Inl e)
      then have "crag_step env (At v n st) (Failed e n')" using r run by (simp add: raise)
      then show ?thesis using r Inl run by (simp add: crag_run.simps [of env v] outcome_def)
    next
      case (Inr st')
      then have "crag_step env (At v n st) (At (next_node v st') n' st')" using r run by (simp add: advance)
      moreover have "(crag_step env)\<^sup>*\<^sup>* (At (next_node v st') n' st') (outcome (crag_run env (next_node v st') n' st'))"
        using "1.IH" [OF run r [symmetric] Inr] r Inr by simp
      ultimately show ?thesis using r Inr run
        by (simp add: crag_run.simps [of env v] converse_rtranclp_into_rtranclp)
    qed
  qed
qed

section \<open>Calls of the model\<close>

lemma invoke_attempts_spec:
  "attempt \<le> 2 \<Longrightarrow> \<exists>k. attempt + k \<le> 2 \<and> fst (invoke_attempts llm p attempt n) = n + k + 1 \<and>
     snd (invoke_attempts llm p attempt n) = llm (n + k) p \<and>
     (\<forall>j<k. \<exists>e. llm (n + j) p = Inl e \<and> transient e) \<and>
     (\<forall>e. llm (n + k) p = Inl e \<longrightarrow> attempt + k = 2 \<or> \<not> transient e)"
proof (induction llm p attempt n rule: invoke_attempts.induct)
  case (1 llm p attempt n)
  show ?case
  proof (cases "\<exists>e. llm n p = Inl e \<and> attempt < 2 \<and> transient e")
    case False
    then have "invoke_attempts llm p attempt n = (n + 1, llm n p)"
      by (subst invoke_attempts.simps) (auto split: sum.splits)
    then show ?thesis using False "1.prems" by (intro exI [of _ 0]) auto
  next
    case True
    then obtain e where e: "llm n p = Inl e" "attempt < 2" "transient e" by blast
    then have eq: "invoke_attempts llm p attempt n = invoke_attempts llm p (attempt + 1) (n + 1)"
      by (subst invoke_attempts.simps) simp
    obtain k where k: "attempt + 1 + k \<le> 2" "fst (invoke_attempts llm p (attempt + 1) (n + 1)) = n + 1 + k + 1"
      "snd (invoke_attempts llm p (attempt + 1) (n + 1)) = llm (n + 1 + k) p"
      "\<forall>j<k. \<exists>e. llm (n + 1 + j) p = Inl e \<and> transient e"
      "\<forall>e. llm (n + 1 + k) p = Inl e \<longrightarrow> attempt + 1 + k = 2 \<or> \<not> transient e"
      using "1.IH" [OF e(1)] e by auto
    have "\<exists>e. llm (n + j) p = Inl e \<and> transient e" if "j < Suc k" for j
      using that k(4) e by (cases j) auto
    then show ?thesis using k eq by (intro exI [of _ "Suc k"]) simp
  qed
qed

lemma invoke_llm_spec:
  "\<exists>k\<le>2. invoke_llm env n p = (n + k + 1, ge_llm env (n + k) p) \<and>
     (\<forall>j<k. \<exists>e. ge_llm env (n + j) p = Inl e \<and> transient e) \<and>
     (\<forall>e. ge_llm env (n + k) p = Inl e \<longrightarrow> k = 2 \<or> \<not> transient e)"
  using invoke_attempts_spec [of 0 "ge_llm env" p n] unfolding invoke_llm_def by (metis add_0 prod.collapse zero_le)

lemma invoke_llm_calls: "invoke_llm env n p = (n', r) \<Longrightarrow> n < n' \<and> n' \<le> n + 3 \<and> r = ge_llm env (n' - 1) p"
  using invoke_llm_spec [of env n p] by auto

section \<open>What holds on every run\<close>

text \<open>The evidence a state holds before generation: only what the local search or the web gave.\<close>

fun crag_inv :: "graph_env \<Rightarrow> pystr \<Rightarrow> config \<Rightarrow> bool" where
  "crag_inv env q (At v n st) \<longleftrightarrow>
     (v \<noteq> End \<longrightarrow> gs_question st = q \<and> (\<not> (v = Generate \<and> gs_route st = Web) \<longrightarrow> n = 0)) \<and>
     (v = Route_question \<longrightarrow> \<not> gs_web_fallback st \<and> gs_documents st = [] \<and> gs_sources st = []) \<and>
     (v = Retrieve \<longrightarrow> gs_route st = choose_route q \<and> gs_route st \<in> {Local, Auto}) \<and>
     (v = Grade_documents \<longrightarrow> gs_route st = choose_route q \<and> gs_route st \<in> {Local, Auto} \<and>
        (\<exists>rs. ge_search env q = Inr rs \<and> gs_documents st = map search_result_to_document rs \<and>
           gs_sources st = map search_result_to_source rs)) \<and>
     (v = Web_search \<longrightarrow> choose_route q = Web \<and> gs_documents st = [] \<and> gs_sources st = []) \<and>
     (v = Generate \<longrightarrow> n \<le> 3 \<and>
        (gs_route st = Local \<and> \<not> gs_web_fallback st \<and> (\<exists>rs. ge_search env q = Inr rs \<and>
           gs_documents st = map search_result_to_document rs \<and> gs_sources st = map search_result_to_source rs) \<or>
         gs_route st = Web \<and> gs_web_fallback st \<and> choose_route q = Web)) \<and>
     (v = End \<longrightarrow> 0 < n \<and> n \<le> 6 \<and> (n \<le> 3 \<or> choose_route q = Web) \<and>
        (\<exists>p. ge_llm env (n - 1) p = Inr (gs_generation st)) \<and>
        (gs_route st = Model \<and> gs_documents st = [] \<and> gs_sources st = [] \<and> \<not> gs_web_fallback st \<or>
         gs_route st = Local \<and> \<not> gs_web_fallback st \<and> (\<exists>rs. ge_search env q = Inr rs \<and>
           gs_documents st = map search_result_to_document rs \<and> gs_sources st = map search_result_to_source rs) \<or>
         gs_route st = Web \<and> gs_web_fallback st \<and> choose_route q = Web))"
| "crag_inv env q (Failed e n) \<longleftrightarrow> n \<le> 6"

lemma add_step_simps [state_simps]:
  "gs_question (add_step s st) = gs_question st" "gs_route (add_step s st) = gs_route st"
  "gs_web_fallback (add_step s st) = gs_web_fallback st" "gs_documents (add_step s st) = gs_documents st"
  "gs_sources (add_step s st) = gs_sources st" "gs_generation (add_step s st) = gs_generation st"
  "gs_question (add_reason s st) = gs_question st" "gs_route (add_reason s st) = gs_route st"
  "gs_web_fallback (add_reason s st) = gs_web_fallback st" "gs_documents (add_reason s st) = gs_documents st"
  "gs_sources (add_reason s st) = gs_sources st" "gs_generation (add_reason s st) = gs_generation st"
  by (simp_all add: add_step_def add_reason_def)

lemma grade_no_call:
  assumes "gs_route st \<in> {Local, Auto}"
  shows "fst (grade_documents env n st) = n"
  using assms by (auto simp: grade_documents_def Let_def add_step_def)

lemma grade_result:
  assumes "gs_route st \<in> {Local, Auto}" "grade_documents env n st = (n', Inr st')"
    and "gs_documents st = map search_result_to_document rs" "gs_sources st = map search_result_to_source rs"
  shows "n' = n \<and> gs_question st' = gs_question st \<and> \<not> gs_web_fallback st' \<and>
     (gs_route st' = Local \<and> gs_documents st' = gs_documents st \<and> gs_sources st' = gs_sources st \<or>
      gs_route st' = Model \<and> gs_documents st' = [] \<and> gs_sources st' = [])"
  using assms
  by (auto simp: grade_documents_def Let_def state_simps rbind_Inr_iff split: if_splits)

lemma crag_inv_step:
  assumes inv: "crag_inv env q c" and step: "crag_step env c c'"
  shows "crag_inv env q c'"
  using step
proof cases
  case (advance v n st n' st')
  show ?thesis
  proof (cases v)
    case Route_question
    then show ?thesis
      using inv advance
      by (cases "choose_route q") (auto simp: route_question_def Let_def state_simps decide_after_route_def)
  next
    case Retrieve
    then obtain rs where "ge_search env q = Inr rs" "gs_documents st' = map search_result_to_document rs"
      "gs_sources st' = map search_result_to_source rs" "gs_question st' = q" "gs_route st' = gs_route st"
      using inv advance by (auto simp: retrieve_def rbind_Inr_iff Let_def state_simps)
    then show ?thesis using Retrieve inv advance by auto
  next
    case Grade_documents
    then obtain rs where rs: "ge_search env q = Inr rs" "gs_documents st = map search_result_to_document rs"
      "gs_sources st = map search_result_to_source rs" "gs_route st \<in> {Local, Auto}" "n = 0" "gs_question st = q"
      using inv advance by auto
    have "grade_documents env n st = (n', Inr st')" using Grade_documents advance by simp
    from grade_result [OF rs(4) this rs(2,3)] show ?thesis
      using rs advance(2) Grade_documents by (auto simp: decide_to_generate_def)
  next
    case Web_search
    have w: "web_search env n st = (n', Inr st')" using Web_search advance by simp
    have "n' \<le> 3 \<and> gs_route st' = Web \<and> gs_web_fallback st' \<and> gs_question st' = gs_question st"
      using w inv Web_search advance(1) invoke_llm_calls [of env n]
      by (auto simp: web_search_def Let_def state_simps add_evidence_def split: sum.splits prod.splits)
    then show ?thesis using inv advance Web_search by auto
  next
    case Direct_answer
    have d: "direct_answer env n st = (n', Inr st')" using Direct_answer advance by simp
    obtain resp where resp: "invoke_llm env n (direct_prompt (add_step [0x76f4, 0x63a5, 0x56de,
        0x7b54, 0xff1a, 0x4f7f, 0x7528, 0x901a, 0x7528, 0x6a21, 0x578b, 0x80fd, 0x529b] st)) = (n',
        Inr resp)"
      "gs_generation st' = resp" "gs_route st' = Model" "gs_documents st' = []" "gs_sources st' = []" "\<not> gs_web_fallback st'"
      using d by (auto simp: direct_answer_def Let_def state_simps split: sum.splits prod.splits)
    have "n = 0" using inv advance(1) Direct_answer by simp
    then show ?thesis
      using invoke_llm_calls [OF resp(1)] resp advance Direct_answer by (simp del: asc_Cons) metis
  next
    case Generate
    have g: "generate env n st = (n', Inr st')" using Generate advance by simp
    obtain resp where resp: "invoke_llm env n (generate_prompt (add_step (asc ''4. '' @ [0x7b54,
        0x6848, 0x751f, 0x6210, 0xff1a] @ asc ''DeepSeek '' @ [0x57fa, 0x4e8e, 0x68c0, 0x7d22,
        0x4e0a, 0x4e0b, 0x6587, 0x56de, 0x7b54]) st)) = (n', Inr resp)"
      "gs_generation st' = resp" "gs_route st' = gs_route st" "gs_documents st' = gs_documents st"
      "gs_sources st' = gs_sources st" "gs_web_fallback st' = gs_web_fallback st"
      using g by (auto simp: generate_def Let_def state_simps split: sum.splits prod.splits)
    have "\<exists>p. ge_llm env (n' - 1) p = Inr (gs_generation st')"
      using invoke_llm_calls [OF resp(1)] resp(2) by metis
    then show ?thesis
      using invoke_llm_calls [OF resp(1)] resp(3-6) inv advance Generate by auto
  next
    case End
    then show ?thesis using advance by simp
  qed
next
  case (raise v n st n' e)
  have "n \<le> 3 \<and> n' \<le> n + 3"
    using inv raise grade_no_call [of st env n] invoke_llm_calls [of env n]
    by (cases v) (auto simp: web_search_def direct_answer_def generate_def Let_def split: sum.splits prod.splits)
  then show ?thesis using raise by auto
qed

lemma crag_inv_grade:
  "crag_inv env q (At Grade_documents n st) \<Longrightarrow> gs_route st \<in> {Local, Auto} \<and>
     (\<exists>rs. gs_documents st = map search_result_to_document rs \<and> gs_sources st = map search_result_to_source rs)"
  unfolding crag_inv.simps by blast

lemma crag_inv_reach:
  "(crag_step env)\<^sup>*\<^sup>* c c' \<Longrightarrow> crag_inv env q c \<Longrightarrow> crag_inv env q c'"
  by (induction rule: rtranclp_induct) (auto intro: crag_inv_step)

lemma crag_inv_init: "crag_inv env q (At Route_question 0 (initial_state q h m))"
  by (simp add: initial_state_def)

lemma crag_invoke_inv: "crag_inv env q (outcome (crag_invoke env q h m))"
  unfolding crag_invoke_def by (rule crag_inv_reach [OF crag_run_steps crag_inv_init])

section \<open>Grounded answers\<close>

text \<open>
  The contract of the local search as the graph uses it: what it returns is grounded. The client's
  lemma is about whole runs; the provider is \<open>KnowledgeBase.search\<close>, whose results quote chunks.
\<close>

locale evidence_provider =
  fixes lookup :: "pystr \<Rightarrow> search_result list result"
    and grounded :: "search_result \<Rightarrow> bool"
  assumes lookup_grounded: "lookup q = Inr rs \<Longrightarrow> r \<in> set rs \<Longrightarrow> grounded r"
begin

lemma run_grounded:
  assumes "ge_search env = lookup" "crag_invoke env q h m = (n, Inr st)" "gs_route st \<noteq> Web"
  shows "(\<forall>d\<in>set (gs_documents st). \<exists>r. grounded r \<and> d = search_result_to_document r) \<and>
     (\<forall>s\<in>set (gs_sources st). \<exists>r. grounded r \<and> s = search_result_to_source r)"
proof -
  have "crag_inv env q (At End n st)"
    using crag_invoke_inv [of env q h m] assms(2) by (simp add: outcome_def)
  with assms(3) consider "gs_documents st = []" "gs_sources st = []"
    | rs where "ge_search env q = Inr rs" "gs_documents st = map search_result_to_document rs"
        "gs_sources st = map search_result_to_source rs" by auto
  then show ?thesis
  proof cases
    case 1
    then show ?thesis by simp
  next
    case (2 rs)
    then show ?thesis using lookup_grounded [of q rs] assms(1) by auto
  qed
qed

end

text \<open>The search node's call \<open>knowledge_base.search(question, top_k=5)\<close>, on a fixed knowledge base.\<close>

definition local_lookup ::
  "search_config \<Rightarrow> (pystr \<Rightarrow> int \<Rightarrow> (fscore \<times> int) list result) \<Rightarrow> rerank_client \<Rightarrow> pystr option \<Rightarrow>
   chunk list \<Rightarrow> nat \<Rightarrow> bm25_index \<Rightarrow> reranker \<Rightarrow> pystr \<Rightarrow> search_result list result" where
  "local_lookup cfg vsearch post env_model cs ntotal bm25 rr question =
     snd (kb_search cfg vsearch post env_model cs ntotal bm25 question 5 (8 / 100) rr)"

interpretation kb_evidence: evidence_provider
  "local_lookup cfg vsearch post em cs ntotal bm rr" "\<lambda>r. \<exists>ch\<in>set cs. quotes ch r"
  for cfg vsearch post em cs ntotal bm rr
proof
  fix q rs r
  assume run: "local_lookup cfg vsearch post em cs ntotal bm rr q = Inr rs" and r: "r \<in> set rs"
  show "\<exists>ch\<in>set cs. quotes ch r"
    using kb_search_quotes [of 5 cfg vsearch post em cs ntotal bm q "8/100" rr rs] run r
    by (simp add: local_lookup_def)
qed

section \<open>Properties\<close>

text \<open>A small environment for the examples: a search without hits, a model that echoes its prompt.\<close>

definition demo_graph_env :: graph_env where
  "demo_graph_env = \<lparr>ge_search = (\<lambda>_. Inr []), ge_llm = (\<lambda>n p. Inr p), ge_tavily_key = [],
     ge_tavily = (\<lambda>_. Inr (JArr [])), ge_repr = (\<lambda>_. []), ge_threshold = 55/100\<rparr>"

lemma route_question_route: "gs_route (route_question st) = choose_route (gs_question st)"
  by (simp add: route_question_def Let_def state_simps)

lemma direct_run:
  assumes "choose_route q = Model" "\<And>n p. ge_llm env n p = Inr (g p)"
  shows "\<exists>n st. crag_invoke env q h m = (n, Inr st)"
proof -
  have call: "invoke_llm env n p = (n + 1, Inr (g p))" for n p
    by (simp add: invoke_llm_def invoke_attempts.simps assms(2))
  have "decide_after_route (route_question (initial_state q h m)) = Direct_answer"
    using route_question_route [of "initial_state q h m"] assms(1)
    by (simp add: decide_after_route_def initial_state_def)
  then show ?thesis
    by (simp add: crag_invoke_def crag_run.simps [of env Route_question]
        crag_run.simps [of env Direct_answer] crag_run.simps [of env End] direct_answer_def Let_def call)
qed

lemma local_run:
  assumes "choose_route q = Local" "ge_search env q = Inr rs" "\<And>n p. ge_llm env n p = Inr (g p)"
  obtains n st where "crag_invoke env q h m = (n, Inr st)" "gs_route st = Local"
    "gs_documents st = map search_result_to_document rs" "gs_sources st = map search_result_to_source rs"
proof -
  have call: "invoke_llm env n p = (n + 1, Inr (g p))" for n p
    by (simp add: invoke_llm_def invoke_attempts.simps assms(3))
  let ?s1 = "route_question (initial_state q h m)"
  have s1: "gs_route ?s1 = Local" "gs_question ?s1 = q"
    using assms(1) by (simp_all add: route_question_def Let_def state_simps initial_state_def)
  then obtain s2 where s2: "retrieve env ?s1 = Inr s2" "gs_route s2 = Local"
    "gs_documents s2 = map search_result_to_document rs" "gs_sources s2 = map search_result_to_source rs"
    using assms(2) by (auto simp: retrieve_def Let_def state_simps)
  then obtain s3 where s3: "grade_documents env 0 s2 = (0, Inr s3)" "gs_route s3 = Local" "\<not> gs_web_fallback s3"
    "gs_documents s3 = map search_result_to_document rs" "gs_sources s3 = map search_result_to_source rs"
    by (cases "rs = []") (auto simp: grade_documents_def Let_def state_simps)
  obtain n s4 where s4: "generate env 0 s3 = (n, Inr s4)" "gs_route s4 = Local"
    "gs_documents s4 = gs_documents s3" "gs_sources s4 = gs_sources s3"
    using s3(2) by (auto simp: generate_def Let_def call state_simps)
  have "crag_invoke env q h m = (n, Inr s4)"
    using s1 s2 s3 s4
    by (simp add: crag_invoke_def crag_run.simps [of env Route_question] crag_run.simps [of env Retrieve]
        crag_run.simps [of env Grade_documents] crag_run.simps [of env Generate] crag_run.simps [of env End]
        decide_after_route_def decide_to_generate_def)
  then show thesis using s3 s4 by (intro that [of n s4]) simp_all
qed

text \<open>C27: every run of the graph ends after at most five nodes, in the configuration that
  \<open>crag_invoke\<close> computes, and in no other: either the end node with an answer or an exception.\<close>

theorem crag_run_terminates:
  "(\<exists>k\<le>5. (crag_step env ^^ k) (At Route_question 0 (initial_state q h m)) (outcome (crag_invoke env q h m))) \<and>
   (\<forall>c. (crag_step env)\<^sup>*\<^sup>* (At Route_question 0 (initial_state q h m)) c \<and> (\<forall>c'. \<not> crag_step env c c') \<longrightarrow>
      c = outcome (crag_invoke env q h m))"
proof (intro conjI allI impI)
  let ?c = "At Route_question 0 (initial_state q h m)"
  have steps: "(crag_step env)\<^sup>*\<^sup>* ?c (outcome (crag_invoke env q h m))"
    unfolding crag_invoke_def by (rule crag_run_steps)
  then obtain k where k: "(crag_step env ^^ k) ?c (outcome (crag_invoke env q h m))"
    by (auto simp: rtranclp_power)
  then show "\<exists>k\<le>5. (crag_step env ^^ k) ?c (outcome (crag_invoke env q h m))"
    using crag.steps_bound [OF k] by (intro exI [of _ k]) simp
  fix c assume "(crag_step env)\<^sup>*\<^sup>* ?c c \<and> (\<forall>c'. \<not> crag_step env c c')"
  then show "c = outcome (crag_invoke env q h m)"
    using crag.final_unique [OF _ steps _ outcome_final] by (simp add: crag.final_def)
qed

theorem crag_run_terminates_witness:
  "\<exists>k\<le>5. (crag_step demo_graph_env ^^ k) (At Route_question 0 (initial_state (asc ''hi'') [] []))
     (outcome (crag_invoke demo_graph_env (asc ''hi'') [] []))"
  using crag_run_terminates [of demo_graph_env "(asc ''hi'')" "[]" "[]"] by blast

text \<open>The correction step is dead. In every reachable state the grading node has a local or
  automatic route, so it calls the model for no document, and it never asks for a web search: the
  web node is reached from routing only, before any retrieval.\<close>

theorem crag_grading_never_corrects:
  assumes "(crag_step env)\<^sup>*\<^sup>* (At Route_question 0 (initial_state q h m)) (At v n st)"
  shows "(v = Grade_documents \<longrightarrow> gs_route st \<in> {Local, Auto} \<and> fst (run_node env v n st) = n \<and>
       (\<forall>st'. snd (run_node env v n st) = Inr st' \<longrightarrow> next_node v st' \<noteq> Web_search)) \<and>
     (v = Web_search \<longrightarrow> choose_route q = Web \<and> gs_documents st = [])"
proof -
  have inv: "crag_inv env q (At v n st)" by (rule crag_inv_reach [OF assms crag_inv_init])
  have "next_node v st' \<noteq> Web_search"
    if v: "v = Grade_documents" and res: "snd (run_node env v n st) = Inr st'" for st'
  proof -
    obtain rs where rs: "gs_documents st = map search_result_to_document rs" "gs_route st \<in> {Local, Auto}"
      "gs_sources st = map search_result_to_source rs" using crag_inv_grade inv v by blast
    have "snd (grade_documents env n st) = Inr st'" using v res by simp
    then have "grade_documents env n st = (fst (grade_documents env n st), Inr st')" by (metis prod.collapse)
    from grade_result [OF rs(2) this rs(1,3)] show ?thesis
      using v by (auto simp: decide_to_generate_def)
  qed
  moreover have "v = Grade_documents \<Longrightarrow> gs_route st \<in> {Local, Auto}" using crag_inv_grade inv by blast
  moreover have "v = Grade_documents \<Longrightarrow> fst (run_node env v n st) = n"
    using grade_no_call [of st env n] calculation(2) by simp
  moreover have "v = Web_search \<Longrightarrow> choose_route q = Web \<and> gs_documents st = []" using inv by simp
  ultimately show ?thesis by blast
qed

theorem crag_grading_never_corrects_witness:
  "\<exists>st. (crag_step demo_graph_env)\<^sup>*\<^sup>* (At Route_question 0 (initial_state (asc ''pdf'') [] [])) (At Grade_documents 0 st) \<and>
      gs_route st \<in> {Local, Auto} \<and> fst (run_node demo_graph_env Grade_documents 0 st) = 0"
proof -
  have route: "choose_route (asc ''pdf'') = Local" by code_simp
  define st1 where "st1 = route_question (initial_state (asc ''pdf'') [] [])"
  have "gs_route st1 = Local"
    using route_question_route [of "initial_state (asc ''pdf'') [] []"] route by (simp add: st1_def initial_state_def)
  then have "crag_step demo_graph_env (At Route_question 0 (initial_state (asc ''pdf'') [] [])) (At Retrieve 0 st1)"
    using advance [of Route_question demo_graph_env 0 "initial_state (asc ''pdf'') [] []" 0 st1]
    by (simp add: st1_def decide_after_route_def)
  moreover obtain st where "retrieve demo_graph_env st1 = Inr st"
    by (simp add: retrieve_def demo_graph_env_def)
  then have "crag_step demo_graph_env (At Retrieve 0 st1) (At Grade_documents 0 st)"
    using advance [of Retrieve demo_graph_env 0 st1 0 st] by simp
  ultimately have reach: "(crag_step demo_graph_env)\<^sup>*\<^sup>* (At Route_question 0 (initial_state (asc ''pdf'') [] []))
      (At Grade_documents 0 st)" by (meson converse_rtranclp_into_rtranclp rtranclp.rtrancl_refl)
  from crag_grading_never_corrects [OF reach] reach show ?thesis by blast
qed

text \<open>A run that ends returns the answer of its last model call, after at most three calls (six when
  the question is routed to the web); a direct answer cites nothing, and only a web-routed run
  reports a web fallback.\<close>

theorem crag_invoke_answer:
  assumes "crag_invoke env q h m = (n, Inr st)"
  shows "0 < n \<and> n \<le> 6 \<and> (choose_route q \<noteq> Web \<longrightarrow> n \<le> 3) \<and>
     (\<exists>p. ge_llm env (n - 1) p = Inr (gs_generation st)) \<and>
     (gs_route st = Model \<longrightarrow> gs_documents st = [] \<and> gs_sources st = []) \<and>
     (gs_web_fallback st \<longleftrightarrow> gs_route st = Web) \<and> (gs_route st = Web \<longrightarrow> choose_route q = Web)"
  using crag_invoke_inv [of env q h m] assms by (auto simp: outcome_def)

theorem crag_invoke_answer_witness:
  "\<exists>n st. crag_invoke demo_graph_env (asc ''hi'') [] [] = (n, Inr st) \<and> n \<le> 3 \<and> gs_web_fallback st = (gs_route st = Web)"
proof -
  have route: "choose_route (asc ''hi'') = Model" by code_simp
  obtain n st where run: "crag_invoke demo_graph_env (asc ''hi'') [] [] = (n, Inr st)"
    using direct_run [OF route, of demo_graph_env "\<lambda>p. p" "[]" "[]"] by (auto simp: demo_graph_env_def)
  then show ?thesis using crag_invoke_answer [OF run] route by auto
qed

text \<open>C30: an answer that is not routed to the web rests on the knowledge base only: every document in
  its context and every source it cites is a search result that quotes an indexed chunk.\<close>

theorem crag_local_grounded:
  assumes "ge_search env = local_lookup cfg vsearch post em cs ntotal bm rr"
    and "crag_invoke env q h m = (n, Inr st)" "gs_route st \<noteq> Web"
  shows "(\<forall>d\<in>set (gs_documents st). \<exists>r. (\<exists>ch\<in>set cs. quotes ch r) \<and> d = search_result_to_document r) \<and>
     (\<forall>s\<in>set (gs_sources st). \<exists>r. (\<exists>ch\<in>set cs. quotes ch r) \<and> s = search_result_to_source r)"
  using kb_evidence.run_grounded [OF assms] .

text \<open>A question about a document, a base with one chunk that shares a token with it, and keyword search on.\<close>

definition demo_lookup :: "pystr \<Rightarrow> search_result list result" where
  "demo_lookup = local_lookup default_config (\<lambda>q n. Inr []) (\<lambda>n ep m q ds k. Inl (OtherError [])) None
     [sample_chunk (asc ''pdf index'')] 1 (bm25_rebuild (bm25_init True (3/2) (3/4)) [sample_chunk (asc ''pdf index'')])
     (reranker_init False [] [])"

lemma demo_lookup_finds: obtains rs where "demo_lookup (asc ''pdf'') = Inr rs" "rs \<noteq> []"
proof -
  have share: "shares_token (asc ''pdf'') (sample_chunk (asc ''pdf index''))" unfolding shares_token_def by code_simp
  have fam: "family_ok [sample_chunk (asc ''pdf index'')]" by (simp add: family_ok_def)
  show thesis
    using kb_search_recall [where cfg = default_config and ?idx0.0 = "bm25_init True (3/2) (3/4)" and
        bm = "bm25_rebuild (bm25_init True (3/2) (3/4)) [sample_chunk (asc ''pdf index'')]" and
        cs = "[sample_chunk (asc ''pdf index'')]" and vsearch = "\<lambda>q n. Inr []" and q = "(asc ''pdf'')" and ntotal = 1 and
        top_k = 5 and rr = "reranker_init False [] []" and ch = "sample_chunk (asc ''pdf index'')" and
        post = "\<lambda>n ep m q ds k. Inl (OtherError [])" and em = None and ms = "8/100", OF _ _ _ _ _ _ _ _ _ _ fam _ share]
      that
    by (fastforce simp: demo_lookup_def local_lookup_def default_config_def bm25_params_def bm25_init_def reranker_init_def)
qed

theorem crag_local_grounded_witness:
  "\<exists>n st. crag_invoke (demo_graph_env\<lparr>ge_search := demo_lookup\<rparr>) (asc ''pdf'') [] [] = (n, Inr st) \<and>
     gs_documents st \<noteq> [] \<and> gs_sources st \<noteq> [] \<and>
     (\<forall>s\<in>set (gs_sources st). \<exists>r. quotes (sample_chunk (asc ''pdf index'')) r \<and> s = search_result_to_source r)"
proof -
  let ?env = "demo_graph_env\<lparr>ge_search := demo_lookup\<rparr>"
  obtain rs where rs: "demo_lookup (asc ''pdf'') = Inr rs" "rs \<noteq> []" by (rule demo_lookup_finds)
  have route: "choose_route (asc ''pdf'') = Local" by code_simp
  have found: "ge_search ?env (asc ''pdf'') = Inr rs" using rs(1) by simp
  have llm: "ge_llm ?env n p = Inr p" for n p by (simp add: demo_graph_env_def)
  obtain n st where run: "crag_invoke ?env (asc ''pdf'') [] [] = (n, Inr st)" "gs_route st = Local"
    "gs_documents st = map search_result_to_document rs" "gs_sources st = map search_result_to_source rs"
    by (rule local_run [OF route found llm, where h = "[]" and m = "[]"])
  have look: "ge_search ?env = demo_lookup" by simp
  have web: "gs_route st \<noteq> Web" using run(2) by simp
  from crag_local_grounded [OF look [unfolded demo_lookup_def] run(1) [unfolded demo_lookup_def] web] run rs(2)
  show ?thesis by (auto simp: demo_lookup_def)
qed

text \<open>A model call is tried at most three times; it is tried again exactly after a transient error,
  and what is returned or raised is what the last attempt returned or raised.\<close>

theorem invoke_llm_retries:
  "\<exists>k\<le>2. invoke_llm env n p = (n + k + 1, ge_llm env (n + k) p) \<and>
     (\<forall>j<k. \<exists>e. ge_llm env (n + j) p = Inl e \<and> transient e) \<and>
     (\<forall>e. ge_llm env (n + k) p = Inl e \<longrightarrow> k = 2 \<or> \<not> transient e)"
  by (rule invoke_llm_spec)

theorem invoke_llm_retries_witness:
  "invoke_llm (demo_graph_env\<lparr>ge_llm := (\<lambda>n p. if n = 0 then Inl (OtherError (asc ''502 Bad Gateway'')) else Inr p)\<rparr>) 0 (asc ''x'') =
     (2, Inr (asc ''x''))"
proof -
  let ?env = "demo_graph_env\<lparr>ge_llm := (\<lambda>n p. if n = 0 then Inl (OtherError (asc ''502 Bad Gateway'')) else Inr p)\<rparr>"
  have t: "transient (OtherError (asc ''502 Bad Gateway''))" by code_simp
  obtain k where k: "k \<le> 2" "invoke_llm ?env 0 (asc ''x'') = (k + 1, ge_llm ?env k (asc ''x''))"
    "\<forall>j<k. \<exists>e. ge_llm ?env j (asc ''x'') = Inl e \<and> transient e"
    "\<forall>e. ge_llm ?env k (asc ''x'') = Inl e \<longrightarrow> k = 2 \<or> \<not> transient e"
    using invoke_llm_retries [of ?env 0 "(asc ''x'')"] by auto
  have "k \<noteq> 0" using k(4) t by (cases k) (simp_all del: asc_Cons)
  moreover have "\<not> 1 < k" using k(3) by (auto dest: spec [of _ 1])
  ultimately have "k = 1" by simp
  then show ?thesis using k(2) by simp
qed

end
