(* ===== verification/Memory_Text.thy ===== *)
theory Memory_Text
  imports Py_Regex Py_Json Crag_Graph
begin

text \<open>
  The text side of \<open>backend/services/memory_service.py\<close>: normalisation of contents and keys, the
  rules that extract memory candidates from a message, the filters, and the de-duplication. The
  parser \<open>json.loads\<close> is a parameter, and so is the model, through the environment of the graph.
\<close>

section \<open>Normalisation\<close>

definition normalize_memory :: "pystr \<Rightarrow> pystr" where
  "normalize_memory s = re_sub (Plus (Cls py_space)) (\<lambda>_. [32]) (py_strip s)"

definition key_char :: "int \<Rightarrow> bool" where
  "key_char c \<longleftrightarrow> (97 \<le> c \<and> c \<le> 122) \<or> (65 \<le> c \<and> c \<le> 90) \<or> (48 \<le> c \<and> c \<le> 57) \<or> c = 95 \<or> c = 46 \<or> c = 45"

definition normalize_key :: "pystr \<Rightarrow> pystr" where
  "normalize_key value0 =
     (let value = re_sub (Plus (Cls (\<lambda>c. \<not> key_char c))) (\<lambda>_. [95])
            (py_lower (py_strip (str_or value0 (asc ''general''))))
      in str_or (take 120 value) (asc ''general''))"

definition infer_memory_key :: "pystr \<Rightarrow> pystr \<Rightarrow> pystr" where
  "infer_memory_key category content =
     (if category = (asc ''identity'') then (asc ''identity.display_name'')
      else if category = (asc ''profile'') then (asc ''profile.general'')
      else if category = (asc ''forget_request'') then (asc ''control.forget'')
      else if py_in [0x4e0d, 0x559c, 0x6b22] content then (asc ''preference.dislike'')
      else str_or category (asc ''memory'') @ (asc ''.general''))"

definition classify_memory :: "pystr \<Rightarrow> pystr \<times> pystr" where
  "classify_memory content =
     (if any_in [[0x53eb, 0x6211], [0x79f0, 0x547c, 0x6211], [0x6211, 0x662f], [0x6211, 0x53eb],
         [0x59d3, 0x540d], [0x540d, 0x5b57]] content
      then ((asc ''identity''), (asc ''identity.display_name''))
      else if any_in [[0x516c, 0x53f8], [0x56e2, 0x961f], [0x90e8, 0x95e8], [0x9879,
          0x76ee]] content then ((asc ''profile''), (asc ''profile.organization''))
      else if any_in [[0x559c, 0x6b22], [0x504f, 0x597d], [0x4e0d, 0x559c, 0x6b22], [0x4e60,
          0x60ef], [0x683c, 0x5f0f], [0x7b80, 0x6d01], [0x8be6, 0x7ec6]] content
      then ((asc ''preference''), (asc ''preference.general''))
      else ((asc ''preference''), (asc ''preference.general'')))"

section \<open>Candidates\<close>

record candidate =
  mc_content :: pystr
  mc_category :: pystr
  mc_key :: pystr
  mc_source :: pystr
  mc_confidence :: real
  mc_importance :: real
  mc_reason :: pystr

definition clamp01 :: "real \<Rightarrow> real" where
  "clamp01 x = max 0 (min 1 x)"

definition mk_candidate :: "pystr \<Rightarrow> pystr \<Rightarrow> pystr \<Rightarrow> pystr \<Rightarrow> real \<Rightarrow> real \<Rightarrow> pystr \<Rightarrow> candidate" where
  "mk_candidate content category memory_key source confidence importance reason =
     \<lparr>mc_content = normalize_memory content, mc_category = category, mc_key = normalize_key memory_key,
      mc_source = source, mc_confidence = clamp01 confidence, mc_importance = clamp01 importance,
      mc_reason = reason\<rparr>"

text \<open>The patterns; \<open>rest_of\<close> is \<open>\s*(.+)\<close>, \<open>short_name\<close> is \<open>\s*\<close> and up to 40 name characters.\<close>

definition colon :: re where
  "colon = Opt (Cls (\<lambda>c. c = 58 \<or> c = 0xFF1A))"

definition rest_of :: re where
  "rest_of = Cat Spaces (Grp (Plus Dot))"

definition name_stop :: "int \<Rightarrow> bool" where
  "name_stop c \<longleftrightarrow> py_space c \<or> c \<in> set ([0xff0c, 0x3002] @ asc '',.!'' @
      [0xff01] @ asc ''?'' @ [0xff1f])"

definition short_name :: re where
  "short_name = Cat Spaces (Grp (Cat (Cls (\<lambda>c. \<not> name_stop c)) (UpTo 39 (Cls (\<lambda>c. \<not> name_stop c)))))"

definition re_remember :: re where
  "re_remember = Cat (Opt (Lit [0x8bf7])) (Cat (Lit [0x8bb0, 0x4f4f]) (Cat colon rest_of))"

definition re_call_me :: re where
  "re_call_me = Cat (Lit [0x4ee5, 0x540e]) (Cat (Opt (Lit [0x8bf7])) (Cat (Opt (Lit [0x90fd]))
     (Cat (Alt (Lit [0x53eb, 0x6211]) (Lit [0x79f0, 0x547c, 0x6211])) (Cat colon short_name))))"

definition re_forget :: re where
  "re_forget = Cat (Alts [Lit [0x5fd8, 0x8bb0], Lit [0x5220, 0x9664, 0x8bb0, 0x5fc6], Lit [0x522b,
      0x518d, 0x8bb0, 0x4f4f]]) (Cat colon rest_of)"

definition re_name :: re where
  "re_name = Cat (Alts [Lit [0x6211, 0x662f], Lit [0x6211, 0x53eb], Lit [0x672c, 0x4eba, 0x662f]]) short_name"

definition re_like :: re where
  "re_like = Cat (Lit [0x6211]) (Cat (Opt (Lit [0x66f4])) (Cat (Alt (Lit [0x559c,
      0x6b22]) (Lit [0x504f, 0x597d])) rest_of))"

definition re_dislike :: re where
  "re_dislike = Cat (Lit [0x6211, 0x4e0d, 0x559c, 0x6b22]) rest_of"

definition re_org :: re where
  "re_org = Cat (Lit [0x6211, 0x7684]) (Cat (Alts [Lit [0x516c, 0x53f8], Lit [0x56e2, 0x961f],
      Lit [0x90e8, 0x95e8], Lit [0x9879, 0x76ee]])
     (Cat (Alts [Lit [0x662f], Lit [0x53eb], Lit [0x4e3a]]) rest_of))"

text \<open>\<open>if m: candidates.append(f(m.group(1)))\<close>\<close>

definition on_match :: "re \<Rightarrow> pystr \<Rightarrow> (pystr \<Rightarrow> candidate) \<Rightarrow> candidate list" where
  "on_match r s f = (case re_search1 r s of None \<Rightarrow> [] | Some g \<Rightarrow> [f g])"

definition extract_explicit :: "pystr \<Rightarrow> candidate list" where
  "extract_explicit s =
     on_match re_remember s (\<lambda>content. case classify_memory content of (category, key) \<Rightarrow>
       mk_candidate content category key (asc ''explicit'') 1 (9/10) (asc ''user asked to remember'')) @
     on_match re_call_me s (\<lambda>name.
       mk_candidate ([0x7528, 0x6237, 0x5e0c, 0x671b, 0x88ab, 0x79f0, 0x547c, 0x4e3a] @
           name) (asc ''identity'') (asc ''identity.display_name'') (asc ''explicit'') 1 (95/100) (asc ''preferred name'')) @
     on_match re_forget s (\<lambda>content.
       mk_candidate content (asc ''forget_request'') (asc ''control.forget'') (asc ''explicit'') 1 1 (asc ''forget request''))"

section \<open>Filters\<close>

definition looks_ephemeral :: "pystr \<Rightarrow> bool" where
  "looks_ephemeral s = any_in
     [[0x4eca, 0x5929], [0x660e, 0x5929], [0x521a, 0x624d], [0x73b0, 0x5728], [0x8fd9, 0x6b21],
         [0x4e34, 0x65f6], (asc ''today''), (asc ''tomorrow''), (asc ''right now'')] (py_lower s)"

definition looks_like_question :: "pystr \<Rightarrow> bool" where
  "looks_like_question s =
     (let lowered = py_strip (py_lower s)
      in list_ex (ends_with lowered) [(asc ''?''), [0xff1f], [0x5417], [0x4e48], [0x8c01], [0x4ec0,
          0x4e48], [0x5982, 0x4f55], [0x600e, 0x4e48],
           (asc ''where''), (asc ''what''), (asc ''who''), (asc ''how'')] \<or>
         any_in [[0x6211, 0x662f, 0x8c01], [0x4f60, 0x77e5, 0x9053, 0x6211, 0x662f, 0x8c01]] lowered)"

definition is_sensitive :: "pystr \<Rightarrow> bool" where
  "is_sensitive s = any_in
     [[0x5bc6, 0x7801], (asc ''api key''), (asc ''secret''), [0x8eab, 0x4efd, 0x8bc1], [0x94f6,
         0x884c, 0x5361], (asc ''token''), [0x79c1, 0x94a5]] (py_lower s)"

definition extract_stable_claims :: "pystr \<Rightarrow> candidate list" where
  "extract_stable_claims s =
     (if looks_like_question s then []
      else
        on_match re_name s (\<lambda>name.
          mk_candidate ([0x7528, 0x6237, 0x59d3, 0x540d, 0x6216, 0x81ea, 0x79f0, 0x662f] @
              name) (asc ''identity'') (asc ''identity.display_name'') (asc ''observed'') (9/10) (9/10)
            (asc ''self identification'')) @
        on_match re_like s (\<lambda>x.
          mk_candidate ([0x7528, 0x6237, 0x504f, 0x597d, 0xff1a] @
              x) (asc ''preference'') (asc ''preference.general'') (asc ''observed'') (75/100) (65/100)
            (asc ''stated preference'')) @
        on_match re_dislike s (\<lambda>x.
          mk_candidate ([0x7528, 0x6237, 0x4e0d, 0x559c, 0x6b22, 0xff1a] @
              x) (asc ''preference'') (asc ''preference.dislike'') (asc ''observed'') (75/100) (65/100)
            (asc ''stated dislike'')) @
        on_match re_org s (\<lambda>x.
          mk_candidate ([0x7528, 0x6237, 0x7ec4, 0x7ec7, 0x4fe1, 0x606f, 0xff1a] @
              x) (asc ''profile'') (asc ''profile.organization'') (asc ''observed'') (8/10) (7/10)
            (asc ''organization profile'')))"

section \<open>The model as second extractor\<close>

definition llm_prompt :: "pystr \<Rightarrow> pystr" where
  "llm_prompt s =
     (asc ''Extract durable user memories from the message. Return JSON only: '') @
     (asc ''{'' @ [34] @ asc ''memories'' @ [34] @ asc '':[{'' @ [34] @ asc ''content'' @ [34] @ asc '':'' @ [34] @ asc ''...'' @ [34] @ asc '','' @ [34] @ asc ''category'' @ [34] @ asc '':'' @ [34] @ asc ''identity|preference|profile|work_context|goal'' @ [34] @ asc '','') @
     ([34] @ asc ''memory_key'' @ [34] @ asc '':'' @ [34] @ asc ''stable dotted key'' @ [34] @ asc '','' @ [34] @ asc ''confidence'' @ [34] @ asc '':0.0,'' @ [34] @ asc ''importance'' @ [34] @ asc '':0.0,'' @ [34] @ asc ''reason'' @ [34] @ asc '':'' @ [34] @ asc ''...'' @ [34] @ asc ''}]}.'' @ [10]) @
     (asc ''Only include stable, future-useful information. Exclude secrets, health, financial, legal, one-off, or temporary details.'' @ [10]) @
     (asc ''Message: '') @ s"

text \<open>\<open>re.search(r"\{.*\}", raw, flags=re.S)\<close>: from the first opening brace to the last closing one after it.\<close>

definition brace_block :: "pystr \<Rightarrow> pystr option" where
  "brace_block raw =
     (let t = dropWhile (\<lambda>c. c \<noteq> 123) raw
      in case t of
           [] \<Rightarrow> None
         | c # u \<Rightarrow>
             let v = rev (dropWhile (\<lambda>c. c \<noteq> 125) (rev u))
             in if v = [] then None else Some (c # v))"

text \<open>
  A text field: every falsy value counts as the empty text (\<open>value or default\<close> in the
  normalisers), any other value that is no string makes \<open>.strip()\<close> raise. For the category and
  the reason, which are stored as they are, a truthy value that is no string is outside the model.
\<close>

definition json_text :: "json \<Rightarrow> pystr result" where
  "json_text j =
     (if \<not> truthy j then Inr []
      else case j of JStr s \<Rightarrow> Inr s | _ \<Rightarrow> Inl (OtherError (asc ''object has no attribute strip'')))"

definition candidate_of_item :: "json \<Rightarrow> candidate result" where
  "candidate_of_item item =
     rbind (rbind (json_get_or item (asc ''content'') (JStr [])) json_text) (\<lambda>content.
     rbind (rbind (json_get_or item (asc ''category'') (JStr (asc ''preference''))) json_text) (\<lambda>category.
     rbind (rbind (json_get_or item (asc ''memory_key'') (JStr [])) json_text) (\<lambda>key.
     rbind (rbind (json_get_or item (asc ''confidence'') (JReal (65/100))) py_float) (\<lambda>confidence.
     rbind (rbind (json_get_or item (asc ''importance'') (JReal (55/100))) py_float) (\<lambda>importance.
     rbind (rbind (json_get_or item (asc ''reason'') (JStr (asc ''llm extracted''))) json_text) (\<lambda>reason.
       Inr (mk_candidate content category key (asc ''observed'') confidence importance reason)))))))"

fun is_obj :: "json \<Rightarrow> bool" where
  "is_obj (JObj kvs) = True"
| "is_obj _ = False"

definition parse_candidates :: "(pystr \<Rightarrow> json result) \<Rightarrow> pystr \<Rightarrow> candidate list result" where
  "parse_candidates loads response =
     (case brace_block (py_strip response) of
        None \<Rightarrow> Inr []
      | Some block \<Rightarrow>
          rbind (loads block) (\<lambda>payload.
          rbind (json_get_or payload (asc ''memories'') (JArr [])) (\<lambda>memories.
          rbind (json_iter memories) (\<lambda>items. mapr candidate_of_item (filter is_obj items)))))"

text \<open>\<open>_llm_extract_candidates\<close>: any exception yields no candidate. The count is of model calls.\<close>

definition llm_extract_candidates ::
  "graph_env \<Rightarrow> (pystr \<Rightarrow> json result) \<Rightarrow> nat \<Rightarrow> pystr \<Rightarrow> nat \<times> candidate list" where
  "llm_extract_candidates env loads n s =
     (case invoke_llm env n (llm_prompt s) of
        (n', Inl e) \<Rightarrow> (n', [])
      | (n', Inr response) \<Rightarrow>
          (n', case parse_candidates loads response of Inl e \<Rightarrow> [] | Inr cs \<Rightarrow> cs))"

section \<open>De-duplication\<close>

definition dedup_step :: "candidate \<Rightarrow> (pystr, candidate) dict \<Rightarrow> (pystr, candidate) dict" where
  "dedup_step cand0 deduped =
     (let content = normalize_memory (mc_content cand0)
      in if content = [] \<or> length content > 500 then deduped
         else
           let key = normalize_key (str_or (mc_key cand0) (infer_memory_key (mc_category cand0) content));
               cand = cand0\<lparr>mc_content := content, mc_key := key\<rparr>
           in case dict_get deduped key of
                Some existing \<Rightarrow>
                  if mc_source existing = (asc ''explicit'') \<and> mc_source cand \<noteq> (asc ''explicit'') then deduped
                  else dict_put key cand deduped
              | None \<Rightarrow> dict_put key cand deduped)"

definition dedup_candidates :: "candidate list \<Rightarrow> candidate list" where
  "dedup_candidates cs = take 5 (dict_values (fold dedup_step cs []))"

definition extract_memory_candidates ::
  "graph_env \<Rightarrow> (pystr \<Rightarrow> json result) \<Rightarrow> nat \<Rightarrow> pystr \<Rightarrow> nat \<times> candidate list" where
  "extract_memory_candidates env loads n s =
     (let normalized = normalize_memory s
      in if normalized = [] \<or> looks_like_question normalized then (n, [])
         else
           let found = extract_explicit normalized @ extract_stable_claims normalized
           in if found \<noteq> [] then (n, dedup_candidates found)
              else
                let (n', cs) = llm_extract_candidates env loads n normalized
                in (n', dedup_candidates cs))"

text \<open>The filter of \<open>maybe_store_memories_from_turn\<close>.\<close>

definition storable :: "candidate \<Rightarrow> bool" where
  "storable c \<longleftrightarrow> \<not> (looks_ephemeral (mc_content c) \<or> is_sensitive (mc_content c)) \<and>
     \<not> mc_confidence c < 75/100"

section \<open>Facts about contents\<close>

lemma normalize_memory_squeeze: "normalize_memory s = squeeze py_space 32 (py_strip s)"
  by (simp add: normalize_memory_def squeeze_def)

text \<open>The normal form of a content: trimmed, with single blanks between words.\<close>

definition content_form :: "pystr \<Rightarrow> bool" where
  "content_form s \<longleftrightarrow> squeezed py_space 32 s \<and>
     (s = [] \<or> (\<not> py_space (hd s) \<and> \<not> py_space (last s)))"

lemma content_form_normalize: "content_form (normalize_memory s)"
proof (cases "py_strip s = []")
  case True
  then show ?thesis by (simp add: normalize_memory_squeeze content_form_def)
next
  case False
  then have "\<not> py_space (hd (py_strip s))" "\<not> py_space (last (py_strip s))"
    by (simp_all add: py_strip_def strip_by_hd strip_by_last)
  moreover have "py_space 32" by (simp add: py_space_def)
  ultimately show ?thesis using False
    by (simp add: normalize_memory_squeeze content_form_def squeezed_squeeze squeeze_hd squeeze_last)
qed

lemma normalize_memory_idle: "content_form s \<Longrightarrow> normalize_memory s = s"
  by (auto simp: normalize_memory_squeeze content_form_def squeeze_squeezed py_strip_def strip_by_idle)

lemma normalize_memory_idem [simp]: "normalize_memory (normalize_memory s) = normalize_memory s"
  by (rule normalize_memory_idle) (rule content_form_normalize)

section \<open>Facts about keys\<close>

definition key_form :: "pystr \<Rightarrow> bool" where
  "key_form k \<longleftrightarrow> k \<noteq> [] \<and> length k \<le> 120 \<and> (\<forall>c\<in>set k. key_char c \<and> \<not> is_ascii_upper c)"

abbreviation not_key :: "int \<Rightarrow> bool" where
  "not_key \<equiv> \<lambda>c. \<not> key_char c"

lemma normalize_key_squeeze:
  "normalize_key v = str_or (take 120 (squeeze not_key 95 (py_lower (py_strip (str_or v (asc ''general'')))))) (asc ''general'')"
  by (simp add: normalize_key_def squeeze_def Let_def)

lemma key_form_general: "key_form (asc ''general'')"
  by (simp add: key_form_def key_char_def is_ascii_upper_def)

lemma key_form_normalize: "key_form (normalize_key v)"
proof -
  define w where "w = py_lower (py_strip (str_or v (asc ''general'')))"
  define k where "k = take 120 (squeeze not_key 95 w)"
  have "key_char c \<and> \<not> is_ascii_upper c" if "c \<in> set k" for c
  proof -
    have "c \<in> set (squeeze not_key 95 w)" using that unfolding k_def by (rule in_set_takeD)
    then have "c = 95 \<or> (c \<in> set w \<and> key_char c)" using squeeze_set by fastforce
    moreover have "\<not> is_ascii_upper c" if "c \<in> set w"
      using that unfolding w_def by (rule py_lower_not_upper)
    moreover have "key_char 95" "\<not> is_ascii_upper 95" by (simp_all add: key_char_def is_ascii_upper_def)
    ultimately show ?thesis by blast
  qed
  then have ch: "\<forall>c\<in>set k. key_char c \<and> \<not> is_ascii_upper c" by blast
  have len: "length k \<le> 120" unfolding k_def by simp
  from ch len have "key_form k" if "k \<noteq> []" using that unfolding key_form_def by blast
  then have "key_form (str_or k (asc ''general''))"
    by (cases "k = []") (simp_all only: str_or_def key_form_general if_True if_False simp_thms)
  then show ?thesis unfolding normalize_key_squeeze k_def w_def .
qed

lemma normalize_key_idle: "key_form k \<Longrightarrow> normalize_key k = k"
proof -
  assume k: "key_form k"
  have "\<not> py_space c" if "key_char c" for c using that by (auto simp: key_char_def py_space_def)
  then have "py_strip k = k" using k
    by (auto simp: key_form_def py_strip_def intro!: strip_by_idle)
  moreover have "py_lower k = k" using k
    by (intro py_lower_fixed) (auto simp: key_form_def key_char_def)
  ultimately show ?thesis using k
    by (simp add: normalize_key_squeeze str_or_def key_form_def squeeze_idle)
qed

text \<open>A normalised memory key is a canonical identifier: never empty,
  at most 120 characters, lower-case ASCII letters, digits, underscore, dot and hyphen only, and
  normalising it again changes nothing.\<close>

theorem normalize_key_canonical:
  "key_form (normalize_key v) \<and> normalize_key (normalize_key v) = normalize_key v"
  by (simp add: key_form_normalize normalize_key_idle)

text \<open>A key without a single permitted character becomes one underscore.\<close>

lemma squeeze_all: "s \<noteq> [] \<Longrightarrow> \<forall>c\<in>set s. p c \<Longrightarrow> squeeze p r s = [r]"
  by (cases s) (auto simp: squeeze_Cons dropWhile_eq_Nil_conv [THEN iffD2])

text \<open>Every key written in characters of the CJK block is normalised to
  the single key \<open>_\<close>, so two memories with different Chinese keys share one key (and the later
  one overwrites the earlier).\<close>

theorem normalize_key_collapses:
  assumes "v \<noteq> []" and "\<forall>c\<in>set v. 0x4E00 \<le> c \<and> c \<le> 0x9FFF"
  shows "normalize_key v = (asc ''_'')"
proof -
  have sp: "\<forall>c\<in>set v. \<not> py_space c \<and> \<not> key_char c" using assms(2)
    by (auto simp: py_space_def key_char_def)
  then have "py_strip v = v" using assms(1) by (auto simp: py_strip_def intro!: strip_by_idle)
  moreover have "py_lower v = v" using assms(2) by (intro py_lower_fixed) auto
  ultimately show ?thesis using assms(1) sp
    by (simp add: normalize_key_squeeze str_or_def squeeze_all)
qed

theorem normalize_key_collapses_witness:
  "normalize_key [0x516c, 0x53f8] = (asc ''_'') \<and> normalize_key [0x559c, 0x597d] = (asc ''_'')"
  using normalize_key_collapses [of "[0x516c, 0x53f8]"] normalize_key_collapses [of "[0x559c, 0x597d]"]
  by simp

section \<open>Facts about the de-duplication\<close>

definition unit_range :: "candidate \<Rightarrow> bool" where
  "unit_range c \<longleftrightarrow> 0 \<le> mc_confidence c \<and> mc_confidence c \<le> 1 \<and> 0 \<le> mc_importance c \<and> mc_importance c \<le> 1"

definition storable_size :: "candidate \<Rightarrow> bool" where
  "storable_size c \<longleftrightarrow> normalize_memory (mc_content c) \<noteq> [] \<and> length (normalize_memory (mc_content c)) \<le> 500"

definition candidate_ok :: "candidate \<Rightarrow> bool" where
  "candidate_ok c \<longleftrightarrow> mc_content c \<noteq> [] \<and> length (mc_content c) \<le> 500 \<and> content_form (mc_content c) \<and>
     key_form (mc_key c) \<and> unit_range c"

definition dedup_key :: "candidate \<Rightarrow> pystr" where
  "dedup_key c = normalize_key (str_or (mc_key c) (infer_memory_key (mc_category c) (normalize_memory (mc_content c))))"

definition dedup_candidate :: "candidate \<Rightarrow> candidate" where
  "dedup_candidate c = c\<lparr>mc_content := normalize_memory (mc_content c), mc_key := dedup_key c\<rparr>"

abbreviation explicit :: "candidate \<Rightarrow> bool" where
  "explicit c \<equiv> mc_source c = (asc ''explicit'')"

lemma dedup_step_alt:
  "dedup_step c d =
     (if storable_size c \<and> (\<forall>e. dict_get d (dedup_key c) = Some e \<longrightarrow> explicit e \<longrightarrow> explicit c)
      then dict_put (dedup_key c) (dedup_candidate c) d else d)"
  by (cases "dict_get d (dedup_key c)")
     (auto simp: dedup_step_def storable_size_def dedup_candidate_def Let_def dedup_key_def
           simp del: asc_Cons)

definition dedup_inv :: "(candidate \<Rightarrow> bool) \<Rightarrow> (pystr, candidate) dict \<Rightarrow> bool" where
  "dedup_inv P d \<longleftrightarrow> distinct (map fst d) \<and> (\<forall>(k, c)\<in>set d. k = mc_key c \<and> P c)"

lemma dict_put_set: "set (dict_put k v d) \<subseteq> insert (k, v) (set d)"
  by (induction d) auto

lemma dedup_inv_step:
  "dedup_inv P d \<Longrightarrow> (storable_size c \<Longrightarrow> P (dedup_candidate c)) \<Longrightarrow> dedup_inv P (dedup_step c d)"
  using dict_put_set [of "dedup_key c" "dedup_candidate c" d]
  by (auto simp: dedup_step_alt dedup_inv_def distinct_update dedup_candidate_def)

lemma dedup_inv_fold:
  "dedup_inv P d \<Longrightarrow> (\<And>c. c \<in> set cs \<Longrightarrow> storable_size c \<Longrightarrow> P (dedup_candidate c)) \<Longrightarrow>
   dedup_inv P (fold dedup_step cs d)"
proof (induction cs arbitrary: d)
  case (Cons c cs)
  have "dedup_inv P (dedup_step c d)" using Cons.prems by (intro dedup_inv_step) auto
  then show ?case using Cons by simp
qed simp

lemma dedup_keys: "dedup_inv P d \<Longrightarrow> map mc_key (dict_values d) = map fst d"
  by (induction d) (auto simp: dedup_inv_def dict_values_def)

lemma dedup_candidate_ok: "storable_size c \<Longrightarrow> unit_range c \<Longrightarrow> candidate_ok (dedup_candidate c)"
  by (simp add: candidate_ok_def dedup_candidate_def storable_size_def content_form_normalize
      unit_range_def dedup_key_def key_form_normalize)

lemma dedup_inv_start [simp]: "dedup_inv P []"
  by (simp add: dedup_inv_def)

lemma dedup_candidates_props:
  assumes "\<forall>c\<in>set cs. unit_range c"
  shows "length (dedup_candidates cs) \<le> 5 \<and> distinct (map mc_key (dedup_candidates cs)) \<and>
    (\<forall>c\<in>set (dedup_candidates cs). candidate_ok c)"
proof -
  let ?d = "fold dedup_step cs []"
  have inv: "dedup_inv candidate_ok ?d"
    using assms by (intro dedup_inv_fold) (auto intro: dedup_candidate_ok)
  have "distinct (map mc_key (dict_values ?d))"
    using dedup_keys [OF inv] inv by (simp add: dedup_inv_def)
  then have "distinct (map mc_key (dedup_candidates cs))"
    by (simp add: dedup_candidates_def take_map [symmetric] distinct_take)
  moreover have "\<forall>c\<in>set (dict_values ?d). candidate_ok c"
    using inv by (auto simp: dedup_inv_def dict_values_def)
  ultimately show ?thesis by (auto simp: dedup_candidates_def dest: in_set_takeD)
qed

text \<open>An explicit candidate of sufficient size is never displaced by an observed one.\<close>

lemma dedup_explicit_kept:
  "dict_get d k = Some e \<Longrightarrow> explicit e \<Longrightarrow> \<exists>e'. dict_get (dedup_step c d) k = Some e' \<and> explicit e'"
  by (auto simp: dedup_step_alt update_conv' dedup_candidate_def simp del: asc_Cons)

lemma dedup_explicit_fold:
  "dict_get d k = Some e \<Longrightarrow> explicit e \<Longrightarrow>
   \<exists>e'. dict_get (fold dedup_step cs d) k = Some e' \<and> explicit e'"
proof (induction cs arbitrary: d e)
  case (Cons c cs)
  then obtain e' where "dict_get (dedup_step c d) k = Some e'" "explicit e'"
    using dedup_explicit_kept by blast
  then show ?case using Cons.IH by simp
qed (auto simp del: asc_Cons)

lemma dedup_explicit_wins:
  assumes "c \<in> set cs" "explicit c" "storable_size c"
  shows "\<exists>e. dict_get (fold dedup_step cs d) (dedup_key c) = Some e \<and> explicit e"
proof -
  obtain us vs where cs: "cs = us @ c # vs" using assms(1) by (meson split_list)
  let ?d = "dedup_step c (fold dedup_step us d)"
  have "dict_get ?d (dedup_key c) = Some (dedup_candidate c)"
    using assms(2,3) by (auto simp: dedup_step_alt update_conv' simp del: asc_Cons)
  moreover have "explicit (dedup_candidate c)" using assms(2) by (simp add: dedup_candidate_def)
  ultimately show ?thesis using dedup_explicit_fold unfolding cs by fastforce
qed

section \<open>Facts about the extraction\<close>

lemma unit_range_mk: "unit_range (mk_candidate content category key source conf imp reason)"
  by (simp add: unit_range_def mk_candidate_def clamp01_def)

lemma on_match_set: "c \<in> set (on_match r s f) \<Longrightarrow> \<exists>g. c = f g"
  by (auto simp: on_match_def split: option.splits)

text \<open>The keys the rules can produce, five in all.\<close>

definition stable_keys :: "pystr list" where
  "stable_keys = [(asc ''identity.display_name''), (asc ''profile.organization''), (asc ''preference.general''),
     (asc ''preference.dislike'')]"

definition rule_keys :: "pystr list" where
  "rule_keys = stable_keys @ [(asc ''control.forget'')]"

lemma key_form_rule_keys: "\<forall>k\<in>set rule_keys. key_form k"
  by (simp add: rule_keys_def stable_keys_def key_form_def key_char_def is_ascii_upper_def)

definition made_by :: "pystr list \<Rightarrow> candidate \<Rightarrow> bool" where
  "made_by ks c \<longleftrightarrow> (\<exists>content category key source conf imp reason. key \<in> set ks \<and>
     c = mk_candidate content category key source conf imp reason)"

abbreviation rule_made :: "candidate \<Rightarrow> bool" where
  "rule_made \<equiv> made_by rule_keys"

lemma made_byI: "key \<in> set ks \<Longrightarrow> made_by ks (mk_candidate content category key source conf imp reason)"
  unfolding made_by_def by blast

lemma made_by_mono: "made_by ks c \<Longrightarrow> set ks \<subseteq> set ks' \<Longrightarrow> made_by ks' c"
  unfolding made_by_def by blast

lemma extract_explicit_made: "c \<in> set (extract_explicit s) \<Longrightarrow> rule_made c \<and> explicit c"
  unfolding extract_explicit_def set_append Un_iff
  by (elim disjE; drule on_match_set; elim exE)
     (simp_all add: classify_memory_def mk_candidate_def [of _ _ _ "(asc ''explicit'')"]
        made_byI [unfolded mk_candidate_def] rule_keys_def stable_keys_def del: asc_Cons)

lemma extract_stable_made: "c \<in> set (extract_stable_claims s) \<Longrightarrow> made_by stable_keys c"
  unfolding extract_stable_claims_def
  by (cases "looks_like_question s"; simp only: if_True if_False list.set empty_iff set_append Un_iff)
     (elim disjE; drule on_match_set; elim exE; simp add: made_byI stable_keys_def del: asc_Cons)

lemma made_by_key:
  assumes "made_by ks c" and "set ks \<subseteq> set rule_keys"
  shows "mc_key c \<in> set ks" and "dedup_key c = mc_key c" and "unit_range c"
proof -
  from assms(1) obtain content category key source conf imp reason
    where key: "key \<in> set ks" and c: "c = mk_candidate content category key source conf imp reason"
    unfolding made_by_def by blast
  have kf: "key_form key" using key assms(2) key_form_rule_keys by blast
  then have k: "mc_key c = key" by (simp add: c mk_candidate_def normalize_key_idle)
  then show "mc_key c \<in> set ks" using key by simp
  show "dedup_key c = mc_key c" using kf k
    by (auto simp: dedup_key_def str_or_def normalize_key_idle key_form_def)
  show "unit_range c" unfolding c by (rule unit_range_mk)
qed

lemmas rule_made_key = made_by_key [OF _ subset_refl]

text \<open>With at most five keys the limit of five results cuts nothing off.\<close>

lemma dedup_candidates_rules:
  assumes "\<forall>c\<in>set cs. rule_made c"
  shows "dedup_candidates cs = dict_values (fold dedup_step cs [])"
proof -
  let ?d = "fold dedup_step cs []"
  have inv: "dedup_inv (\<lambda>c. mc_key c \<in> set rule_keys) ?d"
    using assms rule_made_key by (intro dedup_inv_fold) (auto simp: dedup_candidate_def)
  then have "set (map fst ?d) \<subseteq> set rule_keys" "distinct (map fst ?d)"
    by (auto simp: dedup_inv_def)
  then have "length (map fst ?d) \<le> length rule_keys"
    by (metis card_mono card_length distinct_card finite_set order_trans)
  then have "length (dict_values ?d) \<le> 5" by (simp add: dict_values_def rule_keys_def stable_keys_def)
  then show ?thesis by (simp add: dedup_candidates_def)
qed

lemma stable_keys_sub: "set stable_keys \<subseteq> set rule_keys"
  by (auto simp: rule_keys_def)

abbreviation rule_candidates :: "pystr \<Rightarrow> candidate list" where
  "rule_candidates s \<equiv> extract_explicit (normalize_memory s) @ extract_stable_claims (normalize_memory s)"

lemma rule_candidates_made: "c \<in> set (rule_candidates s) \<Longrightarrow> rule_made c"
  using extract_explicit_made made_by_mono [OF extract_stable_made stable_keys_sub] by auto

lemma parse_candidates_range:
  "parse_candidates loads r = Inr cs \<Longrightarrow> c \<in> set cs \<Longrightarrow> unit_range c"
  unfolding parse_candidates_def
  by (auto split: option.splits simp: rbind_Inr_iff candidate_of_item_def unit_range_mk dest!: mapr_in)

lemma llm_extract_candidates_range:
  "c \<in> set (snd (llm_extract_candidates env loads n s)) \<Longrightarrow> unit_range c"
  by (auto simp: llm_extract_candidates_def split: prod.splits sum.splits dest: parse_candidates_range [OF sym])

lemma llm_extract_candidates_calls:
  "fst (llm_extract_candidates env loads n s) \<le> n + 3"
  using invoke_llm_spec [of env n "llm_prompt s"]
  by (auto simp: llm_extract_candidates_def split: prod.splits sum.splits)

text \<open>Whatever the message and the model, extraction returns at most five
  candidates with pairwise different canonical keys, each with a trimmed, single-spaced, non-empty
  content of at most 500 characters and a confidence and importance between 0 and 1; an empty
  message or a question yields none; and the model is called (at most three times) only when no
  rule applies.\<close>

theorem memory_candidates_sound:
  assumes run: "extract_memory_candidates env loads n s = (n', cs)"
  shows "length cs \<le> 5 \<and> distinct (map mc_key cs) \<and> (\<forall>c\<in>set cs. candidate_ok c) \<and>
    (normalize_memory s = [] \<or> looks_like_question (normalize_memory s) \<longrightarrow> n' = n \<and> cs = []) \<and>
    n' \<le> n + 3 \<and> (rule_candidates s \<noteq> [] \<longrightarrow> n' = n)"
proof -
  have rules: "\<forall>c\<in>set (rule_candidates s). unit_range c"
    using rule_candidates_made rule_made_key(3) by blast
  show ?thesis
  proof (cases "normalize_memory s = [] \<or> looks_like_question (normalize_memory s)")
    case True
    with run show ?thesis by (auto simp: extract_memory_candidates_def Let_def)
  next
    case no: False
    show ?thesis
    proof (cases "rule_candidates s = []")
      case True
      let ?l = "llm_extract_candidates env loads n (normalize_memory s)"
      have "n' = fst ?l" "cs = dedup_candidates (snd ?l)"
        using run no True by (auto simp: extract_memory_candidates_def Let_def split: prod.splits)
      then show ?thesis
        using no True llm_extract_candidates_calls [of env loads n]
          dedup_candidates_props [of "snd ?l"] llm_extract_candidates_range by auto
    next
      case False
      then have "n' = n" "cs = dedup_candidates (rule_candidates s)"
        using run no by (auto simp: extract_memory_candidates_def Let_def)
      then show ?thesis using no dedup_candidates_props [OF rules] by auto
    qed
  qed
qed

text \<open>An example environment: \<open>json.loads\<close> never succeeds.\<close>

definition demo_message :: pystr where
  "demo_message = ([0x8bf7, 0x8bb0, 0x4f4f, 0xff1a, 0x6211, 0x53eb] @
      asc '' Li'')" (* remember: I am called Li *)

definition demo_forget :: pystr where
  "demo_forget = ([0x522b, 0x518d, 0x8bb0, 0x4f4f] @ asc '' Li'')" (* do not remember Li any more *)

lemma extraction_by_rules:
  assumes "\<not> looks_like_question (normalize_memory s)" and "rule_candidates s \<noteq> []"
  shows "extract_memory_candidates env loads n s = (n, dict_values (fold dedup_step (rule_candidates s) []))"
proof -
  have "normalize_memory s \<noteq> []"
  proof
    assume e: "normalize_memory s = []"
    have "re_search1 r [] = None" if "r \<in> {re_remember, re_call_me, re_forget, re_name, re_like, re_dislike, re_org}" for r
      using that by (auto simp: re_search1_def re_first_def re_remember_def re_call_me_def re_forget_def
        re_name_def re_like_def re_dislike_def re_org_def Opt_def Chr_def)
    then have "rule_candidates s = []"
      by (simp add: e extract_explicit_def extract_stable_claims_def on_match_def)
    then show False using assms(2) by blast
  qed
  then show ?thesis
    using assms dedup_candidates_rules [of "rule_candidates s"] rule_candidates_made
    by (simp add: extract_memory_candidates_def Let_def)
qed

lemma extracted_of_get:
  "dict_get (fold dedup_step cs []) k = Some e \<Longrightarrow>
   e \<in> set (dict_values (fold dedup_step cs [])) \<and> mc_key e = k"
proof -
  assume g: "dict_get (fold dedup_step cs []) k = Some e"
  have "dedup_inv (\<lambda>_. True) (fold dedup_step cs [])" by (intro dedup_inv_fold) auto
  then show ?thesis using map_of_SomeD [OF g] by (force simp: dedup_inv_def dict_values_def)
qed

text \<open>An explicit request (remember, call me, forget) is never lost to a
  softer observation of the same message: for every candidate of sufficient size that the explicit
  rules find in a statement, the result holds an explicit candidate under its key, and the model
  is not called.\<close>

theorem explicit_memory_wins:
  assumes "\<not> looks_like_question (normalize_memory s)"
    and c: "c \<in> set (extract_explicit (normalize_memory s))" and size: "storable_size c"
  shows "\<exists>cs. extract_memory_candidates env loads n s = (n, cs) \<and>
    (\<exists>e\<in>set cs. mc_key e = mc_key c \<and> explicit e)"
proof -
  have key: "dedup_key c = mc_key c" using extract_explicit_made [OF c] rule_made_key(2) by blast
  have "c \<in> set (rule_candidates s)" using c by simp
  then obtain e where e: "dict_get (fold dedup_step (rule_candidates s) []) (mc_key c) = Some e" "explicit e"
    using dedup_explicit_wins [OF _ _ size] extract_explicit_made [OF c] unfolding key by blast
  have "rule_candidates s \<noteq> []" using c by (cases "extract_explicit (normalize_memory s)") auto
  from extraction_by_rules [OF assms(1) this] extracted_of_get [OF e(1)] e(2) show ?thesis by blast
qed

lemma dedup_other_key: "\<forall>c\<in>set cs. dedup_key c \<noteq> k \<Longrightarrow> dict_get (fold dedup_step cs d) k = dict_get d k"
  by (induction cs arbitrary: d) (auto simp: dedup_step_alt update_conv' simp del: asc_Cons)

text \<open>A request to forget something is kept as a memory of its own: the
  text to be forgotten becomes a candidate of category \<open>forget_request\<close> with confidence 1, which
  passes the storage filter unless it mentions a day or a secret. Nothing in the program acts on
  that category, so the request adds the text to the memories instead of removing it.\<close>

theorem forget_request_is_stored:
  assumes "\<not> looks_like_question (normalize_memory s)"
    and g: "re_search1 re_forget (normalize_memory s) = Some g"
    and len: "normalize_memory g \<noteq> []" "length (normalize_memory g) \<le> 500"
  shows "\<exists>cs. extract_memory_candidates env loads n s = (n, cs) \<and>
    (\<exists>c\<in>set cs. mc_category c = (asc ''forget_request'') \<and> mc_content c = normalize_memory g \<and>
       (storable c \<longleftrightarrow> \<not> looks_ephemeral (mc_content c) \<and> \<not> is_sensitive (mc_content c)))"
proof -
  let ?f = "mk_candidate g (asc ''forget_request'') (asc ''control.forget'') (asc ''explicit'') 1 1 (asc ''forget request'')"
  obtain us where us: "extract_explicit (normalize_memory s) = us @ [?f]"
    using g by (simp add: extract_explicit_def on_match_def del: asc_Cons)
  let ?ss = "extract_stable_claims (normalize_memory s)" and ?d = "fold dedup_step us []"
  have made: "rule_made ?f" by (rule made_byI) (simp add: rule_keys_def)
  have "normalize_key (asc ''control.forget'') = (asc ''control.forget'')"
    by (rule normalize_key_idle) (use key_form_rule_keys in \<open>simp add: rule_keys_def\<close>)
  then have key: "dedup_key ?f = (asc ''control.forget'')"
    using rule_made_key(2) [OF made] by (simp add: mk_candidate_def del: asc_Cons)
  have "storable_size ?f" using len by (simp add: storable_size_def mk_candidate_def)
  moreover have exp: "explicit ?f" by (simp add: mk_candidate_def del: asc_Cons)
  ultimately have "dict_get (dedup_step ?f ?d) (asc ''control.forget'') = Some (dedup_candidate ?f)"
    using exp by (simp add: dedup_step_alt update_conv' key del: asc_Cons)
  moreover have "\<forall>c\<in>set ?ss. dedup_key c \<noteq> (asc ''control.forget'')"
  proof
    fix c assume "c \<in> set ?ss"
    from made_by_key(1,2) [OF extract_stable_made [OF this]]
    show "dedup_key c \<noteq> (asc ''control.forget'')" by (auto simp: rule_keys_def stable_keys_def)
  qed
  ultimately have "dict_get (fold dedup_step (rule_candidates s) []) (asc ''control.forget'') = Some (dedup_candidate ?f)"
    unfolding us by (simp add: dedup_other_key del: asc_Cons)
  from extracted_of_get [OF this] extraction_by_rules [OF assms(1)] us
  have "\<exists>cs. extract_memory_candidates env loads n s = (n, cs) \<and> dedup_candidate ?f \<in> set cs" by simp
  then show ?thesis
    by (rule ex_forward) (auto simp: dedup_candidate_def mk_candidate_def storable_def clamp01_def
        simp del: asc_Cons intro!: bexI [of _ "dedup_candidate ?f"])
qed


text \<open>Both rules fire on the demonstration: \<open>do not remember X\<close> contains \<open>remember X\<close>, so the text is
  also stored as an ordinary memory.\<close>

lemma demo_searches:
  "\<not> looks_like_question (normalize_memory demo_message)"
  "re_search1 re_remember (normalize_memory demo_message) = Some ([0x6211, 0x53eb] @ asc '' Li'')"
  "\<not> looks_like_question (normalize_memory demo_forget)"
  "re_search1 re_remember (normalize_memory demo_forget) = Some (asc ''Li'')"
  "re_search1 re_forget (normalize_memory demo_forget) = Some (asc ''Li'')"
  by code_simp+

text \<open>A decoder that accepts nothing.\<close>

abbreviation no_json :: "pystr \<Rightarrow> json result" where
  "no_json \<equiv> \<lambda>_. Inl (ValueError [])"

theorem memory_candidates_sound_witness:
  "\<exists>n cs. extract_memory_candidates demo_graph_env no_json 0 demo_message = (n, cs) \<and>
     length cs \<le> 5 \<and> distinct (map mc_key cs)"
proof -
  obtain n cs where "extract_memory_candidates demo_graph_env no_json 0 demo_message = (n, cs)"
    by (cases "extract_memory_candidates demo_graph_env no_json 0 demo_message") auto
  with memory_candidates_sound [OF this] show ?thesis by blast
qed

theorem explicit_memory_wins_witness:
  "\<exists>cs. extract_memory_candidates demo_graph_env no_json 0 demo_message = (0, cs) \<and>
     (\<exists>e\<in>set cs. mc_key e = (asc ''identity.display_name'') \<and> explicit e)"
proof -
  let ?c = "mk_candidate ([0x6211, 0x53eb] @
      asc '' Li'') (asc ''identity'') (asc ''identity.display_name'') (asc ''explicit'') 1 (9/10) (asc ''user asked to remember'')"
  have cl: "classify_memory ([0x6211, 0x53eb] @ asc '' Li'') = ((asc ''identity''),
      (asc ''identity.display_name''))" by code_simp
  have "?c \<in> set (on_match re_remember (normalize_memory demo_message) (\<lambda>content.
      case classify_memory content of (category, key) \<Rightarrow>
        mk_candidate content category key (asc ''explicit'') 1 (9/10) (asc ''user asked to remember'')))"
    unfolding on_match_def demo_searches(2) option.case cl prod.case by (rule list.set_intros)
  then have c: "?c \<in> set (extract_explicit (normalize_memory demo_message))"
    unfolding extract_explicit_def set_append by blast
  have "normalize_memory (normalize_memory ([0x6211, 0x53eb] @ asc '' Li'')) = ([0x6211, 0x53eb] @
      asc '' Li'')" by code_simp
  then have "storable_size ?c" by (simp add: storable_size_def mk_candidate_def)
  moreover have "mc_key ?c = (asc ''identity.display_name'')"
    unfolding mk_candidate_def by (simp add: normalize_key_idle key_form_rule_keys [unfolded rule_keys_def stable_keys_def, simplified])
  ultimately show ?thesis using explicit_memory_wins [OF demo_searches(1) c] by metis
qed

theorem forget_request_is_stored_witness:
  "\<exists>cs. extract_memory_candidates demo_graph_env no_json 0 demo_forget = (0, cs) \<and>
     (\<exists>c\<in>set cs. mc_category c = (asc ''forget_request'') \<and> mc_content c = (asc ''Li'') \<and> storable c)"
proof -
  have n: "normalize_memory (asc ''Li'') = (asc ''Li'')" by code_simp
  have no: "\<not> looks_ephemeral (asc ''Li'')" "\<not> is_sensitive (asc ''Li'')" by code_simp+
  have len: "(asc ''Li'') \<noteq> []" "length (asc ''Li'') \<le> 500" by simp_all
  obtain cs c where cs: "extract_memory_candidates demo_graph_env no_json 0 demo_forget = (0, cs)"
      "c \<in> set cs" "mc_category c = (asc ''forget_request'')" "mc_content c = (asc ''Li'')"
    and st: "storable c \<longleftrightarrow> \<not> looks_ephemeral (mc_content c) \<and> \<not> is_sensitive (mc_content c)"
    using forget_request_is_stored [OF demo_searches(3,5), unfolded n, OF len] by blast
  have "storable c" using st no unfolding cs(4) by blast
  with cs show ?thesis by blast
qed

end
