(* ===== verification/Accounts.thy ===== *)
theory Accounts
  imports Py_Json
begin

text \<open>
  Users, tokens and the dependencies of the routes: \<open>backend/services/auth_service.py\<close>,
  \<open>backend/api/deps.py\<close> and \<open>backend/models/user.py\<close>. The password hash (\<open>bcrypt\<close>) and the
  token codec (\<open>jose.jwt\<close>) are parameters, fields of \<open>auth_env\<close>; the table of users is an explicit
  state. The name of the error codes is the string constant of \<open>ErrorCode\<close>.
\<close>

section \<open>Data\<close>

datatype user_role = Role_user | Role_admin

fun role_value :: "user_role \<Rightarrow> pystr" where
  "role_value Role_user = (asc ''user'')"
| "role_value Role_admin = (asc ''admin'')"

record user =
  u_id :: int
  u_email :: pystr
  u_username :: pystr
  u_hash :: pystr
  u_role :: user_role
  u_active :: bool

record user_db =
  ud_users :: "user list"
  ud_next :: int

text \<open>What \<open>jwt.decode\<close> raises: an expired signature, or any other \<open>JWTError\<close>.\<close>

datatype jwt_error = Expired_signature | Jwt_error

record auth_env =
  ae_require_auth :: bool
  ae_expire_minutes :: int
  ae_hashpw :: "pystr \<Rightarrow> pystr"
  ae_checkpw :: "pystr \<Rightarrow> pystr \<Rightarrow> bool result"
  ae_encode :: "json \<Rightarrow> pystr"
  ae_decode :: "int \<Rightarrow> pystr \<Rightarrow> jwt_error + json"

section \<open>Passwords\<close>

text \<open>UTF-8; code points of strings are below \<open>0x110000\<close>.\<close>

definition utf8_cp :: "int \<Rightarrow> int list" where
  "utf8_cp c =
     (if c < 0x80 then [c]
      else if c < 0x800 then [0xC0 + c div 64, 0x80 + c mod 64]
      else if c < 0x10000 then [0xE0 + c div 4096, 0x80 + c div 64 mod 64, 0x80 + c mod 64]
      else [0xF0 + c div 262144, 0x80 + c div 4096 mod 64, 0x80 + c div 64 mod 64, 0x80 + c mod 64])"

definition utf8 :: "pystr \<Rightarrow> int list" where
  "utf8 s = concat (map utf8_cp s)"

definition truncate_pw :: "pystr \<Rightarrow> int list" where
  "truncate_pw password = take 72 (utf8 password)"

definition hash_password :: "auth_env \<Rightarrow> pystr \<Rightarrow> pystr" where
  "hash_password env password = ae_hashpw env (truncate_pw password)"

definition verify_password :: "auth_env \<Rightarrow> pystr \<Rightarrow> pystr \<Rightarrow> bool result" where
  "verify_password env plain hashed =
     (case ae_checkpw env (truncate_pw plain) hashed of
        Inl (ValueError m) \<Rightarrow> Inr False
      | r \<Rightarrow> r)"

section \<open>Tokens\<close>

definition token_payload :: "auth_env \<Rightarrow> int \<Rightarrow> int \<Rightarrow> pystr \<Rightarrow> json" where
  "token_payload env now user_id role =
     JObj [((asc ''sub''), JStr (show_int user_id)), ((asc ''role''), JStr role),
           ((asc ''exp''), JInt (now + 60 * ae_expire_minutes env)), ((asc ''iat''), JInt now)]"

definition create_access_token :: "auth_env \<Rightarrow> int \<Rightarrow> int \<Rightarrow> pystr \<Rightarrow> pystr" where
  "create_access_token env now user_id role = ae_encode env (token_payload env now user_id role)"

definition decode_token :: "auth_env \<Rightarrow> int \<Rightarrow> pystr \<Rightarrow> json result" where
  "decode_token env now token =
     (case ae_decode env now token of
        Inr payload \<Rightarrow> Inr payload
      | Inl Expired_signature \<Rightarrow> Inl (AppError (asc ''AUTH_EXPIRED_TOKEN'') (asc ''Token '' @
          [0x5df2, 0x8fc7, 0x671f, 0xff0c, 0x8bf7, 0x91cd, 0x65b0, 0x767b, 0x5f55]) 401)
      | Inl Jwt_error \<Rightarrow> Inl (AppError (asc ''AUTH_INVALID_TOKEN'') ([0x65e0, 0x6548,
          0x7684] @ asc '' Token'') 401))"

section \<open>Registration and login\<close>

definition user_by_email :: "user_db \<Rightarrow> pystr \<Rightarrow> user option" where
  "user_by_email db email = find (\<lambda>u. u_email u = email) (ud_users db)"

definition get_user_by_id :: "user_db \<Rightarrow> int \<Rightarrow> user option" where
  "get_user_by_id db user_id = find (\<lambda>u. u_id u = user_id) (ud_users db)"

definition register_user :: "auth_env \<Rightarrow> user_db \<Rightarrow> pystr \<Rightarrow> pystr \<Rightarrow> pystr \<Rightarrow> user_db \<times> user result" where
  "register_user env db email username password =
     (case user_by_email db email of
        Some u \<Rightarrow> (db, Inl (AppError (asc ''AUTH_USER_EXISTS'') (([0x90ae, 0x7bb1] @
            asc '' '') @ email @ (asc '' '' @ [0x5df2, 0x88ab, 0x6ce8, 0x518c])) 409))
      | None \<Rightarrow>
          let u = \<lparr>u_id = ud_next db, u_email = email, u_username = username,
                   u_hash = hash_password env password, u_role = Role_user, u_active = True\<rparr>
          in (db\<lparr>ud_users := ud_users db @ [u], ud_next := ud_next db + 1\<rparr>, Inr u))"

definition bad_credentials :: exn where
  "bad_credentials = AppError (asc ''AUTH_INVALID_CREDENTIALS'') [0x90ae, 0x7bb1, 0x6216, 0x5bc6,
      0x7801, 0x9519, 0x8bef] 401"

definition disabled_account :: exn where
  "disabled_account = AppError (asc ''AUTH_FORBIDDEN'') [0x8d26, 0x53f7, 0x5df2, 0x88ab, 0x7981, 0x7528] 403"

definition login_user :: "auth_env \<Rightarrow> int \<Rightarrow> user_db \<Rightarrow> pystr \<Rightarrow> pystr \<Rightarrow> (user \<times> pystr) result" where
  "login_user env now db email password =
     (case user_by_email db email of
        None \<Rightarrow> Inl bad_credentials
      | Some u \<Rightarrow>
          rbind (verify_password env password (u_hash u)) (\<lambda>ok.
            if \<not> ok then Inl bad_credentials
            else if \<not> u_active u then Inl disabled_account
            else Inr (u, create_access_token env now (u_id u) (role_value (u_role u)))))"

section \<open>The dependencies of the routes\<close>

text \<open>
  Without a database the user is to be made from the token. But \<open>User\<close> is a mapped class, and
  \<open>User.__new__\<close> does not install the instance state that SQLAlchemy's attributes need: already
  the first assignment, \<open>u.id = user_id\<close>, raises. So without a database every request with a valid token fails.
\<close>

definition mock_user :: "json \<Rightarrow> int \<Rightarrow> user result" where
  "mock_user payload user_id = Inl (OtherError ([39] @ asc ''User'' @ [39] @ asc '' object has no attribute '' @ [39] @ asc ''_sa_instance_state'' @ [39]))"

definition unauthorized :: exn where
  "unauthorized = AppError (asc ''AUTH_UNAUTHORIZED'') [0x8bf7, 0x5148, 0x767b, 0x5f55] 401"

definition get_current_user :: "auth_env \<Rightarrow> int \<Rightarrow> user_db option \<Rightarrow> pystr option \<Rightarrow> user option result" where
  "get_current_user env now db authorization =
     (let header = (case authorization of None \<Rightarrow> [] | Some s \<Rightarrow> s)
      in if header = [] then (if ae_require_auth env then Inl unauthorized else Inr None)
         else
           let scheme = takeWhile (\<lambda>c. c \<noteq> 32) header;
               token = drop (length scheme + 1) header
           in if py_lower scheme \<noteq> (asc ''bearer'') \<or> token = []
              then Inl (AppError (asc ''AUTH_INVALID_TOKEN'') (asc ''Authorization '' @ [0x683c,
                  0x5f0f, 0x5e94, 0x4e3a] @ asc '' Bearer <token>'') 401)
              else
                rbind (decode_token env now token) (\<lambda>payload.
                rbind (rbind (json_get_or payload (asc ''sub'') (JInt 0)) py_int) (\<lambda>user_id.
                case db of
                  None \<Rightarrow> rbind (mock_user payload user_id) (\<lambda>u. Inr (Some u))
                | Some d \<Rightarrow>
                    (case get_user_by_id d user_id of
                       None \<Rightarrow> Inl (AppError (asc ''AUTH_INVALID_TOKEN'') [0x7528,
                           0x6237, 0x4e0d, 0x5b58, 0x5728] 401)
                     | Some u \<Rightarrow> if \<not> u_active u then Inl disabled_account else Inr (Some u)))))"

definition require_admin :: "user option \<Rightarrow> user result" where
  "require_admin current_user =
     (case current_user of
        None \<Rightarrow> Inl unauthorized
      | Some u \<Rightarrow> if u_role u \<noteq> Role_admin then Inl (AppError (asc ''AUTH_FORBIDDEN'') [0x9700,
          0x8981, 0x7ba1, 0x7406, 0x5458, 0x6743, 0x9650] 403) else Inr u)"

section \<open>The routes\<close>

definition auth_register :: "auth_env \<Rightarrow> user_db option \<Rightarrow> pystr \<Rightarrow> pystr \<Rightarrow> pystr \<Rightarrow> user_db option \<times> user result" where
  "auth_register env db email username password =
     (case db of
        None \<Rightarrow> (None, Inl (AppError (asc ''INTERNAL_ERROR'') [0x6570, 0x636e, 0x5e93,
            0x672a, 0x914d, 0x7f6e, 0xff0c, 0x65e0, 0x6cd5, 0x6ce8, 0x518c] 503))
      | Some d \<Rightarrow> (case register_user env d email username password of (d', r) \<Rightarrow> (Some d', r)))"

definition auth_login :: "auth_env \<Rightarrow> int \<Rightarrow> user_db option \<Rightarrow> pystr \<Rightarrow> pystr \<Rightarrow> (pystr \<times> int) result" where
  "auth_login env now db email password =
     (case db of
        None \<Rightarrow> Inl (AppError (asc ''INTERNAL_ERROR'') [0x6570, 0x636e, 0x5e93, 0x672a,
            0x914d, 0x7f6e, 0xff0c, 0x65e0, 0x6cd5, 0x767b, 0x5f55] 503)
      | Some d \<Rightarrow> rbind (login_user env now d email password) (\<lambda>(u, token). Inr (token, ae_expire_minutes env * 60)))"

definition auth_me :: "user option \<Rightarrow> user result" where
  "auth_me current_user = (case current_user of None \<Rightarrow> Inl unauthorized | Some u \<Rightarrow> Inr u)"

section \<open>Numbers in tokens\<close>

lemma digits_from_digits:
  "\<forall>c\<in>set s. 48 \<le> c \<and> c \<le> 57 \<Longrightarrow> prev \<or> s \<noteq> [] \<Longrightarrow>
   digits_from prev acc s = Some (foldl (\<lambda>n c. 10 * n + nat (c - 48)) acc s)"
  by (induction s arbitrary: prev acc) auto

lemma digits_from_show: "digits_from False 0 (show_nat n) = Some n"
  using digits_from_digits [of "show_nat n" False 0] show_nat_digits [of _ n] read_show_nat [of n]
  by (auto simp: read_digits_def)

lemma show_int_chars: "c \<in> set (show_int i) \<Longrightarrow> c = 45 \<or> (48 \<le> c \<and> c \<le> 57)"
  using show_nat_digits by (auto simp: show_int_def split: if_splits)

lemma int_of_show_int: "int_of_str (show_int i) = Some i"
proof -
  have ne: "show_int i \<noteq> []" by (simp add: show_int_def)
  have "\<not> py_space c" if "c \<in> set (show_int i)" for c
    using show_int_chars [OF that] by (auto simp: py_space_def)
  then have strip: "py_strip (show_int i) = show_int i"
    using ne by (auto simp: py_strip_def intro!: strip_by_idle)
  show ?thesis
  proof (cases "i < 0")
    case True
    then show ?thesis using strip
      by (simp add: int_of_str_def signed_def show_int_def digits_from_show)
  next
    case False
    obtain d ds where d: "show_nat (nat i) = d # ds" by (cases "show_nat (nat i)") auto
    then have "48 \<le> d" using show_nat_digits [of d "nat i"] by simp
    then show ?thesis using strip False d digits_from_show [of "nat i"]
      by (simp add: int_of_str_def signed_def show_int_def)
  qed
qed

section \<open>The table of users\<close>

definition users_ok :: "user_db \<Rightarrow> bool" where
  "users_ok db \<longleftrightarrow> distinct (map u_id (ud_users db)) \<and> distinct (map u_email (ud_users db)) \<and>
     (\<forall>u\<in>set (ud_users db). u_id u < ud_next db)"

lemma find_distinct:
  "distinct (map f xs) \<Longrightarrow> x \<in> set xs \<Longrightarrow> find (\<lambda>y. f y = f x) xs = Some x"
  by (induction xs) (auto simp: image_iff)

lemma get_user_by_id_iff: "users_ok db \<Longrightarrow> get_user_by_id db i = Some u \<longleftrightarrow> u \<in> set (ud_users db) \<and> u_id u = i"
  using find_distinct [of u_id "ud_users db"]
  by (auto simp: users_ok_def get_user_by_id_def find_Some_iff in_set_conv_nth)

lemma user_by_email_iff: "users_ok db \<Longrightarrow> user_by_email db e = Some u \<longleftrightarrow> u \<in> set (ud_users db) \<and> u_email u = e"
  using find_distinct [of u_email "ud_users db"]
  by (auto simp: users_ok_def user_by_email_def find_Some_iff in_set_conv_nth)

lemma user_by_email_None: "user_by_email db e = None \<longleftrightarrow> e \<notin> u_email ` set (ud_users db)"
  by (auto simp: user_by_email_def find_None_iff)

lemma register_user_cases:
  assumes "register_user env db email username password = (db', r)"
  obtains (taken) u where "user_by_email db email = Some u" "db' = db" "\<exists>m. r = Inl (AppError (asc ''AUTH_USER_EXISTS'') m 409)"
  | (fresh) u where "user_by_email db email = None" "r = Inr u"
      "u = \<lparr>u_id = ud_next db, u_email = email, u_username = username,
            u_hash = hash_password env password, u_role = Role_user, u_active = True\<rparr>"
      "db' = db\<lparr>ud_users := ud_users db @ [u], ud_next := ud_next db + 1\<rparr>"
  using assms unfolding register_user_def Let_def by (auto split: option.splits)

text \<open>Registration keeps the e-mail addresses and the identifiers of the
  table unique, changes no existing account, never creates an administrator, and refuses an
  address that is taken without changing anything.\<close>

theorem register_user_keeps_table:
  assumes ok: "users_ok db" and run: "register_user env db email username password = (db', r)"
  shows "users_ok db' \<and> take (length (ud_users db)) (ud_users db') = ud_users db \<and>
    (\<forall>u\<in>set (ud_users db') - set (ud_users db). u_role u = Role_user \<and> u_email u = email) \<and>
    (email \<in> u_email ` set (ud_users db) \<longrightarrow> db' = db \<and> (\<exists>m. r = Inl (AppError (asc ''AUTH_USER_EXISTS'') m 409)))"
  using run
proof (cases rule: register_user_cases)
  case (taken u)
  then show ?thesis using ok by (simp del: asc_Cons)
next
  case (fresh u)
  then have "email \<notin> u_email ` set (ud_users db)" by (simp add: user_by_email_None)
  then show ?thesis using ok fresh by (auto simp: users_ok_def)
qed

section \<open>Login\<close>

text \<open>The documented behaviour of the libraries: \<open>checkpw\<close> accepts the password a hash was made
  from, \<open>decode\<close> returns the payload that was encoded until its expiry.\<close>

definition bcrypt_ok :: "auth_env \<Rightarrow> bool" where
  "bcrypt_ok env \<longleftrightarrow> (\<forall>pw. ae_checkpw env pw (ae_hashpw env pw) = Inr True)"

definition jwt_ok :: "auth_env \<Rightarrow> bool" where
  "jwt_ok env \<longleftrightarrow> (\<forall>now now' i r. now' < now + 60 * ae_expire_minutes env \<longrightarrow>
     create_access_token env now i (role_value r) \<noteq> [] \<and>
     ae_decode env now' (create_access_token env now i (role_value r)) = Inr (token_payload env now i (role_value r)))"

definition bearer :: "pystr \<Rightarrow> pystr" where
  "bearer token = (asc ''Bearer '') @ token"

lemma get_current_user_bearer:
  "token \<noteq> [] \<Longrightarrow> get_current_user env now db (Some (bearer token)) =
     rbind (decode_token env now token) (\<lambda>payload.
     rbind (rbind (json_get_or payload (asc ''sub'') (JInt 0)) py_int) (\<lambda>user_id.
     case db of
       None \<Rightarrow> rbind (mock_user payload user_id) (\<lambda>u. Inr (Some u))
     | Some d \<Rightarrow>
         (case get_user_by_id d user_id of
            None \<Rightarrow> Inl (AppError (asc ''AUTH_INVALID_TOKEN'') [0x7528, 0x6237, 0x4e0d,
                0x5b58, 0x5728] 401)
          | Some u \<Rightarrow> if \<not> u_active u then Inl disabled_account else Inr (Some u))))"
proof -
  assume ne: "token \<noteq> []"
  then have "\<not> length (bearer token) \<le> Suc (length (asc ''Bearer''))" by (cases token) (simp_all add: bearer_def)
  moreover have "takeWhile (\<lambda>c. c \<noteq> 32) (bearer token) = (asc ''Bearer'')" by (simp add: bearer_def)
  moreover have "drop (length (asc ''Bearer'') + 1) (bearer token) = token" by (simp add: bearer_def)
  moreover have "py_lower (asc ''Bearer'') = (asc ''bearer'')" by code_simp
  moreover have "bearer token \<noteq> []" by (simp add: bearer_def)
  ultimately show ?thesis by (simp add: get_current_user_def Let_def del: asc_Cons)
qed

text \<open>Whoever registers a new address can log in with the same password, and the
  token identifies exactly that account on every later request until it expires, whatever was
  registered in between.\<close>

theorem login_roundtrip:
  assumes ok: "users_ok db" and libs: "bcrypt_ok env" "jwt_ok env"
    and new: "register_user env db email username password = (db', Inr u)"
    and more: "users_ok db''" "set (ud_users db') \<subseteq> set (ud_users db'')"
    and time: "now' < now + 60 * ae_expire_minutes env"
  shows "\<exists>token. login_user env now db'' email password = Inr (u, token) \<and>
    get_current_user env now' (Some db'') (Some (bearer token)) = Inr (Some u)"
  using new
proof (cases rule: register_user_cases)
  case (fresh u')
  then have u: "u \<in> set (ud_users db'')" "u_email u = email" "u_active u"
    "u_hash u = hash_password env password" using more(2) by auto
  let ?t = "create_access_token env now (u_id u) (role_value (u_role u))"
  let ?p = "token_payload env now (u_id u) (role_value (u_role u))"
  have dec: "?t \<noteq> []" "decode_token env now' ?t = Inr ?p"
    using libs(2) time unfolding jwt_ok_def decode_token_def by simp_all
  have sub: "rbind (json_get_or ?p (asc ''sub'') (JInt 0)) py_int = Inr (u_id u)"
    by (simp add: token_payload_def int_of_show_int)
  have "verify_password env password (u_hash u) = Inr True"
    using libs(1) by (simp add: verify_password_def hash_password_def bcrypt_ok_def u(4))
  then have "login_user env now db'' email password = Inr (u, ?t)"
    using u more(1) user_by_email_iff [of db'' email u] by (simp add: login_user_def)
  moreover have "get_user_by_id db'' (u_id u) = Some u" using u more(1) get_user_by_id_iff by blast
  then have "get_current_user env now' (Some db'') (Some (bearer ?t)) = Inr (Some u)"
    unfolding get_current_user_bearer [OF dec(1)] dec(2) rbind_simps sub by (simp add: u(3))
  ultimately show ?thesis by blast
qed auto

text \<open>A signed-in user is an active row of the table, the one the token of the header names.\<close>

definition names_user :: "auth_env \<Rightarrow> int \<Rightarrow> pystr option \<Rightarrow> user \<Rightarrow> bool" where
  "names_user env now header u \<longleftrightarrow>
     (\<exists>h token payload. header = Some h \<and> suffix token h \<and> decode_token env now token = Inr payload \<and>
        rbind (json_get_or payload (asc ''sub'') (JInt 0)) py_int = Inr (u_id u))"

lemma current_user_row:
  assumes ok: "users_ok db" and cur: "get_current_user env now (Some db) header = Inr (Some u)"
  shows "u \<in> set (ud_users db) \<and> u_active u \<and> names_user env now header u"
proof -
  define h where "h = (case header of None \<Rightarrow> [] | Some s \<Rightarrow> s)"
  define token where "token = drop (length (takeWhile (\<lambda>c. c \<noteq> 32) h) + 1) h"
  from cur have ne: "h \<noteq> []" unfolding get_current_user_def Let_def h_def [symmetric]
    by (auto split: if_splits)
  then have hd: "header = Some h" unfolding h_def by (auto split: option.splits)
  from cur ne obtain payload where dec: "decode_token env now token = Inr payload"
    and sub: "rbind (json_get_or payload (asc ''sub'') (JInt 0)) py_int = Inr (u_id u)"
    and get: "get_user_by_id db (u_id u) = Some u" "u_active u"
    unfolding get_current_user_def Let_def h_def [symmetric] token_def [symmetric]
    using get_user_by_id_iff [OF ok]
    by (auto simp: rbind_Inr_iff simp del: asc_Cons split: if_splits option.splits)
  have "suffix token h" unfolding token_def by (rule suffix_drop)
  with get hd dec sub show ?thesis using get_user_by_id_iff [OF ok] by (auto simp: names_user_def)
qed

lemma current_user_required: "ae_require_auth env \<Longrightarrow> get_current_user env now d header \<noteq> Inr None"
  by (auto simp: get_current_user_def Let_def rbind_Inr_iff simp del: asc_Cons split: if_splits option.splits)

text \<open>With a database, the administrator routes are open exactly to active
  accounts that the table itself marks as administrator: the role written in the token is not
  consulted, and no header at all is refused.\<close>

theorem admin_needs_admin_row:
  assumes ok: "users_ok db"
    and cur: "get_current_user env now (Some db) header = Inr cu" and adm: "require_admin cu = Inr u"
  shows "u \<in> set (ud_users db) \<and> u_active u \<and> u_role u = Role_admin \<and> cu = Some u \<and> names_user env now header u"
proof -
  from adm have "cu = Some u" "u_role u = Role_admin"
    by (auto simp: require_admin_def split: option.splits if_splits)
  then show ?thesis using current_user_row [OF ok] cur by blast
qed

section \<open>An instance of the parameters\<close>

definition demo_encode :: "json \<Rightarrow> pystr" where
  "demo_encode j = (case j of
       JObj [(_, JStr s), (_, JStr r), (_, JInt e), (_, JInt n)] \<Rightarrow> (if r = (asc ''admin'') then 1 else 0) # e # n # s
     | _ \<Rightarrow> [])"

definition demo_decode :: "int \<Rightarrow> pystr \<Rightarrow> jwt_error + json" where
  "demo_decode now t = (case t of
       r # e # n # s \<Rightarrow>
         if now < e then
           Inr (JObj [((asc ''sub''), JStr s), ((asc ''role''), JStr (if r = 1 then (asc ''admin'') else (asc ''user''))),
             ((asc ''exp''), JInt e), ((asc ''iat''), JInt n)])
         else Inl Expired_signature
     | _ \<Rightarrow> Inl Jwt_error)"

definition demo_auth :: auth_env where
  "demo_auth = \<lparr>ae_require_auth = False, ae_expire_minutes = 1440, ae_hashpw = (\<lambda>pw. pw),
     ae_checkpw = (\<lambda>pw h. Inr (pw = h)), ae_encode = demo_encode, ae_decode = demo_decode\<rparr>"

lemma demo_auth_ok: "bcrypt_ok demo_auth" "jwt_ok demo_auth"
proof -
  show "bcrypt_ok demo_auth" by (simp add: bcrypt_ok_def demo_auth_def)
  have r: "role_value r = (asc ''admin'') \<or> role_value r = (asc ''user'')" for r by (cases r) simp_all
  have ne: "(asc ''user'') \<noteq> (asc ''admin'')" by simp
  show "jwt_ok demo_auth"
    unfolding jwt_ok_def create_access_token_def token_payload_def
  proof (intro allI impI conjI)
    fix now now' i q
    show "ae_encode demo_auth (JObj [((asc ''sub''), JStr (show_int i)), ((asc ''role''), JStr (role_value q)),
           ((asc ''exp''), JInt (now + 60 * ae_expire_minutes demo_auth)), ((asc ''iat''), JInt now)]) \<noteq> []"
      by (simp add: demo_auth_def demo_encode_def)
    assume "now' < now + 60 * ae_expire_minutes demo_auth"
    then show "ae_decode demo_auth now' (ae_encode demo_auth (JObj [((asc ''sub''), JStr (show_int i)), ((asc ''role''), JStr (role_value q)),
           ((asc ''exp''), JInt (now + 60 * ae_expire_minutes demo_auth)), ((asc ''iat''), JInt now)])) =
      Inr (JObj [((asc ''sub''), JStr (show_int i)), ((asc ''role''), JStr (role_value q)),
           ((asc ''exp''), JInt (now + 60 * ae_expire_minutes demo_auth)), ((asc ''iat''), JInt now)])"
      using r [of q] ne by (auto simp: demo_auth_def demo_encode_def demo_decode_def simp del: asc_Cons)
  qed
qed

definition demo_admin :: user where
  "demo_admin = \<lparr>u_id = 1, u_email = (asc ''root@x.org''), u_username = (asc ''root''), u_hash = (asc ''secret''),
     u_role = Role_admin, u_active = True\<rparr>"

definition demo_users :: user_db where
  "demo_users = \<lparr>ud_users = [demo_admin], ud_next = 2\<rparr>"

lemma demo_users_ok: "users_ok demo_users"
  by (simp add: users_ok_def demo_users_def demo_admin_def)

theorem register_user_keeps_table_witness:
  "fst (register_user demo_auth demo_users (asc ''root@x.org'') (asc ''eve'') (asc ''123456'')) = demo_users"
proof -
  obtain db' r where run: "register_user demo_auth demo_users (asc ''root@x.org'') (asc ''eve'') (asc ''123456'') = (db', r)"
    by (cases "register_user demo_auth demo_users (asc ''root@x.org'') (asc ''eve'') (asc ''123456'')") auto
  have "(asc ''root@x.org'') \<in> u_email ` set (ud_users demo_users)"
    by (simp add: demo_users_def demo_admin_def)
  then have "db' = demo_users" using register_user_keeps_table [OF demo_users_ok run] by blast
  then show ?thesis unfolding run by (simp only: fst_conv)
qed

theorem login_roundtrip_witness:
  "\<exists>db u token. register_user demo_auth demo_users (asc ''a@x.org'') (asc ''ann'') (asc ''123456'') = (db, Inr u) \<and>
     login_user demo_auth 0 db (asc ''a@x.org'') (asc ''123456'') = Inr (u, token) \<and>
     get_current_user demo_auth 60 (Some db) (Some (bearer token)) = Inr (Some u)"
proof -
  have no: "user_by_email demo_users (asc ''a@x.org'') = None"
    by (simp add: user_by_email_def demo_users_def demo_admin_def)
  then obtain db u where run: "register_user demo_auth demo_users (asc ''a@x.org'') (asc ''ann'') (asc ''123456'') = (db, Inr u)"
    by (simp add: register_user_def Let_def del: asc_Cons)
  have "users_ok db" using register_user_keeps_table [OF demo_users_ok run] by blast
  moreover have "(60 :: int) < 0 + 60 * ae_expire_minutes demo_auth" by (simp add: demo_auth_def)
  ultimately show ?thesis using login_roundtrip [OF demo_users_ok demo_auth_ok run _ subset_refl] run by blast
qed

theorem admin_needs_admin_row_witness:
  "let token = create_access_token demo_auth 0 1 (asc ''user'') in
     (\<exists>u\<in>set (ud_users demo_users). u_role u = Role_admin \<and>
        get_current_user demo_auth 5 (Some demo_users) (Some (bearer token)) = Inr (Some u))"
proof -
  let ?t = "create_access_token demo_auth 0 1 (asc ''user'')"
  have cur: "get_current_user demo_auth 5 (Some demo_users) (Some (bearer ?t)) = Inr (Some demo_admin)"
    by code_simp
  have "require_admin (Some demo_admin) = Inr demo_admin" by (simp add: require_admin_def demo_admin_def)
  from admin_needs_admin_row [OF demo_users_ok cur this] cur show ?thesis unfolding Let_def by blast
qed

end
