(* ===== verification/Tenant_Store.thy ===== *)
theory Tenant_Store
  imports Prelude
begin

text \<open>
  The interface of a store that several owners share. What the provider promises is local: an
  operation of one owner leaves the view of every other owner as it was. What a client gets is
  global: whatever sequence of operations other owners perform, an owner's view, and every query
  that is a function of that view, stays the same.
\<close>

locale tenant_store =
  fixes view :: "'o \<Rightarrow> 'd \<Rightarrow> 'v"
    and exec :: "'o \<Rightarrow> 'op \<Rightarrow> 'd \<Rightarrow> 'd"
    and ok :: "'d \<Rightarrow> bool"
  assumes ok_exec: "ok d \<Longrightarrow> ok (exec u a d)"
    and frame: "ok d \<Longrightarrow> u \<noteq> v \<Longrightarrow> view v (exec u a d) = view v d"
begin

definition run :: "('o \<times> 'op) list \<Rightarrow> 'd \<Rightarrow> 'd" where
  "run as d = fold (\<lambda>(u, a). exec u a) as d"

lemma run_simps: "run [] d = d" "run ((u, a) # as) d = run as (exec u a d)"
  by (simp_all add: run_def)

lemma ok_run: "ok d \<Longrightarrow> ok (run as d)"
  by (induction as arbitrary: d) (auto simp: run_simps ok_exec)

lemma view_run_others: "ok d \<Longrightarrow> \<forall>(u, a)\<in>set as. u \<noteq> v \<Longrightarrow> view v (run as d) = view v d"
proof (induction as arbitrary: d)
  case (Cons x as)
  obtain u a where x: "x = (u, a)" by (cases x)
  have "view v (run as (exec u a d)) = view v (exec u a d)"
    using Cons.prems Cons.IH [of "exec u a d"] by (simp add: ok_exec)
  then show ?case using Cons.prems by (simp add: x run_simps frame)
qed (simp add: run_simps)

end

locale tenant_queries = tenant_store view exec ok
  for view :: "'o \<Rightarrow> 'd \<Rightarrow> 'v" and exec :: "'o \<Rightarrow> 'op \<Rightarrow> 'd \<Rightarrow> 'd" and ok :: "'d \<Rightarrow> bool" +
  fixes query :: "'o \<Rightarrow> 'q \<Rightarrow> 'd \<Rightarrow> 'r"
  assumes query_view: "view u d = view u d' \<Longrightarrow> query u q d = query u q d'"
begin

lemma query_run_others:
  "ok d \<Longrightarrow> \<forall>(u, a)\<in>set as. u \<noteq> v \<Longrightarrow> query v q (run as d) = query v q d"
  by (rule query_view) (rule view_run_others)

end

end
