(* ===== verification/Memory_Store.thy ===== *)
theory Memory_Store
  imports Memory_Text Accounts Tenant_Store
begin

text \<open>
  The table of memories: the database side of \<open>backend/services/memory_service.py\<close>, the model
  \<open>UserMemory\<close> and the routes of \<open>backend/api/v1/memories.py\<close>. The state is the list of rows with
  the next identifier. The clock is an argument (one value per transaction), and so is \<open>tie\<close>, the
  priority by which the database orders rows that the \<open>ORDER BY\<close> leaves tied. A row is written, and
  its \<open>updated_at\<close> set, only when one of its columns changes, as the ORM does.
\<close>

section \<open>Rows\<close>

record memory_row =
  mr_id :: int
  mr_user :: "int option"
  mr_scope :: pystr
  mr_key :: pystr
  mr_category :: pystr
  mr_content :: pystr
  mr_status :: pystr
  mr_source :: pystr
  mr_session :: "int option"
  mr_message :: "int option"
  mr_confidence :: real
  mr_importance :: real
  mr_use_count :: int
  mr_last_used :: "int option"
  mr_sensitive :: bool
  mr_active :: bool
  mr_extra :: "(pystr, json) dict"
  mr_updated :: int

record memory_db =
  md_rows :: "memory_row list"
  md_next :: int

type_synonym tie = "memory_row \<Rightarrow> int"

definition ACTIVE :: pystr where "ACTIVE = (asc ''active'')"
definition CANDIDATE :: pystr where "CANDIDATE = (asc ''candidate'')"
definition REJECTED :: pystr where "REJECTED = (asc ''rejected'')"

definition scope_for_user :: "int option \<Rightarrow> int option \<times> pystr" where
  "scope_for_user user = (case user of None \<Rightarrow> (None, (asc ''anonymous'')) | Some i \<Rightarrow> (Some i, (asc ''user:'') @ show_int i))"

definition owned :: "int option \<Rightarrow> memory_row \<Rightarrow> bool" where
  "owned user r \<longleftrightarrow> mr_user r = fst (scope_for_user user) \<and> mr_scope r = snd (scope_for_user user)"

text \<open>Writing one row.\<close>

definition write_row :: "int \<Rightarrow> (memory_row \<Rightarrow> memory_row) \<Rightarrow> memory_row \<Rightarrow> memory_row" where
  "write_row now f r = (if f r = r then r else (f r)\<lparr>mr_updated := now\<rparr>)"

definition write_id :: "int \<Rightarrow> int \<Rightarrow> (memory_row \<Rightarrow> memory_row) \<Rightarrow> memory_db \<Rightarrow> memory_db" where
  "write_id now i f db = db\<lparr>md_rows := map (\<lambda>r. if mr_id r = i then write_row now f r else r) (md_rows db)\<rparr>"

section \<open>Queries\<close>

definition newest_first :: "memory_row list \<Rightarrow> memory_row list" where
  "newest_first rs = sort_key (\<lambda>r. - mr_updated r) rs"

definition find_by_key :: "tie \<Rightarrow> memory_db \<Rightarrow> int option \<Rightarrow> pystr \<Rightarrow> memory_row option" where
  "find_by_key tie db user k =
     (case newest_first (sort_key tie (filter (\<lambda>r. owned user r \<and> mr_key r = k) (md_rows db))) of
        [] \<Rightarrow> None | r # _ \<Rightarrow> Some r)"

definition list_memories ::
  "tie \<Rightarrow> memory_db \<Rightarrow> int option \<Rightarrow> pystr option \<Rightarrow> bool \<Rightarrow> nat \<Rightarrow> memory_row list" where
  "list_memories tie db user status include_inactive limit =
     (let rows = filter (\<lambda>r. owned user r \<and>
            (case status of None \<Rightarrow> True | Some s \<Rightarrow> s = [] \<or> mr_status r = s) \<and>
            (include_inactive \<or> mr_active r)) (md_rows db)
      in take limit (sort_key mr_status (sort_key (\<lambda>r. - mr_importance r) (newest_first (sort_key tie rows)))))"

definition get_memory :: "memory_db \<Rightarrow> int \<Rightarrow> int option \<Rightarrow> memory_row option" where
  "get_memory db i user = find (\<lambda>r. mr_id r = i \<and> owned user r) (md_rows db)"

section \<open>Creation\<close>

record new_memory =
  nm_content :: pystr
  nm_category :: pystr
  nm_key :: "pystr option"
  nm_status :: pystr
  nm_source :: pystr
  nm_confidence :: real
  nm_importance :: real
  nm_session :: "int option"
  nm_message :: "int option"
  nm_sensitive :: bool
  nm_extra :: "(pystr, json) dict"

definition id_or :: "int option \<Rightarrow> int option \<Rightarrow> int option" where
  "id_or a b = (case a of Some i \<Rightarrow> if i = 0 then b else a | None \<Rightarrow> b)"

definition new_key :: "new_memory \<Rightarrow> pystr" where
  "new_key m = normalize_key
     (str_or (case nm_key m of None \<Rightarrow> [] | Some k \<Rightarrow> k)
        (infer_memory_key (nm_category m) (normalize_memory (nm_content m))))"

definition merge_memory :: "new_memory \<Rightarrow> memory_row \<Rightarrow> memory_row" where
  "merge_memory m r = r\<lparr>
     mr_content := normalize_memory (nm_content m),
     mr_category := str_or (nm_category m) (mr_category r),
     mr_status := (if mr_status r = ACTIVE \<and> nm_status m = CANDIDATE then mr_status r else nm_status m),
     mr_source := nm_source m,
     mr_confidence := max (mr_confidence r) (nm_confidence m),
     mr_importance := max (mr_importance r) (nm_importance m),
     mr_session := id_or (nm_session m) (mr_session r),
     mr_message := id_or (nm_message m) (mr_message r),
     mr_sensitive := nm_sensitive m,
     mr_active := True,
     mr_extra := fold (\<lambda>(k, v). dict_put k v) (nm_extra m) (mr_extra r)\<rparr>"

definition fresh_memory :: "int \<Rightarrow> int \<Rightarrow> int option \<Rightarrow> new_memory \<Rightarrow> memory_row" where
  "fresh_memory now i user m = \<lparr>
     mr_id = i, mr_user = fst (scope_for_user user), mr_scope = snd (scope_for_user user),
     mr_key = new_key m, mr_category = str_or (nm_category m) (asc ''preference''),
     mr_content = normalize_memory (nm_content m), mr_status = nm_status m, mr_source = nm_source m,
     mr_session = nm_session m, mr_message = nm_message m, mr_confidence = nm_confidence m,
     mr_importance = nm_importance m, mr_use_count = 0, mr_last_used = None,
     mr_sensitive = nm_sensitive m, mr_active = True, mr_extra = nm_extra m, mr_updated = now\<rparr>"

definition create_memory :: "tie \<Rightarrow> int \<Rightarrow> memory_db \<Rightarrow> int option \<Rightarrow> new_memory \<Rightarrow> memory_db \<times> int" where
  "create_memory tie now db user m =
     (case find_by_key tie db user (new_key m) of
        Some e \<Rightarrow>
          if mr_status e \<noteq> REJECTED then (write_id now (mr_id e) (merge_memory m) db, mr_id e)
          else (db\<lparr>md_rows := md_rows db @ [fresh_memory now (md_next db) user m], md_next := md_next db + 1\<rparr>, md_next db)
      | None \<Rightarrow> (db\<lparr>md_rows := md_rows db @ [fresh_memory now (md_next db) user m], md_next := md_next db + 1\<rparr>, md_next db))"

section \<open>Update and removal\<close>

record memory_patch =
  mp_content :: "pystr option"
  mp_category :: "pystr option"
  mp_key :: "pystr option"
  mp_status :: "pystr option"
  mp_active :: "bool option"

definition patch_row :: "memory_patch \<Rightarrow> memory_row \<Rightarrow> memory_row" where
  "patch_row p r0 =
     (let r1 = (case mp_content p of None \<Rightarrow> r0 | Some c \<Rightarrow> r0\<lparr>mr_content := normalize_memory c\<rparr>);
          r2 = (case mp_category p of None \<Rightarrow> r1 | Some c \<Rightarrow> r1\<lparr>mr_category := c\<rparr>);
          r3 = (case mp_key p of None \<Rightarrow> r2 | Some k \<Rightarrow> r2\<lparr>mr_key := normalize_key k\<rparr>);
          r4 = (case mp_status p of None \<Rightarrow> r3 | Some s \<Rightarrow> r3\<lparr>mr_status := s, mr_active := (s \<noteq> REJECTED)\<rparr>)
      in case mp_active p of None \<Rightarrow> r4 | Some a \<Rightarrow> r4\<lparr>mr_active := a\<rparr>)"

definition update_memory :: "int \<Rightarrow> memory_db \<Rightarrow> int \<Rightarrow> memory_patch \<Rightarrow> memory_db" where
  "update_memory now db i p = write_id now i (patch_row p) db"

definition reject :: "memory_row \<Rightarrow> memory_row" where
  "reject r = r\<lparr>mr_status := REJECTED, mr_active := False\<rparr>"

definition delete_memory :: "int \<Rightarrow> memory_db \<Rightarrow> int \<Rightarrow> int option \<Rightarrow> memory_db \<times> bool" where
  "delete_memory now db i user =
     (case get_memory db i user of None \<Rightarrow> (db, False) | Some r \<Rightarrow> (write_id now i reject db, True))"

text \<open>A bulk \<open>UPDATE\<close> touches every matching row and its time stamp.\<close>

definition deactivate_all_memories :: "int \<Rightarrow> memory_db \<Rightarrow> int option \<Rightarrow> memory_db \<times> nat" where
  "deactivate_all_memories now db user =
     (db\<lparr>md_rows := map (\<lambda>r. if owned user r then (reject r)\<lparr>mr_updated := now\<rparr> else r) (md_rows db)\<rparr>,
      length (filter (owned user) (md_rows db)))"

section \<open>Use in a chat turn\<close>

definition memory_line :: "memory_row \<Rightarrow> pystr" where
  "memory_line r = (asc ''- key='') @ mr_key r @ (asc ''; category='') @ mr_category r @ (asc ''; confidence='') @
     show_fixed 2 (mr_confidence r) @ (asc ''; '') @ mr_content r"

definition use_row :: "int \<Rightarrow> memory_row \<Rightarrow> memory_row" where
  "use_row now r = r\<lparr>mr_use_count := mr_use_count r + 1, mr_last_used := Some now\<rparr>"

definition format_memory_context ::
  "tie \<Rightarrow> int \<Rightarrow> memory_db option \<Rightarrow> int option \<Rightarrow> nat \<Rightarrow> memory_db option \<times> pystr" where
  "format_memory_context tie now db user limit =
     (case db of
        None \<Rightarrow> (None, [])
      | Some d \<Rightarrow>
          let ms = list_memories tie d user (Some ACTIVE) False limit
          in (Some (fold (\<lambda>r. write_id now (mr_id r) (use_row now)) ms d),
              py_join [10] (map memory_line ms)))"

definition memory_of_candidate :: "int option \<Rightarrow> int option \<Rightarrow> candidate \<Rightarrow> new_memory" where
  "memory_of_candidate session_id message_id c = \<lparr>
     nm_content = mc_content c, nm_category = mc_category c, nm_key = Some (mc_key c), nm_status = ACTIVE,
     nm_source = mc_source c, nm_confidence = mc_confidence c, nm_importance = mc_importance c,
     nm_session = session_id, nm_message = message_id, nm_sensitive = False,
     nm_extra = [((asc ''reason''), JStr (mc_reason c))]\<rparr>"

definition store_candidates ::
  "tie \<Rightarrow> int \<Rightarrow> int option \<Rightarrow> int option \<Rightarrow> int option \<Rightarrow> candidate list \<Rightarrow> memory_db \<Rightarrow> memory_db" where
  "store_candidates tie now user session_id message_id cs db =
     fold (\<lambda>c d. if storable c then fst (create_memory tie now d user (memory_of_candidate session_id message_id c)) else d) cs db"

definition maybe_store_memories_from_turn ::
  "graph_env \<Rightarrow> (pystr \<Rightarrow> json result) \<Rightarrow> tie \<Rightarrow> int \<Rightarrow> nat \<Rightarrow> memory_db \<Rightarrow> int option \<Rightarrow> pystr \<Rightarrow>
   int option \<Rightarrow> int option \<Rightarrow> nat \<times> memory_db" where
  "maybe_store_memories_from_turn env loads tie now n db user question session_id message_id =
     (case extract_memory_candidates env loads n question of
        (n', cs) \<Rightarrow> (n', store_candidates tie now user session_id message_id cs db))"

section \<open>The routes\<close>

definition no_database :: exn where
  "no_database = AppError (asc ''INTERNAL_ERROR'') (asc ''Database is not configured'') 503"

definition memory_not_found :: exn where
  "memory_not_found = AppError (asc ''NOT_FOUND'') (asc ''Memory not found'') 404"

definition get_memories ::
  "tie \<Rightarrow> memory_db option \<Rightarrow> int option \<Rightarrow> pystr option \<Rightarrow> bool \<Rightarrow> memory_row list result" where
  "get_memories tie db user status include_inactive =
     (case db of None \<Rightarrow> Inl no_database
      | Some d \<Rightarrow> Inr (list_memories tie d user status include_inactive 100))"

definition add_memory ::
  "tie \<Rightarrow> int \<Rightarrow> memory_db option \<Rightarrow> int option \<Rightarrow> pystr \<Rightarrow> pystr \<Rightarrow> pystr option \<Rightarrow> pystr \<Rightarrow>
   memory_db option \<times> memory_row option result" where
  "add_memory tie now db user content category key status =
     (case db of None \<Rightarrow> (None, Inl no_database)
      | Some d \<Rightarrow>
          let m = \<lparr>nm_content = content, nm_category = category, nm_key = key, nm_status = status,
                nm_source = (asc ''manual''), nm_confidence = 1, nm_importance = 8/10, nm_session = None,
                nm_message = None, nm_sensitive = False, nm_extra = []\<rparr>
          in case create_memory tie now d user m of (d', i) \<Rightarrow> (Some d', Inr (get_memory d' i user)))"

definition patch_memory ::
  "int \<Rightarrow> memory_db option \<Rightarrow> int option \<Rightarrow> int \<Rightarrow> memory_patch \<Rightarrow> memory_db option \<times> memory_row option result" where
  "patch_memory now db user i p =
     (case db of None \<Rightarrow> (None, Inl no_database)
      | Some d \<Rightarrow>
          (case get_memory d i user of None \<Rightarrow> (db, Inl memory_not_found)
           | Some r \<Rightarrow> let d' = update_memory now d i p in (Some d', Inr (get_memory d' i user))))"

definition remove_memory :: "int \<Rightarrow> memory_db option \<Rightarrow> int option \<Rightarrow> int \<Rightarrow> memory_db option \<times> unit result" where
  "remove_memory now db user i =
     (case db of None \<Rightarrow> (None, Inl no_database)
      | Some d \<Rightarrow> (case delete_memory now d i user of
          (d', ok) \<Rightarrow> (Some d', if ok then Inr () else Inl memory_not_found)))"

definition clear_memories :: "int \<Rightarrow> memory_db option \<Rightarrow> int option \<Rightarrow> memory_db option \<times> nat result" where
  "clear_memories now db user =
     (case db of None \<Rightarrow> (None, Inl no_database)
      | Some d \<Rightarrow> (case deactivate_all_memories now d user of (d', k) \<Rightarrow> (Some d', Inr k)))"

section \<open>Well-formed tables\<close>

definition row_ok :: "memory_row \<Rightarrow> bool" where
  "row_ok r \<longleftrightarrow> key_form (mr_key r) \<and> content_form (mr_content r)"

definition memory_ok :: "memory_db \<Rightarrow> bool" where
  "memory_ok db \<longleftrightarrow> distinct (map mr_id (md_rows db)) \<and> (\<forall>r\<in>set (md_rows db). mr_id r < md_next db \<and> row_ok r)"

definition keeps_row :: "(memory_row \<Rightarrow> memory_row) \<Rightarrow> bool" where
  "keeps_row f \<longleftrightarrow> (\<forall>r. mr_id (f r) = mr_id r \<and> mr_user (f r) = mr_user r \<and> mr_scope (f r) = mr_scope r \<and>
     (row_ok r \<longrightarrow> row_ok (f r)))"

lemma patch_row_owner:
  "mr_id (patch_row p r) = mr_id r" "mr_user (patch_row p r) = mr_user r" "mr_scope (patch_row p r) = mr_scope r"
  by (simp_all add: patch_row_def Let_def split: option.splits)

lemma keeps_patch: "keeps_row (patch_row p)"
  unfolding keeps_row_def
  by (auto simp: patch_row_owner)
     (auto simp: patch_row_def row_ok_def Let_def key_form_normalize content_form_normalize split: option.splits)

lemma keeps_merge: "keeps_row (merge_memory m)"
  by (auto simp: keeps_row_def merge_memory_def row_ok_def content_form_normalize)

lemma keeps_reject: "keeps_row reject"
  by (auto simp: keeps_row_def reject_def row_ok_def)

lemma keeps_use: "keeps_row (use_row now)"
  by (auto simp: keeps_row_def use_row_def row_ok_def)

lemma keeps_write: "keeps_row f \<Longrightarrow> keeps_row (write_row now f)"
  by (auto simp: keeps_row_def write_row_def row_ok_def)

lemma keeps_owned: "keeps_row f \<Longrightarrow> owned u (f r) = owned u r"
  by (simp add: keeps_row_def owned_def)

lemma owned_unique: "owned u r \<Longrightarrow> owned v r \<Longrightarrow> u = v"
  by (auto simp: owned_def scope_for_user_def split: option.splits)

definition view :: "int option \<Rightarrow> memory_db \<Rightarrow> memory_row list" where
  "view u db = filter (owned u) (md_rows db)"

lemma filter_map_frame:
  "\<forall>r\<in>set rs. P (g r) = P r \<and> (P r \<longrightarrow> g r = r) \<Longrightarrow> filter P (map g rs) = filter P rs"
  by (induction rs) auto

lemma memory_ok_unique: "memory_ok db \<Longrightarrow> r \<in> set (md_rows db) \<Longrightarrow> r' \<in> set (md_rows db) \<Longrightarrow> mr_id r = mr_id r' \<Longrightarrow> r = r'"
  by (auto simp: memory_ok_def dest: inj_onD [OF distinct_map [THEN iffD1, THEN conjunct2]])

lemma write_id_ok [inv_intros]: "keeps_row f \<Longrightarrow> memory_ok db \<Longrightarrow> memory_ok (write_id now i f db)"
  using keeps_write [of f now]
  by (auto simp: memory_ok_def write_id_def keeps_row_def comp_def if_distrib [of mr_id] cong: if_cong)

lemma write_id_frame:
  assumes "keeps_row f" "memory_ok db" "r \<in> set (md_rows db)" "mr_id r = i" "owned u r" "u \<noteq> v"
  shows "view v (write_id now i f db) = view v db"
proof -
  have "r' = r" if "r' \<in> set (md_rows db)" "mr_id r' = i" for r'
    using memory_ok_unique [OF assms(2) that(1) assms(3)] that(2) assms(4) by simp
  then show ?thesis
    unfolding view_def write_id_def
    using assms(5,6) owned_unique keeps_owned [OF keeps_write [OF assms(1), of now]]
    by (auto intro!: filter_map_frame split: if_splits)
qed

section \<open>What the queries return\<close>

lemma find_by_key_None:
  "find_by_key tie db u k = None \<longleftrightarrow> (\<forall>r\<in>set (md_rows db). owned u r \<longrightarrow> mr_key r \<noteq> k)"
proof -
  let ?rs = "filter (\<lambda>r. owned u r \<and> mr_key r = k) (md_rows db)"
  have "find_by_key tie db u k = None \<longleftrightarrow> set (newest_first (sort_key tie ?rs)) = {}"
    by (auto simp: find_by_key_def split: list.splits)
  then show ?thesis by (auto simp: newest_first_def filter_empty_conv)
qed

lemma find_by_key_Some:
  assumes e: "find_by_key tie db u k = Some e"
  shows "e \<in> set (md_rows db)" "owned u e" "mr_key e = k"
    and "\<forall>r\<in>set (md_rows db). owned u r \<and> mr_key r = k \<longrightarrow> mr_updated r \<le> mr_updated e"
proof -
  let ?rs = "filter (\<lambda>r. owned u r \<and> mr_key r = k) (md_rows db)"
  obtain ts where n: "newest_first (sort_key tie ?rs) = e # ts"
    using e by (auto simp: find_by_key_def split: list.splits)
  have set: "set (e # ts) = set ?rs" unfolding n [symmetric] by (simp add: newest_first_def)
  then show "e \<in> set (md_rows db)" "owned u e" "mr_key e = k" by auto
  have "sorted (map (\<lambda>r. - mr_updated r) (e # ts))" unfolding n [symmetric] by (simp add: newest_first_def)
  then show "\<forall>r\<in>set (md_rows db). owned u r \<and> mr_key r = k \<longrightarrow> mr_updated r \<le> mr_updated e"
    using set by auto
qed

lemma list_memories_set:
  assumes "r \<in> set (list_memories tie db u status inact limit)"
  shows "r \<in> set (md_rows db) \<and> owned u r \<and> (inact \<or> mr_active r) \<and>
    (case status of None \<Rightarrow> True | Some s \<Rightarrow> s = [] \<or> mr_status r = s)"
  using assms by (auto simp: list_memories_def Let_def newest_first_def dest!: in_set_takeD)

lemma get_memory_Some:
  "get_memory db i u = Some r \<Longrightarrow> r \<in> set (md_rows db) \<and> mr_id r = i \<and> owned u r"
  by (auto simp: get_memory_def find_Some_iff in_set_conv_nth)

section \<open>Every operation\<close>

datatype memory_op =
    Mem_add new_memory
  | Mem_patch int memory_patch
  | Mem_delete int
  | Mem_clear
  | Mem_recall nat
  | Mem_turn "candidate list" "int option" "int option"

text \<open>The effect of one request of a user, as its route or the chat service performs it.\<close>

fun memory_exec :: "tie \<Rightarrow> int option \<Rightarrow> int \<times> memory_op \<Rightarrow> memory_db \<Rightarrow> memory_db" where
  "memory_exec tie u (now, Mem_add m) db = fst (create_memory tie now db u m)"
| "memory_exec tie u (now, Mem_patch i p) db =
     (case get_memory db i u of None \<Rightarrow> db | Some r \<Rightarrow> update_memory now db i p)"
| "memory_exec tie u (now, Mem_delete i) db = fst (delete_memory now db i u)"
| "memory_exec tie u (now, Mem_clear) db = fst (deactivate_all_memories now db u)"
| "memory_exec tie u (now, Mem_recall limit) db = the (fst (format_memory_context tie now (Some db) u limit))"
| "memory_exec tie u (now, Mem_turn cs sid mid) db = store_candidates tie now u sid mid cs db"

lemma fresh_memory_row: "row_ok (fresh_memory now i u m)" "owned u (fresh_memory now i u m)"
    "mr_id (fresh_memory now i u m) = i" "mr_key (fresh_memory now i u m) = new_key m"
  by (simp_all add: row_ok_def fresh_memory_def owned_def content_form_normalize new_key_def key_form_normalize)

lemma create_memory_cases:
  assumes "create_memory tie now db u m = (db', i)"
  obtains (merged) e where "e \<in> set (md_rows db)" "owned u e" "mr_key e = new_key m" "mr_status e \<noteq> REJECTED"
      "\<forall>r\<in>set (md_rows db). owned u r \<and> mr_key r = new_key m \<longrightarrow> mr_updated r \<le> mr_updated e"
      "i = mr_id e" "db' = write_id now (mr_id e) (merge_memory m) db"
  | (fresh) "\<forall>r\<in>set (md_rows db). owned u r \<and> mr_key r = new_key m \<longrightarrow>
        (\<exists>e\<in>set (md_rows db). owned u e \<and> mr_key e = new_key m \<and> mr_status e = REJECTED \<and> mr_updated r \<le> mr_updated e)"
      "i = md_next db"
      "db' = db\<lparr>md_rows := md_rows db @ [fresh_memory now (md_next db) u m], md_next := md_next db + 1\<rparr>"
proof (cases "find_by_key tie db u (new_key m)")
  case None
  then have "\<forall>r\<in>set (md_rows db). owned u r \<longrightarrow> mr_key r \<noteq> new_key m"
    using find_by_key_None by blast
  moreover from assms None have "i = md_next db"
    "db' = db\<lparr>md_rows := md_rows db @ [fresh_memory now (md_next db) u m], md_next := md_next db + 1\<rparr>"
    by (auto simp: create_memory_def)
  ultimately show ?thesis by (intro fresh) auto
next
  case (Some e)
  note e = find_by_key_Some [OF Some]
  show ?thesis
  proof (cases "mr_status e = REJECTED")
    case True
    then show ?thesis using fresh assms Some e by (auto simp: create_memory_def)
  next
    case False
    then show ?thesis using merged assms Some e by (auto simp: create_memory_def)
  qed
qed

lemma create_memory_ok [inv_intros]:
  assumes "memory_ok db" shows "memory_ok (fst (create_memory tie now db u m))"
proof -
  obtain db' i where run: "create_memory tie now db u m = (db', i)"
    by (cases "create_memory tie now db u m")
  from run have "memory_ok db'"
  proof (cases rule: create_memory_cases)
    case (merged e)
    then show ?thesis using assms by (simp add: write_id_ok keeps_merge)
  next
    case fresh
    then show ?thesis using assms
      by (auto simp: memory_ok_def fresh_memory_row intro: less_imp_le add_strict_increasing2 less_trans)
  qed
  then show ?thesis by (simp add: run)
qed

lemma create_memory_frame:
  assumes "memory_ok db" "u \<noteq> v"
  shows "view v (fst (create_memory tie now db u m)) = view v db"
proof -
  obtain db' i where run: "create_memory tie now db u m = (db', i)"
    by (cases "create_memory tie now db u m")
  from run have "view v db' = view v db"
  proof (cases rule: create_memory_cases)
    case (merged e)
    then show ?thesis using assms by (simp add: write_id_frame keeps_merge)
  next
    case fresh
    have "\<not> owned v (fresh_memory now (md_next db) u m)"
      using owned_unique fresh_memory_row(2) assms(2) by blast
    then show ?thesis using fresh by (simp add: view_def)
  qed
  then show ?thesis by (simp add: run)
qed

text \<open>A loop of operations that keep a state well formed and leave a view alone.\<close>

lemma fold_frame:
  assumes "ok d" and "\<And>x d. x \<in> set xs \<Longrightarrow> ok d \<Longrightarrow> ok (f x d) \<and> g (f x d) = g d"
  shows "ok (fold f xs d) \<and> g (fold f xs d) = g d"
  using assms by (induction xs arbitrary: d) auto

lemma store_candidates_frame:
  assumes "memory_ok db"
  shows "memory_ok (store_candidates tie now u sid mid cs db)"
    and "u \<noteq> v \<Longrightarrow> view v (store_candidates tie now u sid mid cs db) = view v db"
proof -
  show "memory_ok (store_candidates tie now u sid mid cs db)"
    unfolding store_candidates_def
    by (rule fold_frame [where g = "\<lambda>_. ()", THEN conjunct1])
       (use assms create_memory_ok in auto)
  assume "u \<noteq> v"
  then show "view v (store_candidates tie now u sid mid cs db) = view v db"
    unfolding store_candidates_def
    by (intro fold_frame [where ok = memory_ok, THEN conjunct2])
       (use assms create_memory_ok create_memory_frame in auto)
qed

lemma view_rows: "r \<in> set (view u db) \<longleftrightarrow> r \<in> set (md_rows db) \<and> owned u r"
  by (auto simp: view_def)

lemma write_id_present:
  "keeps_row f \<Longrightarrow> mr_id ` set (view u (write_id now i f db)) = mr_id ` set (view u db)"
proof -
  assume k: "keeps_row f"
  have "view u (write_id now i f db) = map (\<lambda>r. if mr_id r = i then write_row now f r else r) (view u db)"
    using keeps_owned [OF keeps_write [OF k]]
    by (simp add: view_def write_id_def filter_map comp_def if_distrib cong: if_cong)
  moreover have "mr_id (if mr_id r = i then write_row now f r else r) = mr_id r" for r
    using keeps_write [OF k, of now] by (simp add: keeps_row_def)
  then have "mr_id ` set (map (\<lambda>r. if mr_id r = i then write_row now f r else r) (view u db)) = mr_id ` set (view u db)"
    unfolding set_map image_image by simp
  ultimately show ?thesis by simp
qed

lemma recall_frame:
  assumes "memory_ok db"
  shows "memory_ok (memory_exec tie u (now, Mem_recall limit) db)"
    and "u \<noteq> v \<Longrightarrow> view v (memory_exec tie u (now, Mem_recall limit) db) = view v db"
proof -
  let ?ms = "list_memories tie db u (Some ACTIVE) False limit"
  let ?I = "mr_id ` set (view u db)"
  let ?f = "\<lambda>r. write_id now (mr_id r) (use_row now)"
  have ms: "mr_id r \<in> ?I" if "r \<in> set ?ms" for r
    using list_memories_set [OF that] by (auto simp: view_def)
  have step: "(memory_ok (?f r d) \<and> mr_id ` set (view u (?f r d)) = ?I) \<and>
      (u \<noteq> v \<longrightarrow> view v (?f r d) = view v d)"
    if r: "r \<in> set ?ms" and d: "memory_ok d \<and> mr_id ` set (view u d) = ?I" for r d
  proof -
    have "mr_id r \<in> mr_id ` set (view u d)" using ms [OF r] d by simp
    then obtain r' where "r' \<in> set (md_rows d)" "owned u r'" "mr_id r' = mr_id r"
      by (auto simp: image_iff view_rows)
    then show ?thesis using d
      by (auto simp: write_id_ok keeps_use write_id_present intro: write_id_frame [OF keeps_use])
  qed
  have "memory_ok (fold ?f ?ms db) \<and> mr_id ` set (view u (fold ?f ?ms db)) = ?I \<and>
     (u \<noteq> v \<longrightarrow> view v (fold ?f ?ms db) = view v db)"
    using fold_frame [of "\<lambda>d. memory_ok d \<and> mr_id ` set (view u d) = ?I" db ?ms ?f
        "\<lambda>d. if u \<noteq> v then view v d else []"] assms step
    by (cases "u = v") auto
  then show "memory_ok (memory_exec tie u (now, Mem_recall limit) db)"
    and "u \<noteq> v \<Longrightarrow> view v (memory_exec tie u (now, Mem_recall limit) db) = view v db"
    by (simp_all add: format_memory_context_def Let_def)
qed

section \<open>Isolation of users\<close>

lemma memory_exec_ok: "memory_ok db \<Longrightarrow> memory_ok (memory_exec tie u a db)"
proof -
  assume ok: "memory_ok db"
  obtain now b where a: "a = (now, b)" by (cases a)
  show ?thesis
  proof (cases b)
    case (Mem_clear)
    then show ?thesis using ok
      by (auto simp: a deactivate_all_memories_def memory_ok_def comp_def if_distrib [of mr_id] reject_def row_ok_def cong: if_cong)
  next
    case (Mem_recall limit)
    then show ?thesis using recall_frame(1) [OF ok] a by simp
  qed (use ok in \<open>auto simp: a update_memory_def delete_memory_def create_memory_ok store_candidates_frame(1)
        write_id_ok keeps_patch keeps_reject simp del: asc_Cons split: option.splits\<close>)
qed

lemma memory_exec_frame:
  assumes ok: "memory_ok db" and "u \<noteq> v"
  shows "view v (memory_exec tie u a db) = view v db"
proof -
  obtain now b where a: "a = (now, b)" by (cases a)
  show ?thesis
  proof (cases b)
    case (Mem_clear)
    then show ?thesis using assms owned_unique unfolding a
      by (auto simp: deactivate_all_memories_def view_def reject_def owned_def [of v] intro!: filter_map_frame split: if_splits)
  next
    case (Mem_recall limit)
    then show ?thesis using recall_frame(2) [OF assms] a by simp
  next
    case (Mem_patch i p)
    then show ?thesis using assms
      by (auto simp: a update_memory_def split: option.splits dest!: get_memory_Some intro!: write_id_frame [OF keeps_patch])
  next
    case (Mem_delete i)
    then show ?thesis using assms
      by (auto simp: a delete_memory_def split: option.splits dest!: get_memory_Some intro!: write_id_frame [OF keeps_reject])
  qed (use assms in \<open>simp_all add: a create_memory_frame store_candidates_frame(2)\<close>)
qed

text \<open>What a user can ask: a list, one row, the context of a prompt.\<close>

datatype memory_query = Ask_list "pystr option" bool nat | Ask_row int | Ask_context nat

datatype memory_answer = Rows "memory_row list" | Row "memory_row option" | Context pystr

fun memory_ask :: "tie \<Rightarrow> int option \<Rightarrow> memory_query \<Rightarrow> memory_db \<Rightarrow> memory_answer" where
  "memory_ask tie u (Ask_list status inact limit) db = Rows (list_memories tie db u status inact limit)"
| "memory_ask tie u (Ask_row i) db = Row (get_memory db i u)"
| "memory_ask tie u (Ask_context limit) db = Context (snd (format_memory_context tie 0 (Some db) u limit))"

lemma filter_owned: "filter (\<lambda>r. owned u r \<and> Q r) (md_rows db) = filter Q (view u db)"
  by (simp add: view_def conj_commute)

lemma list_memories_view: "view u db = view u db' \<Longrightarrow> list_memories tie db u s i l = list_memories tie db' u s i l"
  by (simp add: list_memories_def filter_owned)

lemma get_memory_view: "get_memory db i u = find (\<lambda>r. mr_id r = i) (view u db)"
proof -
  have "find (\<lambda>r. P r \<and> Q r) rs = find P (filter Q rs)" for P Q and rs :: "memory_row list"
    by (induction rs) auto
  then show ?thesis by (simp add: get_memory_def view_def)
qed

lemma memory_ask_view: "view u db = view u db' \<Longrightarrow> memory_ask tie u q db = memory_ask tie u q db'"
  using list_memories_view [of u db db' tie]
  by (cases q) (simp_all add: get_memory_view format_memory_context_def Let_def)

interpretation memory_tenants: tenant_queries view "memory_exec tie" memory_ok "memory_ask tie" for tie
  by unfold_locales (rule memory_exec_ok memory_exec_frame memory_ask_view; assumption)+

abbreviation memory_run :: "tie \<Rightarrow> (int option \<times> int \<times> memory_op) list \<Rightarrow> memory_db \<Rightarrow> memory_db" where
  "memory_run \<equiv> memory_tenants.run"

text \<open>C9: whatever the other users (and anonymous callers) do to their memories - add,
  edit by any identifier, delete, clear, recall, chat - a user's own rows, lists and prompt context
  stay exactly as they were, and the table keeps unique identifiers, canonical keys and normalised
  contents.\<close>

theorem memory_isolation:
  assumes "memory_ok db" and "\<forall>(u, a)\<in>set as. u \<noteq> v"
  shows "memory_ok (memory_run tie as db) \<and> view v (memory_run tie as db) = view v db \<and>
    memory_ask tie v q (memory_run tie as db) = memory_ask tie v q db"
  using memory_tenants.ok_run [OF assms(1)] memory_tenants.view_run_others [OF assms]
    memory_tenants.query_run_others [OF assms] by blast

section \<open>One live memory per key\<close>

definition live :: "memory_row \<Rightarrow> bool" where
  "live r \<longleftrightarrow> mr_status r \<noteq> REJECTED"

text \<open>A live row is the newest of its key, the only live one, and rejected rows are inactive.\<close>

definition key_inv :: "int option \<Rightarrow> memory_db \<Rightarrow> bool" where
  "key_inv u db \<longleftrightarrow>
     (\<forall>r\<in>set (view u db). \<forall>r'\<in>set (view u db). live r \<and> r' \<noteq> r \<and> mr_key r' = mr_key r \<longrightarrow>
        \<not> live r' \<and> mr_updated r' < mr_updated r) \<and>
     (\<forall>r\<in>set (view u db). live r \<or> \<not> mr_active r)"

definition up_to :: "int \<Rightarrow> int option \<Rightarrow> memory_db \<Rightarrow> bool" where
  "up_to now u db \<longleftrightarrow> (\<forall>r\<in>set (view u db). mr_updated r \<le> now \<and> (live r \<or> mr_updated r < now))"

lemma key_invD:
  "key_inv u db \<Longrightarrow> r \<in> set (view u db) \<Longrightarrow> r' \<in> set (view u db) \<Longrightarrow> live r \<Longrightarrow> r' \<noteq> r \<Longrightarrow>
   mr_key r' = mr_key r \<Longrightarrow> \<not> live r' \<and> mr_updated r' < mr_updated r"
  unfolding key_inv_def by blast

lemma key_inv_inactive: "key_inv u db \<Longrightarrow> r \<in> set (view u db) \<Longrightarrow> live r \<or> \<not> mr_active r"
  unfolding key_inv_def by blast

lemma view_write_id:
  "keeps_row f \<Longrightarrow> view u (write_id now i f db) =
     map (\<lambda>r. if mr_id r = i then write_row now f r else r) (view u db)"
  using keeps_owned [OF keeps_write, of f]
  by (simp add: view_def write_id_def filter_map comp_def if_distrib cong: if_cong)

lemma view_write_row:
  assumes "keeps_row f" "memory_ok db" "e \<in> set (view u db)"
  shows "set (view u (write_id now (mr_id e) f db)) = insert (write_row now f e) (set (view u db) - {e})"
proof -
  have "mr_id r = mr_id e \<longleftrightarrow> r = e" if "r \<in> set (view u db)" for r
    using that assms(2,3) memory_ok_unique by (auto simp: view_def)
  then have "(if mr_id r = mr_id e then write_row now f r else r) = (if r = e then write_row now f e else r)"
    if "r \<in> set (view u db)" for r using that by simp
  then have "set (view u (write_id now (mr_id e) f db)) = (\<lambda>r. if r = e then write_row now f e else r) ` set (view u db)"
    unfolding view_write_id [OF assms(1)] set_map by (rule image_cong [OF refl])
  also have "\<dots> = insert (write_row now f e) (set (view u db) - {e})" using assms(3) by auto
  finally show ?thesis .
qed

lemma key_inv_write:
  assumes f: "keeps_row f" and ok: "memory_ok db" and inv: "key_inv u db" and up: "up_to now u db"
    and e: "e \<in> set (view u db)" and key: "mr_key (f e) = mr_key e"
    and st: "f e = e \<or> (live e \<and> (live (f e) \<or> \<not> mr_active (f e)))"
  shows "key_inv u (write_id now (mr_id e) f db)"
proof -
  let ?e = "write_row now f e"
  have k: "mr_key ?e = mr_key e" using key by (simp add: write_row_def)
  have le: "mr_updated e \<le> mr_updated ?e" using up e by (auto simp: write_row_def up_to_def)
  have "live ?e = live (f e)" "mr_active ?e = mr_active (f e)" by (auto simp: write_row_def live_def)
  then have l: "?e = e \<or> (live e \<and> (live ?e \<or> \<not> mr_active ?e))" using st by (auto simp: write_row_def)
  note v = view_write_row [OF f ok e, of now]
  have "\<not> live r' \<and> mr_updated r' < mr_updated r"
    if r: "r \<in> insert ?e (set (view u db) - {e})" "r' \<in> insert ?e (set (view u db) - {e})"
      "live r" "r' \<noteq> r" "mr_key r' = mr_key r" for r r'
  proof (cases "r = ?e")
    case True
    then have "r' \<in> set (view u db)" "r' \<noteq> e" "mr_key r' = mr_key e" "live e" using r k l by auto
    then have "\<not> live r' \<and> mr_updated r' < mr_updated e" using key_invD [OF inv e] by blast
    then show ?thesis using le True by simp
  next
    case False
    show ?thesis
    proof (cases "r' = ?e")
      case True
      then have "r \<in> set (view u db)" "r \<noteq> e" "mr_key e = mr_key r" using r False k by auto
      then have "\<not> live e" "mr_updated e < mr_updated r" using key_invD [OF inv _ e] r(3) by blast+
      then show ?thesis using l True by auto
    next
      case False
      then have "r \<in> set (view u db)" "r' \<in> set (view u db)" using r \<open>r \<noteq> ?e\<close> by auto
      then show ?thesis using key_invD [OF inv] r by blast
    qed
  qed
  moreover have "live r \<or> \<not> mr_active r" if "r \<in> insert ?e (set (view u db) - {e})" for r
    using that l key_inv_inactive [OF inv, of r] key_inv_inactive [OF inv e] by auto
  ultimately show ?thesis unfolding key_inv_def v by blast
qed

lemma up_to_write:
  assumes "keeps_row f" "memory_ok db" "up_to now u db" "e \<in> set (view u db)" "live (f e)"
  shows "up_to now u (write_id now (mr_id e) f db)"
  using assms(3,4,5) unfolding up_to_def view_write_row [OF assms(1,2,4)]
  by (auto simp: write_row_def live_def)

lemma write_row_fields:
  "mr_key (write_row now f r) = mr_key (f r)" "live (write_row now f r) = live (f r)"
  "mr_id (write_row now f r) = mr_id (f r)"
  by (auto simp: write_row_def live_def)

lemma merge_memory_live: "nm_status m \<noteq> REJECTED \<Longrightarrow> live (merge_memory m r)"
  by (auto simp: live_def merge_memory_def ACTIVE_def REJECTED_def)

lemma written_fields [simp]:
  "mr_key (merge_memory m r) = mr_key r" "mr_content (merge_memory m r) = normalize_memory (nm_content m)"
  "mr_key (use_row now r) = mr_key r"
  by (simp_all add: merge_memory_def use_row_def)

lemma fresh_memory_live: "live (fresh_memory now i u m) = (nm_status m \<noteq> REJECTED)"
    "mr_updated (fresh_memory now i u m) = now"
  by (simp_all add: live_def fresh_memory_def)

lemma create_memory_inv:
  assumes ok: "memory_ok db" and inv: "key_inv u db" and up: "up_to now u db" and st: "nm_status m \<noteq> REJECTED"
  shows "key_inv u (fst (create_memory tie now db u m)) \<and> up_to now u (fst (create_memory tie now db u m))"
proof -
  obtain db' i where run: "create_memory tie now db u m = (db', i)"
    by (cases "create_memory tie now db u m")
  from run have "key_inv u db' \<and> up_to now u db'"
  proof (cases rule: create_memory_cases)
    case (merged e)
    then have "e \<in> set (view u db)" "live e" by (auto simp: view_def live_def)
    then show ?thesis using merged ok inv up st
      by (simp add: key_inv_write up_to_write keeps_merge merge_memory_live)
  next
    case fresh
    let ?n = "fresh_memory now (md_next db) u m"
    have v: "set (view u db') = insert ?n (set (view u db))"
      using fresh(3) fresh_memory_row(2) by (simp add: view_def)
    have old: "\<not> live r \<and> mr_updated r < now" if r: "r \<in> set (view u db)" "mr_key r = new_key m" for r
    proof -
      obtain e where e: "e \<in> set (view u db)" "mr_key e = new_key m" "\<not> live e" "mr_updated r \<le> mr_updated e"
        using fresh(1) r by (auto simp: view_def live_def)
      then have "mr_updated e < now" using up by (auto simp: up_to_def)
      moreover have "\<not> live r"
      proof
        assume "live r"
        then have "mr_updated e < mr_updated r" using key_invD [OF inv r(1) e(1)] e r by auto
        then show False using e(4) by simp
      qed
      ultimately show ?thesis using e(4) by simp
    qed
    have "key_inv u db'" unfolding key_inv_def v
      using key_invD [OF inv] key_inv_inactive [OF inv] old st fresh_memory_row(4) fresh_memory_live
      by (metis insert_iff)
    moreover have "up_to now u db'" using up st unfolding up_to_def v by (auto simp: fresh_memory_live)
    ultimately show ?thesis by blast
  qed
  then show ?thesis by (simp add: run)
qed

text \<open>The requests that do not edit rows by hand.\<close>

fun plain_op :: "memory_op \<Rightarrow> bool" where
  "plain_op (Mem_add m) = (nm_status m \<noteq> REJECTED)"
| "plain_op (Mem_patch i p) = False"
| "plain_op _ = True"

definition plain_inv :: "int \<Rightarrow> int option \<Rightarrow> memory_db \<Rightarrow> bool" where
  "plain_inv now u db \<longleftrightarrow> memory_ok db \<and> key_inv u db \<and> up_to now u db"

lemma plain_inv_create:
  "plain_inv now u db \<Longrightarrow> nm_status m \<noteq> REJECTED \<Longrightarrow> plain_inv now u (fst (create_memory tie now db u m))"
  using create_memory_ok create_memory_inv by (simp add: plain_inv_def)

lemma fold_inv: "I d \<Longrightarrow> (\<And>x d. x \<in> set xs \<Longrightarrow> I d \<Longrightarrow> I (f x d)) \<Longrightarrow> I (fold f xs d)"
  by (induction xs arbitrary: d) auto

lemma plain_inv_turn: "plain_inv now u db \<Longrightarrow> plain_inv now u (store_candidates tie now u sid mid cs db)"
  unfolding store_candidates_def
  by (rule fold_inv) (auto intro!: plain_inv_create simp: memory_of_candidate_def ACTIVE_def REJECTED_def)

lemma plain_inv_delete:
  assumes inv: "plain_inv now u db"
  shows "key_inv u (fst (delete_memory now db i u)) \<and> (\<forall>r\<in>set (view u (fst (delete_memory now db i u))). mr_updated r \<le> now)"
proof (cases "get_memory db i u")
  case None
  then show ?thesis using inv by (auto simp: delete_memory_def plain_inv_def up_to_def)
next
  case (Some e)
  have ok: "memory_ok db" "key_inv u db" and up: "up_to now u db"
    using inv by (auto simp: plain_inv_def)
  have e: "e \<in> set (view u db)" "mr_id e = i" using get_memory_Some [OF Some] by (auto simp: view_def)
  have "reject e = e \<or> (live e \<and> (live (reject e) \<or> \<not> mr_active (reject e)))"
    using key_inv_inactive [OF ok(2) e(1)] by (cases "live e") (auto simp: reject_def live_def)
  then have "key_inv u (write_id now (mr_id e) reject db)"
    using e(1) by (intro key_inv_write [OF keeps_reject ok up]) (simp_all add: reject_def)
  moreover have "\<forall>r\<in>set (view u (write_id now (mr_id e) reject db)). mr_updated r \<le> now"
    using up unfolding view_write_row [OF keeps_reject ok(1) e(1)] by (auto simp: up_to_def write_row_def e(1))
  ultimately show ?thesis using Some e(2) by (simp add: delete_memory_def)
qed

lemma plain_inv_clear:
  "key_inv u (fst (deactivate_all_memories now db u)) \<and>
   (\<forall>r\<in>set (view u (fst (deactivate_all_memories now db u))). mr_updated r \<le> now)"
proof -
  have "owned u (if owned u r then reject r\<lparr>mr_updated := now\<rparr> else r) = owned u r" for r
    by (simp add: owned_def reject_def)
  then have "view u (fst (deactivate_all_memories now db u)) = map (\<lambda>r. reject r\<lparr>mr_updated := now\<rparr>) (view u db)"
    by (simp add: view_def deactivate_all_memories_def filter_map comp_def)
  then show ?thesis by (auto simp: key_inv_def live_def reject_def)
qed

lemma plain_inv_recall:
  assumes "plain_inv now u db"
  shows "plain_inv now u (memory_exec tie u (now, Mem_recall limit) db)"
proof -
  let ?ms = "list_memories tie db u (Some ACTIVE) False limit"
  let ?f = "\<lambda>r. write_id now (mr_id r) (use_row now)"
  let ?L = "{r. live r}"
  let ?I = "\<lambda>d. plain_inv now u d \<and> mr_id ` (set (view u d) \<inter> ?L) = mr_id ` (set (view u db) \<inter> ?L)"
  have ms: "mr_id r \<in> mr_id ` (set (view u db) \<inter> ?L)" if "r \<in> set ?ms" for r
    using list_memories_set [OF that] by (auto simp: view_def live_def ACTIVE_def REJECTED_def)
  have step: "?I (?f r d)" if r: "r \<in> set ?ms" and d: "?I d" for r d
  proof -
    have "mr_id r \<in> mr_id ` (set (view u d) \<inter> ?L)" using ms [OF r] d by simp
    then obtain e where e: "e \<in> set (view u d)" "live e" "mr_id e = mr_id r" by auto
    have p: "memory_ok d" "key_inv u d" "up_to now u d" using d by (auto simp: plain_inv_def)
    have l: "live (use_row now e)" using e(2) by (simp add: live_def use_row_def)
    have "plain_inv now u (?f r d)"
      using write_id_ok [OF keeps_use p(1)] key_inv_write [OF keeps_use p e(1)] e(2) l
        up_to_write [OF keeps_use p(1) p(3) e(1) l]
      by (simp add: plain_inv_def e(3) [symmetric])
    moreover have "live (write_row now (use_row now) e)" "mr_id (write_row now (use_row now) e) = mr_id e"
      using l by (auto simp: write_row_def live_def use_row_def)
    then have "mr_id ` (set (view u (?f r d)) \<inter> ?L) = mr_id ` (set (view u d) \<inter> ?L)"
      using e(1,2) unfolding e(3) [symmetric] view_write_row [OF keeps_use p(1) e(1)] by force
    ultimately show ?thesis using d by simp
  qed
  have "?I db" using assms by simp
  then have "?I (fold ?f ?ms db)" by (rule fold_inv [of ?I]) (rule step)
  then show ?thesis by (simp add: format_memory_context_def Let_def)
qed

lemma plain_inv_exec:
  assumes op: "plain_op a" and ok: "memory_ok db" and inv: "key_inv u db"
    and up: "\<forall>r\<in>set (view u db). mr_updated r < now"
  shows "key_inv u (memory_exec tie u (now, a) db) \<and>
    (\<forall>r\<in>set (view u (memory_exec tie u (now, a) db)). mr_updated r \<le> now)"
proof -
  have p: "plain_inv now u db" using ok inv up by (force simp: plain_inv_def up_to_def)
  have fin: ?thesis if "plain_inv now u (memory_exec tie u (now, a) db)"
    using that by (auto simp: plain_inv_def up_to_def)
  show ?thesis
  proof (cases a)
    case (Mem_add m)
    then show ?thesis using fin plain_inv_create [OF p] op by simp
  next
    case (Mem_delete i)
    then show ?thesis using plain_inv_delete [OF p] by simp
  next
    case Mem_clear
    then show ?thesis using plain_inv_clear by simp
  next
    case (Mem_recall limit)
    then show ?thesis using fin plain_inv_recall [OF p] by simp
  next
    case (Mem_turn cs sid mid)
    then show ?thesis using fin plain_inv_turn [OF p] by simp
  qed (use op in simp)
qed

text \<open>As long as rows are not edited by hand (no \<open>PATCH\<close>, no creation in
  the rejected state) and the transactions carry increasing times, a user never has two live
  memories under one key, whatever is added, learnt from chat, recalled, deleted or cleared, and
  whatever other users do in between.\<close>

theorem memory_key_single_live:
  assumes ok: "memory_ok db" and inv: "key_inv u db" and t0: "\<forall>r\<in>set (view u db). mr_updated r \<le> t"
    and times: "sorted_wrt (<) (t # map (\<lambda>(v, now, a). now) as)"
    and plain: "\<forall>(v, now, a)\<in>set as. v = u \<longrightarrow> plain_op a"
  shows "key_inv u (memory_run tie as db)"
  using assms
proof (induction as arbitrary: db t)
  case (Cons x as)
  obtain v now a where x: "x = (v, now, a)" by (cases x)
  let ?db = "memory_exec tie v (now, a) db"
  have ok': "memory_ok ?db" using Cons.prems(1) by (rule memory_exec_ok)
  have now: "t < now" and rest: "sorted_wrt (<) (now # map (\<lambda>(v, now, a). now) as)"
    using Cons.prems(4) by (auto simp: x)
  have "key_inv u ?db \<and> (\<forall>r\<in>set (view u ?db). mr_updated r \<le> now)"
  proof (cases "v = u")
    case True
    then have "plain_op a" using Cons.prems(5) by (auto simp: x)
    moreover have "\<forall>r\<in>set (view u db). mr_updated r < now" using Cons.prems(3) now by force
    ultimately show ?thesis using plain_inv_exec Cons.prems(1,2) True by blast
  next
    case False
    have v: "view u ?db = view u db" by (rule memory_exec_frame [OF Cons.prems(1) False])
    have "key_inv u ?db" using Cons.prems(2) unfolding key_inv_def v .
    moreover have "\<forall>r\<in>set (view u ?db). mr_updated r \<le> now" unfolding v using Cons.prems(3) now by force
    ultimately show ?thesis ..
  qed
  then show ?case using Cons.IH [of ?db now] ok' rest Cons.prems(5)
    by (simp add: x memory_tenants.run_simps)
qed (simp add: memory_tenants.run_simps)

section \<open>The table refines a map from keys to contents\<close>

definition memory_map :: "int option \<Rightarrow> memory_db \<Rightarrow> pystr \<Rightarrow> pystr option" where
  "memory_map u db k = map_option mr_content (find (\<lambda>r. mr_key r = k \<and> live r) (view u db))"

lemma memory_map_Some:
  assumes "key_inv u db" "r \<in> set (view u db)" "live r"
  shows "memory_map u db (mr_key r) = Some (mr_content r)"
proof -
  have "find (\<lambda>r'. mr_key r' = mr_key r \<and> live r') (view u db) \<noteq> None"
    using assms by (auto simp: find_None_iff)
  then obtain r' where f: "find (\<lambda>r'. mr_key r' = mr_key r \<and> live r') (view u db) = Some r'" by auto
  then have "r' \<in> set (view u db)" "mr_key r' = mr_key r" "live r'" by (auto simp: find_Some_iff in_set_conv_nth)
  then have "r' = r" using key_invD [OF assms(1,2) _ assms(3)] by blast
  then show ?thesis using f by (simp add: memory_map_def)
qed

lemma memory_map_None: "memory_map u db k = None \<longleftrightarrow> (\<forall>r\<in>set (view u db). live r \<longrightarrow> mr_key r \<noteq> k)"
  by (auto simp: memory_map_def find_None_iff)

lemma memory_map_iff:
  "key_inv u db \<Longrightarrow> memory_map u db k = Some c \<longleftrightarrow> (\<exists>r\<in>set (view u db). live r \<and> mr_key r = k \<and> mr_content r = c)"
  using memory_map_Some memory_map_None [of u db k] by (metis not_None_eq option.inject)

text \<open>Two rows disagree on one key only: the abstract maps differ there only.\<close>

lemma memory_map_write:
  assumes "keeps_row f" "memory_ok db" "key_inv u db" "key_inv u (write_id now (mr_id e) f db)"
    and e: "e \<in> set (view u db)" "mr_key (f e) = mr_key e" "live e"
  shows "memory_map u (write_id now (mr_id e) f db) =
    (memory_map u db)(mr_key e := if live (f e) then Some (mr_content (f e)) else None)"
proof
  fix k
  let ?e = "write_row now f e" and ?db = "write_id now (mr_id e) f db"
  have w: "mr_key ?e = mr_key e" "live ?e = live (f e)" "mr_content ?e = mr_content (f e)"
    using e(2) by (auto simp: write_row_def live_def)
  note v = view_write_row [OF assms(1,2) e(1), of now]
  show "memory_map u ?db k = ((memory_map u db)(mr_key e := if live (f e) then Some (mr_content (f e)) else None)) k"
  proof (cases "k = mr_key e")
    case True
    have others: "\<not> live r" if "r \<in> set (view u db) - {e}" "mr_key r = mr_key e" for r
      using key_invD [OF assms(3) e(1) _ e(3)] that by blast
    show ?thesis
    proof (cases "live (f e)")
      case True
      then have "memory_map u ?db (mr_key ?e) = Some (mr_content ?e)"
        using v w by (intro memory_map_Some [OF assms(4)]) simp_all
      then show ?thesis using True w \<open>k = mr_key e\<close> by simp
    next
      case False
      then have "memory_map u ?db k = None" using others w \<open>k = mr_key e\<close> unfolding memory_map_None v by auto
      then show ?thesis using False \<open>k = mr_key e\<close> by simp
    qed
  next
    case False
    have "memory_map u ?db k = Some c \<longleftrightarrow> memory_map u db k = Some c" for c
      unfolding memory_map_iff [OF assms(4)] memory_map_iff [OF assms(3)] v using w(1) False by auto
    then show ?thesis using False by (metis fun_upd_other not_None_eq)
  qed
qed

lemma memory_map_fresh:
  assumes "key_inv u db" "key_inv u db'" "memory_map u db (mr_key n) = None" "live n"
    and v: "set (view u db') = insert n (set (view u db))"
  shows "memory_map u db' = (memory_map u db)(mr_key n \<mapsto> mr_content n)"
proof
  fix k
  show "memory_map u db' k = ((memory_map u db)(mr_key n \<mapsto> mr_content n)) k"
  proof (cases "k = mr_key n")
    case True
    then show ?thesis using memory_map_Some [OF assms(2) _ assms(4)] v by simp
  next
    case False
    have "memory_map u db' k = Some c \<longleftrightarrow> memory_map u db k = Some c" for c
      unfolding memory_map_iff [OF assms(2)] memory_map_iff [OF assms(1)] v using False by auto
    then show ?thesis using False by (metis fun_upd_other not_None_eq)
  qed
qed


section \<open>An edited key can collide\<close>

definition rename_key :: "pystr \<Rightarrow> memory_patch" where
  "rename_key k = \<lparr>mp_content = None, mp_category = None, mp_key = Some k, mp_status = None, mp_active = None\<rparr>"

text \<open>\<open>PATCH\<close> does not look for the key it assigns: renaming one live memory to
  the key of another leaves two live memories under one key, both of which are quoted in later
  prompts, and creation then updates whichever is newer.\<close>

theorem patch_duplicates_key:
  assumes ok: "memory_ok db" and e: "e \<in> set (view u db)" "live e"
    and e': "e' \<in> set (view u db)" "live e'" "e' \<noteq> e"
  shows "\<exists>r\<in>set (view u (memory_exec tie u (now, Mem_patch (mr_id e') (rename_key (mr_key e))) db)).
    \<exists>r'\<in>set (view u (memory_exec tie u (now, Mem_patch (mr_id e') (rename_key (mr_key e))) db)).
      r \<noteq> r' \<and> live r \<and> live r' \<and> mr_key r = mr_key r'"
proof -
  let ?f = "patch_row (rename_key (mr_key e))"
  have "mr_id e \<noteq> mr_id e'" using ok e e' memory_ok_unique by (auto simp: view_def)
  have "get_memory db (mr_id e') u \<noteq> None"
    using e'(1) by (auto simp: get_memory_def find_None_iff view_def)
  then have v: "set (view u (memory_exec tie u (now, Mem_patch (mr_id e') (rename_key (mr_key e))) db)) =
      insert (write_row now ?f e') (set (view u db) - {e'})"
    using view_write_row [OF keeps_patch ok e'(1)] by (auto simp: update_memory_def)
  have "key_form (mr_key e)" using ok e(1) by (auto simp: memory_ok_def view_def row_ok_def)
  then have "mr_key (?f e') = mr_key e" "live (?f e')" "mr_id (?f e') = mr_id e'"
    using e'(2) by (auto simp: patch_row_def rename_key_def Let_def normalize_key_idle live_def)
  then have "mr_key (write_row now ?f e') = mr_key e" "live (write_row now ?f e')"
      "mr_id (write_row now ?f e') = mr_id e'"
    by (simp_all add: write_row_fields)
  with \<open>mr_id e \<noteq> mr_id e'\<close> e e' show ?thesis unfolding v by (intro bexI [of _ "write_row now ?f e'"] bexI [of _ e]) auto
qed

section \<open>Instances\<close>

definition demo_memory :: "pystr \<Rightarrow> pystr \<Rightarrow> new_memory" where
  "demo_memory k c = \<lparr>nm_content = c, nm_category = (asc ''profile''), nm_key = Some k, nm_status = ACTIVE,
     nm_source = (asc ''manual''), nm_confidence = 1, nm_importance = 8/10, nm_session = None, nm_message = None,
     nm_sensitive = False, nm_extra = []\<rparr>"

definition empty_memories :: memory_db where
  "empty_memories = \<lparr>md_rows = [], md_next = 1\<rparr>"

lemma empty_memories_ok:
  "memory_ok empty_memories" "key_inv u empty_memories" "view u empty_memories = []"
  by (simp_all add: memory_ok_def key_inv_def view_def empty_memories_def)

abbreviation demo_table :: memory_db where
  "demo_table \<equiv> fst (create_memory (\<lambda>_. 0) 1 empty_memories (Some 1) (demo_memory (asc ''city'') (asc '' Paris '')))"

theorem memory_isolation_witness:
  "view (Some 1) (memory_run (\<lambda>_. 0) [(Some 2, 2, Mem_clear), (None, 3, Mem_delete 1)] demo_table) =
   view (Some 1) demo_table"
proof -
  have "memory_ok demo_table" by (rule create_memory_ok) (rule empty_memories_ok)
  from memory_isolation [OF this, of "[(Some 2, 2, Mem_clear), (None, 3, Mem_delete 1)]" "Some 1"]
  show ?thesis by simp
qed

theorem memory_key_single_live_witness:
  "key_inv (Some 1) (memory_run (\<lambda>_. 0)
     [(Some 1, 1, Mem_add (demo_memory (asc ''city'') (asc ''Paris''))), (None, 2, Mem_clear), (Some 1, 3, Mem_delete 1),
      (Some 1, 4, Mem_add (demo_memory (asc ''city'') (asc ''Rome'')))] empty_memories)"
  by (rule memory_key_single_live [where t = 0])
     (simp_all add: empty_memories_ok demo_memory_def ACTIVE_def REJECTED_def)


end
