(* ===== verification/Cache.thy ===== *)
theory Cache
  imports Accounts
begin

text \<open>
  \<open>backend/services/cache_service.py\<close>: the answer cache, the rate limit and the distributed lock on
  top of Redis. The Redis client is a parameter, a record of its commands over an abstract server
  state; \<open>redis_ok\<close> states the documented meaning of the commands through an abstraction of the
  server to keys with a value and a deadline. Time is in seconds and an argument of every command.
\<close>

section \<open>The client\<close>

record 'r redis =
  rd_get :: "int \<Rightarrow> pystr \<Rightarrow> 'r \<Rightarrow> pystr option result"
  rd_setex :: "int \<Rightarrow> pystr \<Rightarrow> int \<Rightarrow> pystr \<Rightarrow> 'r \<Rightarrow> 'r \<times> unit result"
  rd_set_nx :: "int \<Rightarrow> pystr \<Rightarrow> pystr \<Rightarrow> int \<Rightarrow> 'r \<Rightarrow> 'r \<times> bool result"
  rd_incr :: "int \<Rightarrow> pystr \<Rightarrow> 'r \<Rightarrow> 'r \<times> int result"
  rd_expire :: "int \<Rightarrow> pystr \<Rightarrow> int \<Rightarrow> 'r \<Rightarrow> 'r \<times> unit result"
  rd_delete :: "int \<Rightarrow> pystr \<Rightarrow> 'r \<Rightarrow> 'r \<times> unit result"

record cache_env =
  ce_enabled :: bool
  ce_ttl :: int
  ce_rate_limit :: int
  ce_md5 :: "int list \<Rightarrow> pystr"
  ce_dumps :: "json \<Rightarrow> pystr result"
  ce_loads :: "pystr \<Rightarrow> json result"

section \<open>Keys\<close>

definition cache_key :: "cache_env \<Rightarrow> pystr \<Rightarrow> pystr" where
  "cache_key env question = (asc ''crag:chat:cache:'') @ ce_md5 env (utf8 (py_lower (py_strip question)))"

definition rate_key :: "pystr \<Rightarrow> pystr" where
  "rate_key client_ip = (asc ''crag:rate:'') @ client_ip @ (asc '':chat'')"

definition lock_key :: "pystr \<Rightarrow> pystr" where
  "lock_key resource = (asc ''crag:lock:'') @ resource"

section \<open>Answer cache\<close>

definition get_cached_answer :: "cache_env \<Rightarrow> 'r redis \<Rightarrow> int \<Rightarrow> pystr \<Rightarrow> 'r \<Rightarrow> json option" where
  "get_cached_answer env rd now question s =
     (if \<not> ce_enabled env then None
      else case rd_get rd now (cache_key env question) s of
          Inr (Some raw) \<Rightarrow>
            if raw = [] then None
            else (case ce_loads env raw of Inl e \<Rightarrow> None | Inr j \<Rightarrow> Some j)
        | _ \<Rightarrow> None)"

definition set_cached_answer :: "cache_env \<Rightarrow> 'r redis \<Rightarrow> int \<Rightarrow> pystr \<Rightarrow> json \<Rightarrow> 'r \<Rightarrow> 'r" where
  "set_cached_answer env rd now question answer s =
     (if \<not> ce_enabled env then s
      else case ce_dumps env answer of
          Inl e \<Rightarrow> s
        | Inr raw \<Rightarrow> fst (rd_setex rd now (cache_key env question) (ce_ttl env) raw s))"

definition invalidate_cache :: "cache_env \<Rightarrow> 'r redis \<Rightarrow> int \<Rightarrow> pystr \<Rightarrow> 'r \<Rightarrow> 'r" where
  "invalidate_cache env rd now question s = fst (rd_delete rd now (cache_key env question) s)"

section \<open>Rate limit\<close>

definition check_rate_limit :: "cache_env \<Rightarrow> 'r redis \<Rightarrow> int \<Rightarrow> pystr \<Rightarrow> 'r \<Rightarrow> 'r \<times> bool" where
  "check_rate_limit env rd now client_ip s =
     (case rd_incr rd now (rate_key client_ip) s of
        (s1, Inl e) \<Rightarrow> (s1, True)
      | (s1, Inr cnt) \<Rightarrow>
          (case (if cnt = 1 then rd_expire rd now (rate_key client_ip) 60 s1 else (s1, Inr ())) of
             (s2, Inl e) \<Rightarrow> (s2, True)
           | (s2, Inr _) \<Rightarrow> (s2, cnt \<le> ce_rate_limit env)))"

section \<open>Lock\<close>

definition acquire_lock :: "'r redis \<Rightarrow> int \<Rightarrow> pystr \<Rightarrow> int \<Rightarrow> 'r \<Rightarrow> 'r \<times> bool" where
  "acquire_lock rd now resource timeout s =
     (case rd_set_nx rd now (lock_key resource) (asc ''1'') timeout s of
        (s1, Inl e) \<Rightarrow> (s1, True)
      | (s1, Inr ok) \<Rightarrow> (s1, ok))"

definition release_lock :: "'r redis \<Rightarrow> int \<Rightarrow> pystr \<Rightarrow> 'r \<Rightarrow> 'r" where
  "release_lock rd now resource s = fst (rd_delete rd now (lock_key resource) s)"

section \<open>The documented commands\<close>

text \<open>The server as a map from keys to a value and an optional deadline; a key past its deadline is gone.\<close>

type_synonym server = "pystr \<Rightarrow> (pystr \<times> int option) option"

definition alive :: "int \<Rightarrow> server \<Rightarrow> pystr \<Rightarrow> (pystr \<times> int option) option" where
  "alive now m k = (case m k of
       Some (v, Some d) \<Rightarrow> if now < d then Some (v, Some d) else None
     | r \<Rightarrow> r)"

text \<open>
  Reachable server: no command raises and each does what the manual says. \<open>alpha\<close> is the view of the
  server; an integer is stored in decimal.
\<close>

definition redis_ok :: "'r redis \<Rightarrow> ('r \<Rightarrow> server) \<Rightarrow> bool" where
  "redis_ok rd alpha \<longleftrightarrow> (\<forall>now k s.
     rd_get rd now k s = Inr (map_option fst (alive now (alpha s) k)) \<and>
     (\<forall>ttl v. \<exists>s'. rd_setex rd now k ttl v s = (s', Inr ()) \<and> alpha s' = (alpha s)(k \<mapsto> (v, Some (now + ttl)))) \<and>
     (\<forall>ttl v. \<exists>s'. rd_set_nx rd now k v ttl s = (s', Inr (alive now (alpha s) k = None)) \<and>
        alpha s' = (if alive now (alpha s) k = None then (alpha s)(k \<mapsto> (v, Some (now + ttl))) else alpha s)) \<and>
     (\<exists>s'. rd_delete rd now k s = (s', Inr ()) \<and> alpha s' = (alpha s)(k := None)) \<and>
     (alive now (alpha s) k = None \<longrightarrow>
        (\<exists>s'. rd_incr rd now k s = (s', Inr 1) \<and> alpha s' = (alpha s)(k \<mapsto> (show_int 1, None)))) \<and>
     (\<forall>i d. alive now (alpha s) k = Some (show_int i, d) \<longrightarrow>
        (\<exists>s'. rd_incr rd now k s = (s', Inr (i + 1)) \<and> alpha s' = (alpha s)(k \<mapsto> (show_int (i + 1), d)))) \<and>
     (\<forall>ttl v d. alive now (alpha s) k = Some (v, d) \<longrightarrow>
        (\<exists>s'. rd_expire rd now k ttl s = (s', Inr ()) \<and> alpha s' = (alpha s)(k \<mapsto> (v, Some (now + ttl))))))"

lemma redis_get: "redis_ok rd alpha \<Longrightarrow> rd_get rd now k s = Inr (map_option fst (alive now (alpha s) k))"
  unfolding redis_ok_def by blast

lemma redis_setex:
  assumes "redis_ok rd alpha"
  obtains s' where "rd_setex rd now k ttl v s = (s', Inr ())" "alpha s' = (alpha s)(k \<mapsto> (v, Some (now + ttl)))"
  using assms unfolding redis_ok_def by blast

lemma redis_set_nx:
  assumes "redis_ok rd alpha"
  obtains s' where "rd_set_nx rd now k v ttl s = (s', Inr (alive now (alpha s) k = None))"
    "alpha s' = (if alive now (alpha s) k = None then (alpha s)(k \<mapsto> (v, Some (now + ttl))) else alpha s)"
  using assms unfolding redis_ok_def by blast

lemma redis_delete:
  assumes "redis_ok rd alpha"
  obtains s' where "rd_delete rd now k s = (s', Inr ())" "alpha s' = (alpha s)(k := None)"
  using assms unfolding redis_ok_def by blast

lemma redis_incr_new:
  assumes "redis_ok rd alpha" "alive now (alpha s) k = None"
  obtains s' where "rd_incr rd now k s = (s', Inr 1)" "alpha s' = (alpha s)(k \<mapsto> (show_int 1, None))"
  using assms unfolding redis_ok_def by blast

lemma redis_incr_old:
  assumes "redis_ok rd alpha" "alive now (alpha s) k = Some (show_int i, d)"
  obtains s' where "rd_incr rd now k s = (s', Inr (i + 1))" "alpha s' = (alpha s)(k \<mapsto> (show_int (i + 1), d))"
  using assms unfolding redis_ok_def by blast

lemma redis_expire:
  assumes "redis_ok rd alpha" "alive now (alpha s) k = Some (v, d)"
  obtains s' where "rd_expire rd now k ttl s = (s', Inr ())" "alpha s' = (alpha s)(k \<mapsto> (v, Some (now + ttl)))"
  using assms unfolding redis_ok_def by blast

text \<open>An instance: the documented commands on the map itself.\<close>

definition spec_redis :: "server redis" where
  "spec_redis = \<lparr>
     rd_get = (\<lambda>now k m. Inr (map_option fst (alive now m k))),
     rd_setex = (\<lambda>now k ttl v m. (m(k \<mapsto> (v, Some (now + ttl))), Inr ())),
     rd_set_nx = (\<lambda>now k v ttl m.
        (if alive now m k = None then m(k \<mapsto> (v, Some (now + ttl))) else m, Inr (alive now m k = None))),
     rd_incr = (\<lambda>now k m. case alive now m k of
         None \<Rightarrow> (m(k \<mapsto> (show_int 1, None)), Inr 1)
       | Some (v, d) \<Rightarrow> (case int_of_str v of
           None \<Rightarrow> (m, Inl (OtherError (asc ''value is not an integer'')))
         | Some i \<Rightarrow> (m(k \<mapsto> (show_int (i + 1), d)), Inr (i + 1)))),
     rd_expire = (\<lambda>now k ttl m. (case alive now m k of None \<Rightarrow> m | Some (v, d) \<Rightarrow> m(k \<mapsto> (v, Some (now + ttl))), Inr ())),
     rd_delete = (\<lambda>now k m. (m(k := None), Inr ()))\<rparr>"

lemma spec_redis_ok: "redis_ok spec_redis (\<lambda>m. m)"
  by (auto simp: redis_ok_def spec_redis_def int_of_show_int)

section \<open>Facts about the cache\<close>

lemma cached_after_set:
  assumes rd: "redis_ok rd alpha" and json: "ce_dumps env a = Inr raw" "raw \<noteq> []" "ce_loads env raw = Inr a"
    and on: "ce_enabled env" and time: "now' < now + ce_ttl env"
  shows "get_cached_answer env rd now' q (set_cached_answer env rd now q a s) = Some a"
proof -
  obtain s' where s': "rd_setex rd now (cache_key env q) (ce_ttl env) raw s = (s', Inr ())"
    "alpha s' = (alpha s)(cache_key env q \<mapsto> (raw, Some (now + ce_ttl env)))"
    using redis_setex [OF rd] by metis
  then have "rd_get rd now' (cache_key env q) s' = Inr (Some raw)"
    using time by (simp add: redis_get [OF rd] alive_def)
  then show ?thesis using s' json on by (simp add: get_cached_answer_def set_cached_answer_def)
qed

lemma cached_expires:
  assumes rd: "redis_ok rd alpha" and time: "now + ce_ttl env \<le> now'" and json: "ce_dumps env a = Inr raw"
  shows "get_cached_answer env rd now' q (set_cached_answer env rd now q a s) = None"
proof (cases "ce_enabled env")
  case True
  obtain s' where s': "rd_setex rd now (cache_key env q) (ce_ttl env) raw s = (s', Inr ())"
    "alpha s' = (alpha s)(cache_key env q \<mapsto> (raw, Some (now + ce_ttl env)))"
    using redis_setex [OF rd] by metis
  then have "rd_get rd now' (cache_key env q) s' = Inr None"
    using time by (simp add: redis_get [OF rd] alive_def)
  then show ?thesis using s' json True by (simp add: get_cached_answer_def set_cached_answer_def)
qed (simp add: get_cached_answer_def)

section \<open>The rate limit\<close>

fun rate_calls :: "cache_env \<Rightarrow> 'r redis \<Rightarrow> pystr \<Rightarrow> int list \<Rightarrow> 'r \<Rightarrow> 'r \<times> bool list" where
  "rate_calls env rd ip [] s = (s, [])"
| "rate_calls env rd ip (t # ts) s =
     (case check_rate_limit env rd t ip s of (s', ok) \<Rightarrow>
      case rate_calls env rd ip ts s' of (s'', oks) \<Rightarrow> (s'', ok # oks))"

lemma rate_calls_counting:
  assumes rd: "redis_ok rd alpha"
  shows "alpha s (rate_key ip) = Some (show_int i, d) \<Longrightarrow> 1 \<le> i \<Longrightarrow> \<forall>t\<in>set ts. \<forall>e. d = Some e \<longrightarrow> t < e \<Longrightarrow>
    snd (rate_calls env rd ip ts s) = map (\<lambda>j. i + int j + 1 \<le> ce_rate_limit env) [0..<length ts]"
proof (induction ts arbitrary: s i)
  case (Cons t ts)
  have al: "alive t (alpha s) (rate_key ip) = Some (show_int i, d)"
    using Cons.prems by (cases d) (simp_all add: alive_def)
  obtain s' where s': "rd_incr rd t (rate_key ip) s = (s', Inr (i + 1))"
    "alpha s' = (alpha s)(rate_key ip \<mapsto> (show_int (i + 1), d))"
    using redis_incr_old [OF rd al] by metis
  have chk: "check_rate_limit env rd t ip s = (s', i + 1 \<le> ce_rate_limit env)"
    using s' Cons.prems(2) by (simp add: check_rate_limit_def)
  have "snd (rate_calls env rd ip ts s') = map (\<lambda>j. (i + 1) + int j + 1 \<le> ce_rate_limit env) [0..<length ts]"
    using s' Cons.prems by (intro Cons.IH) auto
  then show ?case
    by (simp add: chk split_beta upt_conv_Cons map_Suc_upt [symmetric] ac_simps del: upt_Suc)
qed simp

text \<open>C33: on a reachable Redis, of the calls of one client in the sixty seconds from its
  first one exactly the first \<open>rate_limit_per_minute\<close> are allowed, whatever their spacing.\<close>

theorem rate_limit_exact:
  assumes rd: "redis_ok rd alpha" and new: "alive t (alpha s) (rate_key ip) = None"
    and ts: "\<forall>t'\<in>set ts. t' < t + 60"
  shows "snd (rate_calls env rd ip (t # ts) s) = map (\<lambda>j. int j < ce_rate_limit env) [0..<length (t # ts)]"
proof -
  obtain s1 where s1: "rd_incr rd t (rate_key ip) s = (s1, Inr 1)" "alpha s1 = (alpha s)(rate_key ip \<mapsto> (show_int 1, None))"
    using redis_incr_new [OF rd new] by metis
  then have "alive t (alpha s1) (rate_key ip) = Some (show_int 1, None)" by (simp add: alive_def)
  from redis_expire [OF rd this] obtain s2 where s2: "rd_expire rd t (rate_key ip) 60 s1 = (s2, Inr ())"
    "alpha s2 = (alpha s1)(rate_key ip \<mapsto> (show_int 1, Some (t + 60)))" by metis
  have chk: "check_rate_limit env rd t ip s = (s2, 1 \<le> ce_rate_limit env)"
    using s1 s2 by (simp add: check_rate_limit_def)
  have "snd (rate_calls env rd ip ts s2) = map (\<lambda>j. 1 + int j + 1 \<le> ce_rate_limit env) [0..<length ts]"
    using s2(2) ts by (intro rate_calls_counting [OF rd]) auto
  then show ?thesis
    by (simp add: chk split_beta upt_conv_Cons map_Suc_upt [symmetric] del: upt_Suc) auto
qed

definition demo_cache :: cache_env where
  "demo_cache = \<lparr>ce_enabled = True, ce_ttl = 3600, ce_rate_limit = 2, ce_md5 = (\<lambda>bs. bs),
     ce_dumps = (\<lambda>j. case j of JObj [(_, JStr s), _, _, _, _, _, _] \<Rightarrow> Inr (0 # s) | _ \<Rightarrow> Inl (ValueError [])),
     ce_loads = (\<lambda>_. Inl (ValueError []))\<rparr>"

theorem rate_limit_exact_witness:
  "snd (rate_calls demo_cache spec_redis (asc ''10.0.0.1'') [100, 100, 159] Map.empty) = [True, True, False]"
  using rate_limit_exact [OF spec_redis_ok, of 100 Map.empty "(asc ''10.0.0.1'')" "[100, 159]" demo_cache]
  by (simp add: alive_def demo_cache_def upt_conv_Cons del: asc_Cons)

text \<open>The deadline of the counter is set by a second command. When that command
  fails once (the call itself is let through), the counter has no deadline and is never reset: the
  client gets \<open>rate_limit_per_minute - 1\<close> more calls, however far apart, and is then refused for ever.\<close>

theorem rate_limit_sticks:
  assumes rd: "redis_ok rd alpha" and new: "alive t (alpha s) (rate_key ip) = None"
    and broken: "rd' = rd\<lparr>rd_expire := \<lambda>_ _ _ s. (s, Inl e)\<rparr>"
  shows "\<exists>s1. check_rate_limit env rd' t ip s = (s1, True) \<and>
    (\<forall>ts. snd (rate_calls env rd ip ts s1) = map (\<lambda>j. int j + 2 \<le> ce_rate_limit env) [0..<length ts])"
proof -
  obtain s1 where s1: "rd_incr rd t (rate_key ip) s = (s1, Inr 1)" "alpha s1 = (alpha s)(rate_key ip \<mapsto> (show_int 1, None))"
    using redis_incr_new [OF rd new] by metis
  have "check_rate_limit env rd' t ip s = (s1, True)"
    using s1(1) by (simp add: check_rate_limit_def broken)
  moreover have "snd (rate_calls env rd ip ts s1) = map (\<lambda>j. 1 + int j + 1 \<le> ce_rate_limit env) [0..<length ts]" for ts
    using s1(2) by (intro rate_calls_counting [OF rd, where d = None]) auto
  ultimately show ?thesis by (auto simp: add.commute)
qed

theorem rate_limit_sticks_witness:
  "\<exists>s1. snd (rate_calls demo_cache spec_redis (asc ''10.0.0.1'') [3600, 7200, 86400] s1) = [True, False, False]"
proof -
  obtain s1 where "\<forall>ts. snd (rate_calls demo_cache spec_redis (asc ''10.0.0.1'') ts s1) =
      map (\<lambda>j. int j + 2 \<le> ce_rate_limit demo_cache) [0..<length ts]"
    using rate_limit_sticks [OF spec_redis_ok, of 0 Map.empty "(asc ''10.0.0.1'')" _ "OtherError []" demo_cache]
    by (auto simp: alive_def)
  then have "snd (rate_calls demo_cache spec_redis (asc ''10.0.0.1'') [3600, 7200, 86400] s1) = [True, False, False]"
    by (simp add: demo_cache_def upt_conv_Cons del: asc_Cons rate_calls.simps)
  then show ?thesis by blast
qed

section \<open>The lock\<close>

lemma acquire_lock_ok:
  assumes "redis_ok rd alpha"
  shows "snd (acquire_lock rd t res T s) = (alive t (alpha s) (lock_key res) = None) \<and>
    alpha (fst (acquire_lock rd t res T s)) =
      (if alive t (alpha s) (lock_key res) = None then (alpha s)(lock_key res \<mapsto> ((asc ''1''), Some (t + T))) else alpha s)"
proof -
  obtain s' where "rd_set_nx rd t (lock_key res) (asc ''1'') T s = (s', Inr (alive t (alpha s) (lock_key res) = None))"
    "alpha s' = (if alive t (alpha s) (lock_key res) = None then (alpha s)(lock_key res \<mapsto> ((asc ''1''), Some (t + T))) else alpha s)"
    by (rule redis_set_nx [OF assms])
  then show ?thesis by (simp add: acquire_lock_def del: asc_Cons)
qed

lemma release_lock_ok: "redis_ok rd alpha \<Longrightarrow> alpha (release_lock rd t res s) = (alpha s)(lock_key res := None)"
proof -
  assume rd: "redis_ok rd alpha"
  obtain s' where "rd_delete rd t (lock_key res) s = (s', Inr ())" "alpha s' = (alpha s)(lock_key res := None)"
    by (rule redis_delete [OF rd])
  then show ?thesis by (simp add: release_lock_def)
qed

text \<open>
  Clients as the upload route uses the lock: acquire with a lease of \<open>T\<close> seconds, work when granted,
  release in the \<open>finally\<close> clause. \<open>H\<close> maps a client that is working to the end of its lease. A step
  is timely when no lease of a working client has run out.
\<close>

type_synonym leases = "nat \<Rightarrow> int option"

definition timely :: "int \<Rightarrow> leases \<Rightarrow> bool" where
  "timely t H \<longleftrightarrow> (\<forall>c d. H c = Some d \<longrightarrow> t < d)"

inductive lock_step :: "'r redis \<Rightarrow> pystr \<Rightarrow> int \<Rightarrow> 'r \<times> leases \<Rightarrow> 'r \<times> leases \<Rightarrow> bool" for rd res T where
  grant: "timely t H \<Longrightarrow> H c = None \<Longrightarrow> acquire_lock rd t res T s = (s', True) \<Longrightarrow>
    lock_step rd res T (s, H) (s', H(c \<mapsto> t + T))"
| refuse: "timely t H \<Longrightarrow> H c = None \<Longrightarrow> acquire_lock rd t res T s = (s', False) \<Longrightarrow>
    lock_step rd res T (s, H) (s', H)"
| release: "timely t H \<Longrightarrow> H c = Some d \<Longrightarrow>
    lock_step rd res T (s, H) (release_lock rd t res s, H(c := None))"

inductive_cases lock_stepE: "lock_step rd res T (s, H) (s', H')"

definition lock_inv :: "('r \<Rightarrow> server) \<Rightarrow> pystr \<Rightarrow> 'r \<times> leases \<Rightarrow> bool" where
  "lock_inv alpha res = (\<lambda>(s, H).
     (\<forall>c d. H c = Some d \<longrightarrow> (\<exists>v. alpha s (lock_key res) = Some (v, Some d))) \<and>
     (\<forall>c c'. H c \<noteq> None \<longrightarrow> H c' \<noteq> None \<longrightarrow> c = c'))"

lemma lock_inv_step [inv_intros]:
  assumes rd: "redis_ok rd alpha" and step: "lock_step rd res T x y" and inv: "lock_inv alpha res x"
  shows "lock_inv alpha res y"
  using step inv
proof (cases rule: lock_step.cases)
  case (grant t H c s s')
  have free: "alive t (alpha s) (lock_key res) = None" and s': "alpha s' = (alpha s)(lock_key res \<mapsto> ((asc ''1''), Some (t + T)))"
    using acquire_lock_ok [OF rd, of t res T s] grant(5) by (auto simp del: asc_Cons split: if_splits)
  have "H c' = None" for c'
  proof (rule ccontr)
    assume "H c' \<noteq> None"
    then obtain d where d: "H c' = Some d" by blast
    then have "t < d" "\<exists>v. alpha s (lock_key res) = Some (v, Some d)"
      using grant(1,3) inv by (auto simp: timely_def lock_inv_def)
    then show False using free by (auto simp: alive_def)
  qed
  then show ?thesis using grant(2) s' by (auto simp: lock_inv_def simp del: asc_Cons)
next
  case (refuse t H c s s')
  then show ?thesis using inv acquire_lock_ok [OF rd, of t res T s]
    by (auto simp: lock_inv_def split: if_splits)
next
  case (release t H c d s)
  then have "H c' = None" if "c' \<noteq> c" for c' using inv that by (auto simp: lock_inv_def)
  then show ?thesis using release(2) by (auto simp: lock_inv_def)
qed

text \<open>C20: as long as every client finishes before its lease runs out, at most one
  client works on a resource at any time, in every interleaving of attempts and releases.\<close>

theorem lock_mutual_exclusion:
  assumes rd: "redis_ok rd alpha" and run: "(lock_step rd res T)\<^sup>*\<^sup>* (s0, Map.empty) (s, H)"
    and "H c = Some d" "H c' = Some d'"
  shows "c = c'"
proof -
  have "lock_inv alpha res (s, H)" using run
  proof (induction rule: rtranclp_induct)
    case base
    then show ?case by (simp add: lock_inv_def)
  next
    case (step y z)
    then show ?case using lock_inv_step [OF rd] by blast
  qed
  then show ?thesis using assms(3,4) by (auto simp: lock_inv_def)
qed

theorem lock_mutual_exclusion_witness:
  "\<exists>s. (lock_step spec_redis (asc ''upload:a.pdf'') 30)\<^sup>*\<^sup>* (Map.empty, Map.empty) (s, [7 \<mapsto> 40]) \<and>
     (\<forall>c d. [7 \<mapsto> 40 :: int] c = Some d \<longrightarrow> c = (7 :: nat))"
proof -
  obtain s where s: "acquire_lock spec_redis 10 (asc ''upload:a.pdf'') 30 Map.empty = (s, True)"
    using acquire_lock_ok [OF spec_redis_ok, of 10 "(asc ''upload:a.pdf'')" 30 Map.empty]
    by (cases "acquire_lock spec_redis 10 (asc ''upload:a.pdf'') 30 Map.empty") (auto simp: alive_def simp del: asc_Cons)
  have "lock_step spec_redis (asc ''upload:a.pdf'') 30 (Map.empty, Map.empty) (s, Map.empty(7 \<mapsto> 10 + 30))"
    by (rule grant [OF _ _ s]) (simp_all add: timely_def)
  then have run: "(lock_step spec_redis (asc ''upload:a.pdf'') 30)\<^sup>*\<^sup>* (Map.empty, Map.empty) (s, [7 \<mapsto> 40])" by simp
  have "c = 7" if "[7 \<mapsto> 40 :: int] (c :: nat) = Some d" for c d
    by (rule lock_mutual_exclusion [OF spec_redis_ok run that]) simp
  with run show ?thesis by blast
qed

text \<open>The release is not tied to the holder. A client that outlives its lease
  deletes the lock its successor holds: with \<open>A\<close> working past \<open>T\<close> seconds, \<open>B\<close> is granted the lock,
  \<open>A\<close>'s release removes it, and \<open>C\<close> is granted it at once, during \<open>B\<close>'s lease.\<close>

theorem lock_release_is_blind:
  assumes rd: "redis_ok rd alpha" and T: "0 < T" and free: "alive t (alpha s) (lock_key res) = None"
  shows "\<exists>s1 s2 s3. acquire_lock rd t res T s = (s1, True) \<and>
    acquire_lock rd (t + T) res T s1 = (s2, True) \<and>
    alive (t + T) (alpha s2) (lock_key res) = Some ((asc ''1''), Some (t + 2 * T)) \<and>
    acquire_lock rd (t + T) res T (release_lock rd (t + T) res s2) = (s3, True)"
proof -
  obtain s1 where s1: "acquire_lock rd t res T s = (s1, True)" "alpha s1 = (alpha s)(lock_key res \<mapsto> ((asc ''1''), Some (t + T)))"
    using acquire_lock_ok [OF rd, of t res T s] free by (cases "acquire_lock rd t res T s") auto
  have "alive (t + T) (alpha s1) (lock_key res) = None" using s1 by (simp add: alive_def)
  then obtain s2 where s2: "acquire_lock rd (t + T) res T s1 = (s2, True)"
      "alpha s2 = (alpha s1)(lock_key res \<mapsto> ((asc ''1''), Some (t + T + T)))"
    using acquire_lock_ok [OF rd, of "t + T" res T s1] by (cases "acquire_lock rd (t + T) res T s1") auto
  have "alive (t + T) (alpha (release_lock rd (t + T) res s2)) (lock_key res) = None"
    by (simp add: release_lock_ok [OF rd] alive_def)
  then obtain s3 where "acquire_lock rd (t + T) res T (release_lock rd (t + T) res s2) = (s3, True)"
    using acquire_lock_ok [OF rd, of "t + T" res T "release_lock rd (t + T) res s2"]
    by (cases "acquire_lock rd (t + T) res T (release_lock rd (t + T) res s2)") auto
  then show ?thesis using s1 s2 T by (simp add: alive_def)
qed

theorem lock_release_is_blind_witness:
  "\<exists>s1 s2 s3. acquire_lock spec_redis 0 (asc ''upload:a.pdf'') 30 Map.empty = (s1, True) \<and>
    acquire_lock spec_redis 30 (asc ''upload:a.pdf'') 30 s1 = (s2, True) \<and>
    acquire_lock spec_redis 30 (asc ''upload:a.pdf'') 30 (release_lock spec_redis 30 (asc ''upload:a.pdf'') s2) = (s3, True)"
proof -
  have "alive 0 Map.empty (lock_key (asc ''upload:a.pdf'')) = None" by (simp add: alive_def)
  with lock_release_is_blind [OF spec_redis_ok, where T = 30 and t = 0 and s = Map.empty and res = "(asc ''upload:a.pdf'')"]
  show ?thesis by (auto simp del: asc_Cons)
qed

end
