(* ===== verification/Sessions.thy ===== *)
theory Sessions
  imports Accounts
begin

text \<open>
  Chat sessions and their history: the routes of \<open>backend/api/v1/sessions.py\<close>, the models
  \<open>ChatSession\<close> and \<open>ChatHistory\<close>, and the two functions of \<open>backend/services/chat_service.py\<close> that
  read and write the history. The state is the two tables; the clock is an argument, and so is
  \<open>tie\<close>, the priority by which the database orders rows with equal time stamps. A turn of a session
  that does not exist violates the foreign key of the table, so the insertion fails.
\<close>

section \<open>Tables\<close>

record chat_session =
  cs_id :: int
  cs_user :: "int option"
  cs_title :: pystr
  cs_count :: int
  cs_created :: int
  cs_updated :: int

record chat_turn =
  ct_id :: int
  ct_session :: int
  ct_question :: pystr
  ct_answer :: pystr
  ct_route :: pystr
  ct_sources :: "json list"
  ct_trace :: "pystr list"
  ct_duration :: int
  ct_fallback :: bool
  ct_cached :: bool
  ct_created :: int

record session_db =
  sd_sessions :: "chat_session list"
  sd_turns :: "chat_turn list"
  sd_next_session :: int
  sd_next_turn :: int

definition session_of :: "session_db \<Rightarrow> int \<Rightarrow> chat_session option" where
  "session_of db i = find (\<lambda>s. cs_id s = i) (sd_sessions db)"

definition turns_of :: "session_db \<Rightarrow> int \<Rightarrow> chat_turn list" where
  "turns_of db i = filter (\<lambda>t. ct_session t = i) (sd_turns db)"

section \<open>Routes\<close>

definition session_db_missing :: exn where
  "session_db_missing = AppError (asc ''INTERNAL_ERROR'') [0x6570, 0x636e, 0x5e93, 0x672a, 0x914d,
      0x7f6e] 503"

definition session_not_found :: "int \<Rightarrow> exn" where
  "session_not_found i = AppError (asc ''SESSION_NOT_FOUND'') (([0x4f1a, 0x8bdd] @ asc '' '') @
      show_int i @ (asc '' '' @ [0x4e0d, 0x5b58, 0x5728])) 404"

definition session_forbidden :: exn where
  "session_forbidden = AppError (asc ''SESSION_FORBIDDEN'') [0x65e0, 0x6743, 0x8bbf, 0x95ee, 0x6b64,
      0x4f1a, 0x8bdd] 403"

definition list_sessions :: "(chat_session \<Rightarrow> int) \<Rightarrow> session_db option \<Rightarrow> user option \<Rightarrow> chat_session list result" where
  "list_sessions tie db current_user =
     (case db of None \<Rightarrow> Inl session_db_missing
      | Some d \<Rightarrow>
          Inr (take 50 (sort_key (\<lambda>s. - cs_updated s) (sort_key tie
            (filter (\<lambda>s. cs_user s = map_option u_id current_user) (sd_sessions d))))))"

definition create_session :: "int \<Rightarrow> session_db option \<Rightarrow> user option \<Rightarrow> pystr \<Rightarrow> session_db option \<times> chat_session result" where
  "create_session now db current_user title =
     (case db of None \<Rightarrow> (None, Inl session_db_missing)
      | Some d \<Rightarrow>
          let s = \<lparr>cs_id = sd_next_session d, cs_user = map_option u_id current_user, cs_title = title,
                cs_count = 0, cs_created = now, cs_updated = now\<rparr>
          in (Some (d\<lparr>sd_sessions := sd_sessions d @ [s], sd_next_session := sd_next_session d + 1\<rparr>), Inr s))"

text \<open>\<open>session.user_id\<close> counts as absent when it is null or zero.\<close>

definition may_read :: "user option \<Rightarrow> chat_session \<Rightarrow> bool" where
  "may_read current_user s \<longleftrightarrow>
     \<not> (case current_user of
          None \<Rightarrow> False
        | Some u \<Rightarrow> cs_user s \<noteq> None \<and> cs_user s \<noteq> Some 0 \<and> cs_user s \<noteq> Some (u_id u) \<and> u_role u \<noteq> Role_admin)"

definition get_session ::
  "(chat_turn \<Rightarrow> int) \<Rightarrow> session_db option \<Rightarrow> user option \<Rightarrow> int \<Rightarrow> (chat_session \<times> chat_turn list) result" where
  "get_session tie db current_user i =
     (case db of None \<Rightarrow> Inl session_db_missing
      | Some d \<Rightarrow>
          (case session_of d i of
             None \<Rightarrow> Inl (session_not_found i)
           | Some s \<Rightarrow>
               if \<not> may_read current_user s then Inl session_forbidden
               else Inr (s, sort_key ct_created (sort_key tie (turns_of d i)))))"

definition delete_session :: "session_db option \<Rightarrow> user option \<Rightarrow> int \<Rightarrow> session_db option \<times> unit result" where
  "delete_session db current_user i =
     (case db of None \<Rightarrow> (None, Inl session_db_missing)
      | Some d \<Rightarrow>
          (case session_of d i of
             None \<Rightarrow> (db, Inl (session_not_found i))
           | Some s \<Rightarrow>
               (Some (d\<lparr>sd_sessions := filter (\<lambda>s. cs_id s \<noteq> i) (sd_sessions d),
                        sd_turns := filter (\<lambda>t. ct_session t \<noteq> i) (sd_turns d)\<rparr>), Inr ())))"

section \<open>History\<close>

definition history_line :: "chat_turn \<Rightarrow> pystr" where
  "history_line t = [0x7528, 0x6237, 0xff1a] @ take 300 (ct_question t) @ [10, 0x52a9, 0x624b,
      0xff1a] @ take 600 (ct_answer t)"

definition format_history_context :: "(chat_turn \<Rightarrow> int) \<Rightarrow> session_db \<Rightarrow> int \<Rightarrow> nat \<Rightarrow> pystr" where
  "format_history_context tie db i limit =
     py_join [10, 10] (map history_line (rev (take limit
       (sort_key (\<lambda>t. - ct_created t) (sort_key tie (turns_of db i))))))"

record turn_data =
  td_question :: pystr
  td_answer :: pystr
  td_route :: pystr
  td_sources :: "json list"
  td_trace :: "pystr list"
  td_duration :: int
  td_fallback :: bool

definition new_turn :: "int \<Rightarrow> session_db \<Rightarrow> int \<Rightarrow> turn_data \<Rightarrow> chat_turn" where
  "new_turn now db i td = \<lparr>ct_id = sd_next_turn db, ct_session = i, ct_question = td_question td,
     ct_answer = td_answer td, ct_route = td_route td, ct_sources = td_sources td,
     ct_trace = td_trace td, ct_duration = td_duration td, ct_fallback = td_fallback td,
     ct_cached = False, ct_created = now\<rparr>"

definition count_message :: "int \<Rightarrow> int \<Rightarrow> chat_session \<Rightarrow> chat_session" where
  "count_message now i s = (if cs_id s = i then s\<lparr>cs_count := cs_count s + 1, cs_updated := now\<rparr> else s)"

text \<open>
  The turn is inserted and flushed, then the session's counter is raised. For a session that does not exist
  the flush violates the foreign key. The function catches the exception and returns no message
  identifier, but it does not roll back: the whole transaction of the request is gone, and with it the
  use of its database session. This outcome is \<open>None\<close>; what the caller makes of it is \<open>record_turn\<close>.
\<close>

definition save_history :: "int \<Rightarrow> session_db \<Rightarrow> int \<Rightarrow> turn_data \<Rightarrow> (session_db \<times> int) option" where
  "save_history now db i td =
     (case session_of db i of
        None \<Rightarrow> None
      | Some s \<Rightarrow> Some
          (db\<lparr>sd_turns := sd_turns db @ [new_turn now db i td], sd_next_turn := sd_next_turn db + 1,
              sd_sessions := map (count_message now i) (sd_sessions db)\<rparr>,
           sd_next_turn db))"

section \<open>Well-formed tables\<close>

definition sessions_ok :: "session_db \<Rightarrow> bool" where
  "sessions_ok db \<longleftrightarrow> distinct (map cs_id (sd_sessions db)) \<and>
     (\<forall>s\<in>set (sd_sessions db). cs_id s < sd_next_session db \<and> cs_count s = int (length (turns_of db (cs_id s)))) \<and>
     (\<forall>t\<in>set (sd_turns db). ct_session t \<in> cs_id ` set (sd_sessions db)) \<and>
     distinct (map ct_id (sd_turns db)) \<and> (\<forall>t\<in>set (sd_turns db). ct_id t < sd_next_turn db)"

lemma session_of_Some:
  "session_of db i = Some s \<Longrightarrow> s \<in> set (sd_sessions db) \<and> cs_id s = i"
  by (auto simp: session_of_def find_Some_iff in_set_conv_nth)

lemma session_of_None: "session_of db i = None \<longleftrightarrow> i \<notin> cs_id ` set (sd_sessions db)"
  by (auto simp: session_of_def find_None_iff)

lemma turn_session_bound: "sessions_ok d \<Longrightarrow> t \<in> set (sd_turns d) \<Longrightarrow> ct_session t < sd_next_session d"
  by (fastforce simp: sessions_ok_def)

lemma new_turn_fields [simp]:
  "ct_session (new_turn now db i td) = i" "ct_id (new_turn now db i td) = sd_next_turn db"
  "ct_created (new_turn now db i td) = now"
  by (simp_all add: new_turn_def)

lemma count_message_fields [simp]:
  "cs_id (count_message now i s) = cs_id s" "cs_user (count_message now i s) = cs_user s"
  "cs_count (count_message now i s) = (if cs_id s = i then cs_count s + 1 else cs_count s)"
  by (simp_all add: count_message_def)

lemma create_session_ok [inv_intros]:
  assumes ok: "sessions_ok d" and run: "create_session now (Some d) u title = (Some d', r)"
  shows "sessions_ok d'"
proof -
  let ?s = "\<lparr>cs_id = sd_next_session d, cs_user = map_option u_id u, cs_title = title,
                cs_count = 0, cs_created = now, cs_updated = now\<rparr>"
  have d': "d' = d\<lparr>sd_sessions := sd_sessions d @ [?s], sd_next_session := sd_next_session d + 1\<rparr>"
    using run by (auto simp: create_session_def Let_def)
  have "turns_of d (sd_next_session d) = []"
    using turn_session_bound [OF ok] by (force simp: turns_of_def filter_empty_conv)
  then show ?thesis using ok unfolding d'
    by (auto simp: sessions_ok_def turns_of_def)
qed

lemma save_history_ok [inv_intros]:
  assumes ok: "sessions_ok db" and run: "save_history now db i td = Some (db', m)"
  shows "sessions_ok db'"
proof (cases "session_of db i")
  case None
  then show ?thesis using run by (simp add: save_history_def)
next
  case (Some s)
  let ?t = "new_turn now db i td"
  have db': "db' = db\<lparr>sd_turns := sd_turns db @ [?t], sd_next_turn := sd_next_turn db + 1,
                 sd_sessions := map (count_message now i) (sd_sessions db)\<rparr>"
    using run Some by (auto simp: save_history_def)
  have ids: "map cs_id (sd_sessions db') = map cs_id (sd_sessions db)" by (simp add: db' comp_def)
  have "turns_of db' j = turns_of db j @ (if j = i then [?t] else [])" for j
    by (simp add: turns_of_def db')
  then have cnt: "cs_count s = int (length (turns_of db' (cs_id s)))" if "s \<in> set (sd_sessions db')" for s
    using that ok by (auto simp: db' sessions_ok_def)
  have bound: "cs_id s < sd_next_session db'" if "s \<in> set (sd_sessions db')" for s
    using that ok by (auto simp: db' sessions_ok_def)
  have "i \<in> cs_id ` set (sd_sessions db)" using session_of_Some [OF Some] by auto
  then have fk: "ct_session t \<in> cs_id ` set (sd_sessions db')" if "t \<in> set (sd_turns db')" for t
    using that ok by (auto simp: db' sessions_ok_def image_image)
  have "distinct (map cs_id (sd_sessions db'))" unfolding ids using ok by (simp add: sessions_ok_def)
  moreover have "distinct (map ct_id (sd_turns db'))" "\<forall>t\<in>set (sd_turns db'). ct_id t < sd_next_turn db'"
    using ok by (force simp: db' sessions_ok_def)+
  ultimately show ?thesis using cnt bound fk unfolding sessions_ok_def by blast
qed

lemma delete_session_ok [inv_intros]:
  assumes ok: "sessions_ok d" and run: "delete_session (Some d) u i = (Some d', r)"
  shows "sessions_ok d'"
proof (cases "session_of d i")
  case None
  then show ?thesis using ok run by (simp add: delete_session_def)
next
  case (Some s)
  have d': "d' = d\<lparr>sd_sessions := filter (\<lambda>s. cs_id s \<noteq> i) (sd_sessions d),
                        sd_turns := filter (\<lambda>t. ct_session t \<noteq> i) (sd_turns d)\<rparr>"
    using run Some by (auto simp: delete_session_def)
  have "turns_of d' j = (if j = i then [] else turns_of d j)" for j
    by (auto simp: turns_of_def d' filter_empty_conv intro: filter_cong)
  then show ?thesis using ok
    by (auto simp: sessions_ok_def d' distinct_map_filter)
qed

section \<open>Properties\<close>

definition empty_sessions :: session_db where
  "empty_sessions = \<lparr>sd_sessions = [], sd_turns = [], sd_next_session = 1, sd_next_turn = 1\<rparr>"

lemma empty_sessions_ok: "sessions_ok empty_sessions"
  by (simp add: sessions_ok_def empty_sessions_def)

definition demo_turn :: "pystr \<Rightarrow> turn_data" where
  "demo_turn q = \<lparr>td_question = q, td_answer = (asc ''ok''), td_route = (asc ''local''), td_sources = [], td_trace = [],
     td_duration = 5, td_fallback = False\<rparr>"

definition demo_sessions :: session_db where
  "demo_sessions = \<lparr>
     sd_sessions = [\<lparr>cs_id = 1, cs_user = Some 7, cs_title = (asc ''t''), cs_count = 1, cs_created = 0, cs_updated = 3\<rparr>],
     sd_turns = [new_turn 3 empty_sessions 1 (demo_turn (asc ''hi''))], sd_next_session = 2, sd_next_turn = 2\<rparr>"

lemma demo_sessions_ok: "sessions_ok demo_sessions"
  by (simp add: sessions_ok_def demo_sessions_def turns_of_def new_turn_def empty_sessions_def)

text \<open>Creating a session, recording a turn and deleting a session keep the tables
  consistent: unique identifiers, every turn belongs to an existing session, and the message count of
  each session is the number of its turns. A recorded turn is the last one of its session, and the
  other sessions keep theirs.\<close>

theorem session_tables_wf:
  assumes ok: "sessions_ok d"
  shows "(create_session now (Some d) u title = (Some d', r) \<longrightarrow> sessions_ok d') \<and>
    (delete_session (Some d) u i = (Some d', r') \<longrightarrow> sessions_ok d') \<and>
    (save_history now d i td = Some (d', m) \<longrightarrow> sessions_ok d' \<and> i \<in> cs_id ` set (sd_sessions d) \<and>
       (\<exists>t. turns_of d' i = turns_of d i @ [t] \<and> ct_id t = m \<and> ct_question t = td_question td \<and> ct_answer t = td_answer td) \<and>
       (\<forall>j. j \<noteq> i \<longrightarrow> turns_of d' j = turns_of d j))"
proof (intro conjI impI)
  assume "create_session now (Some d) u title = (Some d', r)"
  then show "sessions_ok d'" by (rule create_session_ok [OF ok])
next
  assume "delete_session (Some d) u i = (Some d', r')"
  then show "sessions_ok d'" by (rule delete_session_ok [OF ok])
next
  assume run: "save_history now d i td = Some (d', m)"
  then show "sessions_ok d'" by (rule save_history_ok [OF ok])
  from run obtain s where s: "session_of d i = Some s" and m: "m = sd_next_turn d"
    and d': "sd_turns d' = sd_turns d @ [new_turn now d i td]"
    by (auto simp: save_history_def split: option.splits)
  show "i \<in> cs_id ` set (sd_sessions d)" using session_of_Some [OF s] by auto
  show "\<exists>t. turns_of d' i = turns_of d i @ [t] \<and> ct_id t = m \<and> ct_question t = td_question td \<and> ct_answer t = td_answer td"
    by (simp add: turns_of_def d' m) (simp add: new_turn_def)
  show "\<forall>j. j \<noteq> i \<longrightarrow> turns_of d' j = turns_of d j" by (simp add: turns_of_def d')
qed

theorem session_tables_wf_witness:
  "\<exists>d' m. save_history 9 demo_sessions 1 (demo_turn (asc ''more'')) = Some (d', m) \<and> sessions_ok d' \<and> length (turns_of d' 1) = 2"
proof -
  obtain d' m where run: "save_history 9 demo_sessions 1 (demo_turn (asc ''more'')) = Some (d', m)"
    by (simp add: save_history_def session_of_def demo_sessions_def del: asc_Cons)
  have "length (turns_of demo_sessions 1) = 1" by (simp add: turns_of_def demo_sessions_def)
  moreover have "sessions_ok d' \<and> (\<exists>t. turns_of d' 1 = turns_of demo_sessions 1 @ [t])"
    using session_tables_wf [OF demo_sessions_ok, where d' = d' and now = 9 and i = 1
        and td = "demo_turn (asc ''more'')" and m = m] run by blast
  ultimately have "sessions_ok d'" "length (turns_of d' 1) = 2" by auto
  with run show ?thesis by blast
qed

text \<open>Who sees a session. A logged-in user gets it exactly when it is theirs, has
  no owner, or they are an administrator; a caller without a token gets every session, whoever owns
  it, although the comment at the check says that only the creator or an administrator may look.\<close>

theorem session_access_exact:
  "(\<exists>h. get_session tie (Some d) u i = Inr h) \<longleftrightarrow>
     (\<exists>s. session_of d i = Some s \<and>
        (u = None \<or> cs_user s = None \<or> cs_user s = Some 0 \<or> cs_user s = Some (u_id (the u)) \<or> u_role (the u) = Role_admin))"
  by (auto simp: get_session_def may_read_def split: option.splits)

lemma session_of_filter: "j \<noteq> i \<Longrightarrow> find (\<lambda>s. cs_id s = j) (filter (\<lambda>s. cs_id s \<noteq> i) ss) = find (\<lambda>s. cs_id s = j) ss"
  by (induction ss) auto

text \<open>Deletion has no ownership check at all: any caller, with or without a
  token, removes any existing session with its whole history (and nothing else).\<close>

theorem delete_session_unprotected:
  assumes s: "session_of d i = Some s"
  shows "\<exists>d'. delete_session (Some d) u i = (Some d', Inr ()) \<and> session_of d' i = None \<and> turns_of d' i = [] \<and>
    (\<forall>j. j \<noteq> i \<longrightarrow> session_of d' j = session_of d j \<and> turns_of d' j = turns_of d j)"
proof -
  have "filter (\<lambda>t. ct_session t = j) (filter (\<lambda>t. ct_session t \<noteq> i) (sd_turns d)) =
      (if j = i then [] else turns_of d j)" for j
    by (auto simp: turns_of_def filter_empty_conv intro: filter_cong)
  moreover have "find (\<lambda>s. cs_id s = i) (filter (\<lambda>s. cs_id s \<noteq> i) (sd_sessions d)) = None"
    by (simp add: find_None_iff)
  ultimately show ?thesis using s
    by (simp add: delete_session_def session_of_def turns_of_def session_of_filter)
qed

theorem delete_session_unprotected_witness:
  "\<exists>d'. delete_session (Some demo_sessions) None 1 = (Some d', Inr ()) \<and> turns_of d' 1 = []"
proof -
  have "session_of demo_sessions 1 = Some (hd (sd_sessions demo_sessions))"
    by (simp add: session_of_def demo_sessions_def)
  from delete_session_unprotected [OF this, of None] show ?thesis by blast
qed

text \<open>The context of a follow-up question is made of the last turns of the
  session, at most \<open>limit\<close> of them, in the order in which they were recorded, each with its question
  and answer cut to 300 and 600 characters.\<close>

theorem history_context_recent:
  assumes times: "sorted_wrt (\<lambda>a b. ct_created a < ct_created b) (turns_of db i)"
  shows "format_history_context tie db i limit =
    py_join [10, 10] (map history_line (drop (length (turns_of db i) - limit) (turns_of db i)))"
proof -
  let ?ts = "turns_of db i"
  have inj: "inj_on (\<lambda>t. - ct_created t) (set xs)" if "sorted_wrt (\<lambda>a b. ct_created a < ct_created b) xs" for xs
    using that by (induction xs) force+
  have "sorted (map (\<lambda>t. - ct_created t) (rev ?ts))"
    unfolding rev_map sorted_wrt_rev sorted_wrt_map
    by (rule sorted_wrt_mono_rel [OF _ times]) simp
  then have "sort_key (\<lambda>t. - ct_created t) (sort_key tie ?ts) = rev ?ts"
    by (intro sort_key_inj_key_eq) (simp_all add: inj [OF times])
  then show ?thesis by (simp add: format_history_context_def take_rev)
qed

theorem history_context_recent_witness:
  "format_history_context (\<lambda>_. 0) demo_sessions 1 8 = history_line (new_turn 3 empty_sessions 1 (demo_turn (asc ''hi'')))"
proof -
  have "turns_of demo_sessions 1 = [new_turn 3 empty_sessions 1 (demo_turn (asc ''hi''))]"
    by (simp add: turns_of_def demo_sessions_def del: asc_Cons)
  with history_context_recent [of demo_sessions 1 "\<lambda>_. 0" 8] show ?thesis by (simp del: asc_Cons)
qed

end
