(* ===== verification/Chat.thy ===== *)
theory Chat
  imports Memory_Store Sessions Cache
begin

text \<open>
  A chat turn: \<open>run_chat\<close> of \<open>backend/services/chat_service.py\<close> and the two routes \<open>/chat\<close> and
  \<open>/chat/stream\<close> of \<open>backend/api/v1/chat.py\<close>, which put the graph, the answer cache, the history and
  the memories together. The state is the Redis server and, when a database is configured, its
  tables. A turn has three clock values: the start, the end of the graph run and the measured
  duration. Of the exceptions of the database one is modelled, the history of a session that does not
  exist (\<open>record_turn\<close>); those of the drivers, such as a lost connection, are not.
\<close>

section \<open>State and response\<close>

record tables =
  tb_sessions :: session_db
  tb_memories :: memory_db

record 'r world =
  w_redis :: 'r
  w_tables :: "tables option"

record chat_env =
  che_graph :: graph_env
  che_cache :: cache_env
  che_model :: pystr
  che_chunks :: "node \<Rightarrow> nat \<Rightarrow> graph_state \<Rightarrow> pystr list"
  che_turn_tie :: "chat_turn \<Rightarrow> int"
  che_memory_tie :: tie

record clock =
  ck_start :: int
  ck_end :: int
  ck_ms :: int

record response =
  rs_answer :: pystr
  rs_trace :: "pystr list"
  rs_fallback :: bool
  rs_sources :: "json list"
  rs_reasoning :: "pystr list"
  rs_cached :: bool
  rs_ms :: int

definition response_json :: "response \<Rightarrow> json" where
  "response_json r = JObj
     [((asc ''answer''), JStr (rs_answer r)), ((asc ''agent_trace''), JArr (map JStr (rs_trace r))),
      ((asc ''trigger_web_fallback''), JBool (rs_fallback r)), ((asc ''sources''), JArr (rs_sources r)),
      ((asc ''reasoning_summary''), JArr (map JStr (rs_reasoning r))), ((asc ''cached''), JBool (rs_cached r)),
      ((asc ''duration_ms''), JInt (rs_ms r))]"

definition response_of :: "int \<Rightarrow> graph_state \<Rightarrow> response" where
  "response_of ms st = \<lparr>rs_answer = gs_generation st, rs_trace = gs_steps st, rs_fallback = gs_web_fallback st,
     rs_sources = gs_sources st, rs_reasoning = gs_reasoning st, rs_cached = False, rs_ms = ms\<rparr>"

definition failure_response :: "exn \<Rightarrow> response" where
  "failure_response e = \<lparr>rs_answer = [0x540e, 0x7aef, 0x5904, 0x7406, 0x5931, 0x8d25,
      0xff1a] @ exn_str e,
     rs_trace = [([0x540e, 0x7aef, 0x5f02, 0x5e38, 0xff0c, 0x8bf7, 0x68c0, 0x67e5] @
         asc '' API Key'' @ [0x3001, 0x4f59, 0x989d, 0x6216, 0x7f51, 0x7edc, 0x4ee3, 0x7406,
         0x3002])], rs_fallback = False, rs_sources = [],
     rs_reasoning = [], rs_cached = False, rs_ms = 0\<rparr>"

text \<open>\<open>cached[...] = ...\<close> on what \<open>json.loads\<close> gave; on a value that is no object it raises.\<close>

fun set_items :: "(pystr \<times> json) list \<Rightarrow> json \<Rightarrow> json result" where
  "set_items kvs (JObj d) = Inr (JObj (fold (\<lambda>(k, v). dict_put k v) kvs d))"
| "set_items kvs _ = Inl (OtherError (asc ''object does not support item assignment''))"

fun route_value :: "route \<Rightarrow> pystr" where
  "route_value Auto = (asc ''auto'')"
| "route_value Local = (asc ''local'')"
| "route_value Web = (asc ''web'')"
| "route_value Model = (asc ''model'')"

definition turn_of :: "pystr \<Rightarrow> graph_state \<Rightarrow> response \<Rightarrow> turn_data" where
  "turn_of question st r = \<lparr>td_question = question, td_answer = rs_answer r, td_route = route_value (gs_route st),
     td_sources = rs_sources r, td_trace = rs_trace r, td_duration = rs_ms r, td_fallback = rs_fallback r\<rparr>"

section \<open>Steps of a turn\<close>

definition personal :: "'r world \<Rightarrow> int option \<Rightarrow> bool" where
  "personal w session_id \<longleftrightarrow> w_tables w \<noteq> None \<and> session_id \<noteq> None"

definition cache_lookup :: "chat_env \<Rightarrow> 'r redis option \<Rightarrow> int \<Rightarrow> pystr \<Rightarrow> int option \<Rightarrow> 'r world \<Rightarrow> json option" where
  "cache_lookup env rd now question session_id w =
     (case rd of
        None \<Rightarrow> None
      | Some ops \<Rightarrow>
          if personal w session_id then None
          else (case get_cached_answer (che_cache env) ops now question (w_redis w) of
                  None \<Rightarrow> None
                | Some j \<Rightarrow> if truthy j then Some j else None))"

text \<open>The history and the memories that go into the prompt; quoting memories counts their use.\<close>

definition chat_context ::
  "chat_env \<Rightarrow> int \<Rightarrow> bool \<Rightarrow> int option \<Rightarrow> user option \<Rightarrow> 'r world \<Rightarrow> 'r world \<times> pystr \<times> pystr" where
  "chat_context env now with_history session_id current_user w =
     (case w_tables w of
        None \<Rightarrow> (w, [], [])
      | Some tb \<Rightarrow>
          let history = (case session_id of
                Some i \<Rightarrow> if with_history then format_history_context (che_turn_tie env) (tb_sessions tb) i 8 else []
              | None \<Rightarrow> [])
          in (case format_memory_context (che_memory_tie env) now (Some (tb_memories tb)) (map_option u_id current_user) 12 of
                (Some m, memory) \<Rightarrow> (w\<lparr>w_tables := Some (tb\<lparr>tb_memories := m\<rparr>)\<rparr>, history, memory)
              | (None, memory) \<Rightarrow> (w, history, memory)))"

definition cache_store :: "chat_env \<Rightarrow> 'r redis option \<Rightarrow> int \<Rightarrow> pystr \<Rightarrow> int option \<Rightarrow> response \<Rightarrow> 'r world \<Rightarrow> 'r world" where
  "cache_store env rd now question session_id r w =
     (case rd of
        None \<Rightarrow> w
      | Some ops \<Rightarrow>
          if rs_answer r \<noteq> [] \<and> \<not> personal w session_id
          then w\<lparr>w_redis := set_cached_answer (che_cache env) ops now question (response_json r) (w_redis w)\<rparr>
          else w)"

text \<open>The turn in the history, when there is a session, and the identifier of its row.\<close>

definition turn_history :: "int \<Rightarrow> session_db \<Rightarrow> int option \<Rightarrow> turn_data \<Rightarrow> (session_db \<times> int option) option" where
  "turn_history now db session_id td =
     (case session_id of
        None \<Rightarrow> Some (db, None)
      | Some i \<Rightarrow> map_option (\<lambda>(db', m). (db', Some m)) (save_history now db i td))"

text \<open>
  After a failed flush the transaction is rolled back and every further use of the database session
  raises until the session itself is rolled back. The text goes on with the original exception.
\<close>

definition pending_rollback :: exn where
  "pending_rollback = OtherError (asc ''This Session'' @ [39] @ asc ''s transaction has been rolled back due to a previous exception during flush.'')"

text \<open>
  The history and the memories of a turn. When the history cannot be saved, everything the request has
  written so far is lost: the tables are again as the request found them (\<open>found\<close>). The memories are still
  extracted, and the first one that would be stored raises. Without any, the turn ends normally; the
  \<open>commit\<close> at the end of the request fails after the response has been sent (FastAPI from 0.118 on leaves
  the dependencies with \<open>yield\<close> then), so no client sees that.
\<close>

definition record_turn ::
  "chat_env \<Rightarrow> int \<Rightarrow> nat \<Rightarrow> pystr \<Rightarrow> int option \<Rightarrow> user option \<Rightarrow> graph_state \<Rightarrow> response \<Rightarrow> tables option \<Rightarrow>
   'r world \<Rightarrow> 'r world \<times> unit result" where
  "record_turn env now n question session_id current_user st r found w =
     (case w_tables w of
        None \<Rightarrow> (w, Inr ())
      | Some tb \<Rightarrow>
          (case turn_history now (tb_sessions tb) session_id (turn_of question st r) of
             Some (sdb, message_id) \<Rightarrow>
               (case maybe_store_memories_from_turn (che_graph env) (ce_loads (che_cache env)) (che_memory_tie env)
                       now n (tb_memories tb) (map_option u_id current_user) question session_id message_id of
                  (n', mdb) \<Rightarrow> (w\<lparr>w_tables := Some (tb\<lparr>tb_sessions := sdb, tb_memories := mdb\<rparr>)\<rparr>, Inr ()))
           | None \<Rightarrow>
               (case extract_memory_candidates (che_graph env) (ce_loads (che_cache env)) n question of
                  (n', cs) \<Rightarrow> (w\<lparr>w_tables := found\<rparr>, if list_ex storable cs then Inl pending_rollback else Inr ()))))"

section \<open>The chat service and its route\<close>

definition run_chat ::
  "chat_env \<Rightarrow> 'r redis option \<Rightarrow> clock \<Rightarrow> pystr \<Rightarrow> int option \<Rightarrow> user option \<Rightarrow> 'r world \<Rightarrow> 'r world \<times> json result" where
  "run_chat env rd ck question session_id current_user w =
     (case cache_lookup env rd (ck_start ck) question session_id w of
        Some cached \<Rightarrow> (w, set_items [((asc ''cached''), JBool True), ((asc ''duration_ms''), JInt 0)] cached)
      | None \<Rightarrow>
          (case chat_context env (ck_start ck) (session_id \<noteq> Some 0) session_id current_user w of
             (w1, history, memory) \<Rightarrow>
               (case crag_invoke (che_graph env) question history memory of
                  (n, Inl e) \<Rightarrow> (w1, Inr (response_json (failure_response e)))
                | (n, Inr st) \<Rightarrow>
                    let r = response_of (ck_ms ck) st;
                        w2 = cache_store env rd (ck_end ck) question session_id r w1
                    in (case record_turn env (ck_end ck) n question session_id current_user st r (w_tables w) w2 of
                          (w3, recorded) \<Rightarrow> (w3, rbind recorded (\<lambda>_. Inr (response_json r)))))))"

definition too_many_requests :: exn where
  "too_many_requests = AppError (asc ''RATE_LIMITED'') [0x8bf7, 0x6c42, 0x8fc7, 0x4e8e, 0x9891,
      0x7e41, 0xff0c, 0x8bf7, 0x7a0d, 0x540e, 0x518d, 0x8bd5] 429"

text \<open>
  \<open>ChatResponse(**result)\<close>: the fields and their types, with the defaults of the schema. A value of
  another type is refused; the coercions of pydantic's lax mode (a number given as text, and so on)
  are not modelled.
\<close>

definition invalid_field :: exn where
  "invalid_field = ValueError (asc ''validation error for ChatResponse'')"

fun as_text :: "json \<Rightarrow> pystr result" where
  "as_text (JStr s) = Inr s"
| "as_text _ = Inl invalid_field"

fun as_flag :: "json \<Rightarrow> bool result" where
  "as_flag (JBool b) = Inr b"
| "as_flag _ = Inl invalid_field"

fun as_number :: "json \<Rightarrow> int result" where
  "as_number (JInt i) = Inr i"
| "as_number _ = Inl invalid_field"

fun as_object :: "json \<Rightarrow> json result" where
  "as_object (JObj d) = Inr (JObj d)"
| "as_object _ = Inl invalid_field"

fun as_list :: "(json \<Rightarrow> 'a result) \<Rightarrow> json \<Rightarrow> 'a list result" where
  "as_list f (JArr xs) = mapr f xs"
| "as_list f _ = Inl invalid_field"

definition field :: "(pystr \<times> json) list \<Rightarrow> pystr \<Rightarrow> 'a option \<Rightarrow> (json \<Rightarrow> 'a result) \<Rightarrow> 'a result" where
  "field d k dflt f = (case map_of d k of
       Some v \<Rightarrow> f v
     | None \<Rightarrow> (case dflt of None \<Rightarrow> Inl invalid_field | Some x \<Rightarrow> Inr x))"

fun chat_response :: "json \<Rightarrow> response result" where
  "chat_response (JObj d) =
     rbind (field d (asc ''answer'') None as_text) (\<lambda>answer.
     rbind (field d (asc ''agent_trace'') None (as_list as_text)) (\<lambda>trace.
     rbind (field d (asc ''trigger_web_fallback'') None as_flag) (\<lambda>fallback.
     rbind (field d (asc ''sources'') (Some []) (as_list as_object)) (\<lambda>sources.
     rbind (field d (asc ''reasoning_summary'') (Some []) (as_list as_text)) (\<lambda>reasoning.
     rbind (field d (asc ''cached'') (Some False) as_flag) (\<lambda>cached.
     rbind (field d (asc ''duration_ms'') (Some 0) as_number) (\<lambda>ms.
       Inr \<lparr>rs_answer = answer, rs_trace = trace, rs_fallback = fallback, rs_sources = sources,
            rs_reasoning = reasoning, rs_cached = cached, rs_ms = ms\<rparr>)))))))"
| "chat_response _ = Inl (OtherError (asc ''argument after ** must be a mapping''))"

text \<open>The route counts the request of the client first.\<close>

definition count_request :: "chat_env \<Rightarrow> 'r redis option \<Rightarrow> int \<Rightarrow> pystr option \<Rightarrow> 'r world \<Rightarrow> 'r world \<times> bool" where
  "count_request env rd now client_host w =
     (case rd of
        None \<Rightarrow> (w, True)
      | Some ops \<Rightarrow>
          let client_ip = (case client_host of None \<Rightarrow> (asc ''unknown'') | Some h \<Rightarrow> h);
              (s, ok) = check_rate_limit (che_cache env) ops now client_ip (w_redis w)
          in (w\<lparr>w_redis := s\<rparr>, ok))"

definition chat_route ::
  "chat_env \<Rightarrow> 'r redis option \<Rightarrow> clock \<Rightarrow> pystr option \<Rightarrow> pystr \<Rightarrow> int option \<Rightarrow> user option \<Rightarrow> 'r world \<Rightarrow>
   'r world \<times> response result" where
  "chat_route env rd ck client_host question session_id current_user w =
     (let (w1, ok) = count_request env rd (ck_start ck) client_host w
      in if \<not> ok then (w1, Inl too_many_requests)
         else case run_chat env rd ck question session_id current_user w1 of
             (w2, res) \<Rightarrow> (w2, rbind res chat_response))"

section \<open>The stream\<close>

text \<open>The updates of a graph run: every node that finished, with the state it left.\<close>

function crag_trace ::
  "graph_env \<Rightarrow> node \<Rightarrow> nat \<Rightarrow> graph_state \<Rightarrow> (node \<times> nat \<times> graph_state) list \<times> nat \<times> graph_state result" where
  "crag_trace env v n st =
     (if v = End then ([], n, Inr st)
      else case run_node env v n st of
          (n', Inl e) \<Rightarrow> ([], n', Inl e)
        | (n', Inr st') \<Rightarrow>
            (case crag_trace env (next_node v st') n' st' of (tr, r) \<Rightarrow> ((v, n, st') # tr, r)))"
  by pat_completeness auto
termination
  by (relation "measure (\<lambda>(env, v, n, st). node_rank v)") (auto intro: next_node_rank)

declare crag_trace.simps [simp del]

datatype sse = Sse pystr json

fun node_name :: "node \<Rightarrow> pystr" where
  "node_name Route_question = (asc ''route_question'')"
| "node_name Retrieve = (asc ''retrieve'')"
| "node_name Grade_documents = (asc ''grade_documents'')"
| "node_name Web_search = (asc ''web_search'')"
| "node_name Direct_answer = (asc ''direct_answer'')"
| "node_name Generate = (asc ''generate'')"
| "node_name End = (asc ''__end__'')"

definition final_node :: "node \<Rightarrow> bool" where
  "final_node v \<longleftrightarrow> v = Generate \<or> v = Direct_answer"

text \<open>The steps not sent before, with the set of those sent.\<close>

fun new_steps :: "pystr list \<Rightarrow> pystr list \<Rightarrow> pystr list \<times> pystr list" where
  "new_steps seen [] = (seen, [])"
| "new_steps seen (s # ss) =
     (if s \<in> set seen then new_steps seen ss
      else case new_steps (s # seen) ss of (seen', out) \<Rightarrow> (seen', s # out))"

text \<open>The model's chunks of a node come before its update; only those of an answering node are passed on. What a node
  streams before it raises, and the chunks of a model call that is attempted again, are not modelled.\<close>

fun update_events :: "chat_env \<Rightarrow> pystr list \<Rightarrow> (node \<times> nat \<times> graph_state) list \<Rightarrow> sse list" where
  "update_events env seen [] = []"
| "update_events env seen ((v, n, st) # tr) =
     (case new_steps seen (gs_steps st) of (seen', fresh) \<Rightarrow>
        (if final_node v then
           map (\<lambda>t. Sse (asc ''token'') (JObj [((asc ''text''), JStr t)])) (filter (\<lambda>t. t \<noteq> []) (che_chunks env v n st))
         else []) @
        [Sse (asc ''node'') (JObj [((asc ''node''), JStr (node_name v))])] @
        map (\<lambda>s. Sse (asc ''step'') (JObj [((asc ''text''), JStr s)])) fresh @
        update_events env seen' tr)"

fun final_state :: "(node \<times> nat \<times> graph_state) list \<Rightarrow> graph_state option" where
  "final_state [] = None"
| "final_state ((v, n, st) # tr) =
     (case final_state tr of Some s \<Rightarrow> Some s | None \<Rightarrow> if final_node v then Some st else None)"

definition meta_event :: "chat_env \<Rightarrow> sse" where
  "meta_event env = Sse (asc ''meta'') (JObj [((asc ''model''), JStr (che_model env)),
     ((asc ''tavily_enabled''), JBool (has_valid_tavily_key (ge_tavily_key (che_graph env))))])"

definition chat_stream ::
  "chat_env \<Rightarrow> 'r redis option \<Rightarrow> clock \<Rightarrow> pystr \<Rightarrow> int option \<Rightarrow> user option \<Rightarrow> 'r world \<Rightarrow> 'r world \<times> sse list" where
  "chat_stream env rd ck question session_id current_user w =
     (case cache_lookup env rd (ck_start ck) question session_id w of
          Some cached \<Rightarrow>
            (case set_items [((asc ''cached''), JBool True)] cached of
               Inr j \<Rightarrow> (w, [meta_event env, Sse (asc ''final'') j])
             | Inl e \<Rightarrow> (w, [meta_event env]))
        | None \<Rightarrow>
            (case chat_context env (ck_start ck) True session_id current_user w of
               (w1, history, memory) \<Rightarrow>
                 (case crag_trace (che_graph env) Route_question 0 (initial_state question history memory) of
                    (tr, n, res) \<Rightarrow>
                      let events = meta_event env # update_events env [] tr;
                          failed = (\<lambda>e. (w1, events @ [Sse (asc ''error'') (JObj [((asc ''message''), JStr (exn_str e))])]));
                          finish = (\<lambda>n st.
                            let r = response_of (ck_ms ck) st;
                                final = events @ [Sse (asc ''final'') (response_json r)]
                            in (case record_turn env (ck_end ck) n question session_id current_user st r (w_tables w) w1 of
                                  (w2, Inl e) \<Rightarrow> (w2, final @ [Sse (asc ''error'') (JObj [((asc ''message''), JStr (exn_str e))])])
                                | (w2, Inr _) \<Rightarrow>
                                    let w3 = cache_store env rd (ck_end ck) question session_id r w2 in (w3, final)))
                      in (case res of
                            Inl e \<Rightarrow> failed e
                          | Inr _ \<Rightarrow>
                              (case final_state tr of
                                 Some st \<Rightarrow> finish n st
                               | None \<Rightarrow>
                                   (case crag_invoke (che_graph env) question history memory of
                                      (n', Inl e) \<Rightarrow> failed e
                                    | (n', Inr st) \<Rightarrow> finish n' st))))))"

section \<open>Facts about the stream\<close>

lemma crag_trace_run: "snd (crag_trace env v n st) = crag_run env v n st"
proof (induction env v n st rule: crag_trace.induct)
  case (1 env v n st)
  then show ?case
    by (subst crag_trace.simps, subst crag_run.simps)
       (auto split: prod.splits sum.splits)
qed

lemma final_node_next: "v \<noteq> End \<Longrightarrow> final_node v \<longleftrightarrow> next_node v st = End"
  by (cases v) (auto simp: final_node_def decide_after_route_def decide_to_generate_def)

lemma final_state_run:
  "crag_trace env v n st = (tr, n', Inr st') \<Longrightarrow> v \<noteq> End \<Longrightarrow> final_state tr = Some st'"
proof (induction env v n st arbitrary: tr rule: crag_trace.induct)
  case (1 env v n st)
  obtain m s where node: "run_node env v n st = (m, Inr s)"
    using "1.prems" by (auto simp: crag_trace.simps [of env v n st] split: prod.splits sum.splits)
  obtain tr' where rest: "crag_trace env (next_node v s) m s = (tr', n', Inr st')" and tr: "tr = (v, n, s) # tr'"
    using "1.prems" node by (auto simp: crag_trace.simps [of env v n st] split: prod.splits)
  show ?case
  proof (cases "next_node v s = End")
    case True
    then have "tr' = []" "st' = s" using rest by (simp_all add: crag_trace.simps [of env End])
    then show ?thesis using True final_node_next [OF "1.prems"(2)] tr by simp
  next
    case False
    then have "final_state tr' = Some st'" using "1.IH" [OF "1.prems"(2) node [symmetric] refl rest] by simp
    then show ?thesis using tr by simp
  qed
qed

lemma new_steps_spec:
  "new_steps seen ss = (seen', out) \<Longrightarrow>
   set seen' = set seen \<union> set ss \<and> set out = set ss - set seen \<and> distinct out"
proof (induction seen ss arbitrary: seen' out rule: new_steps.induct)
  case (2 seen s ss)
  show ?case
  proof (cases "s \<in> set seen")
    case True
    then show ?thesis using "2.IH"(1) [OF True] "2.prems" by auto
  next
    case False
    obtain s1 o1 where r: "new_steps (s # seen) ss = (s1, o1)" by (cases "new_steps (s # seen) ss")
    then have "seen' = s1" "out = s # o1" using "2.prems" False by simp_all
    then show ?thesis using "2.IH"(2) [OF False r] False by auto
  qed
qed simp

fun step_text :: "sse \<Rightarrow> pystr option" where
  "step_text (Sse ev j) = (case j of JObj [(k, JStr t)] \<Rightarrow> if ev = (asc ''step'') then Some t else None | _ \<Rightarrow> None)"

definition step_texts :: "sse list \<Rightarrow> pystr list" where
  "step_texts evs = List.map_filter step_text evs"

lemma step_texts_simps [simp]:
  "step_texts [] = []" "step_texts (es @ fs) = step_texts es @ step_texts fs"
  "step_texts (e # es) = (case step_text e of None \<Rightarrow> [] | Some t \<Rightarrow> [t]) @ step_texts es"
  by (simp_all add: step_texts_def map_filter_def split: option.split)

lemma step_texts_map:
  "step_texts (map (\<lambda>s. Sse (asc ''step'') (JObj [((asc ''text''), JStr s)])) ss) = ss"
  "step_texts (map (\<lambda>s. Sse (asc ''token'') (JObj [((asc ''text''), JStr s)])) ts) = []"
  "step_text (Sse (asc ''node'') j) = None" "step_text (Sse (asc ''final'') j) = None"
  "step_text (Sse (asc ''error'') j) = None" "step_text (Sse (asc ''meta'') j) = None"
  by (induction ss; simp) (induction ts; simp split: json.splits list.splits prod.splits)+

declare step_text.simps [simp del]

lemma update_events_steps:
  "distinct (step_texts (update_events env seen tr)) \<and>
   set (step_texts (update_events env seen tr)) = (\<Union>(v, n, st)\<in>set tr. set (gs_steps st)) - set seen"
proof (induction env seen tr rule: update_events.induct)
  case (2 env seen v n st tr)
  obtain seen' fresh where ns: "new_steps seen (gs_steps st) = (seen', fresh)" by (cases "new_steps seen (gs_steps st)")
  note spec = new_steps_spec [OF ns] and IH = "2.IH" [OF ns [symmetric]]
  have "step_texts (update_events env seen ((v, n, st) # tr)) = fresh @ step_texts (update_events env seen' tr)"
    by (simp add: ns step_texts_map del: asc_Cons)
  then show ?case using spec IH by auto
qed simp

lemma final_state_in: "final_state tr = Some st \<Longrightarrow> \<exists>v n. (v, n, st) \<in> set tr"
  by (induction tr rule: final_state.induct) (auto split: option.splits if_splits)

section \<open>Streaming and plain chat agree\<close>

text \<open>A question sent to a session that does not exist.\<close>

definition session_missing :: "int option \<Rightarrow> 'r world \<Rightarrow> bool" where
  "session_missing sid w \<longleftrightarrow> (\<exists>i tb. sid = Some i \<and> w_tables w = Some tb \<and> session_of (tb_sessions tb) i = None)"

lemma turn_history_None: "turn_history t d sid td = None \<longleftrightarrow> (\<exists>i. sid = Some i \<and> session_of d i = None)"
  by (auto simp: turn_history_def save_history_def split: option.splits)

lemma turn_history_Some:
  assumes "w_tables w = Some tb" "\<not> session_missing sid w"
  obtains sdb mid where "turn_history t (tb_sessions tb) sid td = Some (sdb, mid)"
proof (cases "turn_history t (tb_sessions tb) sid td")
  case None
  then obtain i where "sid = Some i" "session_of (tb_sessions tb) i = None" using turn_history_None by blast
  then show ?thesis using assms by (simp add: session_missing_def)
qed auto

lemma chat_context_sessions:
  "chat_context env t wh sid u w = (w1, h, m) \<Longrightarrow>
   map_option tb_sessions (w_tables w1) = map_option tb_sessions (w_tables w) \<and> w_redis w1 = w_redis w"
  by (auto simp: chat_context_def Let_def split: option.splits prod.splits)

lemma session_missing_context: "chat_context env t wh sid u w = (w1, h, m) \<Longrightarrow> session_missing sid w1 \<longleftrightarrow> session_missing sid w"
  using chat_context_sessions [of env t wh sid u w w1 h m]
  by (cases "w_tables w"; cases "w_tables w1") (auto simp: session_missing_def)

lemma record_turn_cases:
  assumes "record_turn env t n q sid u st r found w = (w', res)"
  obtains (recorded) "\<not> session_missing sid w" "res = Inr ()"
  | (rolled_back) "session_missing sid w" "w' = w\<lparr>w_tables := found\<rparr>" "res = Inr () \<or> res = Inl pending_rollback"
proof (cases "session_missing sid w")
  case True
  then obtain i tb where tb: "sid = Some i" "w_tables w = Some tb" "session_of (tb_sessions tb) i = None"
    by (auto simp: session_missing_def)
  then have lost: "turn_history t (tb_sessions tb) sid (turn_of q st r) = None" by (simp add: turn_history_None)
  obtain n' cs where "extract_memory_candidates (che_graph env) (ce_loads (che_cache env)) n q = (n', cs)" by (rule prod.exhaust)
  then have "w' = w\<lparr>w_tables := found\<rparr> \<and> res = (if list_ex storable cs then Inl pending_rollback else Inr ())"
    using assms tb(2) lost by (simp add: record_turn_def)
  then show thesis using rolled_back [OF True] by (cases "list_ex storable cs") simp_all
next
  case False
  have "res = Inr ()"
  proof (cases "w_tables w")
    case (Some tb)
    obtain sdb mid where "turn_history t (tb_sessions tb) sid (turn_of q st r) = Some (sdb, mid)"
      by (rule turn_history_Some [OF Some False])
    then show ?thesis using assms Some by (auto simp: record_turn_def split: prod.splits)
  qed (use assms in \<open>simp add: record_turn_def\<close>)
  then show thesis by (rule recorded [OF False])
qed

lemma cache_store_tables: "w_tables (cache_store env rd t q sid r w) = w_tables w"
  by (auto simp: cache_store_def split: option.splits)

lemma cache_store_personal: "personal w sid \<Longrightarrow> cache_store env rd t q sid r w = w"
  by (auto simp: cache_store_def split: option.splits)

lemma session_missing_personal: "session_missing sid w \<Longrightarrow> personal w sid"
  by (auto simp: session_missing_def personal_def)

lemma cache_record_commute:
  assumes "record_turn env t n q sid u st r found w = (w1, res)" "\<not> session_missing sid w"
  shows "record_turn env t n q sid u st r found (cache_store env rd t' q sid r w) = (cache_store env rd t' q sid r w1, res)"
proof (cases "w_tables w")
  case (Some tb)
  obtain sdb mid where "turn_history t (tb_sessions tb) sid (turn_of q st r) = Some (sdb, mid)"
    by (rule turn_history_Some [OF Some assms(2)])
  then show ?thesis using assms(1) Some
    by (cases rd) (auto simp: record_turn_def cache_store_def personal_def split: prod.splits)
next
  case None
  then show ?thesis using assms(1) by (cases rd) (auto simp: record_turn_def cache_store_def personal_def)
qed

abbreviation error_event :: "exn \<Rightarrow> sse" where
  "error_event e \<equiv> Sse (asc ''error'') (JObj [((asc ''message''), JStr (exn_str e))])"

abbreviation final_event :: "response \<Rightarrow> sse" where
  "final_event r \<equiv> Sse (asc ''final'') (response_json r)"

text \<open>The stream and the plain run of one question, in lockstep.\<close>

lemma stream_run:
  assumes sid: "session_id \<noteq> Some 0"
    and miss: "cache_lookup env rd (ck_start ck) question session_id w = None"
    and chat: "run_chat env rd ck question session_id user w = (w', res)"
    and stream: "chat_stream env rd ck question session_id user w = (w'', evs)"
  obtains (ended) tr st where "w'' = w'" "final_state tr = Some st" "res = Inr (response_json (response_of (ck_ms ck) st))"
      "evs = meta_event env # update_events env [] tr @ [final_event (response_of (ck_ms ck) st)]"
  | (raised) tr e where "w'' = w'" "res = Inr (response_json (failure_response e))"
      "evs = meta_event env # update_events env [] tr @ [error_event e]"
  | (lost) tr st where "w'' = w'" "w_tables w' = w_tables w" "session_missing session_id w" "res = Inl pending_rollback"
      "final_state tr = Some st"
      "evs = meta_event env # update_events env [] tr @ [final_event (response_of (ck_ms ck) st), error_event pending_rollback]"
proof -
  obtain w1 h m where ctx: "chat_context env (ck_start ck) True session_id user w = (w1, h, m)"
    by (cases "chat_context env (ck_start ck) True session_id user w")
  obtain tr n r0 where tr: "crag_trace (che_graph env) Route_question 0 (initial_state question h m) = (tr, n, r0)"
    by (cases "crag_trace (che_graph env) Route_question 0 (initial_state question h m)")
  have inv: "crag_invoke (che_graph env) question h m = (n, r0)"
    using crag_trace_run [of "che_graph env" Route_question 0 "initial_state question h m"]
    by (simp add: crag_invoke_def tr)
  show thesis
  proof (cases r0)
    case (Inl e)
    then have "w'' = w1" "w' = w1" "res = Inr (response_json (failure_response e))"
        and "evs = meta_event env # update_events env [] tr @ [error_event e]"
      using assms ctx tr inv by (simp_all add: run_chat_def chat_stream_def Let_def del: asc_Cons)
    then show thesis by (intro raised [of e tr]) simp_all
  next
    case (Inr st)
    have fin: "final_state tr = Some st" using final_state_run [OF tr [unfolded Inr]] by simp
    let ?r = "response_of (ck_ms ck) st"
    obtain w2 rec where run: "record_turn env (ck_end ck) n question session_id user st ?r (w_tables w) w1 = (w2, rec)"
      by (cases "record_turn env (ck_end ck) n question session_id user st ?r (w_tables w) w1")
    then show thesis
    proof (cases rule: record_turn_cases)
      case recorded
      have "w'' = w'" "res = Inr (response_json ?r)"
          and "evs = meta_event env # update_events env [] tr @ [final_event ?r]"
        using assms ctx tr inv fin Inr run recorded cache_record_commute [OF run recorded(1), of rd "ck_end ck"]
        by (simp_all add: run_chat_def chat_stream_def Let_def del: asc_Cons)
      then show thesis using fin by (intro ended [of tr st])
    next
      case rolled_back
      have pers: "cache_store env rd t question session_id ?r w1 = w1" "cache_store env rd t question session_id ?r w2 = w2" for t
        using session_missing_personal [OF rolled_back(1)] session_missing_context [OF ctx] rolled_back(1,2)
        by (auto simp: cache_store_personal personal_def session_missing_def)
      have w: "w'' = w'" "w_tables w' = w_tables w"
        using assms ctx tr inv fin Inr run pers rolled_back(2,3)
        by (auto simp: run_chat_def chat_stream_def Let_def simp del: asc_Cons)
      from rolled_back(3) show thesis
      proof
        assume "rec = Inr ()"
        then have "res = Inr (response_json ?r)" "evs = meta_event env # update_events env [] tr @ [final_event ?r]"
          using assms ctx tr inv fin Inr run pers by (simp_all add: run_chat_def chat_stream_def Let_def del: asc_Cons)
        then show thesis using fin w(1) by (intro ended [of tr st])
      next
        assume "rec = Inl pending_rollback"
        then have "res = Inl pending_rollback"
            "evs = meta_event env # update_events env [] tr @ [final_event ?r, error_event pending_rollback]"
          using assms ctx tr inv fin Inr run pers by (simp_all add: run_chat_def chat_stream_def Let_def del: asc_Cons)
        then show thesis using fin w session_missing_context [OF ctx] rolled_back(1) by (intro lost [of tr st]) simp_all
      qed
    qed
  qed
qed

text \<open>C5: on a question that is not in the cache, and whose session, if any, is not 0, the
  stream does what \<open>run_chat\<close> does, the service behind the plain route (which counts the request for the
  rate limit before; the stream is not limited). Both leave the same tables and the same server. The
  stream ends with the response in its last event; or, when the graph raises, with the message that the
  plain response reports; or, when the session does not exist and a memory was to be stored, with the
  response and then the error that the plain service raises, and nothing is kept. The step events are pairwise different
  and, when there is a response, cover the steps of its run.\<close>

theorem stream_matches_chat:
  assumes sid: "session_id \<noteq> Some 0"
    and miss: "cache_lookup env rd (ck_start ck) question session_id w = None"
    and chat: "run_chat env rd ck question session_id user w = (w', res)"
    and stream: "chat_stream env rd ck question session_id user w = (w'', evs)"
  shows "w'' = w' \<and> distinct (step_texts evs) \<and>
    ((\<exists>r. res = Inr (response_json r) \<and> last evs = final_event r \<and> set (rs_trace r) \<subseteq> set (step_texts evs)) \<or>
     (\<exists>e. res = Inr (response_json (failure_response e)) \<and> last evs = error_event e) \<or>
     (\<exists>r evs'. session_missing session_id w \<and> w_tables w' = w_tables w \<and> res = Inl pending_rollback \<and>
        evs = evs' @ [final_event r, error_event pending_rollback] \<and> set (rs_trace r) \<subseteq> set (step_texts evs)))"
proof -
  have ev: "distinct (step_texts (update_events env [] tr))"
      "set (step_texts (update_events env [] tr)) = (\<Union>(v, n, st)\<in>set tr. set (gs_steps st))" for tr
    using update_events_steps [of env "[]" tr] by auto
  have trace: "set (rs_trace (response_of (ck_ms ck) st)) \<subseteq> set (step_texts (update_events env [] tr))"
    if "final_state tr = Some st" for tr st
    using final_state_in [OF that] ev(2) by (fastforce simp: response_of_def)
  have meta: "step_text (meta_event env) = None" by (simp add: meta_event_def step_texts_map del: asc_Cons)
  have same: "step_texts (meta_event env # update_events env [] tr @ [final_event r]) = step_texts (update_events env [] tr)"
    "step_texts (meta_event env # update_events env [] tr @ [error_event e]) = step_texts (update_events env [] tr)"
    "step_texts (meta_event env # update_events env [] tr @ [final_event r, error_event e]) = step_texts (update_events env [] tr)"
    for tr r e
    by (simp_all only: meta step_texts_simps step_texts_map option.case append_Nil append_Nil2)
  from assms show ?thesis
  proof (cases rule: stream_run)
    case (raised tr e)
    then show ?thesis using ev(1) [of tr] same(2) [of tr e] by (simp del: asc_Cons) blast
  next
    case (ended tr st)
    have "last evs = final_event (response_of (ck_ms ck) st)" unfolding ended(4) by (simp del: asc_Cons)
    then show ?thesis using ended ev(1) [of tr] same(1) [of tr] trace [OF ended(2)] by metis
  next
    case (lost tr st)
    then have "evs = (meta_event env # update_events env [] tr) @ [final_event (response_of (ck_ms ck) st), error_event pending_rollback]"
      by (simp del: asc_Cons)
    moreover have "step_texts evs = step_texts (update_events env [] tr)" unfolding lost(6) by (rule same(3))
    ultimately show ?thesis using lost(1-4) ev(1) [of tr] trace [OF lost(5)] by metis
  qed
qed

section \<open>What a turn may change\<close>

declare memory_exec.simps [simp del]

lemma chat_context_tables:
  assumes "w_tables w = Some tb"
  obtains h m where "chat_context env t wh sid u w =
    (w\<lparr>w_tables := Some (tb\<lparr>tb_memories :=
        memory_exec (che_memory_tie env) (map_option u_id u) (t, Mem_recall 12) (tb_memories tb)\<rparr>)\<rparr>, h, m)"
  using assms that by (auto simp: chat_context_def format_memory_context_def Let_def memory_exec.simps)

lemma record_turn_tables:
  assumes "w_tables w = Some tb" "\<not> session_missing sid w"
  obtains cs mid sdb where "record_turn env t n q sid u st r found w =
    (w\<lparr>w_tables := Some (tb\<lparr>tb_sessions := sdb, tb_memories :=
        memory_exec (che_memory_tie env) (map_option u_id u) (t, Mem_turn cs sid mid) (tb_memories tb)\<rparr>)\<rparr>, Inr ())"
    "turn_history t (tb_sessions tb) sid (turn_of q st r) = Some (sdb, mid)"
proof -
  obtain sdb mid where h: "turn_history t (tb_sessions tb) sid (turn_of q st r) = Some (sdb, mid)"
    by (rule turn_history_Some [OF assms])
  obtain n' cs where c: "extract_memory_candidates (che_graph env) (ce_loads (che_cache env)) n q = (n', cs)"
    by (cases "extract_memory_candidates (che_graph env) (ce_loads (che_cache env)) n q")
  show thesis
    by (rule that [of cs mid sdb, OF _ h])
       (simp only: record_turn_def assms(1) option.case h prod.case maybe_store_memories_from_turn_def c memory_exec.simps)
qed

lemma record_turn_redis: "w_redis (fst (record_turn env t n q sid u st r found w)) = w_redis w"
  by (auto simp: record_turn_def split: option.splits prod.splits)

lemma chat_context_redis: "w_redis (fst (chat_context env t wh sid u w)) = w_redis w"
  by (auto simp: chat_context_def Let_def split: option.splits prod.splits)

lemma turn_history_turns:
  assumes "turn_history t d sid td = Some (d', m)"
  shows "turns_of d' j = turns_of d j @ (if sid = Some j then [new_turn t d j td] else [])" "sessions_ok d \<Longrightarrow> sessions_ok d'"
proof -
  show "turns_of d' j = turns_of d j @ (if sid = Some j then [new_turn t d j td] else [])"
    using assms by (auto simp: turn_history_def save_history_def turns_of_def split: option.splits)
  show "sessions_ok d \<Longrightarrow> sessions_ok d'"
    using assms save_history_ok by (cases sid) (auto simp: turn_history_def)
qed

text \<open>C12: a chat turn keeps the tables well formed, touches no other user's memories and
  no other session's history, and adds at most one turn - the question and the answer returned - to
  the session it was sent to; a turn sent to a session neither reads nor writes the answer cache.\<close>

theorem chat_turn_frame:
  assumes tb: "w_tables w = Some tb" and ok: "memory_ok (tb_memories tb)" "sessions_ok (tb_sessions tb)"
    and run: "run_chat env rd ck q sid u w = (w', res)"
  shows "\<exists>tb'. w_tables w' = Some tb' \<and> memory_ok (tb_memories tb') \<and> sessions_ok (tb_sessions tb') \<and>
    (\<forall>v. v \<noteq> map_option u_id u \<longrightarrow> view v (tb_memories tb') = view v (tb_memories tb)) \<and>
    (\<forall>j. sid \<noteq> Some j \<longrightarrow> turns_of (tb_sessions tb') j = turns_of (tb_sessions tb) j) \<and>
    (\<forall>i. sid = Some i \<longrightarrow> w_redis w' = w_redis w \<and>
       (turns_of (tb_sessions tb') i = turns_of (tb_sessions tb) i \<or>
        (\<exists>t r. turns_of (tb_sessions tb') i = turns_of (tb_sessions tb) i @ [t] \<and> ct_question t = q \<and>
           res = Inr (response_json r) \<and> ct_answer t = rs_answer r)))"
proof (cases "cache_lookup env rd (ck_start ck) q sid w")
  case (Some cached)
  then have "w' = w" "sid = None"
    using run tb by (auto simp: run_chat_def cache_lookup_def personal_def split: option.splits if_splits)
  then show ?thesis using tb ok by auto
next
  case None
  let ?u = "map_option u_id u" and ?tie = "che_memory_tie env"
  let ?m1 = "memory_exec ?tie ?u (ck_start ck, Mem_recall 12) (tb_memories tb)"
  let ?w1 = "w\<lparr>w_tables := Some (tb\<lparr>tb_memories := ?m1\<rparr>)\<rparr>"
  obtain h m where ctx: "chat_context env (ck_start ck) (sid \<noteq> Some 0) sid u w = (?w1, h, m)"
    by (rule chat_context_tables [OF tb])
  have m1: "memory_ok ?m1" "\<And>v. v \<noteq> ?u \<Longrightarrow> view v ?m1 = view v (tb_memories tb)"
    by (rule memory_exec_ok [OF ok(1)], rule memory_exec_frame [OF ok(1)]) blast
  obtain n r0 where inv: "crag_invoke (che_graph env) q h m = (n, r0)" by (cases "crag_invoke (che_graph env) q h m")
  show ?thesis
  proof (cases r0)
    case (Inl e)
    then have "w' = ?w1" using run None ctx inv by (simp add: run_chat_def)
    then show ?thesis using m1 ok by simp
  next
    case (Inr st)
    let ?r = "response_of (ck_ms ck) st"
    let ?w2 = "cache_store env rd (ck_end ck) q sid ?r ?w1"
    obtain rec where w': "record_turn env (ck_end ck) n q sid u st ?r (w_tables w) ?w2 = (w', rec)"
      and res: "rec = Inr () \<Longrightarrow> res = Inr (response_json ?r)"
      using run None ctx inv Inr by (auto simp: run_chat_def Let_def split: prod.splits)
    let ?tb1 = "tb\<lparr>tb_memories := ?m1\<rparr>"
    have t2: "w_tables ?w2 = Some ?tb1" by (simp add: cache_store_tables)
    have redis: "w_redis ?w2 = w_redis w" if "sid = Some i" for i
      using that by (simp add: cache_store_personal personal_def)
    show ?thesis
    proof (cases "session_missing sid ?w2")
      case True
      from w' have "w' = ?w2\<lparr>w_tables := w_tables w\<rparr>" by (cases rule: record_turn_cases) (use True in auto)
      then show ?thesis using tb ok redis by auto
    next
      case False
      obtain cs mid sdb where rec: "record_turn env (ck_end ck) n q sid u st ?r (w_tables w) ?w2 =
          (?w2\<lparr>w_tables := Some (?tb1\<lparr>tb_sessions := sdb, tb_memories :=
            memory_exec ?tie ?u (ck_end ck, Mem_turn cs sid mid) (tb_memories ?tb1)\<rparr>)\<rparr>, Inr ())"
        and sdb: "turn_history (ck_end ck) (tb_sessions ?tb1) sid (turn_of q st ?r) = Some (sdb, mid)"
        by (rule record_turn_tables [OF t2 False])
      let ?m2 = "memory_exec ?tie ?u (ck_end ck, Mem_turn cs sid mid) ?m1"
      have m2: "memory_ok ?m2" "\<And>v. v \<noteq> ?u \<Longrightarrow> view v ?m2 = view v (tb_memories tb)"
        by (rule memory_exec_ok [OF m1(1)], subst memory_exec_frame [OF m1(1)]) (blast, rule m1(2))
      have "ct_question (new_turn t d i (turn_of q st ?r)) = q" "ct_answer (new_turn t d i (turn_of q st ?r)) = rs_answer ?r"
        for t d i by (simp_all add: new_turn_def turn_of_def)
      moreover have w'2: "w' = ?w2\<lparr>w_tables := Some (?tb1\<lparr>tb_sessions := sdb, tb_memories := ?m2\<rparr>)\<rparr>" "rec = Inr ()"
        using rec w' by simp_all
      moreover have "sessions_ok sdb" using turn_history_turns(2) [OF sdb] ok(2) by simp
      ultimately show ?thesis using m2 res redis turn_history_turns(1) [OF sdb]
        by (auto split: if_splits)
    qed
  qed
qed

section \<open>Responses are well typed\<close>

lemma chat_response_json:
  assumes "\<forall>s\<in>set (rs_sources r). is_obj s"
  shows "chat_response (response_json r) = Inr r"
proof -
  have texts: "as_list as_text (JArr (map JStr xs)) = Inr xs" for xs
    by (simp add: mapr_map_total)
  have "as_object s = Inr s" if "s \<in> set (rs_sources r)" for s using assms that by (cases s) auto
  then have objs: "as_list as_object (JArr (rs_sources r)) = Inr (rs_sources r)"
    using mapr_map_total [of "rs_sources r" as_object "\<lambda>s. s"] by simp
  show ?thesis by (simp add: response_json_def field_def texts objs del: as_list.simps)
qed

definition objects :: "graph_state \<Rightarrow> bool" where
  "objects st \<longleftrightarrow> (\<forall>s\<in>set (gs_sources st). is_obj s) \<and> (\<forall>d\<in>set (gs_documents st). is_obj (d_meta d))"

lemma graded_subset: "grade_loop env q ds n kept = (n', Inr kept') \<Longrightarrow> set kept' \<subseteq> set kept \<union> set ds"
proof (induction ds arbitrary: n kept)
  case (Cons d ds)
  from Cons.prems obtain m a where "invoke_llm env n (grader_prompt (d_content d) q) = (m, Inr a)"
    and rest: "grade_loop env q ds m (if starts_with (py_lower (py_strip a)) (asc ''yes'') then kept @ [d] else kept) = (n', Inr kept')"
    by (auto split: prod.splits sum.splits simp del: asc_Cons)
  from Cons.IH [OF rest] show ?case by (auto split: if_splits)
qed simp

lemma tavily_item_objects: "\<forall>s\<in>set (snd (tavily_item repr item)). is_obj s"
  by (cases item) (simp_all add: tavily_item_def Let_def)

lemma normalize_tavily_sources:
  assumes "normalize_tavily_results repr v = Inr (c, srcs)"
  shows "\<exists>xs. srcs = concat (map snd (map (tavily_item repr) xs))"
proof (cases "\<exists>s. v = JStr s")
  case True
  then show ?thesis using assms by (auto simp: normalize_tavily_results_def intro: exI [of _ "[]"])
next
  case False
  define tail where "tail = (\<lambda>answer items. rbind (json_iter items) (\<lambda>xs.
       rbind (if \<not> truthy answer then Inr [] else case answer of JStr s \<Rightarrow> Inr [s]
              | _ \<Rightarrow> Inl (OtherError (asc ''sequence item 0: expected str instance''))) (\<lambda>head.
         Inr (py_strip (py_join [10] (head @ map fst (map (tavily_item repr) xs))),
              concat (map snd (map (tavily_item repr) xs))))))"
  have "normalize_tavily_results repr v =
      tail (case v of JObj kvs \<Rightarrow> obj_get kvs (asc ''answer'') (JStr []) | _ \<Rightarrow> JStr [])
        (case v of JObj kvs \<Rightarrow> obj_get kvs (asc ''results'') (JArr [v]) | _ \<Rightarrow> json_or v (JArr []))"
    using False by (cases v) (simp_all add: normalize_tavily_results_def tail_def Let_def del: asc_Cons map_map)
  then obtain answer items where "tail answer items = Inr (c, srcs)" using assms by metis
  then show ?thesis by (auto simp: tail_def rbind_Inr_iff simp del: map_map)
qed

lemma web_sources_objects:
  assumes "search_web key tavily repr q = Inr (c, srcs)"
  shows "\<forall>s\<in>set srcs. is_obj s"
proof -
  obtain v where "normalize_tavily_results repr v = Inr (c, srcs)"
    using assms by (auto simp: search_web_def rbind_Inr_iff split: if_splits)
  then show ?thesis using normalize_tavily_sources tavily_item_objects by fastforce
qed

lemma run_node_objects:
  assumes "run_node env v n st = (n', Inr st')" "objects st"
  shows "objects st'"
proof (cases v)
  case Route_question
  then show ?thesis using assms by (auto simp: objects_def route_question_def Let_def state_simps)
next
  case Retrieve
  then show ?thesis using assms
    by (auto simp: objects_def retrieve_def Let_def state_simps rbind_Inr_iff search_result_to_source_def
        search_result_to_document_def split: if_splits)
next
  case Grade_documents
  then show ?thesis using assms graded_subset [of env "gs_question st" "gs_documents st" n "[]"]
    by (fastforce simp: objects_def grade_documents_def grade_with_llm_def Let_def state_simps rbind_Inr_iff
        split: if_splits prod.splits sum.splits)
next
  case Web_search
  then show ?thesis using assms web_sources_objects
    by (fastforce simp: objects_def web_search_def Let_def state_simps add_evidence_def split: sum.splits prod.splits)
next
  case Direct_answer
  then show ?thesis using assms by (auto simp: objects_def direct_answer_def Let_def state_simps split: prod.splits sum.splits)
next
  case Generate
  then show ?thesis using assms by (auto simp: objects_def generate_def Let_def state_simps split: prod.splits sum.splits)
qed (use assms in simp)

lemma crag_run_objects: "crag_run env v n st = (n', Inr st') \<Longrightarrow> objects st \<Longrightarrow> objects st'"
proof (induction env v n st rule: crag_run.induct)
  case (1 env v n st)
  show ?case
  proof (cases "v = End")
    case True
    then show ?thesis using "1.prems" by (simp add: crag_run.simps [of env End])
  next
    case False
    obtain m s where node: "run_node env v n st = (m, Inr s)"
      using "1.prems"(1) False by (auto simp: crag_run.simps [of env v n st] split: prod.splits sum.splits)
    then have "crag_run env (next_node v s) m s = (n', Inr st')"
      using "1.prems"(1) False by (simp add: crag_run.simps [of env v n st])
    then show ?thesis using "1.IH" [OF False node [symmetric] refl] run_node_objects [OF node "1.prems"(2)] by blast
  qed
qed

lemma run_chat_typed:
  assumes miss: "cache_lookup env rd (ck_start ck) question session_id w = None"
    and run: "run_chat env rd ck question session_id user w = (w', res)"
  obtains (lost) "session_missing session_id w" "w_tables w' = w_tables w" "res = Inl pending_rollback"
  | (answered) r where "res = Inr (response_json r)" "\<not> rs_cached r" "\<forall>s\<in>set (rs_sources r). is_obj s"
proof -
  obtain w1 h m where ctx: "chat_context env (ck_start ck) (session_id \<noteq> Some 0) session_id user w = (w1, h, m)"
    by (cases "chat_context env (ck_start ck) (session_id \<noteq> Some 0) session_id user w")
  obtain n r0 where inv: "crag_invoke (che_graph env) question h m = (n, r0)"
    by (cases "crag_invoke (che_graph env) question h m")
  show thesis
  proof (cases r0)
    case (Inl e)
    then show thesis using answered [of "failure_response e"] run miss ctx inv
      by (simp add: run_chat_def failure_response_def)
  next
    case (Inr st)
    let ?r = "response_of (ck_ms ck) st" and ?w2 = "cache_store env rd (ck_end ck) question session_id (response_of (ck_ms ck) st) w1"
    have "objects (initial_state question h m)" by (simp add: initial_state_def objects_def)
    moreover have "crag_run (che_graph env) Route_question 0 (initial_state question h m) = (n, Inr st)"
      using inv Inr by (simp add: crag_invoke_def)
    ultimately have "objects st" using crag_run_objects by blast
    then have ok: "\<not> rs_cached ?r" "\<forall>s\<in>set (rs_sources ?r). is_obj s" by (simp_all add: response_of_def objects_def)
    obtain rec where rec: "record_turn env (ck_end ck) n question session_id user st ?r (w_tables w) ?w2 = (w', rec)"
      and res: "res = rbind rec (\<lambda>_. Inr (response_json ?r))"
      using run miss ctx inv Inr by (auto simp: run_chat_def Let_def split: prod.splits)
    have same: "session_missing session_id ?w2 \<longleftrightarrow> session_missing session_id w"
      using session_missing_context [OF ctx] by (simp add: session_missing_def cache_store_tables)
    from rec show thesis
    proof (cases rule: record_turn_cases)
      case recorded
      then show thesis using answered [OF _ ok] res by simp
    next
      case rolled_back
      from rolled_back(3) show thesis
      proof
        assume "rec = Inr ()"
        then show thesis using answered [OF _ ok] res by simp
      next
        assume "rec = Inl pending_rollback"
        then show thesis using lost rolled_back(1,2) res same by simp
      qed
    qed
  qed
qed


section \<open>The answer cache is shared\<close>

lemma map_JStr_inj: "map JStr xs = map JStr ys \<longleftrightarrow> xs = ys"
  by (simp add: inj_map_eq_map inj_def)

lemma response_json_inj: "response_json r = response_json r' \<longleftrightarrow> r = r'"
  by (auto simp: response_json_def map_JStr_inj simp del: asc_Cons intro!: response.equality)

lemma set_items_response:
  "set_items [((asc ''cached''), JBool True), ((asc ''duration_ms''), JInt 0)] (response_json r) =
   Inr (response_json (r\<lparr>rs_cached := True, rs_ms := 0\<rparr>))"
  by (simp add: response_json_def)

lemma cached_same_question:
  "py_lower (py_strip q') = py_lower (py_strip q) \<Longrightarrow>
   get_cached_answer env ops t q' s = get_cached_answer env ops t q s"
  by (simp add: get_cached_answer_def cache_key_def)

text \<open>C36: without a session the answer cache is keyed by the question alone,
  but the answer is made with the asker's memories in the prompt. Once one user's question has been
  answered, every other user who asks it (up to case and surrounding blanks) before the entry
  expires gets that very answer, marked as cached, without a run of the graph.\<close>

theorem cached_answer_crosses_users:
  assumes rd: "redis_ok ops alpha" and on: "ce_enabled (che_cache env)"
    and miss: "cache_lookup env (Some ops) (ck_start ck) q None w = None"
    and run: "run_chat env (Some ops) ck q None u w = (w1, Inr (response_json r))"
    and ok: "rs_answer r \<noteq> []" "\<forall>e. r \<noteq> failure_response e"
    and json: "ce_dumps (che_cache env) (response_json r) = Inr raw" "raw \<noteq> []"
      "ce_loads (che_cache env) raw = Inr (response_json r)"
    and same: "py_lower (py_strip q') = py_lower (py_strip q)"
    and time: "ck_start ck' < ck_end ck + ce_ttl (che_cache env)"
  shows "(\<exists>w0 h m n st. chat_context env (ck_start ck) True None u w = (w0, h, m) \<and>
      crag_invoke (che_graph env) q h m = (n, Inr st) \<and> rs_answer r = gs_generation st) \<and>
    run_chat env (Some ops) ck' q' None v w1 = (w1, Inr (response_json (r\<lparr>rs_cached := True, rs_ms := 0\<rparr>)))"
proof -
  let ?ce = "che_cache env"
  obtain w0 h m where ctx: "chat_context env (ck_start ck) True None u w = (w0, h, m)"
    by (cases "chat_context env (ck_start ck) True None u w")
  obtain n r0 where inv: "crag_invoke (che_graph env) q h m = (n, r0)" by (cases "crag_invoke (che_graph env) q h m")
  have "\<exists>st. r0 = Inr st"
    using run miss ctx inv ok(2) by (cases r0) (auto simp: run_chat_def response_json_inj split: prod.splits)
  then obtain st where st: "r0 = Inr st" by blast
  let ?w2 = "cache_store env (Some ops) (ck_end ck) q None r w0"
  have rec: "snd (record_turn env (ck_end ck) n q None u st r' (w_tables w) (cache_store env (Some ops) (ck_end ck) q None r' w0)) = Inr ()" for r'
    by (auto simp: record_turn_def turn_history_def split: option.splits prod.splits)
  have r: "r = response_of (ck_ms ck) st" and w1: "w1 = fst (record_turn env (ck_end ck) n q None u st r (w_tables w) ?w2)"
    using run miss ctx inv st rec by (auto simp: run_chat_def Let_def response_json_inj split_def)
  have "w_redis w1 = w_redis ?w2" by (simp only: w1 record_turn_redis)
  then have "w_redis w1 = set_cached_answer ?ce ops (ck_end ck) q (response_json r) (w_redis w0)"
    using ok(1) by (simp add: cache_store_def personal_def)
  then have "get_cached_answer ?ce ops (ck_start ck') q' (w_redis w1) = Some (response_json r)"
    by (simp only: cached_same_question [OF same] cached_after_set [OF rd json on time])
  then have "cache_lookup env (Some ops) (ck_start ck') q' None w1 = Some (response_json r)"
    by (simp add: cache_lookup_def personal_def response_json_def del: asc_Cons)
  then have "run_chat env (Some ops) ck' q' None v w1 = (w1, Inr (response_json (r\<lparr>rs_cached := True, rs_ms := 0\<rparr>)))"
    by (simp only: run_chat_def option.case set_items_response)
  then show ?thesis using ctx inv st r by (auto simp: response_of_def)
qed

section \<open>Instances\<close>

definition ok_graph :: graph_env where
  "ok_graph = demo_graph_env\<lparr>ge_llm := (\<lambda>n p. Inr (asc ''ok''))\<rparr>"

definition demo_response :: response where
  "demo_response = (case snd (crag_invoke ok_graph (asc ''hi'') [] []) of Inr st \<Rightarrow> response_of 5 st | Inl e \<Rightarrow> failure_response e)"

definition demo_chat :: chat_env where
  "demo_chat = \<lparr>che_graph = ok_graph,
     che_cache = demo_cache\<lparr>
       ce_dumps := (\<lambda>j. if j = response_json demo_response then Inr [1] else Inl (OtherError [])),
       ce_loads := (\<lambda>s. if s = [1] then Inr (response_json demo_response) else Inl (ValueError []))\<rparr>,
     che_model = (asc ''gpt''), che_chunks = (\<lambda>v n st. [gs_generation st]), che_turn_tie = (\<lambda>_. 0), che_memory_tie = (\<lambda>_. 0)\<rparr>"

definition demo_clock :: clock where
  "demo_clock = \<lparr>ck_start = 100, ck_end = 105, ck_ms = 5\<rparr>"

definition bare_world :: "server world" where
  "bare_world = \<lparr>w_redis = Map.empty, w_tables = None\<rparr>"

lemma demo_answer:
  obtains n st where "crag_invoke ok_graph (asc ''hi'') [] [] = (n, Inr st)" "gs_generation st = (asc ''ok'')"
    "demo_response = response_of 5 st"
proof -
  have route: "choose_route (asc ''hi'') = Model" by code_simp
  obtain n st where run: "crag_invoke ok_graph (asc ''hi'') [] [] = (n, Inr st)"
    using direct_run [OF route, of ok_graph "\<lambda>p. (asc ''ok'')" "[]" "[]"] by (auto simp: ok_graph_def simp del: asc_Cons)
  moreover have "gs_generation st = (asc ''ok'')"
    using crag_invoke_inv [of ok_graph "(asc ''hi'')" "[]" "[]"] unfolding run
    by (auto simp: outcome_def ok_graph_def simp del: asc_Cons)
  moreover have "demo_response = response_of 5 st" by (simp only: demo_response_def run snd_conv sum.case)
  ultimately show thesis by (rule that)
qed

lemma demo_response_ok: "rs_answer demo_response = (asc ''ok'')" "demo_response \<noteq> failure_response e"
proof -
  obtain n st where st: "gs_generation st = (asc ''ok'')" and r: "demo_response = response_of 5 st" by (rule demo_answer)
  show a: "rs_answer demo_response = (asc ''ok'')" by (subst r) (simp add: response_of_def st del: asc_Cons)
  have "rs_answer (failure_response e) \<noteq> (asc ''ok'')" by (simp add: failure_response_def)
  with a show "demo_response \<noteq> failure_response e" by metis
qed

lemma demo_miss: "cache_lookup demo_chat rd 100 q None bare_world = None" if "rd = None \<or> rd = Some spec_redis"
  using that by (auto simp: cache_lookup_def get_cached_answer_def spec_redis_def bare_world_def alive_def)

lemma demo_first_run:
  obtains w1 where "run_chat demo_chat (Some spec_redis) demo_clock (asc ''hi'') None u bare_world = (w1, Inr (response_json demo_response))"
proof -
  obtain n st where inv: "crag_invoke ok_graph (asc ''hi'') [] [] = (n, Inr st)" and r: "demo_response = response_of 5 st"
    by (rule demo_answer)
  have "chat_context demo_chat 100 True None u bare_world = (bare_world, [], [])"
    by (simp add: chat_context_def bare_world_def)
  moreover have "che_graph demo_chat = ok_graph" by (simp add: demo_chat_def)
  ultimately show thesis using that demo_miss [of "Some spec_redis" "(asc ''hi'')"] inv
    by (simp add: run_chat_def demo_clock_def Let_def r record_turn_def bare_world_def cache_store_tables del: asc_Cons)
qed

theorem cached_answer_crosses_users_witness:
  "\<exists>w1. run_chat demo_chat (Some spec_redis) demo_clock (asc ''hi'') None (Some demo_admin) bare_world =
        (w1, Inr (response_json demo_response)) \<and>
     run_chat demo_chat (Some spec_redis) (demo_clock\<lparr>ck_start := 200\<rparr>) (asc '' Hi'') None None w1 =
        (w1, Inr (response_json (demo_response\<lparr>rs_cached := True, rs_ms := 0\<rparr>)))"
proof -
  obtain w1 where run: "run_chat demo_chat (Some spec_redis) demo_clock (asc ''hi'') None (Some demo_admin) bare_world =
      (w1, Inr (response_json demo_response))" by (rule demo_first_run)
  have ok: "rs_answer demo_response \<noteq> []" and nf: "\<forall>e. demo_response \<noteq> failure_response e"
    by (simp_all add: demo_response_ok)
  have miss: "cache_lookup demo_chat (Some spec_redis) (ck_start demo_clock) (asc ''hi'') None bare_world = None"
    using demo_miss by (simp add: demo_clock_def del: asc_Cons)
  have env: "ce_enabled (che_cache demo_chat)" "ce_dumps (che_cache demo_chat) (response_json demo_response) = Inr [1]"
      "ce_loads (che_cache demo_chat) [1] = Inr (response_json demo_response)"
      "ck_start (demo_clock\<lparr>ck_start := 200\<rparr>) < ck_end demo_clock + ce_ttl (che_cache demo_chat)"
    by (simp_all add: demo_chat_def demo_cache_def demo_clock_def)
  have same: "py_lower (py_strip (asc '' Hi'')) = py_lower (py_strip (asc ''hi''))" by code_simp
  have "run_chat demo_chat (Some spec_redis) (demo_clock\<lparr>ck_start := 200\<rparr>) (asc '' Hi'') None None w1 =
      (w1, Inr (response_json (demo_response\<lparr>rs_cached := True, rs_ms := 0\<rparr>)))"
    using cached_answer_crosses_users [OF spec_redis_ok env(1) miss run ok nf env(2) _ env(3) same env(4), of None]
    by simp
  with run show ?thesis by blast
qed

text \<open>A server that has counted one request holds no answer.\<close>

lemma demo_counted:
  "get_cached_answer (che_cache demo_chat) spec_redis 100 q
     (w_redis (fst (count_request demo_chat (Some spec_redis) 100 (Some (asc ''10.0.0.1'')) bare_world))) = None"
proof -
  obtain s1 where s1: "check_rate_limit (che_cache demo_chat) spec_redis 100 (asc ''10.0.0.1'') (w_redis bare_world) = s1" by simp
  have "fst s1 k = None" if "k \<noteq> rate_key (asc ''10.0.0.1'')" for k
    using that s1 by (auto simp: check_rate_limit_def spec_redis_def bare_world_def alive_def Let_def simp del: asc_Cons)
  moreover have "cache_key (che_cache demo_chat) q \<noteq> rate_key (asc ''10.0.0.1'')" by (simp add: cache_key_def rate_key_def)
  ultimately show ?thesis using s1
    by (auto simp: get_cached_answer_def count_request_def spec_redis_def alive_def Let_def split: prod.splits simp del: asc_Cons)
qed


theorem stream_matches_chat_witness:
  "\<exists>evs w'. chat_stream demo_chat (Some spec_redis) demo_clock (asc ''hi'') None None bare_world = (w', evs) \<and>
     last evs = Sse (asc ''final'') (response_json demo_response) \<and> set (rs_trace demo_response) \<subseteq> set (step_texts evs)"
proof -
  obtain w1 where run: "run_chat demo_chat (Some spec_redis) demo_clock (asc ''hi'') None None bare_world =
      (w1, Inr (response_json demo_response))" by (rule demo_first_run)
  obtain w2 evs where s: "chat_stream demo_chat (Some spec_redis) demo_clock (asc ''hi'') None None bare_world = (w2, evs)"
    by (cases "chat_stream demo_chat (Some spec_redis) demo_clock (asc ''hi'') None None bare_world")
  have miss: "cache_lookup demo_chat (Some spec_redis) (ck_start demo_clock) (asc ''hi'') None bare_world = None"
    using demo_miss by (simp add: demo_clock_def del: asc_Cons)
  from stream_matches_chat [OF _ miss run s] s demo_response_ok(2) show ?thesis
    by (auto simp: response_json_inj simp del: asc_Cons)
qed

theorem chat_turn_frame_witness:
  "\<exists>w' res tb'. run_chat demo_chat None demo_clock (asc ''hi'') (Some 1) None
       (bare_world\<lparr>w_tables := Some \<lparr>tb_sessions = demo_sessions, tb_memories = empty_memories\<rparr>\<rparr>) = (w', res) \<and>
     w_tables w' = Some tb' \<and> sessions_ok (tb_sessions tb') \<and> view (Some 3) (tb_memories tb') = []"
proof -
  let ?w = "bare_world\<lparr>w_tables := Some \<lparr>tb_sessions = demo_sessions, tb_memories = empty_memories\<rparr>\<rparr>"
  obtain w' res where run: "run_chat demo_chat None demo_clock (asc ''hi'') (Some 1) None ?w = (w', res)"
    by (cases "run_chat demo_chat None demo_clock (asc ''hi'') (Some 1) None ?w")
  have tb: "w_tables ?w = Some \<lparr>tb_sessions = demo_sessions, tb_memories = empty_memories\<rparr>" by simp
  show ?thesis
    using chat_turn_frame [OF tb _ _ run] run empty_memories_ok demo_sessions_ok by (auto simp del: asc_Cons)
qed

end
