(* ===== verification/Documents.thy ===== *)
theory Documents
  imports Knowledge_Base Cache
begin

text \<open>
  The document routes (\<open>backend/api/v1/documents.py\<close>), the background tasks
  (\<open>backend/tasks/document_tasks.py\<close>, \<open>backend/tasks/scheduled_tasks.py\<close>), the task routes
  (\<open>backend/api/v1/tasks.py\<close>) and what they publish: the rows of the change-data table
  (\<open>backend/messaging/mysql_cdc.py\<close>) and the Kafka events (\<open>backend/messaging/kafka_producer.py\<close>).
  The state is the knowledge base, the Redis server, the table of document records, the change-data
  table and the broker. The broker's send command, the task queue and whether MySQL answers are
  parameters. A request whose handler raises leaves the records as they were (the session is rolled
  back). Of the errors of the records' database those of the task's writes are modelled that come from the
  widths of the columns (\<open>column_ok\<close>); a request cannot reach them, since the file system
  refuses a file name beyond 255 bytes before.
\<close>

section \<open>State\<close>

record doc_record =
  do_id :: int
  do_filename :: pystr
  do_pages :: int
  do_chunks :: int
  do_status :: pystr
  do_by :: "int option"
  do_error :: "pystr option"
  do_created :: int

record record_db =
  rc_rows :: "doc_record list"
  rc_next :: int

record cdc_row =
  cr_id :: pystr
  cr_source :: pystr
  cr_path :: pystr
  cr_status :: pystr

record ('v, 'r, 'q) doc_world =
  dw_kb :: "'v kb"
  dw_redis :: 'r
  dw_records :: "record_db option"
  dw_cdc :: "cdc_row list"
  dw_broker :: 'q

record ('v, 'q) doc_env =
  de_kb :: "'v kb_env"
  de_cdc_enabled :: bool
  de_cdc_url :: pystr
  de_cdc_up :: bool
  de_kafka_servers :: pystr
  de_kafka_send :: "pystr \<Rightarrow> json \<Rightarrow> 'q \<Rightarrow> 'q \<times> unit result"
  de_dispatch :: "pystr \<Rightarrow> pystr \<Rightarrow> int option \<Rightarrow> pystr result"

section \<open>Publishing changes\<close>

definition change_event :: "int \<Rightarrow> pystr \<Rightarrow> pystr \<Rightarrow> pystr \<Rightarrow> pystr \<Rightarrow> json" where
  "change_event now document_id operation source file_path = JObj
     [((asc ''document_id''), JStr document_id), ((asc ''operation''), JStr (py_upper operation)),
      ((asc ''timestamp''), JInt now), ((asc ''source''), JStr source), ((asc ''file_path''), JStr file_path)]"

definition publish_document_change ::
  "('v, 'q) doc_env \<Rightarrow> int \<Rightarrow> pystr \<Rightarrow> pystr \<Rightarrow> pystr \<Rightarrow> pystr \<Rightarrow> 'q \<Rightarrow> 'q \<times> bool" where
  "publish_document_change env now document_id operation source file_path q =
     (if de_kafka_servers env = [] then (q, False)
      else case de_kafka_send env document_id (change_event now document_id operation source file_path) q of
          (q', Inl e) \<Rightarrow> (q', False)
        | (q', Inr _) \<Rightarrow> (q', True))"

definition cdc_ready :: "('v, 'q) doc_env \<Rightarrow> bool" where
  "cdc_ready env \<longleftrightarrow> de_cdc_enabled env \<and> de_cdc_url env \<noteq> []"

definition cdc_upsert :: "pystr \<Rightarrow> pystr \<Rightarrow> pystr \<Rightarrow> cdc_row list \<Rightarrow> cdc_row list" where
  "cdc_upsert i source file_path rows =
     (if i \<in> cr_id ` set rows
      then map (\<lambda>r. if cr_id r = i then r\<lparr>cr_source := source, cr_path := file_path, cr_status := (asc ''ACTIVE'')\<rparr> else r) rows
      else rows @ [\<lparr>cr_id = i, cr_source = source, cr_path = file_path, cr_status = (asc ''ACTIVE'')\<rparr>])"

definition upsert_document_record ::
  "('v, 'q) doc_env \<Rightarrow> pystr \<Rightarrow> pystr \<Rightarrow> pystr \<Rightarrow> cdc_row list \<Rightarrow> cdc_row list \<times> bool" where
  "upsert_document_record env document_id source file_path rows =
     (if \<not> cdc_ready env then (rows, False)
      else if \<not> de_cdc_up env then (rows, False)
      else (cdc_upsert document_id source file_path rows, True))"

definition delete_document_record :: "('v, 'q) doc_env \<Rightarrow> pystr \<Rightarrow> cdc_row list \<Rightarrow> cdc_row list \<times> bool" where
  "delete_document_record env source rows =
     (if \<not> cdc_ready env then (rows, False)
      else if \<not> de_cdc_up env then (rows, False)
      else (filter (\<lambda>r. cr_source r \<noteq> source) rows, True))"

text \<open>The change-data row, or else the event; the second flag is \<open>kafka_event_published\<close>.\<close>

definition announce_upsert ::
  "('v, 'q) doc_env \<Rightarrow> int \<Rightarrow> pystr \<Rightarrow> pystr \<Rightarrow> pystr \<Rightarrow> ('v, 'r, 'q) doc_world \<Rightarrow>
   ('v, 'r, 'q) doc_world \<times> bool \<times> bool" where
  "announce_upsert env now document_id source file_path w =
     (case upsert_document_record env document_id source file_path (dw_cdc w) of
        (rows, True) \<Rightarrow> (w\<lparr>dw_cdc := rows\<rparr>, True, True)
      | (rows, False) \<Rightarrow>
          (case publish_document_change env now document_id (asc ''INSERT'') source file_path (dw_broker w) of
             (q, ok) \<Rightarrow> (w\<lparr>dw_cdc := rows, dw_broker := q\<rparr>, False, ok)))"

definition announce_delete ::
  "('v, 'q) doc_env \<Rightarrow> int \<Rightarrow> pystr \<Rightarrow> ('v, 'r, 'q) doc_world \<Rightarrow> ('v, 'r, 'q) doc_world \<times> bool \<times> bool" where
  "announce_delete env now source w =
     (case delete_document_record env source (dw_cdc w) of
        (rows, True) \<Rightarrow> (w\<lparr>dw_cdc := rows\<rparr>, True, True)
      | (rows, False) \<Rightarrow>
          (case publish_document_change env now source (asc ''DELETE'') source [] (dw_broker w) of
             (q, ok) \<Rightarrow> (w\<lparr>dw_cdc := rows, dw_broker := q\<rparr>, False, ok)))"

section \<open>Records\<close>

definition insert_record :: "int \<Rightarrow> (int \<Rightarrow> int \<Rightarrow> doc_record) \<Rightarrow> record_db \<Rightarrow> record_db \<times> int" where
  "insert_record now f db =
     (db\<lparr>rc_rows := rc_rows db @ [f (rc_next db) now], rc_next := rc_next db + 1\<rparr>, rc_next db)"

definition new_record :: "pystr \<Rightarrow> pystr \<Rightarrow> int \<Rightarrow> int \<Rightarrow> int option \<Rightarrow> int \<Rightarrow> int \<Rightarrow> doc_record" where
  "new_record filename status pages chunks uploaded_by i now =
     \<lparr>do_id = i, do_filename = filename, do_pages = pages, do_chunks = chunks, do_status = status,
      do_by = uploaded_by, do_error = None, do_created = now\<rparr>"

text \<open>What a \<open>String(n)\<close> column of the table takes: at most \<open>n\<close> characters, and no character 0.\<close>

definition column_ok :: "nat \<Rightarrow> pystr \<Rightarrow> bool" where
  "column_ok n t \<longleftrightarrow> length t \<le> n \<and> 0 \<notin> set t"

text \<open>The first record of the name; without an \<open>ORDER BY\<close> the table order is taken.\<close>

fun update_first :: "('a \<Rightarrow> bool) \<Rightarrow> ('a \<Rightarrow> 'a) \<Rightarrow> 'a list \<Rightarrow> 'a list" where
  "update_first p f [] = []"
| "update_first p f (x # xs) = (if p x then f x # xs else x # update_first p f xs)"

text \<open>
  The task's write to its record. A value its column does not take - a name of more than 500
  characters in a new row, an error text of more than 1000 - makes the commit raise; the exception is
  caught and logged, and the table stays as it was.
\<close>

definition update_db_status ::
  "int \<Rightarrow> pystr \<Rightarrow> pystr \<Rightarrow> int \<Rightarrow> int \<Rightarrow> int option \<Rightarrow> pystr option \<Rightarrow> record_db option \<Rightarrow> record_db option" where
  "update_db_status now filename status pages chunks uploaded_by error_message records =
     map_option (\<lambda>db.
       let missing = (find (\<lambda>r. do_filename r = filename) (rc_rows db) = None);
           db1 = (if missing then fst (insert_record now (new_record filename (asc ''pending'') 0 0 None) db) else db)
       in if (missing \<longrightarrow> column_ok 500 filename) \<and> column_ok 50 status \<and>
             (case error_message of None \<Rightarrow> True | Some t \<Rightarrow> column_ok 1000 t)
          then db1\<lparr>rc_rows := update_first (\<lambda>r. do_filename r = filename)
            (\<lambda>r. r\<lparr>do_status := status, do_pages := pages, do_chunks := chunks, do_by := uploaded_by,
                   do_error := error_message\<rparr>) (rc_rows db1)\<rparr>
          else db) records"

section \<open>Synchronous upload\<close>

definition add_report_items :: "add_report \<Rightarrow> (pystr \<times> json) list" where
  "add_report_items rep =
     [((asc ''source''), JStr (ar_source rep)), ((asc ''pages''), JInt (int (ar_pages rep))),
      ((asc ''chunks_added''), JInt (int (ar_chunks_added rep))),
      ((asc ''parent_chunks_added''), JInt (int (ar_parents_added rep))),
      ((asc ''total_chunks''), JInt (int (ar_total_chunks rep)))]"

definition not_pdf :: exn where
  "not_pdf = AppError (asc ''DOC_INVALID_FORMAT'') ([0x4ec5, 0x652f, 0x6301] @ asc '' PDF '' @
      [0x6587, 0x4ef6]) 400"

definition upload_busy :: exn where
  "upload_busy = AppError (asc ''DOC_UPLOAD_FAILED'') [0x6587, 0x4ef6, 0x6b63, 0x5728, 0x5904,
      0x7406, 0x4e2d, 0xff0c, 0x8bf7, 0x7a0d, 0x540e] 409"

text \<open>\<open>except AppError: raise\<close>, any other exception becomes a 500.\<close>

fun upload_failed :: "exn \<Rightarrow> exn" where
  "upload_failed (AppError code m s) = AppError code m s"
| "upload_failed e = AppError (asc ''DOC_UPLOAD_FAILED'') ([0x6587, 0x4ef6, 0x5165, 0x5e93, 0x5931,
    0x8d25, 0xff1a] @ exn_str e) 500"

definition upload_resource :: "pystr \<Rightarrow> pystr" where
  "upload_resource filename = (asc ''upload:'') @ filename"

definition upload_body ::
  "('v, 'q) doc_env \<Rightarrow> int \<Rightarrow> pystr \<Rightarrow> user option \<Rightarrow> ('v, 'r, 'q) doc_world \<Rightarrow>
   (('v, 'r, 'q) doc_world \<times> json result) option" where
  "upload_body env now filename current_user w =
     (case save_upload (de_kb env) filename (dw_kb w) of
        (kb1, saved_path) \<Rightarrow>
          (case add_pdf (de_kb env) saved_path filename kb1 of
             None \<Rightarrow> None
           | Some (kb2, Inl e) \<Rightarrow> Some (w\<lparr>dw_kb := kb2\<rparr>, Inl (upload_failed e))
           | Some (kb2, Inr rep) \<Rightarrow>
               let (records, document_id) = (case dw_records w of
                     None \<Rightarrow> (None, filename)
                   | Some db \<Rightarrow>
                       let (db', i) = insert_record now (new_record filename (asc ''success'') (int (ar_pages rep))
                              (int (ar_chunks_added rep)) (map_option u_id current_user)) db
                       in (Some db', show_int i));
                   (w', persisted, published) = announce_upsert env now document_id filename saved_path
                      (w\<lparr>dw_kb := kb2, dw_records := records\<rparr>)
               in Some (w', Inr (JObj ([((asc ''status''), JStr (asc ''ok'')), ((asc ''cdc_persisted''), JBool persisted),
                    ((asc ''kafka_event_published''), JBool published)] @ add_report_items rep)))))"

definition upload_document ::
  "('v, 'q) doc_env \<Rightarrow> 'r redis option \<Rightarrow> int \<Rightarrow> int \<Rightarrow> pystr \<Rightarrow> user option \<Rightarrow> ('v, 'r, 'q) doc_world \<Rightarrow>
   (('v, 'r, 'q) doc_world \<times> json result) option" where
  "upload_document env rd now later filename current_user w =
     (if \<not> ends_with (py_lower filename) (asc ''.pdf'') then Some (w, Inl not_pdf)
      else case rd of
          None \<Rightarrow> upload_body env now filename current_user w
        | Some ops \<Rightarrow>
            (case acquire_lock ops now (upload_resource filename) 30 (dw_redis w) of
               (s, False) \<Rightarrow> Some (w\<lparr>dw_redis := s\<rparr>, Inl upload_busy)
             | (s, True) \<Rightarrow>
                 map_option (\<lambda>(w', r).
                   (w'\<lparr>dw_redis := release_lock ops later (upload_resource filename) (dw_redis w')\<rparr>, r))
                   (upload_body env now filename current_user (w\<lparr>dw_redis := s\<rparr>))))"

section \<open>Asynchronous upload and the task\<close>

definition upload_document_async ::
  "('v, 'q) doc_env \<Rightarrow> int \<Rightarrow> pystr \<Rightarrow> user option \<Rightarrow> ('v, 'r, 'q) doc_world \<Rightarrow>
   (('v, 'r, 'q) doc_world \<times> json result) option" where
  "upload_document_async env now filename current_user w =
     (if \<not> ends_with (py_lower filename) (asc ''.pdf'') then Some (w, Inl not_pdf)
      else case save_upload (de_kb env) filename (dw_kb w) of
          (kb1, saved_path) \<Rightarrow>
            let w1 = w\<lparr>dw_kb := kb1\<rparr>;
                w2 = w1\<lparr>dw_records := map_option (\<lambda>db. fst (insert_record now
                       (new_record filename (asc ''pending'') 0 0 (map_option u_id current_user)) db)) (dw_records w)\<rparr>
            in case de_dispatch env saved_path filename (map_option u_id current_user) of
                Inr task_id \<Rightarrow>
                  Some (w2, Inr (JObj [((asc ''status''), JStr (asc ''queued'')), ((asc ''task_id''), JStr task_id),
                    ((asc ''filename''), JStr filename),
                    ((asc ''message''), JStr (([0x6587, 0x4ef6, 0x5df2, 0x52a0, 0x5165, 0x5904,
                        0x7406, 0x961f, 0x5217, 0xff0c, 0x8bf7, 0x901a, 0x8fc7] @
                        asc '' GET /api/v1/tasks/'') @ task_id @ (asc '' '' @ [0x67e5, 0x8be2,
                        0x8fdb, 0x5ea6])))]))
              | Inl exc \<Rightarrow>
                  (case add_pdf (de_kb env) saved_path filename kb1 of
                     None \<Rightarrow> None
                   | Some (kb2, Inl e) \<Rightarrow> Some (w1\<lparr>dw_kb := kb2\<rparr>, Inl e)
                   | Some (kb2, Inr rep) \<Rightarrow>
                       Some (w2\<lparr>dw_kb := kb2\<rparr>, Inr (JObj ([((asc ''status''), JStr (asc ''ok'')),
                         ((asc ''note''), JStr (asc ''Celery '' @ [0x4e0d, 0x53ef, 0x7528, 0xff0c,
                             0x5df2, 0x540c, 0x6b65, 0x5904, 0x7406]))] @ add_report_items rep)))))"

text \<open>One execution of the task: it returns, or raises after the record is marked as failed.\<close>

definition process_pdf_attempt ::
  "('v, 'q) doc_env \<Rightarrow> int \<Rightarrow> pystr \<Rightarrow> pystr \<Rightarrow> pystr \<Rightarrow> int option \<Rightarrow> ('v, 'r, 'q) doc_world \<Rightarrow>
   (('v, 'r, 'q) doc_world \<times> add_report result) option" where
  "process_pdf_attempt env now task_id file_path filename uploaded_by w =
     (let w1 = w\<lparr>dw_records := update_db_status now filename (asc ''processing'') 0 0 uploaded_by None (dw_records w)\<rparr>
      in case add_pdf (de_kb env) file_path filename (dw_kb w1) of
          None \<Rightarrow> None
        | Some (kb1, Inl e) \<Rightarrow>
            Some (w1\<lparr>dw_kb := kb1,
              dw_records := update_db_status now filename (asc ''failed'') 0 0 None (Some (exn_str e)) (dw_records w1)\<rparr>, Inl e)
        | Some (kb1, Inr rep) \<Rightarrow>
            (case announce_upsert env now task_id filename file_path (w1\<lparr>dw_kb := kb1\<rparr>) of
               (w2, _, _) \<Rightarrow>
                 Some (w2\<lparr>dw_records := update_db_status now filename (asc ''success'') (int (ar_pages rep))
                   (int (ar_chunks_added rep)) uploaded_by None (dw_records w2)\<rparr>, Inr rep)))"

text \<open>
  The task with its retries: after an exception it runs again while fewer than \<open>max_retries\<close> = 3
  retries were made, then the exception is raised. The environment and the time of each attempt are
  arguments; \<open>retries\<close> counts those made.
\<close>

function process_pdf_task ::
  "(nat \<Rightarrow> ('v, 'q) doc_env) \<Rightarrow> (nat \<Rightarrow> int) \<Rightarrow> pystr \<Rightarrow> pystr \<Rightarrow> pystr \<Rightarrow> int option \<Rightarrow> nat \<Rightarrow>
   ('v, 'r, 'q) doc_world \<Rightarrow> (('v, 'r, 'q) doc_world \<times> add_report result) option" where
  "process_pdf_task envs clocks task_id file_path filename uploaded_by retries w =
     (case process_pdf_attempt (envs retries) (clocks retries) task_id file_path filename uploaded_by w of
        None \<Rightarrow> None
      | Some (w', Inr rep) \<Rightarrow> Some (w', Inr rep)
      | Some (w', Inl e) \<Rightarrow>
          if retries < 3 then process_pdf_task envs clocks task_id file_path filename uploaded_by (retries + 1) w'
          else Some (w', Inl e))"
  by pat_completeness auto
termination
  by (relation "measure (\<lambda>(envs, clocks, i, p, f, u, retries, w). 3 - retries)") auto

declare process_pdf_task.simps [simp del]

section \<open>Deleting, clearing, rebuilding\<close>

definition delete_document ::
  "('v, 'q) doc_env \<Rightarrow> int \<Rightarrow> pystr \<Rightarrow> ('v, 'r, 'q) doc_world \<Rightarrow> ('v, 'r, 'q) doc_world \<times> json result" where
  "delete_document env now source w =
     (case delete_source (de_kb env) source (dw_kb w) of
        (kb1, Inl e) \<Rightarrow> (w\<lparr>dw_kb := kb1\<rparr>, Inl e)
      | (kb1, Inr d) \<Rightarrow>
          (case announce_delete env now source (w\<lparr>dw_kb := kb1\<rparr>) of
             (w', persisted, published) \<Rightarrow>
               let status = (if dr_chunks_removed d \<noteq> 0 \<or> dr_deleted_uploads d \<noteq> [] then (asc ''ok'') else (asc ''not_found''))
               in (w', Inr (JObj ([((asc ''status''), JStr status), ((asc ''cdc_persisted''), JBool persisted),
                    ((asc ''kafka_event_published''), JBool published), ((asc ''source''), JStr (dr_source d)),
                    ((asc ''chunks_removed''), JInt (int (dr_chunks_removed d))),
                    ((asc ''uploads_deleted''), JInt (int (length (dr_deleted_uploads d))))] @
                    (if dr_source d = [] then [] else
                     [((asc ''deleted_uploads''), JArr (map JStr (dr_deleted_uploads d))),
                      ((asc ''chunks''), JInt (int (length (kb_chunks kb1)))),
                      ((asc ''parent_chunks''), JInt (int (parent_count (kb_chunks kb1))))]))))))"

definition clear_documents ::
  "('v, 'q) doc_env \<Rightarrow> user option \<Rightarrow> ('v, 'r, 'q) doc_world \<Rightarrow> ('v, 'r, 'q) doc_world \<times> unit result" where
  "clear_documents env current_user w =
     (case require_admin current_user of
        Inl e \<Rightarrow> (w, Inl e)
      | Inr _ \<Rightarrow> (case clear (de_kb env) (dw_kb w) of (kb1, r) \<Rightarrow> (w\<lparr>dw_kb := kb1\<rparr>, r)))"

definition reindex_documents ::
  "('v, 'q) doc_env \<Rightarrow> ('v, 'r, 'q) doc_world \<Rightarrow> (('v, 'r, 'q) doc_world \<times> rebuild_report result) option" where
  "reindex_documents env w =
     map_option (\<lambda>(kb1, r). (w\<lparr>dw_kb := kb1\<rparr>, r)) (rebuild_from_uploads (de_kb env) (dw_kb w))"

text \<open>The daily task is the same rebuild; its exceptions become a result.\<close>

definition rebuild_index_task ::
  "('v, 'q) doc_env \<Rightarrow> ('v, 'r, 'q) doc_world \<Rightarrow> (('v, 'r, 'q) doc_world \<times> (pystr + rebuild_report)) option" where
  "rebuild_index_task env w =
     map_option (\<lambda>(w', r). (w', case r of Inl e \<Rightarrow> Inl (exn_str e) | Inr rep \<Rightarrow> Inr rep)) (reindex_documents env w)"

definition cleanup_old_tasks :: "int \<Rightarrow> int \<Rightarrow> record_db option \<Rightarrow> record_db option \<times> json" where
  "cleanup_old_tasks now days records =
     (case records of
        None \<Rightarrow> (None, JObj [((asc ''skipped''), JBool True)])
      | Some db \<Rightarrow>
          let old = (\<lambda>r. do_status r = (asc ''failed'') \<and> do_created r < now - days * 86400)
          in (Some (db\<lparr>rc_rows := filter (\<lambda>r. \<not> old r) (rc_rows db)\<rparr>),
              JObj [((asc ''deleted_records''), JInt (int (length (filter old (rc_rows db))))), ((asc ''cutoff_days''), JInt days)]))"

section \<open>Task routes\<close>

text \<open>The task queue's answer: status, result and info; \<open>str\<close> of the last two is a parameter.\<close>

definition get_task_status :: "(json \<Rightarrow> pystr) \<Rightarrow> (pystr \<Rightarrow> (pystr \<times> json \<times> json) result) \<Rightarrow> pystr \<Rightarrow> json result" where
  "get_task_status str async_result task_id =
     (case async_result task_id of
        Inl e \<Rightarrow> Inl (AppError (asc ''TASK_NOT_FOUND'') (([0x4efb, 0x52a1] @ asc '' '') @
            task_id @ (asc '' '' @ [0x67e5, 0x8be2, 0x5931, 0x8d25] @ asc '': '') @ exn_str e) 404)
      | Inr (status, res, info) \<Rightarrow>
          Inr (JObj ([((asc ''task_id''), JStr task_id), ((asc ''status''), JStr status)] @
            (if status = (asc ''SUCCESS'') then [((asc ''result''), res)]
             else if status = (asc ''FAILURE'') then [((asc ''error''), JStr (str info))]
             else if status = (asc ''STARTED'') \<or> status = (asc ''RETRY'')
             then [((asc ''info''), if truthy info then JStr (str info) else JNull)] else []))))"

text \<open>The most recent records first; the order of records created at the same time is a parameter.\<close>

definition list_recent_tasks :: "(doc_record \<Rightarrow> int) \<Rightarrow> nat \<Rightarrow> record_db option \<Rightarrow> doc_record list" where
  "list_recent_tasks tie limit records =
     (case records of
        None \<Rightarrow> []
      | Some db \<Rightarrow> take limit (sort_key (\<lambda>r. - do_created r) (sort_key tie (rc_rows db))))"

section \<open>Facts about the records\<close>

definition records_ok :: "record_db \<Rightarrow> bool" where
  "records_ok db \<longleftrightarrow> distinct (map do_id (rc_rows db)) \<and> (\<forall>r\<in>set (rc_rows db). do_id r < rc_next db)"

abbreviation named :: "pystr \<Rightarrow> doc_record \<Rightarrow> bool" where
  "named filename r \<equiv> do_filename r = filename"

lemma insert_record_ok:
  assumes "records_ok db" "do_id (f (rc_next db) now) = rc_next db"
  shows "records_ok (fst (insert_record now f db))"
  using assms by (force simp: records_ok_def insert_record_def)

lemma update_first_map:
  "(\<And>x. h (f x) = h x) \<Longrightarrow> map h (update_first p f xs) = map h xs"
  by (induction xs) auto

lemma update_first_None: "find p xs = None \<Longrightarrow> update_first p f xs = xs"
  by (induction xs) (auto split: if_splits)

lemma update_first_append:
  "update_first p f (xs @ ys) = (if find p xs = None then xs @ update_first p f ys else update_first p f xs @ ys)"
  by (induction xs) auto

lemma find_update_first:
  "(\<And>x. p x \<Longrightarrow> p (f x)) \<Longrightarrow> find p (update_first p f xs) = map_option f (find p xs)"
  by (induction xs) auto

lemma filter_update_first:
  "(\<And>x. p x \<Longrightarrow> \<not> q x \<and> \<not> q (f x)) \<Longrightarrow> filter q (update_first p f xs) = filter q xs"
  by (induction xs) auto

text \<open>The rows after the first one of a name.\<close>

fun later_rows :: "pystr \<Rightarrow> doc_record list \<Rightarrow> doc_record list" where
  "later_rows filename [] = []"
| "later_rows filename (r # rs) = (if named filename r then filter (named filename) rs else later_rows filename rs)"

lemma later_rows_update_first:
  "(\<And>r. do_filename (f r) = do_filename r) \<Longrightarrow> later_rows filename (update_first (named filename) f rs) = later_rows filename rs"
  by (induction rs) auto

lemma find_append: "find p (xs @ ys) = (case find p xs of None \<Rightarrow> find p ys | Some x \<Rightarrow> Some x)"
  by (induction xs) auto

lemma later_rows_append_None:
  "find (named filename) rs = None \<Longrightarrow> later_rows filename (rs @ rs') = later_rows filename rs' \<and> later_rows filename rs = []"
  by (induction rs) (auto split: if_splits)

text \<open>A name the table can take, or has taken.\<close>

definition recordable :: "pystr \<Rightarrow> record_db \<Rightarrow> bool" where
  "recordable filename db \<longleftrightarrow> find (named filename) (rc_rows db) = None \<longrightarrow> column_ok 500 filename"

lemma recordable_found: "find (named filename) (rc_rows db) = Some r \<Longrightarrow> recordable filename db"
  by (simp add: recordable_def)

lemma status_columns: "column_ok 50 (asc ''processing'')" "column_ok 50 (asc ''failed'')" "column_ok 50 (asc ''success'')"
  unfolding column_ok_def by code_simp+

lemma update_db_status_refused:
  "\<not> column_ok 1000 t \<Longrightarrow> update_db_status now filename status pages chunks by (Some t) (Some db) = Some db"
  by (simp add: update_db_status_def Let_def)

lemma update_db_status_spec:
  fixes db :: record_db
  assumes "update_db_status now filename status pages chunks by err (Some db) = Some db'"
    and fits: "recordable filename db" "column_ok 50 status" "case err of None \<Rightarrow> True | Some t \<Rightarrow> column_ok 1000 t"
  shows "(\<exists>r. find (named filename) (rc_rows db') = Some r \<and> do_status r = status \<and> do_pages r = pages \<and>
           do_chunks r = chunks \<and> do_by r = by \<and> do_error r = err) \<and>
     (\<forall>other. other \<noteq> filename \<longrightarrow> filter (named other) (rc_rows db') = filter (named other) (rc_rows db)) \<and>
     later_rows filename (rc_rows db') = later_rows filename (rc_rows db)"
proof -
  let ?f = "\<lambda>r. r\<lparr>do_status := status, do_pages := pages, do_chunks := chunks, do_by := by, do_error := err\<rparr>"
  have other: "filter (named other) (update_first (named filename) ?f rs) = filter (named other) rs"
    if "other \<noteq> filename" for other rs using that by (intro filter_update_first) auto
  show ?thesis
  proof (cases "find (named filename) (rc_rows db)")
    case None
    then have none: "\<forall>r\<in>set (rc_rows db). \<not> named filename r" by (simp add: find_None_iff)
    have name: "column_ok 500 filename" using fits(1) None by (simp add: recordable_def)
    let ?n = "new_record filename (asc ''pending'') 0 0 None (rc_next db) now"
    have "rc_rows db' = rc_rows db @ [?f ?n]"
      using assms None name
      by (auto simp: update_db_status_def insert_record_def update_first_append new_record_def Let_def simp del: asc_Cons)
    moreover have "find (named filename) (rc_rows db @ [?f ?n]) = Some (?f ?n)"
      using None by (simp add: find_append new_record_def)
    moreover have "later_rows filename (rc_rows db @ [?f ?n]) = [] \<and> later_rows filename (rc_rows db) = []"
      using later_rows_append_None [OF None] by (simp add: new_record_def)
    moreover have "\<forall>other. other \<noteq> filename \<longrightarrow> filter (named other) [?f ?n] = []" by (simp add: new_record_def)
    ultimately show ?thesis by (simp add: new_record_def del: asc_Cons)
  next
    case (Some r)
    then have "rc_rows db' = update_first (named filename) ?f (rc_rows db)"
      using assms by (auto simp: update_db_status_def Let_def)
    then show ?thesis using Some other by (simp add: find_update_first later_rows_update_first)
  qed
qed

section \<open>Facts about uploads\<close>

lemma announce_upsert_simps:
  "announce_upsert env now i source path w = (w', persisted, published) \<Longrightarrow>
   dw_kb w' = dw_kb w \<and> dw_redis w' = dw_redis w \<and> dw_records w' = dw_records w"
  by (auto simp: announce_upsert_def split: prod.splits bool.splits)

lemma announce_upsert_redis:
  "announce_upsert env now i source path (w\<lparr>dw_redis := s\<rparr>) =
   (case announce_upsert env now i source path w of (w', a, b) \<Rightarrow> (w'\<lparr>dw_redis := s\<rparr>, a, b))"
  by (auto simp: announce_upsert_def split: prod.splits bool.splits)

lemma announce_delete_simps:
  "announce_delete env now source w = (w', persisted, published) \<Longrightarrow>
   dw_kb w' = dw_kb w \<and> dw_redis w' = dw_redis w \<and> dw_records w' = dw_records w"
  by (auto simp: announce_delete_def split: prod.splits bool.splits)

lemma upload_body_redis:
  "upload_body env now filename u (w\<lparr>dw_redis := s\<rparr>) =
   map_option (\<lambda>(w', r). (w'\<lparr>dw_redis := s\<rparr>, r)) (upload_body env now filename u w)"
proof -
  have "announce_upsert env now i f p (w\<lparr>dw_redis := s, dw_kb := kb2, dw_records := rs\<rparr>) =
      (case announce_upsert env now i f p (w\<lparr>dw_kb := kb2, dw_records := rs\<rparr>) of (w', a, b) \<Rightarrow> (w'\<lparr>dw_redis := s\<rparr>, a, b))"
    for i f p kb2 rs
  proof -
    have "w\<lparr>dw_redis := s, dw_kb := kb2, dw_records := rs\<rparr> = w\<lparr>dw_kb := kb2, dw_records := rs\<rparr>\<lparr>dw_redis := s\<rparr>"
      by (cases w) simp
    then show ?thesis by (simp only: announce_upsert_redis)
  qed
  then show ?thesis
    by (auto simp: upload_body_def Let_def split: prod.splits option.splits sum.splits)
qed

lemma upload_body_kb:
  assumes up: "upload_body env now f u w = Some (w1, Inr j)" and save: "save_upload (de_kb env) f (dw_kb w) = (kb1, path)"
  shows "\<exists>rep. add_pdf (de_kb env) path f kb1 = Some (dw_kb w1, Inr rep)"
proof -
  obtain kb2 r where add: "add_pdf (de_kb env) path f kb1 = Some (kb2, r)"
    using up save by (auto simp: upload_body_def split: option.splits)
  obtain rep where r: "r = Inr rep" using up save add by (cases r) (auto simp: upload_body_def)
  obtain rs i a b where "announce_upsert env now i f path (w\<lparr>dw_kb := kb2, dw_records := rs\<rparr>) = (w1, a, b)"
    using up save add r by (auto simp: upload_body_def Let_def split: prod.splits option.splits)
  then have "dw_kb w1 = kb2" by (auto dest: announce_upsert_simps)
  then show ?thesis using add r by blast
qed

text \<open>C19: the upload route works under the lock of its file name. While the lock is held the
  request is refused with 409 and changes nothing; otherwise it does what the unlocked body does and
  gives the lock back whatever the outcome - success, a broken PDF or a failed embedding - leaving
  every other key of the server alone.\<close>

theorem upload_serialised:
  assumes rd: "redis_ok ops alpha" and pdf: "ends_with (py_lower filename) (asc ''.pdf'')"
    and run: "upload_document env (Some ops) now later filename u w = Some (w', r)"
  shows "if alive now (alpha (dw_redis w)) (lock_key (upload_resource filename)) \<noteq> None
    then r = Inl upload_busy \<and> w' = w\<lparr>dw_redis := dw_redis w'\<rparr> \<and> alpha (dw_redis w') = alpha (dw_redis w)
    else (\<exists>w1. upload_body env now filename u w = Some (w1, r) \<and> w' = w1\<lparr>dw_redis := dw_redis w'\<rparr>) \<and>
      alpha (dw_redis w') = (alpha (dw_redis w))(lock_key (upload_resource filename) := None)"
proof -
  let ?res = "upload_resource filename" and ?s0 = "dw_redis w"
  obtain s ok where acq: "acquire_lock ops now ?res 30 ?s0 = (s, ok)" by (cases "acquire_lock ops now ?res 30 ?s0")
  note lock = acquire_lock_ok [OF rd, of now ?res 30 ?s0, unfolded acq fst_conv snd_conv]
  show ?thesis
  proof (cases ok)
    case False
    then have "w' = w\<lparr>dw_redis := s\<rparr>" "r = Inl upload_busy"
      using run acq pdf by (simp_all add: upload_document_def del: asc_Cons)
    moreover have "alive now (alpha ?s0) (lock_key ?res) \<noteq> None \<and> alpha s = alpha ?s0"
      using lock False by (auto split: if_splits)
    ultimately show ?thesis by simp
  next
    case True
    then have "map_option (\<lambda>(w', r). (w'\<lparr>dw_redis := release_lock ops later ?res (dw_redis w')\<rparr>, r))
        (upload_body env now filename u (w\<lparr>dw_redis := s\<rparr>)) = Some (w', r)"
      using run acq pdf by (simp add: upload_document_def del: asc_Cons)
    then obtain w1 where body: "upload_body env now filename u w = Some (w1, r)"
      and w': "w' = w1\<lparr>dw_redis := release_lock ops later ?res s\<rparr>"
      by (auto simp: upload_body_redis)
    have "alpha s = (alpha ?s0)(lock_key ?res \<mapsto> ((asc ''1''), Some (now + 30)))"
      using lock True by (simp del: asc_Cons)
    then have "alpha (dw_redis w') = (alpha ?s0)(lock_key ?res := None)"
      using release_lock_ok [OF rd, of later ?res s] by (simp add: w')
    moreover have "w' = w1\<lparr>dw_redis := dw_redis w'\<rparr>" by (simp add: w')
    ultimately show ?thesis using body lock True by auto
  qed
qed

section \<open>Facts about the task\<close>

text \<open>
  What a task leaves in the records: the first record of its file tells the outcome, and all others
  are as before. A failure whose text the column does not take is not told: the record keeps the
  status of a running task.
\<close>

definition settled :: "pystr \<Rightarrow> int option \<Rightarrow> add_report result \<Rightarrow> record_db \<Rightarrow> record_db \<Rightarrow> bool" where
  "settled f u r db db' \<longleftrightarrow>
    (\<exists>row. find (named f) (rc_rows db') = Some row \<and>
      (case r of
         Inr rep \<Rightarrow> do_status row = (asc ''success'') \<and> do_pages row = int (ar_pages rep) \<and>
           do_chunks row = int (ar_chunks_added rep) \<and> do_by row = u \<and> do_error row = None
       | Inl e \<Rightarrow>
           if column_ok 1000 (exn_str e) then do_status row = (asc ''failed'') \<and> do_error row = Some (exn_str e) \<and> do_by row = None
           else do_status row = (asc ''processing'') \<and> do_error row = None \<and> do_by row = u)) \<and>
    (\<forall>other. other \<noteq> f \<longrightarrow> filter (named other) (rc_rows db') = filter (named other) (rc_rows db)) \<and>
    later_rows f (rc_rows db') = later_rows f (rc_rows db)"

lemma settled_trans: "settled f u r db db1 \<Longrightarrow> settled f u r' db1 db2 \<Longrightarrow> settled f u r' db db2"
  by (simp add: settled_def del: asc_Cons)

lemma settled_recordable: "settled f u r db db' \<Longrightarrow> recordable f db'"
  by (auto simp: settled_def recordable_def simp del: asc_Cons)

lemma process_pdf_attempt_spec:
  assumes env: "env_ok (de_kb env)" and db: "dw_records w = Some db" "recordable f db"
  shows "\<exists>w' r db'. process_pdf_attempt env now i path f u w = Some (w', r) \<and> dw_records w' = Some db' \<and>
    settled f u r db db'"
proof -
  obtain db1 where db1: "update_db_status now f (asc ''processing'') 0 0 u None (Some db) = Some db1"
    by (simp add: update_db_status_def Let_def)
  obtain kb1 r where add: "add_pdf (de_kb env) path f (dw_kb w) = Some (kb1, r)"
    using ingest_returns [OF env] unfolding add_pdf_def by blast
  note one = update_db_status_spec [OF db1 db(2) status_columns(1), unfolded option.case, OF TrueI]
  then have rec: "recordable f db1" using recordable_found by blast
  show ?thesis
  proof (cases r)
    case (Inl e)
    obtain db2 where db2: "update_db_status now f (asc ''failed'') 0 0 None (Some (exn_str e)) (Some db1) = Some db2"
      by (simp add: update_db_status_def Let_def)
    have "process_pdf_attempt env now i path f u w = Some (w\<lparr>dw_records := Some db1\<rparr>\<lparr>dw_kb := kb1, dw_records := Some db2\<rparr>, Inl e)"
      using add Inl by (simp add: process_pdf_attempt_def Let_def db db1 db2 del: asc_Cons)
    moreover have "settled f u (Inl e) db db2"
    proof (cases "column_ok 1000 (exn_str e)")
      case True
      then show ?thesis using one update_db_status_spec [OF db2 rec status_columns(2)]
        by (auto simp: settled_def simp del: asc_Cons)
    next
      case False
      then have "db2 = db1" using db2 by (simp add: update_db_status_refused)
      then show ?thesis using one False by (auto simp: settled_def simp del: asc_Cons)
    qed
    ultimately show ?thesis using Inl by auto
  next
    case (Inr rep)
    let ?w1 = "w\<lparr>dw_records := Some db1\<rparr>\<lparr>dw_kb := kb1\<rparr>"
    obtain w2 a b where ann: "announce_upsert env now i f path ?w1 = (w2, a, b)"
      by (cases "announce_upsert env now i f path ?w1")
    then have w2: "dw_records w2 = Some db1" using announce_upsert_simps [OF ann] by simp
    obtain db2 where db2: "update_db_status now f (asc ''success'') (int (ar_pages rep)) (int (ar_chunks_added rep)) u None (Some db1) = Some db2"
      by (simp add: update_db_status_def Let_def)
    have "process_pdf_attempt env now i path f u w = Some (w2\<lparr>dw_records := Some db2\<rparr>, Inr rep)"
      using add Inr ann by (simp add: process_pdf_attempt_def Let_def db db1 w2 db2 del: asc_Cons)
    then show ?thesis using one update_db_status_spec [OF db2 rec status_columns(3)] Inr
      by (auto simp: settled_def simp del: asc_Cons)
  qed
qed

text \<open>The attempts of a task: each goes on from the state the one before left, until one returns.\<close>

inductive attempts ::
  "(nat \<Rightarrow> ('v, 'q) doc_env) \<Rightarrow> (nat \<Rightarrow> int) \<Rightarrow> pystr \<Rightarrow> pystr \<Rightarrow> pystr \<Rightarrow> int option \<Rightarrow> nat \<Rightarrow>
   ('v, 'r, 'q) doc_world \<Rightarrow> exn list \<Rightarrow> ('v, 'r, 'q) doc_world \<Rightarrow> add_report result \<Rightarrow> bool"
  for envs clocks i path f u where
  last_attempt: "process_pdf_attempt (envs k) (clocks k) i path f u w = Some (w', r) \<Longrightarrow>
    attempts envs clocks i path f u k w [] w' r"
| next_attempt: "process_pdf_attempt (envs k) (clocks k) i path f u w = Some (w1, Inl e) \<Longrightarrow>
    attempts envs clocks i path f u (Suc k) w1 es w' r \<Longrightarrow> attempts envs clocks i path f u k w (e # es) w' r"

lemma process_pdf_task_attempts:
  assumes env: "\<And>k. env_ok (de_kb (envs k))"
  shows "dw_records w = Some db \<Longrightarrow> recordable f db \<Longrightarrow> k \<le> 3 \<Longrightarrow>
    \<exists>w' r db' es. process_pdf_task envs clocks i path f u k w = Some (w', r) \<and> dw_records w' = Some db' \<and>
      settled f u r db db' \<and> attempts envs clocks i path f u k w es w' r \<and> k + length es \<le> 3 \<and>
      (k + length es = 3 \<or> (\<exists>rep. r = Inr rep))"
proof (induction "3 - k" arbitrary: k w db)
  case 0
  obtain w' r db' where run: "process_pdf_attempt (envs k) (clocks k) i path f u w = Some (w', r)"
      "dw_records w' = Some db'" "settled f u r db db'"
    using process_pdf_attempt_spec [OF env "0.prems"(1,2), of k] by blast
  moreover from run(1) have "process_pdf_task envs clocks i path f u k w = Some (w', r)"
    using 0 by (cases r) (simp_all add: process_pdf_task.simps [of envs])
  moreover have "k = 3" using 0 by simp
  moreover have "attempts envs clocks i path f u k w [] w' r" by (rule last_attempt) (rule run(1))
  ultimately show ?case by fastforce
next
  case (Suc n)
  obtain w' r db' where run: "process_pdf_attempt (envs k) (clocks k) i path f u w = Some (w', r)"
    and db': "dw_records w' = Some db'" and set: "settled f u r db db'"
    using process_pdf_attempt_spec [OF env Suc.prems(1,2), of k] by blast
  show ?case
  proof (cases r)
    case (Inr rep)
    then have "process_pdf_task envs clocks i path f u k w = Some (w', r)"
      using run by (simp add: process_pdf_task.simps [of envs])
    moreover have "attempts envs clocks i path f u k w [] w' r" by (rule last_attempt) (rule run)
    ultimately show ?thesis using db' set Inr Suc.prems(3) by fastforce
  next
    case (Inl e)
    have k: "k < 3" "n = 3 - Suc k" using Suc.hyps(2) by simp_all
    then have same: "process_pdf_task envs clocks i path f u k w = process_pdf_task envs clocks i path f u (Suc k) w'"
      using run Inl by (simp add: process_pdf_task.simps [of envs clocks i path f u k])
    obtain w2 r2 db2 es where rest: "process_pdf_task envs clocks i path f u (Suc k) w' = Some (w2, r2)"
      "dw_records w2 = Some db2" "settled f u r2 db' db2" "attempts envs clocks i path f u (Suc k) w' es w2 r2"
      "Suc k + length es \<le> 3" "Suc k + length es = 3 \<or> (\<exists>rep. r2 = Inr rep)"
      using Suc.hyps(1) [OF k(2) db' settled_recordable [OF set]] k(1) by auto
    have "attempts envs clocks i path f u k w (e # es) w2 r2"
      using run Inl rest(4) by (intro next_attempt) auto
    then show ?thesis using same rest settled_trans [OF set rest(3)]
      by (intro exI [of _ w2] exI [of _ r2] exI [of _ db2] exI [of _ "e # es"]) simp
  qed
qed

lemma process_pdf_task_settled:
  assumes env: "\<And>k. env_ok (de_kb (envs k))" and db: "dw_records w = Some db" "recordable f db"
  shows "\<exists>w' r db'. process_pdf_task envs clocks i path f u 0 w = Some (w', r) \<and> dw_records w' = Some db' \<and>
    settled f u r db db'"
  using process_pdf_task_attempts [of envs w db f 0 clocks i path u, OF env db] by auto

text \<open>C18: for a file name of at most 500 characters the task ends after at most four attempts
  (the list \<open>es\<close> holds the exceptions of those before the last): it stops at the first that succeeds, and
  raises only after the fourth. The first record of the file then tells the outcome: "success" with
  the pages and chunks of the report, or "failed" with the text of the last exception (and the
  uploader erased). But when that text has more than 1000 characters the write of the failure is lost
  and the record still says "processing". Every other record is untouched.\<close>

theorem process_pdf_task_settles:
  assumes "\<And>k. env_ok (de_kb (envs k))" "dw_records w = Some db" "column_ok 500 f"
  shows "\<exists>w' r db' es. process_pdf_task envs clocks i path f u 0 w = Some (w', r) \<and>
    attempts envs clocks i path f u 0 w es w' r \<and> length es \<le> 3 \<and> (length es = 3 \<or> (\<exists>rep. r = Inr rep)) \<and>
    dw_records w' = Some db' \<and> settled f u r db db'"
  using process_pdf_task_attempts [of envs w db f 0 clocks i path u, OF assms(1,2)] assms(3)
  by (auto simp: recordable_def)

lemma later_rows_new: "find (named f) rs \<noteq> None \<Longrightarrow> named f r \<Longrightarrow> r \<in> set (later_rows f (rs @ [r]))"
  by (induction rs) auto

lemma later_rows_subset: "set (later_rows f rs) \<subseteq> {r \<in> set rs. named f r}"
  by (induction rs) auto

text \<open>The task looks its record up by the file name and not by the record the
  request inserted. When the name was uploaded before, the new record is never settled: whatever the
  task does, it keeps its status "pending" for ever.\<close>

theorem reupload_stays_pending:
  assumes env: "\<And>k. env_ok (de_kb (envs k))" and db: "dw_records w = Some db"
    and old: "find (named f) (rc_rows db) \<noteq> None"
    and up: "upload_document_async env now f u w = Some (w1, Inr j)" "de_dispatch env (snd (save_upload (de_kb env) f (dw_kb w))) f (map_option u_id u) = Inr i"
    and task: "process_pdf_task envs clocks i path f u' 0 w1 = Some (w2, r)"
  shows "\<exists>db2. dw_records w2 = Some db2 \<and>
    (\<exists>row\<in>set (rc_rows db2). do_id row = rc_next db \<and> named f row \<and> do_status row = (asc ''pending''))"
proof -
  let ?row = "new_record f (asc ''pending'') 0 0 (map_option u_id u) (rc_next db) now"
  obtain db1 where db1: "dw_records w1 = Some db1" "rc_rows db1 = rc_rows db @ [?row]"
    using up by (auto simp: upload_document_async_def db insert_record_def Let_def split: if_splits prod.splits simp del: asc_Cons)
  obtain db2 where db2: "dw_records w2 = Some db2" "settled f u' r db1 db2"
    using process_pdf_task_settled [of envs w1 db1 f clocks i path u', OF env db1(1)] task old db1(2)
    by (auto simp: recordable_def find_append split: option.splits)
  have "?row \<in> set (later_rows f (rc_rows db1))"
    using later_rows_new [OF old, of ?row] db1(2) by (simp add: new_record_def del: asc_Cons)
  then have "?row \<in> set (rc_rows db2)"
    using db2(2) later_rows_subset [of f "rc_rows db2"] by (auto simp: settled_def simp del: asc_Cons)
  then show ?thesis using db2(1) by (intro exI [of _ db2] conjI bexI [of _ ?row]) (simp_all add: new_record_def)
qed

lemma process_pdf_attempt_kb:
  assumes "process_pdf_attempt env now i path f u w = Some (w', r)"
  shows "add_pdf (de_kb env) path f (dw_kb w) = Some (dw_kb w', r)"
  using assms announce_upsert_simps
  by (fastforce simp: process_pdf_attempt_def Let_def split: option.splits prod.splits sum.splits)

lemma process_pdf_attempt_returns:
  assumes "add_pdf (de_kb env) path f (dw_kb w) = Some (kb', r)"
  obtains w' where "process_pdf_attempt env now i path f u w = Some (w', r)" "dw_kb w' = kb'"
proof -
  have "\<exists>w'. process_pdf_attempt env now i path f u w = Some (w', r)"
    using assms by (auto simp: process_pdf_attempt_def Let_def split: sum.splits prod.splits)
  then obtain w' where "process_pdf_attempt env now i path f u w = Some (w', r)" by blast
  with process_pdf_attempt_kb [OF this] assms show thesis by (intro that) auto
qed

lemma add_pdf_total_embedding:
  assumes "ke_pdf env path = Inr pages" "chunks_from_reader (ke_cfg env) (ke_uuid env) f pages (kb_next st) = Some (n, new)"
    and emb: "\<And>ts. \<exists>vs. ke_embed env ts = Inr vs"
  shows "\<exists>st' rep. add_pdf env path f st = Some (st', Inr rep) \<and> ar_chunks_added rep = length new"
proof -
  obtain vs where "ke_embed env (map c_content (kb_chunks st @ new)) = Inr vs" using emb by blast
  then show ?thesis
    using assms(1,2) by (simp add: add_pdf_def ingest_pdf_def commit_def rebuild_index_def save_chunks_def)
qed

text \<open>The task is not safe to retry. When the embedding fails in the first attempt
  and works in the second, the task succeeds and its record says so, with the chunk count of one
  copy, but the knowledge base holds every chunk of the document twice.\<close>

theorem task_retry_duplicates:
  assumes env: "\<And>k. env_ok (de_kb (envs k))" and db: "dw_records w = Some db" "column_ok 500 f"
    and pdf: "ke_pdf (de_kb (envs 0)) path = Inr pages"
      "chunks_from_reader (ke_cfg (de_kb (envs 0))) (ke_uuid (de_kb (envs 0))) f pages (kb_next (dw_kb w)) = Some (n, new)" "new \<noteq> []"
    and fails: "ke_embed (de_kb (envs 0)) (map c_content (kb_chunks (dw_kb w) @ new)) = Inl e"
    and again: "de_kb (envs 1) = (de_kb (envs 0))\<lparr>ke_embed := emb\<rparr>" "\<And>ts. \<exists>vs. emb ts = Inr vs"
  shows "\<exists>w' rep db' row. process_pdf_task envs clocks i path f u 0 w = Some (w', Inr rep) \<and>
    map strip_ids (kb_chunks (dw_kb w')) = map strip_ids (kb_chunks (dw_kb w)) @ map strip_ids new @ map strip_ids new \<and>
    dw_records w' = Some db' \<and> find (named f) (rc_rows db') = Some row \<and>
    do_status row = (asc ''success'') \<and> do_chunks row = int (length new)"
proof -
  let ?e0 = "de_kb (envs 0)" and ?st = "dw_kb w"
  obtain st1 r1 where add1: "add_pdf ?e0 path f ?st = Some (st1, r1)"
    using ingest_returns [OF env] unfolding add_pdf_def by blast
  have st1: "kb_chunks st1 = kb_chunks ?st @ new" "r1 = Inl e" "kb_next st1 = n"
    using add1 pdf fails commit_fails [of "kb_chunks ?st @ new" ?e0 e "?st\<lparr>kb_next := n\<rparr>"]
    by (auto simp: add_pdf_def ingest_pdf_def)
  obtain w1 where w1: "process_pdf_attempt (envs 0) (clocks 0) i path f u w = Some (w1, Inl e)" "dw_kb w1 = st1"
    by (rule process_pdf_attempt_returns [OF add1 [unfolded st1(2)]])
  obtain m new' where new': "chunks_from_reader (ke_cfg ?e0) (ke_uuid ?e0) f pages n = Some (m, new')"
    using chunks_from_reader_inv [of "ke_cfg ?e0" "ke_uuid ?e0" f pages n] env [of 0] by (auto simp: env_ok_def)
  obtain st2 rep where add2: "add_pdf (de_kb (envs 1)) path f (dw_kb w1) = Some (st2, Inr rep)" "ar_chunks_added rep = length new'"
    using add_pdf_total_embedding [of "de_kb (envs 1)" path pages f "dw_kb w1" m new'] pdf(1) new' again st1(3) w1(2) by auto
  obtain w2 where w2: "process_pdf_attempt (envs 1) (clocks 1) i path f u w1 = Some (w2, Inr rep)" "dw_kb w2 = st2"
    by (rule process_pdf_attempt_returns [OF add2(1)])
  have task: "process_pdf_task envs clocks i path f u 0 w = Some (w2, Inr rep)"
    using w1(1) w2(1) by (simp add: process_pdf_task.simps [of envs clocks i path f u 0]
        process_pdf_task.simps [of envs clocks i path f u "Suc 0"])
  have strip: "map strip_ids new' = map strip_ids new" by (rule reader_strip [OF new' pdf(2)])
  have "kb_chunks st2 = kb_chunks st1 @ new'"
    using add2(1) unfolding add_pdf_def
  proof (cases rule: ingest_cases)
    case (committed pages' m' new'' u')
    then show ?thesis using commit_state [OF committed(3)] new' pdf(1) again(1) w1(2) st1(3) by simp
  qed simp
  then have "map strip_ids (kb_chunks (dw_kb w2)) = map strip_ids (kb_chunks ?st) @ map strip_ids new @ map strip_ids new"
    using strip st1(1) w2(2) by simp
  moreover obtain db' where "dw_records w2 = Some db'" "settled f u (Inr rep) db db'"
    using process_pdf_task_settled [of envs w db f clocks i path u, OF env db(1)] task db(2) by (auto simp: recordable_def)
  moreover have "length new' = length new" using strip by (metis length_map)
  ultimately show ?thesis using task add2(2) by (auto simp: settled_def simp del: asc_Cons)
qed

section \<open>The state stays well formed\<close>

text \<open>A request or a task, and its effect on the state; the environment and the clock may change between attempts.\<close>

datatype doc_request =
    Do_upload pystr
  | Do_async pystr
  | Do_task pystr pystr pystr "int option"
  | Do_delete pystr
  | Do_clear
  | Do_reindex
  | Do_cleanup int

fun doc_exec ::
  "(nat \<Rightarrow> ('v, 'q) doc_env) \<Rightarrow> (nat \<Rightarrow> int) \<Rightarrow> 'r redis option \<Rightarrow> user option \<Rightarrow> doc_request \<Rightarrow>
   ('v, 'r, 'q) doc_world \<Rightarrow> ('v, 'r, 'q) doc_world option" where
  "doc_exec envs clocks rd u (Do_upload f) w = map_option fst (upload_document (envs 0) rd (clocks 0) (clocks 1) f u w)"
| "doc_exec envs clocks rd u (Do_async f) w = map_option fst (upload_document_async (envs 0) (clocks 0) f u w)"
| "doc_exec envs clocks rd u (Do_task i path f by) w = map_option fst (process_pdf_task envs clocks i path f by 0 w)"
| "doc_exec envs clocks rd u (Do_delete source) w = Some (fst (delete_document (envs 0) (clocks 0) source w))"
| "doc_exec envs clocks rd u Do_clear w = Some (fst (clear_documents (envs 0) u w))"
| "doc_exec envs clocks rd u Do_reindex w = map_option fst (reindex_documents (envs 0) w)"
| "doc_exec envs clocks rd u (Do_cleanup days) w =
     Some (w\<lparr>dw_records := fst (cleanup_old_tasks (clocks 0) days (dw_records w))\<rparr>)"

definition doc_wf :: "(nat \<Rightarrow> pystr) \<Rightarrow> ('v, 'r, 'q) doc_world \<Rightarrow> bool" where
  "doc_wf uu w \<longleftrightarrow> chunks_wf uu (kb_next (dw_kb w)) (kb_chunks (dw_kb w)) \<and>
     (case dw_records w of None \<Rightarrow> True | Some db \<Rightarrow> records_ok db)"

lemma save_upload_wf: "save_upload env f st = (st', name) \<Longrightarrow> chunks_wf uu (kb_next st) (kb_chunks st) \<Longrightarrow>
    chunks_wf uu (kb_next st') (kb_chunks st')"
  by (auto simp: save_upload_def Let_def intro: chunks_wf_mono)

lemma add_pdf_wf:
  assumes "env_ok env" "ke_uuid env = uu" "add_pdf env path f st = Some (st', r)" "chunks_wf uu (kb_next st) (kb_chunks st)"
  shows "chunks_wf uu (kb_next st') (kb_chunks st')"
  using ingest_wf [OF assms(1), of st _ path f st' r] assms(2-4) unfolding add_pdf_def kb_wf_def by blast

lemma update_db_status_ok: "records_ok db \<Longrightarrow> update_db_status now f st p c by err (Some db) = Some db' \<Longrightarrow> records_ok db'"
proof -
  assume ok: "records_ok db" and run: "update_db_status now f st p c by err (Some db) = Some db'"
  define db1 where "db1 = (if find (named f) (rc_rows db) = None
      then fst (insert_record now (new_record f (asc ''pending'') 0 0 None) db) else db)"
  have ok1: "records_ok db1"
    using insert_record_ok [OF ok, of "new_record f (asc ''pending'') 0 0 None" now] ok by (simp add: db1_def new_record_def)
  let ?f = "\<lambda>r. r\<lparr>do_status := st, do_pages := p, do_chunks := c, do_by := by, do_error := err\<rparr>"
  consider "db' = db" | "db' = db1\<lparr>rc_rows := update_first (named f) ?f (rc_rows db1)\<rparr>"
    using run by (auto simp: update_db_status_def db1_def Let_def simp del: asc_Cons split: if_splits)
  then show ?thesis
  proof cases
    case db': 2
    have ids: "map do_id (update_first (named f) ?f (rc_rows db1)) = map do_id (rc_rows db1)"
      by (rule update_first_map) simp
    have "do_id ` set (update_first (named f) ?f (rc_rows db1)) = do_id ` set (rc_rows db1)"
      using arg_cong [OF ids, of set] by simp
    then have "\<forall>r\<in>set (update_first (named f) ?f (rc_rows db1)). do_id r < rc_next db1"
      using ok1 unfolding records_ok_def by (metis (no_types, lifting) image_iff)
    then show ?thesis using ok1 ids by (simp add: records_ok_def db')
  qed (simp add: ok)
qed

lemma update_db_status_wf:
  "(case rs of None \<Rightarrow> True | Some db \<Rightarrow> records_ok db) \<Longrightarrow>
   (case update_db_status now f st p c by err rs of None \<Rightarrow> True | Some db \<Rightarrow> records_ok db)"
  using update_db_status_ok by (cases rs) (auto simp: update_db_status_def)

lemma attempt_wf:
  assumes env: "env_ok (de_kb env)" "ke_uuid (de_kb env) = uu"
    and run: "process_pdf_attempt env now i path f by w = Some (w', r)" and wf: "doc_wf uu w"
  shows "doc_wf uu w'"
proof -
  have kb: "chunks_wf uu (kb_next (dw_kb w')) (kb_chunks (dw_kb w'))"
    using add_pdf_wf [OF env process_pdf_attempt_kb [OF run]] wf by (simp add: doc_wf_def)
  have "case dw_records w' of None \<Rightarrow> True | Some db \<Rightarrow> records_ok db"
  proof -
    let ?r1 = "update_db_status now f (asc ''processing'') 0 0 by None (dw_records w)"
    have one: "case ?r1 of None \<Rightarrow> True | Some db \<Rightarrow> records_ok db"
      using wf by (intro update_db_status_wf) (simp add: doc_wf_def)
    obtain st pg c b err where "dw_records w' = update_db_status now f st pg c b err ?r1"
      using run announce_upsert_simps
      by (fastforce simp: process_pdf_attempt_def Let_def split: option.splits prod.splits sum.splits simp del: asc_Cons)
    then show ?thesis using update_db_status_wf [OF one] by simp
  qed
  with kb show ?thesis by (simp add: doc_wf_def)
qed

lemma task_wf:
  assumes env: "\<And>k. env_ok (de_kb (envs k))" "\<And>k. ke_uuid (de_kb (envs k)) = uu"
  shows "doc_wf uu w \<Longrightarrow> \<exists>w' r. process_pdf_task envs clocks i path f by k w = Some (w', r) \<and> doc_wf uu w'"
proof (induction "3 - k" arbitrary: k w rule: less_induct)
  case less
  obtain kb' r where "add_pdf (de_kb (envs k)) path f (dw_kb w) = Some (kb', r)"
    using ingest_returns [OF env(1)] unfolding add_pdf_def by blast
  then obtain w1 where run: "process_pdf_attempt (envs k) (clocks k) i path f by w = Some (w1, r)"
    by (rule process_pdf_attempt_returns)
  then have wf1: "doc_wf uu w1" by (rule attempt_wf [OF env(1) env(2) _ less.prems])
  show ?case
  proof (cases "\<exists>e. r = Inl e \<and> k < 3")
    case True
    then have "process_pdf_task envs clocks i path f by k w = process_pdf_task envs clocks i path f by (k + 1) w1"
      using run by (auto simp: process_pdf_task.simps [of envs clocks i path f "by" k])
    then show ?thesis using less.hyps [of "k + 1" w1] True wf1 by auto
  next
    case False
    then have "process_pdf_task envs clocks i path f by k w = Some (w1, r)"
      using run by (cases r) (simp_all add: process_pdf_task.simps [of envs clocks i path f "by" k])
    then show ?thesis using wf1 by blast
  qed
qed

lemma insert_new_record_ok: "records_ok db \<Longrightarrow> records_ok (fst (insert_record now (new_record f st p c by) db))"
  by (rule insert_record_ok) (simp_all add: new_record_def)

lemma upload_body_wf:
  assumes env: "env_ok (de_kb env)" "ke_uuid (de_kb env) = uu" and wf: "doc_wf uu w"
  shows "\<exists>w' r. upload_body env now f u w = Some (w', r) \<and> doc_wf uu w'"
proof -
  obtain kb1 name where save: "save_upload (de_kb env) f (dw_kb w) = (kb1, name)"
    by (cases "save_upload (de_kb env) f (dw_kb w)")
  obtain kb2 r where add: "add_pdf (de_kb env) name f kb1 = Some (kb2, r)"
    using ingest_returns [OF env(1)] unfolding add_pdf_def by blast
  have kb2: "chunks_wf uu (kb_next kb2) (kb_chunks kb2)"
    using add_pdf_wf [OF env add save_upload_wf [OF save]] wf by (simp add: doc_wf_def)
  show ?thesis
  proof (cases r)
    case (Inl e)
    then show ?thesis using save add kb2 wf by (simp add: upload_body_def doc_wf_def)
  next
    case (Inr rep)
    obtain rs i where rec: "(case dw_records w of
                     None \<Rightarrow> (None, f)
                   | Some db \<Rightarrow>
                       let (db', i) = insert_record now (new_record f (asc ''success'') (int (ar_pages rep))
                              (int (ar_chunks_added rep)) (map_option u_id u)) db
                       in (Some db', show_int i)) = (rs, i)" by (rule prod.exhaust)
    have rs: "case rs of None \<Rightarrow> True | Some db \<Rightarrow> records_ok db"
    proof (cases "dw_records w")
      case (Some db)
      then have "rs = Some (fst (insert_record now (new_record f (asc ''success'') (int (ar_pages rep))
          (int (ar_chunks_added rep)) (map_option u_id u)) db))" using rec by (auto simp: split_def Let_def simp del: asc_Cons)
      then show ?thesis using Some wf insert_new_record_ok by (simp add: doc_wf_def del: asc_Cons)
    qed (use rec in simp)
    obtain w' a b where ann: "announce_upsert env now i f name (w\<lparr>dw_kb := kb2, dw_records := rs\<rparr>) = (w', a, b)"
      by (rule prod_cases3)
    have "dw_kb w' = kb2 \<and> dw_records w' = rs" using announce_upsert_simps [OF ann] by simp
    moreover have "\<exists>r. upload_body env now f u w = Some (w', r)"
      using save add Inr rec ann by (simp add: upload_body_def del: asc_Cons)
    ultimately show ?thesis using kb2 rs by (auto simp: doc_wf_def)
  qed
qed

lemma doc_wf_redis: "doc_wf uu (w\<lparr>dw_redis := s\<rparr>) \<longleftrightarrow> doc_wf uu w"
  by (simp add: doc_wf_def)

lemma upload_wf:
  assumes env: "env_ok (de_kb env)" "ke_uuid (de_kb env) = uu" and wf: "doc_wf uu w"
  shows "\<exists>w' r. upload_document env rd now later f u w = Some (w', r) \<and> doc_wf uu w'"
proof -
  have body: "\<exists>w' r. upload_body env now f u w = Some (w', r) \<and> doc_wf uu w'" if "doc_wf uu w" for w
    by (rule upload_body_wf [OF env that])
  show ?thesis
  proof (cases "ends_with (py_lower f) (asc ''.pdf'') \<and> rd \<noteq> None")
    case True
    then obtain ops where ops: "rd = Some ops" by blast
    obtain s ok where acq: "acquire_lock ops now (upload_resource f) 30 (dw_redis w) = (s, ok)" by (rule prod.exhaust)
    obtain w1 r where "upload_body env now f u (w\<lparr>dw_redis := s\<rparr>) = Some (w1, r)" "doc_wf uu w1"
      using body [of "w\<lparr>dw_redis := s\<rparr>"] wf by (auto simp: doc_wf_redis)
    then show ?thesis using True ops acq wf
      by (cases ok) (simp_all add: upload_document_def doc_wf_redis del: asc_Cons)
  next
    case False
    then show ?thesis using body [OF wf] wf by (auto simp: upload_document_def simp del: asc_Cons)
  qed
qed

lemma async_wf:
  assumes env: "env_ok (de_kb env)" "ke_uuid (de_kb env) = uu" and wf: "doc_wf uu w"
  shows "\<exists>w' r. upload_document_async env now f u w = Some (w', r) \<and> doc_wf uu w'"
proof -
  obtain kb1 name where save: "save_upload (de_kb env) f (dw_kb w) = (kb1, name)"
    by (cases "save_upload (de_kb env) f (dw_kb w)")
  have kb1: "chunks_wf uu (kb_next kb1) (kb_chunks kb1)" using save_upload_wf [OF save] wf by (simp add: doc_wf_def)
  obtain kb2 r where add: "add_pdf (de_kb env) name f kb1 = Some (kb2, r)"
    using ingest_returns [OF env(1)] unfolding add_pdf_def by blast
  have kb2: "chunks_wf uu (kb_next kb2) (kb_chunks kb2)" by (rule add_pdf_wf [OF env add kb1])
  let ?rs = "map_option (\<lambda>db. fst (insert_record now (new_record f (asc ''pending'') 0 0 (map_option u_id u)) db)) (dw_records w)"
  have rs: "case ?rs of None \<Rightarrow> True | Some db \<Rightarrow> records_ok db"
    using wf insert_new_record_ok by (cases "dw_records w") (simp_all add: doc_wf_def del: asc_Cons)
  show ?thesis
    using save add kb1 kb2 rs wf
    by (auto simp: upload_document_async_def Let_def doc_wf_def simp del: asc_Cons split: sum.split)
qed

lemma read_uploads_returns: "env_ok env \<Longrightarrow> \<exists>r. read_uploads env names acc = Some r"
proof (induction env names acc rule: read_uploads.induct)
  case (2 env name names acc)
  show ?case
  proof (cases "ke_pdf env name")
    case (Inr pages)
    obtain n new where run: "chunks_from_reader (ke_cfg env) (ke_uuid env) (display_source_name name) pages (rb_next acc) = Some (n, new)"
      using chunks_from_reader_inv [of "ke_cfg env" "ke_uuid env" "display_source_name name" pages "rb_next acc"] "2.prems"
      by (auto simp: env_ok_def)
    then show ?thesis using "2.IH" [OF refl Inr run refl "2.prems"] Inr by (simp add: Let_def)
  qed (simp add: Let_def)
qed simp

lemma reindex_wf:
  assumes env: "env_ok (de_kb env)" "ke_uuid (de_kb env) = uu" and wf: "doc_wf uu w"
  shows "\<exists>w' r. reindex_documents env w = Some (w', r) \<and> doc_wf uu w'"
proof -
  obtain res where "read_uploads (de_kb env) (pdf_uploads (dw_kb w))
      \<lparr>rb_sources = [], rb_pages = 0, rb_chunks = [], rb_next = kb_next (dw_kb w)\<rparr> = Some res"
    using read_uploads_returns [OF env(1)] by blast
  then have "\<exists>x. rebuild_from_uploads (de_kb env) (dw_kb w) = Some x"
    by (cases res) (simp_all add: rebuild_from_uploads_def split: prod.split)
  then obtain kb1 r where run: "rebuild_from_uploads (de_kb env) (dw_kb w) = Some (kb1, r)" by auto
  then have "chunks_wf uu (kb_next kb1) (kb_chunks kb1)"
    using rebuild_wf [OF env(1) run] wf env(2) by (simp add: kb_wf_def doc_wf_def)
  then show ?thesis using run wf by (simp add: reindex_documents_def doc_wf_def)
qed

text \<open>Every document request and task returns, and keeps the state well formed - the
  chunk identifiers drawn once and the children of a parent agreeing, the record identifiers unique -
  whatever the user, the environment of each attempt and the outcome.\<close>

theorem documents_stay_wf:
  assumes env: "\<And>k. env_ok (de_kb (envs k))" "\<And>k. ke_uuid (de_kb (envs k)) = uu" and wf: "doc_wf uu w"
  shows "\<exists>w'. doc_exec envs clocks rd u req w = Some w' \<and> doc_wf uu w'"
proof (cases req)
  case (Do_upload f)
  then show ?thesis using upload_wf [OF env(1,2) wf] by fastforce
next
  case (Do_async f)
  then show ?thesis using async_wf [OF env(1,2) wf] by fastforce
next
  case (Do_task i path f b)
  then show ?thesis using task_wf [of envs, OF env wf, of clocks i path f b 0] by auto
next
  case (Do_delete source)
  obtain kb1 r where run: "delete_source (de_kb (envs 0)) source (dw_kb w) = (kb1, r)" by (rule prod.exhaust)
  have kb1: "chunks_wf uu (kb_next kb1) (kb_chunks kb1)"
    using delete_wf [OF run] wf env(2) by (simp add: kb_wf_def doc_wf_def)
  obtain w' a b where ann: "announce_delete (envs 0) (clocks 0) source (w\<lparr>dw_kb := kb1\<rparr>) = (w', a, b)" by (rule prod_cases3)
  then have "dw_kb w' = kb1 \<and> dw_records w' = dw_records w" using announce_delete_simps [OF ann] by simp
  then show ?thesis using Do_delete run ann kb1 wf
    by (cases r) (auto simp: delete_document_def doc_wf_def simp del: asc_Cons)
next
  case Do_clear
  obtain kb1 r where run: "clear (de_kb (envs 0)) (dw_kb w) = (kb1, r)" by (rule prod.exhaust)
  then have "chunks_wf uu (kb_next kb1) (kb_chunks kb1)"
    using commit_state [OF run [unfolded clear_def]] by (simp add: chunks_wf_def siblings_agree_def)
  then show ?thesis using Do_clear run wf
    by (cases "require_admin u") (simp_all add: clear_documents_def doc_wf_def)
next
  case Do_reindex
  then show ?thesis using reindex_wf [OF env(1,2) wf] by fastforce
next
  case (Do_cleanup days)
  have "records_ok db \<Longrightarrow> records_ok (db\<lparr>rc_rows := filter p (rc_rows db)\<rparr>)" for db p
    by (auto simp: records_ok_def distinct_map_filter)
  then show ?thesis using Do_cleanup wf
    by (auto simp: doc_wf_def cleanup_old_tasks_def Let_def split: option.splits)
qed

section \<open>Instances\<close>

text \<open>A broker that keeps what it is sent, with the change-data table switched off.\<close>

definition demo_docs :: "(pystr, json list) doc_env" where
  "demo_docs = \<lparr>de_kb = demo_env, de_cdc_enabled = False, de_cdc_url = [], de_cdc_up = False,
     de_kafka_servers = (asc ''kafka:9092''), de_kafka_send = (\<lambda>k ev q. (q @ [ev], Inr ())),
     de_dispatch = (\<lambda>p f u. Inr (asc ''t1''))\<rparr>"

definition demo_row :: doc_record where
  "demo_row = new_record (asc ''a.pdf'') (asc ''success'') 1 1 None 1 0"

definition demo_docs_world :: "(pystr, server, json list) doc_world" where
  "demo_docs_world = \<lparr>dw_kb = demo_kb, dw_redis = Map.empty, dw_records = Some \<lparr>rc_rows = [demo_row], rc_next = 2\<rparr>,
     dw_cdc = [], dw_broker = []\<rparr>"

lemma demo_docs_env: "env_ok (de_kb demo_docs)" "ke_uuid (de_kb demo_docs) = show_nat"
  by (simp_all add: demo_docs_def demo_env_ok) (simp add: demo_env_def)

lemma demo_docs_wf: "doc_wf show_nat demo_docs_world"
  using demo_kb_wf by (simp add: doc_wf_def demo_docs_world_def kb_wf_def records_ok_def demo_row_def new_record_def
      demo_env_def del: asc_Cons)

theorem upload_serialised_witness:
  "\<exists>w' r. upload_document demo_docs (Some spec_redis) 10 20 (asc ''a.PDF'') None demo_docs_world = Some (w', r) \<and>
     dw_redis w' = Map.empty"
proof -
  have pdf: "ends_with (py_lower (asc ''a.PDF'')) (asc ''.pdf'')" by code_simp
  obtain w' r where run: "upload_document demo_docs (Some spec_redis) 10 20 (asc ''a.PDF'') None demo_docs_world = Some (w', r)"
    using upload_wf [OF demo_docs_env demo_docs_wf] by blast
  have "dw_redis demo_docs_world = Map.empty" by (simp add: demo_docs_world_def)
  then show ?thesis using upload_serialised [OF spec_redis_ok pdf run] run
    by (auto simp: alive_def fun_upd_idem simp del: asc_Cons)
qed

lemma demo_column: "column_ok 500 (asc ''a.pdf'')"
  unfolding column_ok_def by code_simp

theorem process_pdf_task_settles_witness:
  "\<exists>w' r db' es. process_pdf_task (\<lambda>_. demo_docs) (\<lambda>_. 5) (asc ''t1'') (asc ''p'') (asc ''a.pdf'') None 0 demo_docs_world = Some (w', r) \<and>
     length es \<le> 3 \<and> attempts (\<lambda>_. demo_docs) (\<lambda>_. 5) (asc ''t1'') (asc ''p'') (asc ''a.pdf'') None 0 demo_docs_world es w' r \<and>
     dw_records w' = Some db' \<and> settled (asc ''a.pdf'') None r \<lparr>rc_rows = [demo_row], rc_next = 2\<rparr> db'"
  using process_pdf_task_settles [of "\<lambda>_. demo_docs" demo_docs_world "\<lparr>rc_rows = [demo_row], rc_next = 2\<rparr>" "(asc ''a.pdf'')"
      "\<lambda>_. 5" "(asc ''t1'')" "(asc ''p'')" None, OF demo_docs_env(1) _ demo_column]
  by (simp add: demo_docs_world_def del: asc_Cons) blast

theorem reupload_stays_pending_witness:
  "\<exists>w1 j w2 r db2. upload_document_async demo_docs 3 (asc ''a.pdf'') None demo_docs_world = Some (w1, Inr j) \<and>
     process_pdf_task (\<lambda>_. demo_docs) (\<lambda>_. 5) (asc ''t1'') (asc ''p'') (asc ''a.pdf'') None 0 w1 = Some (w2, r) \<and>
     dw_records w2 = Some db2 \<and> (\<exists>row\<in>set (rc_rows db2). do_id row = 2 \<and> do_status row = (asc ''pending''))"
proof -
  have pdf: "ends_with (py_lower (asc ''a.pdf'')) (asc ''.pdf'')" by code_simp
  have disp: "de_dispatch demo_docs (snd (save_upload (de_kb demo_docs) (asc ''a.pdf'') (dw_kb demo_docs_world))) (asc ''a.pdf'')
      (map_option u_id None) = Inr (asc ''t1'')"
    by (simp add: demo_docs_def del: asc_Cons)
  obtain w1 j where up: "upload_document_async demo_docs 3 (asc ''a.pdf'') None demo_docs_world = Some (w1, Inr j)"
  proof -
    obtain kb1 path where save: "save_upload (de_kb demo_docs) (asc ''a.pdf'') (dw_kb demo_docs_world) = (kb1, path)" by (rule prod.exhaust)
    have "\<exists>w1 j. upload_document_async demo_docs 3 (asc ''a.pdf'') None demo_docs_world = Some (w1, Inr j)"
      using disp pdf unfolding save by (simp add: upload_document_async_def save Let_def del: asc_Cons)
    then show thesis using that by blast
  qed
  have db: "dw_records demo_docs_world = Some \<lparr>rc_rows = [demo_row], rc_next = 2\<rparr>" by (simp add: demo_docs_world_def)
  have old: "find (named (asc ''a.pdf'')) (rc_rows \<lparr>rc_rows = [demo_row], rc_next = 2\<rparr>) \<noteq> None"
    by (simp add: demo_row_def new_record_def)
  have "doc_wf show_nat w1" using async_wf [OF demo_docs_env demo_docs_wf, of 3 "(asc ''a.pdf'')" None] up by auto
  then obtain w2 r where task: "process_pdf_task (\<lambda>_. demo_docs) (\<lambda>_. 5) (asc ''t1'') (asc ''p'') (asc ''a.pdf'') None 0 w1 = Some (w2, r)"
    using task_wf [of "\<lambda>_. demo_docs" show_nat w1 "\<lambda>_. 5" "(asc ''t1'')" "(asc ''p'')" "(asc ''a.pdf'')" None 0] demo_docs_env by auto
  show ?thesis
    using reupload_stays_pending [of "\<lambda>_. demo_docs", OF demo_docs_env(1) db old up disp task] up task
    by (fastforce simp del: asc_Cons)
qed

theorem task_retry_duplicates_witness:
  "\<exists>w' rep. process_pdf_task
       (\<lambda>k :: nat. if k = 0 then demo_docs\<lparr>de_kb := demo_env\<lparr>ke_embed := (\<lambda>ts. Inl (OtherError (asc ''timeout'')))\<rparr>\<rparr> else demo_docs)
       (\<lambda>_. 5) (asc ''t1'') (asc ''p'') (asc ''a.pdf'') None 0 demo_docs_world = Some (w', Inr rep) \<and>
     length (kb_chunks (dw_kb w')) = 2"
proof -
  let ?envs = "\<lambda>k :: nat. if k = 0 then demo_docs\<lparr>de_kb := demo_env\<lparr>ke_embed := (\<lambda>ts. Inl (OtherError (asc ''timeout'')))\<rparr>\<rparr> else demo_docs"
  have env: "env_ok (de_kb (?envs k))" for k
    using demo_env_ok(1) by (simp add: env_ok_def demo_docs_def del: asc_Cons)
  have db: "dw_records demo_docs_world = Some \<lparr>rc_rows = [demo_row], rc_next = 2\<rparr>" by (simp add: demo_docs_world_def)
  have again: "de_kb (?envs 1) = (de_kb (?envs 0))\<lparr>ke_embed := (\<lambda>ts. Inr ts)\<rparr>"
    by (simp add: demo_docs_def demo_env_def)
  obtain w' rep where "process_pdf_task ?envs (\<lambda>_. 5) (asc ''t1'') (asc ''p'') (asc ''a.pdf'') None 0 demo_docs_world = Some (w', Inr rep)"
    "map strip_ids (kb_chunks (dw_kb w')) = map strip_ids (kb_chunks (dw_kb demo_docs_world)) @
       map strip_ids [demo_chunk 0 (asc ''a.pdf'')] @ map strip_ids [demo_chunk 0 (asc ''a.pdf'')]"
    using task_retry_duplicates [of ?envs demo_docs_world _ "(asc ''a.pdf'')" "(asc ''p'')" "[Some demo_text]" 2 "[demo_chunk 0 (asc ''a.pdf'')]"
        "OtherError (asc ''timeout'')" "\<lambda>ts. Inr ts" "\<lambda>_. 5" "(asc ''t1'')" None, OF env db demo_column _ _ _ _ again]
      demo_reader [of "(asc ''a.pdf'')" 0]
    by (auto simp: demo_docs_world_def demo_kb_def demo_docs_def demo_env_def simp del: asc_Cons)
  moreover from this(2) have "length (map strip_ids (kb_chunks (dw_kb w'))) = 2"
    by (simp only:) (simp add: demo_docs_world_def demo_kb_def)
  then have "length (kb_chunks (dw_kb w')) = 2" by simp
  ultimately show ?thesis by blast
qed

theorem documents_stay_wf_witness:
  "\<exists>w'. doc_exec (\<lambda>_. demo_docs) (\<lambda>_. 5) (Some spec_redis) None (Do_upload (asc ''a.pdf'')) demo_docs_world = Some w' \<and>
     doc_wf show_nat w'"
  by (rule documents_stay_wf) (simp_all only: demo_docs_env demo_docs_wf)

end
