(* ===== verification/Rag_Service.thy ===== *)
theory Rag_Service
  imports Documents Chat "HOL-Library.Word"
begin

text \<open>
  The gRPC facade \<open>rag-service/server.py\<close>: searching, applying a document change and chatting on top
  of the knowledge base and the chat service. A protobuf \<open>int32\<close> field is a 32-bit word; assigning an
  integer out of its range raises. \<open>context.abort\<close> of \<open>grpc.aio\<close> sends its status and raises, and a second
  \<open>abort\<close> of the same call only raises: so a status sent inside the \<open>try\<close> block is what the client gets,
  although the \<open>except\<close> clause catches the exception, counts and logs a failure and calls \<open>abort\<close> with
  \<open>INTERNAL\<close> again. Strings that are not valid UTF-8 are not modelled.
\<close>

section \<open>Messages\<close>

datatype rpc_status = NOT_FOUND | INVALID_ARGUMENT | INTERNAL

datatype 'a rpc = Reply 'a | Aborted rpc_status

definition int32 :: "int \<Rightarrow> 32 word result" where
  "int32 i = (if - (2 ^ 31) \<le> i \<and> i < 2 ^ 31 then Inr (word_of_int i) else Inl (ValueError (asc ''Value out of range'')))"

record search_hit =
  sh_content :: pystr
  sh_source :: pystr
  sh_page :: "32 word"
  sh_score :: real

record source_message =
  sm_source :: pystr
  sm_title :: pystr
  sm_url :: pystr
  sm_type :: pystr
  sm_page :: "32 word"
  sm_score :: real

record chat_reply =
  cp_answer :: pystr
  cp_trace :: "pystr list"
  cp_fallback :: bool
  cp_sources :: "source_message list"
  cp_reasoning :: "pystr list"
  cp_cached :: bool
  cp_ms :: int

text \<open>An exception inside the \<open>try\<close> block ends the call with \<open>INTERNAL\<close>.\<close>

fun reply_or_abort :: "'a result \<Rightarrow> 'a rpc" where
  "reply_or_abort (Inr x) = Reply x"
| "reply_or_abort (Inl e) = Aborted INTERNAL"

section \<open>Search\<close>

definition clamp_top_k :: "32 word \<Rightarrow> int" where
  "clamp_top_k top_k = min (max (if top_k = 0 then 5 else sint top_k) 1) 20"

definition hit_of_result :: "search_result \<Rightarrow> search_hit result" where
  "hit_of_result r = rbind (int32 (sr_page r)) (\<lambda>page. Inr
     \<lparr>sh_content = sr_content r, sh_source = sr_source r, sh_page = page, sh_score = sr_score r\<rparr>)"

definition rpc_search ::
  "search_config \<Rightarrow> (pystr \<Rightarrow> int \<Rightarrow> (fscore \<times> int) list result) \<Rightarrow> rerank_client \<Rightarrow> pystr option \<Rightarrow>
   'v kb \<Rightarrow> reranker \<Rightarrow> pystr \<Rightarrow> 32 word \<Rightarrow> reranker \<times> search_hit list rpc" where
  "rpc_search cfg vsearch post env_model st rr query top_k =
     (case search cfg vsearch post env_model st query (clamp_top_k top_k) (8/100) rr of
        (rr', res) \<Rightarrow> (rr', reply_or_abort (rbind res (mapr hit_of_result))))"

section \<open>Document changes\<close>

definition deleted_count :: "'v kb \<Rightarrow> delete_report \<Rightarrow> int" where
  "deleted_count st d = (if dr_source d = [] then 0 else int (length (kb_chunks st)))"

definition rpc_index_document ::
  "'v kb_env \<Rightarrow> (pystr \<Rightarrow> bool) \<Rightarrow> pystr \<Rightarrow> pystr \<Rightarrow> pystr \<Rightarrow> 'v kb \<Rightarrow> ('v kb \<times> 32 word rpc) option" where
  "rpc_index_document env is_file operation source file_path st =
     (if py_upper operation = (asc ''DELETE'') then
        (case delete_source env source st of
           (st', r) \<Rightarrow> Some (st', reply_or_abort (rbind r (\<lambda>d. int32 (deleted_count st' d)))))
      else if py_upper operation = (asc ''INSERT'') \<or> py_upper operation = (asc ''UPDATE'') then
        (if \<not> is_file file_path then Some (st, Aborted NOT_FOUND)
         else map_option (\<lambda>(st', r). (st', reply_or_abort (rbind r (\<lambda>rep. int32 (int (ar_total_chunks rep))))))
           (upsert_pdf env file_path source st))
      else Some (st, Aborted INVALID_ARGUMENT))"

section \<open>Chat\<close>

fun source_message_of :: "(json \<Rightarrow> pystr) \<Rightarrow> json \<Rightarrow> source_message result" where
  "source_message_of repr (JObj d) =
     rbind (py_int (json_or (obj_get d (asc ''page'') JNull) (JInt 0))) (\<lambda>i.
     rbind (int32 i) (\<lambda>page.
     rbind (py_float (json_or (obj_get d (asc ''score'') JNull) (JReal 0))) (\<lambda>score.
       Inr \<lparr>sm_source = json_str repr (obj_get d (asc ''source'') (JStr [])),
            sm_title = json_str repr (obj_get d (asc ''title'') (JStr [])),
            sm_url = json_str repr (obj_get d (asc ''url'') (JStr [])),
            sm_type = json_str repr (obj_get d (asc ''type'') (JStr (asc ''local''))),
            sm_page = page, sm_score = score\<rparr>)))"
| "source_message_of repr _ = Inl (OtherError (asc ''object has no attribute get''))"

text \<open>\<open>run_chat\<close> without a user, a database or Redis; its result has the fields of a response.\<close>

definition chat_reply_of :: "(json \<Rightarrow> pystr) \<Rightarrow> response \<Rightarrow> chat_reply result" where
  "chat_reply_of repr r =
     rbind (mapr (source_message_of repr) (rs_sources r)) (\<lambda>sources. Inr
       \<lparr>cp_answer = rs_answer r, cp_trace = rs_trace r, cp_fallback = rs_fallback r, cp_sources = sources,
        cp_reasoning = rs_reasoning r, cp_cached = rs_cached r, cp_ms = rs_ms r\<rparr>)"

definition rpc_chat ::
  "chat_env \<Rightarrow> clock \<Rightarrow> pystr \<Rightarrow> 64 word \<Rightarrow> 'r world \<Rightarrow> 'r world \<times> chat_reply rpc" where
  "rpc_chat env ck question session_id w =
     (case run_chat env None ck question (if session_id = 0 then None else Some (sint session_id)) None
             (w\<lparr>w_tables := None\<rparr>) of
        (w', res) \<Rightarrow> (w, reply_or_abort (rbind res (\<lambda>j. rbind (chat_response j)
           (chat_reply_of (ge_repr (che_graph env)))))))"

definition rpc_health :: "'v kb \<Rightarrow> pystr \<times> pystr \<times> int" where
  "rpc_health st = ((asc ''ok''), (asc ''faiss''), int (length (kb_chunks st)))"

section \<open>Facts about searching\<close>

lemma int32_Inr: "int32 i = Inr n \<Longrightarrow> sint n = i"
  by (auto simp: int32_def signed_of_int signed_take_bit_int_eq_self split: if_splits)

lemma clamp_top_k_range: "1 \<le> clamp_top_k k \<and> clamp_top_k k \<le> 20"
  by (simp add: clamp_top_k_def)

text \<open>Whatever number the client asks for - none, a negative one, or one beyond the
  \<open>int32\<close> range of the request's field - a search replies with at most twenty hits, each quoting an
  indexed chunk with its source and the page it was read from.\<close>

theorem rpc_search_bounded:
  assumes cfg: "0 \<le> sc_rrf_k cfg" and run: "rpc_search cfg vsearch post em st rr q top_k = (rr', Reply hits)"
  shows "length hits \<le> 20 \<and> (0 < sint top_k \<longrightarrow> int (length hits) \<le> sint top_k) \<and>
    (\<forall>h\<in>set hits. \<exists>ch\<in>set (kb_chunks st). sh_content h = parent_text ch \<and> sh_source h = c_source ch \<and>
       sint (sh_page h) = c_page ch)"
proof -
  obtain rs where rs: "snd (search cfg vsearch post em st q (clamp_top_k top_k) (8/100) rr) = Inr rs"
    and hits: "mapr hit_of_result rs = Inr hits"
  proof (cases "snd (search cfg vsearch post em st q (clamp_top_k top_k) (8/100) rr)")
    case (Inr rs)
    then show thesis using run that [of rs]
      by (cases "mapr hit_of_result rs") (auto simp: rpc_search_def rbind_def split: prod.splits)
  qed (use run in \<open>auto simp: rpc_search_def rbind_def split: prod.splits\<close>)
  have ok: "int (length rs) \<le> clamp_top_k top_k \<and> (\<forall>r\<in>set rs. \<exists>ch\<in>set (kb_chunks st). quotes ch r)"
    using kb_search_ok [OF cfg, where k = "clamp_top_k top_k" and vsearch = vsearch and post = post and em = em and
        cs = "kb_chunks st" and ntotal = "length (kb_index st)" and bm = "kb_bm25 st" and q = q and ms = "8/100" and rr = rr]
      rs clamp_top_k_range by (simp add: search_def)
  have "\<exists>ch\<in>set (kb_chunks st). sh_content h = parent_text ch \<and> sh_source h = c_source ch \<and> sint (sh_page h) = c_page ch"
    if h: "h \<in> set hits" for h
  proof -
    obtain r where r: "r \<in> set rs" "hit_of_result r = Inr h" using mapr_in [OF hits h] by blast
    then have "sh_content h = sr_content r \<and> sh_source h = sr_source r \<and> sint (sh_page h) = sr_page r"
      using int32_Inr by (auto simp: hit_of_result_def rbind_Inr_iff)
    then show ?thesis using ok r(1) by (fastforce simp: quotes_def)
  qed
  moreover have "0 < sint top_k \<longrightarrow> clamp_top_k top_k \<le> sint top_k"
    by (auto simp: clamp_top_k_def)
  ultimately show ?thesis using ok mapr_length [OF hits] clamp_top_k_range [of top_k] by auto
qed

section \<open>Facts about document changes\<close>

lemma upper_words: "py_upper (asc ''INSERT'') = (asc ''INSERT'')" "py_upper (asc ''DELETE'') = (asc ''DELETE'')" "py_upper (asc ''UPDATE'') = (asc ''UPDATE'')"
  by code_simp+

lemma reply_or_abort_Reply:
  "reply_or_abort r = Reply x \<longleftrightarrow> r = Inr x" "Reply x = reply_or_abort r \<longleftrightarrow> r = Inr x"
  by (cases r; auto)+

text \<open>C17: for an event whose document name is not empty and has no surrounding white space:
  an accepted event does to the chunk list what the abstract change does - an insert or an update
  replaces the chunks of its source by those of the file, a delete removes them, and every other
  source keeps its own - and replies with the number of chunks the base then has. An event with an
  unknown operation, or an insert of a file that is not there, changes nothing and is refused with the
  precise status.\<close>

theorem rpc_index_document_refines:
  assumes env: "env_ok env" and run: "rpc_index_document env is_file operation s path st = Some (st', out)"
    and src: "py_strip s = s" "s \<noteq> []"
  shows "(\<forall>n. out = Reply n \<longrightarrow> kb_synced env st' \<and> int (length (kb_chunks st')) = sint n \<and>
      (\<exists>change. change_ok change \<and> change_source change = s \<and> kb_chunks st' = apply_change change (kb_chunks st) \<and>
         (if py_upper operation = (asc ''DELETE'') then change = Remove s
          else is_file path \<and> (\<exists>pages m new. ke_pdf env path = Inr pages \<and> change = Upsert s new \<and>
            chunks_from_reader (ke_cfg env) (ke_uuid env) s pages (kb_next st) = Some (m, new))))) \<and>
    (py_upper operation \<notin> {(asc ''DELETE''), (asc ''INSERT''), (asc ''UPDATE'')} \<longrightarrow> st' = st \<and> out = Aborted INVALID_ARGUMENT) \<and>
    (py_upper operation \<in> {(asc ''INSERT''), (asc ''UPDATE'')} \<and> \<not> is_file path \<longrightarrow> st' = st \<and> out = Aborted NOT_FOUND)"
proof -
  consider (delete) "py_upper operation = (asc ''DELETE'')"
    | (upsert) "py_upper operation \<noteq> (asc ''DELETE'')" "py_upper operation \<in> {(asc ''INSERT''), (asc ''UPDATE'')}"
    | (other) "py_upper operation \<notin> {(asc ''DELETE''), (asc ''INSERT''), (asc ''UPDATE'')}" by blast
  then show ?thesis
  proof cases
    case delete
    obtain r where r: "delete_source env s st = (st', r)" "out = reply_or_abort (rbind r (\<lambda>d. int32 (deleted_count st' d)))"
      using run delete by (auto simp: rpc_index_document_def split: prod.splits)
    have "kb_synced env st' \<and> int (length (kb_chunks st')) = sint n \<and> kb_chunks st' = apply_change (Remove s) (kb_chunks st)"
      if out: "out = Reply n" for n
    proof -
      obtain d where d: "r = Inr d" "int32 (deleted_count st' d) = Inr n"
        using r(2) out by (auto simp: reply_or_abort_Reply rbind_Inr_iff)
      have del: "kb_chunks st' = apply_change (Remove (py_strip s)) (kb_chunks st)" "kb_synced env st'"
        using delete_chunks [of env s st st' d] r(1) d(1) src by auto
      have "dr_source d = s"
        using r(1) d(1) src by (auto simp: delete_source_def Let_def rbind_Inr_iff split: prod.splits sum.splits)
      then show ?thesis using del src int32_Inr [OF d(2)] by (simp add: deleted_count_def)
    qed
    then show ?thesis using delete by (force simp: change_ok_def all_of_source_def)
  next
    case upsert
    show ?thesis
    proof (cases "is_file path")
      case False
      then show ?thesis using run upsert by (auto simp: rpc_index_document_def simp del: asc_Cons)
    next
      case True
      obtain r where r: "upsert_pdf env path s st = Some (st', r)"
          "out = reply_or_abort (rbind r (\<lambda>rep. int32 (int (ar_total_chunks rep))))"
        using run upsert True by (auto simp: rpc_index_document_def simp del: asc_Cons)
      have "kb_synced env st' \<and> int (length (kb_chunks st')) = sint n \<and>
          (\<exists>pages m new. ke_pdf env path = Inr pages \<and> change_ok (Upsert s new) \<and>
            chunks_from_reader (ke_cfg env) (ke_uuid env) s pages (kb_next st) = Some (m, new) \<and>
            kb_chunks st' = apply_change (Upsert s new) (kb_chunks st))"
        if out: "out = Reply n" for n
      proof -
        obtain rep where rep: "r = Inr rep" "int32 (int (ar_total_chunks rep)) = Inr n"
          using r(2) out by (auto simp: reply_or_abort_Reply rbind_Inr_iff)
        have ups: "upsert_pdf env path s st = Some (st', Inr rep)" using r(1) rep(1) by simp
        obtain pages m new where new: "ke_pdf env path = Inr pages"
          "chunks_from_reader (ke_cfg env) (ke_uuid env) s pages (kb_next st) = Some (m, new)"
          "kb_chunks st' = apply_change (Upsert s new) (kb_chunks st)" "ar_total_chunks rep = length (kb_chunks st')"
          using upsert_chunks [OF ups] by blast
        have "change_ok (Upsert s new)"
          using gen_of_reader [OF env new(2)] by (simp add: gen_inv_def change_ok_def all_of_source_def)
        moreover have "kb_synced env st'" using ingest_synced ups unfolding upsert_pdf_def by blast
        ultimately show ?thesis using new int32_Inr [OF rep(2)] by auto
      qed
      then show ?thesis using upsert True by fastforce
    qed
  next
    case other
    then show ?thesis using run by (auto simp: rpc_index_document_def simp del: asc_Cons)
  qed
qed

section \<open>Uploads and their events\<close>

text \<open>The event of an uploaded file, applied \<open>k\<close> times with success.\<close>

fun redeliver :: "'v kb_env \<Rightarrow> (pystr \<Rightarrow> bool) \<Rightarrow> pystr \<Rightarrow> pystr \<Rightarrow> nat \<Rightarrow> 'v kb \<Rightarrow> 'v kb option" where
  "redeliver env is_file s path 0 st = Some st"
| "redeliver env is_file s path (Suc k) st =
     (case rpc_index_document env is_file (asc ''INSERT'') s path st of
        Some (st', Reply n) \<Rightarrow> redeliver env is_file s path k st'
      | _ \<Rightarrow> None)"

lemma rpc_insert_upsert:
  assumes "rpc_index_document env is_file (asc ''INSERT'') s path st = Some (st', Reply n)"
  shows "\<exists>rep. upsert_pdf env path s st = Some (st', Inr rep)"
proof -
  have "rpc_index_document env is_file (asc ''INSERT'') s path st =
     (if \<not> is_file path then Some (st, Aborted NOT_FOUND)
      else map_option (\<lambda>(st', r). (st', reply_or_abort (rbind r (\<lambda>rep. int32 (int (ar_total_chunks rep))))))
           (upsert_pdf env path s st))"
    unfolding rpc_index_document_def upper_words by simp
  then obtain r where "upsert_pdf env path s st = Some (st', r)"
      "reply_or_abort (rbind r (\<lambda>rep. int32 (int (ar_total_chunks rep)))) = Reply n"
    using assms by (auto simp: map_option_case split: option.splits if_splits)
  then show ?thesis by (auto simp: reply_or_abort_Reply rbind_Inr_iff)
qed

lemma rpc_insert:
  assumes "env_ok env" "rpc_index_document env is_file (asc ''INSERT'') s path st = Some (st', Reply n)"
  shows "\<exists>pages m new. ke_pdf env path = Inr pages \<and> chunks_from_reader (ke_cfg env) (ke_uuid env) s pages (kb_next st) = Some (m, new) \<and>
    (\<forall>t. source_chunks (kb_chunks st') t = (if t = s then new else source_chunks (kb_chunks st) t))"
proof -
  obtain rep where ups: "upsert_pdf env path s st = Some (st', Inr rep)" using rpc_insert_upsert [OF assms(2)] by blast
  obtain pages m new where new: "ke_pdf env path = Inr pages"
      "chunks_from_reader (ke_cfg env) (ke_uuid env) s pages (kb_next st) = Some (m, new)"
      "kb_chunks st' = apply_change (Upsert s new) (kb_chunks st)"
    using upsert_chunks [OF ups] by blast
  have "all_of_source s new" using gen_of_reader [OF assms(1) new(2)] by (simp add: gen_inv_def all_of_source_def)
  then show ?thesis using new chunk_store.view_replace [of s new "kb_chunks st"] by auto
qed

lemma redeliver_source:
  assumes env: "env_ok env" and pdf: "ke_pdf env path = Inr pages"
    and new: "chunks_from_reader (ke_cfg env) (ke_uuid env) s pages n0 = Some (m0, new)"
  shows "redeliver env is_file s path k st = Some st' \<Longrightarrow>
    (0 < k \<longrightarrow> map strip_ids (source_chunks (kb_chunks st') s) = map strip_ids new) \<and>
    (\<forall>t. t \<noteq> s \<longrightarrow> source_chunks (kb_chunks st') t = source_chunks (kb_chunks st) t)"
proof (induction k arbitrary: st)
  case (Suc k)
  obtain st1 n where one: "rpc_index_document env is_file (asc ''INSERT'') s path st = Some (st1, Reply n)"
    and rest: "redeliver env is_file s path k st1 = Some st'"
    using Suc.prems by (auto split: option.splits prod.splits rpc.splits simp del: asc_Cons)
  obtain m new' where new': "chunks_from_reader (ke_cfg env) (ke_uuid env) s pages (kb_next st) = Some (m, new')"
    and st1: "\<forall>t. source_chunks (kb_chunks st1) t = (if t = s then new' else source_chunks (kb_chunks st) t)"
    using rpc_insert [OF env one] pdf by auto
  have "map strip_ids new' = map strip_ids new" by (rule reader_strip [OF new' new])
  then show ?case using Suc.IH [OF rest] rest st1 by (cases k) auto
qed simp

section \<open>Instances\<close>

lemma upload_body_returns:
  assumes "save_upload (de_kb env) f (dw_kb w) = (kb1, path)" "add_pdf (de_kb env) path f kb1 = Some (kb2, Inr rep)"
  shows "\<exists>w1 j. upload_body env now f u w = Some (w1, Inr j)"
  using assms by (auto simp: upload_body_def Let_def split: prod.splits option.splits)

lemma demo_rpc:
  "\<exists>st' n. rpc_index_document demo_env (\<lambda>_. True) operation s path st = Some (st', Reply n)"
  if "operation = (asc ''INSERT'')" "length (kb_chunks st) < 2 ^ 30"
proof -
  obtain st' rep where ups: "upsert_pdf demo_env path s st = Some (st', Inr rep)"
    and cs: "kb_chunks st' = filter (\<lambda>c. c_source c \<noteq> s) (kb_chunks st) @ [demo_chunk (kb_next st) s]"
    using demo_upsert [of path s st] by blast
  have len: "length (kb_chunks st') < 2 ^ 31"
    using le_less_trans [OF length_filter_le that(2), of "\<lambda>c. c_source c \<noteq> s"] unfolding cs by simp
  have total: "ar_total_chunks rep = length (kb_chunks st')" using upsert_chunks [OF ups] by blast
  show ?thesis unfolding rpc_index_document_def that(1) upper_words
    using ups len total by (simp add: int32_def)
qed

theorem rpc_search_bounded_witness:
  "\<exists>rr' hits. rpc_search default_config (\<lambda>q n. Inr []) (\<lambda>n ep m q ds k. Inl (OtherError [])) None demo_kb
       (reranker_init False [] []) (asc ''hello'') (word_of_int (- 1)) = (rr', Reply hits) \<and> length hits \<le> 20"
proof -
  have "rpc_search default_config (\<lambda>q n. Inr []) (\<lambda>n ep m q ds k. Inl (OtherError [])) None demo_kb
       (reranker_init False [] []) (asc ''hello'') (word_of_int (- 1)) = (reranker_init False [] [], Reply [])"
    by (simp add: rpc_search_def search_def kb_search_def demo_kb_def)
  then show ?thesis using rpc_search_bounded [of default_config "\<lambda>q n. Inr []"]
    by (fastforce simp: default_config_def)
qed

theorem rpc_index_document_refines_witness:
  "\<exists>st' n. rpc_index_document demo_env (\<lambda>_. True) (asc ''INSERT'') (asc ''a.pdf'') (asc ''p'') demo_kb = Some (st', Reply n) \<and>
     int (length (kb_chunks st')) = sint n"
proof -
  have small: "length (kb_chunks demo_kb) < 2 ^ 30" by (simp add: demo_kb_def)
  obtain st' n where run: "rpc_index_document demo_env (\<lambda>_. True) (asc ''INSERT'') (asc ''a.pdf'') (asc ''p'') demo_kb = Some (st', Reply n)"
    using demo_rpc [OF refl small] by blast
  have s: "py_strip (asc ''a.pdf'') = (asc ''a.pdf'')" "(asc ''a.pdf'') \<noteq> []" by code_simp+
  show ?thesis using rpc_index_document_refines [OF demo_env_ok(1) run s] run by blast
qed

end
