(* ===== verification/Embedding.thy ===== *)
theory Embedding
  imports Knowledge_Base
begin

text \<open>
  The \<open>EmbeddingBackend\<close> of \<open>backend/retriever.py\<close>: its choice between the embedding API, a local
  sentence transformer and the hashing fallback when it is constructed, and \<open>embed\<close> on each of them.
  A numpy matrix is the list of its rows, a float a real: rounding to \<open>float32\<close> is not modelled.
  The environment variables, the HTTP service, the transformer library, \<open>torch\<close>,
  \<open>faiss.normalize_L2\<close> and the MD5 digest of a token are parameters. An embedding that holds
  something other than numbers is an error here, where numpy would read a numeric string as a
  number and \<open>null\<close> as NaN; so is an \<open>index\<close> that is no number.
\<close>

section \<open>State\<close>

type_synonym vec = "real list"

type_synonym encoder = "pystr list \<Rightarrow> int \<Rightarrow> vec list result"

record embedding =
  em_provider :: pystr
  em_device :: pystr
  em_dimension :: int
  em_model :: "encoder option"
  em_api_enabled :: bool
  em_last_error :: pystr
  em_api_base :: pystr
  em_model_name :: pystr

text \<open>\<open>ee_load\<close> answers with the encoder and the dimension it reports, which may raise by itself.\<close>

record embedding_env =
  ee_getenv :: "pystr \<Rightarrow> pystr option"
  ee_post :: "pystr \<Rightarrow> (pystr \<times> pystr) list \<Rightarrow> json \<Rightarrow> json result"
  ee_load :: "pystr \<Rightarrow> pystr \<Rightarrow> (encoder \<times> int result) result"
  ee_cuda :: "bool result"
  ee_normalize :: "vec list \<Rightarrow> vec list"
  ee_digest :: "pystr \<Rightarrow> int list"

definition env_str :: "embedding_env \<Rightarrow> pystr \<Rightarrow> pystr \<Rightarrow> pystr" where
  "env_str env name d = (case ee_getenv env name of None \<Rightarrow> d | Some v \<Rightarrow> v)"

definition env_int :: "embedding_env \<Rightarrow> pystr \<Rightarrow> pystr \<Rightarrow> int result" where
  "env_int env name d = py_int (JStr (env_str env name d))"

definition env_float :: "embedding_env \<Rightarrow> pystr \<Rightarrow> pystr \<Rightarrow> real result" where
  "env_float env name d = py_float (JStr (env_str env name d))"

definition hashing_dim :: "embedding_env \<Rightarrow> int result" where
  "hashing_dim env = env_int env (asc ''HASHING_EMBED_DIM'') (asc ''768'')"

section \<open>The embedding service\<close>

fun number_of :: "json \<Rightarrow> real result" where
  "number_of (JInt i) = Inr (real_of_int i)"
| "number_of (JReal r) = Inr r"
| "number_of (JBool b) = Inr (of_bool b)"
| "number_of _ = Inl (ValueError (asc ''setting an array element with a sequence.''))"

fun as_array :: "json \<Rightarrow> json list result" where
  "as_array (JArr xs) = Inr xs"
| "as_array _ = Inl (ValueError (asc ''not a list''))"

definition item_vector :: "json \<Rightarrow> vec result" where
  "item_vector item = rbind (json_item item (asc ''embedding'')) (\<lambda>e. rbind (as_array e) (mapr number_of))"

text \<open>\<open>sorted(data, key=lambda item: item.get("index", 0))\<close>\<close>

definition sort_items :: "json list \<Rightarrow> json list result" where
  "sort_items items =
     rbind (mapr (\<lambda>item. rbind (json_get_or item (asc ''index'') (JInt 0)) number_of) items)
       (\<lambda>ks. Inr (map snd (sort_key fst (zip ks items))))"

text \<open>A matrix has at least one row, and rows of one length.\<close>

definition vstack :: "vec list list \<Rightarrow> vec list result" where
  "vstack blocks =
     (case concat blocks of
        [] \<Rightarrow> Inl (ValueError (asc ''need at least one array to concatenate''))
      | v # vs \<Rightarrow> if \<forall>w\<in>set vs. length w = length v then Inr (v # vs)
          else Inl (ValueError (asc ''all the input array dimensions except for the concatenation axis must match exactly'')))"

definition api_headers :: "embedding_env \<Rightarrow> (pystr \<times> pystr) list" where
  "api_headers env =
     (let api_key = strip_env (env_str env (asc ''EMBEDDING_API_KEY'') [])
      in if api_key = [] then [] else [((asc ''Authorization''), (asc ''Bearer '') @ api_key)])"

definition api_request :: "embedding \<Rightarrow> pystr list \<Rightarrow> json" where
  "api_request eb texts = JObj
     [((asc ''model''), JStr (em_model_name eb)), ((asc ''input''), JArr (map JStr texts)), ((asc ''encoding_format''), JStr (asc ''float''))]"

text \<open>\<open>timeout or float(os.getenv(...))\<close> may raise before the request is sent.\<close>

definition call_timeout :: "embedding_env \<Rightarrow> real option \<Rightarrow> real result" where
  "call_timeout env timeout =
     (case timeout of
        Some t \<Rightarrow> if t \<noteq> 0 then Inr t else env_float env (asc ''EMBEDDING_TIMEOUT'') (asc ''120'')
      | None \<Rightarrow> env_float env (asc ''EMBEDDING_TIMEOUT'') (asc ''120''))"

definition embed_api_batch :: "embedding_env \<Rightarrow> embedding \<Rightarrow> real option \<Rightarrow> pystr list \<Rightarrow> vec list result" where
  "embed_api_batch env eb timeout texts =
     rbind (call_timeout env timeout) (\<lambda>_.
     rbind (ee_post env (em_api_base eb @ (asc ''/embeddings'')) (api_headers env) (api_request eb texts)) (\<lambda>payload.
     rbind (json_item payload (asc ''data'')) (\<lambda>d.
     rbind (as_array d) (\<lambda>items.
     rbind (sort_items items) (\<lambda>data.
     rbind (mapr item_vector data) (\<lambda>vs.
     rbind (vstack [vs]) (\<lambda>vectors. Inr (ee_normalize env vectors))))))))"

text \<open>\<open>texts[start : start + size] for start in range(0, len(texts), size)\<close>, for a positive size.\<close>

fun batches :: "nat \<Rightarrow> 'a list \<Rightarrow> 'a list list" where
  "batches 0 xs = []"
| "batches n [] = []"
| "batches n xs = take n xs # batches n (drop n xs)"

definition embed_api :: "embedding_env \<Rightarrow> embedding \<Rightarrow> pystr list \<Rightarrow> vec list result" where
  "embed_api env eb texts =
     rbind (env_int env (asc ''EMBEDDING_BATCH_SIZE'') (asc ''64'')) (\<lambda>batch_size.
       if batch_size = 0 then Inl (ValueError (asc ''range() arg 3 must not be zero''))
       else rbind (mapr (embed_api_batch env eb None) (if batch_size < 0 then [] else batches (nat batch_size) texts))
              vstack)"

section \<open>The hashing fallback\<close>

definition from_little_endian :: "int list \<Rightarrow> int" where
  "from_little_endian bytes = foldr (\<lambda>b n. b + 256 * n) bytes 0"

definition bucket_of :: "int \<Rightarrow> int list \<Rightarrow> nat" where
  "bucket_of dimension digest = nat (from_little_endian (take 4 digest) mod dimension)"

definition sign_of :: "int list \<Rightarrow> real" where
  "sign_of digest = (if digest ! 4 mod 2 = 0 then 1 else - 1)"

definition add_token :: "embedding_env \<Rightarrow> int \<Rightarrow> pystr \<Rightarrow> vec \<Rightarrow> vec" where
  "add_token env dimension token v =
     (let digest = ee_digest env token; bucket = bucket_of dimension digest
      in v[bucket := v ! bucket + sign_of digest])"

definition l2_norm :: "vec \<Rightarrow> real" where
  "l2_norm v = sqrt (\<Sum>x\<leftarrow>v. x * x)"

definition unit_vec :: "vec \<Rightarrow> vec" where
  "unit_vec v = (let norm = l2_norm v in if norm > 0 then map (\<lambda>x. x / norm) v else v)"

definition hashing_embed :: "embedding_env \<Rightarrow> embedding \<Rightarrow> pystr \<Rightarrow> vec result" where
  "hashing_embed env eb text0 =
     (if em_dimension eb < 0 then Inl (ValueError (asc ''negative dimensions are not allowed''))
      else if em_dimension eb = 0 \<and> tokenize text0 \<noteq> [] then Inl (OtherError (asc ''integer modulo by zero''))
      else Inr (unit_vec (fold (add_token env (em_dimension eb)) (tokenize text0)
                  (replicate (nat (em_dimension eb)) 0))))"

section \<open>Embedding texts\<close>

definition embed :: "embedding_env \<Rightarrow> embedding \<Rightarrow> pystr list \<Rightarrow> vec list result" where
  "embed env eb texts =
     (if texts = [] then
        (if em_dimension eb < 0 then Inl (ValueError (asc ''negative dimensions are not allowed'')) else Inr [])
      else if em_api_enabled eb then embed_api env eb texts
      else case em_model eb of
          Some encode \<Rightarrow> rbind (env_int env (asc ''EMBEDDING_BATCH_SIZE'') (asc ''32'')) (encode texts)
        | None \<Rightarrow> rbind (mapr (hashing_embed env eb) texts) (\<lambda>vs. Inr (ee_normalize env vs)))"

section \<open>Construction\<close>

definition resolve_embedding_device :: "embedding_env \<Rightarrow> pystr" where
  "resolve_embedding_device env =
     (let configured = py_lower (py_strip (env_str env (asc ''EMBEDDING_DEVICE'') (asc ''auto'')))
      in if configured \<noteq> [] \<and> configured \<noteq> (asc ''auto'') then configured
         else case ee_cuda env of Inr True \<Rightarrow> (asc ''cuda'') | _ \<Rightarrow> (asc ''cpu''))"

definition try_configure_api :: "embedding_env \<Rightarrow> embedding \<Rightarrow> (embedding \<times> bool) result" where
  "try_configure_api env eb0 =
     (let eb1 = eb0\<lparr>em_api_base := rstrip_by (\<lambda>c. c = 47) (env_str env (asc ''EMBEDDING_API_BASE'') (asc ''http://127.0.0.1:8010/v1'')),
                    em_model_name := env_str env (asc ''EMBEDDING_MODEL'') (asc ''BAAI/bge-m3'')\<rparr>
      in rbind (env_int env (asc ''EMBEDDING_DIMENSION'') (asc ''1024'')) (\<lambda>dimension.
        let eb2 = eb1\<lparr>em_dimension := dimension\<rparr>
        in case rbind (env_float env (asc ''EMBEDDING_STARTUP_TIMEOUT'') (asc ''3''))
                  (\<lambda>timeout. embed_api_batch env eb2 (Some timeout) [(asc ''embedding health check'')]) of
            Inl exc \<Rightarrow> Inr (eb2\<lparr>em_last_error := exn_str exc\<rparr>, False)
          | Inr vectors \<Rightarrow>
              Inr (eb2\<lparr>em_dimension := int (length (hd vectors)), em_device := (asc ''remote-api''),
                       em_provider := (asc ''api:'') @ em_model_name eb2, em_api_enabled := True\<rparr>, True)))"

definition try_load_sentence_transformer :: "embedding_env \<Rightarrow> embedding \<Rightarrow> embedding" where
  "try_load_sentence_transformer env eb =
     (let model_name = env_str env (asc ''EMBEDDING_MODEL'') (asc ''BAAI/bge-small-zh-v1.5'');
          device = resolve_embedding_device env
      in case ee_load env model_name device of
          Inl exc \<Rightarrow> eb\<lparr>em_model := None\<rparr>
        | Inr (encode, dimension) \<Rightarrow>
            let eb1 = eb\<lparr>em_device := device, em_provider := (asc ''sentence-transformers:'') @ model_name\<rparr>
            in case dimension of
                Inl exc \<Rightarrow> eb1\<lparr>em_model := None\<rparr>
              | Inr d \<Rightarrow> eb1\<lparr>em_model := Some encode, em_dimension := d\<rparr>)"

definition api_providers :: "pystr list" where
  "api_providers = [(asc ''api''), (asc ''openai''), (asc ''openai-compatible''), (asc ''vllm'')]"

definition embedding_init :: "embedding_env \<Rightarrow> embedding result" where
  "embedding_init env =
     rbind (hashing_dim env) (\<lambda>dimension.
       let eb0 = \<lparr>em_provider = (asc ''hashing''), em_device = (asc ''cpu''), em_dimension = dimension, em_model = None,
                  em_api_enabled = False, em_last_error = [], em_api_base = [],
                  em_model_name = env_str env (asc ''EMBEDDING_MODEL'') (asc ''BAAI/bge-small-zh-v1.5'')\<rparr>;
           provider = py_lower (env_str env (asc ''EMBEDDING_PROVIDER'') (asc ''sentence-transformers''));
           local = (\<lambda>eb. if provider \<in> set ([(asc ''sentence-transformers''), (asc ''sentence_transformers'')] @ api_providers)
                     then try_load_sentence_transformer env eb else eb)
       in if provider \<in> set api_providers then
            rbind (try_configure_api env eb0) (\<lambda>(eb1, configured).
              if configured then Inr eb1
              else if py_lower (env_str env (asc ''EMBEDDING_STRICT'') (asc ''false'')) = (asc ''true'')
              then Inl (RuntimeError ((asc ''Embedding API is not available: '') @ em_last_error eb1))
              else Inr (local eb1))
          else Inr (local eb0))"

definition embedding_stats :: "embedding \<Rightarrow> json" where
  "embedding_stats eb = JObj
     [((asc ''provider''), JStr (em_provider eb)), ((asc ''device''), JStr (em_device eb)), ((asc ''api_base''), JStr (em_api_base eb)),
      ((asc ''dimension''), JInt (em_dimension eb)), ((asc ''last_error''), JStr (em_last_error eb))]"

text \<open>
  What the knowledge base calls: \<open>index.add\<close> of \<open>faiss.IndexFlatIP(dimension)\<close> accepts rows of that
  dimension only.
\<close>

definition index_vectors :: "embedding_env \<Rightarrow> embedding \<Rightarrow> pystr list \<Rightarrow> vec list result" where
  "index_vectors env eb texts = rbind (embed env eb texts) (\<lambda>vs.
     if \<forall>v\<in>set vs. int (length v) = em_dimension eb then Inr vs else Inl (OtherError []))"

text \<open>The knowledge base's environment with its \<open>self.embedding\<close>.\<close>

definition with_embedding :: "embedding_env \<Rightarrow> embedding \<Rightarrow> vec kb_env \<Rightarrow> vec kb_env" where
  "with_embedding env eb kenv = kenv\<lparr>ke_embed := index_vectors env eb, ke_dim := em_dimension eb\<rparr>"

section \<open>What the libraries promise\<close>

text \<open>\<open>faiss.normalize_L2\<close> scales every row that is not zero to length one; a digest is 16 bytes.\<close>

definition libraries_ok :: "embedding_env \<Rightarrow> bool" where
  "libraries_ok env \<longleftrightarrow> (\<forall>vs. ee_normalize env vs = map unit_vec vs) \<and>
     (\<forall>t. length (ee_digest env t) = 16 \<and> set (ee_digest env t) \<subseteq> {0..255})"

text \<open>A service that embeds every text by \<open>f\<close> and lists the results in any order.\<close>

definition api_item :: "(pystr \<Rightarrow> vec) \<Rightarrow> pystr list \<Rightarrow> nat \<Rightarrow> json" where
  "api_item f texts i = JObj [((asc ''index''), JInt (int i)), ((asc ''embedding''), JArr (map JReal (f (texts ! i))))]"

definition serves :: "embedding_env \<Rightarrow> embedding \<Rightarrow> (pystr \<Rightarrow> vec) \<Rightarrow> bool" where
  "serves env eb f \<longleftrightarrow> (\<forall>texts. \<exists>payload items.
     ee_post env (em_api_base eb @ (asc ''/embeddings'')) (api_headers env) (api_request eb texts) = Inr payload \<and>
     json_item payload (asc ''data'') = Inr (JArr items) \<and> mset items = mset (map (api_item f texts) [0 ..< length texts]))"

section \<open>Unit vectors\<close>

lemma l2_norm_nonneg: "0 \<le> l2_norm v"
  by (auto simp: l2_norm_def intro!: real_sqrt_ge_zero sum_list_nonneg)

lemma sum_squares_scale: "(\<Sum>x\<leftarrow>map (\<lambda>x. x / c) v. x * x) = (\<Sum>x\<leftarrow>v. x * x) / (c * c)" for c :: real
  by (induction v) (simp_all add: add_divide_distrib)

lemma l2_norm_unit: "l2_norm (unit_vec v) = (if l2_norm v = 0 then 0 else 1)"
proof (cases "l2_norm v = 0")
  case False
  have pos: "0 < (\<Sum>x\<leftarrow>v. x * x)" using False l2_norm_nonneg [of v] by (simp add: l2_norm_def)
  have "l2_norm v * l2_norm v = (\<Sum>x\<leftarrow>v. x * x)" using pos by (simp add: l2_norm_def)
  then have "l2_norm (map (\<lambda>x. x / l2_norm v) v) = 1"
    unfolding l2_norm_def [of "map (\<lambda>x. x / l2_norm v) v"] sum_squares_scale using pos by simp
  then show ?thesis using False l2_norm_nonneg [of v] by (simp add: unit_vec_def Let_def)
qed (simp add: unit_vec_def)

lemma unit_vec_length [simp]: "length (unit_vec v) = length v"
  by (simp add: unit_vec_def Let_def)

lemma unit_vec_idem [simp]: "unit_vec (unit_vec v) = unit_vec v"
  using l2_norm_unit [of v] by (auto simp: unit_vec_def [of "unit_vec v"] Let_def)

section \<open>Facts about the hashing fallback\<close>

definition hashed :: "embedding_env \<Rightarrow> int \<Rightarrow> pystr \<Rightarrow> vec" where
  "hashed env dimension text0 = unit_vec (fold (add_token env dimension) (tokenize text0) (replicate (nat dimension) 0))"

lemma fold_add_token_length [simp]: "length (fold (add_token env d) ts v) = length v"
  by (induction ts arbitrary: v) (simp_all add: add_token_def Let_def)

lemma hashed_length [simp]: "length (hashed env d t) = nat d"
  by (simp add: hashed_def)

lemma bucket_in_range: "0 < d \<Longrightarrow> bucket_of d digest < nat d"
  by (simp add: bucket_of_def)

definition is_hashing :: "embedding \<Rightarrow> bool" where
  "is_hashing eb \<longleftrightarrow> \<not> em_api_enabled eb \<and> em_model eb = None"

lemma embed_hashing:
  assumes "libraries_ok env" "is_hashing eb" "0 < em_dimension eb"
  shows "embed env eb texts = Inr (map (hashed env (em_dimension eb)) texts)"
proof -
  have "mapr (hashing_embed env eb) texts = Inr (map (hashed env (em_dimension eb)) texts)"
    using mapr_map_total [of texts "hashing_embed env eb" "\<lambda>t. t" "hashed env (em_dimension eb)"] assms(3)
    by (simp add: hashing_embed_def hashed_def)
  then show ?thesis using assms by (simp add: embed_def is_hashing_def libraries_ok_def hashed_def)
qed

text \<open>The vector does not depend on the order of the tokens.\<close>

lemma add_token_commute: "add_token env d t (add_token env d t' v) = add_token env d t' (add_token env d t v)"
  by (cases "bucket_of d (ee_digest env t) = bucket_of d (ee_digest env t')";
      cases "bucket_of d (ee_digest env t) < length v"; cases "bucket_of d (ee_digest env t') < length v")
    (simp_all add: add_token_def Let_def list_update_swap list_update_beyond algebra_simps)

lemma hashed_bag: "mset (tokenize s) = mset (tokenize t) \<Longrightarrow> hashed env d s = hashed env d t"
  unfolding hashed_def
  by (simp add: fold_multiset_equiv [where f = "add_token env d" and xs = "tokenize s" and ys = "tokenize t"]
      add_token_commute fun_eq_iff)

section \<open>Facts about the service\<close>

lemma insort_key_snd:
  "\<forall>z\<in>set zs. fst z = k (snd z) \<Longrightarrow> map snd (insort_key fst (k x, x) zs) = insort_key k x (map snd zs)"
  by (induction zs) auto

lemma sort_key_zip: "map snd (sort_key fst (map (\<lambda>x. (k x, x)) xs)) = sort_key k xs"
proof (induction xs)
  case (Cons x xs)
  have "\<forall>z\<in>set (sort_key fst (map (\<lambda>x. (k x, x)) xs)). fst z = k (snd z)" by auto
  then show ?case using Cons.IH by (simp add: insort_key_snd)
qed simp

lemma batches_cover: "0 < n \<Longrightarrow> concat (batches n xs) = xs"
  by (induction n xs rule: batches.induct) auto

lemma batches_nonempty: "b \<in> set (batches n xs) \<Longrightarrow> b \<noteq> []"
  by (induction n xs rule: batches.induct) auto

text \<open>Whatever the order of the items, sorting them by index restores the order of the texts.\<close>

definition item_index :: "json \<Rightarrow> int" where
  "item_index item = (case json_get_or item (asc ''index'') (JInt 0) of Inr (JInt i) \<Rightarrow> i | _ \<Rightarrow> 0)"

lemma item_index_api [simp]: "item_index (api_item f texts i) = int i"
  by (simp add: item_index_def api_item_def)

lemma sort_items_restores:
  assumes "mset items = mset (map (api_item f texts) [0 ..< n])"
  shows "sort_items items = Inr (map (api_item f texts) [0 ..< n])"
proof -
  let ?ys = "map (api_item f texts) [0 ..< n]"
  have set: "set items = set ?ys" using assms by (metis set_mset_mset)
  have key: "rbind (json_get_or x (asc ''index'') (JInt 0)) number_of = Inr (real_of_int (item_index x))" if "x \<in> set items" for x
  proof -
    obtain i where x: "x = api_item f texts i" using \<open>x \<in> set items\<close> set by auto
    show ?thesis unfolding x item_index_api by (simp add: api_item_def)
  qed
  have "mapr (\<lambda>item. rbind (json_get_or item (asc ''index'') (JInt 0)) number_of) (map (\<lambda>x. x) items) =
      Inr (map (\<lambda>x. real_of_int (item_index x)) items)"
    by (rule mapr_map_total) (rule key)
  then have "sort_items items = Inr (sort_key (\<lambda>x. real_of_int (item_index x)) items)"
    by (simp add: sort_items_def zip_map1 zip_same_conv_map sort_key_zip split_def comp_def del: asc_Cons)
  also have "sort_key (\<lambda>x. real_of_int (item_index x)) items = ?ys"
  proof (rule sort_key_inj_key_eq)
    show "inj_on (\<lambda>x. real_of_int (item_index x)) (set items)" unfolding set by (auto simp: inj_on_def)
    show "sorted (map (\<lambda>x. real_of_int (item_index x)) ?ys)" by (simp add: comp_def sorted_map sorted_wrt_upt)
  qed (rule assms)
  finally show ?thesis .
qed

lemma item_vector_api [simp]: "item_vector (api_item f texts i) = Inr (f (texts ! i))"
  using mapr_map_total [of "f (texts ! i)" number_of JReal "\<lambda>x. x"]
  by (simp add: item_vector_def api_item_def)

lemma embed_api_batch_serves:
  assumes "libraries_ok env" "serves env eb f" "\<forall>t. length (f t) = w" "texts \<noteq> []"
    and "call_timeout env timeout = Inr t"
  shows "embed_api_batch env eb timeout texts = Inr (map (\<lambda>t. unit_vec (f t)) texts)"
proof -
  obtain payload items where s: "ee_post env (em_api_base eb @ (asc ''/embeddings'')) (api_headers env) (api_request eb texts) = Inr payload"
     "json_item payload (asc ''data'') = Inr (JArr items)" "mset items = mset (map (api_item f texts) [0 ..< length texts])"
    using assms(2) unfolding serves_def by blast
  have "mapr item_vector (map (api_item f texts) [0 ..< length texts]) = Inr (map (\<lambda>i. f (texts ! i)) [0 ..< length texts])"
    by (rule mapr_map_total) simp
  moreover have "map (\<lambda>i. f (texts ! i)) [0 ..< length texts] = map f texts"
    by (rule nth_equalityI) simp_all
  moreover have "vstack [map f texts] = Inr (map f texts)"
    using assms(3,4) by (cases texts) (simp_all add: vstack_def)
  ultimately show ?thesis
    using assms(1,5) s(1,2) sort_items_restores [OF s(3)]
    by (simp add: embed_api_batch_def libraries_ok_def comp_def)
qed

lemma vstack_blocks:
  assumes "concat bs \<noteq> []" "\<forall>b\<in>set bs. \<forall>v\<in>set b. length v = w"
  shows "vstack bs = Inr (concat bs)"
proof (cases "concat bs")
  case (Cons v vs)
  then have "\<forall>u\<in>set (v # vs). length u = w" using assms(2) by (metis UN_E set_concat)
  then show ?thesis using Cons by (simp add: vstack_def)
qed (use assms in simp)

lemma embed_api_serves:
  assumes "libraries_ok env" "serves env eb f" "\<forall>t. length (f t) = w" "texts \<noteq> []"
    and "env_int env (asc ''EMBEDDING_BATCH_SIZE'') (asc ''64'') = Inr bsize" "0 < bsize" "call_timeout env None = Inr t"
  shows "embed_api env eb texts = Inr (map (\<lambda>t. unit_vec (f t)) texts)"
proof -
  let ?bs = "batches (nat bsize) texts" and ?h = "\<lambda>t. unit_vec (f t)"
  have cover: "concat ?bs = texts" using assms(6) by (simp add: batches_cover)
  have "mapr (embed_api_batch env eb None) (map (\<lambda>b. b) ?bs) = Inr (map (map ?h) ?bs)"
    by (rule mapr_map_total) (auto intro: embed_api_batch_serves [OF assms(1-3) _ assms(7)] dest: batches_nonempty)
  moreover have "vstack (map (map ?h) ?bs) = Inr (concat (map (map ?h) ?bs))"
  proof (rule vstack_blocks)
    show "concat (map (map ?h) ?bs) \<noteq> []" using cover assms(4) by (metis map_concat Nil_is_map_conv)
    show "\<forall>b\<in>set (map (map ?h) ?bs). \<forall>v\<in>set b. length v = w" using assms(3) by auto
  qed
  moreover have "concat (map (map ?h) ?bs) = map ?h texts" using cover by (metis map_concat)
  ultimately show ?thesis using assms(5,6) by (simp add: embed_api_def)
qed

section \<open>Properties\<close>

text \<open>C32: batching is invisible. Against a service that embeds each text by itself, however it
  orders the items of its answers, the API backend returns for every list of texts and every positive
  batch size the normalised embedding of each text in the order of the texts.\<close>

theorem embed_api_pointwise:
  assumes "libraries_ok env" "em_api_enabled eb" "serves env eb f" "\<forall>t. length (f t) = w"
    and "env_int env (asc ''EMBEDDING_BATCH_SIZE'') (asc ''64'') = Inr bsize" "0 < bsize" "env_float env (asc ''EMBEDDING_TIMEOUT'') (asc ''120'') = Inr t"
    and "texts \<noteq> []"
  shows "embed env eb texts = Inr (map (\<lambda>t. unit_vec (f t)) texts)"
proof -
  have "call_timeout env None = Inr t" using assms(7) by (simp add: call_timeout_def)
  from embed_api_serves [OF assms(1,3,4,8,5,6) this] show ?thesis using assms(2,8) by (simp add: embed_def)
qed

lemma commit_total:
  assumes "\<And>ts. \<exists>vs. ke_embed env ts = Inr vs"
  shows "\<exists>st'. commit env cs st = (st', Inr ())"
proof -
  obtain vs where "ke_embed env (map c_content cs) = Inr vs" using assms by blast
  then show ?thesis by (cases "cs = []") (simp_all add: commit_def rebuild_index_def save_chunks_def)
qed

text \<open>On the hashing fallback ingestion never fails for want of an embedding. Every
  readable PDF is indexed, the files and indexes are in step afterwards, and the vector of every
  chunk has the dimension of the index and length one (or zero, for a text without tokens).\<close>

theorem offline_ingestion_succeeds:
  assumes lib: "libraries_ok env" and eb: "is_hashing eb" "0 < em_dimension eb" and kenv: "env_ok kenv"
    and pdf: "ke_pdf kenv path = Inr pages"
  shows "\<exists>st' rep. upsert_pdf (with_embedding env eb kenv) path s st = Some (st', Inr rep) \<and>
     kb_synced (with_embedding env eb kenv) st' \<and> length (kb_index st') = length (kb_chunks st') \<and>
     (\<forall>v\<in>set (kb_index st'). int (length v) = em_dimension eb \<and> l2_norm v \<in> {0, 1})"
proof -
  let ?k = "with_embedding env eb kenv"
  have emb: "ke_embed ?k ts = Inr (map (hashed env (em_dimension eb)) ts)" for ts
    using embed_hashing [OF lib eb] eb(2) by (auto simp: with_embedding_def index_vectors_def)
  have env: "env_ok ?k" using kenv by (simp add: env_ok_def with_embedding_def)
  have pages: "ke_pdf ?k path = Inr pages" using pdf by (simp add: with_embedding_def)
  obtain n new where new: "chunks_from_reader (ke_cfg ?k) (ke_uuid ?k) s pages (kb_next st) = Some (n, new)"
    using chunks_from_reader_inv [of "ke_cfg ?k" "ke_uuid ?k" s pages "kb_next st"] env by (auto simp: env_ok_def)
  obtain st' where com: "commit ?k (filter (\<lambda>c. c_source c \<noteq> s) (kb_chunks st) @ new) (st\<lparr>kb_next := n\<rparr>) = (st', Inr ())"
    using commit_total [of ?k] emb by blast
  obtain rep where run: "upsert_pdf ?k path s st = Some (st', Inr rep)"
    by (simp add: upsert_pdf_def ingest_pdf_def pages new com)
  have sync: "kb_synced ?k st'" using run ingest_synced unfolding upsert_pdf_def by blast
  then have "kb_index st' = map (\<lambda>c. hashed env (em_dimension eb) (c_content c)) (kb_chunks st')"
    by (auto simp: kb_synced_def emb comp_def split: if_splits)
  moreover have "l2_norm (hashed env d t) \<in> {0, 1}" for d t by (simp add: hashed_def l2_norm_unit)
  ultimately show ?thesis using run sync eb(2) by (intro exI [of _ st'] exI [of _ rep]) auto
qed

lemma init_api_down:
  assumes "py_lower (env_str env (asc ''EMBEDDING_PROVIDER'') (asc ''sentence-transformers'')) \<in> set api_providers"
    and "\<And>u h b. \<exists>e. ee_post env u h b = Inl e" "\<And>m d. \<exists>e. ee_load env m d = Inl e"
    and "py_lower (env_str env (asc ''EMBEDDING_STRICT'') (asc ''false'')) \<noteq> (asc ''true'')" "hashing_dim env = Inr h"
    and dim: "env_int env (asc ''EMBEDDING_DIMENSION'') (asc ''1024'') = Inr d"
  shows "\<exists>eb. embedding_init env = Inr eb \<and> is_hashing eb \<and> em_dimension eb = d"
proof -
  have "\<exists>e. embed_api_batch env eb0 timeout ts = Inl e" for eb0 timeout ts
    using assms(2) [of "em_api_base eb0 @ (asc ''/embeddings'')" "api_headers env" "api_request eb0 ts"]
    by (cases "call_timeout env timeout") (auto simp: embed_api_batch_def simp del: asc_Cons)
  then have probe: "\<exists>e. rbind (env_float env (asc ''EMBEDDING_STARTUP_TIMEOUT'') (asc ''3''))
      (\<lambda>timeout. embed_api_batch env eb0 (Some timeout) ts) = Inl e" for eb0 ts
    by (cases "env_float env (asc ''EMBEDDING_STARTUP_TIMEOUT'') (asc ''3'')") (auto simp del: asc_Cons)
  then have probe': "rbind (env_float env (asc ''EMBEDDING_STARTUP_TIMEOUT'') (asc ''3''))
      (\<lambda>timeout. embed_api_batch env eb0 (Some timeout) ts) \<noteq> Inr vs" for eb0 ts vs by (metis sum.distinct(1))
  have conf: "\<exists>eb1. try_configure_api env eb0 = Inr (eb1, False) \<and> em_api_enabled eb1 = em_api_enabled eb0 \<and>
      em_model eb1 = em_model eb0 \<and> em_dimension eb1 = d" for eb0
    unfolding try_configure_api_def Let_def dim rbind_simps
    by (auto split: sum.split simp: probe' simp del: asc_Cons)
  have load: "try_load_sentence_transformer env eb1 = eb1\<lparr>em_model := None\<rparr>" for eb1
  proof -
    obtain e where "ee_load env (env_str env (asc ''EMBEDDING_MODEL'') (asc ''BAAI/bge-small-zh-v1.5'')) (resolve_embedding_device env) = Inl e"
      using assms(3) by blast
    then show ?thesis by (simp add: try_load_sentence_transformer_def Let_def del: asc_Cons)
  qed
  let ?eb0 = "\<lparr>em_provider = (asc ''hashing''), em_device = (asc ''cpu''), em_dimension = h, em_model = None,
      em_api_enabled = False, em_last_error = [], em_api_base = [],
      em_model_name = env_str env (asc ''EMBEDDING_MODEL'') (asc ''BAAI/bge-small-zh-v1.5'')\<rparr>"
  obtain eb1 where eb1: "try_configure_api env ?eb0 = Inr (eb1, False)" "\<not> em_api_enabled eb1" "em_dimension eb1 = d"
    using conf [of ?eb0] by auto
  have "embedding_init env = Inr (eb1\<lparr>em_model := None\<rparr>)"
    unfolding embedding_init_def assms(5) Let_def rbind_simps eb1(1) load using assms(1,4) by simp
  then show ?thesis using eb1(2,3) by (simp add: is_hashing_def)
qed

text \<open>C37: a restart while the embedding service is down. The backend falls back to
  hashing, but with the dimension of the API (\<open>EMBEDDING_DIMENSION\<close>, not \<open>HASHING_EMBED_DIM\<close>), so the
  saved index passes the start-up check: the base keeps the service's vectors and embeds the
  questions by hashing. It is in step only if the service's vectors are the hashed ones.\<close>

theorem degraded_restart_mixes_vectors:
  assumes lib: "libraries_ok env" and base: "kb_synced (with_embedding env1 eb1 kenv) st" "kb_wf kenv st"
      "uuids_nonempty kenv" "kb_chunks st \<noteq> []" "length (kb_index st) = length (kb_chunks st)"
    and api: "py_lower (env_str env (asc ''EMBEDDING_PROVIDER'') (asc ''sentence-transformers'')) \<in> set api_providers"
      "\<And>u h b. \<exists>e. ee_post env u h b = Inl e" "\<And>m d. \<exists>e. ee_load env m d = Inl e"
      "py_lower (env_str env (asc ''EMBEDDING_STRICT'') (asc ''false'')) \<noteq> (asc ''true'')" "hashing_dim env = Inr h"
      "env_int env (asc ''EMBEDDING_DIMENSION'') (asc ''1024'') = Inr (em_dimension eb1)" "0 < em_dimension eb1"
  shows "\<exists>eb st'. embedding_init env = Inr eb \<and> kb_open (with_embedding env eb kenv) st = (st', Inr ()) \<and>
     kb_chunks st' = kb_chunks st \<and> kb_index st' = kb_index st \<and>
     (\<forall>q. embed env eb [q] = Inr [hashed env (em_dimension eb1) q]) \<and>
     (kb_synced (with_embedding env eb kenv) st' \<longrightarrow>
        kb_index st = map (\<lambda>c. hashed env (em_dimension eb1) (c_content c)) (kb_chunks st))"
proof -
  obtain eb where eb: "embedding_init env = Inr eb" "is_hashing eb" "em_dimension eb = em_dimension eb1"
    using init_api_down [OF api(1-6)] by blast
  let ?k = "with_embedding env eb kenv"
  have emb: "embed env eb ts = Inr (map (hashed env (em_dimension eb1)) ts)" for ts
    using embed_hashing [OF lib eb(2)] eb(3) api(7) by simp
  have "kb_open ?k st = (st\<lparr>kb_chunks := kb_chunks st, kb_index := kb_index st, kb_bm25 := bm25_rebuild (kb_bm25 st) (kb_chunks st),
      kb_next := kb_next st + 2 * length (kb_chunks st)\<rparr>, Inr ())"
  proof (rule kb_open_takes_over)
    show "chunks_wf (ke_uuid ?k) (kb_next st) (kb_chunks st)" using base(2) by (simp add: kb_wf_def with_embedding_def)
    show "uuids_nonempty ?k" using base(3) by (simp add: uuids_nonempty_def with_embedding_def)
    show "kb_saved_index st = Some (ke_dim ?k, kb_index st)" using base(1) eb(3) by (simp add: kb_synced_def with_embedding_def)
  qed (use base in \<open>simp_all add: kb_synced_def\<close>)
  moreover have "ke_embed ?k ts = Inr (map (hashed env (em_dimension eb1)) ts)" for ts
    using api(7) by (auto simp: with_embedding_def index_vectors_def emb eb(3))
  ultimately show ?thesis using eb(1) emb base(4)
    by (intro exI [of _ eb] exI [of _ "fst (kb_open ?k st)"]) (auto simp: kb_synced_def comp_def)
qed

section \<open>Instances\<close>

text \<open>A service that embeds a text by its length and lists the last text first; a hashing backend.\<close>

definition length_vec :: "pystr \<Rightarrow> vec" where
  "length_vec t = [1, real (length t)]"

fun demo_service :: "json \<Rightarrow> json result" where
  "demo_service (JObj [m, (k, JArr ts), e]) =
     Inr (JObj [((asc ''data''), JArr (rev (map (api_item length_vec (map (\<lambda>t. case t of JStr s \<Rightarrow> s | _ \<Rightarrow> []) ts)) [0 ..< length ts])))])"
| "demo_service _ = Inl (ValueError [])"

definition demo_service_env :: embedding_env where
  "demo_service_env = \<lparr>ee_getenv = (\<lambda>_. None), ee_post = (\<lambda>u h b. demo_service b), ee_load = (\<lambda>m d. Inl (OtherError [])),
     ee_cuda = Inr False, ee_normalize = map unit_vec, ee_digest = (\<lambda>_. replicate 16 0)\<rparr>"

definition demo_outage_env :: embedding_env where
  "demo_outage_env = demo_service_env\<lparr>ee_post := (\<lambda>u h b. Inl (OtherError (asc ''refused''))),
     ee_getenv := (\<lambda>n. if n = (asc ''EMBEDDING_PROVIDER'') then Some (asc ''api'') else if n = (asc ''EMBEDDING_DIMENSION'') then Some (asc ''2'') else None)\<rparr>"

definition demo_backend :: "bool \<Rightarrow> embedding" where
  "demo_backend api = \<lparr>em_provider = [], em_device = (asc ''cpu''), em_dimension = 2, em_model = None, em_api_enabled = api,
     em_last_error = [], em_api_base = (asc ''http://e''), em_model_name = (asc ''m'')\<rparr>"

definition demo_vec_env :: "vec kb_env" where
  "demo_vec_env = \<lparr>ke_cfg = default_kb_config, ke_uuid = show_nat, ke_hex = (\<lambda>_. replicate 32 97),
     ke_pdf = (\<lambda>_. Inr [Some demo_text]), ke_embed = (\<lambda>ts. Inl (OtherError [])), ke_dim = 0, ke_inside = (\<lambda>_. True)\<rparr>"

definition demo_indexed :: "vec kb" where
  "demo_indexed = (let c = demo_chunk 0 (asc ''a.pdf''); v = unit_vec (length_vec demo_text) in
     \<lparr>kb_chunks = [c], kb_saved = Some [asdict c], kb_index = [v], kb_saved_index = Some (2, [v]),
      kb_bm25 = bm25_rebuild (bm25_init True (3/2) (3/4)) [c], kb_uploads = [], kb_next = 2\<rparr>)"

lemma demo_libraries: "libraries_ok demo_service_env" "libraries_ok demo_outage_env"
  by (auto simp: libraries_ok_def demo_service_env_def demo_outage_env_def)

lemma demo_serves: "serves demo_service_env (demo_backend True) length_vec"
  unfolding serves_def
proof
  fix texts
  let ?items = "rev (map (api_item length_vec texts) [0 ..< length texts])"
  have "ee_post demo_service_env u h (api_request (demo_backend True) texts) = Inr (JObj [((asc ''data''), JArr ?items)])" for u h
    by (simp add: demo_service_env_def api_request_def comp_def del: asc_Cons)
  then show "\<exists>payload items. ee_post demo_service_env (em_api_base (demo_backend True) @ (asc ''/embeddings''))
      (api_headers demo_service_env) (api_request (demo_backend True) texts) = Inr payload \<and>
      json_item payload (asc ''data'') = Inr (JArr items) \<and> mset items = mset (map (api_item length_vec texts) [0 ..< length texts])"
    by (intro exI [of _ "JObj [((asc ''data''), JArr ?items)]"] exI [of _ ?items]) (simp del: asc_Cons)
qed

lemma demo_settings:
  "env_int demo_service_env (asc ''EMBEDDING_BATCH_SIZE'') (asc ''64'') = Inr 64"
  "env_float demo_service_env (asc ''EMBEDDING_TIMEOUT'') (asc ''120'') = Inr 120"
  "py_int (JStr (asc ''2'')) = Inr 2" "py_int (JStr (asc ''768'')) = Inr 768"
proof -
  have i: "py_int (JStr (asc ''64'')) = Inr 64" by code_simp
  have f: "float_of_str (asc ''120'') = Some 120"
    by (simp add: float_of_str_def signed_def py_strip_def strip_by_def rstrip_by_def lstrip_by_def py_space_def
        mantissa_of_str_def scale10_def Let_def)
  show "env_int demo_service_env (asc ''EMBEDDING_BATCH_SIZE'') (asc ''64'') = Inr 64"
    using i by (simp add: env_int_def env_str_def demo_service_env_def del: asc_Cons)
  show "env_float demo_service_env (asc ''EMBEDDING_TIMEOUT'') (asc ''120'') = Inr 120"
    using f by (simp add: env_float_def env_str_def demo_service_env_def del: asc_Cons)
qed code_simp+

theorem embed_api_pointwise_witness:
  "embed demo_service_env (demo_backend True) [(asc ''ab''), (asc ''c'')] = Inr [unit_vec [1, 2], unit_vec [1, 1]]"
  using embed_api_pointwise [OF demo_libraries(1) _ demo_serves, of 2 64 120 "[(asc ''ab''), (asc ''c'')]"] demo_settings
  by (simp add: demo_backend_def length_vec_def del: asc_Cons) (simp add: asc_def)

theorem offline_ingestion_succeeds_witness:
  "\<exists>st' rep. upsert_pdf (with_embedding demo_service_env (demo_backend False) demo_vec_env) (asc ''p'') (asc ''a.pdf'') demo_indexed = Some (st', Inr rep) \<and>
     length (kb_index st') = length (kb_chunks st')"
proof -
  have "env_ok demo_vec_env" using demo_env_ok(1) by (simp add: env_ok_def demo_vec_env_def demo_env_def)
  moreover have "is_hashing (demo_backend False)" "0 < em_dimension (demo_backend False)"
    by (simp_all add: is_hashing_def demo_backend_def)
  moreover have "ke_pdf demo_vec_env (asc ''p'') = Inr [Some demo_text]" by (simp add: demo_vec_env_def)
  ultimately show ?thesis
    using offline_ingestion_succeeds [OF demo_libraries(1), of "demo_backend False" demo_vec_env "(asc ''p'')" "[Some demo_text]" "(asc ''a.pdf'')" demo_indexed]
    by blast
qed

lemma demo_chunks_wf: "chunks_wf show_nat 2 [demo_chunk 0 (asc ''a.pdf'')]"
proof -
  have fresh: "chunk_fresh show_nat 0 2 (demo_chunk 0 s)" for s
    by (auto simp: chunk_fresh_def demo_chunk_def intro: exI [of _ "1 :: nat"] exI [of _ "0 :: nat"])
  then show ?thesis unfolding chunks_wf_def siblings_agree_def by (simp add: demo_chunk_def demo_text_def)
qed

lemma demo_indexed_ok:
  "kb_synced (with_embedding demo_service_env (demo_backend True) demo_vec_env) demo_indexed" "kb_wf demo_vec_env demo_indexed"
  "uuids_nonempty demo_vec_env"
proof -
  have e: "embed demo_service_env (demo_backend True) [demo_text] = Inr [unit_vec (length_vec demo_text)]"
  proof -
    have "call_timeout demo_service_env None = Inr 120" using demo_settings(2) by (simp add: call_timeout_def)
    from embed_api_serves [OF demo_libraries(1) demo_serves, of 2 "[demo_text]", OF _ _ demo_settings(1) _ this]
    show ?thesis by (simp add: embed_def length_vec_def demo_backend_def)
  qed
  have "c_content (demo_chunk 0 (asc ''a.pdf'')) = demo_text" by (simp add: demo_chunk_def)
  then show "kb_synced (with_embedding demo_service_env (demo_backend True) demo_vec_env) demo_indexed"
    using e by (simp add: kb_synced_def demo_indexed_def with_embedding_def index_vectors_def length_vec_def Let_def
        bm25_rebuild_idem demo_backend_def del: asc_Cons)
  show "kb_wf demo_vec_env demo_indexed" using demo_chunks_wf by (simp add: kb_wf_def demo_indexed_def demo_vec_env_def Let_def)
  show "uuids_nonempty demo_vec_env" by (simp add: uuids_nonempty_def demo_vec_env_def)
qed

theorem degraded_restart_mixes_vectors_witness:
  "\<exists>eb st'. embedding_init demo_outage_env = Inr eb \<and> kb_open (with_embedding demo_outage_env eb demo_vec_env) demo_indexed = (st', Inr ()) \<and>
     kb_index st' = [unit_vec [1, 12]]"
proof -
  have g: "env_str demo_outage_env (asc ''EMBEDDING_PROVIDER'') d = (asc ''api'')" "env_str demo_outage_env (asc ''EMBEDDING_DIMENSION'') d = (asc ''2'')"
    "env_str demo_outage_env (asc ''EMBEDDING_STRICT'') d = d" "env_str demo_outage_env (asc ''HASHING_EMBED_DIM'') d = d" for d
    by (simp_all add: env_str_def demo_outage_env_def)
  have lo: "py_lower (asc ''api'') \<in> set api_providers" "py_lower (asc ''false'') \<noteq> (asc ''true'')" by code_simp+
  have "\<exists>eb st'. embedding_init demo_outage_env = Inr eb \<and> kb_open (with_embedding demo_outage_env eb demo_vec_env) demo_indexed = (st', Inr ()) \<and>
     kb_index st' = kb_index demo_indexed"
    using degraded_restart_mixes_vectors [OF demo_libraries(2) demo_indexed_ok, of 768] demo_settings(3,4) lo g
    by (force simp: demo_indexed_def Let_def demo_outage_env_def demo_service_env_def hashing_dim_def env_int_def demo_backend_def
        simp del: asc_Cons)
  then show ?thesis by (simp add: demo_indexed_def Let_def length_vec_def demo_text_def asc_def)
qed

end
