(* ===== verification/Evaluation.thy ===== *)
theory Evaluation
  imports Chat
begin

text \<open>
  The offline evaluation tool \<open>tools/ragas_observability_eval.py\<close>: loading the cases, running them
  through the graph, the statistics, the quality gates and the Markdown report. The RAGAS judge, the
  clock, \<open>json.loads\<close> and the rendering of floats by \<open>str\<close> are parameters. Floats are reals, so the
  filters of NaN and infinity keep every value; the rest of the tool is in \<open>Eval_Output\<close>.
\<close>

section \<open>Cases\<close>

record eval_case =
  ec_id :: pystr
  ec_question :: pystr
  ec_reference :: pystr
  ec_metadata :: json

definition default_case :: "pystr \<Rightarrow> pystr \<Rightarrow> pystr \<Rightarrow> json" where
  "default_case i question reference = JObj
     [((asc ''id''), JStr i), ((asc ''question''), JStr question), ((asc ''reference''), JStr reference)]"

definition default_cases :: json where
  "default_cases = JArr
     [default_case (asc ''paper_overview'') [0x8fd9, 0x7bc7, 0x8bba, 0x6587, 0x4e3b, 0x8981, 0x8bb2,
         0x4e86, 0x4ec0, 0x4e48, 0xff1f]
        (([0x8bba, 0x6587, 0x63d0, 0x51fa] @ asc '' PhysGated-LSTM '' @ [0x7528, 0x4e8e, 0x8d85,
            0x77ed, 0x671f, 0x5149, 0x4f0f, 0x529f, 0x7387, 0x9884, 0x6d4b, 0x3002, 0x5b83,
            0x7528] @ asc '' CPO '' @ [0x8bc6, 0x522b, 0x53cc, 0x4e8c, 0x6781, 0x7ba1, 0x6a21,
            0x578b, 0x53c2, 0x6570, 0xff0c]) @
         ([0x5e76, 0x5c06, 0x7269, 0x7406, 0x53c2, 0x6570, 0x6620, 0x5c04, 0x5230] @
             asc '' LSTM '' @ [0x95e8, 0x63a7, 0x5355, 0x5143, 0xff0c, 0x8ba9, 0x795e, 0x7ecf,
             0x7f51, 0x7edc, 0x8bb0, 0x5fc6, 0x6d41, 0x53d7, 0x5230, 0x7269, 0x7406, 0x673a, 0x5236,
             0x8c03, 0x5236, 0xff0c, 0x4ece, 0x800c, 0x63d0, 0x5347, 0x5f3a, 0x8f90, 0x7167, 0x6ce2,
             0x52a8, 0x573a, 0x666f, 0x4e0b, 0x7684, 0x6cdb, 0x5316, 0x80fd, 0x529b, 0x3002])),
      default_case (asc ''core_innovation'') [0x8fd9, 0x7bc7, 0x8bba, 0x6587, 0x7684, 0x6838,
          0x5fc3, 0x521b, 0x65b0, 0x662f, 0x4ec0, 0x4e48, 0xff1f]
        (([0x6838, 0x5fc3, 0x521b, 0x65b0, 0x662f] @
            asc '' Physics-Embedded Gated LSTM/PhysGated '' @ [0x67b6, 0x6784, 0xff1a, 0x4e0d,
            0x662f, 0x7b80, 0x5355, 0x62fc, 0x63a5, 0x7269, 0x7406, 0x7279, 0x5f81, 0xff0c]) @
         ([0x800c, 0x662f, 0x628a, 0x53cc, 0x4e8c, 0x6781, 0x7ba1, 0x6a21, 0x578b, 0x53c2, 0x6570,
             0x5d4c, 0x5165] @ asc '' LSTM gates'' @ [0xff0c, 0x5e76, 0x7ed3, 0x5408, 0x4e00,
             0x81f4, 0x6027, 0x635f, 0x5931, 0x548c, 0x7269, 0x7406, 0x6b8b, 0x5dee, 0x8c03, 0x5236,
             0x6765, 0x6291, 0x5236, 0x9884, 0x6d4b, 0x8bef, 0x5dee, 0x3002])),
      default_case (asc ''experiment_result'') [0x8fd9, 0x7bc7, 0x8bba, 0x6587, 0x7684, 0x5b9e,
          0x9a8c, 0x7ed3, 0x679c, 0x600e, 0x4e48, 0x6837, 0xff1f]
        (([0x5b9e, 0x9a8c, 0x663e, 0x793a, 0x6a21, 0x578b, 0x5728] @ asc '' 30 '' @ [0x5206, 0x949f,
            0x9884, 0x6d4b, 0x4e2d, 0x8fbe, 0x5230] @ asc '' R2=0.936'' @ [0xff0c, 0x76f8, 0x6bd4,
            0x57fa, 0x7ebf] @ asc '' RMSE '' @ [0x964d, 0x4f4e] @ asc '' 18.18%'' @ [0xff0c] @
            asc ''MAE '' @ [0x964d, 0x4f4e] @ asc '' 23.81%'' @ [0x3002]) @
         ([0x5728, 0x5feb, 0x901f, 0x8f90, 0x7167, 0x7a81, 0x53d8, 0x7b49, 0x6781, 0x7aef, 0x6761,
             0x4ef6, 0x4e0b, 0xff0c, 0x6a21, 0x578b, 0x4fdd, 0x6301] @ asc '' R2=0.992'' @ [0xff0c,
             0x9ad8, 0x4e8e, 0x57fa, 0x7ebf] @ asc '' 0.876'' @ [0xff0c, 0x51cf, 0x5c11, 0x76f8,
             0x4f4d, 0x6ede, 0x540e, 0x548c, 0x975e, 0x7269, 0x7406, 0x8fc7, 0x51b2, 0x3002]))]"

definition incomplete_case :: "nat \<Rightarrow> exn" where
  "incomplete_case index =
     ValueError ((asc ''Eval case #'') @ show_nat index @ (asc '' must include non-empty question and reference.''))"

definition read_case :: "(json \<Rightarrow> pystr) \<Rightarrow> nat \<Rightarrow> json \<Rightarrow> eval_case result" where
  "read_case repr index item =
     rbind (json_get_or item (asc ''question'') (JStr [])) (\<lambda>q.
     rbind (json_get_or item (asc ''reference'') (JStr [])) (\<lambda>r.
       let question = py_strip (json_str repr q); reference = py_strip (json_str repr r)
       in if question = [] \<or> reference = [] then Inl (incomplete_case index)
          else rbind (json_get item (asc ''id'')) (\<lambda>i.
            rbind (json_get_or item (asc ''metadata'') (JObj [])) (\<lambda>metadata. Inr
              \<lparr>ec_id = json_str repr (json_or i (JStr ((asc ''case_'') @ pad_digits 3 index))),
               ec_question = question, ec_reference = reference, ec_metadata = metadata\<rparr>))))"

fun read_cases :: "(json \<Rightarrow> pystr) \<Rightarrow> nat \<Rightarrow> json list \<Rightarrow> eval_case list result" where
  "read_cases repr index [] = Inr []"
| "read_cases repr index (item # items) =
     rbind (read_case repr index item) (\<lambda>c. rbind (read_cases repr (index + 1) items) (\<lambda>cs. Inr (c # cs)))"

text \<open>\<open>payload["cases"] if isinstance(payload, dict) else payload\<close>; the case file is optional.\<close>

fun case_list :: "json \<Rightarrow> json result" where
  "case_list (JObj kvs) = (case map_of kvs (asc ''cases'') of None \<Rightarrow> Inl (OtherError (asc ''cases'')) | Some v \<Rightarrow> Inr v)"
| "case_list payload = Inr payload"

definition load_cases :: "(json \<Rightarrow> pystr) \<Rightarrow> json result option \<Rightarrow> int \<Rightarrow> eval_case list result" where
  "load_cases repr file limit =
     rbind (case file of Some payload \<Rightarrow> rbind payload case_list | None \<Rightarrow> Inr default_cases) (\<lambda>cases.
     rbind (json_iter cases) (\<lambda>items.
     rbind (read_cases repr 1 items) (\<lambda>normalized.
       Inr (if limit > 0 then take (nat limit) normalized else normalized))))"

section \<open>Statistics\<close>

text \<open>For a percentage between 0 and 100; the tool asks for 50 and 95.\<close>

definition percentile :: "real list \<Rightarrow> real \<Rightarrow> real option" where
  "percentile values pct =
     (let clean = sort values
      in if clean = [] then None
         else if length clean = 1 then Some (clean ! 0)
         else
           let rank = real (length clean - 1) * pct / 100; lower = \<lfloor>rank\<rfloor>; upper = \<lceil>rank\<rceil>
           in if lower = upper then Some (clean ! nat lower)
              else Some (clean ! nat lower + (clean ! nat upper - clean ! nat lower) * (rank - of_int lower)))"

definition mean :: "real list \<Rightarrow> real option" where
  "mean xs = (if xs = [] then None else Some (sum_list xs / real (length xs)))"

definition numbers_of :: "json list \<Rightarrow> real list" where
  "numbers_of values = concat (map (\<lambda>v. case py_float v of Inr x \<Rightarrow> [x] | Inl e \<Rightarrow> []) values)"

definition numeric_mean :: "json list \<Rightarrow> real option" where
  "numeric_mean values = mean (numbers_of values)"

definition source_score :: "(pystr \<times> json) list \<Rightarrow> real list" where
  "source_score source = take 1 (numbers_of [obj_get source (asc ''retrieval_score'') JNull, obj_get source (asc ''score'') JNull])"

definition source_scores :: "(pystr \<times> json) list list \<Rightarrow> real option \<times> real option" where
  "source_scores sources =
     (let scores = concat (map source_score sources)
      in if scores = [] then (None, None) else (Some (Max (set scores)), mean scores))"

section \<open>Running the cases\<close>

record eval_record =
  er_case :: eval_case
  er_answer :: pystr
  er_route :: pystr
  er_web_fallback :: bool
  er_latency :: real
  er_retrieved :: nat
  er_context_chars :: nat
  er_top_score :: "real option"
  er_avg_score :: "real option"
  er_sources :: "(pystr \<times> json) list list"
  er_contexts :: "pystr list"
  er_steps :: "pystr list"
  er_reasoning :: "pystr list"
  er_scores :: "(pystr \<times> json) list"

definition dicts_of :: "json list \<Rightarrow> (pystr \<times> json) list list" where
  "dicts_of items = concat (map (\<lambda>item. case item of JObj kvs \<Rightarrow> [kvs] | _ \<Rightarrow> []) items)"

definition record_of :: "eval_case \<Rightarrow> real \<Rightarrow> graph_state \<Rightarrow> eval_record" where
  "record_of c seconds st =
     (let contexts = map py_strip (filter (\<lambda>s. s \<noteq> []) (map d_content (gs_documents st)));
          sources = dicts_of (if gs_sources st \<noteq> [] then gs_sources st else map d_meta (gs_documents st));
          (top, avg) = source_scores sources
      in \<lparr>er_case = c, er_answer = gs_generation st, er_route = route_value (gs_route st),
          er_web_fallback = gs_web_fallback st, er_latency = py_round 3 seconds,
          er_retrieved = length contexts, er_context_chars = sum_list (map length contexts),
          er_top_score = top, er_avg_score = avg, er_sources = sources, er_contexts = contexts,
          er_steps = gs_steps st, er_reasoning = gs_reasoning st, er_scores = []\<rparr>)"

text \<open>The services and the clock as they are for the \<open>k\<close>-th case.\<close>

fun run_cases_from ::
  "nat \<Rightarrow> (nat \<Rightarrow> graph_env) \<Rightarrow> (nat \<Rightarrow> real) \<Rightarrow> eval_case list \<Rightarrow> eval_record list result" where
  "run_cases_from k envs seconds [] = Inr []"
| "run_cases_from k envs seconds (c # cs) =
     rbind (snd (crag_invoke (envs k) (ec_question c) [] [])) (\<lambda>st.
     rbind (run_cases_from (k + 1) envs seconds cs) (\<lambda>rs. Inr (record_of c (seconds k) st # rs)))"

definition run_application_cases ::
  "(nat \<Rightarrow> graph_env) \<Rightarrow> (nat \<Rightarrow> real) \<Rightarrow> eval_case list \<Rightarrow> eval_record list result" where
  "run_application_cases envs seconds cases = run_cases_from 0 envs seconds cases"

section \<open>Summary and gates\<close>

record gate =
  ga_metric :: pystr
  ga_value :: json
  ga_threshold :: real
  ga_passed :: bool

record summary =
  su_count :: nat
  su_quality :: "(pystr \<times> json) list"
  su_routing :: "(pystr \<times> json) list"
  su_retrieval :: "(pystr \<times> json) list"
  su_latency :: "(pystr \<times> json) list"
  su_gates :: "gate list"
  su_passed :: bool

definition default_thresholds :: "(pystr \<times> real) list" where
  "default_thresholds =
     [((asc ''faithfulness''), 75/100), ((asc ''answer_relevancy''), 65/100), ((asc ''context_precision''), 60/100),
      ((asc ''context_recall''), 60/100), ((asc ''retrieval_hit_rate''), 1), ((asc ''local_route_rate''), 1),
      ((asc ''p95_latency_sec''), 60)]"

definition json_of_option :: "real option \<Rightarrow> json" where
  "json_of_option v = (case v of None \<Rightarrow> JNull | Some x \<Rightarrow> JReal x)"

definition rate :: "('a \<Rightarrow> bool) \<Rightarrow> 'a list \<Rightarrow> json" where
  "rate p xs = (if xs = [] then JNull else JReal (real (length (filter p xs)) / real (length xs)))"

text \<open>\<open>value is not None and float(value) >= threshold\<close>\<close>

definition meets :: "(real \<Rightarrow> bool) \<Rightarrow> json \<Rightarrow> bool result" where
  "meets p v = (if v = JNull then Inr False else rbind (py_float v) (\<lambda>x. Inr (p x)))"

definition gate_of ::
  "(pystr \<times> json) list \<Rightarrow> (pystr \<times> json) list \<Rightarrow> (pystr \<times> json) list \<Rightarrow> (pystr \<times> json) list \<Rightarrow>
   pystr \<times> real \<Rightarrow> gate result" where
  "gate_of quality routing retrieval latency entry =
     (case entry of (metric, threshold) \<Rightarrow>
        let (table, p) =
          (if metric \<in> fst ` set quality then (quality, \<lambda>x. x \<ge> threshold)
           else if metric = (asc ''p95_latency_sec'') then (latency, \<lambda>x. x \<le> threshold)
           else if metric \<in> fst ` set routing then (routing, \<lambda>x. x \<ge> threshold)
           else (retrieval, \<lambda>x. x \<ge> threshold));
          v = obj_get table metric JNull
        in rbind (meets p v) (\<lambda>ok. Inr
             \<lparr>ga_metric = metric, ga_value = v, ga_threshold = threshold, ga_passed = ok\<rparr>))"

definition routing_stats :: "eval_record list \<Rightarrow> (pystr \<times> json) list" where
  "routing_stats records =
     [((asc ''local_route_rate''), rate (\<lambda>r. er_route r = (asc ''local'')) records),
      ((asc ''web_fallback_rate''), rate er_web_fallback records)]"

definition retrieval_stats :: "eval_record list \<Rightarrow> (pystr \<times> json) list" where
  "retrieval_stats records =
     [((asc ''retrieval_hit_rate''), rate (\<lambda>r. er_retrieved r > 0) records),
      ((asc ''avg_retrieved_count''), json_of_option (numeric_mean (map (\<lambda>r. JInt (int (er_retrieved r))) records))),
      ((asc ''avg_context_chars''), json_of_option (numeric_mean (map (\<lambda>r. JInt (int (er_context_chars r))) records))),
      ((asc ''avg_top_retrieval_score''), json_of_option (numeric_mean (map (\<lambda>r. json_of_option (er_top_score r)) records)))]"

definition latency_stats :: "eval_record list \<Rightarrow> (pystr \<times> json) list" where
  "latency_stats records =
     (let latencies = map er_latency records
      in [((asc ''avg_latency_sec''), json_of_option (numeric_mean (map JReal latencies))),
          ((asc ''p50_latency_sec''), json_of_option (percentile latencies 50)),
          ((asc ''p95_latency_sec''), json_of_option (percentile latencies 95)),
          ((asc ''max_latency_sec''), if latencies = [] then JNull else JReal (Max (set latencies)))])"

definition build_summary :: "eval_record list \<Rightarrow> (pystr \<times> json) list \<Rightarrow> summary result" where
  "build_summary records quality =
     (let routing = routing_stats records; retrieval = retrieval_stats records; latency = latency_stats records
      in rbind (mapr (gate_of quality routing retrieval latency) default_thresholds) (\<lambda>gates. Inr
           \<lparr>su_count = length records, su_quality = quality, su_routing = routing, su_retrieval = retrieval,
            su_latency = latency, su_gates = gates,
            su_passed = list_all ga_passed (filter (\<lambda>g. ga_value g \<noteq> JNull) gates)\<rparr>))"

section \<open>The report\<close>

definition fmt :: "json \<Rightarrow> pystr" where
  "fmt v = (case py_float v of Inl e \<Rightarrow> (asc ''-'') | Inr x \<Rightarrow> show_fixed 3 x)"

definition gate_row :: "gate \<Rightarrow> pystr" where
  "gate_row g =
     (asc ''| '') @ ga_metric g @ (asc '' | '') @ fmt (ga_value g) @ (asc '' | '') @
     (if ga_metric g = (asc ''p95_latency_sec'') then (asc ''<='') else (asc ''>='')) @ (asc '' '') @ fmt (JReal (ga_threshold g)) @ (asc '' | '') @
     (if ga_passed g then (asc ''PASS'') else (asc ''WARN'')) @ (asc '' |'')"

definition metric_row :: "pystr \<Rightarrow> pystr \<times> json \<Rightarrow> pystr" where
  "metric_row area kv = (asc ''| '') @ area @ (asc '' | '') @ fst kv @ (asc '' | '') @ fmt (snd kv) @ (asc '' |'')"

definition score_cell :: "eval_record \<Rightarrow> pystr \<Rightarrow> pystr" where
  "score_cell r metric = fmt (obj_get (er_scores r) metric JNull)"

definition case_row :: "eval_record \<Rightarrow> pystr" where
  "case_row r =
     (asc ''| '') @ ec_id (er_case r) @ (asc '' | '') @ er_route r @ (asc '' | '') @ fmt (JReal (er_latency r)) @ (asc '' | '') @
     show_nat (er_retrieved r) @ (asc '' | '') @ score_cell r (asc ''faithfulness'') @ (asc '' | '') @
     score_cell r (asc ''answer_relevancy'') @ (asc '' | '') @ score_cell r (asc ''context_precision'') @ (asc '' | '') @
     score_cell r (asc ''context_recall'') @ (asc '' |'')"

definition report_lines ::
  "(json \<Rightarrow> pystr) \<Rightarrow> pystr \<Rightarrow> summary \<Rightarrow> (pystr \<times> json) list \<Rightarrow> eval_record list \<Rightarrow> pystr list" where
  "report_lines repr now su config records =
     [(asc ''# RAGAS Local Observability Report''), [],
      (asc ''- Generated at: '') @ now,
      (asc ''- Cases: '') @ show_nat (su_count su),
      (asc ''- Judge model: '') @ json_str repr (obj_get config (asc ''judge_model'') JNull),
      (asc ''- Retrieval mode: '') @ json_str repr (obj_get config (asc ''retrieval_mode'') JNull),
      (asc ''- LangSmith tracing for eval: '') @ json_str repr (obj_get config (asc ''trace_langsmith'') JNull),
      [], (asc ''## Quality Gates''), [],
      (asc ''| Gate | Value | Threshold | Status |''),
      (asc ''| --- | ---: | ---: | --- |'')] @
     map gate_row (su_gates su) @
     [[], (asc ''## Aggregate Metrics''), [], (asc ''| Area | Metric | Value |''), (asc ''| --- | --- | ---: |'')] @
     map (metric_row (asc ''RAGAS'')) (su_quality su) @
     map (metric_row (asc ''routing'')) (su_routing su) @
     map (metric_row (asc ''retrieval'')) (su_retrieval su) @
     map (metric_row (asc ''latency'')) (su_latency su) @
     [[], (asc ''## Case Results''), [],
      (asc ''| Case | Route | Latency(s) | Contexts | Faithfulness | Answer Rel. | Ctx Precision | Ctx Recall |''),
      (asc ''| --- | --- | ---: | ---: | ---: | ---: | ---: | ---: |'')] @
     map case_row records @
     [[], (asc ''## Enterprise Observability Notes''), [],
      (asc ''- RAGAS '' @ [0x6307, 0x6807, 0x7528, 0x4e8e, 0x56de, 0x7b54, 0x8d28, 0x91cf, 0xff1a] @
          asc ''faithfulness '' @ [0x770b, 0x7b54, 0x6848, 0x662f, 0x5426, 0x88ab, 0x4e0a, 0x4e0b,
          0x6587, 0x652f, 0x6491, 0xff0c] @ asc ''answer_relevancy '' @ [0x770b, 0x56de, 0x7b54,
          0x662f, 0x5426, 0x8d34, 0x5408, 0x95ee, 0x9898, 0xff0c] @
          asc ''context_precision/context_recall '' @ [0x770b, 0x68c0, 0x7d22, 0x4e0a, 0x4e0b,
          0x6587, 0x662f, 0x5426, 0x7cbe, 0x786e, 0x4e14, 0x8986, 0x76d6, 0x53c2, 0x8003, 0x7b54,
          0x6848, 0x3002]),
      (asc ''- '' @ [0x5de5, 0x7a0b, 0x6307, 0x6807, 0x7528, 0x4e8e, 0x7ebf, 0x4e0a, 0x89c2, 0x6d4b,
          0xff1a] @ asc ''route'' @ [0x3001] @ asc ''retrieved_count'' @ [0x3001] @
          asc ''top_retrieval_score'' @ [0x3001] @ asc ''context_chars'' @ [0x3001] @
          asc ''latency_sec '' @ [0x53ef, 0x4ee5, 0x8fdb, 0x5165, 0x65e5, 0x5fd7, 0x3001] @
          asc ''Prometheus '' @ [0x6216] @ asc '' LangSmith metadata'' @ [0x3002]),
      (asc ''- '' @ [0x672c, 0x811a, 0x672c, 0x9ed8, 0x8ba4, 0x53ea, 0x5199, 0x672c, 0x5730, 0x6587,
          0x4ef6, 0xff0c, 0x5e76, 0x5173, 0x95ed] @ asc '' RAGAS analytics '' @ [0x4e0e] @
          asc '' LangSmith tracing'' @ [0xff1b, 0x9700, 0x8981, 0x94fe, 0x8def, 0x8ffd, 0x8e2a,
          0x65f6, 0x663e, 0x5f0f, 0x52a0] @ asc '' --trace-langsmith'' @ [0x3002])]"

definition report_markdown ::
  "(json \<Rightarrow> pystr) \<Rightarrow> pystr \<Rightarrow> summary \<Rightarrow> (pystr \<times> json) list \<Rightarrow> eval_record list \<Rightarrow> pystr" where
  "report_markdown repr now su config records = py_join [10] (report_lines repr now su config records)"

section \<open>The whole run\<close>

text \<open>The judge, when it is not switched off, answers with a score row per record and the aggregate.\<close>

definition attach_scores :: "(pystr \<times> json) list list \<Rightarrow> eval_record list \<Rightarrow> eval_record list" where
  "attach_scores rows records =
     map (\<lambda>(r, row). r\<lparr>er_scores := row\<rparr>) (zip records rows) @ drop (length rows) records"

definition evaluate_run ::
  "(json \<Rightarrow> pystr) \<Rightarrow> (nat \<Rightarrow> graph_env) \<Rightarrow> (nat \<Rightarrow> real) \<Rightarrow> json result option \<Rightarrow> int \<Rightarrow>
   (eval_record list \<Rightarrow> ((pystr \<times> json) list list \<times> (pystr \<times> json) list) result) option \<Rightarrow>
   (eval_record list \<times> summary) result" where
  "evaluate_run repr envs seconds file limit judge =
     rbind (load_cases repr file limit) (\<lambda>cases.
     rbind (run_application_cases envs seconds cases) (\<lambda>records.
     rbind (case judge of None \<Rightarrow> Inr ([], []) | Some j \<Rightarrow> j records) (\<lambda>(rows, aggregate).
     rbind (build_summary (attach_scores rows records) aggregate) (\<lambda>su.
       Inr (attach_scores rows records, su)))))"

section \<open>Facts about percentiles\<close>

text \<open>The linear interpolation of a sorted list at a rank.\<close>

definition interp :: "real list \<Rightarrow> real \<Rightarrow> real" where
  "interp s x = s ! nat \<lfloor>x\<rfloor> + (s ! (nat \<lfloor>x\<rfloor> + 1) - s ! nat \<lfloor>x\<rfloor>) * (x - of_int \<lfloor>x\<rfloor>)"

lemma sort_not_Nil: "values \<noteq> [] \<Longrightarrow> sort values \<noteq> []"
  by (metis length_0_conv length_sort)

lemma percentile_interp:
  assumes "values \<noteq> []" "0 \<le> pct"
  shows "percentile values pct = Some (interp (sort values) (real (length values - 1) * pct / 100))"
proof -
  let ?x = "real (length values - 1) * pct / 100"
  have pos: "0 \<le> \<lfloor>?x\<rfloor>" using assms(2) by simp
  have frac: "?x - of_int \<lfloor>?x\<rfloor> = 0" if "\<lfloor>?x\<rfloor> = \<lceil>?x\<rceil>" using that by linarith
  have up: "nat \<lceil>?x\<rceil> = nat \<lfloor>?x\<rfloor> + 1" if "\<lfloor>?x\<rfloor> \<noteq> \<lceil>?x\<rceil>"
  proof -
    have "\<lceil>?x\<rceil> = \<lfloor>?x\<rfloor> + 1" using that by linarith
    then show ?thesis using pos by (simp add: nat_add_distrib del: One_nat_def)
  qed
  show ?thesis
  proof (cases "length values = 1")
    case True
    then show ?thesis using sort_not_Nil [OF assms(1)] by (simp add: percentile_def Let_def interp_def)
  next
    case False
    then show ?thesis
      using sort_not_Nil [OF assms(1)] frac up by (simp add: percentile_def Let_def interp_def del: of_nat_diff)
  qed
qed

lemma interp_range:
  assumes "sorted s" "0 \<le> x" "x \<le> real (length s - 1)" "s \<noteq> []"
  shows "s ! nat \<lfloor>x\<rfloor> \<le> interp s x" "nat \<lfloor>x\<rfloor> < length s"
    "nat \<lfloor>x\<rfloor> + 1 < length s \<Longrightarrow> interp s x \<le> s ! (nat \<lfloor>x\<rfloor> + 1)"
    "nat \<lfloor>x\<rfloor> + 1 = length s \<Longrightarrow> interp s x = s ! nat \<lfloor>x\<rfloor>"
proof -
  let ?k = "nat \<lfloor>x\<rfloor>" and ?f = "x - of_int \<lfloor>x\<rfloor>"
  have f: "0 \<le> ?f" "?f \<le> 1" by linarith+
  have kx: "real ?k \<le> x" using assms(2) by simp
  then have "?k \<le> length s - 1" using assms(3) by linarith
  then show len: "?k < length s" using assms(4) by (cases s) auto
  have last: "?f = 0" if "?k + 1 = length s"
    using that kx assms(2,3) by simp linarith
  show "interp s x = s ! ?k" if "?k + 1 = length s" using last [OF that] by (simp add: interp_def)
  have step: "s ! ?k \<le> s ! (?k + 1)" if "?k + 1 < length s" using assms(1) that by (simp add: sorted_nth_mono)
  show "s ! ?k \<le> interp s x"
  proof (cases "?k + 1 < length s")
    case True
    then show ?thesis using step f(1) by (simp add: interp_def)
  next
    case False
    then show ?thesis using last len by (simp add: interp_def)
  qed
  show "interp s x \<le> s ! (?k + 1)" if "?k + 1 < length s"
    using mult_left_le [of ?f "s ! (?k + 1) - s ! ?k"] step [OF that] f by (simp add: interp_def)
qed

lemma interp_mono:
  assumes s: "sorted s" "s \<noteq> []" and x: "0 \<le> x" "x \<le> y" "y \<le> real (length s - 1)"
  shows "interp s x \<le> interp s y"
proof (cases "nat \<lfloor>x\<rfloor> = nat \<lfloor>y\<rfloor>")
  case True
  have y: "0 \<le> y" using x by linarith
  have same: "\<lfloor>x\<rfloor> = \<lfloor>y\<rfloor>" using True x(1) y by (simp add: eq_nat_nat_iff)
  show ?thesis
  proof (cases "nat \<lfloor>y\<rfloor> + 1 < length s")
    case True
    then have "s ! nat \<lfloor>y\<rfloor> \<le> s ! (nat \<lfloor>y\<rfloor> + 1)" using s(1) by (simp add: sorted_nth_mono)
    then show ?thesis using x(2) by (simp add: interp_def same mult_left_mono)
  next
    case False
    then show ?thesis using interp_range [OF s(1) x(1) _ s(2)] interp_range [OF s(1) y x(3) s(2)] same x by simp
  qed
next
  case False
  have y: "0 \<le> y" "x \<le> real (length s - 1)" using x by linarith+
  have less: "nat \<lfloor>x\<rfloor> + 1 \<le> nat \<lfloor>y\<rfloor>" using False nat_mono [OF floor_mono [OF x(2)]] by simp
  have ylen: "nat \<lfloor>y\<rfloor> < length s" by (rule interp_range(2) [OF s(1) y(1) x(3) s(2)])
  have "interp s x \<le> s ! (nat \<lfloor>x\<rfloor> + 1)" using interp_range(3) [OF s(1) x(1) y(2) s(2)] less ylen by simp
  also have "\<dots> \<le> s ! nat \<lfloor>y\<rfloor>" using s(1) less ylen by (simp add: sorted_nth_mono)
  also have "\<dots> \<le> interp s y" by (rule interp_range(1) [OF s(1) y(1) x(3) s(2)])
  finally show ?thesis .
qed

lemma sorted_last_Max:
  fixes t :: "real list"
  assumes "sorted t" "t \<noteq> []"
  shows "t ! (length t - 1) = Max (set t)"
proof (rule Max_eqI [symmetric])
  show "t ! (length t - 1) \<in> set t" using assms(2) by simp
qed (use assms in \<open>auto simp: in_set_conv_nth intro!: sorted_nth_mono\<close>)

text \<open>The percentiles of a non-empty list are ordered - the minimum is the one of 0, the maximum the
  one of 100, and between them a larger percentage never gives a smaller value - and do not depend
  on the order of the list.\<close>

theorem percentile_bounds:
  assumes "values \<noteq> []" "0 \<le> p" "p \<le> q" "q \<le> 100"
  shows "\<exists>a b. percentile values p = Some a \<and> percentile values q = Some b \<and>
     Min (set values) \<le> a \<and> a \<le> b \<and> b \<le> Max (set values) \<and>
     percentile values 0 = Some (Min (set values)) \<and> percentile values 100 = Some (Max (set values)) \<and>
     (\<forall>other. mset other = mset values \<longrightarrow> percentile other p = Some a)"
proof -
  let ?s = "sort values" and ?m = "real (length values - 1)"
  have s: "sorted ?s" "?s \<noteq> []" "length ?s = length values" using sort_not_Nil [OF assms(1)] by simp_all
  have mono: "interp ?s (?m * x / 100) \<le> interp ?s (?m * y / 100)" if "0 \<le> x" "x \<le> y" "y \<le> 100" for x y
  proof (rule interp_mono [OF s(1,2)])
    show "?m * x / 100 \<le> ?m * y / 100" using that by (simp add: mult_left_mono divide_right_mono)
    have "?m * y \<le> ?m * 100" using that(3) by (rule mult_left_mono) simp
    then show "?m * y / 100 \<le> real (length ?s - 1)" using s(3) by simp
  qed (use that in simp)
  have low: "interp ?s (?m * 0 / 100) = Min (set values)"
  proof -
    have "interp ?s 0 = ?s ! 0" by (simp add: interp_def)
    also have "\<dots> = Min (set ?s)"
      using s(1,2) by (cases ?s) (auto intro!: Min_eqI [symmetric])
    finally show ?thesis by simp
  qed
  have high: "interp ?s (?m * 100 / 100) = Max (set values)"
  proof -
    have "nat \<lfloor>?m\<rfloor> + 1 = length ?s" using assms(1) by (cases "values") simp_all
    then have "interp ?s ?m = ?s ! nat \<lfloor>?m\<rfloor>" using s by (intro interp_range(4)) simp_all
    then have "interp ?s ?m = ?s ! (length ?s - 1)" using s(3) by simp
    also have "\<dots> = Max (set ?s)"
      by (rule sorted_last_Max [OF s(1,2)])
    finally show ?thesis by simp
  qed
  have perc: "percentile values x = Some (interp ?s (?m * x / 100))" if "0 \<le> x" for x
    using percentile_interp [OF assms(1) that] .
  have "percentile other p = Some (interp ?s (?m * p / 100))" if "mset other = mset values" for other
  proof -
    have "sort other = ?s" "length other = length values" "other \<noteq> []"
      using that assms(1) by (auto intro: properties_for_sort dest: mset_eq_length)
    then show ?thesis using percentile_interp [of other p] assms(2) by simp
  qed
  then show ?thesis
    using perc assms mono [of 0 p] mono [of p q] mono [of q 100] low high
    by (intro exI [of _ "interp ?s (?m * p / 100)"] exI [of _ "interp ?s (?m * q / 100)"]) auto
qed

section \<open>Facts about the gates\<close>

text \<open>A measured value meets a bound; a missing one is not counted.\<close>

definition holds_if_measured :: "(real \<Rightarrow> bool) \<Rightarrow> json \<Rightarrow> bool" where
  "holds_if_measured p v \<longleftrightarrow> v = JNull \<or> (\<exists>x. py_float v = Inr x \<and> p x)"

definition quality_thresholds :: "(pystr \<times> real) list" where
  "quality_thresholds = take 4 default_thresholds"

lemma meets_measured: "meets p v = Inr ok \<Longrightarrow> (v \<noteq> JNull \<longrightarrow> ok) \<longleftrightarrow> holds_if_measured p v"
  by (auto simp: meets_def holds_if_measured_def rbind_Inr_iff split: if_splits)

lemma quality_keys:
  shows "(asc ''p95_latency_sec'') \<notin> set (map fst quality_thresholds)"
    "(asc ''local_route_rate'') \<notin> set (map fst quality_thresholds)"
    "(asc ''web_fallback_rate'') \<notin> set (map fst quality_thresholds)"
    "(asc ''retrieval_hit_rate'') \<notin> set (map fst quality_thresholds)"
    "(asc ''avg_retrieved_count'') \<notin> set (map fst quality_thresholds)"
    "(asc ''avg_context_chars'') \<notin> set (map fst quality_thresholds)"
    "(asc ''avg_top_retrieval_score'') \<notin> set (map fst quality_thresholds)"
proof -
  have keys: "map fst quality_thresholds = [(asc ''faithfulness''), (asc ''answer_relevancy''), (asc ''context_precision''), (asc ''context_recall'')]"
    by (simp add: quality_thresholds_def default_thresholds_def del: asc_Cons)
  show "(asc ''p95_latency_sec'') \<notin> set (map fst quality_thresholds)"
    "(asc ''local_route_rate'') \<notin> set (map fst quality_thresholds)"
    "(asc ''web_fallback_rate'') \<notin> set (map fst quality_thresholds)"
    "(asc ''retrieval_hit_rate'') \<notin> set (map fst quality_thresholds)"
    "(asc ''avg_retrieved_count'') \<notin> set (map fst quality_thresholds)"
    "(asc ''avg_context_chars'') \<notin> set (map fst quality_thresholds)"
    "(asc ''avg_top_retrieval_score'') \<notin> set (map fst quality_thresholds)"
    unfolding keys by code_simp+
qed

lemma gate_quality:
  assumes "gate_of quality routing retrieval latency (metric, threshold) = Inr g" "metric \<in> set (map fst quality_thresholds)"
    and "fst ` set routing = {(asc ''local_route_rate''), (asc ''web_fallback_rate'')}"
    and "map_of retrieval metric = None"
  shows "(ga_value g \<noteq> JNull \<longrightarrow> ga_passed g) \<longleftrightarrow> holds_if_measured (\<lambda>x. x \<ge> threshold) (obj_get quality metric JNull)"
proof (cases "metric \<in> fst ` set quality")
  case True
  then obtain ok where "meets (\<lambda>x. x \<ge> threshold) (obj_get quality metric JNull) = Inr ok"
    "ga_value g = obj_get quality metric JNull" "ga_passed g = ok"
    using assms(1) by (auto simp: gate_of_def rbind_Inr_iff Let_def)
  then show ?thesis using meets_measured by metis
next
  case False
  have "metric \<noteq> (asc ''p95_latency_sec'')" "metric \<noteq> (asc ''local_route_rate'')" "metric \<noteq> (asc ''web_fallback_rate'')"
    using assms(2) quality_keys by metis+
  then have "gate_of quality routing retrieval latency (metric, threshold) =
      rbind (meets (\<lambda>x. x \<ge> threshold) (obj_get retrieval metric JNull)) (\<lambda>ok. Inr
        \<lparr>ga_metric = metric, ga_value = obj_get retrieval metric JNull, ga_threshold = threshold, ga_passed = ok\<rparr>)"
    unfolding gate_of_def prod.case assms(3) using False by (simp only: if_False insert_iff empty_iff Let_def prod.case simp_thms)
  moreover have "obj_get retrieval metric JNull = JNull" using assms(4) by (simp add: obj_get_def)
  ultimately have "ga_value g = JNull" using assms(1) by (auto simp: rbind_Inr_iff meets_def)
  moreover have "obj_get quality metric JNull = JNull"
    using False by (simp add: obj_get_def map_of_eq_None_iff [THEN iffD2])
  ultimately show ?thesis by (simp add: holds_if_measured_def)
qed

lemma rate_one: "holds_if_measured (\<lambda>x. x \<ge> 1) (rate p xs) \<longleftrightarrow> (\<forall>x\<in>set xs. p x)"
proof (cases "xs = []")
  case False
  then have "real (length (filter p xs)) / real (length xs) \<ge> 1 \<longleftrightarrow> length (filter p xs) \<ge> length xs" by (simp add: field_simps)
  also have "\<dots> \<longleftrightarrow> (\<forall>x\<in>set xs. p x)"
    using length_filter_less [of _ xs p] by (auto simp flip: not_less simp: filter_True [of xs p])
  finally show ?thesis using False by (simp add: holds_if_measured_def rate_def)
qed (simp add: holds_if_measured_def rate_def)

text \<open>The engineering gates.\<close>

lemma gate_engineering:
  assumes "(asc ''retrieval_hit_rate'') \<notin> fst ` set quality" "(asc ''local_route_rate'') \<notin> fst ` set quality" "(asc ''p95_latency_sec'') \<notin> fst ` set quality"
  shows "gate_of quality (routing_stats rs) (retrieval_stats rs) (latency_stats rs) ((asc ''retrieval_hit_rate''), t) = Inr g \<Longrightarrow>
      (ga_value g \<noteq> JNull \<longrightarrow> ga_passed g) \<longleftrightarrow> holds_if_measured (\<lambda>x. x \<ge> t) (rate (\<lambda>r. er_retrieved r > 0) rs)" (is "?g1 \<Longrightarrow> ?h1")
    and "gate_of quality (routing_stats rs) (retrieval_stats rs) (latency_stats rs) ((asc ''local_route_rate''), t) = Inr g \<Longrightarrow>
      (ga_value g \<noteq> JNull \<longrightarrow> ga_passed g) \<longleftrightarrow> holds_if_measured (\<lambda>x. x \<ge> t) (rate (\<lambda>r. er_route r = (asc ''local'')) rs)" (is "?g2 \<Longrightarrow> ?h2")
    and "gate_of quality (routing_stats rs) (retrieval_stats rs) (latency_stats rs) ((asc ''p95_latency_sec''), t) = Inr g \<Longrightarrow>
      (ga_value g \<noteq> JNull \<longrightarrow> ga_passed g) \<longleftrightarrow> holds_if_measured (\<lambda>x. x \<le> t) (json_of_option (percentile (map er_latency rs) 95))" (is "?g3 \<Longrightarrow> ?h3")
proof -
  have ne: "(asc ''retrieval_hit_rate'') \<noteq> (asc ''p95_latency_sec'')" "(asc ''retrieval_hit_rate'') \<noteq> (asc ''local_route_rate'')"
    "(asc ''retrieval_hit_rate'') \<noteq> (asc ''web_fallback_rate'')" "(asc ''local_route_rate'') \<noteq> (asc ''p95_latency_sec'')"
    "(asc ''p95_latency_sec'') \<noteq> (asc ''avg_latency_sec'')" "(asc ''p95_latency_sec'') \<noteq> (asc ''p50_latency_sec'')" by code_simp+
  have keys: "fst ` set (routing_stats rs) = {(asc ''local_route_rate''), (asc ''web_fallback_rate'')}"
    by (simp add: routing_stats_def del: asc_Cons)
  have made: "(ga_value g \<noteq> JNull \<longrightarrow> ga_passed g) \<longleftrightarrow> holds_if_measured p v"
    if "rbind (meets p v) (\<lambda>ok. Inr \<lparr>ga_metric = m, ga_value = v, ga_threshold = t, ga_passed = ok\<rparr>) = Inr g" for p v m
    using that meets_measured [of p v] by (auto simp: rbind_Inr_iff)
  have "obj_get (retrieval_stats rs) (asc ''retrieval_hit_rate'') JNull = rate (\<lambda>r. er_retrieved r > 0) rs"
    by (simp add: retrieval_stats_def obj_get_def)
  then show "?g1 \<Longrightarrow> ?h1"
    unfolding gate_of_def prod.case keys using assms(1) ne(1-3)
    by (simp only: if_False insert_iff empty_iff Let_def prod.case simp_thms) (rule made)
  have "obj_get (routing_stats rs) (asc ''local_route_rate'') JNull = rate (\<lambda>r. er_route r = (asc ''local'')) rs"
    by (simp add: routing_stats_def obj_get_def)
  then show "?g2 \<Longrightarrow> ?h2"
    unfolding gate_of_def prod.case keys using assms(2) ne(4)
    by (simp only: if_False if_True insert_iff empty_iff Let_def prod.case simp_thms) (rule made)
  have "obj_get (latency_stats rs) (asc ''p95_latency_sec'') JNull = json_of_option (percentile (map er_latency rs) 95)"
    using ne(5,6) by (simp add: latency_stats_def obj_get_def Let_def del: asc_Cons)
  then show "?g3 \<Longrightarrow> ?h3"
    unfolding gate_of_def prod.case keys using assms(3)
    by (simp only: if_False if_True insert_iff empty_iff Let_def prod.case simp_thms) (rule made)
qed

lemma mapr_Inr_list_all2: "mapr f xs = Inr ys \<Longrightarrow> list_all2 (\<lambda>x y. f x = Inr y) xs ys"
  by (induction xs arbitrary: ys) (auto simp: rbind_Inr_iff)

lemma list_all_pred:
  "list_all2 R xs ys \<Longrightarrow> (\<And>x y. x \<in> set xs \<Longrightarrow> R x y \<Longrightarrow> P y \<longleftrightarrow> Q x) \<Longrightarrow> (\<forall>y\<in>set ys. P y) \<longleftrightarrow> (\<forall>x\<in>set xs. Q x)"
  by (induction rule: list_all2_induct) auto

text \<open>C35: what a passed evaluation says, exactly. No metric the judge measured is below its threshold, every
  case was answered from the documents with at least one context, and the 95th percentile of the
  latency is at most a minute. A metric that was not measured is not counted, and a run without
  cases passes.\<close>

theorem gates_exact:
  assumes run: "build_summary records quality = Inr su"
    and names: "(asc ''retrieval_hit_rate'') \<notin> fst ` set quality" "(asc ''local_route_rate'') \<notin> fst ` set quality" "(asc ''p95_latency_sec'') \<notin> fst ` set quality"
  shows "su_passed su \<longleftrightarrow>
     (\<forall>(metric, threshold)\<in>set quality_thresholds. holds_if_measured (\<lambda>x. x \<ge> threshold) (obj_get quality metric JNull)) \<and>
     (\<forall>r\<in>set records. er_route r = (asc ''local'') \<and> 0 < er_retrieved r) \<and>
     (\<forall>x. percentile (map er_latency records) 95 = Some x \<longrightarrow> x \<le> 60)"
proof -
  let ?gate = "gate_of quality (routing_stats records) (retrieval_stats records) (latency_stats records)"
  obtain gates where gates: "mapr ?gate default_thresholds = Inr gates"
    and su: "su_passed su \<longleftrightarrow> (\<forall>g\<in>set gates. ga_value g \<noteq> JNull \<longrightarrow> ga_passed g)"
  proof -
    obtain gates where g: "mapr ?gate default_thresholds = Inr gates"
      "su_passed su = list_all ga_passed (filter (\<lambda>g. ga_value g \<noteq> JNull) gates)"
      using run by (auto simp: build_summary_def Let_def rbind_Inr_iff)
    then show thesis by (intro that [of gates]) (auto simp: list_all_iff)
  qed
  have split: "default_thresholds = quality_thresholds @ [((asc ''retrieval_hit_rate''), 1), ((asc ''local_route_rate''), 1), ((asc ''p95_latency_sec''), 60)]"
    by (simp add: quality_thresholds_def default_thresholds_def del: asc_Cons)
  obtain qs g1 g2 g3 where gs: "gates = qs @ [g1, g2, g3]" "list_all2 (\<lambda>x y. ?gate x = Inr y) quality_thresholds qs"
    "?gate ((asc ''retrieval_hit_rate''), 1) = Inr g1" "?gate ((asc ''local_route_rate''), 1) = Inr g2" "?gate ((asc ''p95_latency_sec''), 60) = Inr g3"
    using mapr_Inr_list_all2 [OF gates] unfolding split
    by (auto simp: list_all2_append1 list_all2_Cons1 simp del: asc_Cons)
  have keys: "fst ` set (routing_stats records) = {(asc ''local_route_rate''), (asc ''web_fallback_rate'')}"
    by (simp add: routing_stats_def del: asc_Cons)
  have "(\<forall>g\<in>set qs. ga_value g \<noteq> JNull \<longrightarrow> ga_passed g) \<longleftrightarrow>
      (\<forall>x\<in>set quality_thresholds. holds_if_measured (\<lambda>y. y \<ge> snd x) (obj_get quality (fst x) JNull))"
  proof (rule list_all_pred [OF gs(2)])
    fix x g assume x: "x \<in> set quality_thresholds" "?gate x = Inr g"
    have "fst x \<in> set (map fst quality_thresholds)" using x(1) by auto
    moreover have "fst ` set (retrieval_stats records) =
        {(asc ''retrieval_hit_rate''), (asc ''avg_retrieved_count''), (asc ''avg_context_chars''), (asc ''avg_top_retrieval_score'')}"
      by (simp add: retrieval_stats_def del: asc_Cons)
    ultimately have "fst x \<notin> fst ` set (retrieval_stats records)"
      using quality_keys(4-7) by (metis insertE empty_iff)
    then have "map_of (retrieval_stats records) (fst x) = None" by (simp add: map_of_eq_None_iff)
    then show "(ga_value g \<noteq> JNull \<longrightarrow> ga_passed g) \<longleftrightarrow> holds_if_measured (\<lambda>y. y \<ge> snd x) (obj_get quality (fst x) JNull)"
      using gate_quality [of quality "routing_stats records" "retrieval_stats records" "latency_stats records" "fst x" "snd x" g] x keys
      by simp
  qed
  moreover have "holds_if_measured (\<lambda>x. x \<le> 60) (json_of_option v) \<longleftrightarrow> (\<forall>x. v = Some x \<longrightarrow> x \<le> 60)" for v
    by (cases v) (auto simp: holds_if_measured_def json_of_option_def)
  ultimately show ?thesis
    unfolding su gs(1) using gate_engineering(1) [OF names gs(3)] gate_engineering(2) [OF names gs(4)] gate_engineering(3) [OF names gs(5)]
    by (auto simp: rate_one case_prod_unfold simp del: asc_Cons)
qed

section \<open>Facts about a run\<close>

lemma read_cases_sound:
  "read_cases repr k items = Inr cs \<Longrightarrow> \<forall>c\<in>set cs. ec_question c \<noteq> [] \<and> ec_reference c \<noteq> [] \<and>
     py_strip (ec_question c) = ec_question c \<and> py_strip (ec_reference c) = ec_reference c"
  by (induction items arbitrary: k cs)
    (auto simp: rbind_Inr_iff read_case_def Let_def simp del: asc_Cons split: if_splits)

lemma run_cases_from_records:
  "run_cases_from k envs seconds cs = Inr rs \<Longrightarrow> length rs = length cs \<and>
     (\<forall>i < length cs. \<exists>n st. crag_invoke (envs (k + i)) (ec_question (cs ! i)) [] [] = (n, Inr st) \<and>
        rs ! i = record_of (cs ! i) (seconds (k + i)) st)"
proof (induction cs arbitrary: k rs)
  case (Cons c cs)
  obtain st rs' where st: "snd (crag_invoke (envs k) (ec_question c) [] []) = Inr st"
    and rest: "run_cases_from (k + 1) envs seconds cs = Inr rs'" and rs: "rs = record_of c (seconds k) st # rs'"
    using Cons.prems by (auto simp: rbind_Inr_iff)
  obtain n where n: "crag_invoke (envs k) (ec_question c) [] [] = (n, Inr st)" using st by (metis prod.collapse)
  show ?case
  proof (intro conjI allI impI)
    show "length rs = length (c # cs)" using Cons.IH [OF rest] rs by simp
    fix i assume i: "i < length (c # cs)"
    show "\<exists>n st. crag_invoke (envs (k + i)) (ec_question ((c # cs) ! i)) [] [] = (n, Inr st) \<and>
        rs ! i = record_of ((c # cs) ! i) (seconds (k + i)) st"
      using Cons.IH [OF rest] i n rs by (cases i) auto
  qed
qed simp

lemma attach_scores_frame:
  "length (attach_scores rows rs) = length rs"
  "i < length rs \<Longrightarrow> \<exists>row. attach_scores rows rs ! i = (rs ! i)\<lparr>er_scores := row\<rparr>"
proof -
  show "length (attach_scores rows rs) = length rs" by (simp add: attach_scores_def)
  assume i: "i < length rs"
  show "\<exists>row. attach_scores rows rs ! i = (rs ! i)\<lparr>er_scores := row\<rparr>"
  proof (cases "i < length rows")
    case True
    then show ?thesis using i by (auto simp: attach_scores_def nth_append)
  next
    case False
    then have "attach_scores rows rs ! i = rs ! i" using i by (simp add: attach_scores_def nth_append min_def)
    then show ?thesis by (metis eval_record.unfold_congs(14) eval_record.surjective eval_record.update_convs(14))
  qed
qed

text \<open>A finished evaluation reports on the cases of the file, in their order, each with a
  question and a reference; every record holds what one run of the graph on that question returned,
  and the summary counts all of them.\<close>

theorem evaluation_run_sound:
  assumes "evaluate_run repr envs seconds file limit judge = Inr (records, su)"
  shows "\<exists>cases. load_cases repr file limit = Inr cases \<and> su_count su = length cases \<and> length records = length cases \<and>
     (0 < limit \<longrightarrow> int (length cases) \<le> limit) \<and>
     (\<forall>k < length cases. ec_question (cases ! k) \<noteq> [] \<and> ec_reference (cases ! k) \<noteq> [] \<and>
        (\<exists>n st. crag_invoke (envs k) (ec_question (cases ! k)) [] [] = (n, Inr st) \<and>
           er_case (records ! k) = cases ! k \<and> er_answer (records ! k) = gs_generation st \<and>
           er_route (records ! k) = route_value (gs_route st) \<and>
           er_contexts (records ! k) = map py_strip (filter (\<lambda>s. s \<noteq> []) (map d_content (gs_documents st))) \<and>
           er_retrieved (records ! k) = length (er_contexts (records ! k))))"
proof -
  obtain cases rs rows aggregate where load: "load_cases repr file limit = Inr cases"
    and run: "run_application_cases envs seconds cases = Inr rs"
    and out: "records = attach_scores rows rs" "build_summary records aggregate = Inr su"
    using assms by (auto simp: evaluate_run_def rbind_Inr_iff split: prod.splits)
  have count: "su_count su = length records" using out(2) by (auto simp: build_summary_def Let_def rbind_Inr_iff)
  have rs: "length rs = length cases" "\<forall>i < length cases. \<exists>n st. crag_invoke (envs i) (ec_question (cases ! i)) [] [] = (n, Inr st) \<and>
        rs ! i = record_of (cases ! i) (seconds i) st"
    using run_cases_from_records [of 0 envs seconds cases rs] run by (simp_all add: run_application_cases_def)
  obtain normalized where read: "\<exists>items. read_cases repr 1 items = Inr normalized"
    and cut: "cases = (if limit > 0 then take (nat limit) normalized else normalized)"
    using load by (auto simp: load_cases_def rbind_Inr_iff simp del: asc_Cons)
  have ok: "\<forall>c\<in>set cases. ec_question c \<noteq> [] \<and> ec_reference c \<noteq> []"
    using read read_cases_sound cut by (metis in_set_takeD)
  have "\<exists>n st. crag_invoke (envs k) (ec_question (cases ! k)) [] [] = (n, Inr st) \<and>
           er_case (records ! k) = cases ! k \<and> er_answer (records ! k) = gs_generation st \<and>
           er_route (records ! k) = route_value (gs_route st) \<and>
           er_contexts (records ! k) = map py_strip (filter (\<lambda>s. s \<noteq> []) (map d_content (gs_documents st))) \<and>
           er_retrieved (records ! k) = length (er_contexts (records ! k))" if k: "k < length cases" for k
  proof -
    obtain n st where st: "crag_invoke (envs k) (ec_question (cases ! k)) [] [] = (n, Inr st)"
      "rs ! k = record_of (cases ! k) (seconds k) st" using rs(2) k by blast
    obtain row where "records ! k = (rs ! k)\<lparr>er_scores := row\<rparr>"
      using attach_scores_frame(2) [of k rs rows] k rs(1) out(1) by auto
    then show ?thesis using st by (intro exI [of _ n] exI [of _ st]) (simp add: record_of_def Let_def split: prod.splits)
  qed
  moreover have "0 < limit \<longrightarrow> int (length cases) \<le> limit" using cut by auto
  ultimately show ?thesis using load count ok rs(1) attach_scores_frame(1) [of rows rs] out(1)
    by (intro exI [of _ cases]) auto
qed

section \<open>Instances\<close>

definition measured :: "json \<Rightarrow> bool" where
  "measured v \<longleftrightarrow> v = JNull \<or> (\<exists>x. v = JReal x)"

lemma obj_get_measured: "\<forall>kv\<in>set t. measured (snd kv) \<Longrightarrow> measured (obj_get t k JNull)"
  by (auto simp: obj_get_def measured_def split: option.split dest!: map_of_SomeD)

lemma stats_measured:
  "\<forall>kv\<in>set (routing_stats rs). measured (snd kv)" "\<forall>kv\<in>set (retrieval_stats rs). measured (snd kv)"
  "\<forall>kv\<in>set (latency_stats rs). measured (snd kv)"
  by (auto simp: routing_stats_def retrieval_stats_def latency_stats_def rate_def json_of_option_def measured_def Let_def
      split: option.split)

lemma summary_total: "\<exists>su. build_summary rs [] = Inr su"
proof -
  have one: "\<exists>g. gate_of [] (routing_stats rs) (retrieval_stats rs) (latency_stats rs) e = Inr g" for e
  proof -
    have "\<exists>ok. meets p (obj_get t k JNull) = Inr ok" if "t \<in> {routing_stats rs, retrieval_stats rs, latency_stats rs}" for p t k
      using obj_get_measured [of t k] stats_measured that by (auto simp: meets_def measured_def)
    then show ?thesis by (cases e) (simp add: gate_of_def Let_def rbind_def del: asc_Cons, metis insertCI old.sum.simps(6))
  qed
  have "\<exists>gs. mapr (gate_of [] (routing_stats rs) (retrieval_stats rs) (latency_stats rs)) es = Inr gs" for es
  proof (induction es)
    case (Cons e es)
    then show ?case using one [of e] by auto
  qed simp
  then obtain gs where "mapr (gate_of [] (routing_stats rs) (retrieval_stats rs) (latency_stats rs)) default_thresholds = Inr gs" by blast
  then show ?thesis by (simp add: build_summary_def Let_def)
qed

theorem percentile_bounds_witness:
  "\<exists>a b. percentile [3, 1, 2] 50 = Some a \<and> percentile [3, 1, 2] 95 = Some b \<and> 1 \<le> a \<and> a \<le> b \<and> b \<le> 3"
  using percentile_bounds [of "[3, 1, 2]" 50 95] by auto

theorem gates_exact_witness:
  "\<exists>su. build_summary [] [] = Inr su \<and> su_count su = 0 \<and> su_passed su"
proof -
  obtain su where su: "build_summary [] [] = Inr su" using summary_total by blast
  have "su_passed su" using gates_exact [OF su]
    by (simp add: percentile_def obj_get_def holds_if_measured_def split_def)
  moreover have "su_count su = 0" using su by (auto simp: build_summary_def Let_def rbind_Inr_iff)
  ultimately show ?thesis using su by blast
qed

lemma demo_evaluation:
  "\<exists>rs su. evaluate_run (\<lambda>_. []) (\<lambda>_. ok_graph) (\<lambda>_. 2) (Some (Inr (JArr [default_case [] (asc ''hi'') (asc ''there'')]))) 1 None = Inr (rs, su)"
proof -
  let ?file = "Some (Inr (JArr [default_case [] (asc ''hi'') (asc ''there'')]))"
  have load: "load_cases (\<lambda>_. []) ?file 1 = Inr [\<lparr>ec_id = (asc ''case_001''), ec_question = (asc ''hi''), ec_reference = (asc ''there''), ec_metadata = JObj []\<rparr>]"
    by code_simp
  obtain n st where inv: "crag_invoke ok_graph (asc ''hi'') [] [] = (n, Inr st)" by (rule demo_answer)
  obtain rs where run: "run_application_cases (\<lambda>_. ok_graph) (\<lambda>_. 2)
      [\<lparr>ec_id = (asc ''case_001''), ec_question = (asc ''hi''), ec_reference = (asc ''there''), ec_metadata = JObj []\<rparr>] = Inr rs"
    using inv by (simp add: run_application_cases_def del: asc_Cons)
  obtain su where su: "build_summary (attach_scores [] rs) [] = Inr su" using summary_total by blast
  have "evaluate_run (\<lambda>_. []) (\<lambda>_. ok_graph) (\<lambda>_. 2) ?file 1 None = Inr (attach_scores [] rs, su)"
    unfolding evaluate_run_def load using run su by (simp del: asc_Cons)
  then show ?thesis by blast
qed

theorem evaluation_run_sound_witness:
  "\<exists>records su. evaluate_run (\<lambda>_. []) (\<lambda>_. ok_graph) (\<lambda>_. 2) (Some (Inr (JArr [default_case [] (asc ''hi'') (asc ''there'')]))) 1 None = Inr (records, su) \<and>
     su_count su = length records"
  using demo_evaluation evaluation_run_sound by metis

end
