(* ===== verification/Frontend.thy ===== *)
theory Frontend
  imports Chat
begin

text \<open>
  The Streamlit client \<open>frontend/app.py\<close>: its API client, the reader of the event stream, the session
  state with login, logout and the chat turn, and the texts it shows; with the error bodies of
  \<open>backend/core/exceptions.py\<close> that it reads. The server behind \<open>requests\<close>, \<open>json.loads\<close>,
  \<open>datetime.fromisoformat\<close> and the rendering of floats by \<open>str\<close> are parameters; the lines of a streamed
  response are those \<open>iter_lines\<close> yields. Widgets, styling, time-outs and reruns are not modelled.
\<close>

section \<open>State and server\<close>

type_synonym session = "pystr \<Rightarrow> json option"

record 's client =
  cl_state :: session
  cl_server :: 's

datatype body = No_body | Json_body json | File_body pystr

record http_response =
  ht_status :: int
  ht_json :: "json result"
  ht_text :: pystr
  ht_lines :: "pystr list"

record 's frontend =
  fe_url :: pystr
  fe_send :: "pystr \<Rightarrow> pystr \<Rightarrow> pystr option \<Rightarrow> body \<Rightarrow> 's \<Rightarrow> 's \<times> http_response result"
  fe_repr :: "json \<Rightarrow> pystr"
  fe_loads :: "pystr \<Rightarrow> json result"
  fe_isoformat :: "pystr \<Rightarrow> pystr option"

text \<open>Calls that change the client and may raise.\<close>

definition sbind :: "'w \<times> 'a result \<Rightarrow> ('a \<Rightarrow> 'w \<Rightarrow> 'w \<times> 'b result) \<Rightarrow> 'w \<times> 'b result" where
  "sbind m f = (case m of (w, Inl e) \<Rightarrow> (w, Inl e) | (w, Inr x) \<Rightarrow> f x w)"

definition sget :: "session \<Rightarrow> pystr \<Rightarrow> json" where
  "sget s k = (case s k of None \<Rightarrow> JNull | Some v \<Rightarrow> v)"

definition sput :: "pystr \<Rightarrow> json \<Rightarrow> 's client \<Rightarrow> 's client" where
  "sput k v w = w\<lparr>cl_state := (cl_state w)(k \<mapsto> v)\<rparr>"

section \<open>The API client\<close>

definition bearer :: "(json \<Rightarrow> pystr) \<Rightarrow> session \<Rightarrow> pystr option" where
  "bearer repr s = (let token = sget s (asc ''access_token'')
     in if truthy token then Some ((asc ''Bearer '') @ json_str repr token) else None)"

definition read_response :: "(json \<Rightarrow> pystr) \<Rightarrow> http_response \<Rightarrow> json result" where
  "read_response repr response =
     (if ht_status response = 204 then Inr (JObj [((asc ''ok''), JBool True)])
      else
        let payload = (case ht_json response of Inr j \<Rightarrow> j | Inl _ \<Rightarrow> JObj [((asc ''message''), JStr (ht_text response))])
        in if ht_status response \<ge> 400 then
             rbind (json_get payload (asc ''message'')) (\<lambda>m. rbind (json_get payload (asc ''detail'')) (\<lambda>d.
               let message = json_or m (json_or d (JStr (ht_text response)))
               in Inl (RuntimeError (show_int (ht_status response) @ (asc '': '') @ json_str repr message))))
           else Inr payload)"

definition call :: "'s frontend \<Rightarrow> pystr \<Rightarrow> pystr \<Rightarrow> body \<Rightarrow> 's client \<Rightarrow> 's client \<times> http_response result" where
  "call env verb path body w =
     (case fe_send env verb (fe_url env @ path) (bearer (fe_repr env) (cl_state w)) body (cl_server w) of
        (s, r) \<Rightarrow> (w\<lparr>cl_server := s\<rparr>, r))"

definition request_json :: "'s frontend \<Rightarrow> pystr \<Rightarrow> pystr \<Rightarrow> body \<Rightarrow> 's client \<Rightarrow> 's client \<times> json result" where
  "request_json env verb path body w =
     sbind (call env verb path body w) (\<lambda>response w. (w, read_response (fe_repr env) response))"

definition get_json :: "'s frontend \<Rightarrow> pystr \<Rightarrow> 's client \<Rightarrow> 's client \<times> json result" where
  "get_json env path w = request_json env (asc ''GET'') path No_body w"

definition post_json :: "'s frontend \<Rightarrow> pystr \<Rightarrow> json \<Rightarrow> 's client \<Rightarrow> 's client \<times> json result" where
  "post_json env path payload w = request_json env (asc ''POST'') path (Json_body (json_or payload (JObj []))) w"

definition delete_json :: "'s frontend \<Rightarrow> pystr \<Rightarrow> 's client \<Rightarrow> 's client \<times> json result" where
  "delete_json env path w = request_json env (asc ''DELETE'') path No_body w"

text \<open>A failed upload reports the whole payload when it has no message; \<open>str\<close> of the payload otherwise.\<close>

definition upload_error :: "http_response \<Rightarrow> json" where
  "upload_error response =
     (case rbind (ht_json response) (\<lambda>payload. rbind (json_get payload (asc ''message'')) (\<lambda>m.
             rbind (json_get payload (asc ''detail'')) (\<lambda>d. Inr (json_or m (json_or d payload))))) of
        Inl _ \<Rightarrow> JStr (ht_text response)
      | Inr message \<Rightarrow> message)"

definition upload_pdf :: "'s frontend \<Rightarrow> pystr \<Rightarrow> bool \<Rightarrow> 's client \<Rightarrow> 's client \<times> json result" where
  "upload_pdf env name async_mode w =
     sbind (call env (asc ''POST'') (if async_mode then (asc ''/api/v1/documents/upload/async'') else (asc ''/documents/upload''))
              (File_body name) w)
       (\<lambda>response w. (w,
          if ht_status response \<ge> 400
          then Inl (RuntimeError (show_int (ht_status response) @ (asc '': '') @ json_str (fe_repr env) (upload_error response)))
          else ht_json response))"

section \<open>The event stream\<close>

text \<open>\<open>line.split(":", 1)[1].strip()\<close>\<close>

definition after_colon :: "pystr \<Rightarrow> pystr" where
  "after_colon line = py_strip (tl (dropWhile (\<lambda>c. c \<noteq> 58) line))"

text \<open>
  The events the generator yields, and the exception that ends it. Lines left without a blank line
  at the end of the stream are dropped.
\<close>

fun sse_lines :: "(pystr \<Rightarrow> json result) \<Rightarrow> pystr \<Rightarrow> pystr list \<Rightarrow> pystr list \<Rightarrow> (pystr \<times> json) list \<times> exn option" where
  "sse_lines loads event data_lines [] = ([], None)"
| "sse_lines loads event data_lines (raw_line # lines) =
     (let line = strip_by (\<lambda>c. c = 13) raw_line
      in if line = [] then
           (if data_lines = [] then sse_lines loads (asc ''message'') [] lines
            else case loads (py_join [10] data_lines) of
                Inl e \<Rightarrow> ([], Some e)
              | Inr payload \<Rightarrow>
                  (case sse_lines loads (asc ''message'') [] lines of (evs, x) \<Rightarrow> ((event, payload) # evs, x)))
         else if starts_with line (asc ''event:'') then sse_lines loads (after_colon line) data_lines lines
         else if starts_with line (asc ''data:'') then sse_lines loads event (data_lines @ [after_colon line]) lines
         else sse_lines loads event data_lines lines)"

definition stream_chat ::
  "'s frontend \<Rightarrow> pystr \<Rightarrow> json \<Rightarrow> 's client \<Rightarrow> 's client \<times> ((pystr \<times> json) list \<times> exn option)" where
  "stream_chat env question session_id w =
     (case call env (asc ''POST'') (asc ''/chat/stream'')
             (Json_body (JObj [((asc ''question''), JStr question), ((asc ''session_id''), session_id)])) w of
        (w', Inl e) \<Rightarrow> (w', [], Some e)
      | (w', Inr response) \<Rightarrow>
          if ht_status response \<ge> 400 then (w', [], Some (RuntimeError (ht_text response)))
          else (w', sse_lines (fe_loads env) (asc ''message'') [] (ht_lines response)))"

section \<open>Session state\<close>

definition app_version :: pystr where
  "app_version = (asc ''nexusrag-workspace-20260526'')"

definition session_defaults :: "(pystr \<times> json) list" where
  "session_defaults =
     [((asc ''messages''), JArr []), ((asc ''active_view''), JStr (asc ''chat'')), ((asc ''chat_session_id''), JNull),
      ((asc ''last_trace''), JArr []), ((asc ''last_sources''), JArr [])]"

definition set_default :: "pystr \<times> json \<Rightarrow> session \<Rightarrow> session" where
  "set_default kv s = (if s (fst kv) = None then s(fst kv \<mapsto> snd kv) else s)"

definition init_state :: "session \<Rightarrow> session" where
  "init_state s =
     (let s1 = (if sget s (asc ''_app_version'') \<noteq> JStr app_version then [(asc ''_app_version'') \<mapsto> JStr app_version] else s)
      in fold set_default session_defaults s1)"

definition ensure_chat_session :: "'s frontend \<Rightarrow> 's client \<Rightarrow> 's client \<times> json" where
  "ensure_chat_session env w =
     (if truthy (sget (cl_state w) (asc ''chat_session_id'')) then (w, sget (cl_state w) (asc ''chat_session_id''))
      else case sbind (post_json env (asc ''/api/v1/sessions'') (JObj [((asc ''title''), JStr (asc ''New chat''))]) w)
                  (\<lambda>created w. (w, json_item created (asc ''id''))) of
          (w', Inl exc) \<Rightarrow> (sput (asc ''chat_session_error'') (JStr (exn_str exc)) w', JNull)
        | (w', Inr i) \<Rightarrow> (sput (asc ''chat_session_id'') i w', i))"

definition login :: "'s frontend \<Rightarrow> pystr \<Rightarrow> pystr \<Rightarrow> 's client \<Rightarrow> 's client \<times> unit result" where
  "login env email password w =
     sbind (post_json env (asc ''/api/v1/auth/login'') (JObj [((asc ''email''), JStr email), ((asc ''password''), JStr password)]) w) (\<lambda>token w1.
     sbind (w1, json_item token (asc ''access_token'')) (\<lambda>t w1.
     let w2 = sput (asc ''access_token'') t w1
     in sbind (w2, json_get_or token (asc ''expires_in'') (JInt 0)) (\<lambda>x w2.
     let w3 = sput (asc ''token_expires_in'') x w2
     in sbind (get_json env (asc ''/api/v1/auth/me'') w3) (\<lambda>me w4.
     let w5 = sput (asc ''chat_session_id'') JNull (sput (asc ''messages'') (JArr []) (sput (asc ''current_user'') me w4))
     in (fst (ensure_chat_session env w5), Inr ())))))"

definition register :: "'s frontend \<Rightarrow> pystr \<Rightarrow> pystr \<Rightarrow> pystr \<Rightarrow> 's client \<Rightarrow> 's client \<times> unit result" where
  "register env email username password w =
     sbind (post_json env (asc ''/api/v1/auth/register'')
              (JObj [((asc ''email''), JStr email), ((asc ''username''), JStr username), ((asc ''password''), JStr password)]) w)
       (\<lambda>_. login env email password)"

definition logout_keys :: "pystr list" where
  "logout_keys = [(asc ''access_token''), (asc ''token_expires_in''), (asc ''current_user''), (asc ''chat_session_id''), (asc ''messages''),
     (asc ''last_trace''), (asc ''last_sources'')]"

definition logout :: "'s client \<Rightarrow> 's client" where
  "logout w = w\<lparr>cl_state := init_state (\<lambda>k. if k \<in> set logout_keys then None else cl_state w k)\<rparr>"

definition guest :: json where
  "guest = JObj [((asc ''username''), JStr (asc ''guest'')), ((asc ''email''), JStr (asc ''guest@local'')), ((asc ''role''), JStr (asc ''guest''))]"

definition continue_as_guest :: "'s frontend \<Rightarrow> 's client \<Rightarrow> 's client" where
  "continue_as_guest env w = fst (ensure_chat_session env (sput (asc ''access_token'') (JStr []) (sput (asc ''current_user'') guest w)))"

definition ensure_user_loaded :: "'s frontend \<Rightarrow> 's client \<Rightarrow> 's client" where
  "ensure_user_loaded env w =
     (if truthy (sget (cl_state w) (asc ''access_token'')) \<and> \<not> truthy (sget (cl_state w) (asc ''current_user'')) then
        (case get_json env (asc ''/api/v1/auth/me'') w of
           (w', Inl _) \<Rightarrow> logout w'
         | (w', Inr me) \<Rightarrow> sput (asc ''current_user'') me w')
      else w)"

text \<open>The two messages of a turn; the loop stops at an item that is no object.\<close>

fun history_messages :: "json list \<Rightarrow> json list \<times> exn option" where
  "history_messages [] = ([], None)"
| "history_messages (JObj d # items) =
     (case history_messages items of (ms, x) \<Rightarrow>
        (JObj [((asc ''role''), JStr (asc ''user'')), ((asc ''content''), obj_get d (asc ''question'') (JStr []))] #
         JObj [((asc ''role''), JStr (asc ''assistant'')), ((asc ''content''), obj_get d (asc ''answer'') (JStr [])),
               ((asc ''sources''), obj_get d (asc ''sources'') (JArr [])), ((asc ''duration_ms''), obj_get d (asc ''duration_ms'') (JInt 0))] # ms, x))"
| "history_messages (item # items) = ([], Some (OtherError (asc ''object has no attribute get'')))"

definition load_session :: "'s frontend \<Rightarrow> int \<Rightarrow> 's client \<Rightarrow> 's client \<times> unit result" where
  "load_session env session_id w =
     sbind (get_json env ((asc ''/api/v1/sessions/'') @ show_int session_id) w) (\<lambda>detail w1.
     let w2 = sput (asc ''messages'') (JArr []) (sput (asc ''chat_session_id'') (JInt session_id) w1)
     in sbind (w2, rbind (json_get_or detail (asc ''messages'') (JArr [])) json_iter) (\<lambda>items w2.
       (case history_messages items of
          (ms, Some e) \<Rightarrow> (sput (asc ''messages'') (JArr ms) w2, Inl e)
        | (ms, None) \<Rightarrow> (sput (asc ''active_view'') (JStr (asc ''chat'')) (sput (asc ''messages'') (JArr ms) w2), Inr ()))))"

definition new_chat :: "'s frontend \<Rightarrow> 's client \<Rightarrow> 's client" where
  "new_chat env w =
     sput (asc ''active_view'') (JStr (asc ''chat'')) (fst (ensure_chat_session env
       (sput (asc ''chat_session_id'') JNull (sput (asc ''last_sources'') (JArr []) (sput (asc ''last_trace'') (JArr [])
         (sput (asc ''messages'') (JArr []) w))))))"

section \<open>A chat turn\<close>

record turn_view =
  vw_answer :: json
  vw_trace :: json
  vw_sources :: json

fun append_text :: "json \<Rightarrow> json \<Rightarrow> json result" where
  "append_text (JStr a) (JStr b) = Inr (JStr (a @ b))"
| "append_text _ _ = Inl (OtherError (asc ''can only concatenate str to str''))"

fun append_item :: "json \<Rightarrow> json \<Rightarrow> json result" where
  "append_item (JArr xs) x = Inr (JArr (xs @ [x]))"
| "append_item _ x = Inl (OtherError (asc ''object has no attribute append''))"

definition show_event :: "(json \<Rightarrow> pystr) \<Rightarrow> turn_view \<Rightarrow> pystr \<times> json \<Rightarrow> turn_view result" where
  "show_event repr v ev =
     (case ev of (event, payload) \<Rightarrow>
        if event = (asc ''token'') then
          rbind (json_get_or payload (asc ''text'') (JStr [])) (\<lambda>t.
          rbind (append_text (vw_answer v) t) (\<lambda>a. Inr (v\<lparr>vw_answer := a\<rparr>)))
        else if event = (asc ''step'') then
          rbind (json_get payload (asc ''text'')) (\<lambda>t.
            if truthy t then rbind (append_item (vw_trace v) t) (\<lambda>tr. Inr (v\<lparr>vw_trace := tr\<rparr>)) else Inr v)
        else if event = (asc ''final'') then
          rbind (json_get_or payload (asc ''answer'') (vw_answer v)) (\<lambda>a.
          rbind (json_get_or payload (asc ''agent_trace'') (vw_trace v)) (\<lambda>tr.
          rbind (json_get_or payload (asc ''sources'') (JArr [])) (\<lambda>ss.
            Inr \<lparr>vw_answer = a, vw_trace = tr, vw_sources = ss\<rparr>)))
        else if event = (asc ''error'') then
          rbind (json_get_or payload (asc ''message'') (JStr [0x672a, 0x77e5, 0x9519,
              0x8bef])) (\<lambda>m. Inl (RuntimeError (json_str repr m)))
        else Inr v)"

fun show_events :: "(json \<Rightarrow> pystr) \<Rightarrow> turn_view \<Rightarrow> (pystr \<times> json) list \<Rightarrow> turn_view result" where
  "show_events repr v [] = Inr v"
| "show_events repr v (ev # evs) = rbind (show_event repr v ev) (\<lambda>v'. show_events repr v' evs)"

definition source_line :: "(json \<Rightarrow> pystr) \<Rightarrow> json \<Rightarrow> pystr result" where
  "source_line repr source =
     rbind (json_get source (asc ''title'')) (\<lambda>t. rbind (json_get source (asc ''source'')) (\<lambda>s. rbind (json_get source (asc ''url'')) (\<lambda>url.
     rbind (json_get source (asc ''score'')) (\<lambda>score. rbind (json_get source (asc ''page'')) (\<lambda>page.
       let title = json_str repr (json_or t (json_or s (json_or url (JStr [0x6765, 0x6e90]))));
           pages = (if page \<notin> {JNull, JStr [], JInt 0, JReal 0, JBool False} then [(asc ''p.'') @ json_str repr page] else [])
       in rbind (if score = JNull then Inr [] else rbind (py_float score) (\<lambda>x. Inr [show_fixed 3 x])) (\<lambda>scores.
         let suffix = pages @ scores; meta = (if suffix = [] then [] else (asc '' '' @ [0xb7] @
             asc '' '') @ py_join (asc '' '' @ [0xb7] @ asc '' '') suffix)
         in Inr (if truthy url then (asc ''- ['') @ title @ (asc '']('') @ json_str repr url @ (asc '')'') @ meta else (asc ''- '') @ title @ meta)))))))"

fun source_lines :: "(json \<Rightarrow> pystr) \<Rightarrow> json \<Rightarrow> pystr list result" where
  "source_lines repr (JArr sources) = mapr (source_line repr) (take 8 sources)"
| "source_lines repr _ = Inl (OtherError (asc ''object has no attribute get''))"

definition append_message :: "json \<Rightarrow> 's client \<Rightarrow> 's client \<times> unit result" where
  "append_message m w =
     sbind (w, append_item (sget (cl_state w) (asc ''messages'')) m) (\<lambda>ms w. (sput (asc ''messages'') ms w, Inr ()))"

text \<open>The keys are compared before and after the turn only to announce a change; two requests are sent.\<close>

definition ask_memories :: "'s frontend \<Rightarrow> 's client \<Rightarrow> 's client" where
  "ask_memories env w = fst (get_json env (asc ''/api/v1/memories?status=active'') w)"

datatype shown = Answer json "pystr list" | Request_failed pystr

definition finish_turn :: "'s frontend \<Rightarrow> turn_view \<Rightarrow> 's client \<Rightarrow> 's client \<times> shown result" where
  "finish_turn env v w =
     sbind (w, if truthy (vw_sources v) then source_lines (fe_repr env) (vw_sources v) else Inr []) (\<lambda>lines w.
     sbind (append_message (JObj [((asc ''role''), JStr (asc ''assistant'')), ((asc ''content''), vw_answer v), ((asc ''sources''), vw_sources v)]) w) (\<lambda>_ w.
     let w' = sput (asc ''last_sources'') (vw_sources v) (sput (asc ''last_trace'') (vw_trace v) w)
     in (ask_memories env w', Inr (Answer (json_or (vw_answer v) (JStr [0x6ca1, 0x6709, 0x751f,
         0x6210, 0x5185, 0x5bb9, 0x3002])) lines))))"

definition ask_question :: "'s frontend \<Rightarrow> pystr \<Rightarrow> 's client \<Rightarrow> 's client \<times> shown result" where
  "ask_question env user_query w =
     sbind (append_message (JObj [((asc ''role''), JStr (asc ''user'')), ((asc ''content''), JStr user_query)]) (ask_memories env w)) (\<lambda>_ w1.
       case stream_chat env user_query (sget (cl_state w1) (asc ''chat_session_id'')) w1 of
         (w2, evs, x) \<Rightarrow>
           (case sbind (w2, rbind (show_events (fe_repr env) \<lparr>vw_answer = JStr [], vw_trace = JArr [], vw_sources = JArr []\<rparr> evs)
                              (\<lambda>v. case x of None \<Rightarrow> Inr v | Some e \<Rightarrow> Inl e))
                   (finish_turn env) of
              (w3, Inl exc) \<Rightarrow> (w3, Inr (Request_failed ([0x8bf7, 0x6c42, 0x5931, 0x8d25,
                  0xff1a] @ exn_str exc)))
            | (w3, Inr s) \<Rightarrow> (w3, Inr s)))"

text \<open>A question typed into \<open>render_chat\<close>.\<close>

definition submit_question :: "'s frontend \<Rightarrow> pystr \<Rightarrow> 's client \<Rightarrow> 's client \<times> shown result" where
  "submit_question env user_query w = ask_question env user_query (fst (ensure_chat_session env w))"

section \<open>Texts\<close>

definition view_title :: "json \<Rightarrow> pystr" where
  "view_title active =
     (if active = JStr (asc ''chat'') then [0x77e5, 0x8bc6, 0x95ee,
         0x7b54] else if active = JStr (asc ''knowledge'') then [0x77e5, 0x8bc6, 0x5e93]
      else if active = JStr (asc ''memory'') then [0x7528, 0x6237, 0x8bb0,
          0x5fc6] else if active = JStr (asc ''ops'') then [0x8fd0, 0x884c, 0x72b6,
          0x6001] else [0x77e5, 0x8bc6, 0x95ee, 0x7b54])"

definition view_subtitle :: "json \<Rightarrow> pystr" where
  "view_subtitle active =
     (if active = JStr (asc ''chat'') then [0x81ea, 0x52a8, 0x5224, 0x65ad, 0x6587, 0x6863, 0x68c0,
         0x7d22, 0x3001, 0x8054, 0x7f51, 0x68c0, 0x7d22, 0x6216, 0x76f4, 0x63a5, 0x56de, 0x7b54,
         0xff0c, 0x5e76, 0x7ed3, 0x5408, 0x5f53, 0x524d, 0x4f1a, 0x8bdd, 0x4e0e, 0x957f, 0x671f,
         0x8bb0, 0x5fc6, 0x3002]
      else if active = JStr (asc ''knowledge'') then ([0x7ba1, 0x7406] @ asc '' PDF '' @ [0x5165,
          0x5e93, 0x3001, 0x7d22, 0x5f15, 0x72b6, 0x6001, 0x548c, 0x6587, 0x6863, 0x5220, 0x9664,
          0x3002])
      else if active = JStr (asc ''memory'') then [0x67e5, 0x770b, 0x3001, 0x8865, 0x5145, 0x6216,
          0x5220, 0x9664, 0x7cfb, 0x7edf, 0x7528, 0x4e8e, 0x4e2a, 0x6027, 0x5316, 0x56de, 0x7b54,
          0x7684, 0x957f, 0x671f, 0x8bb0, 0x5fc6, 0x3002]
      else if active = JStr (asc ''ops'') then ([0x67e5, 0x770b, 0x540e, 0x7aef, 0x3001, 0x6a21,
          0x578b, 0x3001, 0x68c0, 0x7d22, 0x3001] @ asc ''Embedding '' @ [0x4e0e] @
          asc '' Rerank '' @ [0x670d, 0x52a1, 0x72b6, 0x6001, 0x3002]) else [])"

text \<open>\<open>fmt_dt\<close>: \<open>fe_isoformat\<close> answers with the formatted time, or not when parsing raises.\<close>

definition fmt_dt :: "'s frontend \<Rightarrow> pystr option \<Rightarrow> pystr" where
  "fmt_dt env v =
     (case v of None \<Rightarrow> (asc ''-'')
      | Some t \<Rightarrow> if t = [] then (asc ''-'')
          else case fe_isoformat env (py_replace (asc ''Z'') (asc ''+00:00'') t) of Some s \<Rightarrow> s | None \<Rightarrow> take 16 t)"

definition safe_health :: "'s frontend \<Rightarrow> 's client \<Rightarrow> 's client \<times> json" where
  "safe_health env w = (case get_json env (asc ''/health'') w of
     (w', Inr j) \<Rightarrow> (w', j) | (w', Inl e) \<Rightarrow> (w', JObj [((asc ''status''), JStr (asc ''down'')), ((asc ''error''), JStr (exn_str e))]))"

definition safe_docs :: "'s frontend \<Rightarrow> 's client \<Rightarrow> 's client \<times> json" where
  "safe_docs env w = (case get_json env (asc ''/documents'') w of
     (w', Inr j) \<Rightarrow> (w', j)
   | (w', Inl e) \<Rightarrow> (w', JObj [((asc ''documents''), JArr []), ((asc ''chunks''), JInt 0), ((asc ''source_count''), JInt 0)]))"

datatype page = Login_page | Chat_page | Knowledge_page | Memory_page | Ops_page

text \<open>\<open>main\<close> up to the choice of the page.\<close>

definition main_page :: "'s frontend \<Rightarrow> 's client \<Rightarrow> 's client \<times> page" where
  "main_page env w =
     (let w1 = ensure_user_loaded env (w\<lparr>cl_state := init_state (cl_state w)\<rparr>);
          w2 = fst (safe_docs env (fst (safe_health env w1)));
          active = (case cl_state w2 (asc ''active_view'') of None \<Rightarrow> JStr (asc ''chat'') | Some v \<Rightarrow> v)
      in (w2, if \<not> truthy (sget (cl_state w2) (asc ''current_user'')) then Login_page
              else if active = JStr (asc ''chat'') then Chat_page
              else if active = JStr (asc ''knowledge'') then Knowledge_page
              else if active = JStr (asc ''memory'') then Memory_page else Ops_page))"

section \<open>Error bodies of the server\<close>

definition error_body :: "pystr \<Rightarrow> pystr \<Rightarrow> pystr \<Rightarrow> json \<Rightarrow> json" where
  "error_body request_id code message details = JObj
     [((asc ''code''), JStr code), ((asc ''message''), JStr message), ((asc ''request_id''), JStr request_id), ((asc ''data''), details)]"

text \<open>The handlers of \<open>AppError\<close> (none is raised with details) and of every other exception.\<close>

fun exception_response :: "pystr \<Rightarrow> exn \<Rightarrow> int \<times> json" where
  "exception_response request_id (AppError code message status) = (status, error_body request_id code message JNull)"
| "exception_response request_id _ = (500, error_body request_id (asc ''INTERNAL_ERROR'') [0x670d,
    0x52a1, 0x5668, 0x5185, 0x90e8, 0x9519, 0x8bef, 0xff0c, 0x8bf7, 0x7a0d, 0x540e, 0x91cd,
    0x8bd5] JNull)"

definition validation_response :: "pystr \<Rightarrow> json \<Rightarrow> int \<times> json" where
  "validation_response request_id errors = (422,
      error_body request_id (asc ''VALIDATION_ERROR'') [0x8bf7, 0x6c42, 0x53c2, 0x6570, 0x6821,
      0x9a8c, 0x5931, 0x8d25] errors)"

section \<open>Facts about the event stream\<close>

text \<open>
  The wire format of server-sent events, as the specification has it and \<open>sse-starlette\<close> writes it:
  the lines of an event, and comments that keep the connection alive, each closed by a blank line.
\<close>

datatype frame = Event_frame sse | Comment_frame pystr

fun frame_lines :: "(json \<Rightarrow> pystr) \<Rightarrow> frame \<Rightarrow> pystr list" where
  "frame_lines dumps (Event_frame (Sse n j)) = [(asc ''event: '') @ n, (asc ''data: '') @ dumps j, []]"
| "frame_lines dumps (Comment_frame t) = [(asc '': '') @ t, []]"

fun frame_events :: "frame list \<Rightarrow> sse list" where
  "frame_events [] = []"
| "frame_events (Event_frame ev # fs) = ev # frame_events fs"
| "frame_events (Comment_frame t # fs) = frame_events fs"

abbreviation event_pair :: "sse \<Rightarrow> pystr \<times> json" where
  "event_pair ev \<equiv> (case ev of Sse n j \<Rightarrow> (n, j))"

text \<open>Names and encoded payloads without surrounding white space, and a decoder that inverts the encoder.\<close>

definition sendable :: "(json \<Rightarrow> pystr) \<Rightarrow> (pystr \<Rightarrow> json result) \<Rightarrow> sse \<Rightarrow> bool" where
  "sendable dumps loads ev \<longleftrightarrow> (case ev of Sse n j \<Rightarrow>
     n \<noteq> [] \<and> py_strip n = n \<and> dumps j \<noteq> [] \<and> py_strip (dumps j) = dumps j \<and> loads (dumps j) = Inr j)"

lemma stripped_last: "py_strip t = t \<Longrightarrow> t \<noteq> [] \<Longrightarrow> \<not> py_space (last t)"
  using strip_by_last [of py_space t] by (simp add: py_strip_def)

lemma not_cr: "\<not> py_space c \<Longrightarrow> c \<noteq> 13"
  by (auto simp: py_space_def)

lemma strip_cr_idle:
  assumes "py_strip t = t" "t \<noteq> []" "p \<noteq> []" "hd p \<noteq> 13"
  shows "strip_by (\<lambda>c. c = 13) (p @ t) = p @ t"
  using not_cr [OF stripped_last [OF assms(1,2)]] assms(2-4) by (intro strip_by_idle) auto

lemma strip_space: "py_strip t = t \<Longrightarrow> py_strip (32 # t) = t"
  by (simp add: py_strip_def strip_by_def lstrip_by_def py_space_def)

text \<open>The reader on each kind of line.\<close>

lemma sse_event_line:
  "strip_by (\<lambda>c. c = 13) l = l \<Longrightarrow> starts_with l (asc ''event:'') \<Longrightarrow> sse_lines loads ev ds (l # ls) = sse_lines loads (after_colon l) ds ls"
  by (cases l) (simp_all add: Let_def starts_with_def del: asc_Cons, simp)

lemma sse_data_line:
  "strip_by (\<lambda>c. c = 13) l = l \<Longrightarrow> starts_with l (asc ''data:'') \<Longrightarrow> sse_lines loads ev ds (l # ls) = sse_lines loads ev (ds @ [after_colon l]) ls"
  by (cases l) (auto simp: Let_def starts_with_def prefix_def)

lemma sse_other_line:
  "strip_by (\<lambda>c. c = 13) l = l \<Longrightarrow> l \<noteq> [] \<Longrightarrow> \<not> starts_with l (asc ''event:'') \<Longrightarrow> \<not> starts_with l (asc ''data:'') \<Longrightarrow>
   sse_lines loads ev ds (l # ls) = sse_lines loads ev ds ls"
  by (simp add: Let_def del: asc_Cons)

lemma sse_blank_line:
  "ds \<noteq> [] \<Longrightarrow> sse_lines loads ev ds ([] # ls) =
     (case loads (py_join [10] ds) of Inl e \<Rightarrow> ([], Some e)
      | Inr j \<Rightarrow> (case sse_lines loads (asc ''message'') [] ls of (evs, x) \<Rightarrow> ((ev, j) # evs, x)))"
  by (simp add: Let_def del: asc_Cons)

lemma sendable_stripped:
  assumes "sendable dumps loads (Sse n j)"
  shows "strip_by (\<lambda>c. c = 13) ((asc ''event: '') @ n) = (asc ''event: '') @ n"
    "strip_by (\<lambda>c. c = 13) ((asc ''data: '') @ dumps j) = (asc ''data: '') @ dumps j"
proof -
  have n: "n \<noteq> []" "py_strip n = n" "dumps j \<noteq> []" "py_strip (dumps j) = dumps j"
    using assms by (simp_all add: sendable_def)
  show "strip_by (\<lambda>c. c = 13) ((asc ''event: '') @ n) = (asc ''event: '') @ n" by (rule strip_cr_idle [OF n(2,1)]) simp_all
  show "strip_by (\<lambda>c. c = 13) ((asc ''data: '') @ dumps j) = (asc ''data: '') @ dumps j" by (rule strip_cr_idle [OF n(4,3)]) simp_all
qed

lemma frames_stripped:
  "\<forall>ev\<in>set evs. sendable dumps loads ev \<Longrightarrow>
   map (strip_by (\<lambda>c. c = 13)) (concat (map (\<lambda>ev. frame_lines dumps (Event_frame ev)) evs)) =
     concat (map (\<lambda>ev. frame_lines dumps (Event_frame ev)) evs)"
proof (induction evs)
  case (Cons ev evs)
  obtain n j where ev: "ev = Sse n j" by (rule sse.exhaust)
  have "strip_by (\<lambda>c. c = 13) [] = []" by simp
  with sendable_stripped [of dumps loads n j] Cons ev show ?case by (simp del: asc_Cons)
qed simp

lemma sse_lines_event:
  assumes "sendable dumps loads (Sse n j)"
  shows "sse_lines loads (asc ''message'') [] (frame_lines dumps (Event_frame (Sse n j)) @ lines) =
     (case sse_lines loads (asc ''message'') [] lines of (evs, x) \<Rightarrow> ((n, j) # evs, x))"
proof -
  have n: "py_strip n = n" "py_strip (dumps j) = dumps j" "loads (dumps j) = Inr j"
    using assms by (simp_all add: sendable_def)
  note sendable_stripped [OF assms]
  moreover have "after_colon ((asc ''event: '') @ n) = n" "after_colon ((asc ''data: '') @ dumps j) = dumps j"
    using strip_space [OF n(1)] strip_space [OF n(2)] by (simp_all add: after_colon_def)
  moreover have "starts_with ((asc ''event: '') @ n) (asc ''event:'')" "starts_with ((asc ''data: '') @ dumps j) (asc ''data:'')"
    by (simp_all add: starts_with_def)
  ultimately show ?thesis using n(3)
    by (simp add: sse_event_line sse_data_line sse_blank_line del: sse_lines.simps asc_Cons)
qed

lemma sse_lines_comment:
  "sse_lines loads (asc ''message'') [] (frame_lines dumps (Comment_frame t) @ lines) = sse_lines loads (asc ''message'') [] lines"
proof -
  let ?line = "strip_by (\<lambda>c. c = 13) ((asc '': '') @ t)"
  have same: "lstrip_by (\<lambda>c. c = 13) ((asc '': '') @ t) = (asc '': '') @ t" by (simp add: lstrip_by_def)
  obtain u where u: "(asc '': '') @ t = ?line @ u" "\<forall>c\<in>set u. c = 13"
    using rstrip_by_prefix [of "(asc '': '') @ t" "\<lambda>c. c = 13"] unfolding strip_by_def same by blast
  then obtain s where "?line = 58 # s" by (cases ?line) (auto simp: asc_def)
  then show ?thesis by (simp add: Let_def starts_with_def)
qed

lemma sse_lines_frames:
  assumes "\<forall>ev\<in>set (frame_events frames). sendable dumps loads ev"
  shows "sse_lines loads (asc ''message'') [] (concat (map (frame_lines dumps) frames)) = (map event_pair (frame_events frames), None)"
  using assms
proof (induction frames)
  case (Cons f frames)
  show ?case
  proof (cases f)
    case (Event_frame ev)
    obtain n j where ev: "ev = Sse n j" by (rule sse.exhaust)
    have "sse_lines loads (asc ''message'') [] (concat (map (frame_lines dumps) frames)) = (map event_pair (frame_events frames), None)"
      using Cons by (simp add: Event_frame)
    then show ?thesis using Cons.prems sse_lines_event [of dumps loads n j "concat (map (frame_lines dumps) frames)"]
      by (simp add: Event_frame ev del: frame_lines.simps asc_Cons)
  next
    case (Comment_frame t)
    then show ?thesis using Cons sse_lines_comment [of loads dumps t]
      by (simp del: frame_lines.simps asc_Cons)
  qed
qed simp

text \<open>Carriage returns at the ends of the lines do not matter.\<close>

lemma sse_lines_cr:
  "sse_lines loads event ds (map (strip_by (\<lambda>c. c = 13)) raws) = sse_lines loads event ds raws"
  by (induction raws arbitrary: event ds) (simp_all add: Let_def split: sum.split)

text \<open>C31: the client reads exactly the events the server sent, in their order, under two
  conditions. The lines \<open>iter_lines\<close> yields are, up to a CR at their end, the lines of the frames:
  no dumped payload holds a boundary such as U+2028 or U+0085 at which \<open>iter_lines\<close> splits. And every
  event is \<open>sendable\<close>: its name and its dumped payload are not empty and have no surrounding white
  space, and the decoder reads the payload back. Then it does not matter which keep-alive comments
  lie between the events and whether lines end in CR LF or LF. A payload that is split is not read:
  \<open>split_payload_is_cut\<close> below shows what becomes of it.\<close>

theorem sse_roundtrip:
  assumes "\<forall>ev\<in>set (frame_events frames). sendable dumps loads ev"
    and "map (strip_by (\<lambda>c. c = 13)) raw_lines = concat (map (frame_lines dumps) frames)"
  shows "sse_lines loads (asc ''message'') [] raw_lines = (map event_pair (frame_events frames), None)"
  using sse_lines_frames [OF assms(1)] sse_lines_cr [of loads "(asc ''message'')" "[]" raw_lines] assms(2) by simp

text \<open>
  \<open>iter_lines\<close> splits at every line boundary of Unicode, such as U+2028, which \<open>json.dumps\<close> with
  \<open>ensure_ascii=False\<close> leaves as it is: only the beginning of such a payload reaches the decoder.
\<close>

lemma split_payload_is_cut:
  assumes "py_strip a = a" "a \<noteq> []" "py_strip b = b" "b \<noteq> []" "\<not> starts_with b (asc ''event:'')" "\<not> starts_with b (asc ''data:'')"
    and "loads a = Inl e"
  shows "sse_lines loads (asc ''message'') [] ((asc ''event: final'') # ((asc ''data: '') @ a) # b # [] # lines) = ([], Some e)"
proof -
  have l: "strip_by (\<lambda>c. c = 13) (asc ''event: final'') = (asc ''event: final'')" "strip_by (\<lambda>c. c = 13) ((asc ''data: '') @ a) = (asc ''data: '') @ a"
    "strip_by (\<lambda>c. c = 13) b = b"
  proof -
    show "strip_by (\<lambda>c. c = 13) ((asc ''data: '') @ a) = (asc ''data: '') @ a" by (rule strip_cr_idle [OF assms(1,2)]) simp_all
    show "strip_by (\<lambda>c. c = 13) (asc ''event: final'') = (asc ''event: final'')" by code_simp
    have "\<not> py_space (hd b)" using strip_by_hd [of py_space b] assms(3,4) by (simp add: py_strip_def)
    then show "strip_by (\<lambda>c. c = 13) b = b"
      using not_cr stripped_last [OF assms(3,4)] by (intro strip_by_idle) blast
  qed
  have "after_colon ((asc ''data: '') @ a) = a" using strip_space [OF assms(1)] by (simp add: after_colon_def)
  moreover have "starts_with (asc ''event: final'') (asc ''event:'')" "starts_with ((asc ''data: '') @ a) (asc ''data:'')" by (simp_all add: starts_with_def)
  ultimately show ?thesis using l assms(4-7)
    by (simp add: sse_event_line sse_data_line sse_other_line sse_blank_line del: sse_lines.simps asc_Cons)
qed

section \<open>Facts about a turn\<close>

text \<open>Events that leave the final view to the last one.\<close>

lemma show_events_append:
  "show_events repr v (xs @ ys) = rbind (show_events repr v xs) (\<lambda>v'. show_events repr v' ys)"
proof (induction xs arbitrary: v)
  case (Cons x xs)
  then show ?case by (cases "show_event repr v x") simp_all
qed simp

lemma show_events_one: "show_events repr v [ev] = show_event repr v ev"
  by (cases "show_event repr v ev") simp_all

definition texts_view :: "turn_view \<Rightarrow> bool" where
  "texts_view v \<longleftrightarrow> (\<exists>a ts. vw_answer v = JStr a \<and> vw_trace v = JArr ts)"

lemma event_kinds:
  "(asc ''step'') \<noteq> (asc ''token'')" "(asc ''final'') \<noteq> (asc ''token'')" "(asc ''final'') \<noteq> (asc ''step'')" "(asc ''error'') \<noteq> (asc ''token'')" "(asc ''error'') \<noteq> (asc ''step'')"
  "(asc ''error'') \<noteq> (asc ''final'')" "(asc ''node'') \<notin> {(asc ''token''), (asc ''step''), (asc ''final''), (asc ''error'')}" "(asc ''meta'') \<notin> {(asc ''token''), (asc ''step''), (asc ''final''), (asc ''error'')}"
  by code_simp+

lemma show_token: "texts_view v \<Longrightarrow> \<exists>v'. show_event repr v ((asc ''token''), JObj [((asc ''text''), JStr t)]) = Inr v' \<and> texts_view v'"
  by (auto simp: show_event_def texts_view_def)

lemma show_step: "texts_view v \<Longrightarrow> \<exists>v'. show_event repr v ((asc ''step''), JObj [((asc ''text''), JStr t)]) = Inr v' \<and> texts_view v'"
  using event_kinds(1) by (auto simp: show_event_def texts_view_def json_get_def simp del: asc_Cons)

lemma show_other: "k \<notin> {(asc ''token''), (asc ''step''), (asc ''final''), (asc ''error'')} \<Longrightarrow> show_event repr v (k, j) = Inr v"
  by (auto simp: show_event_def simp del: asc_Cons)

lemma show_events_texts:
  assumes "\<forall>ev\<in>set evs. \<forall>v. texts_view v \<longrightarrow> (\<exists>v'. show_event repr v ev = Inr v' \<and> texts_view v')" "texts_view v"
  shows "\<exists>v'. show_events repr v evs = Inr v' \<and> texts_view v'"
  using assms
proof (induction evs arbitrary: v)
  case (Cons ev evs)
  then obtain v1 where "show_event repr v ev = Inr v1" "texts_view v1" by auto
  then show ?case using Cons.IH [of v1] Cons.prems(1) by auto
qed simp

lemma update_events_shown:
  assumes "ev \<in> set (meta_event cenv # update_events cenv seen tr)" "texts_view v"
  shows "\<exists>v'. show_event repr v (event_pair ev) = Inr v' \<and> texts_view v'"
proof -
  have kinds: "(\<exists>t. ev = Sse (asc ''token'') (JObj [((asc ''text''), JStr t)])) \<or> (\<exists>t. ev = Sse (asc ''step'') (JObj [((asc ''text''), JStr t)])) \<or>
      (\<exists>j. ev = Sse (asc ''node'') j)" if "ev \<in> set (update_events cenv seen tr)" for ev
    using that by (induction cenv seen tr rule: update_events.induct) (auto split: prod.splits if_splits simp del: asc_Cons)
  from assms(1) consider "ev = meta_event cenv" | "ev \<in> set (update_events cenv seen tr)" by auto
  then show ?thesis
  proof cases
    case 1
    then show ?thesis using show_other [OF event_kinds(8)] assms(2) by (simp add: meta_event_def del: asc_Cons)
  next
    case 2
    with kinds consider t where "ev = Sse (asc ''token'') (JObj [((asc ''text''), JStr t)])" | t where "ev = Sse (asc ''step'') (JObj [((asc ''text''), JStr t)])"
      | j where "ev = Sse (asc ''node'') j" by blast
    then show ?thesis
      using show_other [OF event_kinds(7)] show_token [OF assms(2)] show_step [OF assms(2)] assms(2)
      by cases (simp_all del: asc_Cons)
  qed
qed

lemma show_final:
  "show_event repr v ((asc ''final''), response_json r) =
     Inr \<lparr>vw_answer = JStr (rs_answer r), vw_trace = JArr (map JStr (rs_trace r)), vw_sources = JArr (rs_sources r)\<rparr>"
proof -
  have "json_get_or (response_json r) (asc ''answer'') d = Inr (JStr (rs_answer r))"
    "json_get_or (response_json r) (asc ''agent_trace'') d = Inr (JArr (map JStr (rs_trace r)))"
    "json_get_or (response_json r) (asc ''sources'') d = Inr (JArr (rs_sources r))" for d
    by (simp_all add: response_json_def)
  then show ?thesis using event_kinds(2,3) by (simp add: show_event_def del: asc_Cons)
qed

lemma show_error: "show_event repr v ((asc ''error''), JObj [((asc ''message''), JStr m)]) = Inl (RuntimeError m)"
  using event_kinds(4-6) by (simp add: show_event_def del: asc_Cons)

lemma request_state [simp]:
  "cl_state (fst (call env verb path body w)) = cl_state w"
  "cl_state (fst (request_json env verb path body w)) = cl_state w"
  "cl_state (ask_memories env w) = cl_state w"
  by (simp_all add: call_def request_json_def ask_memories_def get_json_def sbind_def split: prod.splits sum.splits)

lemma call_result_state: "call env verb path body w = (w', r) \<Longrightarrow> cl_state w' = cl_state w"
  by (metis fst_conv request_state(1))

lemma sput_state [simp]: "cl_state (sput k v w) = (cl_state w)(k \<mapsto> v)" "sget (f(k \<mapsto> v)) k' = (if k' = k then v else sget f k')"
  by (simp_all add: sput_def sget_def)

text \<open>The view after the events of a stream.\<close>

lemma shown_stream:
  assumes "session_id \<noteq> Some 0" "cache_lookup cenv rd (ck_start ck) question session_id sw = None"
    and "run_chat cenv rd ck question session_id user sw = (sw', res)"
    and "chat_stream cenv rd ck question session_id user sw = (sw'', evs)" "texts_view v"
  obtains (ended) r where "res = Inr (response_json r)"
      "show_events repr v (map event_pair evs) =
         Inr \<lparr>vw_answer = JStr (rs_answer r), vw_trace = JArr (map JStr (rs_trace r)), vw_sources = JArr (rs_sources r)\<rparr>"
  | (raised) e where "res = Inr (response_json (failure_response e)) \<or> res = Inl e \<and> e = pending_rollback \<and> session_missing session_id sw"
      "show_events repr v (map event_pair evs) = Inl (RuntimeError (exn_str e))"
proof -
  have texts: "\<exists>v'. show_events repr v (map event_pair (meta_event cenv # update_events cenv [] tr)) = Inr v'" for tr
  proof -
    have "\<forall>p\<in>set (map event_pair (meta_event cenv # update_events cenv [] tr)). \<forall>v. texts_view v \<longrightarrow>
        (\<exists>v'. show_event repr v p = Inr v' \<and> texts_view v')"
    proof (intro ballI allI impI)
      fix p v assume p: "p \<in> set (map event_pair (meta_event cenv # update_events cenv [] tr))" and v: "texts_view v"
      from p obtain ev where "ev \<in> set (meta_event cenv # update_events cenv [] tr)" "p = event_pair ev"
        unfolding set_map by (rule imageE)
      then show "\<exists>v'. show_event repr v p = Inr v' \<and> texts_view v'" using update_events_shown [OF _ v] by simp
    qed
    from show_events_texts [OF this assms(5)] show ?thesis by blast
  qed
  have last: "show_events repr v (map event_pair (meta_event cenv # update_events cenv [] tr @ [ev])) =
      rbind (show_events repr v (map event_pair (meta_event cenv # update_events cenv [] tr))) (\<lambda>v'. show_event repr v' (event_pair ev))" for tr ev
  proof -
    have "map event_pair (meta_event cenv # update_events cenv [] tr @ [ev]) =
        map event_pair (meta_event cenv # update_events cenv [] tr) @ [event_pair ev]" by (simp only: map_append list.map append_Cons)
    then show ?thesis by (simp only: show_events_append show_events_one)
  qed
  from assms(1-4) show thesis
  proof (cases rule: stream_run)
    case (ended tr st)
    obtain v' where "show_events repr v (map event_pair (meta_event cenv # update_events cenv [] tr)) = Inr v'" using texts by blast
    then show thesis using that(1) [OF ended(3)] unfolding ended(4) last by (simp add: show_final del: asc_Cons)
  next
    case (raised tr e)
    obtain v' where "show_events repr v (map event_pair (meta_event cenv # update_events cenv [] tr)) = Inr v'" using texts by blast
    then show thesis using that(2) [OF disjI1 [OF raised(2)]] unfolding raised(3) last by (simp add: show_error del: asc_Cons)
  next
    case (lost tr st)
    obtain v' where "show_events repr v (map event_pair (meta_event cenv # update_events cenv [] tr)) = Inr v'" using texts by blast
    then obtain v'' where "show_events repr v (map event_pair (meta_event cenv # update_events cenv [] tr @
        [final_event (response_of (ck_ms ck) st)])) = Inr v''"
      unfolding last by (simp add: show_final del: asc_Cons)
    moreover have "map event_pair evs = map event_pair (meta_event cenv # update_events cenv [] tr @
        [final_event (response_of (ck_ms ck) st)]) @ [event_pair (error_event pending_rollback)]"
      unfolding lost(6) by (simp del: asc_Cons)
    ultimately have "show_events repr v (map event_pair evs) = Inl (RuntimeError (exn_str pending_rollback))"
      by (simp only: show_events_append show_events_one rbind_simps prod.case sse.case show_error)
    then show thesis using that(2) [of pending_rollback] lost(3,4) by blast
  qed
qed

section \<open>What the user sees\<close>

definition user_message :: "pystr \<Rightarrow> json" where
  "user_message question = JObj [((asc ''role''), JStr (asc ''user'')), ((asc ''content''), JStr question)]"

definition answer_message :: "response \<Rightarrow> json" where
  "answer_message r = JObj [((asc ''role''), JStr (asc ''assistant'')), ((asc ''content''), JStr (rs_answer r)), ((asc ''sources''), JArr (rs_sources r))]"

definition opened_turn :: "'s frontend \<Rightarrow> pystr \<Rightarrow> 's client \<Rightarrow> json list \<Rightarrow> 's client" where
  "opened_turn env question w ms = sput (asc ''messages'') (JArr (ms @ [user_message question])) (ask_memories env w)"

lemma append_message_list:
  "cl_state w (asc ''messages'') = Some (JArr ms) \<Longrightarrow> append_message m w = (sput (asc ''messages'') (JArr (ms @ [m])) w, Inr ())"
  by (simp add: append_message_def sbind_def sget_def del: asc_Cons)

lemma session_keys:
  "(asc ''chat_session_id'') \<noteq> (asc ''messages'')" "(asc ''last_trace'') \<noteq> (asc ''messages'')" "(asc ''last_sources'') \<noteq> (asc ''messages'')" "(asc ''last_sources'') \<noteq> (asc ''last_trace'')"
  by code_simp+

lemma finish_turn_shown:
  assumes "cl_state w (asc ''messages'') = Some (JArr ms)"
    and "vw_sources v = JArr ss" "ss \<noteq> [] \<longrightarrow> source_lines (fe_repr env) (JArr ss) = Inr lines" "ss = [] \<longrightarrow> lines = []"
  shows "\<exists>w'. finish_turn env v w = (w', Inr (Answer (json_or (vw_answer v) (JStr [0x6ca1,
      0x6709, 0x751f, 0x6210, 0x5185, 0x5bb9, 0x3002])) lines)) \<and>
     cl_state w' (asc ''messages'') = Some (JArr (ms @ [JObj [((asc ''role''), JStr (asc ''assistant'')), ((asc ''content''), vw_answer v), ((asc ''sources''), JArr ss)]])) \<and>
     cl_state w' (asc ''last_trace'') = Some (vw_trace v)"
proof -
  have lines: "(if truthy (vw_sources v) then source_lines (fe_repr env) (vw_sources v) else Inr []) = Inr lines"
    using assms(2-4) by (cases "ss = []") (simp_all del: source_lines.simps)
  show ?thesis using session_keys(2-4)
    unfolding finish_turn_def lines sbind_def prod.case sum.case append_message_list [OF assms(1)]
    by (simp add: Let_def assms(2) del: asc_Cons source_lines.simps)
qed

text \<open>What the user sees is what the chat service answered. When the stream of a question that
  is not cached is delivered, the page shows the answer of the plain response - with its sources, if
  their entries can be rendered - and the session holds both messages of the turn; when the graph
  raised, or the session does not exist and a memory was to be stored, the page shows the exception and the
  session holds the question only.\<close>

theorem chat_turn_shows_response:
  assumes msgs: "cl_state w (asc ''messages'') = Some (JArr ms)"
    and sent: "call env (asc ''POST'') (asc ''/chat/stream'')
        (Json_body (JObj [((asc ''question''), JStr question), ((asc ''session_id''), sget (cl_state w) (asc ''chat_session_id''))]))
        (opened_turn env question w ms) = (w2, Inr response)" "ht_status response < 400"
    and wire: "map (strip_by (\<lambda>c. c = 13)) (ht_lines response) = concat (map (frame_lines dumps) frames)"
        "frame_events frames = evs" "\<forall>ev\<in>set evs. sendable dumps (fe_loads env) ev"
    and server: "session_id \<noteq> Some 0" "cache_lookup cenv rd (ck_start ck) question session_id sw = None"
        "run_chat cenv rd ck question session_id user sw = (sw', res)"
        "chat_stream cenv rd ck question session_id user sw = (sw'', evs)"
    and render: "\<And>r. res = Inr (response_json r) \<Longrightarrow> \<exists>lines. source_lines (fe_repr env) (JArr (rs_sources r)) = Inr lines"
  shows "\<exists>w'. (\<exists>r lines. res = Inr (response_json r) \<and>
        (if rs_sources r = [] then lines = [] else source_lines (fe_repr env) (JArr (rs_sources r)) = Inr lines) \<and>
        ask_question env question w = (w', Inr (Answer (json_or (JStr (rs_answer r)) (JStr [0x6ca1,
            0x6709, 0x751f, 0x6210, 0x5185, 0x5bb9, 0x3002])) lines)) \<and>
        cl_state w' (asc ''messages'') = Some (JArr (ms @ [user_message question, answer_message r])) \<and>
        cl_state w' (asc ''last_trace'') = Some (JArr (map JStr (rs_trace r)))) \<or>
     (\<exists>e. (res = Inr (response_json (failure_response e)) \<or> res = Inl e \<and> e = pending_rollback \<and> session_missing session_id sw) \<and>
        ask_question env question w = (w', Inr (Request_failed ([0x8bf7, 0x6c42, 0x5931, 0x8d25,
            0xff1a] @ exn_str e))) \<and>
        cl_state w' (asc ''messages'') = Some (JArr (ms @ [user_message question])))"
proof -
  let ?v = "\<lparr>vw_answer = JStr [], vw_trace = JArr [], vw_sources = JArr []\<rparr>" and ?w1 = "opened_turn env question w ms"
  have v: "texts_view ?v" by (simp add: texts_view_def)
  have read: "sse_lines (fe_loads env) (asc ''message'') [] (ht_lines response) = (map event_pair evs, None)"
    using sse_lines_frames [of frames dumps "fe_loads env"] sse_lines_cr [of "fe_loads env" "(asc ''message'')" "[]" "ht_lines response"] wire by simp
  have sid: "sget (cl_state ?w1) (asc ''chat_session_id'') = sget (cl_state w) (asc ''chat_session_id'')"
    using session_keys(1) by (simp add: opened_turn_def del: asc_Cons)
  have stream: "stream_chat env question (sget (cl_state ?w1) (asc ''chat_session_id'')) ?w1 = (w2, map event_pair evs, None)"
    unfolding stream_chat_def sid sent(1) using sent(2) read by simp
  have opened: "append_message (user_message question) (ask_memories env w) = (?w1, Inr ())"
    using append_message_list [of "ask_memories env w" ms] msgs by (simp add: opened_turn_def del: asc_Cons)
  have state: "cl_state w2 (asc ''messages'') = Some (JArr (ms @ [user_message question]))"
    using call_result_state [OF sent(1)] by (simp add: opened_turn_def del: asc_Cons)
  have turn: "ask_question env question w =
      (case sbind (w2, rbind (show_events (fe_repr env) ?v (map event_pair evs)) (\<lambda>v. Inr v)) (finish_turn env) of
         (w3, Inl exc) \<Rightarrow> (w3, Inr (Request_failed ([0x8bf7, 0x6c42, 0x5931, 0x8d25,
             0xff1a] @ exn_str exc))) | (w3, Inr s) \<Rightarrow> (w3, Inr s))"
    unfolding ask_question_def user_message_def [symmetric] opened by (simp only: sbind_def prod.case sum.case stream option.case)
  show ?thesis
  proof (rule shown_stream [OF server v, of "fe_repr env"])
    fix r assume r: "res = Inr (response_json r)" and shown: "show_events (fe_repr env) ?v (map event_pair evs) =
         Inr \<lparr>vw_answer = JStr (rs_answer r), vw_trace = JArr (map JStr (rs_trace r)), vw_sources = JArr (rs_sources r)\<rparr>"
    obtain lines where lines: "rs_sources r \<noteq> [] \<longrightarrow> source_lines (fe_repr env) (JArr (rs_sources r)) = Inr lines"
      "rs_sources r = [] \<longrightarrow> lines = []"
      using render [OF r] by (cases "rs_sources r = []") auto
    with finish_turn_shown [OF state, of "\<lparr>vw_answer = JStr (rs_answer r), vw_trace = JArr (map JStr (rs_trace r)), vw_sources = JArr (rs_sources r)\<rparr>"
        "rs_sources r" env lines]
    obtain w' where "finish_turn env \<lparr>vw_answer = JStr (rs_answer r), vw_trace = JArr (map JStr (rs_trace r)), vw_sources = JArr (rs_sources r)\<rparr> w2 =
        (w', Inr (Answer (json_or (JStr (rs_answer r)) (JStr [0x6ca1, 0x6709, 0x751f, 0x6210,
            0x5185, 0x5bb9, 0x3002])) lines))"
      "cl_state w' (asc ''messages'') = Some (JArr (ms @ [user_message question, answer_message r]))"
      "cl_state w' (asc ''last_trace'') = Some (JArr (map JStr (rs_trace r)))"
      unfolding answer_message_def turn_view.simps append_assoc append.simps by blast
    moreover from this(1) have "ask_question env question w = (w',
        Inr (Answer (json_or (JStr (rs_answer r)) (JStr [0x6ca1, 0x6709, 0x751f, 0x6210, 0x5185,
        0x5bb9, 0x3002])) lines))"
      unfolding turn shown by (simp add: sbind_def del: asc_Cons)
    moreover have "if rs_sources r = [] then lines = [] else source_lines (fe_repr env) (JArr (rs_sources r)) = Inr lines"
      using lines by simp
    ultimately show ?thesis using r by blast
  next
    fix e assume "res = Inr (response_json (failure_response e)) \<or> res = Inl e \<and> e = pending_rollback \<and> session_missing session_id sw"
      and shown: "show_events (fe_repr env) ?v (map event_pair evs) = Inl (RuntimeError (exn_str e))"
    moreover have "ask_question env question w = (w2, Inr (Request_failed ([0x8bf7, 0x6c42, 0x5931,
        0x8d25, 0xff1a] @ exn_str e)))"
      unfolding turn shown by (simp add: sbind_def del: asc_Cons)
    ultimately show ?thesis using state by blast
  qed
qed

text \<open>After a logout the session state does not depend on anything the user's session held: two
  clients that agree on the other keys are in the same state, without token and user, with empty
  message lists and no session.\<close>

theorem logout_forgets:
  assumes "\<And>k. k \<notin> set logout_keys \<Longrightarrow> cl_state w k = cl_state w' k"
  shows "cl_state (logout w) = cl_state (logout w') \<and>
     cl_state (logout w) (asc ''access_token'') = None \<and> cl_state (logout w) (asc ''current_user'') = None \<and>
     cl_state (logout w) (asc ''messages'') = Some (JArr []) \<and> cl_state (logout w) (asc ''chat_session_id'') = Some JNull"
proof -
  let ?s = "\<lambda>w k. if k \<in> set logout_keys then None else cl_state w k"
  have same: "?s w = ?s w'" using assms by (auto simp: fun_eq_iff)
  have keys: "(asc ''access_token'') \<in> set logout_keys" "(asc ''current_user'') \<in> set logout_keys" "(asc ''messages'') \<in> set logout_keys"
    "(asc ''chat_session_id'') \<in> set logout_keys" by code_simp+
  have out: "init_state s (asc ''access_token'') = None \<and> init_state s (asc ''current_user'') = None \<and>
      init_state s (asc ''messages'') = Some (JArr []) \<and> init_state s (asc ''chat_session_id'') = Some JNull"
    if "s (asc ''access_token'') = None" "s (asc ''current_user'') = None" "s (asc ''messages'') = None" "s (asc ''chat_session_id'') = None" for s
    using that by (simp add: init_state_def session_defaults_def set_default_def Let_def asc_def)
  show ?thesis using same out [of "?s w"] keys by (simp add: logout_def del: asc_Cons)
qed

text \<open>A business error of a route is shown with its status and its message; of any other
  exception the client learns nothing but that there was one.\<close>

theorem app_error_reaches_user:
  assumes "exception_response request_id e = (status, body)" "400 \<le> status" "\<forall>c s. e \<noteq> AppError c [] s"
  shows "read_response repr \<lparr>ht_status = status, ht_json = Inr body, ht_text = text0, ht_lines = ls\<rparr> =
     Inl (RuntimeError (case e of AppError c m s \<Rightarrow> show_int s @ (asc '': '') @
         m | _ \<Rightarrow> show_int 500 @ (asc '': '') @ [0x670d, 0x52a1, 0x5668, 0x5185, 0x90e8,
         0x9519, 0x8bef, 0xff0c, 0x8bf7, 0x7a0d, 0x540e, 0x91cd, 0x8bd5]))"
proof -
  have get: "json_get (error_body request_id c m d) (asc ''message'') = Inr (JStr m)"
    "json_get (error_body request_id c m d) (asc ''detail'') = Inr JNull" for c m d
    by (simp_all add: error_body_def json_get_def)
  show ?thesis using assms get by (cases e) (auto simp: read_response_def Let_def json_or_def simp del: asc_Cons)
qed

section \<open>Instances\<close>

text \<open>
  A decoder for the payloads of a given list of events: the encoder writes the position of the payload
  in unary.
\<close>

definition unary :: "json list \<Rightarrow> json \<Rightarrow> pystr" where
  "unary js j = replicate (Suc (length (takeWhile (\<lambda>x. x \<noteq> j) js))) 65"

definition of_unary :: "json list \<Rightarrow> pystr \<Rightarrow> json result" where
  "of_unary js s = Inr (js ! (length s - 1))"

lemma nth_unary: "j \<in> set js \<Longrightarrow> js ! length (takeWhile (\<lambda>x. x \<noteq> j) js) = j"
  by (induction js) auto

lemma unary_sendable:
  assumes "j \<in> set js" "n \<noteq> []" "py_strip n = n"
  shows "sendable (unary js) (of_unary js) (Sse n j)"
proof -
  have "py_strip (replicate (Suc k) 65) = replicate (Suc k) 65" for k
    unfolding py_strip_def by (rule strip_by_idle) (simp add: py_space_def last_replicate)
  then show ?thesis using assms nth_unary [of j js] by (simp add: sendable_def unary_def of_unary_def)
qed

lemma stream_names:
  assumes "chat_stream cenv rd ck question session_id user sw = (sw', evs)" "Sse n j \<in> set evs"
  shows "n \<noteq> [] \<and> py_strip n = n"
proof -
  have names: "(\<forall>n\<in>{(asc ''meta''), (asc ''node''), (asc ''step''), (asc ''token''), (asc ''final''), (asc ''error'')}. n \<noteq> [] \<and> py_strip n = n)" by code_simp
  have upd: "n \<in> {(asc ''node''), (asc ''step''), (asc ''token'')}" if "Sse n j \<in> set (update_events cenv seen tr)" for n j seen tr
    using that by (induction cenv seen tr rule: update_events.induct) (auto split: prod.splits if_splits simp del: asc_Cons)
  have "n \<in> {(asc ''meta''), (asc ''node''), (asc ''step''), (asc ''token''), (asc ''final''), (asc ''error'')}"
    using assms upd
    by (fastforce simp: chat_stream_def meta_event_def Let_def simp del: asc_Cons split: option.splits sum.splits prod.splits)
  with names show ?thesis by blast
qed

definition demo_frontend :: "pystr list \<Rightarrow> (pystr \<Rightarrow> json result) \<Rightarrow> unit frontend" where
  "demo_frontend ls loads = \<lparr>fe_url = [], fe_send = (\<lambda>verb url tok body s.
       (s, if url = (asc ''/chat/stream'') then Inr \<lparr>ht_status = 200, ht_json = Inl (ValueError []), ht_text = [], ht_lines = ls\<rparr>
           else Inl (OtherError (asc ''connection refused'')))),
     fe_repr = (\<lambda>_. []), fe_loads = loads, fe_isoformat = (\<lambda>_. None)\<rparr>"

definition demo_client :: "unit client" where
  "demo_client = \<lparr>cl_state = init_state Map.empty, cl_server = ()\<rparr>"

theorem sse_roundtrip_witness:
  "sse_lines (\<lambda>_. Inr (JObj [])) (asc ''message'') []
     [(asc '': ping'') @ [13], [13], (asc ''event: final'') @ [13], (asc ''data: {}''), [13]] = ([((asc ''final''), JObj [])], None)"
proof -
  let ?fs = "[Comment_frame (asc ''ping''), Event_frame (Sse (asc ''final'') (JObj []))]"
  have ok: "\<forall>ev\<in>set (frame_events ?fs). sendable (\<lambda>_. (asc ''{}'')) (\<lambda>_. Inr (JObj [])) ev"
    by (simp add: sendable_def del: asc_Cons) code_simp
  have raw: "map (strip_by (\<lambda>c. c = 13)) [(asc '': ping'') @ [13], [13], (asc ''event: final'') @ [13], (asc ''data: {}''), [13]] =
      concat (map (frame_lines (\<lambda>_. (asc ''{}''))) ?fs)" by code_simp
  show ?thesis using sse_roundtrip [OF ok raw] by simp
qed

theorem chat_turn_shows_response_witness:
  "\<exists>env w'. ask_question env (asc ''hi'') demo_client = (w', Inr (Answer (JStr (asc ''ok'')) [])) \<and>
     cl_state w' (asc ''messages'') = Some (JArr [user_message (asc ''hi''), answer_message demo_response])"
proof -
  obtain n st where inv: "crag_invoke ok_graph (asc ''hi'') [] [] = (n, Inr st)" and st: "demo_response = response_of 5 st"
    by (rule demo_answer)
  have route: "choose_route (asc ''hi'') = Model" by code_simp
  have none: "rs_sources demo_response = []"
    using crag_invoke_inv [of ok_graph "(asc ''hi'')" "[]" "[]"] route unfolding inv
    by (auto simp: outcome_def st response_of_def ok_graph_def demo_graph_env_def simp del: asc_Cons)
  obtain w1 where run: "run_chat demo_chat (Some spec_redis) demo_clock (asc ''hi'') None None bare_world = (w1, Inr (response_json demo_response))"
    by (rule demo_first_run)
  obtain w2 evs where s: "chat_stream demo_chat (Some spec_redis) demo_clock (asc ''hi'') None None bare_world = (w2, evs)"
    by (cases "chat_stream demo_chat (Some spec_redis) demo_clock (asc ''hi'') None None bare_world")
  have miss: "cache_lookup demo_chat (Some spec_redis) (ck_start demo_clock) (asc ''hi'') None bare_world = None"
    using demo_miss by (simp add: demo_clock_def del: asc_Cons)
  let ?js = "map (\<lambda>ev. case ev of Sse n j \<Rightarrow> j) evs"
  let ?raw = "concat (map (\<lambda>ev. frame_lines (unary ?js) (Event_frame ev)) evs)"
  let ?env = "demo_frontend ?raw (of_unary ?js)"
  have fe: "frame_events (map Event_frame evs') = evs'" for evs' by (induction evs') simp_all
  have ok: "\<forall>ev\<in>set evs. sendable (unary ?js) (fe_loads ?env) ev"
  proof
    fix ev assume ev: "ev \<in> set evs"
    obtain n j where nj: "ev = Sse n j" by (rule sse.exhaust)
    have "j \<in> set ?js" using ev nj by force
    with stream_names [OF s, of n j] ev nj show "sendable (unary ?js) (fe_loads ?env) ev"
      by (simp add: demo_frontend_def unary_sendable del: asc_Cons)
  qed
  let ?w = "opened_turn ?env (asc ''hi'') demo_client []"
  have "fe_url ?env @ (asc ''/chat/stream'') = (asc ''/chat/stream'')" by (simp add: demo_frontend_def del: asc_Cons)
  then have sent: "call ?env (asc ''POST'') (asc ''/chat/stream'') b ?w =
      (?w\<lparr>cl_server := ()\<rparr>, Inr \<lparr>ht_status = 200, ht_json = Inl (ValueError []), ht_text = [], ht_lines = ?raw\<rparr>)" for b
    unfolding call_def by (simp add: demo_frontend_def del: asc_Cons)
  have raw: "map (strip_by (\<lambda>c. c = 13)) ?raw = concat (map (frame_lines (unary ?js)) (map Event_frame evs))"
    using frames_stripped [OF ok] by (simp add: comp_def)
  have msgs: "cl_state demo_client (asc ''messages'') = Some (JArr [])"
    by (simp add: demo_client_def) code_simp
  have lines: "\<exists>ls. source_lines (fe_repr ?env) (JArr (rs_sources r)) = Inr ls"
    if "Inr (response_json demo_response) = (Inr (response_json r) :: json result)" for r
    using that none by (auto simp: response_json_inj)
  have asc_nonempty: "(asc ''ok'') \<noteq> []" by simp
  have "\<not> (\<exists>e. Inr (response_json demo_response) = (Inr (response_json (failure_response e)) :: json result))"
    using demo_response_ok(2) by (auto simp: response_json_inj)
  then show ?thesis
    using chat_turn_shows_response [OF msgs sent _ _ fe ok _ miss run s lines] none raw
    by (auto simp: response_json_inj demo_response_ok json_or_def asc_nonempty simp del: asc_Cons)
qed

theorem logout_forgets_witness:
  "cl_state (logout (sput (asc ''access_token'') (JStr (asc ''t'')) demo_client)) (asc ''access_token'') = None"
  using logout_forgets [of "sput (asc ''access_token'') (JStr (asc ''t'')) demo_client" "sput (asc ''access_token'') (JStr (asc ''t'')) demo_client"] by simp

theorem app_error_reaches_user_witness:
  "read_response (\<lambda>_. []) \<lparr>ht_status = 404, ht_json = Inr (snd (exception_response [] (AppError (asc ''NOT_FOUND'') (asc ''gone'') 404))), ht_text = [], ht_lines = []\<rparr> =
     Inl (RuntimeError (show_int 404 @ (asc '': '') @ (asc ''gone'')))"
  using app_error_reaches_user [of "[]" "AppError (asc ''NOT_FOUND'') (asc ''gone'') 404" 404] by simp

end
