(* ===== verification/Dense_Search.thy ===== *)
theory Dense_Search
  imports Embedding
begin

text \<open>
  The dense channel of \<open>KnowledgeBase.search\<close>: the embedding of the query and the search of the
  vector index, which \<open>Retrieval\<close> has as the parameter \<open>vsearch\<close>. The index class
  \<open>faiss.IndexFlatIP\<close> is a parameter; that it is exact is the hypothesis \<open>exact_index\<close>. Scores are
  real inner products: float rounding is not modelled.
\<close>

section \<open>The search of the index\<close>

type_synonym vector_index = "vec list \<Rightarrow> vec \<Rightarrow> int \<Rightarrow> (fscore \<times> int) list result"

definition dense_search ::
  "embedding_env \<Rightarrow> embedding \<Rightarrow> vector_index \<Rightarrow> vec list \<Rightarrow> pystr \<Rightarrow> int \<Rightarrow> (fscore \<times> int) list result" where
  "dense_search env eb ix index query candidate_k =
     rbind (embed env eb [query]) (\<lambda>query_vector.
       case query_vector of [] \<Rightarrow> Inl (OtherError (asc ''index 0 is out of bounds'')) | q # _ \<Rightarrow> ix index q candidate_k)"

text \<open>A search of the knowledge base on its own vectors.\<close>

definition dense_kb_search ::
  "embedding_env \<Rightarrow> embedding \<Rightarrow> vector_index \<Rightarrow> search_config \<Rightarrow> rerank_client \<Rightarrow> pystr option \<Rightarrow>
   vec kb \<Rightarrow> pystr \<Rightarrow> int \<Rightarrow> real \<Rightarrow> reranker \<Rightarrow> reranker \<times> search_result list result" where
  "dense_kb_search env eb ix cfg post env_model st query top_k min_score rr =
     search cfg (dense_search env eb ix (kb_index st)) post env_model st query top_k min_score rr"

section \<open>Inner products\<close>

definition inner :: "vec \<Rightarrow> vec \<Rightarrow> real" where
  "inner u v = (\<Sum>(x, y)\<leftarrow>zip u v. x * y)"

lemma inner_simps [simp]: "inner [] v = 0" "inner u [] = 0" "inner (x # u) (y # v) = x * y + inner u v"
  by (simp_all add: inner_def)

lemma inner_self: "inner u u = (l2_norm u)\<^sup>2"
proof -
  have "inner u u = (\<Sum>x\<leftarrow>u. x * x)" by (induction u) simp_all
  moreover have "0 \<le> (\<Sum>x\<leftarrow>u. x * x)" by (auto intro!: sum_list_nonneg)
  ultimately show ?thesis by (simp add: l2_norm_def)
qed

definition gap :: "vec \<Rightarrow> vec \<Rightarrow> real" where
  "gap u v = (\<Sum>(x, y)\<leftarrow>zip u v. (x - y)\<^sup>2)"

lemma gap_inner: "length u = length v \<Longrightarrow> gap u v = inner u u - 2 * inner u v + inner v v"
  by (induction u v rule: list_induct2) (simp_all add: gap_def power2_eq_square algebra_simps)

lemma gap_nonneg: "0 \<le> gap u v"
  by (auto simp: gap_def intro!: sum_list_nonneg)

lemma gap_zero: "length u = length v \<Longrightarrow> gap u v = 0 \<Longrightarrow> u = v"
proof (induction u v rule: list_induct2)
  case (Cons x u y v)
  have "gap (x # u) (y # v) = (x - y)\<^sup>2 + gap u v" by (simp add: gap_def)
  then have "(x - y)\<^sup>2 = 0 \<and> gap u v = 0"
    using Cons.prems gap_nonneg [of u v] zero_le_power2 [of "x - y"] by linarith
  then show ?case using Cons.IH by simp
qed simp

text \<open>Cauchy and Schwarz, for vectors as the backend makes them, with the case of equality.\<close>

definition unit_or_zero :: "vec \<Rightarrow> bool" where
  "unit_or_zero v \<longleftrightarrow> l2_norm v \<in> {0, 1}"

lemma inner_self_unit: "unit_or_zero v \<Longrightarrow> inner v v \<in> {0, 1}"
  by (auto simp: unit_or_zero_def inner_self)

lemma inner_le_1: "length u = length v \<Longrightarrow> unit_or_zero u \<Longrightarrow> unit_or_zero v \<Longrightarrow> inner u v \<le> 1"
  using gap_inner [of u v] gap_nonneg [of u v] inner_self_unit [of u] inner_self_unit [of v] by auto

lemma inner_eq_1:
  assumes "length u = length v" "unit_or_zero u" "unit_or_zero v"
  shows "inner u v = 1 \<longleftrightarrow> u = v \<and> l2_norm v = 1"
proof
  assume one: "inner u v = 1"
  have self: "inner u u = 1" "inner v v = 1"
    using one gap_inner [OF assms(1)] gap_nonneg [of u v] inner_self_unit [OF assms(2)] inner_self_unit [OF assms(3)] by auto
  then have "gap u v = 0" using gap_inner [OF assms(1)] one by simp
  moreover have "l2_norm v = 1" using self(2) assms(3) by (auto simp: inner_self unit_or_zero_def)
  ultimately show "u = v \<and> l2_norm v = 1" using gap_zero [OF assms(1)] by simp
qed (simp add: inner_self)

section \<open>What the libraries promise\<close>

text \<open>
  \<open>IndexFlatIP.search\<close> on one query: the positions of the vectors with the largest inner products,
  largest first, filled up with the position -1.
\<close>

definition exact_index :: "vector_index \<Rightarrow> bool" where
  "exact_index ix \<longleftrightarrow> (\<forall>vs q k. 0 < k \<and> (\<forall>v\<in>set vs. length v = length q) \<longrightarrow>
     (\<exists>is pad. ix vs q k = Inr (map (\<lambda>i. (Finite (inner (vs ! i) q), int i)) is @ pad) \<and>
        (\<forall>h\<in>set pad. snd h = - 1) \<and> distinct is \<and> set is \<subseteq> {..<length vs} \<and> length is = min (nat k) (length vs) \<and>
        sorted_wrt (\<lambda>i j. inner (vs ! j) q \<le> inner (vs ! i) q) is \<and>
        (\<forall>i\<in>set is. \<forall>j < length vs. j \<notin> set is \<longrightarrow> inner (vs ! j) q \<le> inner (vs ! i) q)))"

text \<open>The contract of an embedding: it maps every text by itself to a vector of the index's dimension.\<close>

definition embeds_by :: "embedding_env \<Rightarrow> embedding \<Rightarrow> (pystr \<Rightarrow> vec) \<Rightarrow> bool" where
  "embeds_by env eb g \<longleftrightarrow> (\<forall>ts. ts \<noteq> [] \<longrightarrow> embed env eb ts = Inr (map g ts)) \<and>
     (\<forall>t. int (length (g t)) = em_dimension eb \<and> unit_or_zero (g t))"

lemma embeds_by_hashing:
  "libraries_ok env \<Longrightarrow> is_hashing eb \<Longrightarrow> 0 < em_dimension eb \<Longrightarrow> embeds_by env eb (hashed env (em_dimension eb))"
  by (auto simp: embeds_by_def embed_hashing unit_or_zero_def hashed_def l2_norm_unit)

lemma embeds_by_api:
  assumes "libraries_ok env" "em_api_enabled eb" "serves env eb f" "\<forall>t. length (f t) = w" "int w = em_dimension eb"
    and "env_int env (asc ''EMBEDDING_BATCH_SIZE'') (asc ''64'') = Inr bsize" "0 < bsize" "env_float env (asc ''EMBEDDING_TIMEOUT'') (asc ''120'') = Inr t"
  shows "embeds_by env eb (\<lambda>t. unit_vec (f t))"
proof -
  have "embed env eb ts = Inr (map (\<lambda>t. unit_vec (f t)) ts)" if "ts \<noteq> []" for ts
    using embed_api_serves [OF assms(1,3,4) that assms(6,7), of t] assms(2,8) that by (simp add: embed_def call_timeout_def)
  then show ?thesis using assms(4,5) by (simp add: embeds_by_def unit_or_zero_def l2_norm_unit)
qed

section \<open>Facts about the dense channel\<close>

lemma synced_vectors:
  assumes "embeds_by env eb g" "kb_synced (with_embedding env eb kenv) st"
  shows "kb_index st = map (\<lambda>c. g (c_content c)) (kb_chunks st)"
  using assms by (auto simp: kb_synced_def with_embedding_def index_vectors_def embeds_by_def comp_def split: if_splits)

text \<open>One search of a synchronised base.\<close>

lemma dense_search_exact:
  assumes ix: "exact_index ix" and g: "embeds_by env eb g" and sync: "kb_synced (with_embedding env eb kenv) st" and k: "0 < k"
  obtains "is" pad where
    "dense_search env eb ix (kb_index st) q k =
       Inr (map (\<lambda>i. (Finite (inner (g (c_content (kb_chunks st ! i))) (g q)), int i)) is @ pad)"
    "\<forall>h\<in>set pad. snd h = - 1" "distinct is" "set is \<subseteq> {..<length (kb_chunks st)}"
    "length is = min (nat k) (length (kb_chunks st))"
    "sorted_wrt (\<lambda>i j. inner (g (c_content (kb_chunks st ! j))) (g q) \<le> inner (g (c_content (kb_chunks st ! i))) (g q)) is"
    "\<forall>i\<in>set is. \<forall>j < length (kb_chunks st). j \<notin> set is \<longrightarrow>
       inner (g (c_content (kb_chunks st ! j))) (g q) \<le> inner (g (c_content (kb_chunks st ! i))) (g q)"
proof -
  have vs: "kb_index st = map (\<lambda>c. g (c_content c)) (kb_chunks st)" by (rule synced_vectors [OF g sync])
  have len: "length (g t) = length (g q)" for t using g unfolding embeds_by_def by (metis of_nat_eq_iff)
  have run: "dense_search env eb ix (kb_index st) q k = ix (kb_index st) (g q) k"
    using g by (simp add: dense_search_def embeds_by_def)
  have "0 < k \<and> (\<forall>v\<in>set (kb_index st). length v = length (g q))" using k len by (auto simp: vs)
  then obtain "is" pad where hit: "ix (kb_index st) (g q) k =
        Inr (map (\<lambda>i. (Finite (inner (kb_index st ! i) (g q)), int i)) is @ pad)"
    "\<forall>h\<in>set pad. snd h = - 1" "distinct is" "set is \<subseteq> {..<length (kb_index st)}" "length is = min (nat k) (length (kb_index st))"
    "sorted_wrt (\<lambda>i j. inner (kb_index st ! j) (g q) \<le> inner (kb_index st ! i) (g q)) is"
    "\<forall>i\<in>set is. \<forall>j < length (kb_index st). j \<notin> set is \<longrightarrow> inner (kb_index st ! j) (g q) \<le> inner (kb_index st ! i) (g q)"
    using ix unfolding exact_index_def by blast
  have nth: "kb_index st ! i = g (c_content (kb_chunks st ! i))" if "i < length (kb_chunks st)" for i
    using that by (simp add: vs)
  have ins: "set is \<subseteq> {..<length (kb_chunks st)}" using hit(4) by (simp add: vs)
  show thesis
  proof (rule that)
    show "dense_search env eb ix (kb_index st) q k =
       Inr (map (\<lambda>i. (Finite (inner (g (c_content (kb_chunks st ! i))) (g q)), int i)) is @ pad)"
      using ins nth unfolding run hit(1) by (auto intro!: map_cong)
    show "sorted_wrt (\<lambda>i j. inner (g (c_content (kb_chunks st ! j))) (g q) \<le> inner (g (c_content (kb_chunks st ! i))) (g q)) is"
      by (rule sorted_wrt_mono_rel [OF _ hit(6)]) (use ins nth in \<open>force simp: subset_iff\<close>)
    show "\<forall>i\<in>set is. \<forall>j < length (kb_chunks st). j \<notin> set is \<longrightarrow>
       inner (g (c_content (kb_chunks st ! j))) (g q) \<le> inner (g (c_content (kb_chunks st ! i))) (g q)"
      using hit(7) ins nth by (force simp: vs)
  qed (use hit ins in \<open>simp_all add: vs\<close>)
qed

lemma vector_hits_mem:
  assumes "(Finite x, int i) \<in> set raw" "ms \<le> x"
  shows "(int i, x) \<in> set (vector_hits_of ms raw)"
proof -
  let ?f = "\<lambda>(score, index). case score of Non_Finite \<Rightarrow> [] | Finite s \<Rightarrow> if index < 0 \<or> s < ms then [] else [(index, s)]"
  have "(int i, x) \<in> set (?f (Finite x, int i))" using assms(2) by simp
  with assms(1) show ?thesis unfolding vector_hits_of_def set_concat set_map by blast
qed

section \<open>Properties\<close>

text \<open>The cosine of two raw vectors; division by zero gives zero, as for a vector that cannot be normalised.\<close>

definition cosine :: "vec \<Rightarrow> vec \<Rightarrow> real" where
  "cosine u v = inner u v / (l2_norm u * l2_norm v)"

lemma inner_scale: "inner (map (\<lambda>x. x / a) u) v = inner u v / a"
proof (induction u arbitrary: v)
  case (Cons x u)
  then show ?case by (cases v) (simp_all add: add_divide_distrib)
qed simp

lemma inner_commute: "inner u v = inner v u"
proof (induction u arbitrary: v)
  case (Cons x u)
  then show ?case by (cases v) simp_all
qed simp

lemma l2_norm_zero: "l2_norm v = 0 \<Longrightarrow> inner v w = 0"
proof -
  assume "l2_norm v = 0"
  then have "(\<Sum>x\<leftarrow>v. x * x) = 0" by (simp add: l2_norm_def)
  then have zero: "x = 0" if "x \<in> set v" for x
    using that sum_list_nonneg_eq_0_iff [of "map (\<lambda>x. x * x) v"] by fastforce
  have "map (\<lambda>(x, y). x * y) (zip v w) = map (\<lambda>z. 0) (zip v w)" by (auto dest!: set_zip_leftD zero)
  then show ?thesis unfolding inner_def by (simp only: sum_list_0)
qed

lemma inner_unit_vec: "inner (unit_vec u) (unit_vec v) = cosine u v"
proof -
  have unit: "inner (unit_vec w) z = inner w z / l2_norm w" for w z
    using l2_norm_zero [of w z] l2_norm_nonneg [of w] by (auto simp: unit_vec_def Let_def inner_scale)
  show ?thesis by (subst unit, subst inner_commute, subst unit) (simp add: cosine_def inner_commute [of v u] ac_simps)
qed

lemma cosine_bound:
  assumes "length u = length v"
  shows "\<bar>cosine u v\<bar> \<le> 1"
proof -
  have bound: "inner (unit_vec a) (unit_vec b) \<le> 1" if "length a = length b" for a b
  proof (rule inner_le_1)
    show "length (unit_vec a) = length (unit_vec b)" using that by (simp add: unit_vec_def Let_def)
  qed (simp_all add: unit_or_zero_def l2_norm_unit)
  have neg: "cosine (map uminus a) b = - cosine a b" for a b
  proof -
    have "inner (map uminus a) b = - inner a b"
    proof (induction a arbitrary: b)
      case (Cons x a)
      then show ?case by (cases b) simp_all
    qed simp
    moreover have "l2_norm (map uminus a) = l2_norm a" by (simp add: l2_norm_def comp_def)
    ultimately show ?thesis by (simp add: cosine_def)
  qed
  have "cosine u v \<le> 1" "cosine (map uminus u) v \<le> 1"
    using bound [of u v] bound [of "map uminus u" v] assms by (simp_all add: inner_unit_vec)
  then show ?thesis by (simp add: neg abs_le_iff)
qed

lemma cosine_self: "l2_norm v \<noteq> 0 \<Longrightarrow> cosine v v = 1"
  by (simp add: cosine_def inner_self power2_eq_square)

text \<open>C23: the dense channel ranks by cosine similarity, whatever the lengths of the service's
  vectors. Let an embedding service map each text by itself to a vector of the index's dimension, not
  normalised. On a synchronised base the search of a question then returns the best
  \<open>candidate_k\<close> chunks (all, when there are fewer) in falling order of the cosine between the service's raw vectors
  of chunk and question, with that cosine as score. So all scores lie between -1 and 1, and a question
  whose vector is a positive multiple of a chunk's is answered first with score one. This rests
  on the normalisation of chunks and questions alike, in exact real arithmetic: the source computes
  in 32-bit floats, where a score is a cosine up to rounding and can exceed one by it.\<close>

theorem scores_are_cosines:
  assumes lib: "libraries_ok env" "exact_index ix"
    and api: "em_api_enabled eb" "serves env eb f" "\<forall>t. length (f t) = w" "int w = em_dimension eb"
      "env_int env (asc ''EMBEDDING_BATCH_SIZE'') (asc ''64'') = Inr bsize" "0 < bsize" "env_float env (asc ''EMBEDDING_TIMEOUT'') (asc ''120'') = Inr t"
    and sync: "kb_synced (with_embedding env eb kenv) st" and k: "0 < k"
    and score: "score = (\<lambda>i. cosine (f (c_content (kb_chunks st ! i))) (f q))"
  shows "\<exists>is pad. dense_search env eb ix (kb_index st) q k = Inr (map (\<lambda>i. (Finite (score i), int i)) is @ pad) \<and>
     (\<forall>h\<in>set pad. snd h = - 1) \<and> distinct is \<and> set is \<subseteq> {..<length (kb_chunks st)} \<and>
     length is = min (nat k) (length (kb_chunks st)) \<and> sorted_wrt (\<lambda>i j. score j \<le> score i) is \<and>
     (\<forall>i\<in>set is. \<forall>j < length (kb_chunks st). j \<notin> set is \<longrightarrow> score j \<le> score i) \<and>
     (\<forall>i < length (kb_chunks st). \<bar>score i\<bar> \<le> 1 \<and> (f (c_content (kb_chunks st ! i)) = f q \<and> l2_norm (f q) \<noteq> 0 \<longrightarrow> score i = 1))"
proof -
  have g: "embeds_by env eb (\<lambda>t. unit_vec (f t))" by (rule embeds_by_api [OF lib(1) api])
  obtain "is" pad where
    "dense_search env eb ix (kb_index st) q k = Inr (map (\<lambda>i. (Finite (score i), int i)) is @ pad)"
    "\<forall>h\<in>set pad. snd h = - 1" "distinct is" "set is \<subseteq> {..<length (kb_chunks st)}"
    "length is = min (nat k) (length (kb_chunks st))" "sorted_wrt (\<lambda>i j. score j \<le> score i) is"
    "\<forall>i\<in>set is. \<forall>j < length (kb_chunks st). j \<notin> set is \<longrightarrow> score j \<le> score i"
    unfolding score by (rule dense_search_exact [OF lib(2) g sync k, unfolded inner_unit_vec, of q])
  moreover have "\<bar>score i\<bar> \<le> 1" for i unfolding score by (rule cosine_bound) (simp add: api(3))
  moreover have "f (c_content (kb_chunks st ! i)) = f q \<Longrightarrow> l2_norm (f q) \<noteq> 0 \<Longrightarrow> score i = 1" for i
    by (simp add: score cosine_self)
  ultimately show ?thesis by blast
qed

text \<open>C22: recall of the dense channel through the whole search. With the reranker off, default candidate
  counts and room for all chunks, every chunk of a synchronised base whose similarity to the
  question reaches the threshold is found: some result has its source, its page and the beginning of
  its parent's text. Keyword search may be on or off.\<close>

theorem dense_recall:
  assumes ix: "exact_index ix" and g: "embeds_by env eb g"
    and base: "kb_synced (with_embedding env eb kenv) st" "kb_wf kenv st" "uuids_nonempty kenv"
    and cfg: "0 \<le> sc_rrf_k cfg" "sc_candidate_k cfg = None" "\<not> rr_enabled rr" "int (length (kb_chunks st)) < top_k"
    and ch: "ch \<in> set (kb_chunks st)" "ms \<le> inner (g (c_content ch)) (g q)"
  shows "\<exists>rs. dense_kb_search env eb ix cfg post em st q top_k ms rr = (rr, Inr rs) \<and>
     (\<exists>r\<in>set rs. sr_source r = c_source ch \<and> sr_page r = c_page ch \<and> take 160 (sr_content r) = take 160 (parent_text ch))"
proof -
  let ?n = "length (kb_chunks st)" and ?vs = "dense_search env eb ix (kb_index st)"
  let ?in = "\<lambda>i. inner (g (c_content (kb_chunks st ! i))) (g q)"
  have ne: "0 < int ?n" using ch(1) by (cases "kb_chunks st") auto
  obtain "is" pad where run: "?vs q (int ?n) = Inr (map (\<lambda>i. (Finite (?in i), int i)) is @ pad)"
    and all: "distinct is" "set is \<subseteq> {..<?n}" "length is = min (nat (int ?n)) ?n"
    by (rule dense_search_exact [OF ix g base(1) ne])
  have "set is = {..<?n}" using all by (intro card_subset_eq) (simp_all add: distinct_card)
  obtain i where i: "i < ?n" "kb_chunks st ! i = ch" using ch(1) by (auto simp: in_set_conv_nth)
  have "(Finite (?in i), int i) \<in> set (map (\<lambda>i. (Finite (?in i), int i)) is @ pad)"
    using i(1) \<open>set is = {..<?n}\<close> by auto
  then have hit: "(int i, ?in i) \<in> set (vector_hits_of ms (map (\<lambda>i. (Finite (?in i), int i)) is @ pad))"
    by (rule vector_hits_mem) (use ch(2) i(2) in simp)
  have ck: "min (max (top_k * 8) top_k) (int ?n) = int ?n" using cfg(4) by linarith
  obtain bh where hits: "search_hits cfg ?vs (kb_chunks st) (kb_bm25 st) q top_k ms =
      rrf_fuse cfg (vector_hits_of ms (map (\<lambda>i. (Finite (?in i), int i)) is @ pad)) bh"
    unfolding search_hits_def Let_def cfg(2) option.case ck run rbind_simps by blast
  obtain fused where f0: "rrf_fuse cfg (vector_hits_of ms (map (\<lambda>i. (Finite (?in i), int i)) is @ pad)) bh = Inr fused"
    "set (dict_keys fused) = fst ` set (vector_hits_of ms (map (\<lambda>i. (Finite (?in i), int i)) is @ pad)) \<union> fst ` set bh"
    using rrf_fuse_ok [OF cfg(1)] by blast
  have f: "search_hits cfg ?vs (kb_chunks st) (kb_bm25 st) q top_k ms = Inr fused" unfolding hits by (rule f0(1))
  have "int i \<in> set (dict_keys fused)" unfolding f0(2) using imageI [OF hit, of fst] by (simp only: fst_conv) (rule UnI1)
  then obtain s where s: "(int i, s) \<in> set fused" by (auto simp: dict_keys_def)
  have fam: "family_ok (kb_chunks st)" using base(2,3) by (intro family_of_wf) (simp_all add: kb_wf_def)
  have "length (kb_index st) \<noteq> 0" using synced_vectors [OF g base(1)] i(1) by auto
  from kb_search_recall_hit [OF f this cfg(4,3) fam s i(1), of post em]
  obtain rs r where rs: "kb_search cfg ?vs post em (kb_chunks st) (length (kb_index st)) (kb_bm25 st) q top_k ms rr = (rr, Inr rs)"
    "r \<in> set rs" "merge_key r = chunk_key ch" unfolding i(2) by blast
  then have "dense_kb_search env eb ix cfg post em st q top_k ms rr = (rr, Inr rs)"
    unfolding dense_kb_search_def search_def by simp
  then show ?thesis using rs(2,3) by (auto simp: merge_key_def chunk_key_def)
qed

text \<open>C2: without any embedding service the base still finds a text by its words, given room for
  every chunk. After an upsert on the hashing fallback (positive dimension), take a search with the
  reranker off, the default candidate count, a fusion constant not below zero, a threshold of at most
  one and a \<open>top_k\<close> above the number of all chunks of the base. A question with the tokens of a
  chunk's text, in any order, is then answered with that chunk's source and page, with keyword
  search on or off, unless the question's hashed tokens cancel out, so that its vector has norm zero.
  The vectors are exact reals here: in 32-bit floats the score of the chunk is one up to rounding, so
  a threshold of exactly one can fail there. The graph asks with \<open>top_k = 5\<close>: of its own searches the
  theorem speaks on a base of at most four chunks.\<close>

theorem offline_exact_text_found:
  assumes lib: "libraries_ok env" "exact_index ix" and eb: "is_hashing eb" "0 < em_dimension eb"
    and kenv: "env_ok kenv" "uuids_nonempty kenv" "kb_wf kenv st"
    and run: "upsert_pdf (with_embedding env eb kenv) path s st = Some (st', Inr rep)"
    and cfg: "0 \<le> sc_rrf_k cfg" "sc_candidate_k cfg = None" "\<not> rr_enabled rr" "int (length (kb_chunks st')) < top_k" "ms \<le> 1"
    and ch: "ch \<in> set (kb_chunks st')" "mset (tokenize q) = mset (tokenize (c_content ch))"
      "l2_norm (hashed env (em_dimension eb) q) \<noteq> 0"
  shows "\<exists>rs. dense_kb_search env eb ix cfg post em st' q top_k ms rr = (rr, Inr rs) \<and>
     (\<exists>r\<in>set rs. sr_source r = c_source ch \<and> sr_page r = c_page ch)"
proof -
  let ?g = "hashed env (em_dimension eb)"
  have g: "embeds_by env eb ?g" by (rule embeds_by_hashing [OF lib(1) eb])
  have same: "?g (c_content ch) = ?g q" by (rule hashed_bag) (use ch(2) in simp)
  have "l2_norm (?g q) = 1" using g ch(3) by (auto simp: embeds_by_def unit_or_zero_def)
  then have "ms \<le> inner (?g (c_content ch)) (?g q)" using cfg(5) by (simp add: same inner_self)
  moreover have "kb_synced (with_embedding env eb kenv) st'" using run ingest_synced unfolding upsert_pdf_def by blast
  moreover have "kb_wf kenv st'"
    using ingest_wf [of "with_embedding env eb kenv" st] run kenv unfolding upsert_pdf_def
    by (simp add: kb_wf_def env_ok_def with_embedding_def)
  ultimately show ?thesis using dense_recall [OF lib(2) g _ _ kenv(2) cfg(1-4) ch(1), where ms = ms and q = q] by blast
qed

section \<open>Instances\<close>

text \<open>An exact index: a stable sort by the inner product.\<close>

definition flat_search :: vector_index where
  "flat_search vs q k =
     (if k \<le> 0 then Inl (OtherError [])
      else Inr (map (\<lambda>i. (Finite (inner (vs ! i) q), int i)) (take (nat k) (sort_key (\<lambda>i. - inner (vs ! i) q) [0 ..< length vs]))
             @ replicate (nat k - length vs) (Non_Finite, - 1)))"

lemma flat_search_exact: "exact_index flat_search"
  unfolding exact_index_def
proof (intro allI impI)
  fix vs :: "vec list" and q :: vec and k :: int
  assume k: "0 < k \<and> (\<forall>v\<in>set vs. length v = length q)"
  let ?s = "sort_key (\<lambda>i. - inner (vs ! i) q) [0 ..< length vs]"
  let ?is = "take (nat k) ?s" and ?pad = "replicate (nat k - length vs) (Non_Finite, - 1 :: int)"
  have sorted: "sorted_wrt (\<lambda>i j. inner (vs ! j) q \<le> inner (vs ! i) q) ?s"
    using sorted_sort_key [of "\<lambda>i. - inner (vs ! i) q" "[0 ..< length vs]"] by (simp add: sorted_map)
  have split: "?s = ?is @ drop (nat k) ?s" by simp
  have "inner (vs ! j) q \<le> inner (vs ! i) q" if "i \<in> set ?is" "j < length vs" "j \<notin> set ?is" for i j
  proof -
    have "j \<in> set (drop (nat k) ?s)" using that(2,3) by (metis Un_iff append_take_drop_id atLeastLessThan_iff le0 set_append set_sort set_upt)
    then show ?thesis using sorted that(1) by (metis append_take_drop_id sorted_wrt_append)
  qed
  moreover have "set ?is \<subseteq> {..<length vs}" using set_take_subset [of "nat k" ?s] by auto
  ultimately show "\<exists>is pad. flat_search vs q k = Inr (map (\<lambda>i. (Finite (inner (vs ! i) q), int i)) is @ pad) \<and>
        (\<forall>h\<in>set pad. snd h = - 1) \<and> distinct is \<and> set is \<subseteq> {..<length vs} \<and> length is = min (nat k) (length vs) \<and>
        sorted_wrt (\<lambda>i j. inner (vs ! j) q \<le> inner (vs ! i) q) is \<and>
        (\<forall>i\<in>set is. \<forall>j < length vs. j \<notin> set is \<longrightarrow> inner (vs ! j) q \<le> inner (vs ! i) q)"
    using k sorted_wrt_take [OF sorted, of "nat k"]
    by (intro exI [of _ ?is] exI [of _ ?pad]) (simp add: flat_search_def min.commute)
qed

lemma demo_embeds: "embeds_by demo_service_env (demo_backend True) (\<lambda>t. unit_vec (length_vec t))"
  using embeds_by_api [OF demo_libraries(1) _ demo_serves, of 2 64 120] demo_settings
  by (simp add: demo_backend_def length_vec_def)

lemma demo_chunk_text: "c_content (demo_chunk 0 s) = demo_text"
  by (simp add: demo_chunk_def)

lemma demo_unit: "l2_norm (unit_vec (length_vec t)) = 1"
proof -
  have "0 < (\<Sum>x\<leftarrow>length_vec t. x * x)" by (simp add: length_vec_def add_pos_nonneg)
  then show ?thesis by (simp add: l2_norm_unit) (simp add: l2_norm_def)
qed

theorem scores_are_cosines_witness:
  "\<exists>is pad. dense_search demo_service_env (demo_backend True) flat_search (kb_index demo_indexed) demo_text 3 =
       Inr (map (\<lambda>i. (Finite 1, int i)) is @ pad) \<and> is = [0] \<and> l2_norm (length_vec demo_text) \<noteq> 1"
proof -
  define score where "score = (\<lambda>i. cosine (length_vec (c_content (kb_chunks demo_indexed ! i))) (length_vec demo_text))"
  have api: "em_api_enabled (demo_backend True)" "\<forall>t. length (length_vec t) = 2" "int 2 = em_dimension (demo_backend True)"
    by (simp_all add: demo_backend_def length_vec_def)
  have one: "kb_chunks demo_indexed = [demo_chunk 0 (asc ''a.pdf'')]" by (simp add: demo_indexed_def Let_def)
  have norm: "l2_norm (length_vec demo_text) \<noteq> 0" "l2_norm (length_vec demo_text) \<noteq> 1"
    by (simp_all add: l2_norm_def length_vec_def demo_text_def asc_def)
  obtain "is" pad where run: "dense_search demo_service_env (demo_backend True) flat_search (kb_index demo_indexed) demo_text 3 =
      Inr (map (\<lambda>i. (Finite (score i), int i)) is @ pad)" "set is \<subseteq> {..<1}" "length is = 1"
    "\<forall>i < length (kb_chunks demo_indexed). length_vec (c_content (kb_chunks demo_indexed ! i)) = length_vec demo_text \<and>
      l2_norm (length_vec demo_text) \<noteq> 0 \<longrightarrow> score i = 1"
    using scores_are_cosines [OF demo_libraries(1) flat_search_exact api(1) demo_serves api(2,3) demo_settings(1) _
        demo_settings(2) demo_indexed_ok(1) _ score_def, of 3] by (auto simp: one)
  have "is = [0]" using run(2,3) by (cases "is") auto
  moreover have "score 0 = 1" using run(4) norm(1) by (simp add: one demo_chunk_text)
  ultimately show ?thesis using run(1) norm(2) by (intro exI [of _ "is"] exI [of _ pad]) simp
qed

theorem dense_recall_witness:
  "\<exists>rs. dense_kb_search demo_service_env (demo_backend True) flat_search default_config (\<lambda>n ep m q ds k. Inl (OtherError [])) None
       demo_indexed demo_text 5 (8/100) (reranker_init False [] []) = (reranker_init False [] [], Inr rs) \<and>
     (\<exists>r\<in>set rs. sr_source r = (asc ''a.pdf''))"
proof -
  have ch: "demo_chunk 0 (asc ''a.pdf'') \<in> set (kb_chunks demo_indexed)" by (simp add: demo_indexed_def Let_def)
  have sim: "8/100 \<le> inner (unit_vec (length_vec (c_content (demo_chunk 0 (asc ''a.pdf''))))) (unit_vec (length_vec demo_text))"
    unfolding demo_chunk_text inner_self demo_unit by simp
  show ?thesis
    using dense_recall [OF flat_search_exact demo_embeds demo_indexed_ok, where cfg = default_config and rr = "reranker_init False [] []" and
        top_k = 5 and ch = "demo_chunk 0 (asc ''a.pdf'')" and ms = "8/100" and q = demo_text and post = "\<lambda>n ep m q ds k. Inl (OtherError [])" and em = None,
        OF _ _ _ _ ch sim]
    by (force simp: default_config_def reranker_init_def demo_indexed_def Let_def demo_chunk_def)
qed

theorem offline_exact_text_found_witness:
  "\<exists>st' rep rs. upsert_pdf (with_embedding demo_service_env (demo_backend False) demo_vec_env) (asc ''p'') (asc ''a.pdf'') demo_indexed = Some (st', Inr rep) \<and>
     dense_kb_search demo_service_env (demo_backend False) flat_search default_config (\<lambda>n ep m q ds k. Inl (OtherError [])) None
       st' demo_text 5 1 (reranker_init False [] []) = (reranker_init False [] [], Inr rs) \<and>
     (\<exists>r\<in>set rs. sr_source r = (asc ''a.pdf''))"
proof -
  let ?k = "with_embedding demo_service_env (demo_backend False) demo_vec_env"
  have eb: "is_hashing (demo_backend False)" "0 < em_dimension (demo_backend False)" by (simp_all add: is_hashing_def demo_backend_def)
  have kenv: "env_ok demo_vec_env" using demo_env_ok(1) by (simp add: env_ok_def demo_vec_env_def demo_env_def)
  have pdf: "ke_pdf demo_vec_env (asc ''p'') = Inr [Some demo_text]" by (simp add: demo_vec_env_def)
  obtain st' rep where run: "upsert_pdf ?k (asc ''p'') (asc ''a.pdf'') demo_indexed = Some (st', Inr rep)"
    using offline_ingestion_succeeds [OF demo_libraries(1) eb kenv pdf, of "(asc ''a.pdf'')" demo_indexed] by blast
  have reader: "chunks_from_reader (ke_cfg ?k) (ke_uuid ?k) (asc ''a.pdf'') [Some demo_text] (kb_next demo_indexed) = Some (4, [demo_chunk 2 (asc ''a.pdf'')])"
    using demo_reader [of "(asc ''a.pdf'')" 2] by (simp add: with_embedding_def demo_vec_env_def demo_indexed_def Let_def del: asc_Cons)
  have "ke_pdf ?k (asc ''p'') = Inr [Some demo_text]" using pdf by (simp add: with_embedding_def)
  then have chunks: "kb_chunks st' = [demo_chunk 2 (asc ''a.pdf'')]"
    using run reader unfolding upsert_pdf_def ingest_pdf_def
    by (auto simp: demo_indexed_def Let_def demo_chunk_def split: prod.splits sum.splits dest!: commit_state simp del: asc_Cons)
  have tok: "tokenize demo_text = [(asc ''hello''), (asc ''world'')]" by code_simp
  have "bucket_of 2 (replicate 16 0) = 0" "sign_of (replicate 16 0) = 1" by code_simp (simp add: sign_of_def)
  then have add: "add_token demo_service_env 2 t [a, b] = [a + 1, b]" for t a b
    by (simp add: add_token_def demo_service_env_def)
  have "l2_norm (hashed demo_service_env 2 demo_text) \<noteq> 0"
    unfolding hashed_def tok l2_norm_unit by (simp add: add numeral_2_eq_2 l2_norm_def)
  then show ?thesis
    using offline_exact_text_found [OF demo_libraries(1) flat_search_exact eb kenv demo_indexed_ok(3,2) run, where cfg = default_config and
        rr = "reranker_init False [] []" and top_k = 5 and ms = 1 and q = demo_text and ch = "demo_chunk 2 (asc ''a.pdf'')" and
        post = "\<lambda>n ep m q ds k. Inl (OtherError [])" and em = None] run chunks
    by (force simp: default_config_def reranker_init_def demo_chunk_def demo_backend_def)
qed

end
