(* ===== verification/Service_Config.thy ===== *)
theory Service_Config
  imports Py_Json
begin

text \<open>
  How the service is configured and started: the settings of \<open>core/config.py\<close> with their validators,
  the log level of \<open>core/logging.py\<close>, the tracing switches of \<open>main.py\<close>, the broker addresses of
  \<open>tasks/celery_app.py\<close>, the connection holders of \<open>db/database.py\<close> and \<open>db/redis_client.py\<close>, and the
  application's life cycle. Reading \<open>.env\<close> and converting its values is \<open>pydantic-settings\<close>' part:
  the settings are built from the values it parsed.
\<close>

section \<open>Settings\<close>

type_synonym settings = "(pystr \<times> json) list"

definition default_settings :: settings where
  "default_settings =
     [((asc ''app_env''), JStr (asc ''development'')), ((asc ''app_title''), JStr (asc ''CRAG Expert System'')), ((asc ''app_version''), JStr (asc ''2.0.0'')),
      ((asc ''log_level''), JStr (asc ''INFO'')),
      ((asc ''openai_api_key''), JStr []), ((asc ''openai_api_base''), JStr (asc ''https://api.deepseek.com'')),
      ((asc ''openai_model''), JStr (asc ''deepseek-chat'')), ((asc ''openai_max_tokens''), JInt 4096),
      ((asc ''embedding_provider''), JStr (asc ''api'')), ((asc ''embedding_api_base''), JStr []), ((asc ''embedding_api_key''), JStr []),
      ((asc ''embedding_model''), JStr (asc ''BAAI/bge-m3'')), ((asc ''tavily_api_key''), JStr []),
      ((asc ''langchain_api_key''), JStr []), ((asc ''langsmith_api_key''), JStr []), ((asc ''langchain_project''), JStr (asc ''crag-expert-system'')),
      ((asc ''langchain_endpoint''), JStr []), ((asc ''langsmith_tracing''), JStr (asc ''false'')),
      ((asc ''database_url''), JStr []), ((asc ''redis_url''), JStr []),
      ((asc ''jwt_secret_key''), JStr (asc ''change-me-in-production-32chars!!'')), ((asc ''jwt_algorithm''), JStr (asc ''HS256'')),
      ((asc ''jwt_expire_minutes''), JInt 1440),
      ((asc ''require_auth''), JBool False), ((asc ''cache_enabled''), JBool True), ((asc ''cache_ttl_seconds''), JInt 3600),
      ((asc ''rate_limit_per_minute''), JInt 20), ((asc ''cors_origins''), JArr [JStr (asc ''*'')]),
      ((asc ''auto_local_score_threshold''), JReal (55/100)), ((asc ''local_first_mode''), JBool True),
      ((asc ''vector_store''), JStr (asc ''faiss'')), ((asc ''kafka_bootstrap_servers''), JStr []),
      ((asc ''kafka_document_topic''), JStr (asc ''rag-document-change'')), ((asc ''kafka_document_dlq_topic''), JStr (asc ''rag-document-dlq'')),
      ((asc ''mysql_cdc_enabled''), JBool False), ((asc ''mysql_cdc_database_url''), JStr []),
      ((asc ''otel_enabled''), JBool False), ((asc ''otel_exporter''), JStr (asc ''console'')), ((asc ''otel_exporter_otlp_endpoint''), JStr [])]"

definition allowed_levels :: "pystr list" where
  "allowed_levels = [(asc ''DEBUG''), (asc ''INFO''), (asc ''WARNING''), (asc ''ERROR''), (asc ''CRITICAL'')]"

definition validate_log_level :: "pystr \<Rightarrow> pystr result" where
  "validate_log_level v =
     (let upper = py_upper v
      in if upper \<notin> set allowed_levels then Inl (ValueError (asc ''log_level'')) else Inr upper)"

definition validate_vector_store :: "pystr \<Rightarrow> pystr result" where
  "validate_vector_store v =
     (if py_lower v \<noteq> (asc ''faiss'') then Inl (ValueError (asc ''Only VECTOR_STORE=faiss is supported by this project''))
      else Inr (asc ''faiss''))"

text \<open>The values given replace the defaults; only they are validated.\<close>

fun validated :: "pystr \<times> json \<Rightarrow> (pystr \<times> json) result" where
  "validated (k, JStr v) =
     (if k = (asc ''log_level'') then rbind (validate_log_level v) (\<lambda>w. Inr (k, JStr w))
      else if k = (asc ''vector_store'') then rbind (validate_vector_store v) (\<lambda>w. Inr (k, JStr w))
      else Inr (k, JStr v))"
| "validated kv = Inr kv"

definition load_settings :: "settings \<Rightarrow> settings result" where
  "load_settings given = rbind (mapr validated given) (\<lambda>kvs. Inr (kvs @ default_settings))"

definition setting :: "settings \<Rightarrow> pystr \<Rightarrow> json" where
  "setting s k = obj_get s k JNull"

definition is_production :: "settings \<Rightarrow> bool" where
  "is_production s \<longleftrightarrow> setting s (asc ''app_env'') = JStr (asc ''production'')"

definition db_enabled :: "settings \<Rightarrow> bool" where
  "db_enabled s = truthy (setting s (asc ''database_url''))"

definition redis_enabled :: "settings \<Rightarrow> bool" where
  "redis_enabled s = truthy (setting s (asc ''redis_url''))"

section \<open>Log level\<close>

text \<open>\<open>getattr(logging, level.upper(), logging.INFO)\<close>: the attributes of that module that are levels.\<close>

definition logging_levels :: "(pystr \<times> json) list" where
  "logging_levels = [((asc ''CRITICAL''), JInt 50), ((asc ''FATAL''), JInt 50), ((asc ''ERROR''), JInt 40), ((asc ''WARN''), JInt 30),
     ((asc ''WARNING''), JInt 30), ((asc ''INFO''), JInt 20), ((asc ''DEBUG''), JInt 10), ((asc ''NOTSET''), JInt 0)]"

definition logging_level :: "pystr \<Rightarrow> json" where
  "logging_level log_level = obj_get logging_levels (py_upper log_level) (JInt 20)"

section \<open>Tracing\<close>

type_synonym environ = "pystr \<Rightarrow> pystr option"

definition getenv :: "environ \<Rightarrow> pystr \<Rightarrow> pystr \<Rightarrow> pystr" where
  "getenv e name d = (case e name of None \<Rightarrow> d | Some v \<Rightarrow> v)"

definition valid_key :: "pystr \<Rightarrow> bool" where
  "valid_key v \<longleftrightarrow> v \<noteq> [] \<and> \<not> py_in (asc ''your-'') (py_lower v) \<and> \<not> py_in (asc ''placeholder'') (py_lower v)"

definition configure_langsmith :: "pystr \<Rightarrow> environ \<Rightarrow> environ \<times> json" where
  "configure_langsmith project e =
     (let key = str_or (strip_env (getenv e (asc ''LANGCHAIN_API_KEY'') [])) (strip_env (getenv e (asc ''LANGSMITH_API_KEY'') []))
      in if valid_key key then
           let e1 = e((asc ''LANGCHAIN_API_KEY'') \<mapsto> key);
               e2 = (if e1 (asc ''LANGCHAIN_PROJECT'') = None then e1((asc ''LANGCHAIN_PROJECT'') \<mapsto> project) else e1);
               e3 = e2((asc ''LANGCHAIN_TRACING_V2'') \<mapsto> (asc ''true''), (asc ''LANGSMITH_TRACING'') \<mapsto> (asc ''true''))
           in (e3, JObj [((asc ''enabled''), JBool True), ((asc ''project''), JStr (getenv e3 (asc ''LANGCHAIN_PROJECT'') []))])
         else (e((asc ''LANGCHAIN_TRACING_V2'') \<mapsto> (asc ''false''), (asc ''LANGSMITH_TRACING'') \<mapsto> (asc ''false'')),
               JObj [((asc ''enabled''), JBool False)]))"

section \<open>The task queue's addresses\<close>

text \<open>\<open>rstrip("/0")\<close> removes every slash and every zero at the end.\<close>

definition celery_db :: "pystr \<Rightarrow> pystr \<Rightarrow> pystr" where
  "celery_db base db = rstrip_by (\<lambda>c. c = 47 \<or> c = 48) base @ db"

definition redis_base :: "environ \<Rightarrow> pystr" where
  "redis_base e = getenv e (asc ''REDIS_URL'') (asc ''redis://localhost:6379'')"

definition broker_url :: "environ \<Rightarrow> pystr" where
  "broker_url e = getenv e (asc ''CELERY_BROKER_URL'') (celery_db (redis_base e) (asc ''/1''))"

definition result_backend :: "environ \<Rightarrow> pystr" where
  "result_backend e = getenv e (asc ''CELERY_RESULT_BACKEND'') (celery_db (redis_base e) (asc ''/2''))"

section \<open>Connections\<close>

text \<open>
  The module variables \<open>_engine\<close>, \<open>_session_factory\<close> and \<open>_redis\<close>. Engines are numbered in the order of
  their creation; a session factory is known by the engine it is bound to.
\<close>

record connections =
  cn_engine :: "nat option"
  cn_factory :: "nat option"
  cn_redis :: bool
  cn_created :: nat
  cn_disposed :: "nat list"

definition no_connections :: connections where
  "no_connections = \<lparr>cn_engine = None, cn_factory = None, cn_redis = False, cn_created = 0, cn_disposed = []\<rparr>"

definition get_engine :: "settings \<Rightarrow> connections \<Rightarrow> connections \<times> nat option" where
  "get_engine s c =
     (let c' = (if cn_engine c = None \<and> db_enabled s
                then c\<lparr>cn_engine := Some (cn_created c), cn_created := cn_created c + 1\<rparr> else c)
      in (c', cn_engine c'))"

definition get_factory :: "settings \<Rightarrow> connections \<Rightarrow> connections \<times> nat option" where
  "get_factory s c =
     (if cn_factory c = None then
        (case get_engine s c of
           (c1, None) \<Rightarrow> (c1, None)
         | (c1, Some engine) \<Rightarrow> (c1\<lparr>cn_factory := Some engine\<rparr>, Some engine))
      else (c, cn_factory c))"

text \<open>Opening a session of \<open>get_db\<close>: the engine it works on.\<close>

definition get_db :: "settings \<Rightarrow> connections \<Rightarrow> connections \<times> nat result" where
  "get_db s c = (case get_factory s c of
       (c', None) \<Rightarrow> (c', Inl (RuntimeError ([0x6570, 0x636e, 0x5e93, 0x672a, 0x914d,
           0x7f6e, 0xff0c, 0x8bf7, 0x5728] @ asc '' .env '' @ [0x4e2d, 0x8bbe, 0x7f6e] @
           asc '' DATABASE_URL'')))
     | (c', Some engine) \<Rightarrow> (c', Inr engine))"

definition get_db_optional :: "settings \<Rightarrow> connections \<Rightarrow> connections \<times> nat option result" where
  "get_db_optional s c =
     (if \<not> db_enabled s then (c, Inr None)
      else case get_db s c of (c', Inl e) \<Rightarrow> (c', Inl e) | (c', Inr engine) \<Rightarrow> (c', Inr (Some engine)))"

text \<open>Whether the tables are created; creating them may raise.\<close>

definition init_db :: "settings \<Rightarrow> (nat \<Rightarrow> unit result) \<Rightarrow> connections \<Rightarrow> connections \<times> unit result" where
  "init_db s create_tables c = (case get_engine s c of
       (c', None) \<Rightarrow> (c', Inr ())
     | (c', Some engine) \<Rightarrow> (c', create_tables engine))"

definition close_db :: "connections \<Rightarrow> connections" where
  "close_db c = (case cn_engine c of
       None \<Rightarrow> c
     | Some engine \<Rightarrow> c\<lparr>cn_engine := None, cn_disposed := engine # cn_disposed c\<rparr>)"

definition get_redis :: "settings \<Rightarrow> connections \<Rightarrow> connections \<times> bool" where
  "get_redis s c = (if \<not> redis_enabled s then (c, False) else (c\<lparr>cn_redis := True\<rparr>, True))"

definition close_redis :: "connections \<Rightarrow> connections" where
  "close_redis c = c\<lparr>cn_redis := False\<rparr>"

definition ping_redis :: "settings \<Rightarrow> bool result \<Rightarrow> connections \<Rightarrow> connections \<times> bool" where
  "ping_redis s answer c = (case get_redis s c of
       (c', False) \<Rightarrow> (c', False)
     | (c', True) \<Rightarrow> (c', (case answer of Inr b \<Rightarrow> b | Inl e \<Rightarrow> False)))"

text \<open>The two halves of \<open>lifespan\<close>.\<close>

definition startup :: "settings \<Rightarrow> (nat \<Rightarrow> unit result) \<Rightarrow> bool result \<Rightarrow> connections \<Rightarrow> connections \<times> bool result" where
  "startup s create_tables answer c = (case init_db s create_tables c of
       (c1, Inl e) \<Rightarrow> (c1, Inl e)
     | (c1, Inr _) \<Rightarrow> (case ping_redis s answer c1 of (c2, redis_ok) \<Rightarrow> (c2, Inr redis_ok)))"

definition shutdown :: "connections \<Rightarrow> connections" where
  "shutdown c = close_redis (close_db c)"

section \<open>Facts about settings\<close>

lemma rstrip_by_append: "ys \<noteq> [] \<Longrightarrow> \<not> p (last ys) \<Longrightarrow> rstrip_by p (xs @ ys) = xs @ ys"
  by (cases ys rule: rev_cases) (simp_all add: rstrip_by_def)

lemma rstrip_by_drop: "\<forall>c\<in>set t. p c \<Longrightarrow> rstrip_by p (s @ t) = rstrip_by p s"
  by (induction t rule: rev_induct) (simp_all add: rstrip_by_def)

lemma validated_key: "validated kv = Inr kv' \<Longrightarrow> fst kv' = fst kv"
  by (cases kv rule: validated.cases) (auto simp: rbind_Inr_iff split: if_splits simp del: asc_Cons)

lemma validated_level:
  assumes "validated ((asc ''log_level''), JStr t) = Inr kv"
  shows "\<exists>l\<in>set allowed_levels. snd kv = JStr l"
proof -
  have "rbind (validate_log_level t) (\<lambda>w. Inr ((asc ''log_level''), JStr w)) = Inr kv"
    using assms by (simp only: validated.simps if_True simp_thms refl)
  then show ?thesis unfolding validate_log_level_def Let_def rbind_Inr_iff
    by (cases "py_upper t \<in> set allowed_levels") (auto simp del: asc_Cons)
qed

lemma validated_store:
  assumes "validated ((asc ''vector_store''), JStr t) = Inr kv"
  shows "snd kv = JStr (asc ''faiss'')"
proof -
  have "(asc ''vector_store'') \<noteq> (asc ''log_level'')" by code_simp
  then have "rbind (validate_vector_store t) (\<lambda>w. Inr ((asc ''vector_store''), JStr w)) = Inr kv"
    using assms by (simp only: validated.simps if_True if_False simp_thms refl)
  then show ?thesis unfolding validate_vector_store_def rbind_Inr_iff
    by (cases "py_lower t = (asc ''faiss'')") (auto simp del: asc_Cons)
qed

section \<open>Facts about connections\<close>

text \<open>The steps the running service takes on its connections.\<close>

inductive conn_step :: "settings \<Rightarrow> connections \<Rightarrow> connections \<Rightarrow> bool" for s where
  step_start: "conn_step s c (fst (startup s create_tables answer c))"
| step_session: "conn_step s c (fst (get_db_optional s c))"
| step_redis: "conn_step s c (fst (get_redis s c))"
| step_stop: "conn_step s c (shutdown c)"

text \<open>Engines are handed out once, and the open one is never disposed.\<close>

definition conn_ok :: "connections \<Rightarrow> bool" where
  "conn_ok c \<longleftrightarrow> distinct (cn_disposed c) \<and> (\<forall>e\<in>set (cn_disposed c). e < cn_created c) \<and>
     (\<forall>e. cn_engine c = Some e \<longrightarrow> e < cn_created c \<and> e \<notin> set (cn_disposed c)) \<and>
     (\<forall>e. cn_factory c = Some e \<longrightarrow> cn_engine c = Some e \<or> e \<in> set (cn_disposed c)) \<and>
     cn_created c = length (cn_disposed c) + (if cn_engine c = None then 0 else 1)"

lemma get_engine_ok: "conn_ok c \<Longrightarrow> conn_ok (fst (get_engine s c))"
  by (auto simp: conn_ok_def get_engine_def Let_def)

lemma get_factory_ok: "conn_ok c \<Longrightarrow> conn_ok (fst (get_factory s c))"
  using get_engine_ok [of c s]
  by (auto simp: get_factory_def get_engine_def conn_ok_def Let_def split: if_splits)

lemma close_db_ok: "conn_ok c \<Longrightarrow> conn_ok (close_db c)"
  by (auto simp: conn_ok_def close_db_def split: option.splits)

lemma conn_ok_redis [simp]: "conn_ok (c\<lparr>cn_redis := b\<rparr>) = conn_ok c"
  by (simp add: conn_ok_def)

lemma conn_step_ok: "conn_step s c c' \<Longrightarrow> conn_ok c \<Longrightarrow> conn_ok c'"
proof (induction rule: conn_step.induct)
  case (step_start c create_tables answer)
  then show ?case using get_engine_ok [of c s]
    by (auto simp: startup_def init_db_def ping_redis_def get_redis_def split: prod.splits option.splits sum.splits if_splits bool.splits)
next
  case (step_session c)
  then show ?case using get_factory_ok [of c s]
    by (auto simp: get_db_optional_def get_db_def split: prod.splits option.splits sum.splits)
qed (auto simp: get_redis_def shutdown_def close_redis_def close_db_ok)

section \<open>Properties\<close>

text \<open>Settings that load hold a level that the logging module knows by that name, so the fall-back
  level is never used, and the one supported vector store; a store by any other name stops the
  service. Every other setting is the value given, or the default.\<close>

theorem settings_valid:
  assumes "load_settings given = Inr s" "\<forall>(k, v)\<in>set given. k \<in> {(asc ''log_level''), (asc ''vector_store'')} \<longrightarrow> (\<exists>t. v = JStr t)"
  shows "(\<exists>l\<in>set allowed_levels. setting s (asc ''log_level'') = JStr l \<and> (l, logging_level l) \<in> set logging_levels) \<and>
     setting s (asc ''vector_store'') = JStr (asc ''faiss'') \<and>
     (\<forall>k. k \<notin> {(asc ''log_level''), (asc ''vector_store'')} \<longrightarrow> setting s k = obj_get (given @ default_settings) k JNull)"
proof -
  obtain kvs where kvs: "mapr validated given = Inr kvs" and s: "s = kvs @ default_settings"
    using assms(1) by (auto simp: load_settings_def rbind_Inr_iff)
  have lookup: "map_of kvs k = (case map_of given k of None \<Rightarrow> None | Some v \<Rightarrow> Some (case validated (k, v) of Inr w \<Rightarrow> snd w | Inl e \<Rightarrow> JNull))" for k
    using kvs
  proof (induction given arbitrary: kvs)
    case (Cons kv given)
    then obtain kv' rest where "validated kv = Inr kv'" "mapr validated given = Inr rest" "kvs = kv' # rest"
      by (auto simp: rbind_Inr_iff)
    with Cons.IH validated_key [of kv kv'] show ?case by (cases kv; cases kv') auto
  qed simp
  have val: "\<exists>w. validated (k, v) = Inr w" if "map_of given k = Some v" for k v
    using kvs map_of_SomeD [OF that] by (induction given arbitrary: kvs) (auto simp: rbind_Inr_iff)
  have get: "setting s k = (case map_of given k of None \<Rightarrow> setting default_settings k
      | Some v \<Rightarrow> (case validated (k, v) of Inr w \<Rightarrow> snd w | Inl e \<Rightarrow> JNull))" for k
    by (cases "map_of given k") (simp_all add: s setting_def obj_get_def map_add_def lookup)
  have defaults: "setting default_settings (asc ''log_level'') = JStr (asc ''INFO'')" "setting default_settings (asc ''vector_store'') = JStr (asc ''faiss'')"
    by code_simp+
  have levels: "\<forall>l\<in>set allowed_levels. (l, logging_level l) \<in> set logging_levels" "(asc ''INFO'') \<in> set allowed_levels" by code_simp+
  have "\<exists>l\<in>set allowed_levels. setting s (asc ''log_level'') = JStr l"
  proof (cases "map_of given (asc ''log_level'')")
    case None
    then show ?thesis using get defaults levels(2) by (simp del: asc_Cons)
  next
    case (Some v)
    then obtain t where t: "v = JStr t" using bspec [OF assms(2) map_of_SomeD [OF Some]] by (auto simp del: asc_Cons)
    from val [OF Some] obtain kv where kv: "validated ((asc ''log_level''), JStr t) = Inr kv" unfolding t by blast
    then have "setting s (asc ''log_level'') = snd kv" by (simp only: get Some t option.case sum.case)
    then show ?thesis using validated_level [OF kv] by simp
  qed
  moreover have "setting s (asc ''vector_store'') = JStr (asc ''faiss'')"
  proof (cases "map_of given (asc ''vector_store'')")
    case None
    then show ?thesis using get defaults by (simp del: asc_Cons)
  next
    case (Some v)
    then obtain t where t: "v = JStr t" using bspec [OF assms(2) map_of_SomeD [OF Some]] by (auto simp del: asc_Cons)
    from val [OF Some] obtain kv where kv: "validated ((asc ''vector_store''), JStr t) = Inr kv" unfolding t by blast
    then have "setting s (asc ''vector_store'') = snd kv" by (simp only: get Some t option.case sum.case)
    then show ?thesis using validated_store [OF kv] by simp
  qed
  moreover have "setting s k = obj_get (given @ default_settings) k JNull" if "k \<notin> {(asc ''log_level''), (asc ''vector_store'')}" for k
  proof -
    have "validated (k, v) = Inr (k, v)" for v using that by (cases v) (simp_all del: asc_Cons)
    then show ?thesis using get [of k] by (cases "map_of given k") (simp_all add: setting_def obj_get_def map_add_def)
  qed
  ultimately show ?thesis using levels(1) by blast
qed

theorem settings_valid_witness:
  "\<exists>s. load_settings [((asc ''log_level''), JStr (asc ''debug'')), ((asc ''redis_url''), JStr (asc ''redis://r''))] = Inr s \<and>
     setting s (asc ''vector_store'') = JStr (asc ''faiss'') \<and> setting s (asc ''redis_url'') = JStr (asc ''redis://r'')"
proof -
  let ?given = "[((asc ''log_level''), JStr (asc ''debug'')), ((asc ''redis_url''), JStr (asc ''redis://r''))]"
  have v: "mapr validated ?given = Inr [((asc ''log_level''), JStr (asc ''DEBUG'')), ((asc ''redis_url''), JStr (asc ''redis://r''))]" by code_simp
  then obtain s where s: "load_settings ?given = Inr s" by (auto simp: load_settings_def simp del: asc_Cons)
  have k: "(asc ''redis_url'') \<notin> {(asc ''log_level''), (asc ''vector_store'')}" by code_simp
  have "obj_get (?given @ default_settings) (asc ''redis_url'') JNull = JStr (asc ''redis://r'')" by code_simp
  then show ?thesis using settings_valid [OF s] k s by (auto simp del: asc_Cons)
qed

text \<open>The queue lives beside the cache on the same server, in the databases 1 and 2, exactly when the
  address ends in neither a slash nor a zero once an ending \<open>/0\<close> is removed. A port that ends in zero
  is cut, so that the tasks go to another server.\<close>

theorem celery_urls:
  "(\<forall>base. base \<noteq> [] \<and> last base \<noteq> 47 \<and> last base \<noteq> 48 \<longrightarrow>
      celery_db base (asc ''/1'') = base @ (asc ''/1'') \<and> celery_db (base @ (asc ''/0'')) (asc ''/1'') = base @ (asc ''/1'') \<and>
      celery_db (base @ (asc ''/'')) (asc ''/1'') = base @ (asc ''/1'') \<and> celery_db (base @ (asc ''0'')) (asc ''/1'') = base @ (asc ''/1'')) \<and>
   broker_url (Map.empty((asc ''REDIS_URL'') \<mapsto> (asc ''redis://cache:6380/0''))) = (asc ''redis://cache:638/1'') \<and>
   result_backend (Map.empty((asc ''REDIS_URL'') \<mapsto> (asc ''redis://cache:7000''))) = (asc ''redis://cache:7/2'')"
proof (intro conjI allI impI; (elim conjE)?)
  fix base :: pystr assume a: "base \<noteq> []" "last base \<noteq> 47" "last base \<noteq> 48"
  let ?p = "\<lambda>c :: int. c = 47 \<or> c = 48"
  have keep: "rstrip_by ?p base = base" using rstrip_by_append [of base ?p "[]"] a by simp
  then show "celery_db base (asc ''/1'') = base @ (asc ''/1'')" by (simp add: celery_db_def)
  have "rstrip_by ?p (base @ t) = base" if "\<forall>c\<in>set t. ?p c" for t
    using rstrip_by_drop [of t ?p base] that keep by simp
  from this [of "(asc ''/0'')"] this [of "(asc ''/'')"] this [of "(asc ''0'')"]
  show "celery_db (base @ (asc ''/0'')) (asc ''/1'') = base @ (asc ''/1'')" "celery_db (base @ (asc ''/'')) (asc ''/1'') = base @ (asc ''/1'')"
    "celery_db (base @ (asc ''0'')) (asc ''/1'') = base @ (asc ''/1'')"
    unfolding celery_db_def by simp_all
next
  show "broker_url (Map.empty((asc ''REDIS_URL'') \<mapsto> (asc ''redis://cache:6380/0''))) = (asc ''redis://cache:638/1'')"
    "result_backend (Map.empty((asc ''REDIS_URL'') \<mapsto> (asc ''redis://cache:7000''))) = (asc ''redis://cache:7/2'')" by code_simp+
qed

theorem celery_urls_witness:
  "celery_db ((asc ''redis://r:6379'') @ (asc ''/0'')) (asc ''/1'') = (asc ''redis://r:6379'') @ (asc ''/1'')"
proof -
  have "(asc ''redis://r:6379'') \<noteq> []" "last (asc ''redis://r:6379'') \<noteq> 47" "last (asc ''redis://r:6379'') \<noteq> 48" by code_simp+
  then show ?thesis using celery_urls by blast
qed

text \<open>C40: whatever the service does - starts, sessions, stops, in any order - no engine is disposed
  twice, the open engine is never a disposed one, and every engine but the open one has been
  disposed. Yet a session opened after a restart works on the disposed engine of the first run: the
  factory is kept when its engine is closed.\<close>

theorem connections_safe:
  assumes "(conn_step s)\<^sup>*\<^sup>* no_connections c"
  shows "distinct (cn_disposed c) \<and> (\<forall>e. cn_engine c = Some e \<longrightarrow> e \<notin> set (cn_disposed c)) \<and>
     cn_created c = length (cn_disposed c) + (if cn_engine c = None then 0 else 1) \<and>
     (\<forall>e c1 c2 tables answer. db_enabled s \<and> get_db_optional s c = (c1, Inr (Some e)) \<and>
        c2 = fst (startup s tables answer (shutdown c1)) \<longrightarrow>
        e \<in> set (cn_disposed c2) \<and> cn_engine c2 \<noteq> Some e \<and> snd (get_db_optional s c2) = Inr (Some e))"
proof -
  have ok: "conn_ok c" using assms
    by (induction rule: rtranclp_induct) (auto simp: conn_ok_def no_connections_def dest: conn_step_ok [unfolded conn_ok_def])
  moreover have "e \<in> set (cn_disposed c2) \<and> cn_engine c2 \<noteq> Some e \<and> snd (get_db_optional s c2) = Inr (Some e)"
    if a: "db_enabled s" "get_db_optional s c = (c1, Inr (Some e))" "c2 = fst (startup s tables answer (shutdown c1))" for e c1 c2 tables answer
  proof -
    have c1: "conn_ok c1" "cn_factory c1 = Some e"
      using a(1,2) get_factory_ok [OF ok, of s]
      by (auto simp: get_db_optional_def get_db_def get_factory_def get_engine_def Let_def split: if_splits option.splits prod.splits)
    have gone: "e \<in> set (cn_disposed (close_db c1))" using c1 by (auto simp: conn_ok_def close_db_def split: option.splits)
    have fac: "cn_factory (shutdown c1) = Some e" "cn_disposed (shutdown c1) = cn_disposed (close_db c1)" "cn_engine (shutdown c1) = None"
      using c1(2) by (auto simp: shutdown_def close_redis_def close_db_def split: option.splits)
    have ok2: "conn_ok c2"
      using conn_step_ok [OF step_start [of s "shutdown c1" tables answer]] conn_step_ok [OF step_stop [of s c1] c1(1)] a(3) by simp
    have same: "cn_factory c2 = Some e \<and> cn_disposed c2 = cn_disposed (shutdown c1)"
      using fac(1) unfolding a(3) startup_def init_db_def get_engine_def ping_redis_def get_redis_def
      by (auto simp: Let_def split: prod.splits option.splits sum.splits if_splits bool.splits)
    then have "e \<in> set (cn_disposed c2)" using gone fac(2) by simp
    moreover from this ok2 have "cn_engine c2 \<noteq> Some e" unfolding conn_ok_def by blast
    moreover have "snd (get_db_optional s c2) = Inr (Some e)"
      using same a(1) by (simp add: get_db_optional_def get_db_def get_factory_def)
    ultimately show ?thesis by blast
  qed
  ultimately show ?thesis unfolding conn_ok_def by blast
qed

theorem connections_safe_witness:
  "\<exists>c1 c2. get_db_optional [((asc ''database_url''), JStr (asc ''db''))] no_connections = (c1, Inr (Some 0)) \<and>
     c2 = fst (startup [((asc ''database_url''), JStr (asc ''db''))] (\<lambda>_. Inr ()) (Inr True) (shutdown c1)) \<and>
     cn_engine c2 \<noteq> Some 0 \<and> snd (get_db_optional [((asc ''database_url''), JStr (asc ''db''))] c2) = Inr (Some 0)"
proof -
  let ?s = "[((asc ''database_url''), JStr (asc ''db''))]"
  have on: "db_enabled ?s" by (simp add: db_enabled_def setting_def obj_get_def)
  obtain c1 where c1: "get_db_optional ?s no_connections = (c1, Inr (Some 0))"
    using on by (simp add: get_db_optional_def get_db_def get_factory_def get_engine_def no_connections_def Let_def)
  from connections_safe [OF rtranclp.rtrancl_refl, of ?s] on c1 show ?thesis by blast
qed

text \<open>Tracing is on in both switches exactly when a usable key was found, which is then the one in use.\<close>

lemma langsmith_switches:
  assumes "configure_langsmith project e = (e', status)"
  shows "e' (asc ''LANGCHAIN_TRACING_V2'') = e' (asc ''LANGSMITH_TRACING'') \<and>
     (e' (asc ''LANGSMITH_TRACING'') = Some (asc ''true'') \<longleftrightarrow>
        valid_key (str_or (strip_env (getenv e (asc ''LANGCHAIN_API_KEY'') [])) (strip_env (getenv e (asc ''LANGSMITH_API_KEY'') [])))) \<and>
     (e' (asc ''LANGSMITH_TRACING'') = Some (asc ''true'') \<longrightarrow>
        e' (asc ''LANGCHAIN_API_KEY'') = Some (str_or (strip_env (getenv e (asc ''LANGCHAIN_API_KEY'') [])) (strip_env (getenv e (asc ''LANGSMITH_API_KEY'') []))) \<and>
        e' (asc ''LANGCHAIN_PROJECT'') \<noteq> None)"
proof -
  have names: "(asc ''LANGSMITH_TRACING'') \<noteq> (asc ''LANGCHAIN_TRACING_V2'')" "(asc ''LANGCHAIN_API_KEY'') \<noteq> (asc ''LANGCHAIN_TRACING_V2'')"
    "(asc ''LANGCHAIN_API_KEY'') \<noteq> (asc ''LANGSMITH_TRACING'')" "(asc ''LANGCHAIN_API_KEY'') \<noteq> (asc ''LANGCHAIN_PROJECT'')"
    "(asc ''LANGCHAIN_PROJECT'') \<noteq> (asc ''LANGCHAIN_TRACING_V2'')" "(asc ''LANGCHAIN_PROJECT'') \<noteq> (asc ''LANGSMITH_TRACING'')" "(asc ''true'') \<noteq> (asc ''false'')"
    by code_simp+
  show ?thesis using assms names names [symmetric]
    by (cases "valid_key (str_or (strip_env (getenv e (asc ''LANGCHAIN_API_KEY'') [])) (strip_env (getenv e (asc ''LANGSMITH_API_KEY'') [])))")
      (auto simp: configure_langsmith_def Let_def simp del: asc_Cons)
qed

end
