(* ===== verification/Service_Routes.thy ===== *)
theory Service_Routes
  imports Dense_Search Service_Config Crag_Graph
begin

text \<open>
  The routes that expose single parts of the service: the health checks of \<open>api/v1/health.py\<close>, the
  \<open>/embeddings\<close> and \<open>/rerank\<close> routes of \<open>api/v1/chat.py\<close>, the statistics they report and the health
  report of \<open>tasks/scheduled_tasks.py\<close>. \<open>numpy.argsort\<close>, whose order of equal scores is not
  specified, and the constants of \<open>graph.py\<close> are parameters.
\<close>

section \<open>Statistics\<close>

definition reranker_stats :: "pystr \<Rightarrow> reranker \<Rightarrow> (pystr \<times> json) list" where
  "reranker_stats provider rr =
     [((asc ''enabled''), JBool (rr_enabled rr)), ((asc ''provider''), JStr provider), ((asc ''api_base''), JStr (rr_api_base rr)),
      ((asc ''model''), JStr (rr_model_name rr)), ((asc ''active_model''), JStr (rr_active_model rr)), ((asc ''last_error''), JStr (rr_last_error rr))]"

text \<open>The entries that \<open>KnowledgeBase.stats\<close> takes from its backends and directories.\<close>

definition backend_stats :: "embedding \<Rightarrow> pystr \<Rightarrow> reranker \<Rightarrow> pystr \<Rightarrow> pystr \<Rightarrow> pystr \<Rightarrow> json" where
  "backend_stats eb provider rr data_dir model_dir k =
     (if k = (asc ''embedding_provider'') then JStr (em_provider eb)
      else if k = (asc ''embedding_device'') then JStr (em_device eb)
      else if k = (asc ''embedding_api_base'') then JStr (em_api_base eb)
      else if k = (asc ''embedding_dimension'') then JInt (em_dimension eb)
      else if k = (asc ''embedding'') then embedding_stats eb
      else if k = (asc ''reranker'') then JObj (reranker_stats provider rr)
      else if k = (asc ''data_dir'') then JStr data_dir else JStr model_dir)"

text \<open>The two logged values and the task's result.\<close>

definition report_health_metrics :: "json result \<Rightarrow> (json \<times> json) option \<times> json" where
  "report_health_metrics reported =
     (case rbind reported (\<lambda>stats.
             rbind (json_get_or stats (asc ''total_chunks'') (JInt 0)) (\<lambda>chunks.
             rbind (json_get_or stats (asc ''total_documents'') (JInt 0)) (\<lambda>documents. Inr (chunks, documents, stats)))) of
        Inr (chunks, documents, stats) \<Rightarrow> (Some (chunks, documents), stats)
      | Inl exc \<Rightarrow> (None, JObj [((asc ''error''), JStr (exn_str exc))]))"

section \<open>Health checks\<close>

record model_constants =
  mc_name :: pystr
  mc_base_url :: pystr
  mc_max_tokens :: int

definition health :: "settings \<Rightarrow> model_constants \<Rightarrow> graph_env \<Rightarrow> bool result \<Rightarrow> json \<Rightarrow> connections \<Rightarrow> connections \<times> json" where
  "health s mc genv answer stats c =
     (case ping_redis s answer c of (c', redis_ok) \<Rightarrow> (c', JObj
        [((asc ''status''), JStr (asc ''ok'')), ((asc ''app_version''), setting s (asc ''app_version'')), ((asc ''app_env''), setting s (asc ''app_env'')),
         ((asc ''model''), JStr (mc_name mc)), ((asc ''base_url''), JStr (mc_base_url mc)), ((asc ''max_tokens''), JInt (mc_max_tokens mc)),
         ((asc ''tavily_enabled''), JBool (has_valid_tavily_key (ge_tavily_key genv))),
         ((asc ''database''), JObj [((asc ''enabled''), JBool (db_enabled s))]),
         ((asc ''redis''), JObj [((asc ''enabled''), JBool (redis_enabled s)), ((asc ''connected''), JBool redis_ok)]),
         ((asc ''cache_enabled''), setting s (asc ''cache_enabled'')), ((asc ''require_auth''), setting s (asc ''require_auth'')),
         ((asc ''knowledge_base''), stats)]))"

definition model_health :: "model_constants \<Rightarrow> graph_env \<Rightarrow> nat \<Rightarrow> nat \<times> json result" where
  "model_health mc genv n = (case invoke_llm genv n ([0x8bf7, 0x53ea, 0x56de, 0x590d] @
      asc '' OK'' @ [0x3002]) of
     (n', Inl e) \<Rightarrow> (n', Inl e)
   | (n', Inr content) \<Rightarrow> (n', Inr (JObj [((asc ''status''), JStr (asc ''ok'')), ((asc ''model''), JStr (mc_name mc)),
        ((asc ''base_url''), JStr (mc_base_url mc)), ((asc ''sample''), JStr content)])))"

definition search_health :: "graph_env \<Rightarrow> json result" where
  "search_health genv =
     rbind (search_web (ge_tavily_key genv) (ge_tavily genv) (ge_repr genv) (asc ''Tavily API test'')) (\<lambda>(result, sources).
       Inr (JObj [((asc ''status''), JStr (asc ''ok'')), ((asc ''provider''), JStr (asc ''tavily'')), ((asc ''sample''), JStr (take 500 result)),
                  ((asc ''sources''), JArr (take 3 sources))]))"

text \<open>\<open>**stats\<close> in a dictionary display; \<open>stats()\<close> has no key of the other entries.\<close>

fun entries_of :: "json \<Rightarrow> (pystr \<times> json) list" where
  "entries_of (JObj kvs) = kvs"
| "entries_of _ = []"

definition embedding_health :: "embedding_env \<Rightarrow> embedding \<Rightarrow> json result" where
  "embedding_health env eb =
     rbind (embed env eb [(asc ''embedding health check'')]) (\<lambda>vectors. Inr (JObj
       (((asc ''status''), JStr (asc ''ok'')) # entries_of (embedding_stats eb) @
        [((asc ''sample_dimension''), JInt (case vectors of [] \<Rightarrow> 0 | v # _ \<Rightarrow> int (length v)))])))"

definition plain_result :: "pystr \<Rightarrow> pystr \<Rightarrow> real option \<Rightarrow> search_result" where
  "plain_result content source retrieval_score =
     \<lparr>sr_content = content, sr_source = source, sr_page = 0, sr_score = 0, sr_retrieval_score = retrieval_score\<rparr>"

definition result_dict :: "search_result \<Rightarrow> json" where
  "result_dict r = JObj [((asc ''content''), JStr (sr_content r)), ((asc ''source''), JStr (sr_source r)), ((asc ''page''), JInt (sr_page r)),
     ((asc ''score''), JReal (sr_score r)),
     ((asc ''retrieval_score''), case sr_retrieval_score r of None \<Rightarrow> JNull | Some x \<Rightarrow> JReal x)]"

definition rerank_health :: "rerank_client \<Rightarrow> pystr option \<Rightarrow> pystr \<Rightarrow> reranker \<Rightarrow> reranker \<times> json" where
  "rerank_health post env_model provider rr =
     (case rerank post env_model [0x4f01, 0x4e1a, 0x77e5, 0x8bc6, 0x5e93, 0x68c0, 0x7d22]
             [plain_result [0x4f01, 0x4e1a, 0x77e5, 0x8bc6, 0x5e93, 0x9700, 0x8981, 0x5148, 0x68c0,
                 0x7d22, 0x518d, 0x751f, 0x6210, 0x3002] (asc ''s0'') None, plain_result [0x4eca,
                 0x5929, 0x5929, 0x6c14, 0x4e0d, 0x9519, 0x3002] (asc ''s1'') None] 2 rr of
        (rr', sample) \<Rightarrow> (rr', JObj (((asc ''status''), JStr (asc ''ok'')) # reranker_stats provider rr' @
           [((asc ''sample''), JArr (map result_dict sample))])))"

section \<open>Embeddings\<close>

datatype embedding_input = One_text pystr | Many_texts "pystr list"

fun input_texts :: "embedding_input \<Rightarrow> pystr list" where
  "input_texts (One_text t) = [t]"
| "input_texts (Many_texts ts) = ts"

definition opt_or :: "pystr option \<Rightarrow> pystr \<Rightarrow> pystr" where
  "opt_or a b = (case a of None \<Rightarrow> b | Some s \<Rightarrow> str_or s b)"

definition embeddings :: "embedding_env \<Rightarrow> embedding \<Rightarrow> embedding_input \<Rightarrow> pystr option \<Rightarrow> json result" where
  "embeddings env eb input model =
     rbind (embed env eb (input_texts input)) (\<lambda>vectors. Inr (JObj
       [((asc ''object''), JStr (asc ''list'')), ((asc ''model''), JStr (opt_or model (em_model_name eb))),
        ((asc ''data''), JArr (map (\<lambda>(i, v). JObj [((asc ''object''), JStr (asc ''embedding'')), ((asc ''index''), JInt (int i)),
            ((asc ''embedding''), JArr (map JReal v))]) (enumerate 0 vectors)))]))"

section \<open>Reranking\<close>

record rerank_row =
  rk_index :: int
  rk_score :: real
  rk_document :: pystr

record rerank_reply =
  rp_model :: pystr
  rp_results :: "rerank_row list"

definition rerank_top :: "int \<Rightarrow> pystr list \<Rightarrow> int" where
  "rerank_top top_n documents = max 1 (min top_n (int (length documents)))"

definition rerank_candidate :: "nat \<times> pystr \<Rightarrow> search_result" where
  "rerank_candidate = (\<lambda>(i, doc). plain_result doc (show_nat i) (Some 0))"

definition row_of_result :: "search_result \<Rightarrow> rerank_row result" where
  "row_of_result r = rbind (py_int (JStr (sr_source r))) (\<lambda>i. Inr
     \<lparr>rk_index = i, rk_score = sr_score r, rk_document = sr_content r\<rparr>)"

definition rerank_by_cosine :: "embedding_env \<Rightarrow> embedding \<Rightarrow> (real list \<Rightarrow> nat list) \<Rightarrow> pystr \<Rightarrow> pystr list \<Rightarrow> int \<Rightarrow> rerank_row list result" where
  "rerank_by_cosine env eb argsort query documents top_n =
     rbind (embed env eb (query # documents)) (\<lambda>vectors.
       let scores = map (\<lambda>v. inner v (hd vectors)) (tl vectors);
           order = py_take top_n (rev (argsort scores))
       in Inr (map (\<lambda>i. \<lparr>rk_index = int i, rk_score = py_round 4 (scores ! i), rk_document = documents ! i\<rparr>) order))"

definition rerank_route ::
  "embedding_env \<Rightarrow> embedding \<Rightarrow> (real list \<Rightarrow> nat list) \<Rightarrow> rerank_client \<Rightarrow> pystr option \<Rightarrow>
   pystr \<Rightarrow> pystr list \<Rightarrow> int \<Rightarrow> pystr option \<Rightarrow> reranker \<Rightarrow> reranker \<times> rerank_reply result" where
  "rerank_route env eb argsort post env_model query documents top_n0 model rr =
     (let top_n = rerank_top top_n0 documents
      in if rr_enabled rr then
           (case rerank post env_model query (map rerank_candidate (enumerate 0 documents)) top_n rr of
              (rr', ranked) \<Rightarrow> (rr', rbind (mapr row_of_result ranked) (\<lambda>rows.
                 Inr \<lparr>rp_model = opt_or model (rr_model_name rr'), rp_results = rows\<rparr>)))
         else (rr, rbind (rerank_by_cosine env eb argsort query documents top_n) (\<lambda>rows.
                 Inr \<lparr>rp_model = (asc ''embedding-cosine-fallback''), rp_results = rows\<rparr>)))"

section \<open>Facts about the routes\<close>

text \<open>The positions that sort the scores in ascending order.\<close>

definition argsort_ok :: "(real list \<Rightarrow> nat list) \<Rightarrow> bool" where
  "argsort_ok argsort \<longleftrightarrow> (\<forall>xs. distinct (argsort xs) \<and> set (argsort xs) = {..<length xs} \<and>
     sorted_wrt (\<lambda>i j. xs ! i \<le> xs ! j) (argsort xs))"

lemma digits_from_append:
  "digits_from b acc s = Some n \<Longrightarrow> 48 \<le> c \<Longrightarrow> c \<le> 57 \<Longrightarrow> digits_from b acc (s @ [c]) = Some (10 * n + nat (c - 48))"
  by (induction b acc s rule: digits_from.induct) (auto split: if_splits)

lemma digits_from_show_nat: "digits_from False 0 (show_nat n) = Some n"
proof (induction n rule: show_nat.induct)
  case (1 n)
  show ?case
  proof (cases "n < 10")
    case True
    then show ?thesis by (simp add: show_nat.simps [of n])
  next
    case False
    then show ?thesis using digits_from_append [OF 1, of "48 + int (n mod 10)"] by (simp add: show_nat.simps [of n])
  qed
qed

lemma show_nat_ends: "\<not> py_space (hd (show_nat n)) \<and> \<not> py_space (last (show_nat n)) \<and> hd (show_nat n) \<noteq> 45 \<and> hd (show_nat n) \<noteq> 43"
  using show_nat_digits [of "hd (show_nat n)" n] show_nat_digits [of "last (show_nat n)" n] by (auto simp: py_space_def)

lemma int_of_show_nat [simp]: "py_int (JStr (show_nat n)) = Inr (int n)"
proof -
  have strip: "py_strip (show_nat n) = show_nat n"
    unfolding py_strip_def using show_nat_ends by (intro strip_by_idle) simp
  obtain c t where s: "show_nat n = c # t" by (cases "show_nat n") simp_all
  then have "c \<noteq> 45" "c \<noteq> 43" using show_nat_ends [of n] by auto
  then have "int_of_str (show_nat n) = Some (int n)"
    using digits_from_show_nat [of n] unfolding int_of_str_def strip by (simp add: signed_def s)
  then show ?thesis by simp
qed

lemma candidate_rows:
  assumes "\<forall>r\<in>set ranked. \<exists>c\<in>set (map rerank_candidate (enumerate 0 documents)). rescored_of c r"
  shows "\<exists>rows. mapr row_of_result ranked = Inr rows \<and> length rows = length ranked \<and>
     (\<forall>row\<in>set rows. 0 \<le> rk_index row \<and> rk_index row < int (length documents) \<and> rk_document row = documents ! nat (rk_index row))"
  using assms
proof (induction ranked)
  case (Cons r ranked)
  then obtain rows where rows: "mapr row_of_result ranked = Inr rows" "length rows = length ranked"
     "\<forall>row\<in>set rows. 0 \<le> rk_index row \<and> rk_index row < int (length documents) \<and> rk_document row = documents ! nat (rk_index row)"
    by auto
  from Cons.prems obtain i where i: "i < length documents" "rescored_of (rerank_candidate (i, documents ! i)) r"
    by (force simp: in_set_enumerate_eq)
  then have "sr_source r = show_nat i" "sr_content r = documents ! i"
    by (auto simp: rescored_of_def rerank_candidate_def plain_result_def)
  then have "row_of_result r = Inr \<lparr>rk_index = int i, rk_score = sr_score r, rk_document = documents ! i\<rparr>"
    by (simp add: row_of_result_def del: py_int.simps)
  then show ?case using rows i(1) by auto
qed simp

lemma rerank_by_cosine_best:
  assumes g: "embeds_by env eb g" and a: "argsort_ok argsort" and k: "0 \<le> k"
  obtains "is" where "rerank_by_cosine env eb argsort query documents k =
       Inr (map (\<lambda>i. \<lparr>rk_index = int i, rk_score = py_round 4 (inner (g (documents ! i)) (g query)), rk_document = documents ! i\<rparr>) is)"
    "distinct is" "set is \<subseteq> {..<length documents}" "length is = min (nat k) (length documents)"
    "sorted_wrt (\<lambda>i j. inner (g (documents ! j)) (g query) \<le> inner (g (documents ! i)) (g query)) is"
    "\<forall>i\<in>set is. \<forall>j < length documents. j \<notin> set is \<longrightarrow> inner (g (documents ! j)) (g query) \<le> inner (g (documents ! i)) (g query)"
proof -
  let ?in = "\<lambda>i. inner (g (documents ! i)) (g query)"
  let ?scores = "map (\<lambda>d. inner (g d) (g query)) documents"
  let ?r = "rev (argsort ?scores)"
  have arg: "distinct (argsort ?scores)" "set (argsort ?scores) = {..<length documents}"
    "sorted_wrt (\<lambda>i j. ?scores ! i \<le> ?scores ! j) (argsort ?scores)"
    using a unfolding argsort_ok_def by (metis, metis length_map, metis)
  have sorted: "sorted_wrt (\<lambda>i j. ?in j \<le> ?in i) ?r"
    unfolding sorted_wrt_rev by (rule sorted_wrt_mono_rel [OF _ arg(3)]) (use arg(2) in auto)
  have len: "length ?r = length documents" using arg(1,2) by (metis card_lessThan distinct_card length_rev)
  have "embed env eb (query # documents) = Inr (g query # map g documents)" using g by (simp add: embeds_by_def)
  then have run: "rerank_by_cosine env eb argsort query documents k =
      Inr (map (\<lambda>i. \<lparr>rk_index = int i, rk_score = py_round 4 (?scores ! i), rk_document = documents ! i\<rparr>) (take (nat k) ?r))"
    using k by (simp add: rerank_by_cosine_def Let_def py_take_def comp_def)
  have sub: "set (take (nat k) ?r) \<subseteq> {..<length documents}" using set_take_subset [of "nat k" ?r] arg(2) by auto
  show thesis
  proof (rule that [of "take (nat k) ?r"])
    show "rerank_by_cosine env eb argsort query documents k =
       Inr (map (\<lambda>i. \<lparr>rk_index = int i, rk_score = py_round 4 (?in i), rk_document = documents ! i\<rparr>) (take (nat k) ?r))"
      unfolding run using sub by (auto intro!: map_cong)
    show "distinct (take (nat k) ?r)" using arg(1) by (simp add: distinct_take)
    show "length (take (nat k) ?r) = min (nat k) (length documents)" using len by simp
    show "sorted_wrt (\<lambda>i j. ?in j \<le> ?in i) (take (nat k) ?r)" by (rule sorted_wrt_take [OF sorted])
    show "\<forall>i\<in>set (take (nat k) ?r). \<forall>j < length documents. j \<notin> set (take (nat k) ?r) \<longrightarrow> ?in j \<le> ?in i"
    proof (intro ballI allI impI)
      fix i j assume ij: "i \<in> set (take (nat k) ?r)" "j < length documents" "j \<notin> set (take (nat k) ?r)"
      then have "j \<in> set (drop (nat k) ?r)"
        using arg(2) by (metis Un_iff append_take_drop_id lessThan_iff set_append set_rev)
      with sorted_wrt_take_ge [OF sorted ij(1)] show "?in j \<le> ?in i" by blast
    qed
  qed (rule sub)
qed

section \<open>Properties\<close>

text \<open>\<open>/rerank\<close> always answers, with at most \<open>top_n\<close> rows (one when \<open>top_n\<close> is below one), each of
  which names a document of the request by its position and repeats it, whatever the rerank service
  returns. Without a reranker the rows are the documents nearest to the query, each once, nearest
  first.\<close>

theorem rerank_route_sound:
  assumes g: "embeds_by env eb g" and a: "argsort_ok argsort"
  shows "\<exists>rr' reply. rerank_route env eb argsort post env_model query documents top_n model rr = (rr', Inr reply) \<and>
     int (length (rp_results reply)) \<le> max 1 (min top_n (int (length documents))) \<and>
     (\<forall>row\<in>set (rp_results reply). 0 \<le> rk_index row \<and> rk_index row < int (length documents) \<and>
        rk_document row = documents ! nat (rk_index row)) \<and>
     (\<not> rr_enabled rr \<longrightarrow> distinct (map rk_index (rp_results reply)) \<and>
        length (rp_results reply) = min (nat (max 1 top_n)) (length documents) \<and>
        (\<forall>row\<in>set (rp_results reply). rk_score row = py_round 4 (inner (g (rk_document row)) (g query)) \<and>
           (\<forall>j < length documents. int j \<notin> rk_index ` set (rp_results reply) \<longrightarrow>
              inner (g (documents ! j)) (g query) \<le> inner (g (rk_document row)) (g query))) \<and>
        sorted_wrt (\<lambda>r r'. inner (g (rk_document r')) (g query) \<le> inner (g (rk_document r)) (g query)) (rp_results reply))"
proof -
  let ?k = "rerank_top top_n documents"
  have k: "0 \<le> ?k" "?k = max 1 (min top_n (int (length documents)))" by (simp_all add: rerank_top_def)
  show ?thesis
  proof (cases "rr_enabled rr")
    case True
    let ?c = "map rerank_candidate (enumerate 0 documents)"
    obtain rr' ranked where run: "rerank post env_model query ?c ?k rr = (rr', ranked)" by fastforce
    have ok: "\<forall>r\<in>set ranked. \<exists>c\<in>set ?c. rescored_of c r" "int (length ranked) \<le> ?k"
      using rerank_ok [where post = post and em = env_model and q = query and results = ?c and k = ?k and rr = rr] k(1) by (simp_all add: run)
    obtain rows where "mapr row_of_result ranked = Inr rows" "length rows = length ranked"
     "\<forall>row\<in>set rows. 0 \<le> rk_index row \<and> rk_index row < int (length documents) \<and> rk_document row = documents ! nat (rk_index row)"
      using candidate_rows [OF ok(1)] by blast
    then show ?thesis using True run ok(2) k(2) by (simp add: rerank_route_def Let_def)
  next
    case False
    let ?in = "\<lambda>i. inner (g (documents ! i)) (g query)"
    let ?row = "\<lambda>i. \<lparr>rk_index = int i, rk_score = py_round 4 (?in i), rk_document = documents ! i\<rparr>"
    obtain "is" where best: "rerank_by_cosine env eb argsort query documents ?k = Inr (map ?row is)"
      "distinct is" "set is \<subseteq> {..<length documents}" "length is = min (nat ?k) (length documents)"
      "sorted_wrt (\<lambda>i j. ?in j \<le> ?in i) is"
      "\<forall>i\<in>set is. \<forall>j < length documents. j \<notin> set is \<longrightarrow> ?in j \<le> ?in i"
      by (rule rerank_by_cosine_best [OF g a k(1)])
    let ?reply = "\<lparr>rp_model = (asc ''embedding-cosine-fallback''), rp_results = map ?row is\<rparr>"
    have run: "rerank_route env eb argsort post env_model query documents top_n model rr = (rr, Inr ?reply)"
      using False best(1) by (simp add: rerank_route_def Let_def)
    have len: "length is = min (nat (max 1 top_n)) (length documents)"
    proof (cases documents)
      case (Cons d ds)
      then show ?thesis unfolding best(4) rerank_top_def by (simp add: min_def max_def nat_le_iff) linarith
    qed (simp add: best(4))
    let ?rows = "map ?row is"
    have dist: "distinct (map rk_index ?rows)" using best(2) by (simp add: comp_def distinct_map)
    have order: "sorted_wrt (\<lambda>r r'. inner (g (rk_document r')) (g query) \<le> inner (g (rk_document r)) (g query)) ?rows"
      using best(5) by (simp add: sorted_wrt_map)
    have bound: "int (length ?rows) \<le> max 1 (min top_n (int (length documents)))"
    proof -
      have "length ?rows \<le> nat ?k" using best(4) by simp
      then show ?thesis unfolding k(2) [symmetric] using k(1) by (simp only: le_nat_iff)
    qed
    have docs: "\<forall>row\<in>set ?rows. 0 \<le> rk_index row \<and> rk_index row < int (length documents) \<and> rk_document row = documents ! nat (rk_index row)"
      using best(3) by auto
    have near: "\<forall>row\<in>set ?rows. rk_score row = py_round 4 (inner (g (rk_document row)) (g query)) \<and>
        (\<forall>j < length documents. int j \<notin> rk_index ` set ?rows \<longrightarrow> ?in j \<le> inner (g (rk_document row)) (g query))"
    proof (intro ballI conjI allI impI)
      fix row j assume row: "row \<in> set ?rows" and j: "j < length documents" "int j \<notin> rk_index ` set ?rows"
      then obtain i where i: "i \<in> set is" "row = ?row i" by auto
      have "j \<notin> set is" using j(2) by force
      then show "?in j \<le> inner (g (rk_document row)) (g query)" using best(6) i j(1) by simp
    qed auto
    obtain rows where rows: "rows = ?rows" by simp
    show ?thesis using run bound docs dist order near len unfolding rows [symmetric] length_map [of ?row, symmetric]
      by (intro exI [of _ rr] exI [of _ ?reply]) (auto simp only: rows [symmetric] rerank_reply.simps)
  qed
qed

section \<open>Instances\<close>

definition sort_positions :: "real list \<Rightarrow> nat list" where
  "sort_positions xs = sort_key (\<lambda>i. xs ! i) [0 ..< length xs]"

lemma sort_positions_ok: "argsort_ok sort_positions"
proof -
  have "sorted_wrt (\<lambda>i j. xs ! i \<le> xs ! j) (sort_positions xs)" for xs :: "real list"
    using sorted_sort_key [of "\<lambda>i. xs ! i" "[0 ..< length xs]"] by (simp add: sort_positions_def sorted_map)
  then show ?thesis by (auto simp: argsort_ok_def sort_positions_def)
qed

theorem rerank_route_sound_witness:
  "\<exists>reply. rerank_route demo_service_env (demo_backend True) sort_positions (\<lambda>n ep m q ds k. Inl (OtherError [])) None
       (asc ''ab'') [(asc ''a''), (asc ''xy'')] 1 None (reranker_init False [] []) = (reranker_init False [] [], Inr reply) \<and> length (rp_results reply) = 1"
proof -
  have off: "\<not> rr_enabled (reranker_init False [] [])" by (simp add: reranker_init_def)
  obtain rr' reply where r: "rerank_route demo_service_env (demo_backend True) sort_positions (\<lambda>n ep m q ds k. Inl (OtherError [])) None
       (asc ''ab'') [(asc ''a''), (asc ''xy'')] 1 None (reranker_init False [] []) = (rr', Inr reply)" "length (rp_results reply) = min (nat (max 1 1)) (length [(asc ''a''), (asc ''xy'')])"
    using rerank_route_sound [OF demo_embeds sort_positions_ok, of "\<lambda>n ep m q ds k. Inl (OtherError [])" None "(asc ''ab'')" "[(asc ''a''), (asc ''xy'')]" 1 None
        "reranker_init False [] []"] off by blast
  have "fst (rerank_route demo_service_env (demo_backend True) sort_positions (\<lambda>n ep m q ds k. Inl (OtherError [])) None
       (asc ''ab'') [(asc ''a''), (asc ''xy'')] 1 None (reranker_init False [] [])) = reranker_init False [] []"
    using off by (simp add: rerank_route_def Let_def)
  then show ?thesis using r by simp
qed

text \<open>What the health report logs: \<open>stats()\<close> has neither key, so both values are zero.\<close>

lemma report_logs_zero:
  "report_health_metrics (Inr (kb_stats cfg scfg rest st)) = (Some (JInt 0, JInt 0), kb_stats cfg scfg rest st)"
  using kb_stats_keys [of cfg scfg rest st] by (simp add: report_health_metrics_def)

text \<open>The \<open>/embeddings\<close> route numbers the vectors of its texts in the order of the texts.\<close>

lemma embeddings_aligned:
  assumes "embeds_by env eb g" "input_texts input \<noteq> []"
  shows "\<exists>j. embeddings env eb input model = Inr j \<and> json_get j (asc ''data'') =
     Inr (JArr (map (\<lambda>(i, t). JObj [((asc ''object''), JStr (asc ''embedding'')), ((asc ''index''), JInt (int i)), ((asc ''embedding''), JArr (map JReal (g t)))])
       (enumerate 0 (input_texts input))))"
proof -
  have "embed env eb (input_texts input) = Inr (map g (input_texts input))" using assms by (simp add: embeds_by_def)
  moreover have "enumerate 0 (map g ts) = map (\<lambda>(i, t). (i, g t)) (enumerate 0 ts)" for ts
    by (simp add: enumerate_eq_zip zip_map2)
  moreover have "(asc ''data'') \<noteq> (asc ''object'')" "(asc ''data'') \<noteq> (asc ''model'')" by code_simp+
  ultimately show ?thesis by (simp add: embeddings_def json_get_def split_def comp_def del: asc_Cons)
qed

end
