(* ===== verification/Db_Schema.thy ===== *)
theory Db_Schema
  imports Py_Json
begin

text \<open>
  The relational schema: the tables the models of \<open>backend/models\<close> declare, what \<open>init_db\<close> of
  \<open>db/database.py\<close> creates and adds at start-up, and the migration \<open>alembic/versions/001_initial.py\<close>.
  A table is a map from column names to their type and whether they may be null; keys, defaults and
  indexes are not modelled. Statements have the effect SQL gives them; \<open>create_all\<close> creates what is
  missing, and SQLAlchemy stores the members of an enumeration class by their names.
\<close>

section \<open>Tables\<close>

datatype col_type = Int_col | Str_col nat | Text_col | Json_col | Bool_col | Float_col | Time_col | Enum_col pystr

type_synonym columns = "(pystr \<times> col_type \<times> bool) list"

record catalogue =
  cg_tables :: "pystr \<Rightarrow> (pystr \<Rightarrow> (col_type \<times> bool) option) option"
  cg_types :: "pystr \<Rightarrow> pystr list option"

definition timestamps :: columns where
  "timestamps = [((asc ''created_at''), Time_col, False), ((asc ''updated_at''), Time_col, False)]"

definition user_columns :: columns where
  "user_columns = [((asc ''id''), Int_col, False), ((asc ''email''), Str_col 255, False), ((asc ''username''), Str_col 100, False),
     ((asc ''hashed_password''), Str_col 255, False), ((asc ''role''), Enum_col (asc ''userrole''), False), ((asc ''is_active''), Bool_col, False)] @ timestamps"

definition session_columns :: columns where
  "session_columns = [((asc ''id''), Int_col, False), ((asc ''user_id''), Int_col, True), ((asc ''title''), Str_col 500, False),
     ((asc ''message_count''), Int_col, False)] @ timestamps"

definition history_columns :: columns where
  "history_columns = [((asc ''id''), Int_col, False), ((asc ''session_id''), Int_col, False), ((asc ''question''), Text_col, False),
     ((asc ''answer''), Text_col, False), ((asc ''route''), Str_col 50, True), ((asc ''sources''), Json_col, False), ((asc ''agent_trace''), Json_col, False),
     ((asc ''duration_ms''), Int_col, False), ((asc ''web_fallback''), Bool_col, False), ((asc ''cached''), Bool_col, False)] @ timestamps"

definition document_columns :: columns where
  "document_columns = [((asc ''id''), Int_col, False), ((asc ''filename''), Str_col 500, False), ((asc ''pages''), Int_col, False),
     ((asc ''chunks''), Int_col, False), ((asc ''status''), Str_col 50, False), ((asc ''uploaded_by''), Int_col, True),
     ((asc ''error_message''), Str_col 1000, True)] @ timestamps"

definition memory_columns :: columns where
  "memory_columns = [((asc ''id''), Int_col, False), ((asc ''user_id''), Int_col, True), ((asc ''scope_key''), Str_col 100, False),
     ((asc ''memory_key''), Str_col 120, False), ((asc ''category''), Str_col 50, False), ((asc ''content''), Text_col, False),
     ((asc ''status''), Str_col 30, False), ((asc ''source''), Str_col 50, False), ((asc ''source_session_id''), Int_col, True),
     ((asc ''source_message_id''), Int_col, True), ((asc ''confidence''), Float_col, False), ((asc ''importance''), Float_col, False),
     ((asc ''use_count''), Int_col, False), ((asc ''last_used_at''), Time_col, True), ((asc ''expires_at''), Time_col, True),
     ((asc ''is_sensitive''), Bool_col, False), ((asc ''is_active''), Bool_col, False), ((asc ''extra''), Json_col, False)] @ timestamps"

definition model_tables :: "(pystr \<times> columns) list" where
  "model_tables = [((asc ''chat_history''), history_columns), ((asc ''document_records''), document_columns),
     ((asc ''chat_sessions''), session_columns), ((asc ''users''), user_columns), ((asc ''user_memories''), memory_columns)]"

text \<open>The labels of the type of \<open>users.role\<close>, which are also what the model writes into the column.\<close>

definition model_role_labels :: "pystr list" where
  "model_role_labels = [(asc ''USER''), (asc ''ADMIN'')]"

section \<open>Start-up\<close>

definition create_missing :: "pystr \<times> columns \<Rightarrow> catalogue \<Rightarrow> catalogue" where
  "create_missing t cat =
     (if cg_tables cat (fst t) = None then cat\<lparr>cg_tables := (cg_tables cat)(fst t \<mapsto> map_of (snd t))\<rparr> else cat)"

definition create_all :: "catalogue \<Rightarrow> catalogue" where
  "create_all cat =
     (let cat1 = (if cg_types cat (asc ''userrole'') = None then cat\<lparr>cg_types := (cg_types cat)((asc ''userrole'') \<mapsto> model_role_labels)\<rparr> else cat)
      in fold create_missing model_tables cat1)"

text \<open>\<open>ALTER TABLE user_memories ADD COLUMN IF NOT EXISTS\<close>; the index statements of the list change no column.\<close>

definition added_columns :: columns where
  "added_columns =
     [((asc ''memory_key''), Str_col 120, False), ((asc ''status''), Str_col 30, False), ((asc ''source_session_id''), Int_col, True),
      ((asc ''source_message_id''), Int_col, True), ((asc ''importance''), Float_col, False), ((asc ''use_count''), Int_col, False),
      ((asc ''last_used_at''), Time_col, True), ((asc ''expires_at''), Time_col, True), ((asc ''is_sensitive''), Bool_col, False),
      ((asc ''extra''), Json_col, False)]"

definition add_column :: "pystr \<times> col_type \<times> bool \<Rightarrow> catalogue \<Rightarrow> catalogue result" where
  "add_column c cat = (case cg_tables cat (asc ''user_memories'') of
       None \<Rightarrow> Inl (OtherError (asc ''relation does not exist''))
     | Some t \<Rightarrow> Inr (if t (fst c) = None
          then cat\<lparr>cg_tables := (cg_tables cat)((asc ''user_memories'') \<mapsto> t(fst c \<mapsto> snd c))\<rparr> else cat))"

fun add_columns :: "columns \<Rightarrow> catalogue \<Rightarrow> catalogue result" where
  "add_columns [] cat = Inr cat"
| "add_columns (c # cs) cat = rbind (add_column c cat) (add_columns cs)"

definition ensure_memory_schema :: "catalogue \<Rightarrow> catalogue result" where
  "ensure_memory_schema cat = add_columns added_columns cat"

definition init_schema :: "catalogue \<Rightarrow> catalogue result" where
  "init_schema cat = ensure_memory_schema (create_all cat)"

section \<open>The migration\<close>

definition migration_users :: columns where
  "migration_users = [((asc ''id''), Int_col, False), ((asc ''email''), Str_col 255, False), ((asc ''username''), Str_col 100, False),
     ((asc ''hashed_password''), Str_col 255, False), ((asc ''role''), Enum_col (asc ''userrole''), False), ((asc ''is_active''), Bool_col, False),
     ((asc ''created_at''), Time_col, False), ((asc ''updated_at''), Time_col, False)]"

definition migration_sessions :: columns where
  "migration_sessions = [((asc ''id''), Int_col, False), ((asc ''user_id''), Int_col, True), ((asc ''title''), Str_col 500, False),
     ((asc ''message_count''), Int_col, False), ((asc ''created_at''), Time_col, False), ((asc ''updated_at''), Time_col, False)]"

definition migration_history :: columns where
  "migration_history = [((asc ''id''), Int_col, False), ((asc ''session_id''), Int_col, False), ((asc ''question''), Text_col, False),
     ((asc ''answer''), Text_col, False), ((asc ''route''), Str_col 50, True), ((asc ''sources''), Json_col, False), ((asc ''agent_trace''), Json_col, False),
     ((asc ''duration_ms''), Int_col, False), ((asc ''web_fallback''), Bool_col, False), ((asc ''cached''), Bool_col, False),
     ((asc ''created_at''), Time_col, False), ((asc ''updated_at''), Time_col, False)]"

definition migration_documents :: columns where
  "migration_documents = [((asc ''id''), Int_col, False), ((asc ''filename''), Str_col 500, False), ((asc ''pages''), Int_col, False),
     ((asc ''chunks''), Int_col, False), ((asc ''status''), Str_col 50, False), ((asc ''uploaded_by''), Int_col, True),
     ((asc ''error_message''), Str_col 1000, True), ((asc ''created_at''), Time_col, False), ((asc ''updated_at''), Time_col, False)]"

definition migration_tables :: "(pystr \<times> columns) list" where
  "migration_tables = [((asc ''users''), migration_users), ((asc ''chat_sessions''), migration_sessions),
     ((asc ''chat_history''), migration_history), ((asc ''document_records''), migration_documents)]"

definition migration_role_labels :: "pystr list" where
  "migration_role_labels = [(asc ''user''), (asc ''admin'')]"

definition create_table :: "pystr \<times> columns \<Rightarrow> catalogue \<Rightarrow> catalogue result" where
  "create_table t cat =
     (if cg_tables cat (fst t) \<noteq> None then Inl (OtherError (asc ''relation already exists''))
      else Inr (cat\<lparr>cg_tables := (cg_tables cat)(fst t \<mapsto> map_of (snd t))\<rparr>))"

fun create_tables :: "(pystr \<times> columns) list \<Rightarrow> catalogue \<Rightarrow> catalogue result" where
  "create_tables [] cat = Inr cat"
| "create_tables (t # ts) cat = rbind (create_table t cat) (create_tables ts)"

definition upgrade :: "catalogue \<Rightarrow> catalogue result" where
  "upgrade cat =
     (if cg_types cat (asc ''userrole'') \<noteq> None then Inl (OtherError (asc ''type already exists''))
      else create_tables migration_tables (cat\<lparr>cg_types := (cg_types cat)((asc ''userrole'') \<mapsto> migration_role_labels)\<rparr>))"

fun drop_tables :: "pystr list \<Rightarrow> catalogue \<Rightarrow> catalogue result" where
  "drop_tables [] cat = Inr cat"
| "drop_tables (t # ts) cat =
     (if cg_tables cat t = None then Inl (OtherError (asc ''table does not exist''))
      else drop_tables ts (cat\<lparr>cg_tables := (cg_tables cat)(t := None)\<rparr>))"

definition downgrade :: "catalogue \<Rightarrow> catalogue result" where
  "downgrade cat =
     rbind (drop_tables [(asc ''document_records''), (asc ''chat_history''), (asc ''chat_sessions''), (asc ''users'')] cat) (\<lambda>cat'.
       Inr (cat'\<lparr>cg_types := (cg_types cat')((asc ''userrole'') := None)\<rparr>))"

text \<open>The address for the synchronous driver, in \<open>alembic/env.py\<close> and the clean-up task.\<close>

definition sync_url :: "pystr \<Rightarrow> pystr" where
  "sync_url url = py_replace (asc ''postgresql+asyncpg://'') (asc ''postgresql://'') url"

section \<open>Facts about the catalogue\<close>

definition table_extends :: "catalogue \<Rightarrow> catalogue \<Rightarrow> bool" where
  "table_extends cat cat' \<longleftrightarrow> (\<forall>n t. cg_tables cat n = Some t \<longrightarrow> (\<exists>t'. cg_tables cat' n = Some t' \<and> t \<subseteq>\<^sub>m t'))"

lemma table_extends_refl [simp]: "table_extends cat cat"
  by (simp add: table_extends_def)

lemma table_extends_trans: "table_extends a b \<Longrightarrow> table_extends b c \<Longrightarrow> table_extends a c"
  unfolding table_extends_def by (meson map_le_trans)

lemma create_missing_tables:
  "cg_tables (create_missing t cat) n = (if n = fst t \<and> cg_tables cat n = None then Some (map_of (snd t)) else cg_tables cat n)"
  by (auto simp: create_missing_def)

lemma fold_create_missing_tables:
  "cg_tables (fold create_missing ts cat) n = (case cg_tables cat n of Some t \<Rightarrow> Some t | None \<Rightarrow> map_option map_of (map_of ts n))"
proof (induction ts arbitrary: cat)
  case (Cons t ts)
  then show ?case by (cases t) (auto simp: create_missing_tables split: option.splits)
qed (simp split: option.splits)

lemma create_all_tables:
  "cg_tables (create_all cat) n = (case cg_tables cat n of Some t \<Rightarrow> Some t | None \<Rightarrow> map_option map_of (map_of model_tables n))"
  by (simp add: create_all_def Let_def fold_create_missing_tables del: asc_Cons)

lemma add_columns_spec:
  assumes "cg_tables cat (asc ''user_memories'') = Some t"
  shows "add_columns cs cat = Inr (cat\<lparr>cg_tables := (cg_tables cat)((asc ''user_memories'') \<mapsto> map_of cs ++ t)\<rparr>)"
  using assms
proof (induction cs arbitrary: cat t)
  case Nil
  then show ?case by (simp add: fun_upd_idem del: asc_Cons)
next
  case (Cons c cs)
  let ?t = "if t (fst c) = None then t(fst c \<mapsto> snd c) else t"
  have add: "add_column c cat = Inr (cat\<lparr>cg_tables := (cg_tables cat)((asc ''user_memories'') \<mapsto> ?t)\<rparr>)"
    using Cons.prems by (auto simp: add_column_def fun_upd_idem simp del: asc_Cons)
  have merge: "map_of cs ++ ?t = map_of (c # cs) ++ t" by (auto simp: map_add_def fun_eq_iff split: option.splits)
  let ?cat = "cat\<lparr>cg_tables := (cg_tables cat)((asc ''user_memories'') \<mapsto> ?t)\<rparr>"
  have "cg_tables ?cat (asc ''user_memories'') = Some ?t" by simp
  from Cons.IH [OF this] show ?case unfolding add_columns.simps add rbind_simps merge
    by (cases cat) (simp only: catalogue.simps fun_upd_upd)
qed

lemma create_all_idle:
  assumes "cg_types cat (asc ''userrole'') \<noteq> None" "\<forall>t\<in>set model_tables. cg_tables cat (fst t) \<noteq> None"
  shows "create_all cat = cat"
proof -
  have "create_missing t cat = cat" if "cg_tables cat (fst t) \<noteq> None" for t using that by (auto simp: create_missing_def)
  then have "fold create_missing ts cat = cat" if "\<forall>t\<in>set ts. cg_tables cat (fst t) \<noteq> None" for ts
    using that by (induction ts) simp_all
  from this [OF assms(2)] assms(1) show ?thesis by (auto simp: create_all_def Let_def simp del: asc_Cons)
qed

text \<open>What a start does to the catalogue.\<close>

lemma init_schema_spec:
  obtains t where "cg_tables (create_all cat) (asc ''user_memories'') = Some t"
    "t = (case cg_tables cat (asc ''user_memories'') of Some t \<Rightarrow> t | None \<Rightarrow> map_of memory_columns)"
    "init_schema cat = Inr ((create_all cat)\<lparr>cg_tables := (cg_tables (create_all cat))((asc ''user_memories'') \<mapsto> map_of added_columns ++ t)\<rparr>)"
proof -
  have m: "map_of model_tables (asc ''user_memories'') = Some memory_columns" by code_simp
  have "cg_tables (create_all cat) (asc ''user_memories'') = Some (case cg_tables cat (asc ''user_memories'') of Some t \<Rightarrow> t | None \<Rightarrow> map_of memory_columns)"
    by (simp add: create_all_tables m split: option.splits del: asc_Cons)
  from that [OF this refl] add_columns_spec [OF this, of added_columns] show thesis
    by (simp add: init_schema_def ensure_memory_schema_def del: asc_Cons)
qed

lemma added_memory_columns: "map_of added_columns \<subseteq>\<^sub>m map_of memory_columns"
proof -
  have "\<forall>c\<in>set added_columns. map_of memory_columns (fst c) = Some (snd c)" by code_simp
  then have "map_of memory_columns n = Some x" if "map_of added_columns n = Some x" for n x
    using map_of_SomeD [OF that] by (metis fst_conv snd_conv)
  then show ?thesis by (auto simp: map_le_def)
qed

text \<open>The migration, both ways.\<close>

lemma create_tables_spec:
  "distinct (map fst ts) \<Longrightarrow> \<forall>t\<in>set ts. cg_tables cat (fst t) = None \<Longrightarrow>
   create_tables ts cat = Inr (cat\<lparr>cg_tables := \<lambda>n. case map_of ts n of Some cols \<Rightarrow> Some (map_of cols) | None \<Rightarrow> cg_tables cat n\<rparr>)"
proof (induction ts arbitrary: cat)
  case (Cons t ts)
  let ?cat = "cat\<lparr>cg_tables := (cg_tables cat)(fst t \<mapsto> map_of (snd t))\<rparr>"
  have "create_table t cat = Inr ?cat" using Cons.prems by (simp add: create_table_def)
  moreover have "create_tables ts ?cat =
      Inr (?cat\<lparr>cg_tables := \<lambda>n. case map_of ts n of Some cols \<Rightarrow> Some (map_of cols) | None \<Rightarrow> cg_tables ?cat n\<rparr>)"
    using Cons.prems by (intro Cons.IH) (auto simp: image_iff)
  moreover have "(\<lambda>n. case map_of ts n of Some cols \<Rightarrow> Some (map_of cols) | None \<Rightarrow> cg_tables ?cat n) =
      (\<lambda>n. case map_of (t # ts) n of Some cols \<Rightarrow> Some (map_of cols) | None \<Rightarrow> cg_tables cat n)"
  proof
    have "map_of ts (fst t) = None" using Cons.prems(1) by (simp add: map_of_eq_None_iff)
    then show "(case map_of ts n of Some cols \<Rightarrow> Some (map_of cols) | None \<Rightarrow> cg_tables ?cat n) =
        (case map_of (t # ts) n of Some cols \<Rightarrow> Some (map_of cols) | None \<Rightarrow> cg_tables cat n)" for n
      by (auto split: option.splits)
  qed
  ultimately show ?case by simp
qed simp

lemma drop_tables_spec:
  "distinct ns \<Longrightarrow> \<forall>n\<in>set ns. cg_tables cat n \<noteq> None \<Longrightarrow>
   drop_tables ns cat = Inr (cat\<lparr>cg_tables := \<lambda>n. if n \<in> set ns then None else cg_tables cat n\<rparr>)"
proof (induction ns arbitrary: cat)
  case (Cons n ns)
  let ?cat = "cat\<lparr>cg_tables := (cg_tables cat)(n := None)\<rparr>"
  have "drop_tables ns ?cat = Inr (?cat\<lparr>cg_tables := \<lambda>m. if m \<in> set ns then None else cg_tables ?cat m\<rparr>)"
    using Cons.prems by (intro Cons.IH) auto
  moreover have "(\<lambda>m. if m \<in> set ns then None else cg_tables ?cat m) = (\<lambda>m. if m \<in> set (n # ns) then None else cg_tables cat m)" by auto
  ultimately show ?case using Cons.prems(2) by auto
qed simp

lemma create_missing_types: "cg_types (fold create_missing ts cat) = cg_types cat"
  by (induction ts arbitrary: cat) (simp_all add: create_missing_def)

section \<open>Properties\<close>

text \<open>After a start every table of the models exists, no table and no column that was there is
  lost or changed, the memory table has every column added since its first version, and starting
  again changes nothing.\<close>

theorem init_schema_complete:
  "\<exists>cat'. init_schema cat = Inr cat' \<and> init_schema cat' = Inr cat' \<and> table_extends cat cat' \<and>
     (\<forall>(n, cols)\<in>set model_tables. cg_tables cat' n \<noteq> None) \<and>
     (\<forall>t. cg_tables cat' (asc ''user_memories'') = Some t \<longrightarrow> dom (map_of added_columns) \<subseteq> dom t) \<and>
     (cg_tables cat (asc ''user_memories'') = None \<longrightarrow> cg_tables cat' (asc ''user_memories'') = Some (map_of memory_columns))"
proof -
  obtain t where t: "cg_tables (create_all cat) (asc ''user_memories'') = Some t"
    "t = (case cg_tables cat (asc ''user_memories'') of Some t \<Rightarrow> t | None \<Rightarrow> map_of memory_columns)"
    and run: "init_schema cat = Inr ((create_all cat)\<lparr>cg_tables := (cg_tables (create_all cat))((asc ''user_memories'') \<mapsto> map_of added_columns ++ t)\<rparr>)"
    by (rule init_schema_spec)
  let ?cat = "(create_all cat)\<lparr>cg_tables := (cg_tables (create_all cat))((asc ''user_memories'') \<mapsto> map_of added_columns ++ t)\<rparr>"
  have names: "map_of model_tables n \<noteq> None" if "(n, cols) \<in> set model_tables" for n cols
    using that by (metis domIff dom_map_of_conv_image_fst fst_conv image_eqI)
  have all: "cg_tables ?cat n \<noteq> None" if "map_of model_tables n \<noteq> None" for n
    using that by (cases "n = (asc ''user_memories'')") (auto simp: create_all_tables split: option.splits simp del: asc_Cons)
  have mem: "cg_tables ?cat (asc ''user_memories'') = Some (map_of added_columns ++ t)" by simp
  have types: "cg_types ?cat (asc ''userrole'') \<noteq> None"
    by (simp add: create_all_def Let_def create_missing_types)
  have same: "create_all ?cat = ?cat"
  proof (rule create_all_idle [OF types], rule ballI)
    fix t assume "t \<in> set model_tables"
    then have "(fst t, snd t) \<in> set model_tables" by simp
    then show "cg_tables ?cat (fst t) \<noteq> None" by (rule all [OF names])
  qed
  have again: "init_schema ?cat = Inr ?cat"
  proof -
    have "map_of added_columns ++ (map_of added_columns ++ t) = map_of added_columns ++ t"
      by (auto simp: map_add_def fun_eq_iff split: option.splits)
    then show ?thesis unfolding init_schema_def ensure_memory_schema_def same add_columns_spec [OF mem] by simp
  qed
  have ext: "table_extends cat ?cat"
    using t(2) by (auto simp: table_extends_def create_all_tables map_le_map_add simp del: asc_Cons)
  have "map_of added_columns ++ t = map_of memory_columns" if "cg_tables cat (asc ''user_memories'') = None"
    using t(2) that added_memory_columns by (simp add: map_add_le_mapI map_le_antisym map_le_map_add)
  then show ?thesis using run again ext all names mem by (intro exI [of _ ?cat]) auto
qed

text \<open>The migration builds the tables of the models column by column, except that it has no
  memory table; but the labels it gives the role type are none of those the model writes, and a later
  start does not change them, so that on a migrated database no user can be stored. Downgrading
  restores the catalogue.\<close>

theorem migration_rejects_users:
  assumes "cg_types cat (asc ''userrole'') = None" "\<forall>(n, cols)\<in>set migration_tables. cg_tables cat n = None"
  shows "\<exists>cat1 cat2. upgrade cat = Inr cat1 \<and> init_schema cat1 = Inr cat2 \<and>
     (\<forall>(n, cols)\<in>set model_tables. n \<noteq> (asc ''user_memories'') \<longrightarrow> cg_tables cat1 n = Some (map_of cols)) \<and>
     cg_tables cat1 (asc ''user_memories'') = cg_tables cat (asc ''user_memories'') \<and>
     (\<exists>labels. cg_types cat2 (asc ''userrole'') = Some labels \<and> set labels \<inter> set model_role_labels = {}) \<and>
     downgrade cat1 = Inr cat"
proof -
  let ?c0 = "cat\<lparr>cg_types := (cg_types cat)((asc ''userrole'') \<mapsto> migration_role_labels)\<rparr>"
  let ?ts = "\<lambda>n. case map_of migration_tables n of Some cols \<Rightarrow> Some (map_of cols) | None \<Rightarrow> cg_tables cat n"
  let ?c1 = "?c0\<lparr>cg_tables := ?ts\<rparr>"
  let ?names = "[(asc ''document_records''), (asc ''chat_history''), (asc ''chat_sessions''), (asc ''users'')]"
  have dist: "distinct (map fst migration_tables)" "distinct ?names" by code_simp+
  have fresh: "\<forall>t\<in>set migration_tables. cg_tables ?c0 (fst t) = None" using assms(2) by auto
  have up: "upgrade cat = Inr ?c1"
  proof -
    have "cg_tables ?c0 = cg_tables cat" by simp
    from create_tables_spec [OF dist(1) fresh, unfolded this] show ?thesis unfolding upgrade_def using assms(1) by simp
  qed
  have dom: "map_of migration_tables n \<noteq> None \<longleftrightarrow> n \<in> set ?names" for n
  proof -
    have "set ?names = set (map fst migration_tables)" by code_simp
    then show ?thesis by (metis domIff dom_map_of_conv_image_fst set_map)
  qed
  have models: "\<forall>(n, cols)\<in>set model_tables. n \<noteq> (asc ''user_memories'') \<longrightarrow> map_of migration_tables n = Some cols" by code_simp
  have mem: "map_of migration_tables (asc ''user_memories'') = None" by code_simp
  have down: "downgrade ?c1 = Inr cat"
  proof -
    have here: "\<forall>n\<in>set ?names. cg_tables ?c1 n \<noteq> None"
    proof
      fix n assume "n \<in> set ?names"
      then obtain cols where "map_of migration_tables n = Some cols" using dom [of n] by blast
      then show "cg_tables ?c1 n \<noteq> None" by simp
    qed
    have gone: "(\<lambda>n. if n \<in> set ?names then None else cg_tables ?c1 n) = cg_tables cat"
    proof
      fix n
      show "(if n \<in> set ?names then None else cg_tables ?c1 n) = cg_tables cat n"
      proof (cases "n \<in> set ?names")
        case True
        then obtain cols where "(n, cols) \<in> set migration_tables" using dom [of n] by (metis map_of_SomeD not_None_eq)
        with fresh True show ?thesis by fastforce
      next
        case False
        then have "map_of migration_tables n = None" using dom [of n] by blast
        with False show ?thesis by (simp del: asc_Cons set_simps)
      qed
    qed
    have restored: "(cg_types cat)((asc ''userrole'') := None) = cg_types cat" using assms(1) by (simp only: fun_upd_idem)
    show ?thesis unfolding downgrade_def drop_tables_spec [OF dist(2) here] gone rbind_simps
      using restored by (cases cat) (simp only: catalogue.simps fun_upd_upd)
  qed
  obtain t where run: "init_schema ?c1 = Inr ((create_all ?c1)\<lparr>cg_tables := (cg_tables (create_all ?c1))((asc ''user_memories'') \<mapsto> map_of added_columns ++ t)\<rparr>)"
    by (rule init_schema_spec)
  have labels: "cg_types (create_all ?c1) (asc ''userrole'') = Some migration_role_labels"
    by (simp add: create_all_def Let_def create_missing_types del: asc_Cons)
  have apart: "set migration_role_labels \<inter> set model_role_labels = {}" by code_simp
  show ?thesis
  proof (intro exI conjI)
    show "upgrade cat = Inr ?c1" by (rule up)
    show "init_schema ?c1 = Inr ((create_all ?c1)\<lparr>cg_tables := (cg_tables (create_all ?c1))((asc ''user_memories'') \<mapsto> map_of added_columns ++ t)\<rparr>)" by (rule run)
    show "cg_types ((create_all ?c1)\<lparr>cg_tables := (cg_tables (create_all ?c1))((asc ''user_memories'') \<mapsto> map_of added_columns ++ t)\<rparr>) (asc ''userrole'') = Some migration_role_labels"
      using labels by simp
    show "\<forall>(n, cols)\<in>set model_tables. n \<noteq> (asc ''user_memories'') \<longrightarrow> cg_tables ?c1 n = Some (map_of cols)"
      using models by (auto simp del: asc_Cons)
  qed (use mem apart down in \<open>simp_all del: asc_Cons\<close>)
qed

theorem migration_rejects_users_witness:
  "\<exists>cat1 cat2 labels. upgrade \<lparr>cg_tables = Map.empty, cg_types = Map.empty\<rparr> = Inr cat1 \<and> init_schema cat1 = Inr cat2 \<and>
     cg_types cat2 (asc ''userrole'') = Some labels \<and> (asc ''USER'') \<notin> set labels"
proof -
  have "(asc ''USER'') \<in> set model_role_labels" by code_simp
  then show ?thesis using migration_rejects_users [of "\<lparr>cg_tables = Map.empty, cg_types = Map.empty\<rparr>"] by fastforce
qed

end
