(* ===== verification/Http_Schema.thy ===== *)
theory Http_Schema
  imports Py_Json
begin

text \<open>
  The request schemas of \<open>backend/schemas\<close> and of the routes' path and query parameters, as data. The
  check of a request against a schema is pydantic's: it is a parameter, and \<open>validator_ok\<close> states what
  the routes rely on - what it lets through has the declared fields, types and lengths, and a request
  that already has them passes with the defaults filled in.
\<close>

section \<open>Schemas\<close>

datatype field_type = T_str | T_email | T_int | T_bool | T_optional field_type

record field_spec =
  fs_name :: pystr
  fs_type :: field_type
  fs_default :: "json option"
  fs_min :: nat
  fs_max :: "nat option"

type_synonym schema = "field_spec list"
type_synonym fields = "(pystr \<times> json) list"

definition required :: "pystr \<Rightarrow> field_type \<Rightarrow> field_spec" where
  "required k t = \<lparr>fs_name = k, fs_type = t, fs_default = None, fs_min = 0, fs_max = None\<rparr>"

definition optional :: "pystr \<Rightarrow> field_type \<Rightarrow> json \<Rightarrow> field_spec" where
  "optional k t d = \<lparr>fs_name = k, fs_type = t, fs_default = Some d, fs_min = 0, fs_max = None\<rparr>"

definition lengths :: "nat \<Rightarrow> nat \<Rightarrow> field_spec \<Rightarrow> field_spec" where
  "lengths lo hi f = f\<lparr>fs_min := lo, fs_max := Some hi\<rparr>"

definition RegisterRequest :: schema where
  "RegisterRequest = [required (asc ''email'') T_email, lengths 2 50 (required (asc ''username'') T_str),
     lengths 6 100 (required (asc ''password'') T_str)]"

definition LoginRequest :: schema where
  "LoginRequest = [required (asc ''email'') T_email, required (asc ''password'') T_str]"

definition ChatRequest :: schema where
  "ChatRequest = [required (asc ''question'') T_str, optional (asc ''session_id'') (T_optional T_int) JNull]"

definition SessionCreate :: schema where
  "SessionCreate = [optional (asc ''title'') T_str (JStr [0x65b0, 0x4f1a, 0x8bdd])]"

definition MemoryCreate :: schema where
  "MemoryCreate = [lengths 2 1000 (required (asc ''content'') T_str),
     lengths 0 50 (optional (asc ''category'') T_str (JStr (asc ''preference''))),
     lengths 0 120 (optional (asc ''memory_key'') (T_optional T_str) JNull),
     lengths 0 30 (optional (asc ''status'') T_str (JStr (asc ''active'')))]"

definition MemoryUpdate :: schema where
  "MemoryUpdate = [lengths 2 1000 (optional (asc ''content'') (T_optional T_str) JNull),
     lengths 0 50 (optional (asc ''category'') (T_optional T_str) JNull),
     lengths 0 120 (optional (asc ''memory_key'') (T_optional T_str) JNull),
     lengths 0 30 (optional (asc ''status'') (T_optional T_str) JNull),
     optional (asc ''is_active'') (T_optional T_bool) JNull]"

section \<open>What conforms to a schema\<close>

fun has_type :: "field_type \<Rightarrow> json \<Rightarrow> bool" where
  "has_type T_str (JStr s) = True"
| "has_type T_email (JStr s) = True"
| "has_type T_int (JInt i) = True"
| "has_type T_bool (JBool b) = True"
| "has_type (T_optional t) j = (j = JNull \<or> has_type t j)"
| "has_type _ _ = False"

definition in_lengths :: "field_spec \<Rightarrow> json \<Rightarrow> bool" where
  "in_lengths f j = (case j of
       JStr s \<Rightarrow> fs_min f \<le> length s \<and> (case fs_max f of None \<Rightarrow> True | Some n \<Rightarrow> length s \<le> n)
     | _ \<Rightarrow> True)"

definition field_ok :: "field_spec \<Rightarrow> pystr \<times> json \<Rightarrow> bool" where
  "field_ok f kv \<longleftrightarrow> fst kv = fs_name f \<and> has_type (fs_type f) (snd kv) \<and> in_lengths f (snd kv)"

definition conforms :: "schema \<Rightarrow> fields \<Rightarrow> bool" where
  "conforms sch vs \<longleftrightarrow> list_all2 field_ok sch vs"

text \<open>The declared fields of an object, absent ones by their default.\<close>

fun fill :: "schema \<Rightarrow> fields \<Rightarrow> fields option" where
  "fill [] d = Some []"
| "fill (f # fs) d =
     (case (case map_of d (fs_name f) of Some v \<Rightarrow> Some v | None \<Rightarrow> fs_default f) of
        None \<Rightarrow> None
      | Some v \<Rightarrow> map_option (\<lambda>vs. (fs_name f, v) # vs) (fill fs d))"

text \<open>The e-mail fields hold addresses that the e-mail validator leaves as they are.\<close>

fun mails_ok :: "(pystr \<Rightarrow> bool) \<Rightarrow> schema \<Rightarrow> fields \<Rightarrow> bool" where
  "mails_ok mail (f # fs) ((k, JStr s) # vs) = ((fs_type f = T_email \<longrightarrow> mail s) \<and> mails_ok mail fs vs)"
| "mails_ok mail (f # fs) (kv # vs) = mails_ok mail fs vs"
| "mails_ok mail _ _ = True"

type_synonym validator = "schema \<Rightarrow> json \<Rightarrow> json list + fields"

definition validator_ok :: "(pystr \<Rightarrow> bool) \<Rightarrow> validator \<Rightarrow> bool" where
  "validator_ok mail check \<longleftrightarrow>
     (\<forall>sch j vs. check sch j = Inr vs \<longrightarrow> conforms sch vs) \<and>
     (\<forall>sch d vs. fill sch d = Some vs \<and> conforms sch vs \<and> mails_ok mail sch vs \<longrightarrow> check sch (JObj d) = Inr vs)"

section \<open>Reading fields\<close>

definition str_at :: "fields \<Rightarrow> pystr \<Rightarrow> pystr" where
  "str_at vs k = (case map_of vs k of Some (JStr s) \<Rightarrow> s | _ \<Rightarrow> [])"

definition str_opt_at :: "fields \<Rightarrow> pystr \<Rightarrow> pystr option" where
  "str_opt_at vs k = (case map_of vs k of Some (JStr s) \<Rightarrow> Some s | _ \<Rightarrow> None)"

definition int_at :: "fields \<Rightarrow> pystr \<Rightarrow> int" where
  "int_at vs k = (case map_of vs k of Some (JInt i) \<Rightarrow> i | _ \<Rightarrow> 0)"

definition int_opt_at :: "fields \<Rightarrow> pystr \<Rightarrow> int option" where
  "int_opt_at vs k = (case map_of vs k of Some (JInt i) \<Rightarrow> Some i | _ \<Rightarrow> None)"

definition bool_at :: "fields \<Rightarrow> pystr \<Rightarrow> bool" where
  "bool_at vs k = (case map_of vs k of Some (JBool b) \<Rightarrow> b | _ \<Rightarrow> False)"

definition bool_opt_at :: "fields \<Rightarrow> pystr \<Rightarrow> bool option" where
  "bool_opt_at vs k = (case map_of vs k of Some (JBool b) \<Rightarrow> Some b | _ \<Rightarrow> None)"

text \<open>A field that was let through is there, with its type and its length.\<close>

lemma conforms_field:
  assumes "conforms sch vs" "f \<in> set sch"
  shows "\<exists>v. (fs_name f, v) \<in> set vs \<and> has_type (fs_type f) v \<and> in_lengths f v"
  using assms unfolding conforms_def
  by (induction sch vs rule: list_all2_induct) (auto simp: field_ok_def)

lemma conforms_names: "conforms sch vs \<Longrightarrow> map fst vs = map fs_name sch"
  unfolding conforms_def by (induction sch vs rule: list_all2_induct) (auto simp: field_ok_def)

lemma conforms_read:
  assumes "conforms sch vs" "distinct (map fs_name sch)" "f \<in> set sch"
  shows "\<exists>v. map_of vs (fs_name f) = Some v \<and> has_type (fs_type f) v \<and> in_lengths f v"
proof -
  obtain v where v: "(fs_name f, v) \<in> set vs" "has_type (fs_type f) v" "in_lengths f v"
    using conforms_field [OF assms(1,3)] by blast
  have "distinct (map fst vs)" using assms(2) unfolding conforms_names [OF assms(1)] .
  then have "map_of vs (fs_name f) = Some v" using v(1) by simp
  then show ?thesis using v by blast
qed

lemma has_type_str: "has_type T_str v \<longleftrightarrow> (\<exists>s. v = JStr s)" "has_type T_email v \<longleftrightarrow> (\<exists>s. v = JStr s)"
  by (cases v; simp)+

section \<open>A validator\<close>

text \<open>It takes requests that have the types as they are; every complaint is the same.\<close>

definition strict_check :: "(pystr \<Rightarrow> bool) \<Rightarrow> validator" where
  "strict_check mail sch j = (case j of
       JObj d \<Rightarrow> (case fill sch d of
           None \<Rightarrow> Inl [JStr (asc ''missing'')]
         | Some vs \<Rightarrow> if conforms sch vs \<and> mails_ok mail sch vs then Inr vs else Inl [JStr (asc ''invalid'')])
     | _ \<Rightarrow> Inl [JStr (asc ''no object'')])"

lemma strict_check_ok: "validator_ok mail (strict_check mail)"
  by (auto simp: validator_ok_def strict_check_def split: json.splits option.splits if_splits)

end
