(* ===== verification/Http_Api.thy ===== *)
theory Http_Api
  imports Http_Schema Frontend
begin

text \<open>
  The HTTP application in front of the services: the endpoints of \<open>api/v1\<close> for accounts, sessions,
  memories and questions with their paths, schemas, status codes and response models; the database
  session of a request (\<open>get_db\<close>); the exception handlers; and the request identifier of \<open>main.py\<close>. A
  request is one step of the application's state. Finding the endpoint of a path, checking a body
  against a schema, encoding and the framing of event streams are the frameworks' parts and
  parameters. Dependencies run before errors of the body are reported. CORS and metrics are not modelled.
\<close>

section \<open>Endpoints\<close>

datatype endpoint =
    Ep_register | Ep_login | Ep_me
  | Ep_list_sessions | Ep_create_session | Ep_get_session | Ep_delete_session
  | Ep_get_memories | Ep_add_memory | Ep_patch_memory | Ep_remove_memory | Ep_clear_memories
  | Ep_chat | Ep_chat_stream

text \<open>The method and the path of each; a parameter of the path is written as in the decorator.\<close>

fun declared :: "endpoint \<Rightarrow> pystr \<times> pystr" where
  "declared Ep_register = ((asc ''POST''), (asc ''/api/v1/auth/register''))"
| "declared Ep_login = ((asc ''POST''), (asc ''/api/v1/auth/login''))"
| "declared Ep_me = ((asc ''GET''), (asc ''/api/v1/auth/me''))"
| "declared Ep_list_sessions = ((asc ''GET''), (asc ''/api/v1/sessions''))"
| "declared Ep_create_session = ((asc ''POST''), (asc ''/api/v1/sessions''))"
| "declared Ep_get_session = ((asc ''GET''), (asc ''/api/v1/sessions/{session_id}''))"
| "declared Ep_delete_session = ((asc ''DELETE''), (asc ''/api/v1/sessions/{session_id}''))"
| "declared Ep_get_memories = ((asc ''GET''), (asc ''/api/v1/memories''))"
| "declared Ep_add_memory = ((asc ''POST''), (asc ''/api/v1/memories''))"
| "declared Ep_patch_memory = ((asc ''PATCH''), (asc ''/api/v1/memories/{memory_id}''))"
| "declared Ep_remove_memory = ((asc ''DELETE''), (asc ''/api/v1/memories/{memory_id}''))"
| "declared Ep_clear_memories = ((asc ''DELETE''), (asc ''/api/v1/memories''))"
| "declared Ep_chat = ((asc ''POST''), (asc ''/chat''))"
| "declared Ep_chat_stream = ((asc ''POST''), (asc ''/chat/stream''))"

definition session_path :: schema where
  "session_path = [required (asc ''session_id'') T_int]"

definition memory_path :: schema where
  "memory_path = [required (asc ''memory_id'') T_int]"

definition memory_query_params :: schema where
  "memory_query_params =
     [optional (asc ''status'') (T_optional T_str) (JStr (asc ''active'')), optional (asc ''include_inactive'') T_bool (JBool False)]"

fun params_of :: "endpoint \<Rightarrow> schema" where
  "params_of Ep_get_session = session_path"
| "params_of Ep_delete_session = session_path"
| "params_of Ep_get_memories = memory_query_params"
| "params_of Ep_patch_memory = memory_path"
| "params_of Ep_remove_memory = memory_path"
| "params_of _ = []"

fun body_of :: "endpoint \<Rightarrow> schema" where
  "body_of Ep_register = RegisterRequest"
| "body_of Ep_login = LoginRequest"
| "body_of Ep_create_session = SessionCreate"
| "body_of Ep_add_memory = MemoryCreate"
| "body_of Ep_patch_memory = MemoryUpdate"
| "body_of Ep_chat = ChatRequest"
| "body_of Ep_chat_stream = ChatRequest"
| "body_of _ = []"

fun public :: "endpoint \<Rightarrow> bool" where
  "public Ep_register = True"
| "public Ep_login = True"
| "public _ = False"

section \<open>The application\<close>

record 'r app =
  app_users :: user_db
  app_world :: "'r world"

record 'r api_env =
  api_auth :: auth_env
  api_chat :: chat_env
  api_redis :: "'r redis option"
  api_resolve :: "pystr \<Rightarrow> pystr \<Rightarrow> (endpoint \<times> fields) option"
  api_unrouted :: "pystr \<Rightarrow> pystr \<Rightarrow> int \<times> json"
  api_check :: validator
  api_session_tie :: "chat_session \<Rightarrow> int"
  api_date :: "int \<Rightarrow> json"
  api_created :: "memory_row \<Rightarrow> json"
  api_dumps :: "json \<Rightarrow> pystr"
  api_wire :: "sse list \<Rightarrow> pystr list"

record request =
  rq_verb :: pystr
  rq_target :: pystr
  rq_id :: "pystr option"
  rq_auth :: "pystr option"
  rq_client :: "pystr option"
  rq_body :: "json option"
  rq_clock :: clock

text \<open>The tables of users belong to the same database as those of sessions and memories.\<close>

definition users_of :: "'r app \<Rightarrow> user_db option" where
  "users_of a = (if w_tables (app_world a) = None then None else Some (app_users a))"

definition sessions_of :: "'r app \<Rightarrow> session_db option" where
  "sessions_of a = map_option tb_sessions (w_tables (app_world a))"

definition memories_of :: "'r app \<Rightarrow> memory_db option" where
  "memories_of a = map_option tb_memories (w_tables (app_world a))"

definition put_users :: "user_db option \<Rightarrow> 'r app \<Rightarrow> 'r app" where
  "put_users d a = (case d of None \<Rightarrow> a | Some db \<Rightarrow> a\<lparr>app_users := db\<rparr>)"

definition map_tables :: "(tables \<Rightarrow> tables) \<Rightarrow> 'r app \<Rightarrow> 'r app" where
  "map_tables f a = a\<lparr>app_world := (app_world a)\<lparr>w_tables := map_option f (w_tables (app_world a))\<rparr>\<rparr>"

definition put_sessions :: "session_db option \<Rightarrow> 'r app \<Rightarrow> 'r app" where
  "put_sessions d a = (case d of None \<Rightarrow> a | Some db \<Rightarrow> map_tables (\<lambda>tb. tb\<lparr>tb_sessions := db\<rparr>) a)"

definition put_memories :: "memory_db option \<Rightarrow> 'r app \<Rightarrow> 'r app" where
  "put_memories d a = (case d of None \<Rightarrow> a | Some db \<Rightarrow> map_tables (\<lambda>tb. tb\<lparr>tb_memories := db\<rparr>) a)"

section \<open>Response models\<close>

definition UserResponse :: "user \<Rightarrow> json" where
  "UserResponse u = JObj [((asc ''id''), JInt (u_id u)), ((asc ''email''), JStr (u_email u)), ((asc ''username''), JStr (u_username u)),
     ((asc ''role''), JStr (role_value (u_role u))), ((asc ''is_active''), JBool (u_active u))]"

definition TokenResponse :: "pystr \<times> int \<Rightarrow> json" where
  "TokenResponse t = JObj [((asc ''access_token''), JStr (fst t)), ((asc ''token_type''), JStr (asc ''bearer'')), ((asc ''expires_in''), JInt (snd t))]"

definition session_fields :: "(int \<Rightarrow> json) \<Rightarrow> chat_session \<Rightarrow> fields" where
  "session_fields date s = [((asc ''id''), JInt (cs_id s)), ((asc ''title''), JStr (cs_title s)), ((asc ''message_count''), JInt (cs_count s)),
     ((asc ''created_at''), date (cs_created s)), ((asc ''updated_at''), date (cs_updated s))]"

definition ChatHistoryItem :: "(int \<Rightarrow> json) \<Rightarrow> chat_turn \<Rightarrow> json" where
  "ChatHistoryItem date t = JObj [((asc ''id''), JInt (ct_id t)), ((asc ''question''), JStr (ct_question t)), ((asc ''answer''), JStr (ct_answer t)),
     ((asc ''route''), JStr (ct_route t)), ((asc ''sources''), JArr (ct_sources t)), ((asc ''duration_ms''), JInt (ct_duration t)),
     ((asc ''web_fallback''), JBool (ct_fallback t)), ((asc ''cached''), JBool (ct_cached t)), ((asc ''created_at''), date (ct_created t))]"

definition SessionDetail :: "(int \<Rightarrow> json) \<Rightarrow> chat_session \<times> chat_turn list \<Rightarrow> json" where
  "SessionDetail date d = JObj (session_fields date (fst d) @ [((asc ''messages''), JArr (map (ChatHistoryItem date) (snd d)))])"

definition opt_int :: "int option \<Rightarrow> json" where
  "opt_int i = (case i of None \<Rightarrow> JNull | Some i \<Rightarrow> JInt i)"

definition MemoryResponse :: "(memory_row \<Rightarrow> json) \<Rightarrow> (int \<Rightarrow> json) \<Rightarrow> memory_row \<Rightarrow> json" where
  "MemoryResponse created date r = JObj
     [((asc ''id''), JInt (mr_id r)), ((asc ''memory_key''), JStr (mr_key r)), ((asc ''category''), JStr (mr_category r)),
      ((asc ''content''), JStr (mr_content r)), ((asc ''status''), JStr (mr_status r)), ((asc ''source''), JStr (mr_source r)),
      ((asc ''source_session_id''), opt_int (mr_session r)), ((asc ''source_message_id''), opt_int (mr_message r)),
      ((asc ''confidence''), JReal (mr_confidence r)), ((asc ''importance''), JReal (mr_importance r)),
      ((asc ''use_count''), JInt (mr_use_count r)), ((asc ''is_sensitive''), JBool (mr_sensitive r)),
      ((asc ''is_active''), JBool (mr_active r)), ((asc ''created_at''), created r), ((asc ''updated_at''), date (mr_updated r))]"

text \<open>\<open>db.refresh\<close> raises when the row is gone.\<close>

definition memory_reply :: "'r api_env \<Rightarrow> memory_row option result \<Rightarrow> json result" where
  "memory_reply env res = rbind res (\<lambda>row. case row of
       None \<Rightarrow> Inl (OtherError (asc ''Could not refresh instance''))
     | Some r \<Rightarrow> Inr (MemoryResponse (api_created env) (api_date env) r))"

section \<open>The endpoints' functions\<close>

datatype reply = Json_reply int json | Empty_reply | Event_reply "sse list"

definition answer :: "int \<Rightarrow> ('a \<Rightarrow> json) \<Rightarrow> 'a result \<Rightarrow> reply result" where
  "answer status f res = rbind res (\<lambda>x. Inr (Json_reply status (f x)))"

definition register_endpoint :: "'r api_env \<Rightarrow> fields \<Rightarrow> 'r app \<Rightarrow> 'r app \<times> reply result" where
  "register_endpoint env body a =
     (case auth_register (api_auth env) (users_of a) (str_at body (asc ''email'')) (str_at body (asc ''username'')) (str_at body (asc ''password'')) of
        (d, res) \<Rightarrow> (put_users d a, answer 201 UserResponse res))"

definition login_endpoint :: "'r api_env \<Rightarrow> request \<Rightarrow> fields \<Rightarrow> 'r app \<Rightarrow> 'r app \<times> reply result" where
  "login_endpoint env rq body a =
     (a, answer 200 TokenResponse
        (auth_login (api_auth env) (ck_start (rq_clock rq)) (users_of a) (str_at body (asc ''email'')) (str_at body (asc ''password''))))"

definition me_endpoint :: "user option \<Rightarrow> 'r app \<Rightarrow> 'r app \<times> reply result" where
  "me_endpoint u a =
     (a, answer 200 UserResponse (auth_me u))"

definition list_sessions_endpoint :: "'r api_env \<Rightarrow> user option \<Rightarrow> 'r app \<Rightarrow> 'r app \<times> reply result" where
  "list_sessions_endpoint env u a =
     (a, answer 200 (\<lambda>ss. JArr (map (\<lambda>s. JObj (session_fields (api_date env) s)) ss)) (list_sessions (api_session_tie env) (sessions_of a) u))"

definition create_session_endpoint :: "'r api_env \<Rightarrow> request \<Rightarrow> user option \<Rightarrow> fields \<Rightarrow> 'r app \<Rightarrow> 'r app \<times> reply result" where
  "create_session_endpoint env rq u body a =
     (case create_session (ck_start (rq_clock rq)) (sessions_of a) u (str_at body (asc ''title'')) of
        (d, res) \<Rightarrow> (put_sessions d a, answer 201 (\<lambda>s. JObj (session_fields (api_date env) s)) res))"

definition get_session_endpoint :: "'r api_env \<Rightarrow> user option \<Rightarrow> fields \<Rightarrow> 'r app \<Rightarrow> 'r app \<times> reply result" where
  "get_session_endpoint env u ps a =
     (a, answer 200 (SessionDetail (api_date env))
        (get_session (che_turn_tie (api_chat env)) (sessions_of a) u (int_at ps (asc ''session_id''))))"

definition delete_session_endpoint :: "user option \<Rightarrow> fields \<Rightarrow> 'r app \<Rightarrow> 'r app \<times> reply result" where
  "delete_session_endpoint u ps a =
     (case delete_session (sessions_of a) u (int_at ps (asc ''session_id'')) of
        (d, res) \<Rightarrow> (put_sessions d a, rbind res (\<lambda>_. Inr Empty_reply)))"

definition get_memories_endpoint :: "'r api_env \<Rightarrow> user option \<Rightarrow> fields \<Rightarrow> 'r app \<Rightarrow> 'r app \<times> reply result" where
  "get_memories_endpoint env u ps a =
     (a, answer 200 (\<lambda>rs. JArr (map (MemoryResponse (api_created env) (api_date env)) rs))
        (get_memories (che_memory_tie (api_chat env)) (memories_of a) (map_option u_id u)
           (str_opt_at ps (asc ''status'')) (bool_at ps (asc ''include_inactive''))))"

definition add_memory_endpoint :: "'r api_env \<Rightarrow> request \<Rightarrow> user option \<Rightarrow> fields \<Rightarrow> 'r app \<Rightarrow> 'r app \<times> reply result" where
  "add_memory_endpoint env rq u body a =
     (case add_memory (che_memory_tie (api_chat env)) (ck_start (rq_clock rq)) (memories_of a) (map_option u_id u)
             (str_at body (asc ''content'')) (str_at body (asc ''category'')) (str_opt_at body (asc ''memory_key'')) (str_at body (asc ''status'')) of
        (d, res) \<Rightarrow> (put_memories d a, answer 201 (\<lambda>j. j) (memory_reply env res)))"

definition patch_memory_endpoint :: "'r api_env \<Rightarrow> request \<Rightarrow> user option \<Rightarrow> fields \<Rightarrow> fields \<Rightarrow> 'r app \<Rightarrow> 'r app \<times> reply result" where
  "patch_memory_endpoint env rq u ps body a =
     (case patch_memory (ck_start (rq_clock rq)) (memories_of a) (map_option u_id u) (int_at ps (asc ''memory_id''))
             \<lparr>mp_content = str_opt_at body (asc ''content''), mp_category = str_opt_at body (asc ''category''),
              mp_key = str_opt_at body (asc ''memory_key''), mp_status = str_opt_at body (asc ''status''),
              mp_active = bool_opt_at body (asc ''is_active'')\<rparr> of
        (d, res) \<Rightarrow> (put_memories d a, answer 200 (\<lambda>j. j) (memory_reply env res)))"

definition remove_memory_endpoint :: "request \<Rightarrow> user option \<Rightarrow> fields \<Rightarrow> 'r app \<Rightarrow> 'r app \<times> reply result" where
  "remove_memory_endpoint rq u ps a =
     (case remove_memory (ck_start (rq_clock rq)) (memories_of a) (map_option u_id u) (int_at ps (asc ''memory_id'')) of
        (d, res) \<Rightarrow> (put_memories d a, rbind res (\<lambda>_. Inr Empty_reply)))"

definition clear_memories_endpoint :: "request \<Rightarrow> user option \<Rightarrow> 'r app \<Rightarrow> 'r app \<times> reply result" where
  "clear_memories_endpoint rq u a =
     (case clear_memories (ck_start (rq_clock rq)) (memories_of a) (map_option u_id u) of
        (d, res) \<Rightarrow> (put_memories d a,
          answer 200 (\<lambda>k. JObj [((asc ''status''), JStr (asc ''ok'')), ((asc ''deactivated''), JInt (int k))]) res))"

definition chat_endpoint :: "'r api_env \<Rightarrow> request \<Rightarrow> user option \<Rightarrow> fields \<Rightarrow> 'r app \<Rightarrow> 'r app \<times> reply result" where
  "chat_endpoint env rq u body a =
     (case chat_route (api_chat env) (api_redis env) (rq_clock rq) (rq_client rq) (str_at body (asc ''question''))
             (int_opt_at body (asc ''session_id'')) u (app_world a) of
        (w, res) \<Rightarrow> (a\<lparr>app_world := w\<rparr>, answer 200 response_json res))"

definition chat_stream_endpoint :: "'r api_env \<Rightarrow> request \<Rightarrow> user option \<Rightarrow> fields \<Rightarrow> 'r app \<Rightarrow> 'r app \<times> reply result" where
  "chat_stream_endpoint env rq u body a =
     (case chat_stream (api_chat env) (api_redis env) (rq_clock rq) (str_at body (asc ''question''))
             (int_opt_at body (asc ''session_id'')) u (app_world a) of
        (w, evs) \<Rightarrow> (a\<lparr>app_world := w\<rparr>, Inr (Event_reply evs)))"

text \<open>The routers as \<open>main.py\<close> includes them.\<close>

fun run_endpoint :: "'r api_env \<Rightarrow> request \<Rightarrow> endpoint \<Rightarrow> user option \<Rightarrow> fields \<Rightarrow> fields \<Rightarrow> 'r app \<Rightarrow> 'r app \<times> reply result" where
  "run_endpoint env rq Ep_register u ps body a = register_endpoint env body a"
| "run_endpoint env rq Ep_login u ps body a = login_endpoint env rq body a"
| "run_endpoint env rq Ep_me u ps body a = me_endpoint u a"
| "run_endpoint env rq Ep_list_sessions u ps body a = list_sessions_endpoint env u a"
| "run_endpoint env rq Ep_create_session u ps body a = create_session_endpoint env rq u body a"
| "run_endpoint env rq Ep_get_session u ps body a = get_session_endpoint env u ps a"
| "run_endpoint env rq Ep_delete_session u ps body a = delete_session_endpoint u ps a"
| "run_endpoint env rq Ep_get_memories u ps body a = get_memories_endpoint env u ps a"
| "run_endpoint env rq Ep_add_memory u ps body a = add_memory_endpoint env rq u body a"
| "run_endpoint env rq Ep_patch_memory u ps body a = patch_memory_endpoint env rq u ps body a"
| "run_endpoint env rq Ep_remove_memory u ps body a = remove_memory_endpoint rq u ps a"
| "run_endpoint env rq Ep_clear_memories u ps body a = clear_memories_endpoint rq u a"
| "run_endpoint env rq Ep_chat u ps body a = chat_endpoint env rq u body a"
| "run_endpoint env rq Ep_chat_stream u ps body a = chat_stream_endpoint env rq u body a"

lemmas endpoint_defs [simp] =
  register_endpoint_def login_endpoint_def me_endpoint_def list_sessions_endpoint_def create_session_endpoint_def get_session_endpoint_def delete_session_endpoint_def get_memories_endpoint_def add_memory_endpoint_def patch_memory_endpoint_def remove_memory_endpoint_def clear_memories_endpoint_def chat_endpoint_def chat_stream_endpoint_def

section \<open>A request\<close>

text \<open>\<open>get_db\<close>: the changes of a request are committed when it ends normally and rolled back when it raises;
  what it did to Redis stays.\<close>

definition request_session :: "('r app \<Rightarrow> 'r app \<times> 'a result) \<Rightarrow> 'r app \<Rightarrow> 'r app \<times> 'a result" where
  "request_session f a = (case f a of
       (a', Inr x) \<Rightarrow> (a', Inr x)
     | (a', Inl e) \<Rightarrow> (a\<lparr>app_world := (app_world a)\<lparr>w_redis := w_redis (app_world a')\<rparr>\<rparr>, Inl e))"

datatype outcome = Replied reply | Raised exn | Unprocessable "json list"

text \<open>The validation errors of the parameters come before those of the body.\<close>

definition checked :: "'r api_env \<Rightarrow> endpoint \<Rightarrow> fields \<Rightarrow> json option \<Rightarrow> json list + fields \<times> fields" where
  "checked env ep raw body =
     (let ps = api_check env (params_of ep) (JObj raw);
          bs = (if body_of ep = [] then Inr [] else api_check env (body_of ep) (case body of None \<Rightarrow> JNull | Some j \<Rightarrow> j))
      in case (ps, bs) of
           (Inr p, Inr b) \<Rightarrow> Inr (p, b)
         | (Inl e, Inr b) \<Rightarrow> Inl e
         | (Inr p, Inl e) \<Rightarrow> Inl e
         | (Inl e, Inl e') \<Rightarrow> Inl (e @ e'))"

definition caller :: "'r api_env \<Rightarrow> request \<Rightarrow> endpoint \<Rightarrow> 'r app \<Rightarrow> user option result" where
  "caller env rq ep a =
     (if public ep then Inr None else get_current_user (api_auth env) (ck_start (rq_clock rq)) (users_of a) (rq_auth rq))"

definition handle :: "'r api_env \<Rightarrow> request \<Rightarrow> endpoint \<Rightarrow> fields \<Rightarrow> 'r app \<Rightarrow> 'r app \<times> outcome" where
  "handle env rq ep raw a =
     (case caller env rq ep a of
        Inl e \<Rightarrow> (a, Raised e)
      | Inr u \<Rightarrow>
          (case checked env ep raw (rq_body rq) of
             Inl errors \<Rightarrow> (a, Unprocessable errors)
           | Inr (ps, body) \<Rightarrow>
               (case request_session (run_endpoint env rq ep u ps body) a of
                  (a', Inl e) \<Rightarrow> (a', Raised e)
                | (a', Inr r) \<Rightarrow> (a', Replied r))))"

record served =
  sv_status :: int
  sv_json :: "json option"
  sv_events :: "sse list"
  sv_request_id :: "pystr option"

text \<open>
  The three exception handlers. The middleware sets the header \<open>X-Request-ID\<close> of what comes back to
  it; an exception that is no \<open>AppError\<close> passes through it and is answered outside, without the header.
\<close>

fun respond :: "pystr \<Rightarrow> outcome \<Rightarrow> served" where
  "respond rid (Replied (Json_reply status j)) = \<lparr>sv_status = status, sv_json = Some j, sv_events = [], sv_request_id = Some rid\<rparr>"
| "respond rid (Replied Empty_reply) = \<lparr>sv_status = 204, sv_json = None, sv_events = [], sv_request_id = Some rid\<rparr>"
| "respond rid (Replied (Event_reply evs)) = \<lparr>sv_status = 200, sv_json = None, sv_events = evs, sv_request_id = Some rid\<rparr>"
| "respond rid (Unprocessable errors) =
     (case validation_response rid (JArr errors) of
        (status, j) \<Rightarrow> \<lparr>sv_status = status, sv_json = Some j, sv_events = [], sv_request_id = Some rid\<rparr>)"
| "respond rid (Raised e) =
     (case exception_response rid e of
        (status, j) \<Rightarrow> \<lparr>sv_status = status, sv_json = Some j, sv_events = [],
           sv_request_id = (case e of AppError _ _ _ \<Rightarrow> Some rid | _ \<Rightarrow> None)\<rparr>)"

definition request_id :: "pystr \<Rightarrow> request \<Rightarrow> pystr" where
  "request_id fresh rq = (case rq_id rq of None \<Rightarrow> fresh | Some i \<Rightarrow> i)"

definition serve :: "'r api_env \<Rightarrow> pystr \<Rightarrow> request \<Rightarrow> 'r app \<Rightarrow> 'r app \<times> served" where
  "serve env fresh rq a =
     (let rid = request_id fresh rq
      in case api_resolve env (rq_verb rq) (rq_target rq) of
           None \<Rightarrow> (case api_unrouted env (rq_verb rq) (rq_target rq) of
               (status, j) \<Rightarrow> (a, \<lparr>sv_status = status, sv_json = Some j, sv_events = [], sv_request_id = Some rid\<rparr>))
         | Some (ep, raw) \<Rightarrow> (case handle env rq ep raw a of (a', out) \<Rightarrow> (a', respond rid out)))"

end
