(* ===== verification/Http_Safety.thy ===== *)
theory Http_Safety
  imports Http_Api
begin

text \<open>
  What any request may do to the application's state: the invariant \<open>app_ok\<close> of all tables, the
  isolation of the users' memories behind the routes, and the form and effect of refused requests.
\<close>

section \<open>Steps of one owner on the tables\<close>

definition tables_ok :: "tables \<Rightarrow> bool" where
  "tables_ok tb \<longleftrightarrow> sessions_ok (tb_sessions tb) \<and> memory_ok (tb_memories tb)"

definition owner_step :: "int option \<Rightarrow> tables option \<Rightarrow> tables option \<Rightarrow> bool" where
  "owner_step i t t' \<longleftrightarrow>
     (case t of None \<Rightarrow> t' = None
      | Some tb \<Rightarrow> \<exists>tb'. t' = Some tb' \<and> (tables_ok tb \<longrightarrow> tables_ok tb' \<and>
          (\<forall>v. v \<noteq> i \<longrightarrow> view v (tb_memories tb') = view v (tb_memories tb))))"

lemma owner_step_refl [simp]: "owner_step i t t"
  by (simp add: owner_step_def split: option.split)

lemma owner_step_trans: "owner_step i t t' \<Longrightarrow> owner_step i t' t'' \<Longrightarrow> owner_step i t t''"
  by (fastforce simp: owner_step_def split: option.splits)

lemma owner_step_memory:
  "owner_step i (Some tb) (Some (tb\<lparr>tb_memories := memory_exec tie i act (tb_memories tb)\<rparr>))"
  using memory_exec_ok memory_exec_frame by (simp add: owner_step_def tables_ok_def)

lemma owner_step_sessions:
  "(sessions_ok (tb_sessions tb) \<Longrightarrow> sessions_ok d) \<Longrightarrow> owner_step i (Some tb) (Some (tb\<lparr>tb_sessions := d\<rparr>))"
  by (simp add: owner_step_def tables_ok_def)

lemma owner_step_context:
  "owner_step (map_option u_id u) (w_tables w) (w_tables (fst (chat_context env t wh sid u w)))"
proof (cases "w_tables w")
  case None
  then show ?thesis by (simp add: chat_context_def)
next
  case (Some tb)
  obtain h m where "chat_context env t wh sid u w =
    (w\<lparr>w_tables := Some (tb\<lparr>tb_memories :=
        memory_exec (che_memory_tie env) (map_option u_id u) (t, Mem_recall 12) (tb_memories tb)\<rparr>)\<rparr>, h, m)"
    by (rule chat_context_tables [OF Some])
  then show ?thesis using owner_step_memory by (simp add: Some)
qed

lemma owner_step_record:
  assumes "record_turn env t n q sid u st r found w = (w', res)" "owner_step (map_option u_id u) found (w_tables w)"
  shows "owner_step (map_option u_id u) found (w_tables w')"
proof (cases "session_missing sid w")
  case True
  from assms(1) have "w_tables w' = found" by (cases rule: record_turn_cases) (use True in auto)
  then show ?thesis by simp
next
  case False
  show ?thesis
  proof (cases "w_tables w")
    case None
    then show ?thesis using assms by (simp add: record_turn_def)
  next
    case (Some tb)
    obtain cs mid sdb where run: "record_turn env t n q sid u st r found w =
      (w\<lparr>w_tables := Some (tb\<lparr>tb_sessions := sdb, tb_memories :=
          memory_exec (che_memory_tie env) (map_option u_id u) (t, Mem_turn cs sid mid) (tb_memories tb)\<rparr>)\<rparr>, Inr ())"
      and h: "turn_history t (tb_sessions tb) sid (turn_of q st r) = Some (sdb, mid)"
      by (rule record_turn_tables [OF Some False])
    have "owner_step (map_option u_id u) (Some tb) (Some (tb\<lparr>tb_sessions := sdb\<rparr>))"
      by (rule owner_step_sessions) (rule turn_history_turns(2) [OF h])
    from owner_step_trans [OF this owner_step_memory] have "owner_step (map_option u_id u) (w_tables w) (w_tables w')"
      using run assms(1) by (simp add: Some)
    then show ?thesis using owner_step_trans [OF assms(2)] by blast
  qed
qed

lemma owner_step_run_chat:
  assumes "run_chat env rd ck q sid u w = (w', res)"
  shows "owner_step (map_option u_id u) (w_tables w) (w_tables w')"
proof (cases "cache_lookup env rd (ck_start ck) q sid w")
  case (Some j)
  then show ?thesis using assms by (simp add: run_chat_def)
next
  case None
  obtain w1 h m where ctx: "chat_context env (ck_start ck) (sid \<noteq> Some 0) sid u w = (w1, h, m)"
    by (cases "chat_context env (ck_start ck) (sid \<noteq> Some 0) sid u w")
  have one: "owner_step (map_option u_id u) (w_tables w) (w_tables w1)"
    using owner_step_context [of u w env "ck_start ck" "sid \<noteq> Some 0" sid] by (simp add: ctx)
  obtain n r0 where inv: "crag_invoke (che_graph env) q h m = (n, r0)" by (rule prod.exhaust)
  show ?thesis
  proof (cases r0)
    case (Inl e)
    then show ?thesis using assms None ctx one inv by (simp add: run_chat_def)
  next
    case (Inr st)
    let ?r = "response_of (ck_ms ck) st"
    obtain rec where "record_turn env (ck_end ck) n q sid u st ?r (w_tables w) (cache_store env rd (ck_end ck) q sid ?r w1) = (w', rec)"
      using assms None ctx inv Inr by (auto simp: run_chat_def Let_def split: prod.splits)
    then show ?thesis by (rule owner_step_record) (simp add: cache_store_tables one)
  qed
qed

lemma owner_step_stream:
  assumes "chat_stream env rd ck q sid u w = (w', evs)"
  shows "owner_step (map_option u_id u) (w_tables w) (w_tables w')"
proof (cases "cache_lookup env rd (ck_start ck) q sid w")
  case (Some j)
  then show ?thesis using assms by (auto simp: chat_stream_def split: sum.splits)
next
  case None
  obtain w1 h m where ctx: "chat_context env (ck_start ck) True sid u w = (w1, h, m)"
    by (cases "chat_context env (ck_start ck) True sid u w")
  obtain tr n r0 where tr: "crag_trace (che_graph env) Route_question 0 (initial_state q h m) = (tr, n, r0)"
    by (cases "crag_trace (che_graph env) Route_question 0 (initial_state q h m)")
  have one: "owner_step (map_option u_id u) (w_tables w) (w_tables w1)"
    using owner_step_context [of u w env "ck_start ck" True sid] by (simp add: ctx)
  have finish: "owner_step (map_option u_id u) (w_tables w) (w_tables w2)"
    if "record_turn env (ck_end ck) n q sid u st r (w_tables w) w1 = (w2, res)" for n st r w2 res
    by (rule owner_step_record [OF that one])
  from one finish show ?thesis using assms None ctx tr
    by (auto simp: chat_stream_def Let_def cache_store_tables
        simp del: asc_Cons split: sum.splits option.splits prod.splits)
qed

lemma owner_step_chat_route:
  assumes "chat_route env rd ck host q sid u w = (w', res)"
  shows "owner_step (map_option u_id u) (w_tables w) (w_tables w')"
proof -
  have "\<exists>s r. w_tables w' = w_tables w \<or> run_chat env rd ck q sid u (w\<lparr>w_redis := s\<rparr>) = (w', r)"
    using assms by (auto simp: chat_route_def count_request_def Let_def split: option.splits prod.splits if_splits)
      (metis (no_types) world.surjective world.update_convs(1))+
  then show ?thesis using owner_step_run_chat by fastforce
qed

section \<open>Steps of the application\<close>

definition users_step :: "user_db \<Rightarrow> user_db \<Rightarrow> bool" where
  "users_step d d' \<longleftrightarrow> (users_ok d \<longrightarrow> users_ok d') \<and>
     (\<exists>new. ud_users d' = ud_users d @ new \<and> (\<forall>u\<in>set new. u_role u = Role_user))"

definition app_step :: "int option \<Rightarrow> 'r app \<Rightarrow> 'r app \<Rightarrow> bool" where
  "app_step i a a' \<longleftrightarrow> users_step (app_users a) (app_users a') \<and>
     owner_step i (w_tables (app_world a)) (w_tables (app_world a'))"

lemma users_step_refl [simp]: "users_step d d"
  by (simp add: users_step_def)

lemma users_step_register:
  assumes "register_user env d e n p = (d', r)" shows "users_step d d'"
  using assms
proof (cases rule: register_user_cases)
  case (fresh u)
  then have "users_ok d \<Longrightarrow> users_ok d'" using register_user_keeps_table [OF _ assms] by blast
  then show ?thesis using fresh by (simp add: users_step_def)
qed simp

lemma app_step_refl [simp]: "app_step i a a"
  by (simp add: app_step_def)

lemma app_step_world: "app_step i a (a\<lparr>app_world := w\<rparr>) \<longleftrightarrow> owner_step i (w_tables (app_world a)) (w_tables w)"
  by (simp add: app_step_def)

lemma app_step_memories:
  assumes "\<And>tb. w_tables (app_world a) = Some tb \<Longrightarrow> \<exists>tie act. d = Some (memory_exec tie i act (tb_memories tb))"
  shows "app_step i a (put_memories d a)"
proof (cases "w_tables (app_world a)")
  case None
  then show ?thesis by (auto simp: put_memories_def map_tables_def app_step_def split: option.split)
next
  case (Some tb)
  from assms [OF Some] show ?thesis
    by (auto simp: put_memories_def map_tables_def app_step_def Some intro: owner_step_memory)
qed

lemma app_step_sessions:
  assumes "\<And>tb. w_tables (app_world a) = Some tb \<Longrightarrow> \<exists>d'. d = Some d' \<and> (sessions_ok (tb_sessions tb) \<longrightarrow> sessions_ok d')"
  shows "app_step i a (put_sessions d a)"
proof (cases "w_tables (app_world a)")
  case None
  then show ?thesis by (auto simp: put_sessions_def map_tables_def app_step_def split: option.split)
next
  case (Some tb)
  from assms [OF Some] show ?thesis
    by (auto simp: put_sessions_def map_tables_def app_step_def Some intro: owner_step_sessions)
qed

lemma app_step_users:
  assumes "auth_register env (users_of a) e n p = (d, r)" shows "app_step i a (put_users d a)"
  using assms users_step_register
  by (fastforce simp: auth_register_def users_of_def put_users_def app_step_def split: if_splits prod.splits)

text \<open>The memory routes are operations of the table on behalf of the caller.\<close>

lemma memory_routes_exec:
  "add_memory tie now (Some m) i c k o' s = (d, r) \<Longrightarrow> \<exists>act. d = Some (memory_exec tie i act m)"
  "patch_memory now (Some m) i j p = (d, r1) \<Longrightarrow> \<exists>act. d = Some (memory_exec tie i act m)"
  "remove_memory now (Some m) i j = (d, r2) \<Longrightarrow> \<exists>act. d = Some (memory_exec tie i act m)"
  "clear_memories now (Some m) i = (d, r3) \<Longrightarrow> \<exists>act. d = Some (memory_exec tie i act m)"
proof -
  assume "add_memory tie now (Some m) i c k o' s = (d, r)"
  then obtain nm where "d = Some (fst (create_memory tie now m i nm))"
    by (auto simp: add_memory_def Let_def split: prod.splits simp del: asc_Cons) (metis fst_conv)
  then have "d = Some (memory_exec tie i (now, Mem_add nm) m)" by (simp add: memory_exec.simps)
  then show "\<exists>act. d = Some (memory_exec tie i act m)" by blast
next
  assume "patch_memory now (Some m) i j p = (d, r1)"
  then have "d = Some (memory_exec tie i (now, Mem_patch j p) m)"
    by (auto simp: patch_memory_def memory_exec.simps Let_def split: option.splits)
  then show "\<exists>act. d = Some (memory_exec tie i act m)" by blast
next
  assume "remove_memory now (Some m) i j = (d, r2)"
  then have "d = Some (memory_exec tie i (now, Mem_delete j) m)"
    by (auto simp: remove_memory_def memory_exec.simps split: prod.splits)
  then show "\<exists>act. d = Some (memory_exec tie i act m)" by blast
next
  assume "clear_memories now (Some m) i = (d, r3)"
  then have "d = Some (memory_exec tie i (now, Mem_clear) m)"
    by (auto simp: clear_memories_def memory_exec.simps split: prod.splits)
  then show "\<exists>act. d = Some (memory_exec tie i act m)" by blast
qed

lemma session_routes_ok:
  "create_session now (Some d) u t = (d', r) \<Longrightarrow> \<exists>e. d' = Some e \<and> (sessions_ok d \<longrightarrow> sessions_ok e)"
  "delete_session (Some d) u i = (d', r') \<Longrightarrow> \<exists>e. d' = Some e \<and> (sessions_ok d \<longrightarrow> sessions_ok e)"
proof -
  assume run: "create_session now (Some d) u t = (d', r)"
  then obtain e where "d' = Some e" by (auto simp: create_session_def Let_def)
  then show "\<exists>e. d' = Some e \<and> (sessions_ok d \<longrightarrow> sessions_ok e)" using create_session_ok run by blast
next
  assume run: "delete_session (Some d) u i = (d', r')"
  then obtain e where "d' = Some e" by (auto simp: delete_session_def split: option.splits)
  then show "\<exists>e. d' = Some e \<and> (sessions_ok d \<longrightarrow> sessions_ok e)" using delete_session_ok run by blast
qed

lemma endpoint_step:
  assumes "run_endpoint env rq ep u ps body a = (a', r)"
  shows "app_step (map_option u_id u) a a'"
proof (cases ep)
  case Ep_register
  then show ?thesis using assms by (auto split: prod.splits intro: app_step_users)
next
  case Ep_create_session
  then show ?thesis using assms session_routes_ok(1)
    by (fastforce simp: sessions_of_def split: prod.splits intro: app_step_sessions)
next
  case Ep_delete_session
  then show ?thesis using assms session_routes_ok(2)
    by (fastforce simp: sessions_of_def split: prod.splits intro: app_step_sessions)
next
  case Ep_add_memory
  then show ?thesis using assms memory_routes_exec(1)
    by (fastforce simp: memories_of_def split: prod.splits intro!: app_step_memories)
next
  case Ep_patch_memory
  then show ?thesis using assms memory_routes_exec(2)
    by (fastforce simp: memories_of_def split: prod.splits intro!: app_step_memories)
next
  case Ep_remove_memory
  then show ?thesis using assms memory_routes_exec(3)
    by (fastforce simp: memories_of_def split: prod.splits intro!: app_step_memories)
next
  case Ep_clear_memories
  then show ?thesis using assms memory_routes_exec(4)
    by (fastforce simp: memories_of_def split: prod.splits intro!: app_step_memories)
next
  case Ep_chat
  then show ?thesis using assms owner_step_chat_route by (auto simp: app_step_world split: prod.splits)
next
  case Ep_chat_stream
  then show ?thesis using assms owner_step_stream by (auto simp: app_step_world split: prod.splits)
qed (use assms in \<open>auto simp del: asc_Cons\<close>)

section \<open>Requests\<close>

definition app_ok :: "'r app \<Rightarrow> bool" where
  "app_ok a \<longleftrightarrow> users_ok (app_users a) \<and> (\<forall>tb. w_tables (app_world a) = Some tb \<longrightarrow> tables_ok tb)"

definition memory_view :: "int option \<Rightarrow> 'r app \<Rightarrow> memory_row list option" where
  "memory_view v a = map_option (\<lambda>tb. view v (tb_memories tb)) (w_tables (app_world a))"

lemma app_step_ok: "app_step i a a' \<Longrightarrow> app_ok a \<Longrightarrow> app_ok a'"
  by (auto simp: app_step_def app_ok_def users_step_def owner_step_def split: option.splits)

lemma app_step_view: "app_step i a a' \<Longrightarrow> app_ok a \<Longrightarrow> v \<noteq> i \<Longrightarrow> memory_view v a' = memory_view v a"
  by (auto simp: app_step_def app_ok_def memory_view_def owner_step_def split: option.splits)

lemma app_step_users_grow: "app_step i a a' \<Longrightarrow>
   \<exists>new. ud_users (app_users a') = ud_users (app_users a) @ new \<and> (\<forall>u\<in>set new. u_role u = Role_user)"
  by (simp add: app_step_def users_step_def)

lemma request_session_cases:
  assumes "request_session f a = (a', r)"
  obtains (commit) x where "f a = (a', Inr x)" "r = Inr x"
  | (rollback) b e where "f a = (b, Inl e)" "r = Inl e" "app_users a' = app_users a"
      "w_tables (app_world a') = w_tables (app_world a)" "w_redis (app_world a') = w_redis (app_world b)"
  using assms by (auto simp: request_session_def split: prod.splits sum.splits)

lemma handle_cases:
  assumes "handle env rq ep raw a = (a', out)"
  obtains (no_caller) e where "caller env rq ep a = Inl e" "a' = a" "out = Raised e"
  | (invalid) es where "a' = a" "out = Unprocessable es"
  | (raised) u ps body b e where "caller env rq ep a = Inr u" "checked env ep raw (rq_body rq) = Inr (ps, body)"
      "run_endpoint env rq ep u ps body a = (b, Inl e)" "out = Raised e" "app_users a' = app_users a"
      "w_tables (app_world a') = w_tables (app_world a)"
  | (replied) u ps body r where "caller env rq ep a = Inr u" "checked env ep raw (rq_body rq) = Inr (ps, body)"
      "run_endpoint env rq ep u ps body a = (a', Inr r)" "out = Replied r"
  using assms unfolding handle_def
  by (auto split: sum.splits prod.splits elim!: request_session_cases)

text \<open>A request whose header does not make it one of user \<open>v\<close>.\<close>

definition not_from :: "int \<Rightarrow> 'r api_env \<Rightarrow> request \<Rightarrow> bool" where
  "not_from v env rq \<longleftrightarrow>
     (\<forall>d u. get_current_user (api_auth env) (ck_start (rq_clock rq)) d (rq_auth rq) = Inr (Some u) \<longrightarrow> u_id u \<noteq> v)"

lemma serve_step:
  assumes "serve env fresh rq a = (a', sv)"
  shows "\<exists>i. app_step i a a' \<and> (\<forall>v. not_from v env rq \<longrightarrow> Some v \<noteq> i)"
proof (cases "api_resolve env (rq_verb rq) (rq_target rq)")
  case None
  then have "a' = a" using assms by (auto simp: serve_def split: prod.splits)
  then show ?thesis by (intro exI [of _ None]) simp
next
  case (Some er)
  then obtain ep raw out where h: "handle env rq ep raw a = (a', out)"
    using assms by (cases er) (auto simp: serve_def Let_def split: prod.splits)
  have idle: ?thesis if "app_users a' = app_users a" "w_tables (app_world a') = w_tables (app_world a)"
    using that by (intro exI [of _ None]) (simp add: app_step_def)
  from h show ?thesis
  proof (cases rule: handle_cases)
    case (replied u ps body r)
    have "Some v \<noteq> map_option u_id u" if "not_from v env rq" for v
      using replied(1) that by (cases u) (auto simp: caller_def not_from_def split: if_splits)
    then show ?thesis using endpoint_step [OF replied(3)] by blast
  qed (use idle in auto)
qed

text \<open>Requests in a row, each with a fresh identifier.\<close>

fun serve_all :: "'r api_env \<Rightarrow> (pystr \<times> request) list \<Rightarrow> 'r app \<Rightarrow> 'r app" where
  "serve_all env [] a = a"
| "serve_all env ((fresh, rq) # rqs) a = serve_all env rqs (fst (serve env fresh rq a))"

text \<open>C8: whatever requests reach the service - well formed or not, with any token or none, in
  any order - all tables stay well formed, no account is lost or changed, no request makes an
  administrator, and the memories of a user are untouched by every request that does not carry a
  token of theirs.\<close>

theorem api_isolates_users:
  assumes "app_ok a"
  shows "app_ok (serve_all env rqs a) \<and>
    (\<exists>new. ud_users (app_users (serve_all env rqs a)) = ud_users (app_users a) @ new \<and> (\<forall>u\<in>set new. u_role u = Role_user)) \<and>
    ((\<forall>(fresh, rq)\<in>set rqs. not_from v env rq) \<longrightarrow> memory_view (Some v) (serve_all env rqs a) = memory_view (Some v) a)"
  using assms
proof (induction env rqs a rule: serve_all.induct)
  case (2 env fresh rq rqs a)
  obtain a' sv where run: "serve env fresh rq a = (a', sv)" by (cases "serve env fresh rq a")
  obtain i where i: "app_step i a a'" "\<forall>v. not_from v env rq \<longrightarrow> Some v \<noteq> i" using serve_step [OF run] by blast
  note ok = app_step_ok [OF i(1) "2.prems"]
  have view: "not_from v env rq \<Longrightarrow> memory_view (Some v) a' = memory_view (Some v) a"
    using app_step_view [OF i(1) "2.prems"] i(2) by blast
  show ?case using "2.IH" ok view app_step_users_grow [OF i(1)] by (fastforce simp: run)
qed simp

section \<open>Refused requests\<close>

text \<open>The statuses of the business errors.\<close>

definition refusals :: "int set" where
  "refusals = {401, 403, 404, 409, 429, 503}"

definition refusal :: "exn \<Rightarrow> bool" where
  "refusal e \<longleftrightarrow> (case e of AppError c m s \<Rightarrow> s \<in> refusals | _ \<Rightarrow> True)"

text \<open>A library that checks passwords raises no business error.\<close>

definition plain_checks :: "auth_env \<Rightarrow> bool" where
  "plain_checks env \<longleftrightarrow> (\<forall>pw h c m s. ae_checkpw env pw h \<noteq> Inl (AppError c m s))"

definition plain :: "'a result \<Rightarrow> bool" where
  "plain r \<longleftrightarrow> (\<forall>e. r = Inl e \<longrightarrow> refusal e)"

lemma refusal_simps [simp]:
  "refusal (AppError c m s) \<longleftrightarrow> s \<in> refusals" "refusal (RuntimeError m)" "refusal (ValueError m)" "refusal (OtherError m)"
  by (simp_all add: refusal_def)

lemma plain_simps [simp]: "plain (Inr x)" "plain (Inl e) \<longleftrightarrow> refusal e"
  by (simp_all add: plain_def)

lemma plain_rbind [intro]: "plain m \<Longrightarrow> (\<And>x. m = Inr x \<Longrightarrow> plain (f x)) \<Longrightarrow> plain (rbind m f)"
  by (cases m) auto

lemma plain_get_or: "plain (json_get_or j k d)"
  by (cases j) simp_all

lemma plain_py_int: "plain (py_int j)"
  by (cases j) (simp_all split: option.splits)

lemma plain_mapr: "(\<And>x. plain (f x)) \<Longrightarrow> plain (mapr f xs)"
  by (induction xs) (auto intro!: plain_rbind)

lemma plain_mock_user: "plain (mock_user payload i)"
  by (simp add: mock_user_def del: asc_Cons)

lemma plain_get_current_user: "plain (get_current_user env now db h)"
proof -
  have codes: "plain (decode_token env now t)" for t
    by (auto simp: decode_token_def refusals_def split: sum.split jwt_error.split)
  have rest: "plain (rbind (decode_token env now t) (\<lambda>payload.
      rbind (rbind (json_get_or payload (asc ''sub'') (JInt 0)) py_int) (\<lambda>i. case db of
          None \<Rightarrow> rbind (mock_user payload i) (\<lambda>u. Inr (Some u))
        | Some d \<Rightarrow> (case get_user_by_id d i of
             None \<Rightarrow> Inl (AppError (asc ''AUTH_INVALID_TOKEN'') [0x7528, 0x6237, 0x4e0d,
                 0x5b58, 0x5728] 401)
           | Some u \<Rightarrow> if \<not> u_active u then Inl disabled_account else Inr (Some u)))))" for t
    by (intro plain_rbind codes plain_get_or plain_py_int)
       (auto intro: plain_mock_user simp: refusals_def disabled_account_def split: option.split)
  show ?thesis
    using rest by (simp add: get_current_user_def Let_def unauthorized_def refusals_def del: asc_Cons)
qed

lemma plain_login: "plain_checks env \<Longrightarrow> plain (login_user env now db e p)"
proof -
  assume "plain_checks env"
  then have "plain (ae_checkpw env pw h)" for pw h
    by (cases "ae_checkpw env pw h") (auto simp: plain_checks_def refusal_def split: exn.split)
  then have "plain (verify_password env p h)" for h
    by (auto simp: verify_password_def plain_def split: sum.splits exn.splits) (metis plain_def refusal_simps)+
  then show ?thesis
    by (auto simp: login_user_def bad_credentials_def disabled_account_def refusals_def split: option.split)
qed

lemma plain_chat_response: "plain (chat_response j)"
proof (cases j)
  case (JObj d)
  have texts: "plain (as_text j)" "plain (as_flag j)" "plain (as_number j)" "plain (as_object j)" for j
    by (cases j; simp add: invalid_field_def)+
  have lists: "plain (as_list f j)" if "\<And>x. plain (f x)" for f j
    using that by (cases j) (simp_all add: invalid_field_def plain_mapr)
  have field: "plain (field d k dflt f)" if "\<And>x. plain (f x)" for k dflt f
    using that by (auto simp: field_def invalid_field_def split: option.split)
  show ?thesis unfolding JObj chat_response.simps
    by (intro plain_rbind field lists texts) simp
qed simp_all

lemma plain_chat_route: "chat_route env rd ck host q sid u w = (w', res) \<Longrightarrow> plain res"
proof -
  have items: "plain (set_items kvs j)" for kvs j by (cases j) simp_all
  have rec: "plain (rbind r (\<lambda>_. Inr j))" if "record_turn env t n q sid u st rp found w = (w', r)" for t n st rp found w w' r j
    using that by (cases rule: record_turn_cases) (auto simp: pending_rollback_def simp del: asc_Cons)
  have run: "run_chat env rd ck q sid u w = (w', res) \<Longrightarrow> plain res" for w w' res
    using items by (auto simp: run_chat_def Let_def dest: rec split: option.splits prod.splits sum.splits)
  show "chat_route env rd ck host q sid u w = (w', res) \<Longrightarrow> plain res"
    using run by (auto simp: chat_route_def Let_def too_many_requests_def refusals_def
        intro!: plain_rbind plain_chat_response split: option.splits prod.splits if_splits)
qed

lemma plain_answer: "plain (answer s f r) \<longleftrightarrow> plain r"
  by (cases r) (simp_all add: answer_def)

lemma plain_sessions:
  "plain (list_sessions tie d u)" "create_session now d u t = (d', r) \<Longrightarrow> plain r"
  "plain (get_session tie' d u i)" "delete_session d u i = (d', r') \<Longrightarrow> plain r'"
  by (auto simp: list_sessions_def create_session_def get_session_def delete_session_def session_db_missing_def
      session_not_found_def session_forbidden_def refusals_def Let_def split: option.splits)

lemma plain_memories:
  "plain (get_memories tie d u s b)" "add_memory tie now d u c k o' st = (d', r) \<Longrightarrow> plain r"
  "patch_memory now d u i p = (d', r) \<Longrightarrow> plain r" "remove_memory now d u i = (d', r') \<Longrightarrow> plain r'"
  "clear_memories now d u = (d', r2) \<Longrightarrow> plain r2"
  by (auto simp: get_memories_def add_memory_def patch_memory_def remove_memory_def clear_memories_def
      no_database_def memory_not_found_def refusals_def Let_def split: option.splits prod.splits if_splits)

lemma plain_memory_reply: "plain r \<Longrightarrow> plain (memory_reply env r)"
  by (auto simp: memory_reply_def intro!: plain_rbind split: option.split)

lemma plain_auth:
  "auth_register env d e n p = (d', r) \<Longrightarrow> plain r" "plain_checks env \<Longrightarrow> plain (auth_login env now d e p)"
  "plain (auth_me u)"
  using plain_login
  by (auto simp: auth_register_def auth_login_def auth_me_def register_user_def unauthorized_def refusals_def Let_def
      intro!: plain_rbind split: option.splits prod.splits)

lemma endpoint_plain:
  assumes "plain_checks (api_auth env)" "run_endpoint env rq ep u ps body a = (a', r)"
  shows "plain r"
  using assms
  by (cases ep)
     (auto simp: plain_answer plain_sessions(1,3) plain_memories(1) plain_auth(2,3) simp del: asc_Cons
        intro!: plain_rbind intro: plain_sessions(2,4) plain_memories(4,5) plain_memories(2,3) [THEN plain_memory_reply] plain_auth(1) plain_chat_route
        split: prod.splits)

lemma endpoint_status:
  assumes "run_endpoint env rq ep u ps body a = (a', Inr (Json_reply s j))"
  shows "s \<in> {200, 201}"
  using assms by (cases ep) (auto simp: answer_def rbind_Inr_iff simp del: asc_Cons split: prod.splits)

lemma plain_caller: "plain (caller env rq ep a)"
  by (simp add: caller_def plain_get_current_user)

definition refused :: "pystr \<Rightarrow> served \<Rightarrow> bool" where
  "refused rid sv \<longleftrightarrow> sv_status sv \<in> refusals \<union> {422, 500} \<and> sv_events sv = [] \<and>
     sv_request_id sv = (if sv_status sv = 500 then None else Some rid) \<and>
     (\<exists>c m d. sv_json sv = Some (error_body rid c m d))"

lemma refused_raised: "refusal e \<Longrightarrow> refused rid (respond rid (Raised e))"
  by (cases e) (auto simp: refused_def refusals_def simp del: asc_Cons)

lemma refused_invalid: "refused rid (respond rid (Unprocessable es))"
  by (auto simp: refused_def validation_response_def)

text \<open>C14: a routed request either succeeds, with status 200, 201 or 204 and the request's identifier
  in the header, or it is refused as a whole: the database is as it was, the status is that of a
  business error, a validation error or an internal error, and the body has the four fields with the
  request's identifier. Only an internal error lacks the identifier in the header.\<close>

theorem api_refusal_atomic:
  assumes libs: "plain_checks (api_auth env)"
    and route: "api_resolve env (rq_verb rq) (rq_target rq) = Some (ep, raw)"
    and run: "serve env fresh rq a = (a', sv)"
  shows "(sv_status sv \<in> {200, 201, 204} \<and> sv_request_id sv = Some (request_id fresh rq)) \<or>
    (refused (request_id fresh rq) sv \<and> app_users a' = app_users a \<and> w_tables (app_world a') = w_tables (app_world a))"
proof -
  obtain out where h: "handle env rq ep raw a = (a', out)" and sv: "sv = respond (request_id fresh rq) out"
    using run route by (auto simp: serve_def Let_def split: prod.splits)
  from h show ?thesis
  proof (cases rule: handle_cases)
    case (no_caller e)
    then show ?thesis using plain_caller [of env rq ep a] refused_raised by (simp add: sv)
  next
    case (invalid es)
    then show ?thesis using refused_invalid by (simp add: sv del: respond.simps)
  next
    case (raised u ps body b e)
    then have "refusal e" using endpoint_plain [OF libs raised(3)] by simp
    then show ?thesis using raised refused_raised by (simp add: sv del: respond.simps)
  next
    case (replied u ps body r)
    then show ?thesis using endpoint_status [of env rq ep u ps body a a'] by (cases r) (auto simp: sv)
  qed
qed

section \<open>An instance\<close>

definition endpoints :: "endpoint list" where
  "endpoints = [Ep_register, Ep_login, Ep_me, Ep_list_sessions, Ep_create_session, Ep_get_session, Ep_delete_session,
     Ep_get_memories, Ep_add_memory, Ep_patch_memory, Ep_remove_memory, Ep_clear_memories, Ep_chat, Ep_chat_stream]"

text \<open>It knows the paths without parameters and ignores queries.\<close>

definition plain_router :: "pystr \<Rightarrow> pystr \<Rightarrow> (endpoint \<times> fields) option" where
  "plain_router verb target =
     map_option (\<lambda>ep. (ep, [])) (find (\<lambda>ep. declared ep = (verb, takeWhile (\<lambda>c. c \<noteq> 63) target)) endpoints)"

definition demo_api :: "server api_env" where
  "demo_api = \<lparr>api_auth = demo_auth, api_chat = demo_chat, api_redis = Some spec_redis, api_resolve = plain_router,
     api_unrouted = (\<lambda>v t. (404, JObj [((asc ''detail''), JStr (asc ''Not Found''))])), api_check = strict_check (\<lambda>_. True),
     api_session_tie = (\<lambda>_. 0), api_date = JInt, api_created = (\<lambda>_. JNull), api_dumps = (\<lambda>_. []), api_wire = (\<lambda>_. [])\<rparr>"

definition demo_app :: "server app" where
  "demo_app = \<lparr>app_users = demo_users, app_world = \<lparr>w_redis = Map.empty,
     w_tables = Some \<lparr>tb_sessions = demo_sessions, tb_memories = empty_memories\<rparr>\<rparr>\<rparr>"

definition demo_request :: "pystr \<Rightarrow> pystr \<Rightarrow> json option \<Rightarrow> request" where
  "demo_request verb target body = \<lparr>rq_verb = verb, rq_target = target, rq_id = None, rq_auth = None, rq_client = None,
     rq_body = body, rq_clock = demo_clock\<rparr>"

lemma demo_app_ok: "app_ok demo_app"
  by (simp add: app_ok_def demo_app_def demo_users_ok tables_ok_def demo_sessions_ok empty_memories_ok)

lemma demo_anonymous: "not_from v demo_api (demo_request verb target body)"
  by (simp add: not_from_def demo_request_def demo_api_def get_current_user_def)

theorem api_isolates_users_witness:
  "memory_view (Some 1) (serve_all demo_api
     [((asc ''r1''), demo_request (asc ''POST'') (asc ''/api/v1/memories'') (Some (JObj [((asc ''content''), JStr (asc ''call me Al''))])))] demo_app) =
   memory_view (Some 1) demo_app"
  using api_isolates_users [OF demo_app_ok, of demo_api
      "[((asc ''r1''), demo_request (asc ''POST'') (asc ''/api/v1/memories'') (Some (JObj [((asc ''content''), JStr (asc ''call me Al''))])))]" 1]
    demo_anonymous by (simp del: asc_Cons)

theorem api_refusal_atomic_witness:
  "\<exists>a sv. serve demo_api (asc ''r1'') (demo_request (asc ''GET'') (asc ''/api/v1/auth/me'') None) demo_app = (a, sv) \<and>
     refused (asc ''r1'') sv \<and> app_users a = demo_users"
proof -
  let ?rq = "demo_request (asc ''GET'') (asc ''/api/v1/auth/me'') None"
  obtain a sv where run: "serve demo_api (asc ''r1'') ?rq demo_app = (a, sv)" by (cases "serve demo_api (asc ''r1'') ?rq demo_app")
  have libs: "plain_checks (api_auth demo_api)" by (simp add: plain_checks_def demo_api_def demo_auth_def)
  have route: "api_resolve demo_api (rq_verb ?rq) (rq_target ?rq) = Some (Ep_me, [])" by code_simp
  have "sv_status (snd (serve demo_api (asc ''r1'') ?rq demo_app)) = 401" by code_simp
  then show ?thesis using api_refusal_atomic [OF libs route run] run
    by (auto simp: request_id_def demo_request_def demo_app_def simp del: asc_Cons)
qed

end
