(* ===== verification/Http_Page.thy ===== *)
theory Http_Page
  imports Http_Safety
begin

text \<open>
  The page and the application put together: the server behind the client of \<open>Frontend\<close> is the
  application of \<open>Http_Api\<close>, reached through \<open>requests\<close>. What is sent as JSON arrives as it is; the
  \<open>n\<close>-th request of the server has its own clock and fresh identifier.
\<close>

section \<open>The connection\<close>

record wires =
  wr_base :: pystr
  wr_fresh :: "nat \<Rightarrow> pystr"
  wr_clock :: "nat \<Rightarrow> clock"
  wr_client :: "pystr option"

fun json_body :: "body \<Rightarrow> json option" where
  "json_body (Json_body j) = Some j"
| "json_body _ = None"

definition page_request :: "wires \<Rightarrow> nat \<Rightarrow> pystr \<Rightarrow> pystr \<Rightarrow> pystr option \<Rightarrow> body \<Rightarrow> request" where
  "page_request wr n verb target token b = \<lparr>rq_verb = verb, rq_target = target, rq_id = None, rq_auth = token,
     rq_client = wr_client wr, rq_body = json_body b, rq_clock = wr_clock wr n\<rparr>"

text \<open>Only the lines of an event stream are read as lines.\<close>

definition deliver :: "'r api_env \<Rightarrow> served \<Rightarrow> http_response" where
  "deliver env sv = \<lparr>ht_status = sv_status sv,
     ht_json = (case sv_json sv of Some j \<Rightarrow> Inr j | None \<Rightarrow> Inl (ValueError [])),
     ht_text = (case sv_json sv of Some j \<Rightarrow> api_dumps env j | None \<Rightarrow> []),
     ht_lines = api_wire env (sv_events sv)\<rparr>"

definition http_send ::
  "'r api_env \<Rightarrow> wires \<Rightarrow> pystr \<Rightarrow> pystr \<Rightarrow> pystr option \<Rightarrow> body \<Rightarrow> 'r app \<times> nat \<Rightarrow> ('r app \<times> nat) \<times> http_response result" where
  "http_send env wr verb url token b s =
     (case s of (a, n) \<Rightarrow>
       (case serve env (wr_fresh wr n) (page_request wr n verb (drop (length (wr_base wr)) url) token b) a of
          (a', sv) \<Rightarrow> ((a', Suc n), Inr (deliver env sv))))"

definition connected :: "'r api_env \<Rightarrow> wires \<Rightarrow> ('r app \<times> nat) frontend \<Rightarrow> bool" where
  "connected env wr fe \<longleftrightarrow> fe_send fe = http_send env wr \<and> fe_url fe = wr_base wr"

text \<open>A JSON request whose endpoint answers.\<close>

lemma page_json:
  assumes conn: "connected env wr fe" and srv: "cl_server w = (a, n)"
    and rq: "rq = page_request wr n verb path (Frontend.bearer (fe_repr fe) (cl_state w)) b"
    and route: "api_resolve env verb path = Some (ep, raw)"
    and who: "caller env rq ep a = Inr u" and ok: "checked env ep raw (json_body b) = Inr (ps, body)"
    and run: "run_endpoint env rq ep u ps body a = (a', Inr (Json_reply st j))" and st: "st \<in> {200, 201}"
  shows "request_json fe verb path b w = (w\<lparr>cl_server := (a', Suc n)\<rparr>, Inr j)"
proof -
  have rq_fields: "rq_verb rq = verb" "rq_target rq = path" "rq_body rq = json_body b"
    by (simp_all add: rq page_request_def)
  have "handle env rq ep raw a = (a', Replied (Json_reply st j))"
    by (simp add: handle_def who ok run request_session_def rq_fields)
  then have "serve env (wr_fresh wr n) rq a =
      (a', \<lparr>sv_status = st, sv_json = Some j, sv_events = [], sv_request_id = Some (request_id (wr_fresh wr n) rq)\<rparr>)"
    by (simp add: serve_def rq_fields route)
  then have "call fe verb path b w =
      (w\<lparr>cl_server := (a', Suc n)\<rparr>, Inr \<lparr>ht_status = st, ht_json = Inr j, ht_text = api_dumps env j, ht_lines = api_wire env []\<rparr>)"
    using conn srv by (simp add: call_def connected_def http_send_def deliver_def rq)
  then show ?thesis using st by (auto simp: request_json_def sbind_def read_response_def)
qed

section \<open>Checked bodies\<close>

lemma checked_body:
  assumes ok: "validator_ok mail (api_check env)" and ps: "params_of ep = []" and body: "body_of ep = sch"
    and fit: "fill sch d = Some vs" "conforms sch vs" "mails_ok mail sch vs"
  shows "checked env ep [] (Some (JObj d)) = Inr ([], vs)"
proof -
  have "api_check env [] (JObj []) = Inr []" using ok by (simp add: validator_ok_def conforms_def)
  moreover have "api_check env sch (JObj d) = Inr vs" using ok fit by (simp add: validator_ok_def)
  moreover have "vs = []" if "sch = []" using fit(1) that by simp
  ultimately show ?thesis by (auto simp: checked_def ps body)
qed

lemma checked_empty:
  assumes ok: "validator_ok mail (api_check env)" and "params_of ep = []" "body_of ep = []"
  shows "checked env ep [] b = Inr ([], [])"
proof -
  have "api_check env [] (JObj []) = Inr []" using ok by (simp add: validator_ok_def conforms_def)
  then show ?thesis by (simp add: checked_def assms)
qed

definition registration :: "pystr \<Rightarrow> pystr \<Rightarrow> pystr \<Rightarrow> fields" where
  "registration email username password =
     [((asc ''email''), JStr email), ((asc ''username''), JStr username), ((asc ''password''), JStr password)]"

definition credentials :: "pystr \<Rightarrow> pystr \<Rightarrow> fields" where
  "credentials email password = [((asc ''email''), JStr email), ((asc ''password''), JStr password)]"

lemma field_names:
  "(asc ''email'') \<noteq> (asc ''username'')" "(asc ''email'') \<noteq> (asc ''password'')" "(asc ''username'') \<noteq> (asc ''password'')"
  "(asc ''username'') \<noteq> (asc ''email'')" "(asc ''password'') \<noteq> (asc ''email'')" "(asc ''password'') \<noteq> (asc ''username'')"
  by code_simp+

lemma registration_fits:
  assumes "2 \<le> length username" "length username \<le> 50" "6 \<le> length password" "length password \<le> 100" "mail email"
  shows "fill RegisterRequest (registration email username password) = Some (registration email username password)"
    "conforms RegisterRequest (registration email username password)"
    "mails_ok mail RegisterRequest (registration email username password)"
  using assms field_names
  by (simp_all add: RegisterRequest_def registration_def required_def lengths_def conforms_def field_ok_def
      in_lengths_def del: asc_Cons)

lemma credentials_fit:
  assumes "mail email"
  shows "fill LoginRequest (credentials email password) = Some (credentials email password)"
    "conforms LoginRequest (credentials email password)" "mails_ok mail LoginRequest (credentials email password)"
  using assms field_names
  by (simp_all add: LoginRequest_def credentials_def required_def conforms_def field_ok_def in_lengths_def del: asc_Cons)

lemma title_fits:
  "fill SessionCreate [((asc ''title''), JStr t)] = Some [((asc ''title''), JStr t)]"
  "conforms SessionCreate [((asc ''title''), JStr t)]" "mails_ok mail SessionCreate [((asc ''title''), JStr t)]"
  by (simp_all add: SessionCreate_def optional_def conforms_def field_ok_def in_lengths_def del: asc_Cons)

lemma reads:
  "str_at (registration e n p) (asc ''email'') = e" "str_at (registration e n p) (asc ''username'') = n"
  "str_at (registration e n p) (asc ''password'') = p"
  "str_at (credentials e p) (asc ''email'') = e" "str_at (credentials e p) (asc ''password'') = p"
  "str_at [((asc ''title''), JStr t)] (asc ''title'') = t"
  using field_names by (simp_all add: registration_def credentials_def str_at_def del: asc_Cons)

section \<open>The four requests of a registration\<close>

text \<open>The application with a database, and its endpoints that take no parameter in the path.\<close>

definition routed :: "'r api_env \<Rightarrow> endpoint set \<Rightarrow> bool" where
  "routed env eps \<longleftrightarrow> (\<forall>ep\<in>eps. api_resolve env (fst (declared ep)) (snd (declared ep)) = Some (ep, []))"

lemma users_present: "w_tables (app_world a) = Some tb \<Longrightarrow> users_of a = Some (app_users a)"
  by (simp add: users_of_def)

lemma page_signs_up:
  assumes conn: "connected env wr fe" and srv: "cl_server w = (a, n)" and db: "w_tables (app_world a) = Some tb"
    and routes: "routed env {Ep_register}" and check: "validator_ok mail (api_check env)"
    and fits: "2 \<le> length username" "length username \<le> 50" "6 \<le> length password" "length password \<le> 100" "mail email"
    and new: "register_user (api_auth env) (app_users a) email username password = (d, Inr u)"
  shows "post_json fe (asc ''/api/v1/auth/register'') (JObj (registration email username password)) w =
    (w\<lparr>cl_server := (a\<lparr>app_users := d\<rparr>, Suc n)\<rparr>, Inr (UserResponse u))"
proof -
  let ?j = "JObj (registration email username password)"
  let ?rq = "page_request wr n (asc ''POST'') (asc ''/api/v1/auth/register'') (Frontend.bearer (fe_repr fe) (cl_state w)) (Json_body ?j)"
  have route: "api_resolve env (asc ''POST'') (asc ''/api/v1/auth/register'') = Some (Ep_register, [])"
    using routes by (simp add: routed_def del: asc_Cons)
  have ok: "checked env Ep_register [] (json_body (Json_body ?j)) = Inr ([], registration email username password)"
    unfolding json_body.simps
    by (rule checked_body [OF check _ _ registration_fits [where mail = mail, OF fits]]) (simp_all del: asc_Cons)
  have run: "run_endpoint env ?rq Ep_register None [] (registration email username password) a =
      (a\<lparr>app_users := d\<rparr>, Inr (Json_reply 201 (UserResponse u)))"
    by (simp add: reads users_present [OF db] auth_register_def new put_users_def answer_def del: asc_Cons)
  have "json_or ?j (JObj []) = ?j" by (simp add: json_or_def registration_def)
  moreover have "caller env ?rq Ep_register a = Inr None" by (simp add: caller_def)
  ultimately show ?thesis unfolding post_json_def
    using page_json [OF conn srv refl route _ ok run] by simp
qed

lemma page_signs_in:
  assumes conn: "connected env wr fe" and srv: "cl_server w = (a, n)" and db: "w_tables (app_world a) = Some tb"
    and routes: "routed env {Ep_login}" and check: "validator_ok mail (api_check env)" and fits: "mail email"
    and sign: "login_user (api_auth env) (ck_start (wr_clock wr n)) (app_users a) email password = Inr (u, token)"
  shows "post_json fe (asc ''/api/v1/auth/login'') (JObj (credentials email password)) w =
    (w\<lparr>cl_server := (a, Suc n)\<rparr>, Inr (TokenResponse (token, ae_expire_minutes (api_auth env) * 60)))"
proof -
  let ?j = "JObj (credentials email password)"
  let ?rq = "page_request wr n (asc ''POST'') (asc ''/api/v1/auth/login'') (Frontend.bearer (fe_repr fe) (cl_state w)) (Json_body ?j)"
  have route: "api_resolve env (asc ''POST'') (asc ''/api/v1/auth/login'') = Some (Ep_login, [])"
    using routes by (simp add: routed_def del: asc_Cons)
  have ok: "checked env Ep_login [] (json_body (Json_body ?j)) = Inr ([], credentials email password)"
    unfolding json_body.simps
    by (rule checked_body [OF check _ _ credentials_fit [where mail = mail, OF fits]]) (simp_all del: asc_Cons)
  have run: "run_endpoint env ?rq Ep_login None [] (credentials email password) a =
      (a, Inr (Json_reply 200 (TokenResponse (token, ae_expire_minutes (api_auth env) * 60))))"
    by (simp add: reads users_present [OF db] auth_login_def sign page_request_def answer_def del: asc_Cons)
  have "json_or ?j (JObj []) = ?j" by (simp add: json_or_def credentials_def)
  moreover have "caller env ?rq Ep_login a = Inr None" by (simp add: caller_def)
  ultimately show ?thesis unfolding post_json_def
    using page_json [OF conn srv refl route _ ok run] by simp
qed

lemma page_reads_me:
  assumes conn: "connected env wr fe" and srv: "cl_server w = (a, n)" and db: "w_tables (app_world a) = Some tb"
    and routes: "routed env {Ep_me}" and check: "validator_ok mail (api_check env)"
    and me: "get_current_user (api_auth env) (ck_start (wr_clock wr n)) (Some (app_users a))
        (Frontend.bearer (fe_repr fe) (cl_state w)) = Inr (Some u)"
  shows "get_json fe (asc ''/api/v1/auth/me'') w = (w\<lparr>cl_server := (a, Suc n)\<rparr>, Inr (UserResponse u))"
proof -
  let ?rq = "page_request wr n (asc ''GET'') (asc ''/api/v1/auth/me'') (Frontend.bearer (fe_repr fe) (cl_state w)) No_body"
  have route: "api_resolve env (asc ''GET'') (asc ''/api/v1/auth/me'') = Some (Ep_me, [])"
    using routes by (simp add: routed_def del: asc_Cons)
  have ok: "checked env Ep_me [] (json_body No_body) = Inr ([], [])" by (rule checked_empty [OF check]) simp_all
  have who: "caller env ?rq Ep_me a = Inr (Some u)"
    using me by (simp add: caller_def page_request_def users_present [OF db] del: asc_Cons)
  have "run_endpoint env ?rq Ep_me (Some u) [] [] a = (a, Inr (Json_reply 200 (UserResponse u)))"
    by (simp add: auth_me_def answer_def)
  from page_json [OF conn srv refl route who ok this] show ?thesis by (simp add: get_json_def)
qed

definition new_session :: "int \<Rightarrow> session_db \<Rightarrow> user option \<Rightarrow> pystr \<Rightarrow> chat_session" where
  "new_session now d u title = \<lparr>cs_id = sd_next_session d, cs_user = map_option u_id u, cs_title = title,
     cs_count = 0, cs_created = now, cs_updated = now\<rparr>"

lemma page_opens_session:
  assumes conn: "connected env wr fe" and srv: "cl_server w = (a, n)" and db: "w_tables (app_world a) = Some tb"
    and routes: "routed env {Ep_create_session}" and check: "validator_ok mail (api_check env)"
    and me: "get_current_user (api_auth env) (ck_start (wr_clock wr n)) (Some (app_users a))
        (Frontend.bearer (fe_repr fe) (cl_state w)) = Inr u"
    and s: "s = new_session (ck_start (wr_clock wr n)) (tb_sessions tb) u (asc ''New chat'')"
    and none: "sget (cl_state w) (asc ''chat_session_id'') = JNull"
  shows "ensure_chat_session fe w =
    (sput (asc ''chat_session_id'') (JInt (cs_id s)) (w\<lparr>cl_server := (a\<lparr>app_world := (app_world a)\<lparr>w_tables :=
        Some (tb\<lparr>tb_sessions := (tb_sessions tb)\<lparr>sd_sessions := sd_sessions (tb_sessions tb) @ [s],
           sd_next_session := sd_next_session (tb_sessions tb) + 1\<rparr>\<rparr>)\<rparr>\<rparr>, Suc n)\<rparr>), JInt (cs_id s))"
proof -
  let ?b = "JObj [((asc ''title''), JStr (asc ''New chat''))]"
  let ?rq = "page_request wr n (asc ''POST'') (asc ''/api/v1/sessions'') (Frontend.bearer (fe_repr fe) (cl_state w)) (Json_body ?b)"
  let ?a = "a\<lparr>app_world := (app_world a)\<lparr>w_tables :=
        Some (tb\<lparr>tb_sessions := (tb_sessions tb)\<lparr>sd_sessions := sd_sessions (tb_sessions tb) @ [s],
           sd_next_session := sd_next_session (tb_sessions tb) + 1\<rparr>\<rparr>)\<rparr>\<rparr>"
  have route: "api_resolve env (asc ''POST'') (asc ''/api/v1/sessions'') = Some (Ep_create_session, [])"
    using routes by (simp add: routed_def del: asc_Cons)
  have ok: "checked env Ep_create_session [] (json_body (Json_body ?b)) = Inr ([], [((asc ''title''), JStr (asc ''New chat''))])"
    unfolding json_body.simps by (rule checked_body [OF check _ _ title_fits]) (simp_all del: asc_Cons)
  have who: "caller env ?rq Ep_create_session a = Inr u"
    using me by (simp add: caller_def page_request_def users_present [OF db] del: asc_Cons)
  have run: "run_endpoint env ?rq Ep_create_session u [] [((asc ''title''), JStr (asc ''New chat''))] a =
      (?a, Inr (Json_reply 201 (JObj (session_fields (api_date env) s))))"
    by (simp add: reads sessions_of_def db create_session_def Let_def put_sessions_def map_tables_def answer_def s
        new_session_def page_request_def del: asc_Cons)
  have "json_or ?b (JObj []) = ?b" by (simp add: json_or_def)
  then have post: "post_json fe (asc ''/api/v1/sessions'') ?b w = (w\<lparr>cl_server := (?a, Suc n)\<rparr>, Inr (JObj (session_fields (api_date env) s)))"
    unfolding post_json_def using page_json [OF conn srv refl route who ok run] by simp
  have "json_item (JObj (session_fields (api_date env) s)) (asc ''id'') = Inr (JInt (cs_id s))"
    by (simp add: session_fields_def del: asc_Cons)
  then show ?thesis unfolding ensure_chat_session_def post sbind_def by (simp add: none del: asc_Cons)
qed

section \<open>Registration\<close>

lemma state_keys:
  "(asc ''access_token'') \<noteq> (asc ''token_expires_in'')" "(asc ''access_token'') \<noteq> (asc ''current_user'')" "(asc ''access_token'') \<noteq> (asc ''messages'')"
  "(asc ''access_token'') \<noteq> (asc ''chat_session_id'')" "(asc ''current_user'') \<noteq> (asc ''messages'')" "(asc ''current_user'') \<noteq> (asc ''chat_session_id'')"
  "(asc ''messages'') \<noteq> (asc ''chat_session_id'')" "(asc ''token_expires_in'') \<noteq> (asc ''access_token'')" "(asc ''current_user'') \<noteq> (asc ''access_token'')"
  "(asc ''messages'') \<noteq> (asc ''access_token'')" "(asc ''chat_session_id'') \<noteq> (asc ''access_token'')"
  by code_simp+

lemma page_bearer:
  "s (asc ''access_token'') = Some (JStr token) \<Longrightarrow> token \<noteq> [] \<Longrightarrow> Frontend.bearer repr s = Some (Accounts.bearer token)"
  by (simp add: Frontend.bearer_def Accounts.bearer_def sget_def Let_def del: asc_Cons)

lemma bearer_token_nonempty: "get_current_user env now db (Some (Accounts.bearer [])) \<noteq> Inr (Some u)"
proof -
  have "takeWhile (\<lambda>c. c \<noteq> 32) (Accounts.bearer []) = (asc ''Bearer'')" "drop (length (asc ''Bearer'') + 1) (Accounts.bearer []) = []"
    by (simp_all add: Accounts.bearer_def)
  then show ?thesis by (simp add: get_current_user_def Let_def Accounts.bearer_def)
qed

text \<open>The application after a session was added.\<close>

definition with_session :: "chat_session \<Rightarrow> tables \<Rightarrow> 'r app \<Rightarrow> 'r app" where
  "with_session s tb a = a\<lparr>app_world := (app_world a)\<lparr>w_tables := Some (tb\<lparr>tb_sessions := (tb_sessions tb)\<lparr>
     sd_sessions := sd_sessions (tb_sessions tb) @ [s], sd_next_session := sd_next_session (tb_sessions tb) + 1\<rparr>\<rparr>)\<rparr>\<rparr>"

text \<open>What the page holds once user \<open>u\<close> is in, with the token and the session.\<close>

definition signed_in :: "user \<Rightarrow> pystr \<Rightarrow> int \<Rightarrow> session \<Rightarrow> bool" where
  "signed_in u token i s \<longleftrightarrow> s (asc ''access_token'') = Some (JStr token) \<and> s (asc ''current_user'') = Some (UserResponse u) \<and>
     s (asc ''messages'') = Some (JArr []) \<and> s (asc ''chat_session_id'') = Some (JInt i)"

lemma page_logs_in:
  assumes check: "validator_ok mail (api_check env)" and mail: "mail email"
    and conn: "connected env wr fe" "routed env {Ep_login, Ep_me, Ep_create_session}"
    and srv: "cl_server w = (a, n)" "w_tables (app_world a) = Some tb"
    and sign: "login_user (api_auth env) (ck_start (wr_clock wr n)) (app_users a) email password = Inr (u, token)"
    and current: "\<And>now. now < expiry \<Longrightarrow>
        get_current_user (api_auth env) now (Some (app_users a)) (Some (Accounts.bearer token)) = Inr (Some u)"
    and time: "ck_start (wr_clock wr (n + 1)) < expiry" "ck_start (wr_clock wr (n + 2)) < expiry"
  shows "\<exists>w' s. login fe email password w = (w', Inr ()) \<and> cl_server w' = (with_session s tb a, n + 3) \<and>
     signed_in u token (cs_id s) (cl_state w') \<and> token \<noteq> [] \<and>
     s = new_session (ck_start (wr_clock wr (n + 2))) (tb_sessions tb) (Some u) (asc ''New chat'')"
proof -
  let ?auth = "api_auth env"
  have ne: "token \<noteq> []" using current [OF time(1)] bearer_token_nonempty by auto
  have routes: "routed env {Ep_login}" "routed env {Ep_me}" "routed env {Ep_create_session}"
    using conn(2) by (simp_all add: routed_def del: declared.simps)
  define w2 where "w2 = w\<lparr>cl_server := (a, Suc n)\<rparr>"
  let ?tok = "TokenResponse (token, ae_expire_minutes ?auth * 60)"
  have step2: "post_json fe (asc ''/api/v1/auth/login'') (JObj (credentials email password)) w = (w2, Inr ?tok)"
    unfolding w2_def by (rule page_signs_in [OF conn(1) srv routes(1) check mail sign])
  define w3 where "w3 = sput (asc ''token_expires_in'') (JInt (ae_expire_minutes ?auth * 60)) (sput (asc ''access_token'') (JStr token) w2)"
  have srv3: "cl_server w3 = (a, Suc n)" by (simp add: w3_def w2_def sput_def)
  have tok3: "cl_state w3 (asc ''access_token'') = Some (JStr token)"
    using state_keys by (simp add: w3_def del: asc_Cons)
  define w4 where "w4 = w3\<lparr>cl_server := (a, Suc (Suc n))\<rparr>"
  have step3: "get_json fe (asc ''/api/v1/auth/me'') w3 = (w4, Inr (UserResponse u))"
    using page_reads_me [OF conn(1) srv3 srv(2) routes(2) check, of u] page_bearer [of "cl_state w3", OF tok3 ne] current [OF time(1)]
    by (simp add: w4_def del: asc_Cons)
  define w5 where "w5 = sput (asc ''chat_session_id'') JNull (sput (asc ''messages'') (JArr []) (sput (asc ''current_user'') (UserResponse u) w4))"
  have tok5: "cl_state w5 (asc ''access_token'') = Some (JStr token)" "sget (cl_state w5) (asc ''chat_session_id'') = JNull"
      "cl_server w5 = (a, Suc (Suc n))"
    using state_keys tok3 by (simp_all add: w5_def w4_def sput_def sget_def del: asc_Cons)
  let ?s = "new_session (ck_start (wr_clock wr (n + 2))) (tb_sessions tb) (Some u) (asc ''New chat'')"
  define w6 where "w6 = sput (asc ''chat_session_id'') (JInt (cs_id ?s)) (w5\<lparr>cl_server := (with_session ?s tb a, n + 3)\<rparr>)"
  have step4: "fst (ensure_chat_session fe w5) = w6"
    using page_opens_session [OF conn(1) tok5(3) srv(2) routes(3) check, of "Some u" ?s] tok5(2)
      page_bearer [of "cl_state w5", OF tok5(1) ne] current [OF time(2)]
    by (simp add: w6_def with_session_def numeral_eq_Suc del: asc_Cons)
  have items: "json_item ?tok (asc ''access_token'') = Inr (JStr token)"
      "json_get_or ?tok (asc ''expires_in'') (JInt 0) = Inr (JInt (ae_expire_minutes ?auth * 60))"
    unfolding TokenResponse_def by code_simp+
  have "login fe email password w = (w6, Inr ())"
    unfolding login_def credentials_def [symmetric] sbind_def prod.case sum.case
      step2 items Let_def w3_def [symmetric] step3 w5_def [symmetric] step4 ..
  moreover have "signed_in u token (cs_id ?s) (cl_state w6)" "cl_server w6 = (with_session ?s tb a, n + 3)"
    using state_keys tok5(1) by (simp_all add: signed_in_def w6_def w5_def sput_def del: asc_Cons)
  ultimately show ?thesis using ne by blast
qed

text \<open>
  C6: registration works from the page to the database. With a new address and a name and a
  password of admissible lengths, \<open>register\<close> on the page sends four requests and ends without an error; then
  the account exists with the ordinary role, the page shows it as the current user and holds a token by which
  every request until its expiry is one of that account, and an open, empty session of the new account is the
  page's session.
\<close>

theorem page_registers:
  assumes libs: "bcrypt_ok (api_auth env)" "jwt_ok (api_auth env)" "validator_ok mail (api_check env)"
    and conn: "connected env wr fe" "routed env {Ep_register, Ep_login, Ep_me, Ep_create_session}"
    and srv: "cl_server w = (a, n)" "w_tables (app_world a) = Some tb" "app_ok a"
    and new: "email \<notin> u_email ` set (ud_users (app_users a))" "mail email"
    and fits: "2 \<le> length username" "length username \<le> 50" "6 \<le> length password" "length password \<le> 100"
    and time: "expiry = ck_start (wr_clock wr (n + 1)) + 60 * ae_expire_minutes (api_auth env)"
        "ck_start (wr_clock wr (n + 2)) < expiry" "ck_start (wr_clock wr (n + 3)) < expiry"
  shows "\<exists>w' a' u s. register fe email username password w = (w', Inr ()) \<and> cl_server w' = (a', n + 4) \<and>
     u \<in> set (ud_users (app_users a')) \<and> u_email u = email \<and> u_username u = username \<and> u_role u = Role_user \<and>
     cl_state w' (asc ''current_user'') = Some (UserResponse u) \<and>
     (\<forall>now < expiry. get_current_user (api_auth env) now (Some (app_users a'))
        (Frontend.bearer (fe_repr fe) (cl_state w')) = Inr (Some u)) \<and>
     sessions_of a' = Some ((tb_sessions tb)\<lparr>sd_sessions := sd_sessions (tb_sessions tb) @ [s],
        sd_next_session := sd_next_session (tb_sessions tb) + 1\<rparr>) \<and> cs_user s = Some (u_id u) \<and>
     cl_state w' (asc ''chat_session_id'') = Some (JInt (cs_id s)) \<and> cl_state w' (asc ''messages'') = Some (JArr [])"
proof -
  let ?auth = "api_auth env" and ?users = "app_users a"
  obtain d r where run: "register_user ?auth ?users email username password = (d, r)"
    by (cases "register_user ?auth ?users email username password")
  obtain u where u: "r = Inr u" "u_email u = email" "u_username u = username" "u_role u = Role_user" "u \<in> set (ud_users d)"
    using run
  proof (cases rule: register_user_cases)
    case (taken v)
    then show ?thesis using new(1) user_by_email_None [of ?users email] by simp
  next
    case (fresh v)
    then show ?thesis using that by auto
  qed
  have users: "users_ok ?users" using srv(3) by (simp add: app_ok_def)
  have users': "users_ok d" using register_user_keeps_table [OF users run] by blast
  note login = login_roundtrip [OF users libs(1,2) run [unfolded u(1)] users' subset_refl]
  define t where "t = ck_start (wr_clock wr (n + 1))"
  obtain token where token: "login_user ?auth t d email password = Inr (u, token)"
    using login [where now = t and now' = "ck_start (wr_clock wr (n + 2))"] time by (auto simp: t_def)
  have current: "get_current_user ?auth now (Some d) (Some (Accounts.bearer token)) = Inr (Some u)" if "now < expiry" for now
    using login [where now = t and now' = now] that token time(1) by (auto simp: t_def)
  have routes: "routed env {Ep_register}" "routed env {Ep_login, Ep_me, Ep_create_session}"
    using conn(2) by (simp_all add: routed_def del: declared.simps)
  let ?a1 = "a\<lparr>app_users := d\<rparr>" and ?w1 = "w\<lparr>cl_server := (a\<lparr>app_users := d\<rparr>, Suc n)\<rparr>"
  have up: "post_json fe (asc ''/api/v1/auth/register'') (JObj (registration email username password)) w = (?w1, Inr (UserResponse u))"
    by (rule page_signs_up [OF conn(1) srv(1,2) routes(1) libs(3) fits new(2) run [unfolded u(1)]])
  have "\<exists>w' s. login fe email password ?w1 = (w', Inr ()) \<and> cl_server w' = (with_session s tb ?a1, Suc n + 3) \<and>
     signed_in u token (cs_id s) (cl_state w') \<and> token \<noteq> [] \<and>
     s = new_session (ck_start (wr_clock wr (Suc n + 2))) (tb_sessions tb) (Some u) (asc ''New chat'')"
    by (rule page_logs_in [OF libs(3) new(2) conn(1) routes(2), where expiry = expiry])
       (use srv(2) token current time in \<open>simp_all add: t_def numeral_eq_Suc\<close>)
  then obtain w' s where sign: "login fe email password ?w1 = (w', Inr ())" "cl_server w' = (with_session s tb ?a1, n + 4)"
      "signed_in u token (cs_id s) (cl_state w')" "token \<noteq> []" "cs_user s = Some (u_id u)"
    by (auto simp: new_session_def)
  have reg: "register fe email username password w = (w', Inr ())"
    unfolding register_def registration_def [symmetric] up sbind_def prod.case sum.case by (rule sign(1))
  have "cl_state w' (asc ''access_token'') = Some (JStr token)" using sign(3) by (simp add: signed_in_def del: asc_Cons)
  from page_bearer [of "cl_state w'", OF this sign(4)] reg sign u current show ?thesis
    by (intro exI [of _ w'] exI [of _ "with_session s tb ?a1"] exI [of _ u] exI [of _ s])
       (simp add: with_session_def sessions_of_def signed_in_def del: asc_Cons)
qed

section \<open>A question\<close>

lemma asks_memories:
  assumes conn: "connected env wr fe" and srv: "cl_server w = (a, n)"
    and route: "api_resolve env (asc ''GET'') (asc ''/api/v1/memories?status=active'') = Some (Ep_get_memories, raw)"
  shows "cl_server (ask_memories fe w) = (a, Suc n)"
proof -
  let ?rq = "page_request wr n (asc ''GET'') (asc ''/api/v1/memories?status=active'') (Frontend.bearer (fe_repr fe) (cl_state w)) No_body"
  obtain a' out where h: "handle env ?rq Ep_get_memories raw a = (a', out)" by (cases "handle env ?rq Ep_get_memories raw a")
  have "a' = a" using h by (auto simp: handle_def request_session_def split: sum.splits prod.splits)
  then have "serve env (wr_fresh wr n) ?rq a = (a, respond (request_id (wr_fresh wr n) ?rq) out)"
    using h by (simp add: serve_def page_request_def route del: asc_Cons)
  then show ?thesis using conn srv
    by (simp add: ask_memories_def get_json_def request_json_def call_def connected_def http_send_def sbind_def del: asc_Cons)
qed

definition asked :: "pystr \<Rightarrow> int \<Rightarrow> fields" where
  "asked question i = [((asc ''question''), JStr question), ((asc ''session_id''), JInt i)]"

lemma asked_fits:
  "fill ChatRequest (asked question i) = Some (asked question i)" "conforms ChatRequest (asked question i)"
  "mails_ok mail ChatRequest (asked question i)" "str_at (asked question i) (asc ''question'') = question"
  "int_opt_at (asked question i) (asc ''session_id'') = Some i"
proof -
  have "(asc ''question'') \<noteq> (asc ''session_id'')" "(asc ''session_id'') \<noteq> (asc ''question'')" by code_simp+
  then show "fill ChatRequest (asked question i) = Some (asked question i)" "conforms ChatRequest (asked question i)"
    "mails_ok mail ChatRequest (asked question i)" "str_at (asked question i) (asc ''question'') = question"
    "int_opt_at (asked question i) (asc ''session_id'') = Some i"
    by (simp_all add: ChatRequest_def asked_def required_def optional_def conforms_def field_ok_def in_lengths_def
        str_at_def int_opt_at_def del: asc_Cons)
qed

lemma page_streams:
  assumes conn: "connected env wr fe" and srv: "cl_server w = (a, n)" and db: "w_tables (app_world a) = Some tb"
    and routes: "routed env {Ep_chat_stream}" and check: "validator_ok mail (api_check env)"
    and me: "get_current_user (api_auth env) (ck_start (wr_clock wr n)) (Some (app_users a))
        (Frontend.bearer (fe_repr fe) (cl_state w)) = Inr u"
    and run: "chat_stream (api_chat env) (api_redis env) (wr_clock wr n) question (Some i) u (app_world a) = (sw, evs)"
  shows "\<exists>response. call fe (asc ''POST'') (asc ''/chat/stream'') (Json_body (JObj (asked question i))) w =
      (w\<lparr>cl_server := (a\<lparr>app_world := sw\<rparr>, Suc n)\<rparr>, Inr response) \<and>
    ht_status response = 200 \<and> ht_lines response = api_wire env evs"
proof -
  let ?b = "Json_body (JObj (asked question i))"
  let ?rq = "page_request wr n (asc ''POST'') (asc ''/chat/stream'') (Frontend.bearer (fe_repr fe) (cl_state w)) ?b"
  have rq: "rq_verb ?rq = (asc ''POST'')" "rq_target ?rq = (asc ''/chat/stream'')" "rq_body ?rq = json_body ?b" "rq_clock ?rq = wr_clock wr n"
    by (simp_all add: page_request_def)
  have route: "api_resolve env (asc ''POST'') (asc ''/chat/stream'') = Some (Ep_chat_stream, [])"
    using routes by (simp add: routed_def del: asc_Cons)
  have ok: "checked env Ep_chat_stream [] (json_body ?b) = Inr ([], asked question i)"
    unfolding json_body.simps by (rule checked_body [OF check _ _ asked_fits(1-3)]) (simp_all del: asc_Cons)
  have who: "caller env ?rq Ep_chat_stream a = Inr u"
    using me by (simp add: caller_def page_request_def users_present [OF db] del: asc_Cons)
  have "run_endpoint env ?rq Ep_chat_stream u [] (asked question i) a = (a\<lparr>app_world := sw\<rparr>, Inr (Event_reply evs))"
    by (simp add: asked_fits rq run del: asc_Cons)
  then have "handle env ?rq Ep_chat_stream [] a = (a\<lparr>app_world := sw\<rparr>, Replied (Event_reply evs))"
    by (simp add: handle_def who rq ok [unfolded json_body.simps] request_session_def del: asc_Cons run_endpoint.simps)
  then have "serve env (wr_fresh wr n) ?rq a = (a\<lparr>app_world := sw\<rparr>, respond (request_id (wr_fresh wr n) ?rq) (Replied (Event_reply evs)))"
    by (simp add: serve_def rq route del: asc_Cons)
  then show ?thesis using conn srv
    by (simp add: call_def connected_def http_send_def deliver_def del: asc_Cons)
qed

lemma sput_server [simp]: "cl_server (sput k v w) = cl_server w"
  by (simp add: sput_def)

lemma ask_question_server:
  assumes idle: "\<And>v. fst (cl_server (ask_memories fe v)) = fst (cl_server v)"
    and msgs: "cl_state w (asc ''messages'') = Some (JArr ms)"
    and stream: "stream_chat fe question (sget (cl_state w) (asc ''chat_session_id'')) (opened_turn fe question w ms) = (w2, evs, x)"
    and run: "ask_question fe question w = (w', r)"
  shows "fst (cl_server w') = fst (cl_server w2)"
proof -
  have opened: "append_message (user_message question) (ask_memories fe w) = (opened_turn fe question w ms, Inr ())"
    using append_message_list [of "ask_memories fe w" ms] msgs by (simp add: opened_turn_def del: asc_Cons)
  have sid: "sget (cl_state (opened_turn fe question w ms)) (asc ''chat_session_id'') = sget (cl_state w) (asc ''chat_session_id'')"
    using session_keys(1) by (simp add: opened_turn_def del: asc_Cons)
  have app: "append_message m v = (v', y) \<Longrightarrow> cl_server v' = cl_server v" for m v v' y
    by (auto simp: append_message_def sbind_def split: sum.splits)
  have fin: "fst (cl_server (fst (finish_turn fe v w2))) = fst (cl_server w2)" for v
    unfolding finish_turn_def
    by (auto simp: sbind_def Let_def idle dest!: app simp del: asc_Cons source_lines.simps split: sum.split prod.split)
  show ?thesis
    using run fin unfolding ask_question_def user_message_def [symmetric] opened
    by (auto simp: sbind_def sid stream simp del: asc_Cons split: sum.splits prod.splits) (metis fst_conv)+
qed

text \<open>
  C7: a question works from the page to the graph and back, on three conditions: the page has a
  session other than 0, the lines the page reads are those of the events (no payload holds a boundary such as
  U+2028 at which \<open>iter_lines\<close> splits, and each is decoded to what was sent), and the sources of the answer can be rendered. Then the
  application is left exactly as the chat service's run for that user and session leaves it. The page
  shows the answer of that run with its sources and keeps both messages. When the graph raised, it shows
  the exception and keeps the question only; and so it does with the database's exception when
  the page's session no longer exists in the tables and a memory was to be stored: the application is
  as before the question then. (Without such a memory the answer to a question in a deleted session is shown, and
  the run leaves the tables as before.)
\<close>

theorem page_answers:
  assumes conn: "connected env wr fe" "validator_ok mail (api_check env)" "routed env {Ep_chat_stream}"
      "api_resolve env (asc ''GET'') (asc ''/api/v1/memories?status=active'') = Some (Ep_get_memories, raw)"
    and srv: "cl_server w = (a, n)" "w_tables (app_world a) = Some tb"
    and page: "cl_state w (asc ''messages'') = Some (JArr ms)" "cl_state w (asc ''chat_session_id'') = Some (JInt i)" "i \<noteq> 0"
    and me: "get_current_user (api_auth env) (ck_start (wr_clock wr (n + 1))) (Some (app_users a))
        (Frontend.bearer (fe_repr fe) (cl_state w)) = Inr u"
    and chat: "run_chat (api_chat env) (api_redis env) (wr_clock wr (n + 1)) question (Some i) u (app_world a) = (sw, res)"
        "chat_stream (api_chat env) (api_redis env) (wr_clock wr (n + 1)) question (Some i) u (app_world a) = (sw', evs)"
    and wire: "map (strip_by (\<lambda>c. c = 13)) (api_wire env evs) = concat (map (frame_lines dumps) frames)"
        "frame_events frames = evs" "\<forall>ev\<in>set evs. sendable dumps (fe_loads fe) ev"
    and render: "\<And>r. res = Inr (response_json r) \<Longrightarrow> \<exists>lines. source_lines (fe_repr fe) (JArr (rs_sources r)) = Inr lines"
  shows "\<exists>w'. fst (cl_server w') = a\<lparr>app_world := sw\<rparr> \<and>
     ((\<exists>r lines. res = Inr (response_json r) \<and>
        (if rs_sources r = [] then lines = [] else source_lines (fe_repr fe) (JArr (rs_sources r)) = Inr lines) \<and>
        ask_question fe question w = (w', Inr (Answer (json_or (JStr (rs_answer r)) (JStr [0x6ca1,
            0x6709, 0x751f, 0x6210, 0x5185, 0x5bb9, 0x3002])) lines)) \<and>
        cl_state w' (asc ''messages'') = Some (JArr (ms @ [user_message question, answer_message r]))) \<or>
      (\<exists>e. (res = Inr (response_json (failure_response e)) \<or>
          res = Inl e \<and> e = pending_rollback \<and> session_missing (Some i) (app_world a) \<and> w_tables sw = w_tables (app_world a)) \<and>
        ask_question fe question w = (w', Inr (Request_failed ([0x8bf7, 0x6c42, 0x5931, 0x8d25,
            0xff1a] @ exn_str e))) \<and>
        cl_state w' (asc ''messages'') = Some (JArr (ms @ [user_message question]))))"
proof -
  let ?w1 = "opened_turn fe question w ms" and ?sid = "sget (cl_state w) (asc ''chat_session_id'')"
  have sid: "?sid = JInt i" by (simp add: sget_def page(2) del: asc_Cons)
  have w1: "cl_server ?w1 = (a, n + 1)" using asks_memories [OF conn(1) srv(1) conn(4)] by (simp add: opened_turn_def)
  have miss: "cache_lookup (api_chat env) (api_redis env) (ck_start (wr_clock wr (n + 1))) question (Some i) (app_world a) = None"
    using srv(2) by (auto simp: cache_lookup_def personal_def split: option.split)
  have "Frontend.bearer (fe_repr fe) (cl_state ?w1) = Frontend.bearer (fe_repr fe) (cl_state w)"
    using state_keys(10) by (simp add: Frontend.bearer_def opened_turn_def sget_def Let_def del: asc_Cons)
  then obtain response where sent: "call fe (asc ''POST'') (asc ''/chat/stream'') (Json_body (JObj (asked question i))) ?w1 =
      (?w1\<lparr>cl_server := (a\<lparr>app_world := sw'\<rparr>, Suc (n + 1))\<rparr>, Inr response)"
      "ht_status response = 200" "ht_lines response = api_wire env evs"
    using page_streams [OF conn(1) w1 srv(2) conn(3,2) _ chat(2)] me by auto
  have zero: "Some i \<noteq> Some 0" using page(3) by simp
  have same: "sw' = sw" and lost: "res = Inl e \<Longrightarrow> w_tables sw = w_tables (app_world a)" for e
    by (rule stream_run [OF zero miss chat]; simp)+
  have idle: "fst (cl_server (ask_memories fe v)) = fst (cl_server v)" for v
    using asks_memories [OF conn(1) _ conn(4), of v] by (cases "cl_server v") simp
  obtain evs' x where stream: "stream_chat fe question ?sid ?w1 = (?w1\<lparr>cl_server := (a\<lparr>app_world := sw'\<rparr>, Suc (n + 1))\<rparr>, evs', x)"
    using sent(1,2) unfolding stream_chat_def sid asked_def [symmetric]
    by (cases "sse_lines (fe_loads fe) (asc ''message'') [] (ht_lines response)") (simp del: asc_Cons)
  have server: "fst (cl_server w') = a\<lparr>app_world := sw\<rparr>" if "ask_question fe question w = (w', r)" for w' r
    using ask_question_server [OF idle page(1) stream that] by (simp add: same)
  have low: "ht_status response < 400" using sent(2) by simp
  have wire1: "map (strip_by (\<lambda>c. c = 13)) (ht_lines response) = concat (map (frame_lines dumps) frames)"
    using wire(1) sent(3) by simp
  from chat_turn_shows_response [where env = fe, OF page(1) sent(1) [folded sid, unfolded asked_def [of question i], folded sid] low wire1 wire(2,3) zero miss chat render]
  show ?thesis using server lost by blast
qed

section \<open>An instance\<close>

definition demo_wires :: wires where
  "demo_wires = \<lparr>wr_base = (asc ''http://127.0.0.1:8000''), wr_fresh = show_nat, wr_clock = (\<lambda>_. demo_clock), wr_client = None\<rparr>"

definition demo_page :: "(server app \<times> nat) frontend" where
  "demo_page = \<lparr>fe_url = wr_base demo_wires, fe_send = http_send demo_api demo_wires, fe_repr = (\<lambda>_. []),
     fe_loads = (\<lambda>_. Inr JNull), fe_isoformat = (\<lambda>_. None)\<rparr>"

definition demo_visitor :: "(server app \<times> nat) client" where
  "demo_visitor = \<lparr>cl_state = init_state Map.empty, cl_server = (demo_app, 0)\<rparr>"

lemma demo_connected: "connected demo_api demo_wires demo_page"
  by (simp add: connected_def demo_page_def)

lemma demo_routed: "routed demo_api {Ep_register, Ep_login, Ep_me, Ep_create_session}"
proof -
  have "api_resolve demo_api (asc ''POST'') (asc ''/api/v1/auth/register'') = Some (Ep_register, [])"
    "api_resolve demo_api (asc ''POST'') (asc ''/api/v1/auth/login'') = Some (Ep_login, [])"
    "api_resolve demo_api (asc ''GET'') (asc ''/api/v1/auth/me'') = Some (Ep_me, [])"
    "api_resolve demo_api (asc ''POST'') (asc ''/api/v1/sessions'') = Some (Ep_create_session, [])" by code_simp+
  then show ?thesis by (simp add: routed_def del: asc_Cons)
qed

theorem page_registers_witness:
  "\<exists>w' u. register demo_page (asc ''a@x.org'') (asc ''ann'') (asc ''123456'') demo_visitor = (w', Inr ()) \<and>
     u \<in> set (ud_users (app_users (fst (cl_server w')))) \<and> u_email u = (asc ''a@x.org'') \<and>
     cl_state w' (asc ''current_user'') = Some (UserResponse u)"
proof -
  have new: "(asc ''a@x.org'') \<notin> u_email ` set (ud_users (app_users demo_app))"
    by (simp add: demo_app_def demo_users_def demo_admin_def)
  have check: "validator_ok (\<lambda>_. True) (api_check demo_api)" by (simp add: demo_api_def strict_check_ok)
  have libs: "bcrypt_ok (api_auth demo_api)" "jwt_ok (api_auth demo_api)" by (simp_all add: demo_api_def demo_auth_ok)
  have srv: "cl_server demo_visitor = (demo_app, 0)" by (simp add: demo_visitor_def)
  have db: "w_tables (app_world demo_app) = Some \<lparr>tb_sessions = demo_sessions, tb_memories = empty_memories\<rparr>"
    by (simp add: demo_app_def)
  have time: "ck_start (wr_clock demo_wires i) < ck_start (wr_clock demo_wires (0 + 1)) + 60 * ae_expire_minutes (api_auth demo_api)" for i
    by (simp add: demo_wires_def demo_api_def demo_auth_def)
  have lens: "2 \<le> length (asc ''ann'')" "length (asc ''ann'') \<le> 50" "6 \<le> length (asc ''123456'')" "length (asc ''123456'') \<le> 100" by simp_all
  show ?thesis
    using page_registers [OF libs check demo_connected demo_routed srv db demo_app_ok new TrueI lens refl time time]
    by (auto simp del: asc_Cons)
qed

text \<open>One session without turns, and no memories.\<close>

definition new_sessions :: session_db where
  "new_sessions = \<lparr>sd_sessions = [\<lparr>cs_id = 1, cs_user = None, cs_title = (asc ''t''), cs_count = 0, cs_created = 0, cs_updated = 0\<rparr>],
     sd_turns = [], sd_next_session = 2, sd_next_turn = 1\<rparr>"

definition empty_app :: "server app" where
  "empty_app = \<lparr>app_users = demo_users, app_world = \<lparr>w_redis = Map.empty,
     w_tables = Some \<lparr>tb_sessions = new_sessions, tb_memories = empty_memories\<rparr>\<rparr>\<rparr>"

definition streaming_api :: "(json \<Rightarrow> pystr) \<Rightarrow> server api_env" where
  "streaming_api dumps = demo_api\<lparr>api_wire := (\<lambda>evs. concat (map (\<lambda>ev. frame_lines dumps (Event_frame ev)) evs))\<rparr>"

definition asking_page :: "(json \<Rightarrow> pystr) \<Rightarrow> (pystr \<Rightarrow> json result) \<Rightarrow> (server app \<times> nat) frontend" where
  "asking_page dumps loads = demo_page\<lparr>fe_send := http_send (streaming_api dumps) demo_wires, fe_loads := loads\<rparr>"

definition asking_visitor :: "(server app \<times> nat) client" where
  "asking_visitor = \<lparr>cl_state = (init_state Map.empty) ((asc ''chat_session_id'') \<mapsto> JInt 1), cl_server = (empty_app, 0)\<rparr>"

lemma asking_run:
  "\<exists>sw. run_chat demo_chat (Some spec_redis) demo_clock (asc ''hi'') (Some 1) None (app_world empty_app) =
     (sw, Inr (response_json demo_response))"
proof -
  obtain n st where inv: "crag_invoke ok_graph (asc ''hi'') [] [] = (n, Inr st)" and st: "demo_response = response_of 5 st"
    by (rule demo_answer)
  obtain w1 where ctx: "chat_context demo_chat 100 True (Some 1) None (app_world empty_app) = (w1, [], [])"
    by (simp add: chat_context_def empty_app_def format_history_context_def turns_of_def new_sessions_def
        format_memory_context_def list_memories_def empty_memories_def newest_first_def Let_def)
  have miss: "cache_lookup demo_chat (Some spec_redis) 100 (asc ''hi'') (Some 1) (app_world empty_app) = None"
    by (simp add: cache_lookup_def personal_def empty_app_def)
  have graph: "che_graph demo_chat = ok_graph" by (simp add: demo_chat_def)
  let ?w2 = "cache_store demo_chat (Some spec_redis) 105 (asc ''hi'') (Some 1) (response_of 5 st) w1"
  obtain sw rec where run: "record_turn demo_chat 105 n (asc ''hi'') (Some 1) None st (response_of 5 st)
      (w_tables (app_world empty_app)) ?w2 = (sw, rec)" by (rule prod.exhaust)
  have "\<not> session_missing (Some 1) (app_world empty_app)"
    by (simp add: session_missing_def empty_app_def new_sessions_def session_of_def)
  then have "\<not> session_missing (Some 1) ?w2"
    using session_missing_context [OF ctx] by (simp add: session_missing_def cache_store_tables del: asc_Cons)
  with run have "rec = Inr ()" by (auto elim: record_turn_cases)
  then show ?thesis using ctx miss inv run
    by (simp add: run_chat_def demo_clock_def graph st Let_def del: asc_Cons)
qed

theorem page_answers_witness:
  "\<exists>fe w'. ask_question fe (asc ''hi'') asking_visitor = (w', Inr (Answer (JStr (asc ''ok'')) [])) \<and>
     cl_state w' (asc ''messages'') = Some (JArr [user_message (asc ''hi''), answer_message demo_response])"
proof -
  obtain sw where run: "run_chat demo_chat (Some spec_redis) demo_clock (asc ''hi'') (Some 1) None (app_world empty_app) =
      (sw, Inr (response_json demo_response))" using asking_run by blast
  obtain sw' evs where s: "chat_stream demo_chat (Some spec_redis) demo_clock (asc ''hi'') (Some 1) None (app_world empty_app) = (sw', evs)"
    by (cases "chat_stream demo_chat (Some spec_redis) demo_clock (asc ''hi'') (Some 1) None (app_world empty_app)")
  let ?js = "map (\<lambda>ev. case ev of Sse n j \<Rightarrow> j) evs"
  let ?api = "streaming_api (unary ?js)" and ?fe = "asking_page (unary ?js) (of_unary ?js)"
  have api: "api_auth ?api = demo_auth" "api_chat ?api = demo_chat" "api_redis ?api = Some spec_redis"
      "api_resolve ?api = plain_router" "api_check ?api = strict_check (\<lambda>_. True)"
    by (simp_all add: streaming_api_def demo_api_def)
  have clk: "wr_clock demo_wires (0 + 1) = demo_clock" by (simp add: demo_wires_def)
  note run' = run [folded api(2,3) clk] and s' = s [folded api(2,3) clk]
  have ok: "\<forall>ev\<in>set evs. sendable (unary ?js) (fe_loads ?fe) ev"
  proof
    fix ev assume ev: "ev \<in> set evs"
    obtain n j where nj: "ev = Sse n j" by (rule sse.exhaust)
    have "j \<in> set ?js" using ev nj by force
    with stream_names [OF s, of n j] ev nj show "sendable (unary ?js) (fe_loads ?fe) ev"
      by (simp add: asking_page_def unary_sendable del: asc_Cons)
  qed
  have conn: "connected ?api demo_wires ?fe" by (simp add: connected_def asking_page_def demo_page_def)
  have check: "validator_ok (\<lambda>_. True) (api_check ?api)" by (simp add: api strict_check_ok)
  have r1: "plain_router (asc ''POST'') (asc ''/chat/stream'') = Some (Ep_chat_stream, [])" by code_simp
  have r2: "api_resolve ?api (asc ''GET'') (asc ''/api/v1/memories?status=active'') = Some (Ep_get_memories, [])"
    unfolding api by code_simp
  have routes: "routed ?api {Ep_chat_stream}" using r1 by (simp add: routed_def api del: asc_Cons)
  have srv: "cl_server asking_visitor = (empty_app, 0)" by (simp add: asking_visitor_def)
  have db: "w_tables (app_world empty_app) = Some \<lparr>tb_sessions = new_sessions, tb_memories = empty_memories\<rparr>"
    by (simp add: empty_app_def)
  have msgs: "cl_state asking_visitor (asc ''messages'') = Some (JArr [])"
    by (simp add: asking_visitor_def) code_simp
  have sid: "cl_state asking_visitor (asc ''chat_session_id'') = Some (JInt 1)" by (simp add: asking_visitor_def del: asc_Cons)
  have "sget (cl_state asking_visitor) (asc ''access_token'') = JNull" unfolding asking_visitor_def by code_simp
  then have me: "get_current_user (api_auth ?api) (ck_start (wr_clock demo_wires (0 + 1))) (Some (app_users empty_app))
        (Frontend.bearer (fe_repr ?fe) (cl_state asking_visitor)) = Inr None"
    by (simp add: api Frontend.bearer_def Let_def get_current_user_def demo_auth_def del: asc_Cons)
  have fe: "frame_events (map Event_frame evs') = evs'" for evs' by (induction evs') simp_all
  have wire: "map (strip_by (\<lambda>c. c = 13)) (api_wire ?api evs) = concat (map (frame_lines (unary ?js)) (map Event_frame evs))"
    using frames_stripped [OF ok] by (simp add: streaming_api_def comp_def)
  obtain n st where inv: "crag_invoke ok_graph (asc ''hi'') [] [] = (n, Inr st)" and st: "demo_response = response_of 5 st"
    by (rule demo_answer)
  have "choose_route (asc ''hi'') = Model" by code_simp
  then have none: "rs_sources demo_response = []"
    using crag_invoke_inv [of ok_graph "(asc ''hi'')" "[]" "[]"] unfolding inv
    by (auto simp: outcome_def st response_of_def ok_graph_def demo_graph_env_def simp del: asc_Cons)
  have lines: "\<exists>ls. source_lines (fe_repr ?fe) (JArr (rs_sources r)) = Inr ls"
    if "Inr (response_json demo_response) = (Inr (response_json r) :: json result)" for r
    using that none by (auto simp: response_json_inj)
  have okay: "(asc ''ok'') \<noteq> []" by simp
  have "\<not> (\<exists>e. Inr (response_json demo_response) = (Inr (response_json (failure_response e)) :: json result))"
    using demo_response_ok(2) by (auto simp: response_json_inj)
  then show ?thesis
    using page_answers [OF conn check routes r2 srv db msgs sid one_neq_zero me run' s' wire fe ok lines] none
    by (auto simp: response_json_inj demo_response_ok json_or_def okay simp del: asc_Cons)
qed

end
