(* ===== verification/Page_Actions.thy ===== *)
theory Page_Actions
  imports Frontend
begin

text \<open>
  The pages of \<open>frontend/app.py\<close> around the chat: the forms, buttons and lists of the login view, the
  side bar, the knowledge base, the memories and the operations view. What a user does is a value of
  \<open>action\<close>; \<open>act\<close> is what the script does about it and what it shows. A successful action ends in a
  rerun, which Streamlit raises as an exception that \<open>except Exception\<close> does not catch. An exception
  that no handler of the page catches is \<open>Crashed\<close>. \<open>render_page\<close> is one run of the script without a new
  action. Whatever happens, the session state keeps what the script reads unguarded, and a signed-out page
  sends no token. Layout, styling and the identities of widgets are not modelled.
\<close>

section \<open>What is shown\<close>

datatype feedback =
    Reran | Said json | Failed pystr | Noted pystr | Shown json | Answered shown | Crashed exn

datatype widget =
    Login_form | Hero | Line pystr | Card pystr pystr | Metric pystr json | Value json | Report feedback
  | Session_button pystr json bool | Message json json "pystr list"

text \<open>\<open>try: \<dots>; st.rerun()\<close> with \<open>except Exception as exc: st.error(str(exc))\<close>, and a bare call.\<close>

definition guarded :: "'s client \<times> 'a result \<Rightarrow> ('a \<Rightarrow> feedback list) \<Rightarrow> 's client \<times> feedback list" where
  "guarded m show = (case m of (w, Inl e) \<Rightarrow> (w, [Failed (exn_str e)]) | (w, Inr x) \<Rightarrow> (w, show x))"

definition unguarded :: "'s client \<times> 'a result \<Rightarrow> ('a \<Rightarrow> feedback list) \<Rightarrow> 's client \<times> feedback list" where
  "unguarded m show = (case m of (w, Inl e) \<Rightarrow> (w, [Crashed e]) | (w, Inr x) \<Rightarrow> (w, show x))"

section \<open>Login view\<close>

definition submit_login :: "'s frontend \<Rightarrow> pystr \<Rightarrow> pystr \<Rightarrow> 's client \<Rightarrow> 's client \<times> feedback list" where
  "submit_login env email password w = guarded (login env (py_strip email) password w) (\<lambda>_. [Reran])"

definition submit_register :: "'s frontend \<Rightarrow> pystr \<Rightarrow> pystr \<Rightarrow> pystr \<Rightarrow> 's client \<Rightarrow> 's client \<times> feedback list" where
  "submit_register env username email password w =
     guarded (register env (py_strip email) (py_strip username) password w) (\<lambda>_. [Reran])"

section \<open>Side bar\<close>

datatype workspace = View_chat | View_knowledge | View_memory | View_ops

fun view_key :: "workspace \<Rightarrow> pystr" where
  "view_key View_chat = (asc ''chat'')"
| "view_key View_knowledge = (asc ''knowledge'')"
| "view_key View_memory = (asc ''memory'')"
| "view_key View_ops = (asc ''ops'')"

definition nav_items :: "(pystr \<times> pystr) list" where
  "nav_items = [((asc ''chat''), [0x5bf9, 0x8bdd]), ((asc ''knowledge''), [0x77e5, 0x8bc6, 0x5e93]),
      ((asc ''memory''), [0x8bb0, 0x5fc6]), ((asc ''ops''), [0x8fd0, 0x884c, 0x72b6, 0x6001])]"

text \<open>\<open>list(nav_items).index(\<dots>)\<close> raises when the stored view is none of them.\<close>

definition nav_index :: "session \<Rightarrow> nat result" where
  "nav_index s =
     (let active = (case s (asc ''active_view'') of None \<Rightarrow> JStr (asc ''chat'') | Some v \<Rightarrow> v);
          keys = map (\<lambda>kv. JStr (fst kv)) nav_items
      in if active \<in> set keys then Inr (length (takeWhile (\<lambda>k. k \<noteq> active) keys))
         else Inl (ValueError (asc ''is not in list'')))"

definition select_view :: "workspace \<Rightarrow> 's client \<Rightarrow> 's client" where
  "select_view v w = sput (asc ''active_view'') (JStr (view_key v)) w"

text \<open>\<open>fmt_dt\<close> on any value: what is no string falls through to the slice of the handler.\<close>

fun fmt_value :: "'s frontend \<Rightarrow> json \<Rightarrow> pystr result" where
  "fmt_value env (JStr t) = Inr (fmt_dt env (Some t))"
| "fmt_value env (JArr xs) = Inr (if xs = [] then (asc ''-'') else fe_repr env (JArr (take 16 xs)))"
| "fmt_value env v = (if truthy v then Inl (OtherError (asc ''object is not subscriptable'')) else Inr (asc ''-''))"

definition session_label :: "'s frontend \<Rightarrow> json \<Rightarrow> pystr result" where
  "session_label env item =
     rbind (json_get item (asc ''title'')) (\<lambda>t. rbind (json_get_or item (asc ''message_count'') (JInt 0)) (\<lambda>c.
     rbind (json_get item (asc ''updated_at'')) (\<lambda>u. rbind (fmt_value env u) (\<lambda>d.
       Inr (json_str (fe_repr env) (json_or t (JStr (asc ''New chat''))) @ [10] @
            json_str (fe_repr env) c @ (asc '' '' @ [0x6761] @ asc '' '' @ [0xb7] @ asc '' '') @ d)))))"

fun first_items :: "nat \<Rightarrow> json \<Rightarrow> json result" where
  "first_items n (JArr xs) = Inr (JArr (take n xs))"
| "first_items n (JStr s) = Inr (JStr (take n s))"
| "first_items n _ = Inl (OtherError (asc ''object is not subscriptable''))"

text \<open>The buttons of the last eight sessions; the request is guarded, the labels are not.\<close>

definition session_button :: "'s frontend \<Rightarrow> json \<Rightarrow> json \<Rightarrow> widget result" where
  "session_button env active_id item =
     rbind (session_label env item) (\<lambda>label. rbind (json_item item (asc ''id'')) (\<lambda>i. Inr (Session_button label i (i = active_id))))"

definition render_sidebar_sessions :: "'s frontend \<Rightarrow> 's client \<Rightarrow> 's client \<times> widget list result" where
  "render_sidebar_sessions env w =
     (case sbind (get_json env (asc ''/api/v1/sessions'') w) (\<lambda>j w. (w, first_items 8 j)) of
        (w', Inl exc) \<Rightarrow> (w', Inr [Report (Noted ([0x4f1a, 0x8bdd, 0x4e0d, 0x53ef,
            0x7528, 0xff1a] @ exn_str exc))])
      | (w', Inr sessions) \<Rightarrow>
          if \<not> truthy sessions then (w', Inr [Report (Noted [0x8fd8, 0x6ca1, 0x6709, 0x4f1a, 0x8bdd])])
          else (w', rbind (json_iter sessions) (mapr (session_button env (sget (cl_state w') (asc ''chat_session_id''))))))"

text \<open>The card of the user, the navigation with the view it stores, the sessions and the counts.\<close>

definition user_card :: "'s frontend \<Rightarrow> json \<Rightarrow> json \<Rightarrow> widget list result" where
  "user_card env user health =
     (let u = json_or user (JObj []); show = json_str (fe_repr env)
      in rbind (json_get_or u (asc ''username'') (JStr [0x7528,
          0x6237])) (\<lambda>n. rbind (json_get_or u (asc ''email'') (JStr [])) (\<lambda>e.
         rbind (json_get_or health (asc ''status'') (JStr (asc ''ok''))) (\<lambda>st. rbind (json_get_or health (asc ''model'') (JStr (asc ''-''))) (\<lambda>m.
           Inr [Card (show n) (show e), Line (show st @ (asc '' '' @ [0xb7] @ asc '' '') @ show m)])))))"

definition counts_line :: "'s frontend \<Rightarrow> json \<Rightarrow> widget list result" where
  "counts_line env docs =
     rbind (json_get_or docs (asc ''source_count'') (JInt 0)) (\<lambda>n. rbind (json_get_or docs (asc ''chunks'') (JInt 0)) (\<lambda>k.
       Inr [Line (([0x6587, 0x6863] @ asc '' '') @ json_str (fe_repr env) n @ (asc '' '' @ [0xb7] @
           asc '' '' @ [0x7247, 0x6bb5] @ asc '' '') @ json_str (fe_repr env) k)]))"

definition sidebar_nav :: "'s frontend \<Rightarrow> json \<Rightarrow> json \<Rightarrow> 's client \<Rightarrow> 's client \<times> widget list result" where
  "sidebar_nav env health docs w =
     sbind (w, user_card env (sget (cl_state w) (asc ''current_user'')) health) (\<lambda>card w.
     sbind (w, nav_index (cl_state w)) (\<lambda>i w.
     sbind (render_sidebar_sessions env (sput (asc ''active_view'') (JStr (fst (nav_items ! i))) w)) (\<lambda>sessions w.
       (w, rbind (counts_line env docs) (\<lambda>counts. Inr (card @ sessions @ counts))))))"

definition session_path_of :: "'s frontend \<Rightarrow> json \<Rightarrow> pystr" where
  "session_path_of env i = (asc ''/api/v1/sessions/'') @ json_str (fe_repr env) i"

text \<open>\<open>load_session\<close> with whatever value the list gave as identifier.\<close>

definition open_session :: "'s frontend \<Rightarrow> json \<Rightarrow> 's client \<Rightarrow> 's client \<times> unit result" where
  "open_session env i w =
     sbind (get_json env (session_path_of env i) w) (\<lambda>detail w1.
     let w2 = sput (asc ''messages'') (JArr []) (sput (asc ''chat_session_id'') i w1)
     in sbind (w2, rbind (json_get_or detail (asc ''messages'') (JArr [])) json_iter) (\<lambda>items w2.
       (case history_messages items of
          (ms, Some e) \<Rightarrow> (sput (asc ''messages'') (JArr ms) w2, Inl e)
        | (ms, None) \<Rightarrow> (sput (asc ''active_view'') (JStr (asc ''chat'')) (sput (asc ''messages'') (JArr ms) w2), Inr ()))))"

section \<open>Knowledge base\<close>

definition upload_button :: "'s frontend \<Rightarrow> pystr \<Rightarrow> bool \<Rightarrow> 's client \<Rightarrow> 's client \<times> feedback list" where
  "upload_button env name async_mode w =
     guarded (sbind (upload_pdf env name async_mode w) (\<lambda>result w. (w, json_get result (asc ''message''))))
       (\<lambda>m. [Said (json_or m (JStr [0x4e0a, 0x4f20, 0x5b8c, 0x6210])), Reran])"

definition reindex_button :: "'s frontend \<Rightarrow> 's client \<Rightarrow> 's client \<times> feedback list" where
  "reindex_button env w =
     guarded (request_json env (asc ''POST'') (asc ''/documents/reindex'') No_body w) (\<lambda>_. [Said (JStr [0x7d22,
         0x5f15, 0x5df2, 0x91cd, 0x5efa])])"

text \<open>The query string of \<open>params={"source": \<dots>}\<close> is built by \<open>requests\<close>: a parameter.\<close>

definition delete_document_button :: "'s frontend \<Rightarrow> (pystr \<Rightarrow> pystr) \<Rightarrow> pystr \<Rightarrow> 's client \<Rightarrow> 's client \<times> feedback list" where
  "delete_document_button env quote_param source w =
     guarded (request_json env (asc ''DELETE'') ((asc ''/documents/source?source='') @ quote_param source) No_body w) (\<lambda>_. [Reran])"

definition document_card :: "'s frontend \<Rightarrow> json \<Rightarrow> (pystr \<times> pystr) result" where
  "document_card env doc =
     rbind (json_get_or doc (asc ''source'') (JStr [])) (\<lambda>source. rbind (json_get_or doc (asc ''parent_chunks'') (JInt 0)) (\<lambda>p.
     rbind (json_get_or doc (asc ''chunks'') (JInt 0)) (\<lambda>c. rbind (json_get_or doc (asc ''upload_count'') (JInt 1)) (\<lambda>n.
       let show = json_str (fe_repr env)
       in Inr (show source, ([0x7236, 0x5757] @ asc '' '') @ show p @ (asc '' '' @ [0xb7] @
           asc '' '' @ [0x5b50, 0x5757] @ asc '' '') @ show c @ (asc '' '' @ [0xb7] @ asc '' '' @
           [0x4e0a, 0x4f20] @ asc '' '') @ show n @ (asc '' '' @ [0x6b21]))))))"

definition render_knowledge :: "'s frontend \<Rightarrow> json \<Rightarrow> widget list result" where
  "render_knowledge env docs =
     rbind (json_get_or docs (asc ''documents'') (JArr [])) (\<lambda>documents. rbind (json_iter documents) (\<lambda>ds.
     rbind (mapr (document_card env) ds) (\<lambda>cards.
       Inr ((if truthy documents then [] else [Line [0x8fd8, 0x6ca1, 0x6709, 0x6587, 0x6863,
           0x3002]]) @ map (case_prod Card) cards))))"

section \<open>Memories\<close>

definition memory_categories :: "pystr list" where
  "memory_categories = [(asc ''preference''), (asc ''identity''), (asc ''profile''), (asc ''work_context''), (asc ''goal'')]"

definition default_memory_key :: "pystr \<Rightarrow> pystr" where
  "default_memory_key category = category @ (asc ''.general'')"

definition save_memory_button :: "'s frontend \<Rightarrow> pystr \<Rightarrow> pystr \<Rightarrow> pystr \<Rightarrow> 's client \<Rightarrow> 's client \<times> feedback list" where
  "save_memory_button env content category memory_key w =
     guarded (post_json env (asc ''/api/v1/memories'')
        (JObj [((asc ''content''), JStr content), ((asc ''category''), JStr category), ((asc ''memory_key''), JStr memory_key)]) w)
       (\<lambda>_. [Said (JStr [0x8bb0, 0x5fc6, 0x5df2, 0x4fdd, 0x5b58]), Reran])"

text \<open>\<open>f"{x:.2f}"\<close>\<close>

fun show_two_digits :: "json \<Rightarrow> pystr result" where
  "show_two_digits (JInt i) = Inr (show_fixed 2 (real_of_int i))"
| "show_two_digits (JReal r) = Inr (show_fixed 2 r)"
| "show_two_digits (JBool b) = Inr (show_fixed 2 (of_bool b))"
| "show_two_digits (JStr s) = Inl (ValueError (asc ''Unknown format code '' @ [39] @ asc ''f'' @ [39]))"
| "show_two_digits _ = Inl (OtherError (asc ''unsupported format string''))"

definition memory_card :: "'s frontend \<Rightarrow> json \<Rightarrow> (pystr \<times> pystr) result" where
  "memory_card env memory =
     rbind (json_get memory (asc ''content'')) (\<lambda>c. rbind (json_get memory (asc ''category'')) (\<lambda>g. rbind (json_get memory (asc ''memory_key'')) (\<lambda>k.
     rbind (rbind (json_get_or memory (asc ''confidence'') (JInt 0)) show_two_digits) (\<lambda>x.
       let show = json_str (fe_repr env)
       in Inr (show c, show g @ (asc '' '' @ [0xb7] @ asc '' '') @ show k @ (asc '' '' @ [0xb7] @
           asc '' '' @ [0x7f6e, 0x4fe1, 0x5ea6] @ asc '' '') @ x)))))"

definition render_memory :: "'s frontend \<Rightarrow> 's client \<Rightarrow> 's client \<times> widget list result" where
  "render_memory env w =
     (case (case get_json env (asc ''/api/v1/memories?status=active'') w of
              (w', Inl exc) \<Rightarrow> (w', [Report (Failed (exn_str exc))], JArr [])
            | (w', Inr memories) \<Rightarrow> (w', [], memories)) of
        (w', failed, memories) \<Rightarrow>
          (w', rbind (json_iter memories) (\<lambda>ms. rbind (mapr (memory_card env) ms) (\<lambda>cards.
             Inr (failed @ (if truthy memories then [] else [Line [0x8fd8, 0x6ca1, 0x6709, 0x957f,
                 0x671f, 0x8bb0, 0x5fc6, 0x3002]]) @ map (case_prod Card) cards)))))"

definition delete_memory_button :: "'s frontend \<Rightarrow> json \<Rightarrow> 's client \<Rightarrow> 's client \<times> feedback list" where
  "delete_memory_button env i w =
     unguarded (delete_json env ((asc ''/api/v1/memories/'') @ json_str (fe_repr env) i) w) (\<lambda>_. [Reran])"

definition clear_memories_button :: "'s frontend \<Rightarrow> 's client \<Rightarrow> 's client \<times> feedback list" where
  "clear_memories_button env w = unguarded (delete_json env (asc ''/api/v1/memories'') w) (\<lambda>_. [Reran])"

section \<open>Operations\<close>

definition ops_checks :: "(pystr \<times> pystr) list" where
  "ops_checks = [([0x6a21, 0x578b], (asc ''/model-health'')), ([0x68c0, 0x7d22],
      (asc ''/search-health'')), ((asc ''Embedding''), (asc ''/embedding-health'')),
     ((asc ''Rerank''), (asc ''/rerank-health''))]"

definition redis_connected :: "json \<Rightarrow> bool result" where
  "redis_connected health =
     rbind (json_get_or health (asc ''redis'') (JObj [])) (\<lambda>r. rbind (json_get r (asc ''connected'')) (\<lambda>c. Inr (truthy c)))"

definition ops_metrics :: "json \<Rightarrow> (pystr \<times> json) list result" where
  "ops_metrics health =
     rbind (json_get_or health (asc ''status'') (JStr (asc ''unknown''))) (\<lambda>s. rbind (redis_connected health) (\<lambda>c.
     rbind (json_get_or health (asc ''model'') (JStr (asc ''-''))) (\<lambda>m. rbind (json_get_or health (asc ''app_env'') (JStr (asc ''-''))) (\<lambda>e.
       Inr [([0x540e, 0x7aef], s), ((asc ''Redis''),
           JStr (if c then (asc ''connected'') else (asc ''down''))), ([0x6a21, 0x578b], m),
           ([0x73af, 0x5883], e)]))))"

definition check_button :: "'s frontend \<Rightarrow> pystr \<Rightarrow> 's client \<Rightarrow> 's client \<times> feedback list" where
  "check_button env path w = guarded (get_json env path w) (\<lambda>j. [Shown j])"

definition task_table :: "'s frontend \<Rightarrow> 's client \<Rightarrow> 's client \<times> widget" where
  "task_table env w =
     (case sbind (get_json env (asc ''/api/v1/tasks'') w) (\<lambda>tasks w. (w, json_get_or tasks (asc ''tasks'') (JArr []))) of
        (w', Inl exc) \<Rightarrow> (w', Report (Noted ([0x6682, 0x65e0, 0x4efb, 0x52a1, 0x6216,
            0x4efb, 0x52a1, 0x670d, 0x52a1, 0x4e0d, 0x53ef, 0x7528, 0xff1a] @ exn_str exc)))
      | (w', Inr rows) \<Rightarrow> (w', Value rows))"

definition render_ops :: "'s frontend \<Rightarrow> json \<Rightarrow> 's client \<Rightarrow> 's client \<times> widget list result" where
  "render_ops env health w =
     sbind (w, ops_metrics health) (\<lambda>metrics w. case task_table env w of (w', tasks) \<Rightarrow>
       (w', Inr (map (case_prod Metric) metrics @ [Value health, tasks])))"

text \<open>The pills of the top bar: the model, the state of Redis, documents and chunks.\<close>

definition topbar_pills :: "'s frontend \<Rightarrow> json \<Rightarrow> json \<Rightarrow> pystr list result" where
  "topbar_pills env health docs =
     rbind (redis_connected health) (\<lambda>c. rbind (json_get_or health (asc ''model'') (JStr (asc ''-''))) (\<lambda>m.
     rbind (json_get_or docs (asc ''source_count'') (JInt 0)) (\<lambda>n. rbind (json_get_or docs (asc ''chunks'') (JInt 0)) (\<lambda>k.
       let show = json_str (fe_repr env)
       in Inr [show m, (asc ''Redis '') @ (if c then [0x5df2, 0x8fde, 0x63a5] else [0x672a, 0x8fde,
           0x63a5]), show n @ (asc '' '' @ [0x6587, 0x6863]), show k @ (asc '' '' @ [0x7247,
           0x6bb5])]))))"

definition render_topbar :: "'s frontend \<Rightarrow> session \<Rightarrow> json \<Rightarrow> json \<Rightarrow> widget list result" where
  "render_topbar env s health docs =
     rbind (topbar_pills env health docs) (\<lambda>pills.
       Inr (Card (view_title (sget s (asc ''active_view''))) (view_subtitle (sget s (asc ''active_view''))) # map Line pills))"

section \<open>The chat without a new question\<close>

definition render_message :: "'s frontend \<Rightarrow> json \<Rightarrow> widget result" where
  "render_message env m =
     rbind (json_item m (asc ''role'')) (\<lambda>r. rbind (json_item m (asc ''content'')) (\<lambda>c. rbind (json_get m (asc ''sources'')) (\<lambda>ss.
     rbind (if truthy ss then source_lines (fe_repr env) ss else Inr []) (\<lambda>ls. Inr (Message r c ls)))))"

definition trace_lines :: "'s frontend \<Rightarrow> session \<Rightarrow> widget list result" where
  "trace_lines env s =
     (let trace = sget s (asc ''last_trace'')
      in if truthy trace then rbind (json_iter trace) (\<lambda>steps. Inr (map (\<lambda>t. Line ((asc ''- '') @ json_str (fe_repr env) t)) steps))
         else Inr [])"

definition render_chat :: "'s frontend \<Rightarrow> 's client \<Rightarrow> 's client \<times> widget list result" where
  "render_chat env w =
     (let w1 = fst (ensure_chat_session env w); messages = sget (cl_state w1) (asc ''messages'')
      in (w1, rbind (json_iter messages) (\<lambda>ms. rbind (mapr (render_message env) ms) (\<lambda>shown.
              rbind (trace_lines env (cl_state w1)) (\<lambda>trace.
                Inr ((if truthy messages then [] else [Hero]) @ shown @ trace))))))"

section \<open>One run of the script\<close>

definition render_view :: "'s frontend \<Rightarrow> json \<Rightarrow> json \<Rightarrow> 's client \<Rightarrow> 's client \<times> widget list result" where
  "render_view env health docs w =
     (let view = (case cl_state w (asc ''active_view'') of None \<Rightarrow> JStr (asc ''chat'') | Some v \<Rightarrow> v)
      in if view = JStr (asc ''chat'') then render_chat env w
         else if view = JStr (asc ''knowledge'') then (w, render_knowledge env docs)
         else if view = JStr (asc ''memory'') then render_memory env w
         else render_ops env health w)"

definition render_page :: "'s frontend \<Rightarrow> 's client \<Rightarrow> 's client \<times> widget list result" where
  "render_page env w =
     (case safe_health env (ensure_user_loaded env (w\<lparr>cl_state := init_state (cl_state w)\<rparr>)) of (w1, health) \<Rightarrow>
      case safe_docs env w1 of (w2, docs) \<Rightarrow>
        if \<not> truthy (sget (cl_state w2) (asc ''current_user'')) then (w2, Inr [Login_form])
        else
          sbind (sidebar_nav env health docs w2) (\<lambda>side w3.
          sbind (w3, render_topbar env (cl_state w3) health docs) (\<lambda>top w3.
          sbind (render_view env health docs w3) (\<lambda>body w4. (w4, Inr (side @ top @ body))))))"

section \<open>Actions\<close>

datatype action =
    Submit_login pystr pystr | Submit_register pystr pystr pystr | Enter_as_guest
  | Start_chat | Select_view workspace | Open_session json | Log_out
  | Upload pystr bool | Reindex | Delete_document pystr
  | Save_memory pystr pystr pystr | Delete_memory json | Clear_memories
  | Check pystr | Ask pystr | Refresh

fun act :: "'s frontend \<Rightarrow> (pystr \<Rightarrow> pystr) \<Rightarrow> action \<Rightarrow> 's client \<Rightarrow> 's client \<times> feedback list" where
  "act env quote_param (Submit_login email password) w = submit_login env email password w"
| "act env quote_param (Submit_register username email password) w = submit_register env username email password w"
| "act env quote_param Enter_as_guest w = (continue_as_guest env w, [Reran])"
| "act env quote_param Start_chat w = (new_chat env w, [Reran])"
| "act env quote_param (Select_view v) w = (select_view v w, [])"
| "act env quote_param (Open_session i) w = unguarded (open_session env i w) (\<lambda>_. [Reran])"
| "act env quote_param Log_out w = (logout w, [Reran])"
| "act env quote_param (Upload name async_mode) w = upload_button env name async_mode w"
| "act env quote_param Reindex w = reindex_button env w"
| "act env quote_param (Delete_document source) w = delete_document_button env quote_param source w"
| "act env quote_param (Save_memory content category key) w = save_memory_button env content category key w"
| "act env quote_param (Delete_memory i) w = delete_memory_button env i w"
| "act env quote_param Clear_memories w = clear_memories_button env w"
| "act env quote_param (Check path) w = check_button env path w"
| "act env quote_param (Ask question) w = unguarded (submit_question env question w) (\<lambda>s. [Answered s])"
| "act env quote_param Refresh w = unguarded (render_page env w) (\<lambda>_. [])"

fun act_all :: "'s frontend \<Rightarrow> (pystr \<Rightarrow> pystr) \<Rightarrow> action list \<Rightarrow> 's client \<Rightarrow> 's client" where
  "act_all env quote_param [] w = w"
| "act_all env quote_param (x # xs) w = act_all env quote_param xs (fst (act env quote_param x w))"

section \<open>The session state stays usable\<close>

text \<open>What \<open>render_chat\<close> and the navigation read without a test.\<close>

fun message_ok :: "json \<Rightarrow> bool" where
  "message_ok (JObj d) = (map_of d (asc ''role'') \<noteq> None \<and> map_of d (asc ''content'') \<noteq> None)"
| "message_ok _ = False"

definition page_ok :: "session \<Rightarrow> bool" where
  "page_ok s \<longleftrightarrow> s (asc ''_app_version'') = Some (JStr app_version) \<and>
     (\<exists>ms. s (asc ''messages'') = Some (JArr ms) \<and> (\<forall>m\<in>set ms. message_ok m)) \<and>
     (\<exists>v. s (asc ''active_view'') = Some (JStr (view_key v))) \<and> s (asc ''chat_session_id'') \<noteq> None"

definition anonymous :: "session \<Rightarrow> bool" where
  "anonymous s \<longleftrightarrow> \<not> truthy (sget s (asc ''access_token''))"

lemma page_keys:
  "distinct [(asc ''_app_version''), (asc ''messages''), (asc ''active_view''), (asc ''chat_session_id''), (asc ''access_token''), (asc ''token_expires_in''),
     (asc ''current_user''), (asc ''last_trace''), (asc ''last_sources''), (asc ''chat_session_error'')]"
  by code_simp

text \<open>The invariant; when \<open>quiet\<close>, the page holds no token.\<close>

definition page_inv :: "bool \<Rightarrow> session \<Rightarrow> bool" where
  "page_inv quiet s \<longleftrightarrow> page_ok s \<and> (quiet \<longrightarrow> anonymous s)"

lemma page_inv_plain:
  assumes "page_inv q s" "k \<in> {(asc ''token_expires_in''), (asc ''current_user''), (asc ''last_trace''), (asc ''last_sources''), (asc ''chat_session_error''),
      (asc ''chat_session_id'')}"
  shows "page_inv q (s(k \<mapsto> v))"
  using assms page_keys by (auto simp: page_inv_def page_ok_def anonymous_def sget_def simp del: asc_Cons)

lemma page_inv_token:
  "page_inv False s \<Longrightarrow> page_inv False (s((asc ''access_token'') \<mapsto> v))"
  "page_inv q s \<Longrightarrow> page_inv q (s((asc ''access_token'') \<mapsto> JStr []))"
  using page_keys by (auto simp: page_inv_def page_ok_def anonymous_def sget_def simp del: asc_Cons)

lemma page_inv_messages:
  "page_inv q s \<Longrightarrow> \<forall>m\<in>set ms. message_ok m \<Longrightarrow> page_inv q (s((asc ''messages'') \<mapsto> JArr ms))"
  using page_keys by (auto simp: page_inv_def page_ok_def anonymous_def sget_def simp del: asc_Cons)

lemma page_inv_view: "page_inv q s \<Longrightarrow> page_inv q (s((asc ''active_view'') \<mapsto> JStr (view_key v)))"
  using page_keys by (auto simp: page_inv_def page_ok_def anonymous_def sget_def simp del: asc_Cons view_key.simps)

lemma page_inv_puts:
  "page_inv q s \<Longrightarrow> page_inv q (s((asc ''token_expires_in'') \<mapsto> v))" "page_inv q s \<Longrightarrow> page_inv q (s((asc ''current_user'') \<mapsto> v))"
  "page_inv q s \<Longrightarrow> page_inv q (s((asc ''last_trace'') \<mapsto> v))" "page_inv q s \<Longrightarrow> page_inv q (s((asc ''last_sources'') \<mapsto> v))"
  "page_inv q s \<Longrightarrow> page_inv q (s((asc ''chat_session_error'') \<mapsto> v))" "page_inv q s \<Longrightarrow> page_inv q (s((asc ''chat_session_id'') \<mapsto> v))"
  "page_inv q s \<Longrightarrow> page_inv q (s((asc ''active_view'') \<mapsto> JStr (asc ''chat'')))" "page_inv q s \<Longrightarrow> page_inv q (s((asc ''messages'') \<mapsto> JArr []))"
  using page_inv_plain page_inv_view [of q s View_chat] page_inv_messages [of q s "[]"]
  by (simp_all del: asc_Cons)

lemmas page_inv_intros = page_inv_token page_inv_puts page_inv_view page_inv_messages

text \<open>Requests leave the session state alone.\<close>

lemma request_states:
  "request_json env verb path b w = (w', r) \<Longrightarrow> cl_state w' = cl_state w"
  "get_json env path w = (w', r) \<Longrightarrow> cl_state w' = cl_state w"
  "post_json env path j w = (w', r) \<Longrightarrow> cl_state w' = cl_state w"
  "delete_json env path w = (w', r) \<Longrightarrow> cl_state w' = cl_state w"
  using request_state(2) by (metis fst_conv get_json_def post_json_def delete_json_def)+

lemma sbind_cases:
  assumes "sbind m f = (w', r)"
  obtains (raised) e where "m = (w', Inl e)" "r = Inl e" | (went_on) w1 x where "m = (w1, Inr x)" "f x w1 = (w', r)"
  using assms by (auto simp: sbind_def split: prod.splits sum.splits)

lemma inv_session: "page_inv q (cl_state w) \<Longrightarrow> page_inv q (cl_state (fst (ensure_chat_session env w)))"
  unfolding ensure_chat_session_def
  by (auto simp del: asc_Cons elim!: sbind_cases dest!: request_states intro!: page_inv_puts split: prod.split sum.split)

lemma inv_login: "page_inv False (cl_state w) \<Longrightarrow> page_inv False (cl_state (fst (login env email password w)))"
  unfolding login_def Let_def
  by (auto simp del: asc_Cons simp: sbind_def dest!: request_states intro!: inv_session page_inv_intros(1,3-)
      split: prod.splits sum.splits)

lemma inv_register:
  "page_inv False (cl_state w) \<Longrightarrow> page_inv False (cl_state (fst (register env email username password w)))"
  unfolding register_def
  by (auto simp del: asc_Cons simp: sbind_def dest!: request_states intro!: inv_login split: prod.splits sum.splits)

lemma inv_guest: "page_inv q (cl_state w) \<Longrightarrow> page_inv q (cl_state (continue_as_guest env w))"
  by (auto simp: continue_as_guest_def simp del: asc_Cons intro!: inv_session page_inv_intros(2-))

lemma inv_new_chat: "page_inv q (cl_state w) \<Longrightarrow> page_inv q (cl_state (new_chat env w))"
  by (auto simp: new_chat_def simp del: asc_Cons intro!: inv_session page_inv_puts)

lemma fold_set_default: "fold set_default kvs s k = (case s k of Some v \<Rightarrow> Some v | None \<Rightarrow> map_of kvs k)"
  by (induction kvs arbitrary: s) (auto simp: set_default_def split: option.split)

text \<open>\<open>init_state\<close> on a page of the current version only fills in what is missing.\<close>

lemma init_state_fills:
  assumes "s (asc ''_app_version'') = Some (JStr app_version)"
  shows "init_state s k = (case s k of Some v \<Rightarrow> Some v | None \<Rightarrow> map_of session_defaults k)"
  using assms by (simp add: init_state_def sget_def fold_set_default del: asc_Cons)

lemma session_defaults_values:
  "map_of session_defaults (asc ''access_token'') = None" "map_of session_defaults (asc ''messages'') = Some (JArr [])"
  "map_of session_defaults (asc ''active_view'') = Some (JStr (asc ''chat''))" "map_of session_defaults (asc ''chat_session_id'') = Some JNull"
  by code_simp+

lemma anonymous_init: "s (asc ''_app_version'') = Some (JStr app_version) \<Longrightarrow> anonymous (init_state s) = anonymous s"
  by (simp add: anonymous_def sget_def init_state_fills session_defaults_values del: asc_Cons split: option.split)

lemma inv_init: "page_inv q s \<Longrightarrow> page_inv q (init_state s)"
  by (auto simp: page_inv_def page_ok_def anonymous_init init_state_fills session_defaults_values simp del: asc_Cons
      split: option.split)

lemma inv_logout: "page_inv q (cl_state w) \<Longrightarrow> page_inv True (cl_state (logout w))"
proof -
  assume inv: "page_inv q (cl_state w)"
  let ?s = "\<lambda>k. if k \<in> set logout_keys then None else cl_state w k"
  have keys: "(asc ''_app_version'') \<notin> set logout_keys" "(asc ''active_view'') \<notin> set logout_keys" "(asc ''access_token'') \<in> set logout_keys"
    "(asc ''messages'') \<in> set logout_keys" "(asc ''chat_session_id'') \<in> set logout_keys" by code_simp+
  obtain v where v: "cl_state w (asc ''_app_version'') = Some (JStr app_version)" "cl_state w (asc ''active_view'') = Some (JStr (view_key v))"
    using inv by (auto simp: page_inv_def page_ok_def simp del: asc_Cons)
  then have "?s (asc ''_app_version'') = Some (JStr app_version)" using keys by (simp del: asc_Cons)
  note fills = init_state_fills [of ?s, OF this]
  have "cl_state (logout w) = init_state ?s" by (simp add: logout_def)
  then show ?thesis using keys v
    by (auto simp: page_inv_def page_ok_def anonymous_def sget_def fills session_defaults_values simp del: asc_Cons)
qed

lemma history_messages_ok: "history_messages items = (ms, x) \<Longrightarrow> \<forall>m\<in>set ms. message_ok m"
proof (induction items arbitrary: ms rule: history_messages.induct)
  case (2 d items)
  have names: "(asc ''content'') \<noteq> (asc ''role'')" by code_simp
  obtain ms' x' where h: "history_messages items = (ms', x')" by fastforce
  then show ?case using 2 names by (auto simp del: asc_Cons)
qed simp_all

lemma inv_open_session: "page_inv q (cl_state w) \<Longrightarrow> page_inv q (cl_state (fst (open_session env i w)))"
  unfolding open_session_def Let_def
  by (auto simp del: asc_Cons simp: sbind_def sput_def dest!: request_states dest: history_messages_ok intro!: page_inv_intros(3-)
      split: prod.splits sum.splits option.splits)

lemma inv_append:
  assumes "page_inv q (cl_state w)" "message_ok m"
  shows "page_inv q (cl_state (fst (append_message m w)))"
proof -
  obtain ms where ms: "cl_state w (asc ''messages'') = Some (JArr ms)" "\<forall>m\<in>set ms. message_ok m"
    using assms(1) by (auto simp: page_inv_def page_ok_def)
  then have "append_message m w = (sput (asc ''messages'') (JArr (ms @ [m])) w, Inr ())"
    by (simp add: append_message_def sbind_def sget_def)
  then show ?thesis using page_inv_messages [OF assms(1), of "ms @ [m]"] ms(2) assms(2) by (auto simp: sput_def)
qed

lemma ask_memories_state [simp]: "cl_state (ask_memories env w) = cl_state w"
  unfolding ask_memories_def by (cases "get_json env (asc ''/api/v1/memories?status=active'') w") (auto dest: request_states)

lemma stream_chat_state: "stream_chat env question i w = (w', evs, x) \<Longrightarrow> cl_state w' = cl_state w"
proof -
  let ?b = "Json_body (JObj [((asc ''question''), JStr question), ((asc ''session_id''), i)])"
  obtain w1 r where c: "call env (asc ''POST'') (asc ''/chat/stream'') ?b w = (w1, r)" by fastforce
  then have "cl_state w1 = cl_state w" using request_state(1) by (metis fst_conv)
  then show "stream_chat env question i w = (w', evs, x) \<Longrightarrow> cl_state w' = cl_state w"
    by (auto simp: stream_chat_def c simp del: asc_Cons split: sum.splits if_splits)
qed

lemma turn_messages_ok:
  "message_ok (JObj [((asc ''role''), a), ((asc ''content''), b)])" "message_ok (JObj [((asc ''role''), a), ((asc ''content''), b), ((asc ''sources''), c)])"
proof -
  have names: "(asc ''content'') \<noteq> (asc ''role'')" by code_simp
  then show "message_ok (JObj [((asc ''role''), a), ((asc ''content''), b)])" "message_ok (JObj [((asc ''role''), a), ((asc ''content''), b), ((asc ''sources''), c)])"
    by (simp_all del: asc_Cons)
qed

lemma inv_finish:
  assumes "page_inv q (cl_state w)" shows "page_inv q (cl_state (fst (finish_turn env v w)))"
proof -
  let ?m = "JObj [((asc ''role''), JStr (asc ''assistant'')), ((asc ''content''), vw_answer v), ((asc ''sources''), vw_sources v)]"
  obtain w1 r where a: "append_message ?m w = (w1, r)" by fastforce
  have inv: "page_inv q (cl_state w1)" using inv_append [OF assms turn_messages_ok(2)] a by (metis fst_conv)
  show ?thesis
    by (simp add: finish_turn_def sbind_def a Let_def assms inv sput_def page_inv_puts del: asc_Cons split: sum.split)
qed

lemma inv_submit:
  assumes "page_inv q (cl_state w)" shows "page_inv q (cl_state (fst (submit_question env question w)))"
proof -
  let ?w = "ask_memories env (fst (ensure_chat_session env w))"
  let ?m = "JObj [((asc ''role''), JStr (asc ''user'')), ((asc ''content''), JStr question)]"
  obtain w1 r where a: "append_message ?m ?w = (w1, r)" by fastforce
  have "page_inv q (cl_state ?w)" using inv_session [OF assms] by simp
  then have inv: "page_inv q (cl_state w1)" using inv_append [OF _ turn_messages_ok(1)] a by (metis fst_conv)
  obtain w2 evs x where st: "stream_chat env question (sget (cl_state w1) (asc ''chat_session_id'')) w1 = (w2, evs, x)"
    by (metis prod_cases3)
  then have inv2: "page_inv q (cl_state w2)" using inv stream_chat_state [OF st] by simp
  have fin: "page_inv q (cl_state w3)" if "finish_turn env v w2 = (w3, r)" for v w3 r
    using inv_finish [OF inv2, of env v] that by simp
  show ?thesis using inv inv2 fin
    by (auto simp: submit_question_def ask_question_def sbind_def a st simp del: asc_Cons split: sum.split prod.split)
qed

lemma takeWhile_stops: "x \<in> set xs \<Longrightarrow> length (takeWhile (\<lambda>k. k \<noteq> x) xs) < length xs"
  by (induction xs) auto

lemma nav_index_view:
  assumes "nav_index s = Inr i" obtains v where "fst (nav_items ! i) = view_key v"
proof -
  let ?keys = "map (\<lambda>kv. JStr (fst kv)) nav_items"
  obtain active where "active \<in> set ?keys" "i = length (takeWhile (\<lambda>k. k \<noteq> active) ?keys)"
    using assms by (auto simp: nav_index_def Let_def split: if_splits)
  then have "i < length nav_items" using takeWhile_stops [of active ?keys] by simp
  then have "i \<in> {0, 1, 2, 3}" by (auto simp: nav_items_def)
  moreover have "fst (nav_items ! 0) = view_key View_chat" "fst (nav_items ! 1) = view_key View_knowledge"
    "fst (nav_items ! 2) = view_key View_memory" "fst (nav_items ! 3) = view_key View_ops" by code_simp+
  ultimately show thesis using that by blast
qed

text \<open>The navigation finds the stored view, and stores the same view again.\<close>

lemma nav_index_finds:
  assumes "s (asc ''active_view'') = Some (JStr (view_key v))"
  obtains i where "nav_index s = Inr i" "fst (nav_items ! i) = view_key v"
proof -
  let ?keys = "map (\<lambda>kv. JStr (fst kv)) nav_items" and ?k = "JStr (view_key v)"
  have mem: "?k \<in> set ?keys" by (cases v) (simp_all add: nav_items_def del: asc_Cons)
  then have lt: "length (takeWhile (\<lambda>k. k \<noteq> ?k) ?keys) < length ?keys" by (rule takeWhile_stops)
  then have "?keys ! length (takeWhile (\<lambda>k. k \<noteq> ?k) ?keys) = ?k" using nth_length_takeWhile by blast
  with lt have "fst (nav_items ! length (takeWhile (\<lambda>k. k \<noteq> ?k) ?keys)) = view_key v" by simp
  with mem show thesis using that assms by (simp add: nav_index_def Let_def del: asc_Cons)
qed

text \<open>Requests whose answer is only shown.\<close>

lemma shown_states [simp]:
  "cl_state (fst (render_sidebar_sessions env w)) = cl_state w" "cl_state (fst (render_memory env w)) = cl_state w"
  "cl_state (fst (task_table env w)) = cl_state w" "cl_state (fst (render_ops env health w)) = cl_state w"
  "cl_state (fst (safe_health env w)) = cl_state w" "cl_state (fst (safe_docs env w)) = cl_state w"
proof -
  show tasks: "cl_state (fst (task_table env w)) = cl_state w" for w
    by (auto simp: task_table_def sbind_def dest!: request_states split: prod.split sum.split simp del: asc_Cons)
  then show "cl_state (fst (render_ops env health w)) = cl_state w"
    by (auto simp: render_ops_def sbind_def split: prod.split sum.split simp del: asc_Cons) (metis fst_conv)
qed (auto simp: render_sidebar_sessions_def render_memory_def safe_health_def safe_docs_def sbind_def dest!: request_states
    split: prod.split sum.split simp del: asc_Cons)

lemma inv_loaded: "page_inv q (cl_state w) \<Longrightarrow> page_inv q (cl_state (ensure_user_loaded env w))"
proof -
  assume inv: "page_inv q (cl_state w)"
  obtain w' r where g: "get_json env (asc ''/api/v1/auth/me'') w = (w', r)" by fastforce
  then have inv': "page_inv q (cl_state w')" using inv request_states(2) by metis
  then have "page_inv q (cl_state (logout w'))" using inv_logout [of q w'] by (cases q) (auto simp: page_inv_def)
  then show ?thesis using inv inv'
    by (simp add: ensure_user_loaded_def g sput_def page_inv_puts del: asc_Cons split: sum.split)
qed

lemma inv_sidebar: "page_inv q (cl_state w) \<Longrightarrow> page_inv q (cl_state (fst (sidebar_nav env health docs w)))"
proof -
  assume inv: "page_inv q (cl_state w)"
  have put: "page_inv q ((cl_state w)((asc ''active_view'') \<mapsto> JStr (fst (nav_items ! i))))" if "nav_index (cl_state w) = Inr i" for i
    using nav_index_view [OF that] page_inv_view [OF inv] by metis
  have rest: "page_inv q (cl_state w')"
    if "render_sidebar_sessions env (sput (asc ''active_view'') (JStr (fst (nav_items ! i))) w) = (w', r)" "nav_index (cl_state w) = Inr i"
    for i w' r
    using put [OF that(2)] shown_states(1) [of env "sput (asc ''active_view'') (JStr (fst (nav_items ! i))) w"] unfolding that(1)
    by (simp add: sput_def del: asc_Cons)
  show ?thesis using inv rest
    by (auto simp: sidebar_nav_def sbind_def simp del: asc_Cons split: sum.split prod.split)
qed

lemma inv_view: "page_inv q (cl_state w) \<Longrightarrow> page_inv q (cl_state (fst (render_view env health docs w)))"
  by (simp add: render_view_def render_chat_def Let_def inv_session del: asc_Cons)

lemma inv_render: "page_inv q (cl_state w) \<Longrightarrow> page_inv q (cl_state (fst (render_page env w)))"
proof -
  assume inv: "page_inv q (cl_state w)"
  let ?w = "ensure_user_loaded env (w\<lparr>cl_state := init_state (cl_state w)\<rparr>)"
  have "page_inv q (cl_state ?w)" by (rule inv_loaded) (simp add: inv_init inv)
  moreover obtain w1 h where h: "safe_health env ?w = (w1, h)" by fastforce
  moreover obtain w2 d where d: "safe_docs env w1 = (w2, d)" by fastforce
  ultimately have "page_inv q (cl_state w2)" using shown_states(5,6) by (metis fst_conv)
  moreover obtain w3 r where side: "sidebar_nav env h d w2 = (w3, r)" by fastforce
  ultimately have inv2: "page_inv q (cl_state w2)" "page_inv q (cl_state w3)" using inv_sidebar by (metis fst_conv)+
  have view: "page_inv q (cl_state w4)" if "render_view env h d w3 = (w4, r)" for w4 r
    using inv_view [OF inv2(2)] that by (metis fst_conv)
  show ?thesis using inv2 view
    by (auto simp: render_page_def h d side sbind_def simp del: asc_Cons split: sum.split prod.split)
qed

text \<open>Every action keeps the invariant; a logout and a guest visit drop the token, only a login may store one.\<close>

fun quiet_after :: "action \<Rightarrow> bool \<Rightarrow> bool" where
  "quiet_after (Submit_login _ _) q = False"
| "quiet_after (Submit_register _ _ _) q = False"
| "quiet_after Enter_as_guest q = True"
| "quiet_after Log_out q = True"
| "quiet_after _ q = q"

fun signed_out :: "bool \<Rightarrow> action list \<Rightarrow> bool" where
  "signed_out q [] = q"
| "signed_out q (x # xs) = signed_out (quiet_after x q) xs"

lemma handled_state [simp]: "fst (guarded m show) = fst m" "fst (unguarded m show) = fst m"
  by (auto simp: guarded_def unguarded_def split: prod.split sum.split)

lemma button_states [simp]:
  "cl_state (fst (upload_button env name async_mode w)) = cl_state w" "cl_state (fst (reindex_button env w)) = cl_state w"
  "cl_state (fst (delete_document_button env quote_param source w)) = cl_state w"
  "cl_state (fst (save_memory_button env content category key w)) = cl_state w"
  "cl_state (fst (delete_memory_button env i w)) = cl_state w" "cl_state (fst (clear_memories_button env w)) = cl_state w"
  "cl_state (fst (check_button env path w)) = cl_state w"
proof -
  let ?path = "if async_mode then (asc ''/api/v1/documents/upload/async'') else (asc ''/documents/upload'')"
  obtain w1 r1 where c: "call env (asc ''POST'') ?path (File_body name) w = (w1, r1)" by (rule prod.exhaust)
  have w1: "cl_state w1 = cl_state w" using request_state(1) [of env "(asc ''POST'')" ?path "File_body name" w] unfolding c by simp
  have "fst (upload_pdf env name async_mode w) = w1"
    unfolding upload_pdf_def c by (cases r1) (simp_all only: sbind_def sum.case prod.case fst_conv)
  then obtain r where "upload_pdf env name async_mode w = (w1, r)" by (metis prod.collapse)
  with w1 show "cl_state (fst (upload_button env name async_mode w)) = cl_state w"
    by (simp add: upload_button_def sbind_def split: sum.split del: asc_Cons)
qed (simp_all add: reindex_button_def delete_document_button_def save_memory_button_def delete_memory_button_def
    clear_memories_button_def check_button_def get_json_def post_json_def delete_json_def request_state(2) del: asc_Cons)

lemma inv_weaken: "page_inv q s \<Longrightarrow> page_inv False s"
  by (simp add: page_inv_def)

lemma inv_act: "page_inv q (cl_state w) \<Longrightarrow> page_inv (quiet_after x q) (cl_state (fst (act env quote_param x w)))"
proof (cases x)
  case Enter_as_guest
  assume inv: "page_inv q (cl_state w)"
  let ?w = "sput (asc ''access_token'') (JStr []) (sput (asc ''current_user'') guest w)"
  have "page_inv q (cl_state ?w)" using inv by (simp add: sput_def page_inv_puts page_inv_token(2) del: asc_Cons)
  moreover have "anonymous (cl_state ?w)" by (simp add: anonymous_def sget_def sput_def del: asc_Cons)
  ultimately have "page_inv True (cl_state ?w)" by (simp add: page_inv_def)
  then show ?thesis using inv_session [of True ?w env] Enter_as_guest by (simp add: continue_as_guest_def del: asc_Cons)
next
  case (Select_view v)
  then show "page_inv q (cl_state w) \<Longrightarrow> ?thesis" by (simp add: select_view_def sput_def page_inv_view del: asc_Cons)
qed (simp_all add: submit_login_def submit_register_def inv_weaken inv_login inv_register inv_new_chat inv_open_session
    inv_logout inv_submit inv_render)

lemma inv_act_all:
  "page_inv q (cl_state w) \<Longrightarrow> page_inv (signed_out q xs) (cl_state (act_all env quote_param xs w))"
  by (induction xs arbitrary: q w) (simp_all add: inv_act)

lemma inv_start: "page_inv True (init_state Map.empty)"
  by (auto simp: page_inv_def page_ok_def anonymous_def init_state_def sget_def fold_set_default session_defaults_values
      simp del: asc_Cons intro!: exI [of _ View_chat] split: option.split) code_simp+

text \<open>
  C13: Whatever the server answers and whatever the user does, the messages stay a list of
  objects with the role and content the chat reads, the navigation finds the stored view, and a page on which
  nobody logged in since it opened, the last logout or the last guest visit sends no token.
\<close>

theorem page_session_safe:
  assumes start: "cl_state w = init_state Map.empty" and run: "s = cl_state (act_all env quote_param xs w)"
  shows "(\<exists>ms. s (asc ''messages'') = Some (JArr ms) \<and>
            (\<forall>m\<in>set ms. \<exists>r c. json_item m (asc ''role'') = Inr r \<and> json_item m (asc ''content'') = Inr c)) \<and>
         (\<exists>i. nav_index s = Inr i) \<and> (signed_out True xs \<longrightarrow> bearer repr s = None)"
proof -
  have inv: "page_inv (signed_out True xs) s" unfolding run by (rule inv_act_all) (simp add: start inv_start)
  then obtain ms v where s: "s (asc ''messages'') = Some (JArr ms)" "\<forall>m\<in>set ms. message_ok m" "s (asc ''active_view'') = Some (JStr (view_key v))"
    by (auto simp: page_inv_def page_ok_def simp del: asc_Cons)
  have "\<exists>r c. json_item m (asc ''role'') = Inr r \<and> json_item m (asc ''content'') = Inr c" if "message_ok m" for m
    using that by (cases m) (auto simp del: asc_Cons)
  moreover obtain i where "nav_index s = Inr i" using nav_index_finds [of s v, OF s(3)] by blast
  moreover have "bearer repr s = None" if "signed_out True xs"
    using inv that by (simp add: page_inv_def anonymous_def bearer_def Let_def del: asc_Cons)
  ultimately show ?thesis using s(1,2) by blast
qed

section \<open>Without a server\<close>

definition unreachable :: "'s frontend \<Rightarrow> bool" where
  "unreachable env \<longleftrightarrow> (\<forall>verb url token b s. \<exists>s' e. fe_send env verb url token b s = (s', Inl e))"

lemma unreachable_request:
  assumes "unreachable env"
  obtains s e where "request_json env verb path b w = (w\<lparr>cl_server := s\<rparr>, Inl e)"
proof -
  obtain s e where "fe_send env verb (fe_url env @ path) (bearer (fe_repr env) (cl_state w)) b (cl_server w) = (s, Inl e)"
    using assms unfolding unreachable_def by blast
  then show thesis using that by (simp add: request_json_def call_def sbind_def)
qed

lemma unreachable_get:
  assumes "unreachable env" obtains s e where "get_json env path w = (w\<lparr>cl_server := s\<rparr>, Inl e)"
  using unreachable_request [OF assms] unfolding get_json_def by blast

lemma unreachable_session:
  assumes "unreachable env"
  obtains s where "cl_state (fst (ensure_chat_session env w)) = cl_state w"
  | s e where "cl_state (fst (ensure_chat_session env w)) = (cl_state w)((asc ''chat_session_error'') \<mapsto> e)"
proof -
  obtain s e where "post_json env (asc ''/api/v1/sessions'') (JObj [((asc ''title''), JStr (asc ''New chat''))]) w = (w\<lparr>cl_server := s\<rparr>, Inl e)"
    using unreachable_request [OF assms] unfolding post_json_def by blast
  then show thesis using that
    by (cases "truthy (sget (cl_state w) (asc ''chat_session_id''))") (simp_all add: ensure_chat_session_def sbind_def sput_def del: asc_Cons)
qed

definition down_health :: "exn \<Rightarrow> json" where
  "down_health e = JObj [((asc ''status''), JStr (asc ''down'')), ((asc ''error''), JStr (exn_str e))]"

definition no_docs :: json where
  "no_docs = JObj [((asc ''documents''), JArr []), ((asc ''chunks''), JInt 0), ((asc ''source_count''), JInt 0)]"

lemma down_names: "(asc ''redis'') \<noteq> (asc ''error'')" "(asc ''redis'') \<noteq> (asc ''status'')"
  by code_simp+

lemma down_parts:
  "\<exists>x. counts_line env no_docs = Inr x" "\<exists>x. render_topbar env s (down_health e) no_docs = Inr x"
  "\<exists>x. ops_metrics (down_health e) = Inr x" "\<exists>x. render_knowledge env no_docs = Inr x"
  "\<exists>x. user_card env (JObj d) (down_health e) = Inr x"
  by (simp_all add: counts_line_def render_topbar_def topbar_pills_def ops_metrics_def render_knowledge_def user_card_def
      redis_connected_def down_health_def no_docs_def down_names json_get_def json_or_def Let_def del: asc_Cons)

lemma unreachable_shown:
  assumes "unreachable env"
  shows "\<exists>x. snd (render_sidebar_sessions env w) = Inr x" "\<exists>x. snd (render_memory env w) = Inr x"
    "\<exists>e. safe_health env w = (fst (safe_health env w), down_health e)" "safe_docs env w = (fst (safe_docs env w), no_docs)"
proof -
  obtain s1 e1 where g1: "get_json env (asc ''/api/v1/sessions'') w = (w\<lparr>cl_server := s1\<rparr>, Inl e1)" by (rule unreachable_get [OF assms])
  obtain s2 e2 where g2: "get_json env (asc ''/api/v1/memories?status=active'') w = (w\<lparr>cl_server := s2\<rparr>, Inl e2)"
    by (rule unreachable_get [OF assms])
  obtain s3 e3 where g3: "get_json env (asc ''/health'') w = (w\<lparr>cl_server := s3\<rparr>, Inl e3)" by (rule unreachable_get [OF assms])
  obtain s4 e4 where g4: "get_json env (asc ''/documents'') w = (w\<lparr>cl_server := s4\<rparr>, Inl e4)" by (rule unreachable_get [OF assms])
  show "\<exists>x. snd (render_sidebar_sessions env w) = Inr x" by (simp add: render_sidebar_sessions_def g1 sbind_def del: asc_Cons)
  show "\<exists>x. snd (render_memory env w) = Inr x" by (simp add: render_memory_def g2 del: asc_Cons)
  show "\<exists>e. safe_health env w = (fst (safe_health env w), down_health e)" by (auto simp: safe_health_def g3 down_health_def simp del: asc_Cons)
  show "safe_docs env w = (fst (safe_docs env w), no_docs)" by (simp add: safe_docs_def g4 no_docs_def del: asc_Cons)
qed

lemma trace_lines_init:
  assumes "s (asc ''_app_version'') = Some (JStr app_version)" shows "trace_lines env (init_state s) = trace_lines env s"
proof -
  have "map_of session_defaults (asc ''last_trace'') = Some (JArr [])" by code_simp
  with init_state_fills [of s "(asc ''last_trace'')", OF assms] show ?thesis
    by (simp add: trace_lines_def sget_def Let_def del: asc_Cons split: option.split)
qed

lemma trace_lines_cong: "s (asc ''last_trace'') = t (asc ''last_trace'') \<Longrightarrow> trace_lines env s = trace_lines env t"
  by (simp add: trace_lines_def sget_def del: asc_Cons)

lemma mapr_all: "\<forall>x\<in>set xs. \<exists>y. f x = Inr y \<Longrightarrow> \<exists>ys. mapr f xs = Inr ys"
  by (induction xs) auto

lemma unreachable_view:
  assumes down: "unreachable env" and v: "cl_state w (asc ''active_view'') = Some (JStr (view_key v))"
    and ms: "cl_state w (asc ''messages'') = Some (JArr ms)" "\<forall>m\<in>set ms. \<exists>x. render_message env m = Inr x"
    and trace: "\<exists>x. trace_lines env (cl_state w) = Inr x"
  shows "\<exists>w' x. render_view env (down_health e) no_docs w = (w', Inr x) \<and>
    (\<forall>k. k \<noteq> (asc ''chat_session_error'') \<longrightarrow> cl_state w' k = cl_state w k)"
proof (cases v)
  case View_chat
  let ?w = "fst (ensure_chat_session env w)"
  have same: "cl_state ?w k = cl_state w k" if "k \<noteq> (asc ''chat_session_error'')" for k
    using unreachable_session [OF down, of w "cl_state ?w k = cl_state w k"] that by (simp add: fun_upd_other del: asc_Cons)
  have "(asc ''messages'') \<noteq> (asc ''chat_session_error'')" "(asc ''last_trace'') \<noteq> (asc ''chat_session_error'')" by code_simp+
  then have "cl_state ?w (asc ''messages'') = Some (JArr ms)" "cl_state ?w (asc ''last_trace'') = cl_state w (asc ''last_trace'')"
    using same ms(1) by simp_all
  then have kept: "sget (cl_state ?w) (asc ''messages'') = JArr ms" "trace_lines env (cl_state ?w) = trace_lines env (cl_state w)"
    by (simp_all add: sget_def trace_lines_cong [of "cl_state ?w" "cl_state w"] del: asc_Cons)
  obtain xs where xs: "mapr (render_message env) ms = Inr xs" using mapr_all [OF ms(2)] by blast
  obtain ls where ls: "trace_lines env (cl_state w) = Inr ls" using trace by blast
  have "render_view env (down_health e) no_docs w = render_chat env w"
    using View_chat v by (simp add: render_view_def del: asc_Cons)
  also have "\<dots> = (?w, Inr ((if ms \<noteq> [] then [] else [Hero]) @ xs @ ls))"
    by (simp add: render_chat_def kept xs ls Let_def del: asc_Cons)
  finally show ?thesis using same by blast
next
  case View_knowledge
  moreover have "(asc ''knowledge'') \<noteq> (asc ''chat'')" by code_simp
  moreover obtain x where "render_knowledge env no_docs = Inr x" using down_parts by blast
  ultimately show ?thesis using v by (simp add: render_view_def del: asc_Cons)
next
  case View_memory
  moreover have "(asc ''memory'') \<noteq> (asc ''chat'')" "(asc ''memory'') \<noteq> (asc ''knowledge'')" by code_simp+
  moreover obtain w' x where "render_memory env w = (w', Inr x)" using unreachable_shown(2) [OF down, of w] by (metis prod.collapse)
  moreover from this have "cl_state w' = cl_state w" using shown_states(2) by (metis fst_conv)
  ultimately show ?thesis using v by (simp add: render_view_def del: asc_Cons)
next
  case View_ops
  moreover have "(asc ''ops'') \<noteq> (asc ''chat'')" "(asc ''ops'') \<noteq> (asc ''knowledge'')" "(asc ''ops'') \<noteq> (asc ''memory'')" by code_simp+
  moreover obtain ms where "ops_metrics (down_health e) = Inr ms" using down_parts by blast
  moreover obtain w' t where "task_table env w = (w', t)" by (rule prod.exhaust)
  moreover from this have "cl_state w' = cl_state w" using shown_states(3) by (metis fst_conv)
  ultimately show ?thesis using v by (simp add: render_view_def render_ops_def sbind_def del: asc_Cons)
qed

lemma unreachable_sidebar:
  assumes down: "unreachable env" and v: "cl_state w (asc ''active_view'') = Some (JStr (view_key v))"
    and user: "cl_state w (asc ''current_user'') = Some (JObj d)" "d \<noteq> []"
  shows "\<exists>w' x. sidebar_nav env (down_health e) no_docs w = (w', Inr x) \<and> cl_state w' = cl_state w"
proof -
  obtain i where i: "nav_index (cl_state w) = Inr i" "fst (nav_items ! i) = view_key v"
    using nav_index_finds [of "cl_state w" v, OF v] by blast
  let ?w = "sput (asc ''active_view'') (JStr (fst (nav_items ! i))) w"
  have put: "cl_state ?w = cl_state w" using v i(2) by (simp add: sput_def fun_upd_idem del: asc_Cons)
  obtain w' x where side: "render_sidebar_sessions env ?w = (w', Inr x)"
    using unreachable_shown(1) [OF down, of ?w] by (metis prod.collapse)
  then have state: "cl_state w' = cl_state w" using shown_states(1) [of env ?w] put unfolding side by (simp del: asc_Cons)
  obtain card where card: "user_card env (JObj d) (down_health e) = Inr card" using down_parts(5) by blast
  obtain counts where counts: "counts_line env no_docs = Inr counts" using down_parts(1) by blast
  have "sget (cl_state w) (asc ''current_user'') = JObj d" using user by (simp add: sget_def del: asc_Cons)
  then show ?thesis using state by (simp add: sidebar_nav_def sbind_def card i(1) side counts del: asc_Cons)
qed

text \<open>
  C24: When the server is unreachable, a page of a signed-in user still renders completely
  in every view, as long as its own messages and trace do, and no state is lost: only the note about the failed
  chat session may be added.
\<close>

theorem page_survives_outage:
  assumes down: "unreachable env" and page: "page_ok (cl_state w)"
    and user: "cl_state w (asc ''current_user'') = Some (JObj d)" "d \<noteq> []"
    and shown: "\<forall>ms. cl_state w (asc ''messages'') = Some (JArr ms) \<longrightarrow> (\<forall>m\<in>set ms. \<exists>x. render_message env m = Inr x)"
    and trace: "\<exists>x. trace_lines env (cl_state w) = Inr x"
  shows "\<exists>w' x. render_page env w = (w', Inr x) \<and>
    (\<forall>k. k \<noteq> (asc ''chat_session_error'') \<longrightarrow> cl_state w k \<noteq> None \<longrightarrow> cl_state w' k = cl_state w k)"
proof -
  obtain ms v where s: "cl_state w (asc ''_app_version'') = Some (JStr app_version)" "cl_state w (asc ''messages'') = Some (JArr ms)"
    "cl_state w (asc ''active_view'') = Some (JStr (view_key v))" using page by (auto simp: page_ok_def simp del: asc_Cons)
  define t where "t = init_state (cl_state w)"
  have t: "t k = cl_state w k" if "cl_state w k \<noteq> None" for k
    using that init_state_fills [of "cl_state w" k, OF s(1)] by (auto simp: t_def)
  let ?w = "w\<lparr>cl_state := t\<rparr>"
  have loaded: "ensure_user_loaded env ?w = ?w"
    using t [of "(asc ''current_user'')"] user by (simp add: ensure_user_loaded_def sget_def del: asc_Cons)
  obtain w1 e where h: "safe_health env ?w = (w1, down_health e)" using unreachable_shown(3) [OF down] by blast
  obtain w2 where d: "safe_docs env w1 = (w2, no_docs)" using unreachable_shown(4) [OF down] by blast
  have w2: "cl_state w2 = t" using shown_states(5) [of env ?w] shown_states(6) [of env w1] unfolding h d by simp
  have user2: "cl_state w2 (asc ''current_user'') = Some (JObj d)" and view2: "cl_state w2 (asc ''active_view'') = Some (JStr (view_key v))"
    and ms2: "cl_state w2 (asc ''messages'') = Some (JArr ms)" using t user(1) s w2 by (simp_all del: asc_Cons)
  obtain w3 x3 where side: "sidebar_nav env (down_health e) no_docs w2 = (w3, Inr x3)" "cl_state w3 = cl_state w2"
    using unreachable_sidebar [of env w2 v d, OF down view2 user2 user(2)] by blast
  obtain x4 where top: "render_topbar env (cl_state w3) (down_health e) no_docs = Inr x4" using down_parts(2) by blast
  have trace3: "\<exists>x. trace_lines env (cl_state w3) = Inr x"
    using trace trace_lines_init [of "cl_state w" env, OF s(1)] by (simp add: side(2) w2 t_def)
  have shown3: "\<forall>m\<in>set ms. \<exists>x. render_message env m = Inr x" using shown s(2) by blast
  obtain w4 x5 where body: "render_view env (down_health e) no_docs w3 = (w4, Inr x5)"
    "\<forall>k. k \<noteq> (asc ''chat_session_error'') \<longrightarrow> cl_state w4 k = cl_state w3 k"
    using unreachable_view [of env w3 v ms e, OF down _ _ shown3 trace3] view2 ms2 side(2) by (auto simp del: asc_Cons)
  have "truthy (sget (cl_state w2) (asc ''current_user''))" using user2 user(2) by (simp add: sget_def del: asc_Cons)
  then have "render_page env w = (w4, Inr (x3 @ x4 @ x5))"
    by (simp add: render_page_def t_def [symmetric] loaded h d side(1) top body(1) sbind_def del: asc_Cons)
  then show ?thesis using body(2) side(2) w2 t by simp
qed

section \<open>Instances\<close>

text \<open>A server that answers every request with a token, and none at all.\<close>

definition token_frontend :: "unit frontend" where
  "token_frontend = (demo_frontend [] (\<lambda>_. Inr JNull))\<lparr>fe_send := (\<lambda>verb url token b s.
     (s, Inr \<lparr>ht_status = 200, ht_json = Inr (JObj [((asc ''access_token''), JStr (asc ''t''))]), ht_text = [], ht_lines = []\<rparr>))\<rparr>"

definition dead_frontend :: "unit frontend" where
  "dead_frontend = (demo_frontend [] (\<lambda>_. Inr JNull))\<lparr>fe_send := (\<lambda>verb url token b s. (s, Inl (OtherError (asc ''refused''))))\<rparr>"

definition guest_page :: "unit client" where
  "guest_page = \<lparr>cl_state = (init_state Map.empty)((asc ''current_user'') \<mapsto> guest), cl_server = ()\<rparr>"

lemma guest_page_parts:
  "page_ok (cl_state guest_page)" "cl_state guest_page (asc ''current_user'') = Some guest"
  "cl_state guest_page (asc ''messages'') = Some (JArr [])" "trace_lines env (cl_state guest_page) = Inr []"
proof -
  show "page_ok (cl_state guest_page)"
    using page_inv_puts(2) [OF inv_start, of guest] by (simp add: guest_page_def page_inv_def del: asc_Cons)
  show "cl_state guest_page (asc ''messages'') = Some (JArr [])" by (simp add: guest_page_def) code_simp
  have "cl_state guest_page (asc ''last_trace'') = Some (JArr [])" by (simp add: guest_page_def) code_simp
  then show "trace_lines env (cl_state guest_page) = Inr []" by (simp add: trace_lines_def sget_def del: asc_Cons)
qed (simp add: guest_page_def del: asc_Cons)

theorem page_session_safe_witness:
  "bearer (\<lambda>_. []) (cl_state (act_all token_frontend (\<lambda>t. t)
      [Submit_login (asc ''a@b.c'') (asc ''secret''), Select_view View_memory, Log_out, Ask (asc ''hi''), Refresh] demo_client)) = None"
proof -
  have "cl_state demo_client = init_state Map.empty" by (simp add: demo_client_def)
  from page_session_safe [OF this refl, of token_frontend "\<lambda>t. t"
      "[Submit_login (asc ''a@b.c'') (asc ''secret''), Select_view View_memory, Log_out, Ask (asc ''hi''), Refresh]" "\<lambda>_. []"]
  show ?thesis by (simp only: signed_out.simps quiet_after.simps)
qed

theorem page_survives_outage_witness:
  "\<exists>w' x. render_page dead_frontend guest_page = (w', Inr x) \<and> cl_state w' (asc ''current_user'') = Some guest"
proof -
  have user: "cl_state guest_page (asc ''current_user'') =
      Some (JObj [((asc ''username''), JStr (asc ''guest'')), ((asc ''email''), JStr (asc ''guest@local'')), ((asc ''role''), JStr (asc ''guest''))])"
    using guest_page_parts(2) by (simp only: guest_def)
  have dead: "unreachable dead_frontend" by (simp add: unreachable_def dead_frontend_def)
  have key: "(asc ''current_user'') \<noteq> (asc ''chat_session_error'')" by code_simp
  have shown: "\<forall>ms. cl_state guest_page (asc ''messages'') = Some (JArr ms) \<longrightarrow> (\<forall>m\<in>set ms. \<exists>x. render_message dead_frontend m = Inr x)"
    using guest_page_parts(3) by (simp del: asc_Cons)
  show ?thesis
    using page_survives_outage [of dead_frontend guest_page, OF dead guest_page_parts(1) user _ shown]
      guest_page_parts(2) guest_page_parts(4) [of dead_frontend] key by (fastforce simp del: asc_Cons)
qed

end
