(* ===== verification/Http_Documents.thy ===== *)
theory Http_Documents
  imports Http_Safety Documents Service_Routes
begin

text \<open>
  The rest of the HTTP application: the endpoints for documents, tasks and health, \<open>/embeddings\<close> and
  \<open>/rerank\<close>, next to those of \<open>Http_Api\<close>. The whole service is one state: the accounts, tables and cache of
  \<open>Http_Api\<close>, the knowledge base with the records and events of \<open>Documents\<close>, the reranker and the connections.
  Questions are answered on the knowledge base as it is at that moment. Reading multipart forms and
  checking \<open>EmbeddingRequest\<close> and \<open>RerankRequest\<close> are parameters, as are the task queue and the ping of Redis.
\<close>

section \<open>The service\<close>

record ('r, 'q) service =
  se_app :: "'r app"
  se_kb :: "vec kb"
  se_records :: record_db
  se_cdc :: "cdc_row list"
  se_broker :: 'q
  se_reranker :: reranker
  se_connections :: connections
  se_calls :: nat

datatype service_endpoint =
    Sp_documents | Sp_upload | Sp_upload_async | Sp_clear | Sp_delete | Sp_reindex
  | Sp_task_status | Sp_tasks
  | Sp_health | Sp_model_health | Sp_search_health | Sp_embedding_health | Sp_rerank_health
  | Sp_embeddings | Sp_rerank

record service_request =
  sq_request :: request
  sq_file :: "pystr option"

record ('r, 'q) service_env =
  sn_api :: "'r api_env"
  sn_docs :: "(vec, 'q) doc_env"
  sn_embedding_env :: embedding_env
  sn_embedding :: embedding
  sn_index :: vector_index
  sn_search :: search_config
  sn_post :: rerank_client
  sn_rerank_model :: "pystr option"
  sn_rerank_provider :: pystr
  sn_data_dir :: pystr
  sn_model_dir :: pystr
  sn_settings :: settings
  sn_model :: model_constants
  sn_redis_answer :: "bool result"
  sn_argsort :: "real list \<Rightarrow> nat list"
  sn_str :: "json \<Rightarrow> pystr"
  sn_async_result :: "pystr \<Rightarrow> (pystr \<times> json \<times> json) result"
  sn_record_tie :: "doc_record \<Rightarrow> int"
  sn_negative_limit :: exn
  sn_resolve :: "pystr \<Rightarrow> pystr \<Rightarrow> (service_endpoint \<times> fields) option"
  sn_no_file :: "json list"
  sn_embedding_body :: "json option \<Rightarrow> json list + embedding_input \<times> pystr option"
  sn_rerank_body :: "json option \<Rightarrow> json list + pystr \<times> pystr list \<times> int \<times> pystr option"

text \<open>The method and the path of each endpoint.\<close>

fun service_path :: "service_endpoint \<Rightarrow> pystr \<times> pystr" where
  "service_path Sp_documents = ((asc ''GET''), (asc ''/documents''))"
| "service_path Sp_upload = ((asc ''POST''), (asc ''/documents/upload''))"
| "service_path Sp_upload_async = ((asc ''POST''), (asc ''/api/v1/documents/upload/async''))"
| "service_path Sp_clear = ((asc ''DELETE''), (asc ''/documents''))"
| "service_path Sp_delete = ((asc ''DELETE''), (asc ''/documents/source''))"
| "service_path Sp_reindex = ((asc ''POST''), (asc ''/documents/reindex''))"
| "service_path Sp_task_status = ((asc ''GET''), (asc ''/api/v1/tasks/{task_id}''))"
| "service_path Sp_tasks = ((asc ''GET''), (asc ''/api/v1/tasks''))"
| "service_path Sp_health = ((asc ''GET''), (asc ''/health''))"
| "service_path Sp_model_health = ((asc ''GET''), (asc ''/model-health''))"
| "service_path Sp_search_health = ((asc ''GET''), (asc ''/search-health''))"
| "service_path Sp_embedding_health = ((asc ''GET''), (asc ''/embedding-health''))"
| "service_path Sp_rerank_health = ((asc ''GET''), (asc ''/rerank-health''))"
| "service_path Sp_embeddings = ((asc ''POST''), (asc ''/embeddings''))"
| "service_path Sp_rerank = ((asc ''POST''), (asc ''/rerank''))"

text \<open>The endpoints without \<open>get_current_user\<close> among their dependencies.\<close>

fun open_to_all :: "service_endpoint \<Rightarrow> bool" where
  "open_to_all Sp_upload = False"
| "open_to_all Sp_upload_async = False"
| "open_to_all Sp_clear = False"
| "open_to_all Sp_delete = False"
| "open_to_all Sp_reindex = False"
| "open_to_all Sp_task_status = False"
| "open_to_all Sp_tasks = False"
| "open_to_all _ = True"

section \<open>The arguments of an endpoint\<close>

datatype service_call =
    Call_documents
  | Call_upload pystr
  | Call_upload_async pystr
  | Call_clear
  | Call_delete pystr
  | Call_reindex
  | Call_task_status pystr
  | Call_tasks int
  | Call_health
  | Call_model_health
  | Call_search_health
  | Call_embedding_health
  | Call_rerank_health
  | Call_embeddings embedding_input "pystr option"
  | Call_rerank pystr "pystr list" int "pystr option"

definition source_param :: schema where
  "source_param = [(required (asc ''source'') T_str)\<lparr>fs_min := 1\<rparr>]"

definition task_param :: schema where
  "task_param = [required (asc ''task_id'') T_str]"

definition limit_param :: schema where
  "limit_param = [optional (asc ''limit'') T_int (JInt 20)]"

definition with_params :: "('r, 'q) service_env \<Rightarrow> schema \<Rightarrow> fields \<Rightarrow> (fields \<Rightarrow> service_call) \<Rightarrow> json list + service_call" where
  "with_params env sch raw f = (case api_check (sn_api env) sch (JObj raw) of Inl es \<Rightarrow> Inl es | Inr ps \<Rightarrow> Inr (f ps))"

definition with_file :: "('r, 'q) service_env \<Rightarrow> service_request \<Rightarrow> (pystr \<Rightarrow> service_call) \<Rightarrow> json list + service_call" where
  "with_file env rq f = (case sq_file rq of None \<Rightarrow> Inl (sn_no_file env) | Some name \<Rightarrow> Inr (f name))"

fun bound_call :: "('r, 'q) service_env \<Rightarrow> service_endpoint \<Rightarrow> fields \<Rightarrow> service_request \<Rightarrow> json list + service_call" where
  "bound_call env Sp_documents raw rq = Inr Call_documents"
| "bound_call env Sp_upload raw rq = with_file env rq Call_upload"
| "bound_call env Sp_upload_async raw rq = with_file env rq Call_upload_async"
| "bound_call env Sp_clear raw rq = Inr Call_clear"
| "bound_call env Sp_delete raw rq = with_params env source_param raw (\<lambda>ps. Call_delete (str_at ps (asc ''source'')))"
| "bound_call env Sp_reindex raw rq = Inr Call_reindex"
| "bound_call env Sp_task_status raw rq = with_params env task_param raw (\<lambda>ps. Call_task_status (str_at ps (asc ''task_id'')))"
| "bound_call env Sp_tasks raw rq = with_params env limit_param raw (\<lambda>ps. Call_tasks (int_at ps (asc ''limit'')))"
| "bound_call env Sp_health raw rq = Inr Call_health"
| "bound_call env Sp_model_health raw rq = Inr Call_model_health"
| "bound_call env Sp_search_health raw rq = Inr Call_search_health"
| "bound_call env Sp_embedding_health raw rq = Inr Call_embedding_health"
| "bound_call env Sp_rerank_health raw rq = Inr Call_rerank_health"
| "bound_call env Sp_embeddings raw rq = (case sn_embedding_body env (rq_body (sq_request rq)) of
       Inl es \<Rightarrow> Inl es | Inr (input, model) \<Rightarrow> Inr (Call_embeddings input model))"
| "bound_call env Sp_rerank raw rq = (case sn_rerank_body env (rq_body (sq_request rq)) of
       Inl es \<Rightarrow> Inl es | Inr (query, documents, top_n, model) \<Rightarrow> Inr (Call_rerank query documents top_n model))"

section \<open>What the endpoints work on\<close>

definition docs_of :: "('r, 'q) service \<Rightarrow> (vec, 'r, 'q) doc_world" where
  "docs_of s = \<lparr>dw_kb = se_kb s, dw_redis = w_redis (app_world (se_app s)),
     dw_records = (if w_tables (app_world (se_app s)) = None then None else Some (se_records s)),
     dw_cdc = se_cdc s, dw_broker = se_broker s\<rparr>"

definition put_docs :: "('r, 'q) service \<Rightarrow> (vec, 'r, 'q) doc_world \<Rightarrow> ('r, 'q) service" where
  "put_docs s w = s\<lparr>se_app := (se_app s)\<lparr>app_world := (app_world (se_app s))\<lparr>w_redis := dw_redis w\<rparr>\<rparr>, se_kb := dw_kb w,
     se_records := (case dw_records w of None \<Rightarrow> se_records s | Some db \<Rightarrow> db), se_cdc := dw_cdc w, se_broker := dw_broker w\<rparr>"

definition docs_env :: "('r, 'q) service_env \<Rightarrow> (vec, 'q) doc_env" where
  "docs_env env = (sn_docs env)\<lparr>de_kb := with_embedding (sn_embedding_env env) (sn_embedding env) (de_kb (sn_docs env))\<rparr>"

text \<open>The search node of the graph on the knowledge base of the moment.\<close>

definition search_now :: "('r, 'q) service_env \<Rightarrow> ('r, 'q) service \<Rightarrow> pystr \<Rightarrow> search_result list result" where
  "search_now env s =
     local_lookup (sn_search env) (dense_search (sn_embedding_env env) (sn_embedding env) (sn_index env) (kb_index (se_kb s)))
       (sn_post env) (sn_rerank_model env) (kb_chunks (se_kb s)) (length (kb_index (se_kb s))) (kb_bm25 (se_kb s)) (se_reranker s)"

definition graph_now :: "('r, 'q) service_env \<Rightarrow> ('r, 'q) service \<Rightarrow> graph_env" where
  "graph_now env s = (che_graph (api_chat (sn_api env)))\<lparr>ge_search := search_now env s\<rparr>"

definition api_now :: "('r, 'q) service_env \<Rightarrow> ('r, 'q) service \<Rightarrow> 'r api_env" where
  "api_now env s = (sn_api env)\<lparr>api_chat := (api_chat (sn_api env))\<lparr>che_graph := graph_now env s\<rparr>\<rparr>"

definition stats_now :: "('r, 'q) service_env \<Rightarrow> ('r, 'q) service \<Rightarrow> json" where
  "stats_now env s = kb_stats (ke_cfg (de_kb (sn_docs env))) (sn_search env)
     (backend_stats (sn_embedding env) (sn_rerank_provider env) (se_reranker s) (sn_data_dir env) (sn_model_dir env)) (se_kb s)"

section \<open>The endpoints\<close>

definition with_ok :: "json \<Rightarrow> json" where
  "with_ok report = JObj (((asc ''status''), JStr (asc ''ok'')) # entries_of report)"

text \<open>The dictionary \<open>rebuild_from_uploads\<close> returns.\<close>

definition rebuild_json :: "vec kb \<Rightarrow> rebuild_report \<Rightarrow> json" where
  "rebuild_json kb rep = JObj
     [((asc ''sources''), JArr (map JStr (rb_sources rep))), ((asc ''source_count''), JInt (int (length (rb_sources rep)))),
      ((asc ''pages''), JInt (int (rb_pages rep))), ((asc ''chunks''), JInt (int (length (kb_chunks kb)))),
      ((asc ''parent_chunks''), JInt (int (length (remdups (map c_parent_id (kb_chunks kb)))))),
      ((asc ''chunking_strategy''), JStr CHUNKING_STRATEGY)]"

definition task_record_json :: "(int \<Rightarrow> json) \<Rightarrow> doc_record \<Rightarrow> json" where
  "task_record_json date r = JObj
     [((asc ''id''), JInt (do_id r)), ((asc ''filename''), JStr (do_filename r)), ((asc ''status''), JStr (do_status r)),
      ((asc ''pages''), JInt (do_pages r)), ((asc ''chunks''), JInt (do_chunks r)),
      ((asc ''error_message''), case do_error r of None \<Rightarrow> JNull | Some e \<Rightarrow> JStr e), ((asc ''created_at''), date (do_created r))]"

text \<open>The default database refuses a negative \<open>LIMIT\<close>.\<close>

definition tasks_result :: "('r, 'q) service_env \<Rightarrow> int \<Rightarrow> record_db option \<Rightarrow> json result" where
  "tasks_result env limit records =
     (case records of
        None \<Rightarrow> Inr (JObj [((asc ''tasks''), JArr []), ((asc ''note''), JStr [0x6570,
            0x636e, 0x5e93, 0x672a, 0x914d, 0x7f6e, 0xff0c, 0x4efb, 0x52a1, 0x8bb0, 0x5f55, 0x4e0d,
            0x53ef, 0x7528])])
      | Some db \<Rightarrow>
          if limit < 0 then Inl (sn_negative_limit env)
          else Inr (JObj [((asc ''tasks''), JArr (map (task_record_json (api_date (sn_api env)))
                 (list_recent_tasks (sn_record_tie env) (nat limit) records)))]))"

definition rerank_json :: "rerank_reply \<Rightarrow> json" where
  "rerank_json rp = JObj [((asc ''model''), JStr (rp_model rp)), ((asc ''results''), JArr (map (\<lambda>r. JObj
     [((asc ''index''), JInt (rk_index r)), ((asc ''relevance_score''), JReal (rk_score r)), ((asc ''document''), JStr (rk_document r))]) (rp_results rp)))]"

type_synonym ('r, 'q) served_call = "(('r, 'q) service \<times> json result) option"

definition on_docs ::
  "('r, 'q) service \<Rightarrow> ((vec, 'r, 'q) doc_world \<times> 'a result) option \<Rightarrow>
   (('r, 'q) service \<Rightarrow> 'a \<Rightarrow> json) \<Rightarrow> ('r, 'q) served_call" where
  "on_docs s run f = map_option (\<lambda>(w, r). let s' = put_docs s w in (s', rbind r (\<lambda>x. Inr (f s' x)))) run"

definition upload_endpoint :: "('r, 'q) service_env \<Rightarrow> clock \<Rightarrow> pystr \<Rightarrow> user option \<Rightarrow> ('r, 'q) service \<Rightarrow> ('r, 'q) served_call" where
  "upload_endpoint env ck name u s =
     on_docs s (upload_document (docs_env env) (api_redis (sn_api env)) (ck_start ck) (ck_end ck) name u (docs_of s)) (\<lambda>_ j. j)"

definition upload_async_endpoint :: "('r, 'q) service_env \<Rightarrow> clock \<Rightarrow> pystr \<Rightarrow> user option \<Rightarrow> ('r, 'q) service \<Rightarrow> ('r, 'q) served_call" where
  "upload_async_endpoint env ck name u s =
     on_docs s (upload_document_async (docs_env env) (ck_start ck) name u (docs_of s)) (\<lambda>_ j. j)"

definition clear_endpoint :: "('r, 'q) service_env \<Rightarrow> user option \<Rightarrow> ('r, 'q) service \<Rightarrow> ('r, 'q) served_call" where
  "clear_endpoint env u s = on_docs s (Some (clear_documents (docs_env env) u (docs_of s))) (\<lambda>s' _. with_ok (stats_now env s'))"

definition delete_endpoint :: "('r, 'q) service_env \<Rightarrow> clock \<Rightarrow> pystr \<Rightarrow> ('r, 'q) service \<Rightarrow> ('r, 'q) served_call" where
  "delete_endpoint env ck source s = on_docs s (Some (delete_document (docs_env env) (ck_start ck) source (docs_of s))) (\<lambda>_ j. j)"

definition reindex_endpoint :: "('r, 'q) service_env \<Rightarrow> ('r, 'q) service \<Rightarrow> ('r, 'q) served_call" where
  "reindex_endpoint env s = on_docs s (reindex_documents (docs_env env) (docs_of s)) (\<lambda>s' rep. with_ok (rebuild_json (se_kb s') rep))"

definition health_endpoint :: "('r, 'q) service_env \<Rightarrow> ('r, 'q) service \<Rightarrow> ('r, 'q) served_call" where
  "health_endpoint env s =
     (case health (sn_settings env) (sn_model env) (graph_now env s) (sn_redis_answer env) (stats_now env s) (se_connections s) of
        (c, j) \<Rightarrow> Some (s\<lparr>se_connections := c\<rparr>, Inr j))"

definition model_health_endpoint :: "('r, 'q) service_env \<Rightarrow> ('r, 'q) service \<Rightarrow> ('r, 'q) served_call" where
  "model_health_endpoint env s =
     (case model_health (sn_model env) (graph_now env s) (se_calls s) of (n, r) \<Rightarrow> Some (s\<lparr>se_calls := n\<rparr>, r))"

definition rerank_health_endpoint :: "('r, 'q) service_env \<Rightarrow> ('r, 'q) service \<Rightarrow> ('r, 'q) served_call" where
  "rerank_health_endpoint env s =
     (case rerank_health (sn_post env) (sn_rerank_model env) (sn_rerank_provider env) (se_reranker s) of
        (rr, j) \<Rightarrow> Some (s\<lparr>se_reranker := rr\<rparr>, Inr j))"

definition rerank_endpoint_call ::
  "('r, 'q) service_env \<Rightarrow> pystr \<Rightarrow> pystr list \<Rightarrow> int \<Rightarrow> pystr option \<Rightarrow> ('r, 'q) service \<Rightarrow> ('r, 'q) served_call" where
  "rerank_endpoint_call env query documents top_n model s =
     (case rerank_route (sn_embedding_env env) (sn_embedding env) (sn_argsort env) (sn_post env) (sn_rerank_model env)
             query documents top_n model (se_reranker s) of
        (rr, r) \<Rightarrow> Some (s\<lparr>se_reranker := rr\<rparr>, rbind r (\<lambda>x. Inr (rerank_json x))))"

fun run_call :: "('r, 'q) service_env \<Rightarrow> clock \<Rightarrow> service_call \<Rightarrow> user option \<Rightarrow> ('r, 'q) service \<Rightarrow> ('r, 'q) served_call" where
  "run_call env ck Call_documents u s = Some (s, Inr (stats_now env s))"
| "run_call env ck (Call_upload name) u s = upload_endpoint env ck name u s"
| "run_call env ck (Call_upload_async name) u s = upload_async_endpoint env ck name u s"
| "run_call env ck Call_clear u s = clear_endpoint env u s"
| "run_call env ck (Call_delete source) u s = delete_endpoint env ck source s"
| "run_call env ck Call_reindex u s = reindex_endpoint env s"
| "run_call env ck (Call_task_status i) u s = Some (s, get_task_status (sn_str env) (sn_async_result env) i)"
| "run_call env ck (Call_tasks limit) u s = Some (s, tasks_result env limit (dw_records (docs_of s)))"
| "run_call env ck Call_health u s = health_endpoint env s"
| "run_call env ck Call_model_health u s = model_health_endpoint env s"
| "run_call env ck Call_search_health u s = Some (s, search_health (graph_now env s))"
| "run_call env ck Call_embedding_health u s = Some (s, embedding_health (sn_embedding_env env) (sn_embedding env))"
| "run_call env ck Call_rerank_health u s = rerank_health_endpoint env s"
| "run_call env ck (Call_embeddings input model) u s = Some (s, embeddings (sn_embedding_env env) (sn_embedding env) input model)"
| "run_call env ck (Call_rerank query documents top_n model) u s = rerank_endpoint_call env query documents top_n model s"

section \<open>A request to the service\<close>

definition service_caller :: "('r, 'q) service_env \<Rightarrow> service_request \<Rightarrow> service_endpoint \<Rightarrow> ('r, 'q) service \<Rightarrow> user option result" where
  "service_caller env rq ep s =
     (if open_to_all ep then Inr None
      else get_current_user (api_auth (sn_api env)) (ck_start (rq_clock (sq_request rq))) (users_of (se_app s)) (rq_auth (sq_request rq)))"

definition service_handle ::
  "('r, 'q) service_env \<Rightarrow> service_request \<Rightarrow> service_endpoint \<Rightarrow> fields \<Rightarrow> ('r, 'q) service \<Rightarrow> (('r, 'q) service \<times> outcome) option" where
  "service_handle env rq ep raw s =
     (case service_caller env rq ep s of
        Inl e \<Rightarrow> Some (s, Raised e)
      | Inr u \<Rightarrow>
          (case bound_call env ep raw rq of
             Inl errors \<Rightarrow> Some (s, Unprocessable errors)
           | Inr c \<Rightarrow> map_option (\<lambda>(s', r). (s', case r of Inl e \<Rightarrow> Raised e | Inr j \<Rightarrow> Replied (Json_reply 200 j)))
               (run_call env (rq_clock (sq_request rq)) c u s)))"

definition service_serve ::
  "('r, 'q) service_env \<Rightarrow> pystr \<Rightarrow> service_request \<Rightarrow> ('r, 'q) service \<Rightarrow> (('r, 'q) service \<times> served) option" where
  "service_serve env fresh rq s =
     (case sn_resolve env (rq_verb (sq_request rq)) (rq_target (sq_request rq)) of
        None \<Rightarrow> (case serve (api_now env s) fresh (sq_request rq) (se_app s) of (a, sv) \<Rightarrow> Some (s\<lparr>se_app := a\<rparr>, sv))
      | Some (ep, raw) \<Rightarrow>
          map_option (\<lambda>(s', out). (s', respond (request_id fresh (sq_request rq)) out)) (service_handle env rq ep raw s))"

section \<open>The state of the service\<close>

definition service_ok :: "(nat \<Rightarrow> pystr) \<Rightarrow> ('r, 'q) service \<Rightarrow> bool" where
  "service_ok uu s \<longleftrightarrow> app_ok (se_app s) \<and> doc_wf uu (docs_of s)"

lemma put_docs_app [simp]:
  "app_users (se_app (put_docs s w)) = app_users (se_app s)"
  "w_tables (app_world (se_app (put_docs s w))) = w_tables (app_world (se_app s))"
  "w_redis (app_world (se_app (put_docs s w))) = dw_redis w" "se_kb (put_docs s w) = dw_kb w"
  by (simp_all add: put_docs_def)

lemma docs_of_simps [simp]:
  "dw_kb (docs_of s) = se_kb s" "dw_redis (docs_of s) = w_redis (app_world (se_app s))"
  by (simp_all add: docs_of_def)

lemma app_ok_cong:
  "app_users a' = app_users a \<Longrightarrow> w_tables (app_world a') = w_tables (app_world a) \<Longrightarrow> app_ok a' = app_ok a"
  by (simp add: app_ok_def)

lemma put_docs_ok:
  assumes "service_ok uu s" "doc_wf uu w" shows "service_ok uu (put_docs s w)"
  using assms app_ok_cong [OF put_docs_app(1,2) [of s w]]
  by (auto simp: service_ok_def doc_wf_def docs_of_def put_docs_def split: option.splits if_splits)

lemma docs_env_simps [simp]:
  "env_ok (de_kb (docs_env env)) = env_ok (de_kb (sn_docs env))" "ke_uuid (de_kb (docs_env env)) = ke_uuid (de_kb (sn_docs env))"
  by (simp_all add: docs_env_def with_embedding_def env_ok_def)

lemma api_now_auth [simp]: "api_auth (api_now env s) = api_auth (sn_api env)"
  by (simp add: api_now_def)

text \<open>A step of the documents leaves the accounts and the other tables.\<close>

definition docs_step :: "('r, 'q) service \<Rightarrow> ('r, 'q) service \<Rightarrow> bool" where
  "docs_step s s' \<longleftrightarrow> app_users (se_app s') = app_users (se_app s) \<and>
     w_tables (app_world (se_app s')) = w_tables (app_world (se_app s))"

lemma docs_step_simps [simp]:
  "docs_step s (put_docs s w)" "docs_step s (s\<lparr>se_connections := c\<rparr>)" "docs_step s (s\<lparr>se_calls := n\<rparr>)"
  "docs_step s (s\<lparr>se_reranker := rr\<rparr>)" "docs_step s s"
  by (simp_all add: docs_step_def)

lemma service_ok_simps [simp]:
  "service_ok uu (s\<lparr>se_connections := c\<rparr>) = service_ok uu s" "service_ok uu (s\<lparr>se_calls := n\<rparr>) = service_ok uu s"
  "service_ok uu (s\<lparr>se_reranker := rr\<rparr>) = service_ok uu s"
  by (simp_all add: service_ok_def docs_of_def)

lemma on_docs_ok:
  assumes "service_ok uu s" "\<exists>w r. run = Some (w, r) \<and> doc_wf uu w"
  shows "\<exists>s' r. on_docs s run f = Some (s', r) \<and> service_ok uu s' \<and> docs_step s s'"
  using assms put_docs_ok by (auto simp: on_docs_def Let_def)

lemma exec_wf:
  assumes "env_ok (de_kb env)" "ke_uuid (de_kb env) = uu" "doc_wf uu w" "doc_exec (\<lambda>_. env) (\<lambda>_. t) rd u req w = Some w'"
  shows "doc_wf uu w'"
  using documents_stay_wf [of "\<lambda>_. env", OF assms(1,2,3), of "\<lambda>_. t" rd u req] assms(4) by auto

lemma run_call_ok:
  assumes env: "env_ok (de_kb (sn_docs env))" "ke_uuid (de_kb (sn_docs env)) = uu" and ok: "service_ok uu s"
  shows "\<exists>s' r. run_call env ck c u s = Some (s', r) \<and> service_ok uu s' \<and> docs_step s s'"
proof -
  note env = env [folded docs_env_simps]
  have wf: "doc_wf uu (docs_of s)" using ok by (simp add: service_ok_def)
  have del: "doc_wf uu (fst (delete_document (docs_env env) t source (docs_of s)))" for t source
    by (rule exec_wf [OF env wf, where req = "Do_delete source"]) simp
  have clr: "doc_wf uu (fst (clear_documents (docs_env env) u (docs_of s)))"
    by (rule exec_wf [OF env wf, where req = Do_clear]) simp
  show ?thesis
  proof (cases c)
    case (Call_upload name)
    then show ?thesis using on_docs_ok [OF ok upload_wf [OF env wf]] by (simp add: upload_endpoint_def)
  next
    case (Call_upload_async name)
    then show ?thesis using on_docs_ok [OF ok async_wf [OF env wf]] by (simp add: upload_async_endpoint_def)
  next
    case Call_clear
    then show ?thesis unfolding Call_clear run_call.simps clear_endpoint_def
      using clr by (intro on_docs_ok [OF ok]) (simp add: prod_eq_iff)
  next
    case (Call_delete source)
    then show ?thesis unfolding Call_delete run_call.simps delete_endpoint_def
      using del by (intro on_docs_ok [OF ok]) (simp add: prod_eq_iff)
  next
    case Call_reindex
    then show ?thesis using on_docs_ok [OF ok reindex_wf [OF env wf]] by (simp add: reindex_endpoint_def)
  qed (use ok in \<open>auto simp: health_endpoint_def model_health_endpoint_def rerank_health_endpoint_def rerank_endpoint_call_def
      split: prod.splits\<close>)
qed

lemma service_handle_ok:
  assumes "env_ok (de_kb (sn_docs env))" "ke_uuid (de_kb (sn_docs env)) = uu" "service_ok uu s"
  shows "\<exists>s' out. service_handle env rq ep raw s = Some (s', out) \<and> service_ok uu s' \<and> docs_step s s'"
  using assms(3) run_call_ok [OF assms] by (fastforce simp: service_handle_def split: sum.split)

lemma app_step_ok_service:
  assumes "app_step i (se_app s) a" "service_ok uu s" shows "service_ok uu (s\<lparr>se_app := a\<rparr>)"
proof -
  have "w_tables (app_world a) = None \<longleftrightarrow> w_tables (app_world (se_app s)) = None"
    using assms(1) by (auto simp: app_step_def owner_step_def split: option.splits)
  then show ?thesis using app_step_ok [OF assms(1)] assms(2)
    by (auto simp: service_ok_def doc_wf_def docs_of_def split: if_splits)
qed

text \<open>Every request is a step of the accounts and tables in the name of its caller, and leaves a good state good.\<close>

lemma service_step:
  assumes env: "env_ok (de_kb (sn_docs env))" "ke_uuid (de_kb (sn_docs env)) = uu" and ok: "service_ok uu s"
  obtains s' sv i where "service_serve env fresh rq s = Some (s', sv)" "service_ok uu s'" "app_step i (se_app s) (se_app s')"
    "\<And>v. not_from v (sn_api env) (sq_request rq) \<Longrightarrow> Some v \<noteq> i"
proof (cases "sn_resolve env (rq_verb (sq_request rq)) (rq_target (sq_request rq))")
  case None
  obtain a sv where run: "serve (api_now env s) fresh (sq_request rq) (se_app s) = (a, sv)" by (rule prod.exhaust)
  obtain i where i: "app_step i (se_app s) a" "\<forall>v. not_from v (api_now env s) (sq_request rq) \<longrightarrow> Some v \<noteq> i"
    using serve_step [OF run] by blast
  show ?thesis
    by (rule that [of "s\<lparr>se_app := a\<rparr>" sv i])
      (use None run i app_step_ok_service [OF i(1) ok] in \<open>simp_all add: service_serve_def not_from_def\<close>)
next
  case (Some er)
  obtain ep raw where er: "er = (ep, raw)" by (rule prod.exhaust)
  obtain s' out where h: "service_handle env rq ep raw s = Some (s', out)" "service_ok uu s'" "docs_step s s'"
    using service_handle_ok [OF env ok] by blast
  have "app_step None (se_app s) (se_app s')" using h(3) by (simp add: docs_step_def app_step_def)
  then show ?thesis using that [of s' "respond (request_id fresh (sq_request rq)) out" None] h Some er
    by (simp add: service_serve_def)
qed

section \<open>Requests in a row\<close>

text \<open>The environment may change between requests.\<close>

fun service_run :: "(('r, 'q) service_env \<times> pystr \<times> service_request) list \<Rightarrow> ('r, 'q) service \<Rightarrow> ('r, 'q) service option" where
  "service_run [] s = Some s"
| "service_run ((env, fresh, rq) # rqs) s =
     (case service_serve env fresh rq s of None \<Rightarrow> None | Some (s', sv) \<Rightarrow> service_run rqs s')"

text \<open>C11: whatever requests reach the service - uploads, deletions, rebuilds, questions, logins,
  health checks, in any order, with any outcome of the libraries - each is answered, and afterwards the
  accounts, sessions, memories, chunks and document records are well formed; accounts are only added,
  never as administrators; and the memories of a user are untouched by requests without a token of theirs.\<close>

theorem service_stays_wf:
  assumes "\<forall>(env, fresh, rq)\<in>set rqs. env_ok (de_kb (sn_docs env)) \<and> ke_uuid (de_kb (sn_docs env)) = uu"
    and "service_ok uu s"
  shows "\<exists>s'. service_run rqs s = Some s' \<and> service_ok uu s' \<and>
    (\<exists>new. ud_users (app_users (se_app s')) = ud_users (app_users (se_app s)) @ new \<and> (\<forall>u\<in>set new. u_role u = Role_user)) \<and>
    ((\<forall>(env, fresh, rq)\<in>set rqs. not_from v (sn_api env) (sq_request rq)) \<longrightarrow>
       memory_view (Some v) (se_app s') = memory_view (Some v) (se_app s))"
  using assms
proof (induction rqs s rule: service_run.induct)
  case (2 env fresh rq rqs s)
  from "2.prems" have env: "env_ok (de_kb (sn_docs env))" "ke_uuid (de_kb (sn_docs env)) = uu" by auto
  obtain s1 sv i where one: "service_serve env fresh rq s = Some (s1, sv)" "service_ok uu s1" "app_step i (se_app s) (se_app s1)"
    "\<And>v. not_from v (sn_api env) (sq_request rq) \<Longrightarrow> Some v \<noteq> i"
    by (rule service_step [OF env "2.prems"(2), of fresh rq]) blast
  have "app_ok (se_app s)" using "2.prems"(2) by (simp add: service_ok_def)
  then have view: "not_from v (sn_api env) (sq_request rq) \<Longrightarrow> memory_view (Some v) (se_app s1) = memory_view (Some v) (se_app s)"
    using app_step_view [OF one(3)] one(4) by blast
  have rest: "\<forall>(env, fresh, rq)\<in>set rqs. env_ok (de_kb (sn_docs env)) \<and> ke_uuid (de_kb (sn_docs env)) = uu"
    using "2.prems"(1) by auto
  obtain s' new where s': "service_run rqs s1 = Some s'" "service_ok uu s'"
    "ud_users (app_users (se_app s')) = ud_users (app_users (se_app s1)) @ new" "\<forall>u\<in>set new. u_role u = Role_user"
    "(\<forall>(env, fresh, rq)\<in>set rqs. not_from v (sn_api env) (sq_request rq)) \<longrightarrow>
       memory_view (Some v) (se_app s') = memory_view (Some v) (se_app s1)"
    using "2.IH" [OF one(1) refl rest one(2)] by blast
  obtain new1 where "ud_users (app_users (se_app s1)) = ud_users (app_users (se_app s)) @ new1" "\<forall>u\<in>set new1. u_role u = Role_user"
    using app_step_users_grow [OF one(3)] by blast
  then have "ud_users (app_users (se_app s')) = ud_users (app_users (se_app s)) @ (new1 @ new) \<and> (\<forall>u\<in>set (new1 @ new). u_role u = Role_user)"
    using s'(3,4) by auto
  then show ?case using one(1) s'(1,2,5) view by (intro exI [of _ s']) (auto simp del: set_append)
qed simp

section \<open>Who may change the documents\<close>

lemma service_handle_cases:
  assumes "service_handle env rq ep raw s = Some (s', out)"
  obtains (refused) e where "s' = s" "out = Raised e"
  | (invalid) es where "s' = s" "out = Unprocessable es"
  | (called) cu c r where "service_caller env rq ep s = Inr cu" "bound_call env ep raw rq = Inr c"
      "run_call env (rq_clock (sq_request rq)) c cu s = Some (s', r)"
      "out = (case r of Inl e \<Rightarrow> Raised e | Inr j \<Rightarrow> Replied (Json_reply 200 j))"
proof (cases "service_caller env rq ep s")
  case (Inl e)
  then show ?thesis using assms refused [of e] by (simp add: service_handle_def)
next
  case (Inr cu)
  then show ?thesis using assms invalid called
    by (cases "bound_call env ep raw rq")
      (auto simp: service_handle_def simp del: bound_call.simps run_call.simps split: prod.split_asm)
qed

definition docs_part :: "('r, 'q) service \<Rightarrow> vec kb \<times> record_db \<times> cdc_row list \<times> 'q" where
  "docs_part s = (se_kb s, se_records s, se_cdc s, se_broker s)"

lemma docs_part_simps [simp]:
  "docs_part (s\<lparr>se_connections := c\<rparr>) = docs_part s" "docs_part (s\<lparr>se_calls := n\<rparr>) = docs_part s"
  "docs_part (s\<lparr>se_reranker := rr\<rparr>) = docs_part s" "docs_part (s\<lparr>se_app := a\<rparr>) = docs_part s"
  by (simp_all add: docs_part_def)

definition changing :: "service_endpoint list" where
  "changing = [Sp_upload, Sp_upload_async, Sp_clear, Sp_delete, Sp_reindex]"

lemma changing_closed: "ep \<in> set changing \<Longrightarrow> \<not> open_to_all ep"
  by (auto simp: changing_def)

lemma only_changing:
  assumes "bound_call env ep raw rq = Inr c" "run_call env ck c u s = Some (s', r)" "docs_part s' \<noteq> docs_part s"
  shows "ep \<in> set changing"
  using assms
  by (cases ep) (auto simp: changing_def with_params_def health_endpoint_def model_health_endpoint_def rerank_health_endpoint_def
      rerank_endpoint_call_def split: sum.splits prod.splits)

lemma docs_part_put: "docs_part (put_docs s (docs_of s)) = docs_part s"
  by (simp add: docs_part_def put_docs_def docs_of_def)

lemma clear_by_admin:
  assumes "run_call env ck Call_clear u s = Some (s', r)" "docs_part s' \<noteq> docs_part s"
  obtains a where "require_admin u = Inr a"
  using assms by (cases "require_admin u") (auto simp: clear_endpoint_def on_docs_def Let_def clear_documents_def docs_part_put)

text \<open>C34: when authentication is required and there is a database, nothing but a request to
  one of the five document endpoints changes the chunks, uploads, records or published changes, and only
  with a token that names an active account of the table; the endpoint that clears everything needs an
  account whose row has the administrator role.\<close>

theorem document_changes_authorised:
  assumes auth: "ae_require_auth (api_auth (sn_api env))" and tables: "w_tables (app_world (se_app s)) \<noteq> None"
    and ok: "users_ok (app_users (se_app s))" and run: "service_serve env fresh rq s = Some (s', sv)"
    and changed: "docs_part s' \<noteq> docs_part s"
  shows "\<exists>u\<in>set (ud_users (app_users (se_app s))). u_active u \<and>
    names_user (api_auth (sn_api env)) (ck_start (rq_clock (sq_request rq))) (rq_auth (sq_request rq)) u \<and>
    (\<exists>ep raw. sn_resolve env (rq_verb (sq_request rq)) (rq_target (sq_request rq)) = Some (ep, raw) \<and> ep \<in> set changing \<and>
       (ep = Sp_clear \<longrightarrow> u_role u = Role_admin))"
proof -
  obtain ep raw out where res: "sn_resolve env (rq_verb (sq_request rq)) (rq_target (sq_request rq)) = Some (ep, raw)"
    and h: "service_handle env rq ep raw s = Some (s', out)"
    using run changed by (auto simp: service_serve_def split: option.splits prod.splits)
  obtain cu c r where who: "service_caller env rq ep s = Inr cu" and c: "bound_call env ep raw rq = Inr c"
    and call: "run_call env (rq_clock (sq_request rq)) c cu s = Some (s', r)"
    using h changed by (cases rule: service_handle_cases) auto
  have ep: "ep \<in> set changing" by (rule only_changing [OF c call changed])
  have cur: "get_current_user (api_auth (sn_api env)) (ck_start (rq_clock (sq_request rq))) (Some (app_users (se_app s)))
      (rq_auth (sq_request rq)) = Inr cu"
    using who tables changing_closed [OF ep] by (simp add: service_caller_def users_of_def)
  then obtain u where u: "cu = Some u" using current_user_required [OF auth] by (cases cu) auto
  have "u_role u = Role_admin" if "ep = Sp_clear"
  proof -
    from c that have "c = Call_clear" by simp
    then obtain a where "require_admin cu = Inr a" using clear_by_admin call changed by metis
    then show ?thesis using u by (auto simp: require_admin_def split: if_splits)
  qed
  then show ?thesis using current_user_row [OF ok] cur u res ep by blast
qed

section \<open>What a deletion reaches\<close>

lemma delete_call:
  assumes "run_call env ck (Call_delete source) u s = Some (s', Inr j)" "py_strip source \<noteq> []"
  shows "(\<forall>ch\<in>set (kb_chunks (se_kb s')). c_source ch \<noteq> py_strip source) \<and> app_world (se_app s') = app_world (se_app s)"
proof -
  obtain kb1 d where del: "delete_source (de_kb (docs_env env)) source (se_kb s) = (kb1, d)" by (rule prod.exhaust)
  obtain d' where d': "d = Inr d'"
    using assms(1) del by (cases d) (auto simp: delete_endpoint_def on_docs_def delete_document_def Let_def simp del: asc_Cons)
  obtain w a b where ann: "announce_delete (docs_env env) (ck_start ck) source (docs_of s\<lparr>dw_kb := kb1\<rparr>) = (w, a, b)"
    by (rule prod_cases3)
  have "s' = put_docs s w"
    using assms(1) del d' ann by (auto simp: delete_endpoint_def on_docs_def delete_document_def Let_def simp del: asc_Cons)
  moreover have "dw_kb w = kb1 \<and> dw_redis w = w_redis (app_world (se_app s))" using announce_delete_simps [OF ann] by simp
  moreover have "\<forall>ch\<in>set (kb_chunks kb1). c_source ch \<noteq> py_strip source"
    using delete_chunks [OF del [unfolded d'] assms(2)] by (simp add: remove_source_def)
  ultimately show ?thesis by (simp add: put_docs_def)
qed

lemma lookup_now [simp]: "cache_lookup (api_chat (api_now env s)) rd t q i w = cache_lookup (api_chat (sn_api env)) rd t q i w"
  by (cases rd) (simp_all add: cache_lookup_def api_now_def)

lemma search_now_source:
  "search_now env s q = Inr rs \<Longrightarrow> r \<in> set rs \<Longrightarrow> \<exists>ch\<in>set (kb_chunks (se_kb s)). sr_source r = c_source ch"
  using kb_evidence.lookup_grounded unfolding search_now_def by (fastforce simp: quotes_def)

text \<open>C29: after a successful \<open>DELETE /documents/source\<close> no search of the graph returns anything of
  the document. But the deletion does not touch the answer cache (\<open>invalidate_cache\<close> is called nowhere): whatever
  question without a session the cache answered before, it answers in the same way after, so an answer made from the
  document, with the sources it cites, is given until the entry expires.\<close>

theorem deletion_misses_cache:
  assumes src: "bound_call env Sp_delete raw rq = Inr (Call_delete source)" "py_strip source \<noteq> []"
    and run: "service_handle env rq Sp_delete raw s = Some (s', Replied rep)"
  shows "(\<forall>q rs. search_now env' s' q = Inr rs \<longrightarrow> (\<forall>r\<in>set rs. sr_source r \<noteq> py_strip source)) \<and>
    (\<forall>ops ck q u cached. cache_lookup (api_chat (sn_api env')) (Some ops) (ck_start ck) q None (app_world (se_app s)) = Some cached \<longrightarrow>
       run_chat (api_chat (api_now env' s')) (Some ops) ck q None u (app_world (se_app s')) =
         (app_world (se_app s'), set_items [((asc ''cached''), JBool True), ((asc ''duration_ms''), JInt 0)] cached))"
proof -
  obtain u j where call: "run_call env (rq_clock (sq_request rq)) (Call_delete source) u s = Some (s', Inr j)"
    using run src(1) by (cases rule: service_handle_cases) (auto simp del: run_call.simps bound_call.simps split: sum.split_asm)
  note del = delete_call [OF call src(2)]
  have "run_chat (api_chat (api_now env' s')) (Some ops) ck q None u (app_world (se_app s')) =
      (app_world (se_app s'), set_items [((asc ''cached''), JBool True), ((asc ''duration_ms''), JInt 0)] cached)"
    if "cache_lookup (api_chat (sn_api env')) (Some ops) (ck_start ck) q None (app_world (se_app s)) = Some cached"
    for ops ck q u cached using that del by (simp add: run_chat_def del: asc_Cons)
  moreover have "sr_source r \<noteq> py_strip source" if "search_now env' s' q = Inr rs" "r \<in> set rs" for q rs r
    using search_now_source [OF that] del by auto
  ultimately show ?thesis by blast
qed

section \<open>An instance\<close>

definition service_endpoints :: "service_endpoint list" where
  "service_endpoints = [Sp_documents, Sp_upload, Sp_upload_async, Sp_clear, Sp_delete, Sp_reindex, Sp_task_status, Sp_tasks,
     Sp_health, Sp_model_health, Sp_search_health, Sp_embedding_health, Sp_rerank_health, Sp_embeddings, Sp_rerank]"

definition demo_service_config :: "(server, json list) service_env" where
  "demo_service_config = \<lparr>sn_api = demo_api\<lparr>api_auth := demo_auth\<lparr>ae_require_auth := True\<rparr>\<rparr>,
     sn_docs = \<lparr>de_kb = demo_vec_env, de_cdc_enabled = False, de_cdc_url = [], de_cdc_up = False, de_kafka_servers = [],
       de_kafka_send = (\<lambda>k ev q. (q @ [ev], Inr ())), de_dispatch = (\<lambda>p f u. Inr (asc ''t1''))\<rparr>,
     sn_embedding_env = demo_service_env, sn_embedding = demo_backend True, sn_index = flat_search, sn_search = default_config,
     sn_post = (\<lambda>n ep m q ds k. Inl (OtherError [])), sn_rerank_model = None, sn_rerank_provider = [], sn_data_dir = (asc ''data''),
     sn_model_dir = (asc ''models''), sn_settings = default_settings, sn_model = \<lparr>mc_name = [], mc_base_url = [], mc_max_tokens = 1\<rparr>,
     sn_redis_answer = Inr True, sn_argsort = sort_positions, sn_str = (\<lambda>_. []),
     sn_async_result = (\<lambda>i. Inr ((asc ''PENDING''), JNull, JNull)), sn_record_tie = do_id, sn_negative_limit = OtherError [],
     sn_resolve = (\<lambda>verb target. map_option (\<lambda>ep. (ep, [])) (find (\<lambda>ep. service_path ep = (verb, target)) service_endpoints)),
     sn_no_file = [JNull], sn_embedding_body = (\<lambda>_. Inl [JNull]), sn_rerank_body = (\<lambda>_. Inl [JNull])\<rparr>"

definition demo_running :: "(server, json list) service" where
  "demo_running = \<lparr>se_app = demo_app, se_kb = demo_indexed, se_records = \<lparr>rc_rows = [], rc_next = 1\<rparr>, se_cdc = [], se_broker = [],
     se_reranker = reranker_init False [] [], se_connections = no_connections, se_calls = 0\<rparr>"

definition admin_request :: "pystr \<Rightarrow> pystr \<Rightarrow> service_request" where
  "admin_request verb target = \<lparr>sq_request = (demo_request verb target None)
       \<lparr>rq_auth := Some (Accounts.bearer (create_access_token demo_auth 0 1 (asc ''user'')))\<rparr>, sq_file = None\<rparr>"

lemma demo_running_ok: "service_ok show_nat demo_running"
  using demo_app_ok demo_indexed_ok(2)
  by (simp add: service_ok_def doc_wf_def docs_of_def demo_running_def kb_wf_def records_ok_def demo_vec_env_def)

lemma demo_config_ok: "env_ok (de_kb (sn_docs demo_service_config))" "ke_uuid (de_kb (sn_docs demo_service_config)) = show_nat"
  using demo_env_ok(1) by (simp_all add: demo_service_config_def env_ok_def demo_vec_env_def demo_env_def)

lemma demo_caller: "\<not> open_to_all ep \<Longrightarrow> service_caller demo_service_config (admin_request verb target) ep demo_running = Inr (Some demo_admin)"
proof -
  have "get_current_user (demo_auth\<lparr>ae_require_auth := True\<rparr>) (ck_start demo_clock) (Some demo_users)
      (Some (Accounts.bearer (create_access_token demo_auth 0 1 (asc ''user'')))) = Inr (Some demo_admin)" by code_simp
  then show "\<not> open_to_all ep \<Longrightarrow> ?thesis"
    by (simp add: service_caller_def demo_service_config_def admin_request_def demo_request_def demo_running_def users_of_def
        demo_app_def demo_api_def del: asc_Cons)
qed

theorem service_stays_wf_witness:
  "\<exists>s'. service_run [(demo_service_config, (asc ''r1''), admin_request (asc ''DELETE'') (asc ''/documents'')),
       (demo_service_config, (asc ''r2''), admin_request (asc ''GET'') (asc ''/documents''))] demo_running = Some s' \<and> service_ok show_nat s'"
proof -
  have "\<forall>(env, fresh, rq)\<in>set [(demo_service_config, (asc ''r1''), admin_request (asc ''DELETE'') (asc ''/documents'')),
       (demo_service_config, (asc ''r2''), admin_request (asc ''GET'') (asc ''/documents''))].
     env_ok (de_kb (sn_docs env)) \<and> ke_uuid (de_kb (sn_docs env)) = show_nat"
    using demo_config_ok by (simp del: asc_Cons)
  from service_stays_wf [OF this demo_running_ok] show ?thesis by blast
qed

lemma demo_clear:
  obtains s' sv where "service_serve demo_service_config (asc ''r1'') (admin_request (asc ''DELETE'') (asc ''/documents'')) demo_running = Some (s', sv)"
    "docs_part s' \<noteq> docs_part demo_running"
proof -
  let ?rq = "admin_request (asc ''DELETE'') (asc ''/documents'')"
  obtain kb1 r where clr: "clear (de_kb (docs_env demo_service_config)) demo_indexed = (kb1, r)" by (rule prod.exhaust)
  have empty: "kb_chunks kb1 = []" using commit_state [OF clr [unfolded clear_def]] by simp
  have res: "find (\<lambda>ep. service_path ep = ((asc ''DELETE''), (asc ''/documents''))) service_endpoints = Some Sp_clear" by code_simp
  obtain s' out where h: "service_handle demo_service_config ?rq Sp_clear [] demo_running = Some (s', out)" "se_kb s' = kb1"
    using demo_caller [of Sp_clear "(asc ''DELETE'')" "(asc ''/documents'')"] clr
    by (simp add: service_handle_def clear_endpoint_def on_docs_def clear_documents_def require_admin_def demo_admin_def Let_def
        demo_running_def split: sum.split del: asc_Cons)
  have "service_serve demo_service_config (asc ''r1'') ?rq demo_running = Some (s', respond (request_id (asc ''r1'') (sq_request ?rq)) out)"
    using h(1) res by (simp add: service_serve_def demo_service_config_def admin_request_def demo_request_def del: asc_Cons)
  moreover have "kb_chunks (se_kb s') \<noteq> kb_chunks (se_kb demo_running)"
    using h(2) empty by (simp add: demo_running_def demo_indexed_def Let_def)
  then have "docs_part s' \<noteq> docs_part demo_running" by (auto simp: docs_part_def)
  ultimately show thesis by (rule that)
qed

theorem document_changes_authorised_witness:
  "\<exists>s' sv. service_serve demo_service_config (asc ''r1'') (admin_request (asc ''DELETE'') (asc ''/documents'')) demo_running = Some (s', sv) \<and>
     docs_part s' \<noteq> docs_part demo_running \<and>
     (\<exists>u\<in>set (ud_users demo_users). names_user (demo_auth\<lparr>ae_require_auth := True\<rparr>) (ck_start demo_clock)
        (rq_auth (sq_request (admin_request (asc ''DELETE'') (asc ''/documents'')))) u)"
proof -
  obtain s' sv where run: "service_serve demo_service_config (asc ''r1'') (admin_request (asc ''DELETE'') (asc ''/documents'')) demo_running = Some (s', sv)"
    "docs_part s' \<noteq> docs_part demo_running" by (rule demo_clear)
  have "ae_require_auth (api_auth (sn_api demo_service_config))" by (simp add: demo_service_config_def)
  moreover have "w_tables (app_world (se_app demo_running)) \<noteq> None" "users_ok (app_users (se_app demo_running))"
    using demo_users_ok by (simp_all add: demo_running_def demo_app_def)
  ultimately show ?thesis using document_changes_authorised [OF _ _ _ run] run
    by (fastforce simp: demo_service_config_def demo_running_def demo_app_def admin_request_def demo_request_def simp del: asc_Cons)
qed

text \<open>An answer that cites the document, kept on the server under the question "hi".\<close>

definition citing_answer :: json where
  "citing_answer = response_json (demo_response\<lparr>rs_sources := [JObj [((asc ''source''), JStr (asc ''a.pdf''))]]\<rparr>)"

definition citing_config :: "(server, json list) service_env" where
  "citing_config = demo_service_config\<lparr>sn_api := demo_api\<lparr>api_auth := demo_auth\<lparr>ae_require_auth := True\<rparr>,
     api_chat := demo_chat\<lparr>che_cache := (che_cache demo_chat)\<lparr>ce_loads := (\<lambda>_. Inr citing_answer)\<rparr>\<rparr>\<rparr>\<rparr>"

definition answered_running :: "(server, json list) service" where
  "answered_running = demo_running\<lparr>se_app := demo_app\<lparr>app_world := (app_world demo_app)
     \<lparr>w_redis := [cache_key (che_cache demo_chat) (asc ''hi'') \<mapsto> ([1], Some 900)]\<rparr>\<rparr>\<rparr>"

lemma citing_lookup:
  "cache_lookup (api_chat (sn_api citing_config)) (Some spec_redis) (ck_start demo_clock) (asc ''hi'') None (app_world (se_app answered_running)) =
     Some citing_answer"
  by (simp add: cache_lookup_def personal_def get_cached_answer_def citing_config_def answered_running_def demo_clock_def
      spec_redis_def alive_def cache_key_def demo_chat_def demo_cache_def citing_answer_def response_json_def del: asc_Cons)

theorem deletion_misses_cache_witness:
  "\<exists>s' rep. service_handle citing_config (admin_request (asc ''DELETE'') (asc ''/documents/source'')) Sp_delete [((asc ''source''), JStr (asc ''a.pdf''))]
       answered_running = Some (s', Replied rep) \<and>
     (\<forall>q rs. search_now citing_config s' q = Inr rs \<longrightarrow> (\<forall>r\<in>set rs. sr_source r \<noteq> (asc ''a.pdf''))) \<and>
     run_chat (api_chat (api_now citing_config s')) (Some spec_redis) demo_clock (asc ''hi'') None None (app_world (se_app s')) =
       (app_world (se_app s'), set_items [((asc ''cached''), JBool True), ((asc ''duration_ms''), JInt 0)] citing_answer) \<and>
     json_get citing_answer (asc ''sources'') = Inr (JArr [JObj [((asc ''source''), JStr (asc ''a.pdf''))]])"
proof -
  let ?rq = "admin_request (asc ''DELETE'') (asc ''/documents/source'')"
  have src: "bound_call citing_config Sp_delete [((asc ''source''), JStr (asc ''a.pdf''))] ?rq = Inr (Call_delete (asc ''a.pdf''))"
    by (simp add: with_params_def citing_config_def demo_service_config_def demo_api_def source_param_def strict_check_def conforms_def field_ok_def
        in_lengths_def required_def str_at_def)
  have strip: "py_strip (asc ''a.pdf'') = (asc ''a.pdf'')" by code_simp
  let ?env = "de_kb (docs_env citing_config)"
  obtain kb1 where com: "commit ?env [] (demo_indexed\<lparr>kb_uploads := []\<rparr>) = (kb1, Inr ())"
    by (simp add: commit_def rebuild_index_def save_chunks_def)
  have base: "kb_uploads demo_indexed = []" "filter (\<lambda>c. c_source c \<noteq> (asc ''a.pdf'')) (kb_chunks demo_indexed) = []"
    by (simp_all add: demo_indexed_def demo_chunk_def Let_def del: asc_Cons)
  have "(asc ''a.pdf'') \<noteq> []" by code_simp
  then obtain d where "delete_source ?env (asc ''a.pdf'') demo_indexed = (kb1, Inr d)"
    using com by (simp add: delete_source_def strip upload_files_for_source_def pdf_uploads_def base del: asc_Cons)
  then have del: "delete_source ?env (asc ''a.pdf'') (se_kb answered_running) = (kb1, Inr d)"
    by (simp add: answered_running_def demo_running_def)
  obtain w a b where ann: "announce_delete (docs_env citing_config) (ck_start (rq_clock (sq_request ?rq))) (asc ''a.pdf'')
      (docs_of answered_running\<lparr>dw_kb := kb1\<rparr>) = (w, a, b)" by (rule prod_cases3)
  have "get_current_user (demo_auth\<lparr>ae_require_auth := True\<rparr>) (ck_start demo_clock) (Some demo_users)
      (Some (Accounts.bearer (create_access_token demo_auth 0 1 (asc ''user'')))) = Inr (Some demo_admin)" by code_simp
  then have who: "service_caller citing_config ?rq Sp_delete answered_running = Inr (Some demo_admin)"
    by (simp add: service_caller_def citing_config_def admin_request_def demo_request_def answered_running_def demo_running_def
        users_of_def demo_app_def del: asc_Cons)
  obtain s' rep where h: "service_handle citing_config ?rq Sp_delete [((asc ''source''), JStr (asc ''a.pdf''))] answered_running =
      Some (s', Replied rep)"
    using who src ann del
    by (auto simp: service_handle_def delete_endpoint_def on_docs_def delete_document_def Let_def
        simp del: asc_Cons bound_call.simps)
  have "json_get citing_answer (asc ''sources'') = Inr (JArr [JObj [((asc ''source''), JStr (asc ''a.pdf''))]])"
    by (simp add: citing_answer_def response_json_def json_get_def)
  then show ?thesis using deletion_misses_cache [OF src _ h, of citing_config] strip citing_lookup h by auto
qed

end
