(* ===== verification/Cached_Store.thy ===== *)
theory Cached_Store
  imports Prelude
begin

text \<open>
  The contract of a value that is kept in a file and, in every process, in memory: a reading step takes the memory over
  from the file, a writing step applies its effect to the memory and writes the result. The lemmas of the locale say
  when the effects of all writers are kept, and what a writer with a stale memory does to those of the others.
\<close>

fun all_steps :: "('p \<Rightarrow> 'a \<Rightarrow> 'd \<Rightarrow> 'd \<Rightarrow> bool) \<Rightarrow> ('p \<times> 'a) list \<Rightarrow> 'd \<Rightarrow> 'd \<Rightarrow> bool" where
  "all_steps step [] d d' = (d' = d)"
| "all_steps step ((p, a) # cs) d d' = (\<exists>d1. step p a d d1 \<and> all_steps step cs d1 d')"

text \<open>Who reads becomes current; who writes must be current, and is then the only one.\<close>

fun fresh_calls :: "('a \<Rightarrow> bool) \<Rightarrow> ('a \<Rightarrow> bool) \<Rightarrow> 'p set \<Rightarrow> ('p \<times> 'a) list \<Rightarrow> bool" where
  "fresh_calls reads writes F [] = True"
| "fresh_calls reads writes F ((p, a) # cs) =
     (if reads a then fresh_calls reads writes (insert p F) cs
      else writes a \<and> p \<in> F \<and> fresh_calls reads writes {p} cs)"

fun effects :: "('a \<Rightarrow> 'c \<Rightarrow> 'c \<Rightarrow> bool) \<Rightarrow> 'a list \<Rightarrow> 'c \<Rightarrow> 'c \<Rightarrow> bool" where
  "effects effect [] c c' = (c' = c)"
| "effects effect (a # as) c c' = (\<exists>c1. effect a c c1 \<and> effects effect as c1 c')"

locale cached_store =
  fixes step :: "'p \<Rightarrow> 'a \<Rightarrow> 'd \<Rightarrow> 'd \<Rightarrow> bool"
    and reads writes :: "'a \<Rightarrow> bool"
    and memory :: "'p \<Rightarrow> 'd \<Rightarrow> 'c"
    and holds :: "'d \<Rightarrow> 'c \<Rightarrow> bool"
    and valid :: "'d \<Rightarrow> 'c \<Rightarrow> bool"
    and effect :: "'a \<Rightarrow> 'c \<Rightarrow> 'c \<Rightarrow> bool"
  assumes holds_valid: "holds d c \<Longrightarrow> valid d c"
    and read_law: "step p a d d' \<Longrightarrow> reads a \<Longrightarrow> holds d c \<Longrightarrow> holds d' c \<and> memory p d' = c"
    and write_law: "step p a d d' \<Longrightarrow> writes a \<Longrightarrow> memory p d = c \<Longrightarrow> valid d c \<Longrightarrow>
          \<exists>c'. effect a c c' \<and> holds d' c' \<and> memory p d' = c'"
    and frame: "step p a d d' \<Longrightarrow> reads a \<or> writes a \<Longrightarrow> q \<noteq> p \<Longrightarrow> memory q d' = memory q d"
    and valid_later: "step p a d d' \<Longrightarrow> reads a \<or> writes a \<Longrightarrow> valid d c \<Longrightarrow> valid d' c"
begin

text \<open>Fresh writers: the file ends with the effects of all of them, in order.\<close>

lemma fresh_run:
  "holds d c \<Longrightarrow> \<forall>p\<in>F. memory p d = c \<Longrightarrow> fresh_calls reads writes F calls \<Longrightarrow> all_steps step calls d d' \<Longrightarrow>
   \<exists>c'. effects effect (filter (\<lambda>a. \<not> reads a) (map snd calls)) c c' \<and> holds d' c'"
proof (induction calls arbitrary: d c F)
  case (Cons call calls)
  obtain p a where call: "call = (p, a)" by fastforce
  with Cons.prems(4) obtain d1 where st: "step p a d d1" "all_steps step calls d1 d'" by auto
  show ?case
  proof (cases "reads a")
    case True
    have r: "holds d1 c \<and> memory p d1 = c" by (rule read_law [OF st(1) True Cons.prems(1)])
    have "memory q d1 = c" if "q \<in> insert p F" for q
      using r frame [OF st(1), of q] True Cons.prems(2) that by (cases "q = p") simp_all
    then have "\<forall>q\<in>insert p F. memory q d1 = c" by blast
    then show ?thesis using Cons.IH [of d1 c "insert p F"] r st(2) Cons.prems(3) call True by auto
  next
    case False
    then have w: "writes a" "p \<in> F" "fresh_calls reads writes {p} calls" using Cons.prems(3) call by auto
    obtain c1 where c1: "effect a c c1" "holds d1 c1" "memory p d1 = c1"
      using write_law [OF st(1) w(1) _ holds_valid [OF Cons.prems(1)]] Cons.prems(2) w(2) by blast
    then obtain c' where "effects effect (filter (\<lambda>a. \<not> reads a) (map snd calls)) c1 c'" "holds d' c'"
      using Cons.IH [of d1 c1 "{p}"] st(2) w(3) by auto
    with c1(1) call False show ?thesis by auto
  qed
qed auto

text \<open>A stale writer: its effect is applied to what it remembers, and what the others wrote is gone.\<close>

lemma stale_write:
  assumes "step p a d d1" "writes a" "step q b d1 d2" "writes b" "q \<noteq> p" "memory q d = c" "valid d c"
  shows "memory q d1 = c \<and> (\<exists>c'. effect b c c' \<and> holds d2 c')"
proof -
  have "memory q d1 = c" using frame [OF assms(1) _ assms(5)] assms(2,6) by simp
  moreover from this have "\<exists>c'. effect b c c' \<and> holds d2 c'"
    using write_law [OF assms(3,4)] valid_later [OF assms(1) _ assms(7)] assms(2) by blast
  ultimately show ?thesis by blast
qed

text \<open>What others do is not seen before the next reading step.\<close>

lemma unseen_run:
  "all_steps step calls d d' \<Longrightarrow> \<forall>(q, a)\<in>set calls. q \<noteq> p \<and> (reads a \<or> writes a) \<Longrightarrow> memory p d' = memory p d"
proof (induction calls arbitrary: d)
  case (Cons call calls)
  obtain q a where call: "call = (q, a)" by fastforce
  with Cons.prems(1) obtain d1 where st: "step q a d d1" "all_steps step calls d1 d'" by auto
  have "memory p d1 = memory p d" using frame [OF st(1)] Cons.prems(2) call by auto
  with Cons.IH [OF st(2)] Cons.prems(2) show ?case by auto
qed simp

end

end
