(* ===== verification/Deployment.thy ===== *)
theory Deployment
  imports Knowledge_Base Service_Config Cached_Store
begin

text \<open>
  Several processes on one data directory. \<open>knowledge_base\<close> is a module variable of \<open>backend/retriever.py\<close>:
  every web worker, every task worker (\<open>tasks/document_tasks.py\<close>, \<open>tasks/scheduled_tasks.py\<close>) and the gRPC
  service (\<open>rag-service/server.py\<close>) has its own \<open>KnowledgeBase\<close>, which reads the files once, when the module is
  imported, and writes them on every mutation. The class's lock and the operations are those of
  \<open>Knowledge_Base\<close>; here the files, the upload directory and the randomness of \<open>uuid4\<close> are shared and the memory
  is not. Each operation is one step.
\<close>

section \<open>The data directory\<close>

record storage =
  sg_uploads :: pystr
  sg_chunks :: pystr
  sg_index :: pystr
  sg_models :: pystr

text \<open>\<open>resolve\<close> makes a path absolute; processes with the same environment and working directory share all of it.\<close>

definition storage_paths :: "(pystr \<Rightarrow> pystr) \<Rightarrow> environ \<Rightarrow> storage" where
  "storage_paths resolve e =
     (let base = resolve (getenv e (asc ''CRAG_DATA_DIR'') (getenv e (asc ''DATA_DIR'') (asc ''data'')))
      in \<lparr>sg_uploads = base @ (asc ''/uploads''), sg_chunks = base @ (asc ''/indexes/chunks.json''),
          sg_index = base @ (asc ''/indexes/faiss.index''), sg_models = base @ (asc ''/models'')\<rparr>)"

section \<open>Processes\<close>

record 'v deployment =
  dp_saved :: "json list option"
  dp_saved_index :: "(int \<times> 'v list) option"
  dp_uploads :: "pystr list"
  dp_drawn :: nat
  dp_memory :: "nat \<Rightarrow> 'v kb"

text \<open>The knowledge base as process \<open>p\<close> has it: its memory with the files as they are now.\<close>

definition process_view :: "nat \<Rightarrow> 'v deployment \<Rightarrow> 'v kb" where
  "process_view p d = (dp_memory d p)\<lparr>kb_saved := dp_saved d, kb_saved_index := dp_saved_index d,
     kb_uploads := dp_uploads d, kb_next := dp_drawn d\<rparr>"

definition process_put :: "nat \<Rightarrow> 'v kb \<Rightarrow> 'v deployment \<Rightarrow> 'v deployment" where
  "process_put p st d = d\<lparr>dp_saved := kb_saved st, dp_saved_index := kb_saved_index st, dp_uploads := kb_uploads st,
     dp_drawn := kb_next st, dp_memory := (dp_memory d)(p := st)\<rparr>"

datatype kb_call =
    Do_start | Do_save_upload pystr | Do_add pystr pystr | Do_upsert pystr pystr | Do_delete pystr | Do_rebuild | Do_clear

text \<open>The operations with their reports dropped; \<open>None\<close> is a call that does not return.\<close>

fun kb_do :: "'v kb_env \<Rightarrow> kb_call \<Rightarrow> 'v kb \<Rightarrow> ('v kb \<times> unit result) option" where
  "kb_do env Do_start st = Some (kb_open env st)"
| "kb_do env (Do_save_upload filename) st = Some (fst (save_upload env filename st), Inr ())"
| "kb_do env (Do_add path source) st = map_option (\<lambda>(st', r). (st', rbind r (\<lambda>_. Inr ()))) (add_pdf env path source st)"
| "kb_do env (Do_upsert path source) st = map_option (\<lambda>(st', r). (st', rbind r (\<lambda>_. Inr ()))) (upsert_pdf env path source st)"
| "kb_do env (Do_delete name) st = (case delete_source env name st of (st', r) \<Rightarrow> Some (st', rbind r (\<lambda>_. Inr ())))"
| "kb_do env Do_rebuild st = map_option (\<lambda>(st', r). (st', rbind r (\<lambda>_. Inr ()))) (rebuild_from_uploads env st)"
| "kb_do env Do_clear st = Some (clear env st)"

definition do_in :: "'v kb_env \<Rightarrow> nat \<Rightarrow> kb_call \<Rightarrow> 'v deployment \<Rightarrow> ('v deployment \<times> unit result) option" where
  "do_in env p c d = map_option (\<lambda>(st, r). (process_put p st d, r)) (kb_do env c (process_view p d))"

fun do_all :: "'v kb_env \<Rightarrow> (nat \<times> kb_call) list \<Rightarrow> 'v deployment \<Rightarrow> ('v deployment \<times> unit result list) option" where
  "do_all env [] d = Some (d, [])"
| "do_all env ((p, c) # cs) d =
     (case do_in env p c d of None \<Rightarrow> None
      | Some (d1, r) \<Rightarrow> map_option (\<lambda>(d2, rs). (d2, r # rs)) (do_all env cs d1))"

text \<open>What a question to process \<open>p\<close> finds.\<close>

definition search_in where
  "search_in cfg vsearch post env_model p d query top_k min_score rr =
     search cfg vsearch post env_model (process_view p d) query top_k min_score rr"

section \<open>Facts about one step\<close>

lemma view_parts [simp]:
  "kb_chunks (process_view p d) = kb_chunks (dp_memory d p)" "kb_saved (process_view p d) = dp_saved d"
  "kb_next (process_view p d) = dp_drawn d" "kb_uploads (process_view p d) = dp_uploads d"
  by (simp_all add: process_view_def)

lemma put_parts [simp]:
  "dp_saved (process_put p st d) = kb_saved st" "dp_drawn (process_put p st d) = kb_next st"
  "dp_memory (process_put p st d) q = (if q = p then st else dp_memory d q)"
  by (simp_all add: process_put_def)

lemma view_put [simp]: "process_view p (process_put p st d) = st"
  by (simp add: process_view_def process_put_def)

text \<open>One process alone is the knowledge base of the other theories.\<close>

fun kb_do_all :: "'v kb_env \<Rightarrow> kb_call list \<Rightarrow> 'v kb \<Rightarrow> ('v kb \<times> unit result list) option" where
  "kb_do_all env [] st = Some (st, [])"
| "kb_do_all env (c # cs) st =
     (case kb_do env c st of None \<Rightarrow> None
      | Some (st1, r) \<Rightarrow> map_option (\<lambda>(st2, rs). (st2, r # rs)) (kb_do_all env cs st1))"

text \<open>As long as only one process works on the directory, what it holds and reports is
  exactly what the knowledge base alone would.\<close>

theorem single_process_refines:
  "map_option (\<lambda>(d', rs). (process_view p d', rs)) (do_all env (map (Pair p) cs) d) = kb_do_all env cs (process_view p d)"
proof (induction cs arbitrary: d)
  case (Cons c cs)
  show ?case
  proof (cases "kb_do env c (process_view p d)")
    case (Some x)
    obtain st r where x: "x = (st, r)" by (rule prod.exhaust)
    have "do_in env p c d = Some (process_put p st d, r)" by (simp add: do_in_def Some x)
    with Some x Cons [of "process_put p st d", symmetric] show ?thesis
      by (simp add: option.map_comp comp_def split_def)
  qed (simp add: do_in_def)
qed simp

section \<open>Reading and writing\<close>

lemma do_start_loads:
  assumes "uuids_nonempty env" "chunks_wf (ke_uuid env) n cs" "kb_saved st = Some (map asdict cs)"
    and "kb_open env st = (st', Inr u)"
  shows "kb_chunks st' = cs \<and> kb_saved st' = Some (map asdict cs) \<and> kb_next st' = kb_next st + 2 * length cs"
proof -
  have "load_chunks env st = Inr cs" using load_items_wf [OF assms(2,1)] assms(3) by (simp add: load_chunks_def)
  then show ?thesis using assms(3,4)
    by (auto simp: kb_open_def load_or_rebuild_index_def rebuild_index_def Let_def split: option.splits prod.splits if_splits sum.splits)
qed

lemma do_upsert_cases:
  assumes "do_in env p (Do_upsert path s) d = Some (d', Inr u)"
  obtains pages n new where "ke_pdf env path = Inr pages"
    "chunks_from_reader (ke_cfg env) (ke_uuid env) s pages (dp_drawn d) = Some (n, new)"
    "kb_chunks (dp_memory d' p) = replace_source s new (kb_chunks (dp_memory d p))"
    "dp_saved d' = Some (map asdict (replace_source s new (kb_chunks (dp_memory d p))))" "dp_drawn d' = n"
    "\<forall>q. q \<noteq> p \<longrightarrow> dp_memory d' q = dp_memory d q"
proof -
  obtain st rep where run: "upsert_pdf env path s (process_view p d) = Some (st, Inr rep)" and d': "d' = process_put p st d"
    using assms unfolding do_in_def by (auto simp: rbind_Inr_iff)
  have "ingest_pdf (\<lambda>c. c_source c \<noteq> s) env path s (process_view p d) = Some (st, Inr rep)"
    using run by (simp add: upsert_pdf_def)
  then show thesis
  proof (cases rule: ingest_cases)
    case (committed pages n new v)
    then show thesis using that [of pages n new] commit_state [OF committed(3)] d' by (simp add: replace_source_def)
  qed simp
qed

lemma reader_source:
  assumes "env_ok env" "chunks_from_reader (ke_cfg env) (ke_uuid env) s pages n = Some (m, new)"
  shows "\<forall>c\<in>set new. c_source c = s"
  using gen_of_reader [OF assms] by (simp add: gen_inv_def)

lemma upsert_chunks_wf:
  assumes "env_ok env" "chunks_wf (ke_uuid env) n cs" "chunks_from_reader (ke_cfg env) (ke_uuid env) s pages n = Some (m, new)"
  shows "chunks_wf (ke_uuid env) m (replace_source s new cs)"
  using chunks_wf_append [OF chunks_wf_filter gen_of_reader [OF assms(1,3)]] assms(1,2)
  by (simp add: env_ok_def replace_source_def)

text \<open>The change of the chunk list that a call asks for.\<close>

fun asks :: "'v kb_env \<Rightarrow> kb_call \<Rightarrow> (pystr, chunk) change \<Rightarrow> bool" where
  "asks env (Do_upsert path s) (Upsert t new) = (t = s \<and> (\<exists>pages n m. ke_pdf env path = Inr pages \<and>
     chunks_from_reader (ke_cfg env) (ke_uuid env) s pages n = Some (m, new)))"
| "asks env (Do_delete name) (Remove t) = (t = py_strip name)"
| "asks env c e = False"

fun is_start :: "kb_call \<Rightarrow> bool" where
  "is_start Do_start = True"
| "is_start c = False"

fun is_update :: "kb_call \<Rightarrow> bool" where
  "is_update (Do_upsert path s) = True"
| "is_update (Do_delete name) = (py_strip name \<noteq> [])"
| "is_update c = False"

text \<open>The files hold a well-formed chunk list; a list in memory stays well formed while identifiers are drawn.\<close>

definition valid_chunks :: "'v kb_env \<Rightarrow> 'v deployment \<Rightarrow> chunk list \<Rightarrow> bool" where
  "valid_chunks env d cs \<longleftrightarrow> chunks_wf (ke_uuid env) (dp_drawn d) cs"

definition on_disk :: "'v kb_env \<Rightarrow> 'v deployment \<Rightarrow> chunk list \<Rightarrow> bool" where
  "on_disk env d cs \<longleftrightarrow> dp_saved d = Some (map asdict cs) \<and> valid_chunks env d cs"

definition memory_of :: "nat \<Rightarrow> 'v deployment \<Rightarrow> chunk list" where
  "memory_of p d = kb_chunks (dp_memory d p)"

definition changed_by :: "'v kb_env \<Rightarrow> kb_call \<Rightarrow> chunk list \<Rightarrow> chunk list \<Rightarrow> bool" where
  "changed_by env c cs cs' \<longleftrightarrow> (\<exists>e. asks env c e \<and> cs' = apply_change e cs)"

text \<open>A call that succeeds, in an environment with a proper chunking configuration and proper identifiers.\<close>

definition succeeds :: "'v kb_env \<Rightarrow> nat \<Rightarrow> kb_call \<Rightarrow> 'v deployment \<Rightarrow> 'v deployment \<Rightarrow> bool" where
  "succeeds env p c d d' \<longleftrightarrow> env_ok env \<and> uuids_nonempty env \<and> do_in env p c d = Some (d', Inr ())"

lemma start_step:
  assumes "succeeds env p c d d'" "is_start c" "on_disk env d cs"
  shows "on_disk env d' cs \<and> memory_of p d' = cs \<and> dp_drawn d \<le> dp_drawn d'"
proof -
  have c: "c = Do_start" using assms(2) by (cases c) simp_all
  obtain st where st: "kb_open env (process_view p d) = (st, Inr ())" "d' = process_put p st d"
    using assms(1) c unfolding succeeds_def do_in_def by (auto split: prod.splits)
  have wf: "chunks_wf (ke_uuid env) (dp_drawn d) cs" and saved: "kb_saved (process_view p d) = Some (map asdict cs)"
    and env: "uuids_nonempty env" using assms(1,3) by (simp_all add: on_disk_def valid_chunks_def succeeds_def)
  from do_start_loads [OF env wf saved st(1)] show ?thesis
    using st(2) chunks_wf_mono [OF wf] by (auto simp: on_disk_def valid_chunks_def memory_of_def)
qed

lemma update_step:
  assumes run: "succeeds env p c d d'" and c: "is_update c" and mem: "memory_of p d = cs" "valid_chunks env d cs"
  shows "\<exists>cs'. changed_by env c cs cs' \<and> on_disk env d' cs' \<and> memory_of p d' = cs'"
proof -
  have env: "env_ok env" and wf: "chunks_wf (ke_uuid env) (dp_drawn d) cs" and cs: "kb_chunks (dp_memory d p) = cs"
    using run mem by (simp_all add: succeeds_def valid_chunks_def memory_of_def)
  show ?thesis
  proof (cases c)
    case (Do_upsert path s)
    obtain pages n new where one: "ke_pdf env path = Inr pages"
      "chunks_from_reader (ke_cfg env) (ke_uuid env) s pages (dp_drawn d) = Some (n, new)"
      "kb_chunks (dp_memory d' p) = replace_source s new (kb_chunks (dp_memory d p))"
      "dp_saved d' = Some (map asdict (replace_source s new (kb_chunks (dp_memory d p))))" "dp_drawn d' = n"
      using run unfolding succeeds_def Do_upsert by (auto elim: do_upsert_cases)
    have "asks env c (Upsert s new)" using one(1,2) Do_upsert by (simp, blast)
    then show ?thesis using one(3-5) cs upsert_chunks_wf [OF env wf one(2)]
      by (auto simp: changed_by_def on_disk_def valid_chunks_def memory_of_def intro!: exI [of _ "Upsert s new"])
  next
    case (Do_delete name)
    then have ne: "py_strip name \<noteq> []" using c by simp
    obtain st rep where run': "delete_source env name (process_view p d) = (st, Inr rep)" and d': "d' = process_put p st d"
      using run unfolding succeeds_def do_in_def Do_delete by (auto simp: rbind_Inr_iff split: prod.splits)
    have "kb_chunks st = remove_source (py_strip name) cs \<and> kb_saved st = Some (map asdict (remove_source (py_strip name) cs)) \<and>
        kb_next st = dp_drawn d"
      using run'
    proof (cases rule: delete_cases)
      case (committed ups deleted v)
      then show ?thesis using commit_state [OF committed(3)] cs by (simp add: remove_source_def)
    qed (use ne in auto)
    then show ?thesis using d' chunks_wf_filter [OF wf] Do_delete
      by (auto simp: changed_by_def on_disk_def valid_chunks_def memory_of_def remove_source_def
          intro!: exI [of _ "Remove (py_strip name)"])
  qed (use c in simp_all)
qed

lemma other_memory: "succeeds env p c d d' \<Longrightarrow> q \<noteq> p \<Longrightarrow> dp_memory d' q = dp_memory d q"
  by (auto simp: succeeds_def do_in_def split: prod.splits)

lemma drawn_later:
  assumes "succeeds env p c d d'" "is_start c \<or> is_update c" shows "dp_drawn d \<le> dp_drawn d'"
proof (cases c)
  case Do_start
  then show ?thesis using assms(1)
    by (auto simp: succeeds_def do_in_def kb_open_def load_or_rebuild_index_def rebuild_index_def Let_def
        split: prod.splits sum.splits option.splits if_splits)
next
  case (Do_upsert path s)
  obtain pages n new where one: "chunks_from_reader (ke_cfg env) (ke_uuid env) s pages (dp_drawn d) = Some (n, new)" "dp_drawn d' = n"
    using assms(1) unfolding succeeds_def Do_upsert by (auto elim: do_upsert_cases)
  have "env_ok env" using assms(1) by (simp add: succeeds_def)
  from gen_of_reader [OF this one(1)] one(2) show ?thesis by (simp add: gen_inv_def)
next
  case (Do_delete name)
  obtain st rep where run: "delete_source env name (process_view p d) = (st, Inr rep)" and d': "d' = process_put p st d"
    using assms(1) unfolding succeeds_def do_in_def Do_delete by (auto simp: rbind_Inr_iff split: prod.splits)
  have "kb_next st = dp_drawn d"
    using run
  proof (cases rule: delete_cases)
    case (committed ups deleted v)
    then show ?thesis using commit_state [OF committed(3)] by simp
  qed auto
  then show ?thesis using d' by simp
qed (use assms(2) in simp_all)

text \<open>The chunk list, its file and the memories of the processes are such a store.\<close>

interpretation kb_files: cached_store "succeeds env" is_start is_update memory_of "on_disk env" "valid_chunks env" "changed_by env" for env
proof
  fix p c d d' and cs :: "chunk list" and q
  show "on_disk env d cs \<Longrightarrow> valid_chunks env d cs" by (simp add: on_disk_def)
  show "succeeds env p c d d' \<Longrightarrow> is_start c \<Longrightarrow> on_disk env d cs \<Longrightarrow> on_disk env d' cs \<and> memory_of p d' = cs"
    using start_step by blast
  show "succeeds env p c d d' \<Longrightarrow> is_update c \<Longrightarrow> memory_of p d = cs \<Longrightarrow> valid_chunks env d cs \<Longrightarrow>
      \<exists>cs'. changed_by env c cs cs' \<and> on_disk env d' cs' \<and> memory_of p d' = cs'"
    by (rule update_step)
  show "succeeds env p c d d' \<Longrightarrow> is_start c \<or> is_update c \<Longrightarrow> q \<noteq> p \<Longrightarrow> memory_of q d' = memory_of q d"
    using other_memory [of env p c d d' q] by (simp add: memory_of_def)
  show "succeeds env p c d d' \<Longrightarrow> is_start c \<or> is_update c \<Longrightarrow> valid_chunks env d cs \<Longrightarrow> valid_chunks env d' cs"
    using drawn_later chunks_wf_mono unfolding valid_chunks_def by blast
qed

text \<open>
  How a document comes in: the upload route saves the file under its name and adds it, the background task adds the saved
  file, the consumer of the change events replaces. What a process does for one document is a list of calls.
\<close>

fun ingests :: "pystr \<Rightarrow> pystr \<Rightarrow> kb_call list \<Rightarrow> bool" where
  "ingests path s [Do_save_upload f, Do_add p t] = (f = s \<and> p = path \<and> t = s)"
| "ingests path s [Do_add p t] = (p = path \<and> t = s)"
| "ingests path s [Do_upsert p t] = (p = path \<and> t = s)"
| "ingests path s cs = False"

definition is_ingest :: "kb_call list \<Rightarrow> bool" where
  "is_ingest calls \<longleftrightarrow> (\<exists>path s. ingests path s calls)"

definition works :: "'v kb_env \<Rightarrow> nat \<Rightarrow> kb_call list \<Rightarrow> 'v deployment \<Rightarrow> 'v deployment \<Rightarrow> bool" where
  "works env p calls d d' \<longleftrightarrow> env_ok env \<and> uuids_nonempty env \<and>
     (\<exists>rs. do_all env (map (Pair p) calls) d = Some (d', rs) \<and> (\<forall>r\<in>set rs. r = Inr ()))"

definition added_by :: "'v kb_env \<Rightarrow> kb_call list \<Rightarrow> chunk list \<Rightarrow> chunk list \<Rightarrow> bool" where
  "added_by env calls cs cs' \<longleftrightarrow> (\<exists>path s pages n m new. ingests path s calls \<and> ke_pdf env path = Inr pages \<and>
     chunks_from_reader (ke_cfg env) (ke_uuid env) s pages n = Some (m, new) \<and>
     (cs' = cs @ new \<or> cs' = replace_source s new cs))"

lemma ingests_cases:
  assumes "ingests path s calls"
  obtains "calls = [Do_save_upload s, Do_add path s]" | "calls = [Do_add path s]" | "calls = [Do_upsert path s]"
  using assms by (cases "(path, s, calls)" rule: ingests.cases) auto

lemma ingests_unique: "ingests path s calls \<Longrightarrow> ingests path' s' calls \<Longrightarrow> path' = path \<and> s' = s"
  by (erule ingests_cases) auto

lemma added_by_ingests:
  assumes "added_by env calls cs cs'" "ingests path s calls"
  shows "\<exists>pages n m new. ke_pdf env path = Inr pages \<and> chunks_from_reader (ke_cfg env) (ke_uuid env) s pages n = Some (m, new) \<and>
     (cs' = cs @ new \<or> cs' = replace_source s new cs)"
  using assms ingests_unique unfolding added_by_def by blast

lemma do_ingest:
  assumes "do_in env p c d = Some (d', Inr u)" "c = Do_add path s \<or> c = Do_upsert path s"
  shows "\<exists>pages n new cs'. ke_pdf env path = Inr pages \<and>
    chunks_from_reader (ke_cfg env) (ke_uuid env) s pages (dp_drawn d) = Some (n, new) \<and>
    (cs' = memory_of p d @ new \<or> cs' = replace_source s new (memory_of p d)) \<and> memory_of p d' = cs' \<and>
    dp_saved d' = Some (map asdict cs') \<and> dp_drawn d' = n \<and> (\<forall>q. q \<noteq> p \<longrightarrow> memory_of q d' = memory_of q d)"
proof -
  obtain keep st rep where keep: "keep = (\<lambda>_. True) \<or> keep = (\<lambda>c. c_source c \<noteq> s)"
    and run: "ingest_pdf keep env path s (process_view p d) = Some (st, Inr rep)" and d': "d' = process_put p st d"
    using assms(2)
  proof
    assume c: "c = Do_add path s"
    obtain st rep where "add_pdf env path s (process_view p d) = Some (st, Inr rep)" "d' = process_put p st d"
      using assms(1) unfolding c do_in_def by (auto simp: rbind_Inr_iff)
    then show thesis by (intro that [of "\<lambda>_. True" st rep]) (simp_all add: add_pdf_def)
  next
    assume c: "c = Do_upsert path s"
    obtain st rep where "upsert_pdf env path s (process_view p d) = Some (st, Inr rep)" "d' = process_put p st d"
      using assms(1) unfolding c do_in_def by (auto simp: rbind_Inr_iff)
    then show thesis by (intro that [of "\<lambda>c. c_source c \<noteq> s" st rep]) (simp_all add: upsert_pdf_def)
  qed
  from run show ?thesis
  proof (cases rule: ingest_cases)
    case (committed pages n new v)
    then show ?thesis using commit_state [OF committed(3)] keep d' by (auto simp: memory_of_def replace_source_def)
  qed simp
qed

lemma do_save:
  assumes "do_in env p (Do_save_upload f) d = Some (d', u)"
  shows "memory_of q d' = memory_of q d \<and> dp_drawn d' = dp_drawn d + 1"
  using assms by (auto simp: do_in_def save_upload_def Let_def memory_of_def)

lemma added_wf:
  assumes "env_ok env" "valid_chunks env d cs" "chunks_from_reader (ke_cfg env) (ke_uuid env) s pages (dp_drawn d) = Some (n, new)"
    "cs' = cs @ new \<or> cs' = replace_source s new cs" "dp_drawn d' = n"
  shows "valid_chunks env d' cs'"
  using assms upsert_chunks_wf [OF assms(1) _ assms(3)] chunks_wf_append [OF _ gen_of_reader [OF assms(1,3)]]
  by (auto simp: valid_chunks_def env_ok_def)

lemma work_step:
  assumes run: "works env p calls d d'" and calls: "ingests path s calls"
  shows "(valid_chunks env d (memory_of p d) \<longrightarrow> added_by env calls (memory_of p d) (memory_of p d') \<and> on_disk env d' (memory_of p d')) \<and>
    (\<forall>q. q \<noteq> p \<longrightarrow> memory_of q d' = memory_of q d) \<and> dp_drawn d \<le> dp_drawn d'"
proof -
  have env: "env_ok env" using run by (simp add: works_def)
  obtain d0 c where d0: "\<forall>q. memory_of q d0 = memory_of q d" "dp_drawn d \<le> dp_drawn d0"
    and c: "c = Do_add path s \<or> c = Do_upsert path s" "do_in env p c d0 = Some (d', Inr ())"
    using calls
  proof (cases rule: ingests_cases)
    case 1
    then obtain d0 u where "do_in env p (Do_save_upload s) d = Some (d0, u)" "do_in env p (Do_add path s) d0 = Some (d', Inr ())"
      using run by (auto simp: works_def split: option.splits)
    then show thesis using do_save that [of d0 "Do_add path s"] by fastforce
  next
    case 2
    then show thesis using run by (intro that [of d "Do_add path s"]) (auto simp: works_def split: option.splits)
  next
    case 3
    then show thesis using run by (intro that [of d "Do_upsert path s"]) (auto simp: works_def split: option.splits)
  qed
  obtain pages n new cs' where one: "ke_pdf env path = Inr pages"
    "chunks_from_reader (ke_cfg env) (ke_uuid env) s pages (dp_drawn d0) = Some (n, new)"
    "cs' = memory_of p d0 @ new \<or> cs' = replace_source s new (memory_of p d0)" "memory_of p d' = cs'"
    "dp_saved d' = Some (map asdict cs')" "dp_drawn d' = n" "\<forall>q. q \<noteq> p \<longrightarrow> memory_of q d' = memory_of q d0"
    using do_ingest [OF c(2,1)] by blast
  have drawn: "dp_drawn d0 \<le> dp_drawn d'" using gen_of_reader [OF env one(2)] one(6) by (simp add: gen_inv_def)
  have "added_by env calls (memory_of p d) (memory_of p d') \<and> on_disk env d' (memory_of p d')"
    if "valid_chunks env d (memory_of p d)"
  proof
    have "valid_chunks env d0 (memory_of p d)" using that chunks_wf_mono d0(2) by (auto simp: valid_chunks_def)
    then show "on_disk env d' (memory_of p d')" using added_wf [OF env _ one(2) _ one(6)] one(3-5) d0(1) by (auto simp: on_disk_def)
    show "added_by env calls (memory_of p d) (memory_of p d')"
      unfolding added_by_def using calls one(1-4) d0(1) by metis
  qed
  then show ?thesis using drawn d0 one(7) by auto
qed

lemma works_start: "works env p [Do_start] d d' \<longleftrightarrow> succeeds env p Do_start d d'"
  by (auto simp: works_def succeeds_def split: option.splits)

text \<open>Again a value in a file and in the memories, now written by the ways a document comes in.\<close>

interpretation kb_workers: cached_store "works env" "\<lambda>calls. calls = [Do_start]" is_ingest memory_of "on_disk env" "valid_chunks env" "added_by env" for env
proof
  fix p calls d d' and cs :: "chunk list" and q
  show "on_disk env d cs \<Longrightarrow> valid_chunks env d cs" by (simp add: on_disk_def)
  show "works env p calls d d' \<Longrightarrow> calls = [Do_start] \<Longrightarrow> on_disk env d cs \<Longrightarrow> on_disk env d' cs \<and> memory_of p d' = cs"
    using start_step [of env p Do_start d d' cs] by (simp add: works_start)
  show "works env p calls d d' \<Longrightarrow> is_ingest calls \<Longrightarrow> memory_of p d = cs \<Longrightarrow> valid_chunks env d cs \<Longrightarrow>
      \<exists>cs'. added_by env calls cs cs' \<and> on_disk env d' cs' \<and> memory_of p d' = cs'"
    using work_step unfolding is_ingest_def by blast
  show "works env p calls d d' \<Longrightarrow> calls = [Do_start] \<or> is_ingest calls \<Longrightarrow> q \<noteq> p \<Longrightarrow> memory_of q d' = memory_of q d"
    using other_memory [of env p Do_start d d' q] work_step unfolding is_ingest_def by (fastforce simp: works_start memory_of_def)
  show "works env p calls d d' \<Longrightarrow> calls = [Do_start] \<or> is_ingest calls \<Longrightarrow> valid_chunks env d cs \<Longrightarrow> valid_chunks env d' cs"
    using drawn_later [of env p Do_start d d'] work_step chunks_wf_mono unfolding is_ingest_def valid_chunks_def
    by (metis is_start.simps(1) works_start)
qed

lemma asks_source: "env_ok env \<Longrightarrow> asks env (Do_upsert path s) e \<Longrightarrow> change_source e = s \<and> (\<forall>c\<in>set (change_items e). c_source c = s)"
  by (cases e) (auto dest: reader_source)

lemma asks_owned:
  assumes "env_ok env" "asks env c e" shows "chunk_store.owned e"
  using assms by (cases c; cases e) (auto simp: chunk_store.owned_def all_of_source_def dest: reader_source [OF assms(1)])

section \<open>Properties\<close>

text \<open>
  Whatever other processes add, replace or delete, a process answers every question as before until
  it starts again: new documents are not found and deleted ones still are.
\<close>

theorem unseen_until_restart:
  assumes "do_all env calls d = Some (d', rs)" "\<forall>(q, c)\<in>set calls. q \<noteq> p"
  shows "snd (search_in cfg vsearch post em p d' query k ms rr) = snd (search_in cfg vsearch post em p d query k ms rr)"
proof -
  have "dp_memory d' p = dp_memory d p" using assms
  proof (induction calls arbitrary: d rs)
    case (Cons call calls)
    obtain q c where call: "call = (q, c)" by fastforce
    obtain d1 r rs' where step: "do_in env q c d = Some (d1, r)" "do_all env calls d1 = Some (d', rs')"
      using Cons.prems(1) unfolding call by (auto split: option.splits)
    have "dp_memory d1 p = dp_memory d p" using step(1) Cons.prems(2) call by (auto simp: do_in_def)
    then show ?case using Cons.IH [OF step(2)] Cons.prems(2) by simp
  qed simp
  then show ?thesis by (simp add: search_in_def search_def process_view_def)
qed

text \<open>
  C15: Two processes loaded the same files. One of them ingests a document the base does not have -
  the upload route saves the file and calls \<open>add_pdf\<close>, the background task calls \<open>add_pdf\<close>, the gRPC service
  \<open>upsert_pdf\<close> - and every call of it succeeds: the files then hold the chunks of the document as the PDF reader gave
  them, but no search in the other process finds it. Then the other ingests a second document, in any of the three ways,
  and succeeds too: every process that starts afterwards is without the first.
\<close>

theorem concurrent_upload_lost:
  assumes env: "env_ok env" "uuids_nonempty env" and two: "p \<noteq> q" "s1 \<noteq> s2"
    and same: "on_disk env d cs" "memory_of p d = cs" "memory_of q d = cs" "\<forall>c\<in>set cs. c_source c \<noteq> s1"
    and first: "ingests path1 s1 calls1" "do_all env (map (Pair p) calls1) d = Some (d1, rs1)" "\<forall>x\<in>set rs1. x = Inr ()"
    and second: "ingests path2 s2 calls2" "do_all env (map (Pair q) calls2) d1 = Some (d2, rs2)" "\<forall>x\<in>set rs2. x = Inr ()"
    and find: "1 \<le> k" "search_in cfg vsearch post em q d1 query k ms rr = (rr', Inr rs)"
    and later: "do_in env r Do_start d2 = Some (d3, Inr ())"
  shows "(\<exists>cs1 pages n m. on_disk env d1 cs1 \<and> ke_pdf env path1 = Inr pages \<and>
      chunks_from_reader (ke_cfg env) (ke_uuid env) s1 pages n = Some (m, source_chunks cs1 s1)) \<and>
    (\<forall>x\<in>set rs. sr_source x \<noteq> s1) \<and> (\<forall>c\<in>set (kb_chunks (dp_memory d3 r)). c_source c \<noteq> s1)"
proof -
  have steps: "works env p calls1 d d1" "works env q calls2 d1 d2" "works env r [Do_start] d2 d3"
    using env first(2,3) second(2,3) later by (auto simp: works_def)
  have valid: "valid_chunks env d cs" using same(1) by (simp add: on_disk_def)
  have writes: "is_ingest calls1" "is_ingest calls2" using first(1) second(1) by (auto simp: is_ingest_def)
  obtain cs1 where cs1: "added_by env calls1 cs cs1" "on_disk env d1 cs1"
    using kb_workers.write_law [OF steps(1) writes(1) same(2) valid] by blast
  obtain pages n m new where new: "ke_pdf env path1 = Inr pages"
    "chunks_from_reader (ke_cfg env) (ke_uuid env) s1 pages n = Some (m, new)" "cs1 = cs @ new \<or> cs1 = replace_source s1 new cs"
    using added_by_ingests [OF cs1(1) first(1)] by blast
  have none: "filter (\<lambda>c. c_source c = s1) cs = []" using same(4) by (simp add: filter_empty_conv)
  have "source_chunks cs1 s1 = new"
    using new(3) none reader_source [OF env(1) new(2)] by (auto simp: source_chunks_def replace_source_def filter_empty_conv)
  then have held: "\<exists>cs1 pages n m. on_disk env d1 cs1 \<and> ke_pdf env path1 = Inr pages \<and>
      chunks_from_reader (ke_cfg env) (ke_uuid env) s1 pages n = Some (m, source_chunks cs1 s1)"
    using cs1(2) new(1,2) by blast
  obtain cs2 where mem: "memory_of q d1 = cs" and cs2: "added_by env calls2 cs cs2" "on_disk env d2 cs2"
    using kb_workers.stale_write [OF steps(1) writes(1) steps(2) writes(2) two(1) [symmetric] same(3) valid] by blast
  have "sr_source x \<noteq> s1" if "x \<in> set rs" for x
    using kb_search_quotes [OF find(1), of cfg vsearch post em cs "length (kb_index (process_view q d1))"
        "kb_bm25 (process_view q d1)" query ms rr rs]
      find(2) that same(4) mem by (fastforce simp: search_in_def search_def quotes_def memory_of_def)
  moreover have "memory_of r d3 = cs2" using kb_workers.read_law [OF steps(3) refl cs2(2)] by simp
  moreover have "\<forall>c\<in>set cs2. c_source c \<noteq> s1"
    using added_by_ingests [OF cs2(1) second(1)] same(4) two(2) reader_source [OF env(1)] by (fastforce simp: replace_source_def)
  ultimately show ?thesis using held by (simp add: memory_of_def)
qed

text \<open>The calls a process may make: starts at any time, updates when its memory is the last written.\<close>

definition fresh_schedule :: "nat set \<Rightarrow> (nat \<times> kb_call) list \<Rightarrow> bool" where
  "fresh_schedule F calls = fresh_calls is_start is_update F calls"

lemma do_all_steps:
  "env_ok env \<Longrightarrow> uuids_nonempty env \<Longrightarrow> do_all env calls d = Some (d', rs) \<Longrightarrow> \<forall>r\<in>set rs. r = Inr () \<Longrightarrow>
   all_steps (succeeds env) calls d d'"
proof (induction calls arbitrary: d rs)
  case (Cons call calls)
  obtain p c where call: "call = (p, c)" by fastforce
  obtain d1 r rs' where step: "do_in env p c d = Some (d1, r)" "do_all env calls d1 = Some (d', rs')" "rs = r # rs'"
    using Cons.prems(3) unfolding call by (auto split: option.splits)
  then show ?case using Cons.IH [OF Cons.prems(1,2) step(2)] Cons.prems call by (auto simp: succeeds_def)
qed simp

lemma changes_fold:
  "effects (changed_by env) cs c c' \<Longrightarrow> \<exists>es. list_all2 (asks env) cs es \<and> c' = fold apply_change es c"
proof (induction cs arbitrary: c)
  case (Cons a cs)
  then obtain e es where "asks env a e" "list_all2 (asks env) cs es" "c' = fold apply_change es (apply_change e c)"
    by (auto simp: changed_by_def) blast
  then show ?case by (intro exI [of _ "e # es"]) simp
qed simp


section \<open>Instances\<close>

definition demo_site :: "pystr deployment" where
  "demo_site = \<lparr>dp_saved = Some [], dp_saved_index = None, dp_uploads = [], dp_drawn = 0, dp_memory = (\<lambda>_. demo_kb)\<rparr>"

lemma demo_do_upsert: "\<exists>d'. do_in demo_env p (Do_upsert path s) d = Some (d', Inr ()) \<and> succeeds demo_env p (Do_upsert path s) d d'"
  using demo_upsert [of path s "process_view p d"] demo_env_ok by (auto simp: do_in_def succeeds_def)

lemma demo_do_start:
  assumes "on_disk demo_env d cs"
  shows "\<exists>d'. do_in demo_env p Do_start d = Some (d', Inr ()) \<and> succeeds demo_env p Do_start d d'"
proof -
  have "load_chunks demo_env (process_view p d) = Inr cs"
    using load_items_wf [of demo_env "dp_drawn d" cs, OF _ demo_env_ok(2)] assms
    by (simp add: load_chunks_def on_disk_def valid_chunks_def)
  moreover have "\<exists>st'. load_or_rebuild_index demo_env st = (st', Inr ())" for st
    by (simp add: load_or_rebuild_index_def rebuild_index_def demo_env_def split: option.split)
  ultimately have "\<exists>d'. do_in demo_env p Do_start d = Some (d', Inr ())"
    by (auto simp: do_in_def kb_open_def Let_def split: prod.splits) (metis prod.inject)
  then show ?thesis using demo_env_ok by (auto simp: succeeds_def)
qed

lemma demo_asks: "asks demo_env (Do_upsert path s) e \<Longrightarrow> \<exists>n. e = Upsert s [demo_chunk n s]"
  by (cases e) (auto simp: demo_env_def demo_reader)

lemma demo_site_parts: "on_disk demo_env demo_site []" "memory_of p demo_site = []" "valid_chunks demo_env demo_site []"
  by (simp_all add: on_disk_def valid_chunks_def memory_of_def demo_site_def demo_kb_def chunks_wf_def siblings_agree_def)

theorem unseen_until_restart_witness:
  "\<exists>d' rs. do_all demo_env [(1, Do_upsert (asc ''p'') (asc ''a.pdf''))] demo_site = Some (d', rs) \<and>
     snd (search_in default_config (\<lambda>q n. Inr []) (\<lambda>n ep m q ds k. Inl (OtherError [])) None 0 d' (asc ''hello'') 5 0 (reranker_init False [] [])) =
     snd (search_in default_config (\<lambda>q n. Inr []) (\<lambda>n ep m q ds k. Inl (OtherError [])) None 0 demo_site (asc ''hello'') 5 0 (reranker_init False [] []))"
proof -
  obtain d' where "do_in demo_env 1 (Do_upsert (asc ''p'') (asc ''a.pdf'')) demo_site = Some (d', Inr ())" using demo_do_upsert by blast
  then have run: "do_all demo_env [(1, Do_upsert (asc ''p'') (asc ''a.pdf''))] demo_site = Some (d', [Inr ()])" by (simp del: asc_Cons)
  show ?thesis using unseen_until_restart [OF run, of 0] run by (simp del: asc_Cons)
qed

lemma demo_do_add: "\<exists>d'. do_in demo_env p (Do_add path s) d = Some (d', Inr ()) \<and> memory_of p d' = memory_of p d @ [demo_chunk (dp_drawn d) s]"
  using demo_add [of path s "process_view p d"] by (auto simp: do_in_def memory_of_def)

lemma demo_do_save: "\<exists>d'. do_in demo_env p (Do_save_upload f) d = Some (d', Inr ())"
  by (simp add: do_in_def)

text \<open>A web worker takes an upload, then a task worker another document.\<close>

theorem concurrent_upload_lost_witness:
  "\<exists>d1 rs1 d2 rs2 d3. do_all demo_env (map (Pair 0) [Do_save_upload (asc ''a.pdf''), Do_add (asc ''p'') (asc ''a.pdf'')]) demo_site = Some (d1, rs1) \<and>
     length (memory_of 0 d1) = 1 \<and> do_all demo_env (map (Pair 1) [Do_add (asc ''p'') (asc ''b.pdf'')]) d1 = Some (d2, rs2) \<and>
     do_in demo_env 0 Do_start d2 = Some (d3, Inr ()) \<and> (\<forall>c\<in>set (kb_chunks (dp_memory d3 0)). c_source c \<noteq> (asc ''a.pdf''))"
proof -
  let ?calls = "[Do_save_upload (asc ''a.pdf''), Do_add (asc ''p'') (asc ''a.pdf'')]"
  obtain d0 where d0: "do_in demo_env 0 (Do_save_upload (asc ''a.pdf'')) demo_site = Some (d0, Inr ())" using demo_do_save by blast
  obtain d1 where d1: "do_in demo_env 0 (Do_add (asc ''p'') (asc ''a.pdf'')) d0 = Some (d1, Inr ())"
    "memory_of 0 d1 = memory_of 0 d0 @ [demo_chunk (dp_drawn d0) (asc ''a.pdf'')]" using demo_do_add by blast
  obtain d2 where d2: "do_in demo_env 1 (Do_add (asc ''p'') (asc ''b.pdf'')) d1 = Some (d2, Inr ())" using demo_do_add by blast
  have runs: "do_all demo_env (map (Pair 0) ?calls) demo_site = Some (d1, [Inr (), Inr ()])"
    "do_all demo_env (map (Pair 1) [Do_add (asc ''p'') (asc ''b.pdf'')]) d1 = Some (d2, [Inr ()])"
    using d0 d1(1) d2 by (simp_all del: asc_Cons)
  have works: "works demo_env 0 ?calls demo_site d1" "works demo_env 1 [Do_add (asc ''p'') (asc ''b.pdf'')] d1 d2"
    using runs demo_env_ok by (simp_all add: works_def del: asc_Cons)
  have way: "ingests (asc ''p'') (asc ''a.pdf'') ?calls" "ingests (asc ''p'') (asc ''b.pdf'') [Do_add (asc ''p'') (asc ''b.pdf'')]" by (simp_all del: asc_Cons)
  then have ingest: "is_ingest ?calls" "is_ingest [Do_add (asc ''p'') (asc ''b.pdf'')]" unfolding is_ingest_def by blast+
  obtain cs where "memory_of 1 d1 = []" "on_disk demo_env d2 cs"
    using kb_workers.stale_write [OF works(1) ingest(1) works(2) ingest(2) _ demo_site_parts(2,3)] by auto
  moreover from this obtain d3 where d3: "do_in demo_env 0 Do_start d2 = Some (d3, Inr ())" using demo_do_start by blast
  ultimately have none: "search_in default_config (\<lambda>q n. Inr []) (\<lambda>n ep m q ds k. Inl (OtherError [])) None 1 d1 (asc ''hello'') 5 0
      (reranker_init False [] []) = (reranker_init False [] [], Inr [])"
    by (simp add: search_in_def search_def kb_search_def memory_of_def)
  have ne: "(0::nat) \<noteq> 1" "(asc ''a.pdf'') \<noteq> (asc ''b.pdf'')" by simp code_simp
  have k: "(1::int) \<le> 5" by simp
  have "length (memory_of 0 d1) = 1" using d1(2) do_save [OF d0] demo_site_parts(2) by simp
  then show ?thesis
    using concurrent_upload_lost [OF demo_env_ok ne demo_site_parts(1,2,2) _ way(1) runs(1) _ way(2) runs(2) _ k none d3] runs d3 by auto
qed


end
