(* ===== verification/Change_Flow.thy ===== *)
theory Change_Flow
  imports Rag_Service Deployment
begin

text \<open>
  An upload and the change event it publishes, in the processes that handle them: the web worker that serves
  \<open>api/v1/documents.py\<close> appends the chunks to its own base, and the event reaches the gRPC service
  (\<open>rag-service/server.py\<close>), which replaces them in its base. Both write the same files. What carries the event in
  between is another program.
\<close>

section \<open>The steps\<close>

definition upload_in where
  "upload_in env now f u p d w =
     map_option (\<lambda>(w', r). (process_put p (dw_kb w') d, w', r)) (upload_body env now f u (w\<lparr>dw_kb := process_view p d\<rparr>))"

text \<open>The event delivered \<open>k\<close> times to process \<open>q\<close>, each time with success.\<close>

fun deliver_in :: "'v kb_env \<Rightarrow> (pystr \<Rightarrow> bool) \<Rightarrow> nat \<Rightarrow> pystr \<Rightarrow> pystr \<Rightarrow> nat \<Rightarrow> 'v deployment \<Rightarrow> 'v deployment option" where
  "deliver_in env is_file q s path 0 d = Some d"
| "deliver_in env is_file q s path (Suc k) d =
     (case rpc_index_document env is_file (asc ''INSERT'') s path (process_view q d) of
        Some (st', Reply n) \<Rightarrow> deliver_in env is_file q s path k (process_put q st' d)
      | _ \<Rightarrow> None)"

section \<open>Facts about the steps\<close>

lemma put_put [simp]: "process_put q st' (process_put q st d) = process_put q st' d"
  by (simp add: process_put_def)

text \<open>Only the receiving process changes: its base goes through the events as it would alone.\<close>

lemma deliver_redeliver:
  "deliver_in env is_file q s path (Suc k) d =
   map_option (\<lambda>st. process_put q st d) (redeliver env is_file s path (Suc k) (process_view q d))"
proof (induction k arbitrary: d)
  case (Suc k)
  show ?case
    by (subst deliver_in.simps(2), subst redeliver.simps(2))
      (simp add: Suc.IH del: deliver_in.simps redeliver.simps split: option.split prod.split rpc.split)
qed (simp split: option.split prod.split rpc.split)

lemma rpc_insert_saved:
  assumes "env_ok env" "rpc_index_document env is_file (asc ''INSERT'') s path st = Some (st', Reply n)"
  shows "kb_saved st' = Some (map asdict (kb_chunks st')) \<and>
    (chunks_wf (ke_uuid env) (kb_next st) (kb_chunks st) \<longrightarrow> chunks_wf (ke_uuid env) (kb_next st') (kb_chunks st'))"
proof -
  obtain rep where "upsert_pdf env path s st = Some (st', Inr rep)" using rpc_insert_upsert [OF assms(2)] by blast
  then have run: "ingest_pdf (\<lambda>c. c_source c \<noteq> s) env path s st = Some (st', Inr rep)" by (simp add: upsert_pdf_def)
  then have "kb_saved st' = Some (map asdict (kb_chunks st'))" using ingest_synced [OF run] by (simp add: kb_synced_def)
  moreover have "kb_wf env st \<Longrightarrow> kb_wf env st'" using ingest_wf [OF assms(1) _ run] .
  ultimately show ?thesis by (simp add: kb_wf_def)
qed

lemma redeliver_saved:
  "env_ok env \<Longrightarrow> redeliver env is_file s path (Suc k) st = Some st' \<Longrightarrow>
   kb_saved st' = Some (map asdict (kb_chunks st')) \<and>
   (chunks_wf (ke_uuid env) (kb_next st) (kb_chunks st) \<longrightarrow> chunks_wf (ke_uuid env) (kb_next st') (kb_chunks st'))"
proof (induction k arbitrary: st)
  case 0
  then show ?case using rpc_insert_saved [OF 0(1)] by (auto split: option.splits prod.splits rpc.splits simp del: asc_Cons)
next
  case (Suc k)
  obtain st1 n where one: "rpc_index_document env is_file (asc ''INSERT'') s path st = Some (st1, Reply n)"
    and rest: "redeliver env is_file s path (Suc k) st1 = Some st'"
    using Suc.prems(2) by (subst (asm) redeliver.simps(2)) (auto split: option.splits prod.splits rpc.splits simp del: asc_Cons redeliver.simps)
  show ?case using Suc.IH [OF Suc.prems(1) rest] rpc_insert_saved [OF Suc.prems(1) one] by blast
qed

lemma upload_in_cases:
  assumes env: "env_ok (de_kb env)" and up: "upload_in env now f u p d w = Some (d1, w1, Inr j)"
  obtains pages n new where "ke_pdf (de_kb env) (snd (save_upload (de_kb env) f (process_view p d))) = Inr pages"
    "chunks_from_reader (ke_cfg (de_kb env)) (ke_uuid (de_kb env)) f pages (dp_drawn d + 1) = Some (n, new)"
    "memory_of p d1 = memory_of p d @ new" "dp_drawn d1 = n" "dp_drawn d \<le> n" "\<forall>q. q \<noteq> p \<longrightarrow> memory_of q d1 = memory_of q d"
proof -
  let ?e = "de_kb env" and ?w = "w\<lparr>dw_kb := process_view p d\<rparr>" let ?path = "snd (save_upload ?e f (process_view p d))"
  obtain kb1 where save: "save_upload ?e f (process_view p d) = (kb1, ?path)" by (metis prod.collapse)
  have kb1: "kb_chunks kb1 = memory_of p d" "kb_next kb1 = dp_drawn d + 1"
    using save by (auto simp: save_upload_def Let_def memory_of_def)
  have body: "upload_body env now f u ?w = Some (w1, Inr j)" and d1: "d1 = process_put p (dw_kb w1) d"
    using up by (auto simp: upload_in_def)
  obtain rep where "add_pdf ?e ?path f kb1 = Some (dw_kb w1, Inr rep)" using upload_body_kb [OF body] save by auto
  then obtain pages n new where new: "ke_pdf ?e ?path = Inr pages"
      "chunks_from_reader (ke_cfg ?e) (ke_uuid ?e) f pages (dp_drawn d + 1) = Some (n, new)"
      "kb_chunks (dw_kb w1) = memory_of p d @ new" "kb_next (dw_kb w1) = n"
    unfolding add_pdf_def
  proof (cases rule: ingest_cases)
    case (committed pages n new u')
    then show ?thesis using that commit_state [OF committed(3)] kb1 by auto
  qed simp
  moreover have "dp_drawn d \<le> n" using gen_of_reader [OF env new(2)] by (simp add: gen_inv_def)
  ultimately show thesis using that [of pages n new] d1 by (auto simp: memory_of_def)
qed

lemma deliver_cases:
  assumes "deliver_in env is_file q s path (Suc k) d = Some d'"
  obtains st where "redeliver env is_file s path (Suc k) (process_view q d) = Some st" "d' = process_put q st d"
    "memory_of q d' = kb_chunks st" "dp_saved d' = kb_saved st" "dp_drawn d' = kb_next st"
    "\<forall>p. p \<noteq> q \<longrightarrow> memory_of p d' = memory_of p d"
proof -
  obtain st where "redeliver env is_file s path (Suc k) (process_view q d) = Some st" "d' = process_put q st d"
    using assms unfolding deliver_redeliver by blast
  then show thesis using that [of st] by (simp add: memory_of_def)
qed

lemma deliver_disk:
  assumes env: "env_ok env" and run: "deliver_in env is_file q s path (Suc k) d = Some d'" and wf: "valid_chunks env d (memory_of q d)"
  shows "on_disk env d' (memory_of q d')"
  using run
proof (cases rule: deliver_cases)
  case (1 st)
  then show ?thesis using redeliver_saved [OF env 1(1)] wf by (simp add: on_disk_def valid_chunks_def memory_of_def)
qed

section \<open>Properties\<close>

text \<open>C10: Process \<open>p\<close> serves an upload that succeeds, and its change event is then delivered to another
  process \<open>q\<close>, once or more often, each time with success. Afterwards \<open>q\<close> holds the document exactly once, as the file
  reads (the drawn identifiers aside), and every other document as \<open>q\<close> held it before; the files hold what \<open>q\<close> holds,
  and so does every process that starts later, \<open>p\<close> included. Until it starts again \<open>p\<close> has the new chunks behind those
  it had: a document uploaded twice is twice in its memory.\<close>

theorem upload_then_events:
  assumes env: "env_ok (de_kb env)" "uuids_nonempty (de_kb env)" and two: "p \<noteq> q"
    and wf: "valid_chunks (de_kb env) d (memory_of q d)"
    and up: "upload_in env now f u p d w = Some (d1, w1, Inr j)"
    and path: "path = snd (save_upload (de_kb env) f (process_view p d))"
    and events: "deliver_in (de_kb env) is_file q f path (Suc k) d1 = Some d2"
    and later: "do_in (de_kb env) r Do_start d2 = Some (d3, Inr ())"
  shows "\<exists>pages n m new. ke_pdf (de_kb env) path = Inr pages \<and>
    chunks_from_reader (ke_cfg (de_kb env)) (ke_uuid (de_kb env)) f pages n = Some (m, new) \<and>
    map strip_ids (source_chunks (memory_of q d2) f) = map strip_ids new \<and>
    (\<forall>t. t \<noteq> f \<longrightarrow> source_chunks (memory_of q d2) t = source_chunks (memory_of q d) t) \<and>
    memory_of p d2 = memory_of p d @ new \<and>
    dp_saved d2 = Some (map asdict (memory_of q d2)) \<and> memory_of r d3 = memory_of q d2"
proof -
  let ?e = "de_kb env"
  obtain pages n new where new: "ke_pdf ?e path = Inr pages"
      "chunks_from_reader (ke_cfg ?e) (ke_uuid ?e) f pages (dp_drawn d + 1) = Some (n, new)"
    and d1: "memory_of p d1 = memory_of p d @ new" "dp_drawn d1 = n" "dp_drawn d \<le> n" "memory_of q d1 = memory_of q d"
    using upload_in_cases [OF env(1) up] path two by metis
  have "valid_chunks ?e d1 (memory_of q d1)" using wf chunks_wf_mono d1(2-4) by (auto simp: valid_chunks_def)
  then have disk: "on_disk ?e d2 (memory_of q d2)" using deliver_disk [OF env(1) events] by blast
  then have "memory_of r d3 = memory_of q d2"
    using start_step [of ?e r Do_start d2 d3] env later by (simp add: succeeds_def)
  moreover have "map strip_ids (source_chunks (memory_of q d2) f) = map strip_ids new \<and>
      (\<forall>t. t \<noteq> f \<longrightarrow> source_chunks (memory_of q d2) t = source_chunks (memory_of q d) t) \<and> memory_of p d2 = memory_of p d @ new"
    using events
  proof (cases rule: deliver_cases)
    case (1 st)
    have "kb_chunks (process_view q d1) = memory_of q d" using d1(4) by (simp add: memory_of_def)
    then show ?thesis using redeliver_source [OF env(1) new 1(1)] 1(3,6) d1(1) two by simp
  qed
  ultimately show ?thesis using new disk by (auto simp: on_disk_def)
qed

section \<open>An instance\<close>

text \<open>The document is already in both memories: the upload doubles it in the web worker, the event does not.\<close>

definition twice_site :: "pystr deployment" where
  "twice_site = \<lparr>dp_saved = Some [asdict (demo_chunk 0 (asc ''a.pdf''))], dp_saved_index = None, dp_uploads = [], dp_drawn = 2,
     dp_memory = (\<lambda>_. demo_kb\<lparr>kb_chunks := [demo_chunk 0 (asc ''a.pdf'')]\<rparr>)\<rparr>"

lemma twice_site_parts: "memory_of p twice_site = [demo_chunk 0 (asc ''a.pdf'')]" "valid_chunks demo_env twice_site [demo_chunk 0 (asc ''a.pdf'')]"
proof -
  have read: "chunks_from_reader (ke_cfg demo_env) (ke_uuid demo_env) (asc ''a.pdf'') [Some demo_text] 0 = Some (2, [demo_chunk 0 (asc ''a.pdf'')])"
    using demo_reader [of "(asc ''a.pdf'')" 0] by (simp add: demo_env_def del: asc_Cons)
  have "chunks_wf (ke_uuid demo_env) 0 []" by (simp add: chunks_wf_def siblings_agree_def)
  then have "chunks_wf (ke_uuid demo_env) 2 ([] @ [demo_chunk 0 (asc ''a.pdf'')])"
    by (rule chunks_wf_append [OF _ gen_of_reader [OF demo_env_ok(1) read]]) (use demo_env_ok(1) in \<open>simp add: env_ok_def\<close>)
  then show "valid_chunks demo_env twice_site [demo_chunk 0 (asc ''a.pdf'')]"
    by (simp add: valid_chunks_def twice_site_def del: asc_Cons)
qed (simp add: memory_of_def twice_site_def)

theorem upload_then_events_witness:
  "\<exists>d1 w1 j d2 d3. upload_in demo_docs 3 (asc ''a.pdf'') None 0 twice_site demo_docs_world = Some (d1, w1, Inr j) \<and>
     deliver_in demo_env (\<lambda>_. True) 1 (asc ''a.pdf'') (snd (save_upload demo_env (asc ''a.pdf'') (process_view 0 twice_site))) 1 d1 = Some d2 \<and>
     do_in demo_env 0 Do_start d2 = Some (d3, Inr ()) \<and>
     length (memory_of 0 d2) = 2 \<and> length (source_chunks (memory_of 1 d2) (asc ''a.pdf'')) = 1 \<and> memory_of 0 d3 = memory_of 1 d2"
proof -
  let ?v = "process_view 0 twice_site" let ?path = "snd (save_upload demo_env (asc ''a.pdf'') ?v)"
  obtain kb1 where save: "save_upload demo_env (asc ''a.pdf'') ?v = (kb1, ?path)" by (metis prod.collapse)
  have base: "de_kb demo_docs = demo_env" by (simp add: demo_docs_def)
  obtain kb2 rep where add: "add_pdf demo_env ?path (asc ''a.pdf'') kb1 = Some (kb2, Inr rep)" using demo_add by blast
  obtain w1 j where up: "upload_body demo_docs 3 (asc ''a.pdf'') None (demo_docs_world\<lparr>dw_kb := ?v\<rparr>) = Some (w1, Inr j)"
  proof -
    have "save_upload (de_kb demo_docs) (asc ''a.pdf'') (dw_kb (demo_docs_world\<lparr>dw_kb := ?v\<rparr>)) = (kb1, ?path)"
      unfolding base using save by simp
    moreover have "add_pdf (de_kb demo_docs) ?path (asc ''a.pdf'') kb1 = Some (kb2, Inr rep)" unfolding base by (rule add)
    ultimately show thesis using that upload_body_returns by blast
  qed
  define d1 where "d1 = process_put 0 (dw_kb w1) twice_site"
  have one: "upload_in demo_docs 3 (asc ''a.pdf'') None 0 twice_site demo_docs_world = Some (d1, w1, Inr j)"
    using up by (simp add: upload_in_def d1_def del: asc_Cons)
  have mem: "memory_of 1 d1 = [demo_chunk 0 (asc ''a.pdf'')]" using twice_site_parts(1) [of 1] by (simp add: memory_of_def d1_def)
  then have small: "length (kb_chunks (process_view 1 d1)) < 2 ^ 30" by (simp add: memory_of_def)
  obtain st n where rpc: "rpc_index_document demo_env (\<lambda>_. True) (asc ''INSERT'') (asc ''a.pdf'') ?path (process_view 1 d1) = Some (st, Reply n)"
    using demo_rpc [OF refl small] by blast
  define d2 where "d2 = process_put 1 st d1"
  have two: "deliver_in demo_env (\<lambda>_. True) 1 (asc ''a.pdf'') ?path (Suc 0) d1 = Some d2" using rpc by (simp add: d2_def del: asc_Cons)
  have drawn: "dp_drawn twice_site \<le> dp_drawn d1"
    by (rule upload_in_cases [OF _ one]) (simp_all add: base demo_env_ok)
  have "valid_chunks demo_env d1 (memory_of 1 d1)"
    using twice_site_parts(2) chunks_wf_mono [OF _ drawn] unfolding mem valid_chunks_def by blast
  then have disk: "on_disk demo_env d2 (memory_of 1 d2)" by (rule deliver_disk [OF demo_env_ok(1) two])
  obtain d3 where three: "do_in demo_env 0 Do_start d2 = Some (d3, Inr ())" using demo_do_start disk by blast
  obtain pages n m new where r: "ke_pdf demo_env ?path = Inr pages"
     "chunks_from_reader (ke_cfg demo_env) (ke_uuid demo_env) (asc ''a.pdf'') pages n = Some (m, new)"
     "map strip_ids (source_chunks (memory_of 1 d2) (asc ''a.pdf'')) = map strip_ids new" "memory_of 0 d2 = memory_of 0 twice_site @ new"
     "memory_of 0 d3 = memory_of 1 d2"
    using upload_then_events [of demo_docs 0 1 twice_site "3" "(asc ''a.pdf'')" None demo_docs_world d1 w1 j ?path "\<lambda>_. True" 0 d2 0 d3,
        unfolded base, OF demo_env_ok _ _ one refl two three] twice_site_parts
    by (auto simp del: asc_Cons)
  have "length new = 1" using r(1,2) demo_reader [of "(asc ''a.pdf'')" n] by (auto simp: demo_env_def simp del: asc_Cons)
  then have "length (source_chunks (memory_of 1 d2) (asc ''a.pdf'')) = 1" "length (memory_of 0 d2) = 2"
    using arg_cong [OF r(3), of length] r(4) twice_site_parts(1) [of 0] by simp_all
  then show ?thesis using one two three r(5) by (simp only: One_nat_def) blast
qed

end
