(* ===== verification/Metrics.thy ===== *)
theory Metrics
  imports Rag_Service
begin

text \<open>
  The Prometheus metrics of \<open>core/metrics.py\<close> and \<open>rag-service/server.py\<close>: their declarations, and the events that the
  instrumented operations write, in the order they write them. Measured durations are left out; what the client library
  does with an event is its part. The lemmas say that the counters tell what happened.
\<close>

section \<open>Declarations\<close>

datatype metric_kind = Counter | Gauge | Histogram "real list option"

record metric =
  mt_attribute :: pystr
  mt_name :: pystr
  mt_kind :: metric_kind
  mt_labels :: "pystr list"

definition declare_metric :: "pystr \<Rightarrow> pystr \<Rightarrow> metric_kind \<Rightarrow> pystr list \<Rightarrow> metric" where
  "declare_metric attr name kind labels = \<lparr>mt_attribute = attr, mt_name = name, mt_kind = kind, mt_labels = labels\<rparr>"

definition crag_metrics :: "metric list" where
  "crag_metrics =
     [declare_metric (asc ''llm_calls_total'') (asc ''crag_llm_calls_total'') Counter [(asc ''model''), (asc ''status'')],
      declare_metric (asc ''llm_duration_seconds'') (asc ''crag_llm_duration_seconds'')
        (Histogram (Some [1/2, 1, 2, 5, 10, 20, 30, 60])) [(asc ''model'')],
      declare_metric (asc ''cache_hits_total'') (asc ''crag_cache_hits_total'') Counter [],
      declare_metric (asc ''cache_misses_total'') (asc ''crag_cache_misses_total'') Counter [],
      declare_metric (asc ''route_total'') (asc ''crag_route_total'') Counter [(asc ''route'')],
      declare_metric (asc ''kb_chunks_total'') (asc ''crag_kb_chunks_total'') Gauge [],
      declare_metric (asc ''kb_documents_total'') (asc ''crag_kb_documents_total'') Gauge [],
      declare_metric (asc ''celery_tasks_total'') (asc ''crag_celery_tasks_total'') Counter [(asc ''task_name''), (asc ''status'')],
      declare_metric (asc ''celery_task_duration_seconds'') (asc ''crag_celery_task_duration_seconds'')
        (Histogram (Some [1, 5, 10, 30, 60, 120, 300])) [(asc ''task_name'')],
      declare_metric (asc ''chat_requests_total'') (asc ''crag_chat_requests_total'') Counter [(asc ''route''), (asc ''cached'')],
      declare_metric (asc ''chat_duration_seconds'') (asc ''crag_chat_duration_seconds'')
        (Histogram (Some [1/2, 1, 2, 5, 10, 20, 30, 60])) [],
      declare_metric (asc ''retrieval_total'') (asc ''rag_retrieval_total'') Counter [(asc ''status'')],
      declare_metric (asc ''retrieval_duration_seconds'') (asc ''rag_retrieval_duration_seconds'')
        (Histogram (Some [1/100, 5/100, 1/10, 1/4, 1/2, 1, 2, 5])) [(asc ''stage'')],
      declare_metric (asc ''document_index_duration_seconds'') (asc ''rag_document_index_duration_seconds'') (Histogram None) [],
      declare_metric (asc ''llm_requests_total'') (asc ''rag_llm_requests_total'') Counter [(asc ''model''), (asc ''status'')],
      declare_metric (asc ''llm_errors_total'') (asc ''rag_llm_errors_total'') Counter [(asc ''model'')],
      declare_metric (asc ''rag_llm_duration_seconds'') (asc ''rag_llm_duration_seconds'') (Histogram None) [(asc ''model'')],
      declare_metric (asc ''rag_documents_total'') (asc ''rag_documents_total'') Gauge []]"

definition grpc_metrics :: "metric list" where
  "grpc_metrics =
     [declare_metric (asc ''GRPC_REQUESTS'') (asc ''grpc_requests_total'') Counter [(asc ''method''), (asc ''status'')],
      declare_metric (asc ''GRPC_DURATION'') (asc ''grpc_request_duration_seconds'') (Histogram None) [(asc ''method'')]]"

datatype metric_event = Incremented pystr "pystr list" | Observed pystr "pystr list" | Gauge_set pystr json

text \<open>An event is good when its metric is declared with that kind and that many labels.\<close>

definition kind_allows :: "metric_kind \<Rightarrow> metric_event \<Rightarrow> bool" where
  "kind_allows k ev = (case ev of Incremented _ _ \<Rightarrow> k = Counter | Gauge_set _ _ \<Rightarrow> k = Gauge
     | Observed _ _ \<Rightarrow> (case k of Histogram _ \<Rightarrow> True | _ \<Rightarrow> False))"

definition event_name :: "metric_event \<Rightarrow> pystr" where
  "event_name ev = (case ev of Incremented n _ \<Rightarrow> n | Observed n _ \<Rightarrow> n | Gauge_set n _ \<Rightarrow> n)"

definition event_labels :: "metric_event \<Rightarrow> pystr list" where
  "event_labels ev = (case ev of Incremented _ ls \<Rightarrow> ls | Observed _ ls \<Rightarrow> ls | Gauge_set _ _ \<Rightarrow> [])"

definition declared_event :: "metric_event \<Rightarrow> bool" where
  "declared_event ev \<longleftrightarrow> (\<exists>m\<in>set (crag_metrics @ grpc_metrics). mt_attribute m = event_name ev \<and>
     kind_allows (mt_kind m) ev \<and> length (mt_labels m) = length (event_labels ev))"

section \<open>Searching and ingesting\<close>

definition search_events ::
  "search_config \<Rightarrow> (pystr \<Rightarrow> int \<Rightarrow> (fscore \<times> int) list result) \<Rightarrow> 'v kb \<Rightarrow> pystr \<Rightarrow> int \<Rightarrow> real \<Rightarrow> metric_event list" where
  "search_events cfg vsearch st query top_k min_score =
     (if kb_chunks st = [] \<or> length (kb_index st) = 0 then [Incremented (asc ''retrieval_total'') [(asc ''empty'')]]
      else case search_hits cfg vsearch (kb_chunks st) (kb_bm25 st) query top_k min_score of
          Inl e \<Rightarrow> []
        | Inr fused \<Rightarrow>
            map (\<lambda>stage. Observed (asc ''retrieval_duration_seconds'') [stage]) [(asc ''faiss''), (asc ''bm25''), (asc ''rrf'')] @
            [Incremented (asc ''retrieval_total'') [(asc ''ok'')], Observed (asc ''retrieval_duration_seconds'') [(asc ''total'')]])"

definition ingest_events :: "add_report result \<Rightarrow> metric_event list" where
  "ingest_events r = (case r of Inl e \<Rightarrow> [] | Inr rep \<Rightarrow> [Observed (asc ''document_index_duration_seconds'') []])"

text \<open>The gauges the upload route sets from the statistics.\<close>

definition upload_events :: "json \<Rightarrow> metric_event list result" where
  "upload_events stats =
     rbind (json_get_or stats (asc ''total_chunks'') (JInt 0)) (\<lambda>c. rbind (json_get_or stats (asc ''source_count'') (JInt 0)) (\<lambda>n.
       Inr [Gauge_set (asc ''kb_chunks_total'') c, Gauge_set (asc ''rag_documents_total'') n]))"

section \<open>Calling the model\<close>

function invoke_events ::
  "pystr \<Rightarrow> (nat \<Rightarrow> pystr \<Rightarrow> pystr result) \<Rightarrow> pystr \<Rightarrow> nat \<Rightarrow> nat \<Rightarrow> metric_event list" where
  "invoke_events model llm prompt attempt n =
     (case llm n prompt of
        Inr response \<Rightarrow> [Incremented (asc ''llm_requests_total'') [model, (asc ''success'')], Observed (asc ''rag_llm_duration_seconds'') [model]]
      | Inl e \<Rightarrow>
          [Incremented (asc ''llm_requests_total'') [model, (asc ''error'')], Incremented (asc ''llm_errors_total'') [model],
           Observed (asc ''rag_llm_duration_seconds'') [model]] @
          (if attempt < 2 \<and> transient e then invoke_events model llm prompt (attempt + 1) (n + 1) else []))"
  by pat_completeness auto
termination
  by (relation "measure (\<lambda>(model, llm, prompt, attempt, n). 2 - attempt)") auto

declare invoke_events.simps [simp del]

section \<open>The gRPC calls\<close>

text \<open>
  What a call writes: \<open>ok\<close> once the work has returned, \<open>error\<close> when an exception reaches the handler, whether the work
  raised it or the construction of the reply, and the duration last.
\<close>

definition call_events :: "pystr \<Rightarrow> 'a result \<Rightarrow> ('a \<Rightarrow> 'b result) \<Rightarrow> metric_event list" where
  "call_events name worked reply =
     (case worked of
        Inl e \<Rightarrow> [Incremented (asc ''GRPC_REQUESTS'') [name, (asc ''error'')]]
      | Inr x \<Rightarrow> Incremented (asc ''GRPC_REQUESTS'') [name, (asc ''ok'')] #
          (case reply x of Inl e \<Rightarrow> [Incremented (asc ''GRPC_REQUESTS'') [name, (asc ''error'')]] | Inr y \<Rightarrow> [])) @
     [Observed (asc ''GRPC_DURATION'') [name]]"

definition rpc_search_events ::
  "search_config \<Rightarrow> (pystr \<Rightarrow> int \<Rightarrow> (fscore \<times> int) list result) \<Rightarrow> rerank_client \<Rightarrow> pystr option \<Rightarrow>
   'v kb \<Rightarrow> reranker \<Rightarrow> pystr \<Rightarrow> 32 word \<Rightarrow> metric_event list" where
  "rpc_search_events cfg vsearch post env_model st rr query top_k =
     call_events (asc ''Search'') (snd (search cfg vsearch post env_model st query (clamp_top_k top_k) (8/100) rr)) (mapr hit_of_result)"

definition rpc_chat_events :: "chat_env \<Rightarrow> clock \<Rightarrow> pystr \<Rightarrow> 64 word \<Rightarrow> 'r world \<Rightarrow> metric_event list" where
  "rpc_chat_events env ck question session_id w =
     call_events (asc ''Chat'')
       (snd (run_chat env None ck question (if session_id = 0 then None else Some (sint session_id)) None (w\<lparr>w_tables := None\<rparr>)))
       (\<lambda>j. rbind (chat_response j) (chat_reply_of (ge_repr (che_graph env))))"

definition rpc_index_events ::
  "'v kb_env \<Rightarrow> (pystr \<Rightarrow> bool) \<Rightarrow> pystr \<Rightarrow> pystr \<Rightarrow> pystr \<Rightarrow> 'v kb \<Rightarrow> metric_event list option" where
  "rpc_index_events env is_file operation source file_path st =
     (let aborted = [Incremented (asc ''GRPC_REQUESTS'') [(asc ''IndexDocument''), (asc ''error'')], Observed (asc ''GRPC_DURATION'') [(asc ''IndexDocument'')]]
      in if py_upper operation = (asc ''DELETE'') then
           (case delete_source env source st of
              (st', r) \<Rightarrow> Some (call_events (asc ''IndexDocument'') r (\<lambda>d. int32 (deleted_count st' d))))
         else if py_upper operation = (asc ''INSERT'') \<or> py_upper operation = (asc ''UPDATE'') then
           (if \<not> is_file file_path then Some aborted
            else map_option (\<lambda>(st', r). call_events (asc ''IndexDocument'') r (\<lambda>rep. int32 (int (ar_total_chunks rep))))
              (upsert_pdf env file_path source st))
         else Some aborted)"

section \<open>The counters tell what happened\<close>

lemma status_names: "(asc ''ok'') \<noteq> (asc ''error'')" "(asc ''success'') \<noteq> (asc ''error'')" "(asc ''ok'') \<noteq> (asc ''empty'')"
  by code_simp+

text \<open>
  One use of the model with its retries writes one request per call: the successes are the answers
  (at most one), the errors the failed calls, the error counter counts the same failures, and every call is timed.
\<close>

theorem llm_metrics_exact:
  fixes model llm prompt n
  defines "evs \<equiv> invoke_events model llm prompt 0 n" and "calls \<equiv> fst (invoke_attempts llm prompt 0 n) - n"
  shows "count_list evs (Incremented (asc ''llm_requests_total'') [model, (asc ''success'')]) =
      (case snd (invoke_attempts llm prompt 0 n) of Inr _ \<Rightarrow> 1 | Inl _ \<Rightarrow> 0) \<and>
    count_list evs (Incremented (asc ''llm_requests_total'') [model, (asc ''success'')]) +
      count_list evs (Incremented (asc ''llm_requests_total'') [model, (asc ''error'')]) = calls \<and>
    count_list evs (Incremented (asc ''llm_errors_total'') [model]) = count_list evs (Incremented (asc ''llm_requests_total'') [model, (asc ''error'')]) \<and>
    count_list evs (Observed (asc ''rag_llm_duration_seconds'') [model]) = calls"
proof -
  have names: "(asc ''llm_requests_total'') \<noteq> (asc ''llm_errors_total'')" by code_simp
  have "fst (invoke_attempts llm prompt a n) \<ge> n \<and>
    count_list (invoke_events model llm prompt a n) (Incremented (asc ''llm_requests_total'') [model, (asc ''success'')]) =
      (case snd (invoke_attempts llm prompt a n) of Inr _ \<Rightarrow> 1 | Inl _ \<Rightarrow> 0) \<and>
    count_list (invoke_events model llm prompt a n) (Incremented (asc ''llm_requests_total'') [model, (asc ''success'')]) +
      count_list (invoke_events model llm prompt a n) (Incremented (asc ''llm_requests_total'') [model, (asc ''error'')]) =
      fst (invoke_attempts llm prompt a n) - n \<and>
    count_list (invoke_events model llm prompt a n) (Incremented (asc ''llm_errors_total'') [model]) =
      count_list (invoke_events model llm prompt a n) (Incremented (asc ''llm_requests_total'') [model, (asc ''error'')]) \<and>
    count_list (invoke_events model llm prompt a n) (Observed (asc ''rag_llm_duration_seconds'') [model]) =
      fst (invoke_attempts llm prompt a n) - n" for a
  proof (induction llm prompt a n rule: invoke_attempts.induct)
    case (1 llm p a n)
    note unfold = invoke_attempts.simps [of llm p a n] invoke_events.simps [of model llm p a n]
    show ?case
    proof (cases "\<exists>e. llm n p = Inl e \<and> a < 2 \<and> transient e")
      case True
      then obtain e where e: "llm n p = Inl e" "a < 2" "transient e" by blast
      with "1.IH" [OF e(1)] show ?thesis using names status_names by (auto simp: unfold simp del: asc_Cons)
    next
      case False
      then show ?thesis using names status_names by (auto simp: unfold simp del: asc_Cons split: sum.split)
    qed
  qed
  then show ?thesis unfolding evs_def calls_def by blast
qed

lemma call_events_counts:
  "count_list (call_events name worked reply) (Incremented (asc ''GRPC_REQUESTS'') [name, (asc ''error'')]) =
     (case reply_or_abort (rbind worked reply) of Reply _ \<Rightarrow> 0 | Aborted _ \<Rightarrow> 1) \<and>
   count_list (call_events name worked reply) (Incremented (asc ''GRPC_REQUESTS'') [name, (asc ''ok'')]) =
     (case worked of Inr _ \<Rightarrow> 1 | Inl _ \<Rightarrow> 0) \<and>
   count_list (call_events name worked reply) (Observed (asc ''GRPC_DURATION'') [name]) = 1"
  using status_names by (auto simp: call_events_def simp del: asc_Cons split: sum.split)

text \<open>
  A gRPC call counts an error exactly when the client gets no reply, and every call is timed once.
  But a search or a chat whose result does not fit the reply counts twice: as \<open>ok\<close> and as \<open>error\<close>.
\<close>

theorem rpc_metrics_exact:
  fixes cfg vsearch post em st rr query top_k env ck question session_id w
  defines "ses \<equiv> rpc_search_events cfg vsearch post em st rr query top_k"
    and "found \<equiv> snd (search cfg vsearch post em st query (clamp_top_k top_k) (8/100) rr)"
    and "ces \<equiv> rpc_chat_events env ck question session_id w"
  shows "count_list ses (Incremented (asc ''GRPC_REQUESTS'') [(asc ''Search''), (asc ''error'')]) =
      (case snd (rpc_search cfg vsearch post em st rr query top_k) of Reply _ \<Rightarrow> 0 | Aborted _ \<Rightarrow> 1) \<and>
    count_list ces (Incremented (asc ''GRPC_REQUESTS'') [(asc ''Chat''), (asc ''error'')]) =
      (case snd (rpc_chat env ck question session_id w) of Reply _ \<Rightarrow> 0 | Aborted _ \<Rightarrow> 1) \<and>
    count_list ses (Observed (asc ''GRPC_DURATION'') [(asc ''Search'')]) = 1 \<and> count_list ces (Observed (asc ''GRPC_DURATION'') [(asc ''Chat'')]) = 1 \<and>
    (\<forall>rs e. found = Inr rs \<longrightarrow> mapr hit_of_result rs = Inl e \<longrightarrow>
       count_list ses (Incremented (asc ''GRPC_REQUESTS'') [(asc ''Search''), (asc ''ok'')]) = 1 \<and>
       count_list ses (Incremented (asc ''GRPC_REQUESTS'') [(asc ''Search''), (asc ''error'')]) = 1)"
  unfolding ses_def ces_def found_def rpc_search_events_def rpc_chat_events_def
  by (simp add: call_events_counts rpc_search_def rpc_chat_def split_def del: asc_Cons)

lemma index_metrics_exact:
  assumes "rpc_index_document env is_file operation source file_path st = Some (st', r)"
  obtains evs where "rpc_index_events env is_file operation source file_path st = Some evs"
    "count_list evs (Incremented (asc ''GRPC_REQUESTS'') [(asc ''IndexDocument''), (asc ''error'')]) = (case r of Reply _ \<Rightarrow> 0 | Aborted _ \<Rightarrow> 1)"
    "count_list evs (Observed (asc ''GRPC_DURATION'') [(asc ''IndexDocument'')]) = 1"
proof -
  have "\<exists>evs. rpc_index_events env is_file operation source file_path st = Some evs \<and>
    count_list evs (Incremented (asc ''GRPC_REQUESTS'') [(asc ''IndexDocument''), (asc ''error'')]) = (case r of Reply _ \<Rightarrow> 0 | Aborted _ \<Rightarrow> 1) \<and>
    count_list evs (Observed (asc ''GRPC_DURATION'') [(asc ''IndexDocument'')]) = 1"
    using assms unfolding rpc_index_document_def rpc_index_events_def Let_def
    by (auto simp: call_events_counts simp del: asc_Cons split: if_splits prod.splits)
  then show thesis using that by blast
qed

text \<open>A search counts \<open>ok\<close> exactly when a non-empty base answers it, \<open>empty\<close> when there is nothing to search; a search that raises is not counted.\<close>

theorem search_metrics_exact:
  fixes cfg vsearch post em st query top_k ms rr
  defines "evs \<equiv> search_events cfg vsearch st query top_k ms"
    and "none \<equiv> kb_chunks st = [] \<or> length (kb_index st) = 0"
  shows "count_list evs (Incremented (asc ''retrieval_total'') [(asc ''empty'')]) = (if none then 1 else 0) \<and>
    count_list evs (Incremented (asc ''retrieval_total'') [(asc ''ok'')]) =
      (if none then 0 else case snd (search cfg vsearch post em st query top_k ms rr) of Inr _ \<Rightarrow> 1 | Inl _ \<Rightarrow> 0)"
  unfolding evs_def none_def using status_names
  by (auto simp: search_events_def search_def kb_search_def Let_def split_def simp del: asc_Cons split: sum.split)

text \<open>Whatever the base holds, the upload route sets the gauge of chunks to zero: the statistics have no \<open>total_chunks\<close>.\<close>

theorem upload_gauge_zero:
  "\<exists>n. upload_events (kb_stats cfg scfg rest st) = Inr [Gauge_set (asc ''kb_chunks_total'') (JInt 0), Gauge_set (asc ''rag_documents_total'') n]"
proof -
  have "map_of [(k, rest k)] (asc ''total_chunks'') = None" if "k \<noteq> (asc ''total_chunks'')" for k using that by simp
  have "(asc ''total_chunks'') \<notin> set [(asc ''vector_store''), (asc ''chunks''), (asc ''parent_chunks''), (asc ''chunking_strategy''), (asc ''parent_chunk_size''),
      (asc ''parent_chunk_overlap''), (asc ''child_chunk_size''), (asc ''child_chunk_overlap''), (asc ''retrieval_mode''), (asc ''hybrid''), (asc ''bm25''), (asc ''sources''),
      (asc ''documents''), (asc ''source_count''), (asc ''embedding_provider''), (asc ''embedding_device''), (asc ''embedding_api_base''),
      (asc ''embedding_dimension''), (asc ''embedding''), (asc ''reranker''), (asc ''data_dir''), (asc ''model_cache_dir'')]" by code_simp
  then show ?thesis by (simp add: upload_events_def kb_stats_def Let_def del: asc_Cons)
qed

section \<open>Every event is declared\<close>

lemma declared_events:
  "declared_event (Incremented (asc ''retrieval_total'') [a])" "declared_event (Observed (asc ''retrieval_duration_seconds'') [a])"
  "declared_event (Observed (asc ''document_index_duration_seconds'') [])" "declared_event (Gauge_set (asc ''kb_chunks_total'') v)"
  "declared_event (Gauge_set (asc ''rag_documents_total'') v)" "declared_event (Incremented (asc ''llm_requests_total'') [a, b])"
  "declared_event (Incremented (asc ''llm_errors_total'') [a])" "declared_event (Observed (asc ''rag_llm_duration_seconds'') [a])"
  "declared_event (Incremented (asc ''GRPC_REQUESTS'') [a, b])" "declared_event (Observed (asc ''GRPC_DURATION'') [a])"
  by (simp_all add: declared_event_def crag_metrics_def grpc_metrics_def declare_metric_def event_name_def event_labels_def
      kind_allows_def del: asc_Cons)

text \<open>
  Every event an instrumented operation writes names a declared metric, of the kind it is used as,
  with as many label values as it declares.
\<close>

theorem metrics_declared:
  "(\<forall>ev\<in>set (search_events cfg vsearch st query top_k ms). declared_event ev) \<and>
   (\<forall>ev\<in>set (ingest_events r). declared_event ev) \<and>
   (\<forall>evs. upload_events stats = Inr evs \<longrightarrow> (\<forall>ev\<in>set evs. declared_event ev)) \<and>
   (\<forall>ev\<in>set (invoke_events model llm prompt attempt n). declared_event ev) \<and>
   (\<forall>ev\<in>set (call_events name worked reply). declared_event ev)"
proof -
  have "\<forall>ev\<in>set (invoke_events model llm prompt attempt n). declared_event ev"
  proof (induction model llm prompt attempt n rule: invoke_events.induct)
    case (1 model llm prompt attempt n)
    show ?case
    proof (cases "llm n prompt")
      case (Inl e)
      with 1 show ?thesis by (subst invoke_events.simps) (auto simp: declared_events simp del: asc_Cons)
    qed (subst invoke_events.simps, simp add: declared_events del: asc_Cons)
  qed
  then show ?thesis
    by (auto simp: search_events_def ingest_events_def upload_events_def call_events_def declared_events rbind_Inr_iff
        simp del: asc_Cons split: sum.splits if_splits)
qed

theorem metrics_declared_witness:
  "\<forall>ev\<in>set (ingest_events (Inr \<lparr>ar_source = [], ar_pages = 1, ar_chunks_added = 1, ar_parents_added = 1, ar_total_chunks = 1\<rparr>)).
     declared_event ev"
  using metrics_declared by blast

end
