(* ===== verification/Process_Setup.thy ===== *)
theory Process_Setup
  imports Service_Config
begin

text \<open>
  How the other processes are set up: the task queue with its timetable (\<open>tasks/celery_app.py\<close>), tracing by OpenTelemetry
  (\<open>core/telemetry.py\<close>), and the gRPC server from its checks to its end (\<open>serve\<close> of \<open>rag-service/server.py\<close>). Celery's
  scheduler, the OpenTelemetry packages and the event loop are not modelled: what the code asks of them is recorded as
  events, and which packages can be imported is a parameter.
\<close>

section \<open>The task queue\<close>

datatype schedule = Crontab "int option" int | Every_seconds real

record beat_entry =
  be_name :: pystr
  be_task :: pystr
  be_schedule :: schedule
  be_args :: "int list"

definition beat_schedule :: "beat_entry list" where
  "beat_schedule =
     [\<lparr>be_name = (asc ''rebuild-index-daily''), be_task = (asc ''backend.tasks.scheduled_tasks.rebuild_index_task''),
       be_schedule = Crontab (Some 3) 0, be_args = []\<rparr>,
      \<lparr>be_name = (asc ''cleanup-old-task-records''), be_task = (asc ''backend.tasks.scheduled_tasks.cleanup_old_tasks_task''),
       be_schedule = Crontab None 30, be_args = [7]\<rparr>,
      \<lparr>be_name = (asc ''health-metrics-report''), be_task = (asc ''backend.tasks.scheduled_tasks.report_health_metrics''),
       be_schedule = Every_seconds 300, be_args = []\<rparr>]"

definition celery_conf :: "(pystr \<times> json) list" where
  "celery_conf =
     [((asc ''task_serializer''), JStr (asc ''json'')), ((asc ''result_serializer''), JStr (asc ''json'')), ((asc ''accept_content''), JArr [JStr (asc ''json'')]),
      ((asc ''timezone''), JStr (asc ''Asia/Shanghai'')), ((asc ''enable_utc''), JBool True), ((asc ''result_expires''), JInt 86400),
      ((asc ''task_acks_late''), JBool True), ((asc ''task_reject_on_worker_lost''), JBool True),
      ((asc ''worker_concurrency''), JInt 4), ((asc ''worker_prefetch_multiplier''), JInt 1)]"

definition celery_include :: "pystr list" where
  "celery_include = [(asc ''backend.tasks.document_tasks''), (asc ''backend.tasks.scheduled_tasks'')]"

text \<open>The tasks that the included modules register, with the most arguments each takes.\<close>

definition registered_tasks :: "(pystr \<times> nat) list" where
  "registered_tasks =
     [((asc ''backend.tasks.document_tasks.process_pdf_task''), 3), ((asc ''backend.tasks.scheduled_tasks.rebuild_index_task''), 0),
      ((asc ''backend.tasks.scheduled_tasks.cleanup_old_tasks_task''), 1), ((asc ''backend.tasks.scheduled_tasks.report_health_metrics''), 0)]"

text \<open>Every scheduled task exists in an included module and takes its arguments.\<close>

theorem beat_tasks_registered:
  "\<forall>b\<in>set beat_schedule. \<exists>n. (be_task b, n) \<in> set registered_tasks \<and> length (be_args b) \<le> n \<and>
     (\<exists>m\<in>set celery_include. starts_with (be_task b) (m @ (asc ''.'')))"
proof -
  have "list_all (\<lambda>b. list_ex (\<lambda>t. fst t = be_task b \<and> length (be_args b) \<le> snd t) registered_tasks \<and>
      list_ex (\<lambda>m. starts_with (be_task b) (m @ (asc ''.''))) celery_include) beat_schedule" by code_simp
  then show ?thesis by (force simp: list_all_iff list_ex_iff)
qed

section \<open>Tracing\<close>

datatype exporter = Otlp pystr | Console

datatype trace_event = Provider_set pystr exporter | App_instrumented | Grpc_instrumented | Missing pystr

record tracing =
  tr_configured :: bool
  tr_events :: "trace_event list"

text \<open>Which of the optional packages can be imported.\<close>

record packages =
  pk_sdk :: bool
  pk_fastapi :: bool
  pk_grpc :: bool

definition note_event :: "trace_event \<Rightarrow> tracing \<Rightarrow> tracing" where
  "note_event ev t = t\<lparr>tr_events := tr_events t @ [ev]\<rparr>"

definition otel_enabled :: "settings \<Rightarrow> bool" where
  "otel_enabled s = truthy (setting s (asc ''otel_enabled''))"

definition text_setting :: "settings \<Rightarrow> pystr \<Rightarrow> pystr" where
  "text_setting s k = (case setting s k of JStr t \<Rightarrow> t | _ \<Rightarrow> [])"

definition choose_exporter :: "settings \<Rightarrow> exporter" where
  "choose_exporter s =
     (if py_lower (text_setting s (asc ''otel_exporter'')) = (asc ''otlp'')
      then Otlp (str_or (text_setting s (asc ''otel_exporter_otlp_endpoint'')) (asc ''otel-collector:4317'')) else Console)"

definition configure_telemetry :: "settings \<Rightarrow> packages \<Rightarrow> pystr \<Rightarrow> tracing \<Rightarrow> tracing" where
  "configure_telemetry s pk service_name t =
     (if tr_configured t \<or> \<not> otel_enabled s then t
      else if pk_sdk pk then (note_event (Provider_set service_name (choose_exporter s)) t)\<lparr>tr_configured := True\<rparr>
      else note_event (Missing (asc ''otel_dependencies_missing'')) t)"

definition instrument_fastapi :: "settings \<Rightarrow> packages \<Rightarrow> tracing \<Rightarrow> tracing" where
  "instrument_fastapi s pk t =
     (let t1 = configure_telemetry s pk (asc ''rag-service'') t
      in if \<not> otel_enabled s then t1
         else if pk_fastapi pk then note_event App_instrumented t1
         else note_event (Missing (asc ''otel_fastapi_instrumentation_missing'')) t1)"

definition instrument_grpc_server :: "settings \<Rightarrow> packages \<Rightarrow> tracing \<Rightarrow> tracing" where
  "instrument_grpc_server s pk t =
     (let t1 = configure_telemetry s pk (asc ''rag-service'') t
      in if \<not> otel_enabled s then t1
         else if pk_grpc pk then note_event Grpc_instrumented t1
         else note_event (Missing (asc ''otel_grpc_instrumentation_missing'')) t1)"

inductive trace_step :: "settings \<Rightarrow> packages \<Rightarrow> tracing \<Rightarrow> tracing \<Rightarrow> bool" for s pk where
  trace_configure: "trace_step s pk t (configure_telemetry s pk name t)"
| trace_fastapi: "trace_step s pk t (instrument_fastapi s pk t)"
| trace_grpc: "trace_step s pk t (instrument_grpc_server s pk t)"

fun is_provider :: "trace_event \<Rightarrow> bool" where
  "is_provider (Provider_set _ _) = True"
| "is_provider _ = False"

definition trace_ok :: "settings \<Rightarrow> packages \<Rightarrow> tracing \<Rightarrow> bool" where
  "trace_ok s pk t \<longleftrightarrow> length (filter is_provider (tr_events t)) = (if tr_configured t then 1 else 0) \<and>
     (\<not> otel_enabled s \<longrightarrow> tr_events t = [] \<and> \<not> tr_configured t) \<and>
     (tr_configured t \<longrightarrow> pk_sdk pk) \<and> (\<forall>n x. Provider_set n x \<in> set (tr_events t) \<longrightarrow> x = choose_exporter s)"

lemma trace_step_ok: "trace_step s pk t t' \<Longrightarrow> trace_ok s pk t \<Longrightarrow> trace_ok s pk t'"
proof -
  have conf: "trace_ok s pk (configure_telemetry s pk n t)" if "trace_ok s pk t" for n t
    using that by (auto simp: trace_ok_def configure_telemetry_def note_event_def)
  have noted: "trace_ok s pk (note_event ev t)" if "trace_ok s pk t" "otel_enabled s" "\<not> is_provider ev" for ev t
    using that by (auto simp: trace_ok_def note_event_def)
  show "trace_step s pk t t' \<Longrightarrow> trace_ok s pk t \<Longrightarrow> trace_ok s pk t'"
    by (induction rule: trace_step.induct) (auto simp: instrument_fastapi_def instrument_grpc_server_def Let_def conf noted)
qed

text \<open>
  However often and in whatever order tracing is configured and the servers instrumented, at most one
  provider is installed, with the exporter the settings name; with tracing switched off nothing happens at all.
\<close>

theorem telemetry_once:
  assumes "(trace_step s pk)\<^sup>*\<^sup>* \<lparr>tr_configured = False, tr_events = []\<rparr> t"
  shows "length (filter is_provider (tr_events t)) \<le> 1 \<and> (\<forall>n x. Provider_set n x \<in> set (tr_events t) \<longrightarrow> x = choose_exporter s) \<and>
    (\<not> otel_enabled s \<longrightarrow> tr_events t = [])"
proof -
  have "trace_ok s pk t" using assms
    by (induction rule: rtranclp_induct) (auto simp: trace_ok_def dest: trace_step_ok [unfolded trace_ok_def])
  then show ?thesis by (auto simp: trace_ok_def)
qed

definition all_packages :: packages where
  "all_packages = \<lparr>pk_sdk = True, pk_fastapi = True, pk_grpc = True\<rparr>"

theorem telemetry_once_witness:
  "length (filter is_provider (tr_events (instrument_grpc_server [((asc ''otel_enabled''), JBool True)] all_packages
     (instrument_fastapi [((asc ''otel_enabled''), JBool True)] all_packages \<lparr>tr_configured = False, tr_events = []\<rparr>)))) \<le> 1"
proof -
  let ?s = "[((asc ''otel_enabled''), JBool True)]" and ?t = "\<lparr>tr_configured = False, tr_events = []\<rparr>"
  have "(trace_step ?s all_packages)\<^sup>*\<^sup>* ?t (instrument_fastapi ?s all_packages ?t)"
    by (rule r_into_rtranclp) (rule trace_fastapi)
  from rtranclp.rtrancl_into_rtrancl [OF this trace_grpc] show ?thesis using telemetry_once by blast
qed

section \<open>The gRPC server\<close>

datatype serve_event = Bound pystr int | Metrics_served int | Server_started | Server_stopped int

text \<open>
  \<open>serve\<close>: the tracing, the events, and how it ends; \<open>None\<close> when it keeps serving because no stop signal arrives.
  Handlers are installed by the event loop or, where it cannot, by \<open>signal.signal\<close>, with the same effect.
\<close>

definition serve_grpc :: "settings \<Rightarrow> packages \<Rightarrow> environ \<Rightarrow> bool \<Rightarrow> tracing \<Rightarrow> tracing \<times> serve_event list \<times> unit result option" where
  "serve_grpc s pk e signalled t =
     (if setting s (asc ''vector_store'') \<noteq> JStr (asc ''faiss'')
      then (t, [], Some (Inl (RuntimeError (asc ''This deployment only supports VECTOR_STORE=faiss''))))
      else
        let t1 = instrument_grpc_server s pk t; bound = Bound (getenv e (asc ''RAG_GRPC_ADDR'') (asc ''0.0.0.0:50051'')) (32 * 1024 * 1024)
        in case py_int (JStr (getenv e (asc ''RAG_METRICS_PORT'') (asc ''9090''))) of
             Inl exc \<Rightarrow> (t1, [bound], Some (Inl exc))
           | Inr metrics_port \<Rightarrow>
               let started = [bound, Metrics_served metrics_port, Server_started]
               in if signalled then (t1, started @ [Server_stopped 20], Some (Inr ())) else (t1, started, None))"

text \<open>
  With settings that load, the server refuses no store. It starts exactly when the metrics port is a number,
  serves until a signal arrives, and then stops; a bad port ends the process before it serves.
\<close>

theorem serve_total:
  assumes load: "load_settings given = Inr s" "\<forall>(k, v)\<in>set given. k \<in> {(asc ''log_level''), (asc ''vector_store'')} \<longrightarrow> (\<exists>t. v = JStr t)"
    and run: "serve_grpc s pk e signalled t = (t', evs, r)"
  shows "(Server_started \<in> set evs \<longleftrightarrow> (\<exists>port. py_int (JStr (getenv e (asc ''RAG_METRICS_PORT'') (asc ''9090''))) = Inr port)) \<and>
    (r = None \<longleftrightarrow> Server_started \<in> set evs \<and> \<not> signalled) \<and>
    (Server_stopped 20 \<in> set evs \<longleftrightarrow> r = Some (Inr ())) \<and> (\<exists>addr n. hd evs = Bound addr n \<and> evs \<noteq> [])"
proof -
  have "setting s (asc ''vector_store'') = JStr (asc ''faiss'')" using settings_valid [OF load] by blast
  then show ?thesis using run
    by (cases "py_int (JStr (getenv e (asc ''RAG_METRICS_PORT'') (asc ''9090'')))") (auto simp: serve_grpc_def Let_def simp del: asc_Cons split: if_splits)
qed

theorem serve_total_witness:
  "\<exists>s t' evs. load_settings [] = Inr s \<and> serve_grpc s all_packages Map.empty True \<lparr>tr_configured = False, tr_events = []\<rparr> = (t', evs, Some (Inr ())) \<and>
     Server_started \<in> set evs"
proof -
  obtain s where s: "load_settings [] = Inr s" by (simp add: load_settings_def)
  obtain t' evs r where run: "serve_grpc s all_packages Map.empty True \<lparr>tr_configured = False, tr_events = []\<rparr> = (t', evs, r)"
    by (rule prod_cases3)
  have "py_int (JStr (getenv Map.empty (asc ''RAG_METRICS_PORT'') (asc ''9090''))) = Inr 9090" by code_simp
  then have started: "Server_started \<in> set evs" and "r \<noteq> None" using serve_total [OF s _ run] by auto
  then obtain x where r: "r = Some x" by blast
  have "x = Inr ()" using run r started by (auto simp: serve_grpc_def Let_def split: if_splits sum.splits)
  then show ?thesis using s run r started by blast
qed

section \<open>The local-first switch of the graph\<close>

text \<open>\<open>LOCAL_FIRST_MODE\<close> of \<open>graph.py\<close>, which nothing reads.\<close>

definition local_first_mode :: "environ \<Rightarrow> bool" where
  "local_first_mode e = (py_lower (strip_env (getenv e (asc ''LOCAL_FIRST_MODE'') (asc ''true''))) \<in> set [(asc ''1''), (asc ''true''), (asc ''yes''), (asc ''on'')])"

end
