(* ===== verification/Eval_Output.thy ===== *)
theory Eval_Output
  imports Evaluation Service_Config
begin

text \<open>
  The rest of \<open>tools/ragas_observability_eval.py\<close>: its options and environment, the values of the RAGAS judge with their
  NaNs and array scalars (\<open>as_jsonable\<close>), the data set and the configuration given to the judge, the report files and
  \<open>main\<close>. The command-line parser, RAGAS, \<open>json.dumps\<close> on JSON values and \<open>str\<close> of other values are parameters.
\<close>

section \<open>Options and environment\<close>

record eval_args =
  ea_cases :: pystr
  ea_limit :: int
  ea_output_dir :: pystr
  ea_no_ragas :: bool
  ea_trace_langsmith :: bool
  ea_ragas_timeout :: int
  ea_ragas_retries :: int
  ea_ragas_workers :: int
  ea_strictness :: int
  ea_judge_max_tokens :: int
  ea_quiet :: bool

text \<open>The defaults of the options; \<open>base\<close> is the directory of the project.\<close>

definition default_args :: "pystr \<Rightarrow> eval_args" where
  "default_args base =
     \<lparr>ea_cases = base @ (asc ''/data/eval/ragas_eval_cases.example.json''), ea_limit = 0, ea_output_dir = base @ (asc ''/data/evaluations''),
      ea_no_ragas = False, ea_trace_langsmith = False, ea_ragas_timeout = 180, ea_ragas_retries = 3, ea_ragas_workers = 4,
      ea_strictness = 1, ea_judge_max_tokens = 2048, ea_quiet = False\<rparr>"

definition configure_environment :: "bool \<Rightarrow> environ \<Rightarrow> environ \<Rightarrow> environ" where
  "configure_environment trace_langsmith dotenv e =
     (let e1 = e ++ dotenv;
          e2 = (if e1 (asc ''PYTHONIOENCODING'') = None then e1((asc ''PYTHONIOENCODING'') \<mapsto> (asc ''utf-8'')) else e1);
          e3 = e2((asc ''RAGAS_DO_NOT_TRACK'') \<mapsto> (asc ''true''))
      in if \<not> trace_langsmith
         then e3((asc ''LANGCHAIN_TRACING_V2'') \<mapsto> (asc ''false''), (asc ''LANGSMITH_TRACING'') \<mapsto> (asc ''false'')) else e3)"

section \<open>Values of the judge\<close>

text \<open>
  Python values: a float is finite or is written as \<open>str\<close> shows it; \<open>PItem\<close> has an \<open>item\<close> method that returns a value or
  raises; the text is its \<open>str\<close>. \<open>POther\<close> is any other object.
\<close>

datatype pyvalue =
    PNone | PBool bool | PInt int | PFloat real | PNonfinite pystr | PStr pystr
  | PList "pyvalue list" | PTuple "pyvalue list" | PDict "(pyvalue \<times> pyvalue) list"
  | PItem "pyvalue option" pystr | POther pystr

text \<open>A dictionary comprehension: a later entry replaces the value of an equal key.\<close>

definition dict_of :: "(pystr \<times> 'a) list \<Rightarrow> (pystr \<times> 'a) list" where
  "dict_of kvs = fold (\<lambda>(k, v). dict_put k v) kvs []"

fun as_jsonable :: "(pyvalue \<Rightarrow> pystr) \<Rightarrow> pyvalue \<Rightarrow> pyvalue" where
  "as_jsonable str_of (PDict kvs) =
     PDict (map (\<lambda>(k, v). (PStr k, v)) (dict_of (map (\<lambda>kv. (str_of (fst kv), as_jsonable str_of (snd kv))) kvs)))"
| "as_jsonable str_of (PList vs) = PList (map (as_jsonable str_of) vs)"
| "as_jsonable str_of (PTuple vs) = PList (map (as_jsonable str_of) vs)"
| "as_jsonable str_of (PNonfinite s) = PNone"
| "as_jsonable str_of (PItem (Some v) s) = as_jsonable str_of v"
| "as_jsonable str_of (PItem None s) = PStr s"
| "as_jsonable str_of v = v"

lemma mapr_cong [fundef_cong]: "xs = ys \<Longrightarrow> (\<And>x. x \<in> set ys \<Longrightarrow> f x = g x) \<Longrightarrow> mapr f xs = mapr g ys"
  by (induction ys arbitrary: xs) auto

text \<open>What \<open>json.dumps(\<dots>, allow_nan=False)\<close> accepts here, as a JSON value.\<close>

fun to_json :: "pyvalue \<Rightarrow> json result" where
  "to_json PNone = Inr JNull"
| "to_json (PBool b) = Inr (JBool b)"
| "to_json (PInt i) = Inr (JInt i)"
| "to_json (PFloat x) = Inr (JReal x)"
| "to_json (PNonfinite s) = Inl (ValueError ((asc ''Out of range float values are not JSON compliant: '') @ s))"
| "to_json (PStr s) = Inr (JStr s)"
| "to_json (PList vs) = rbind (mapr to_json vs) (\<lambda>js. Inr (JArr js))"
| "to_json (PTuple vs) = rbind (mapr to_json vs) (\<lambda>js. Inr (JArr js))"
| "to_json (PDict kvs) = rbind (mapr (\<lambda>kv. case fst kv of
       PStr k \<Rightarrow> rbind (to_json (snd kv)) (\<lambda>j. Inr (k, j)) | _ \<Rightarrow> Inl (OtherError (asc ''keys must be str''))) kvs) (\<lambda>js. Inr (JObj js))"
| "to_json (PItem v s) = Inl (OtherError (asc ''Object is not JSON serializable''))"
| "to_json (POther s) = Inl (OtherError (asc ''Object is not JSON serializable''))"

text \<open>Values of the kinds that the judge and the tool produce, at every depth.\<close>

fun known :: "pyvalue \<Rightarrow> bool" where
  "known (POther s) = False"
| "known (PItem (Some v) s) = known v"
| "known (PList vs) = (\<forall>v\<in>set vs. known v)"
| "known (PTuple vs) = (\<forall>v\<in>set vs. known v)"
| "known (PDict kvs) = (\<forall>kv\<in>set kvs. known (snd kv))"
| "known v = True"

lemma dict_of_values: "kv \<in> set (dict_of kvs) \<Longrightarrow> kv \<in> set kvs"
proof -
  have upd: "set (dict_put k v al) \<subseteq> insert (k, v) (set al)" for k :: pystr and v :: 'a and al by (induction al) auto
  have "set (fold (\<lambda>(k, v). dict_put k v) kvs acc) \<subseteq> set acc \<union> set kvs" for acc
    using upd by (induction kvs arbitrary: acc) fastforce+
  then show "kv \<in> set (dict_of kvs) \<Longrightarrow> kv \<in> set kvs" unfolding dict_of_def by fastforce
qed

lemma mapr_total: "\<forall>x\<in>set xs. \<exists>y. f x = Inr y \<Longrightarrow> \<exists>ys. mapr f xs = Inr ys"
  by (induction xs) auto

text \<open>Whatever NaNs, infinities and array scalars the judge returns, the cleaned value is accepted by \<open>json.dumps\<close>.\<close>

lemma cleaned_serialises: "known v \<Longrightarrow> \<exists>j. to_json (as_jsonable str_of v) = Inr j"
proof (induction str_of v rule: as_jsonable.induct)
  case (1 str_of kvs)
  let ?ps = "map (\<lambda>kv. (str_of (fst kv), as_jsonable str_of (snd kv))) kvs"
  have "\<exists>j. to_json (snd p) = Inr j" if "p \<in> set (dict_of ?ps)" for p
    using dict_of_values [OF that] 1 by auto
  then have "\<exists>ys. mapr (\<lambda>kv. case fst kv of PStr k \<Rightarrow> rbind (to_json (snd kv)) (\<lambda>j. Inr (k, j))
      | _ \<Rightarrow> Inl (OtherError (asc ''keys must be str''))) (map (\<lambda>(k, v). (PStr k, v)) (dict_of ?ps)) = Inr ys"
    by (intro mapr_total) (fastforce simp: rbind_def)
  then show ?case by auto
next
  case (2 str_of vs)
  then have "\<exists>ys. mapr to_json (map (as_jsonable str_of) vs) = Inr ys" by (intro mapr_total) auto
  then show ?case by auto
next
  case (3 str_of vs)
  then have "\<exists>ys. mapr to_json (map (as_jsonable str_of) vs) = Inr ys" by (intro mapr_total) auto
  then show ?case by auto
qed simp_all

fun of_json :: "json \<Rightarrow> pyvalue" where
  "of_json JNull = PNone"
| "of_json (JBool b) = PBool b"
| "of_json (JInt i) = PInt i"
| "of_json (JReal x) = PFloat x"
| "of_json (JStr s) = PStr s"
| "of_json (JArr js) = PList (map of_json js)"
| "of_json (JObj kvs) = PDict (map (\<lambda>kv. (PStr (fst kv), of_json (snd kv))) kvs)"

fun distinct_keys :: "json \<Rightarrow> bool" where
  "distinct_keys (JArr js) = (\<forall>j\<in>set js. distinct_keys j)"
| "distinct_keys (JObj kvs) = (distinct (map fst kvs) \<and> (\<forall>kv\<in>set kvs. distinct_keys (snd kv)))"
| "distinct_keys j = True"

lemma known_of_json: "known (of_json j)"
  by (induction j rule: of_json.induct) auto

lemma dict_of_distinct: "distinct (map fst kvs) \<Longrightarrow> dict_of kvs = kvs"
proof -
  have upd: "k \<notin> fst ` set al \<Longrightarrow> dict_put k v al = al @ [(k, v)]" for k :: pystr and v :: 'a and al by (induction al) auto
  have "distinct (map fst (acc @ kvs)) \<Longrightarrow> fold (\<lambda>(k, v). dict_put k v) kvs acc = acc @ kvs" for acc
  proof (induction kvs arbitrary: acc)
    case (Cons kv kvs)
    obtain k v where kv: "kv = (k, v)" by fastforce
    have "k \<notin> fst ` set acc" using Cons.prems kv by auto
    with Cons.IH [of "acc @ [(k, v)]"] Cons.prems kv upd show ?case by simp
  qed simp
  then show "distinct (map fst kvs) \<Longrightarrow> dict_of kvs = kvs" unfolding dict_of_def by (metis append_Nil)
qed

lemma mapr_map: "mapr f (map g xs) = mapr (\<lambda>x. f (g x)) xs"
  by (induction xs) simp_all

lemma mapr_idem: "(\<And>x. x \<in> set xs \<Longrightarrow> f x = Inr x) \<Longrightarrow> mapr f xs = Inr xs"
  by (induction xs) simp_all

text \<open>
  A value that is JSON already is written as it is, keys in their order; every value of the judge is
  written without an exception.
\<close>

theorem jsonable_roundtrip:
  "(distinct_keys j \<longrightarrow> (\<forall>k. str_of (PStr k) = k) \<longrightarrow> to_json (as_jsonable str_of (of_json j)) = Inr j) \<and>
   (known v \<longrightarrow> (\<exists>j'. to_json (as_jsonable str_of v) = Inr j'))"
proof (intro conjI impI)
  assume str: "\<forall>k. str_of (PStr k) = k"
  show "distinct_keys j \<Longrightarrow> to_json (as_jsonable str_of (of_json j)) = Inr j"
  proof (induction j rule: of_json.induct)
    case (6 js)
    then show ?case by (simp add: mapr_map mapr_idem comp_def)
  next
    case (7 kvs)
    let ?ps = "map (\<lambda>kv. (fst kv, as_jsonable str_of (of_json (snd kv)))) kvs"
    have "distinct (map fst ?ps)" using 7 by (simp add: comp_def)
    then have ps: "dict_of ?ps = ?ps" by (rule dict_of_distinct)
    have "to_json (as_jsonable str_of (of_json (JObj kvs))) =
        rbind (mapr (\<lambda>kv. rbind (to_json (as_jsonable str_of (of_json (snd kv)))) (\<lambda>j. Inr (fst kv, j))) kvs) (\<lambda>js. Inr (JObj js))"
      using str ps by (simp add: comp_def mapr_map split_def)
    also have "\<dots> = Inr (JObj kvs)" using 7 by (subst mapr_idem) auto
    finally show ?case .
  qed simp_all
qed (use cleaned_serialises in blast)

theorem jsonable_roundtrip_witness:
  "\<exists>j'. to_json (as_jsonable (\<lambda>_. (asc ''k'')) (PDict [(PInt 1, PList [PNonfinite (asc ''nan''), PItem (Some (PFloat 1)) (asc ''1.0'')])])) = Inr j'"
proof -
  have "known (PDict [(PInt 1, PList [PNonfinite (asc ''nan''), PItem (Some (PFloat 1)) (asc ''1.0'')])])" by simp
  then show ?thesis using jsonable_roundtrip by blast
qed

section \<open>The judge\<close>

definition dataset_row :: "eval_record \<Rightarrow> json" where
  "dataset_row r = JObj [((asc ''user_input''), JStr (ec_question (er_case r))), ((asc ''response''), JStr (er_answer r)),
     ((asc ''retrieved_contexts''), JArr (map JStr (er_contexts r))), ((asc ''reference''), JStr (ec_reference (er_case r)))]"

record judge_config =
  jc_model :: pystr
  jc_base_url :: pystr
  jc_api_key :: "pystr option"
  jc_max_tokens :: int
  jc_timeout :: int
  jc_max_retries :: int
  jc_max_workers :: int
  jc_strictness :: int
  jc_show_progress :: bool

definition judge_model :: "environ \<Rightarrow> pystr" where
  "judge_model e = getenv e (asc ''RAGAS_JUDGE_MODEL'') (getenv e (asc ''OPENAI_MODEL'') (getenv e (asc ''MODEL_NAME'') (asc ''deepseek-chat'')))"

definition judge_config :: "environ \<Rightarrow> eval_args \<Rightarrow> judge_config" where
  "judge_config e args =
     \<lparr>jc_model = judge_model e, jc_base_url = getenv e (asc ''OPENAI_API_BASE'') (asc ''https://api.deepseek.com''),
      jc_api_key = e (asc ''OPENAI_API_KEY''), jc_max_tokens = ea_judge_max_tokens args, jc_timeout = ea_ragas_timeout args,
      jc_max_retries = ea_ragas_retries args, jc_max_workers = ea_ragas_workers args,
      jc_strictness = max 1 (ea_strictness args), jc_show_progress = \<not> ea_quiet args\<rparr>"

text \<open>\<open>KnowledgeBaseEmbeddings\<close>; \<open>em\<close> is the embedding of the knowledge base.\<close>

definition embed_documents :: "(pystr list \<Rightarrow> 'v list result) \<Rightarrow> pystr list \<Rightarrow> 'v list result" where
  "embed_documents em texts = (if texts = [] then Inr [] else em texts)"

definition embed_query :: "(pystr list \<Rightarrow> 'v list result) \<Rightarrow> pystr \<Rightarrow> 'v result" where
  "embed_query em t = rbind (embed_documents em [t]) (\<lambda>vs.
     case vs of [] \<Rightarrow> Inl (OtherError (asc ''list index out of range'')) | v # _ \<Rightarrow> Inr v)"

text \<open>A row of scores, cleaned; its keys are the names of the metrics.\<close>

definition clean_scores :: "(pyvalue \<Rightarrow> pystr) \<Rightarrow> (pystr \<times> pyvalue) list \<Rightarrow> (pystr \<times> json) list" where
  "clean_scores str_of row = concat (map (\<lambda>kv. case to_json (as_jsonable str_of (snd kv)) of
     Inr j \<Rightarrow> [(fst kv, j)] | Inl e \<Rightarrow> []) row)"

type_synonym judge = "json list \<Rightarrow> judge_config \<Rightarrow> ((pystr \<times> pyvalue) list list \<times> (pystr \<times> pyvalue) list) result"

definition run_ragas ::
  "(pyvalue \<Rightarrow> pystr) \<Rightarrow> judge \<Rightarrow> environ \<Rightarrow> eval_args \<Rightarrow> eval_record list \<Rightarrow>
   ((pystr \<times> json) list list \<times> (pystr \<times> json) list) result" where
  "run_ragas str_of evaluate e args records =
     rbind (evaluate (map dataset_row records) (judge_config e args)) (\<lambda>(scores, aggregate).
       Inr (map (clean_scores str_of) scores, clean_scores str_of aggregate))"

section \<open>The report files\<close>

definition record_json :: "eval_record \<Rightarrow> json" where
  "record_json r = JObj
     [((asc ''id''), JStr (ec_id (er_case r))), ((asc ''question''), JStr (ec_question (er_case r))),
      ((asc ''reference''), JStr (ec_reference (er_case r))), ((asc ''answer''), JStr (er_answer r)), ((asc ''route''), JStr (er_route r)),
      ((asc ''web_fallback''), JBool (er_web_fallback r)), ((asc ''latency_sec''), JReal (er_latency r)),
      ((asc ''retrieved_count''), JInt (int (er_retrieved r))), ((asc ''context_chars''), JInt (int (er_context_chars r))),
      ((asc ''top_retrieval_score''), json_of_option (er_top_score r)), ((asc ''avg_retrieval_score''), json_of_option (er_avg_score r)),
      ((asc ''sources''), JArr (map JObj (er_sources r))), ((asc ''contexts''), JArr (map JStr (er_contexts r))),
      ((asc ''steps''), JArr (map JStr (er_steps r))), ((asc ''reasoning_summary''), JArr (map JStr (er_reasoning r))),
      ((asc ''metadata''), ec_metadata (er_case r)), ((asc ''ragas_scores''), JObj (er_scores r))]"

definition gate_json :: "gate \<Rightarrow> json" where
  "gate_json g = JObj [((asc ''metric''), JStr (ga_metric g)), ((asc ''value''), ga_value g), ((asc ''threshold''), JReal (ga_threshold g)),
     ((asc ''passed''), JBool (ga_passed g))]"

definition summary_json :: "summary \<Rightarrow> json" where
  "summary_json su = JObj
     [((asc ''case_count''), JInt (int (su_count su))), ((asc ''quality''), JObj (su_quality su)), ((asc ''routing''), JObj (su_routing su)),
      ((asc ''retrieval''), JObj (su_retrieval su)), ((asc ''latency''), JObj (su_latency su)),
      ((asc ''gates''), JArr (map gate_json (su_gates su))), ((asc ''passed''), JBool (su_passed su))]"

definition report_payload :: "(pystr \<times> json) list \<Rightarrow> summary \<Rightarrow> eval_record list \<Rightarrow> json" where
  "report_payload config su records = JObj
     [((asc ''config''), JObj config), ((asc ''summary''), summary_json su), ((asc ''records''), JArr (map record_json records))]"

type_synonym files = "pystr \<Rightarrow> pystr option"

record report_paths =
  rp_json :: pystr
  rp_md :: pystr
  rp_latest_json :: pystr
  rp_latest_md :: pystr

definition report_paths :: "pystr \<Rightarrow> pystr \<Rightarrow> report_paths" where
  "report_paths dir stamp =
     \<lparr>rp_json = dir @ (asc ''/ragas_observability_'') @ stamp @ (asc ''.json''), rp_md = dir @ (asc ''/ragas_observability_'') @ stamp @ (asc ''.md''),
      rp_latest_json = dir @ (asc ''/ragas_observability_latest.json''), rp_latest_md = dir @ (asc ''/ragas_observability_latest.md'')\<rparr>"

text \<open>Copying: the file is read back and written under the other name.\<close>

definition copy_file :: "pystr \<Rightarrow> pystr \<Rightarrow> files \<Rightarrow> files result" where
  "copy_file a b fs = (case fs a of None \<Rightarrow> Inl (OtherError (asc ''No such file or directory'')) | Some t \<Rightarrow> Inr (fs(b \<mapsto> t)))"

definition write_reports ::
  "(json \<Rightarrow> pystr) \<Rightarrow> (json \<Rightarrow> pystr) \<Rightarrow> (pyvalue \<Rightarrow> pystr) \<Rightarrow> pystr \<Rightarrow> pystr \<Rightarrow> pystr \<Rightarrow>
   eval_record list \<Rightarrow> summary \<Rightarrow> (pystr \<times> json) list \<Rightarrow> files \<Rightarrow> files result" where
  "write_reports dumps repr str_of dir stamp now records su config fs =
     (let p = report_paths dir stamp
      in rbind (to_json (as_jsonable str_of (of_json (report_payload config su records)))) (\<lambda>j.
         let fs1 = fs(rp_json p \<mapsto> dumps j); fs2 = fs1(rp_md p \<mapsto> report_markdown repr now su config records)
         in rbind (copy_file (rp_json p) (rp_latest_json p) fs2) (copy_file (rp_md p) (rp_latest_md p))))"

section \<open>The whole command\<close>

definition run_config :: "environ \<Rightarrow> eval_args \<Rightarrow> json \<Rightarrow> (pystr \<times> json) list result" where
  "run_config e args stats =
     rbind (mapr (\<lambda>(k, src). rbind (json_get stats src) (\<lambda>v. Inr (k, v)))
        [((asc ''retrieval_mode''), (asc ''retrieval_mode'')), ((asc ''chunking_strategy''), (asc ''chunking_strategy'')),
         ((asc ''embedding_provider''), (asc ''embedding_provider'')), ((asc ''embedding_dimension''), (asc ''embedding_dimension'')),
         ((asc ''source_count''), (asc ''source_count'')), ((asc ''chunk_count''), (asc ''chunks''))]) (\<lambda>kb. Inr
       ([((asc ''cases_file''), JStr (ea_cases args)), ((asc ''no_ragas''), JBool (ea_no_ragas args)),
         ((asc ''trace_langsmith''), JBool (ea_trace_langsmith args)), ((asc ''judge_model''), JStr (judge_model e))] @ kb))"

definition eval_main where
  "eval_main dumps repr str_of args dotenv e0 envs seconds file evaluate stats stamp now fs =
     (let e = configure_environment (ea_trace_langsmith args) dotenv e0;
          judge = (if ea_no_ragas args then None else Some (run_ragas str_of evaluate e args))
      in rbind (evaluate_run repr envs seconds file (ea_limit args) judge) (\<lambda>(records, su).
         rbind (run_config e args stats) (\<lambda>config.
         rbind (write_reports dumps repr str_of (ea_output_dir args) stamp now records su config fs) (\<lambda>fs'.
           Inr (records, su, fs')))))"

text \<open>
  Without the option the tracing of LangSmith is off, whatever the environment and \<open>.env\<close> say;
  RAGAS never reports its usage; every other variable of \<open>.env\<close> takes effect.
\<close>

theorem tracing_off_by_default:
  "(configure_environment False dotenv e) (asc ''LANGSMITH_TRACING'') = Some (asc ''false'') \<and>
   (configure_environment False dotenv e) (asc ''LANGCHAIN_TRACING_V2'') = Some (asc ''false'') \<and>
   (configure_environment t dotenv e) (asc ''RAGAS_DO_NOT_TRACK'') = Some (asc ''true'') \<and>
   (dotenv k = Some v \<and> k \<notin> {(asc ''RAGAS_DO_NOT_TRACK''), (asc ''LANGSMITH_TRACING''), (asc ''LANGCHAIN_TRACING_V2'')} \<longrightarrow>
      (configure_environment t dotenv e) k = Some v)"
proof -
  have "distinct [(asc ''LANGSMITH_TRACING''), (asc ''LANGCHAIN_TRACING_V2''), (asc ''RAGAS_DO_NOT_TRACK''), (asc ''PYTHONIOENCODING'')]" by code_simp
  then show ?thesis by (auto simp: configure_environment_def Let_def map_add_def simp del: asc_Cons)
qed

theorem tracing_off_by_default_witness:
  "(configure_environment False [(asc ''LANGSMITH_TRACING'') \<mapsto> (asc ''true''), (asc ''X'') \<mapsto> (asc ''1'')] Map.empty) (asc ''X'') = Some (asc ''1'')"
proof -
  have "(asc ''X'') \<notin> {(asc ''RAGAS_DO_NOT_TRACK''), (asc ''LANGSMITH_TRACING''), (asc ''LANGCHAIN_TRACING_V2'')}" by code_simp
  then show ?thesis using tracing_off_by_default [of "[(asc ''LANGSMITH_TRACING'') \<mapsto> (asc ''true''), (asc ''X'') \<mapsto> (asc ''1'')]" Map.empty False "(asc ''X'')" "(asc ''1'')"]
    by (simp del: asc_Cons)
qed

lemma report_paths_distinct:
  assumes "stamp \<noteq> (asc ''latest'')" and p: "p = report_paths dir stamp"
  shows "distinct [rp_json p, rp_md p, rp_latest_json p, rp_latest_md p]"
proof -
  have latest: "(asc ''/ragas_observability_latest.json'') = (asc ''/ragas_observability_'') @ (asc ''latest'') @ (asc ''.json'')"
    "(asc ''/ragas_observability_latest.md'') = (asc ''/ragas_observability_'') @ (asc ''latest'') @ (asc ''.md'')" by code_simp+
  have ends: "x @ (asc ''.json'') \<noteq> y @ (asc ''.md'')" for x y
  proof
    assume "x @ (asc ''.json'') = y @ (asc ''.md'')"
    then have "last (x @ (asc ''.json'')) = last (y @ (asc ''.md''))" by (rule arg_cong)
    then show False by (simp add: asc_def)
  qed
  show ?thesis using assms(1) ends ends [symmetric] ends [of "_ @ _"]
    by (auto simp: p report_paths_def latest simp del: asc_Cons append_assoc)
qed

lemma write_reports_files:
  assumes "stamp \<noteq> (asc ''latest'')" and p: "p = report_paths dir stamp"
  obtains fs' j where "write_reports dumps repr str_of dir stamp now records su config fs = Inr fs'"
    "to_json (as_jsonable str_of (of_json (report_payload config su records))) = Inr j"
    "fs' (rp_json p) = Some (dumps j)" "fs' (rp_latest_json p) = Some (dumps j)"
    "fs' (rp_md p) = Some (report_markdown repr now su config records)"
    "fs' (rp_latest_md p) = Some (report_markdown repr now su config records)"
    "\<forall>f. f \<notin> {rp_json p, rp_md p, rp_latest_json p, rp_latest_md p} \<longrightarrow> fs' f = fs f"
proof -
  obtain j where j: "to_json (as_jsonable str_of (of_json (report_payload config su records))) = Inr j"
    using cleaned_serialises known_of_json by blast
  let ?md = "report_markdown repr now su config records"
  let ?fs = "fs(rp_json p \<mapsto> dumps j, rp_md p \<mapsto> ?md, rp_latest_json p \<mapsto> dumps j, rp_latest_md p \<mapsto> ?md)"
  have d: "distinct [rp_json p, rp_md p, rp_latest_json p, rp_latest_md p]" by (rule report_paths_distinct [OF assms])
  have "write_reports dumps repr str_of dir stamp now records su config fs = Inr ?fs"
    using d j by (simp add: write_reports_def copy_file_def Let_def p [symmetric])
  then show thesis by (rule that [OF _ j]) (use d in auto)
qed

lemma no_scores_before_judge:
  assumes "run_application_cases envs seconds cs = Inr rs" "r \<in> set rs" shows "er_scores r = []"
proof -
  obtain i where i: "i < length rs" "r = rs ! i" using assms(2) by (auto simp: in_set_conv_nth)
  then obtain st where "r = record_of (cs ! i) (seconds i) st"
    using run_cases_from_records [of 0 envs seconds cs rs] assms(1) by (auto simp: run_application_cases_def)
  then show ?thesis by (simp add: record_of_def Let_def split_def)
qed

text \<open>
  When the cases have run, the command ends normally, whatever numbers the judge returned: both reports are
  written under their time stamp, the latest reports are copies of them, earlier reports stay, and without the judge no
  record has scores.
\<close>

theorem evaluation_reports:
  assumes run: "evaluate_run repr envs seconds file (ea_limit args)
      (if ea_no_ragas args then None else Some (run_ragas str_of evaluate (configure_environment (ea_trace_langsmith args) dotenv e0) args)) =
      Inr (records, su)"
    and stats: "stats = JObj kvs" and stamp: "stamp \<noteq> (asc ''latest'')" and p: "p = report_paths (ea_output_dir args) stamp"
  shows "\<exists>fs' config. eval_main dumps repr str_of args dotenv e0 envs seconds file evaluate stats stamp now fs = Inr (records, su, fs') \<and>
    fs' (rp_md p) = Some (report_markdown repr now su config records) \<and> fs' (rp_latest_md p) = fs' (rp_md p) \<and>
    fs' (rp_json p) \<noteq> None \<and> fs' (rp_latest_json p) = fs' (rp_json p) \<and>
    (\<forall>f. f \<notin> {rp_json p, rp_md p, rp_latest_json p, rp_latest_md p} \<longrightarrow> fs' f = fs f) \<and>
    (ea_no_ragas args \<longrightarrow> (\<forall>r\<in>set records. er_scores r = []))"
proof -
  let ?e = "configure_environment (ea_trace_langsmith args) dotenv e0"
  have "\<exists>config. run_config ?e args stats = Inr config" by (simp add: run_config_def stats json_get_def del: asc_Cons)
  then obtain config where config: "run_config ?e args stats = Inr config" by blast
  obtain fs' j where fs': "write_reports dumps repr str_of (ea_output_dir args) stamp now records su config fs = Inr fs'"
    "fs' (rp_json p) = Some (dumps j)" "fs' (rp_latest_json p) = Some (dumps j)"
    "fs' (rp_md p) = Some (report_markdown repr now su config records)"
    "fs' (rp_latest_md p) = Some (report_markdown repr now su config records)"
    "\<forall>f. f \<notin> {rp_json p, rp_md p, rp_latest_json p, rp_latest_md p} \<longrightarrow> fs' f = fs f"
    by (rule write_reports_files [OF stamp p, of dumps repr str_of now records su config fs]) blast
  have "er_scores r = []" if no: "ea_no_ragas args" and r: "r \<in> set records" for r
  proof -
    obtain cs where "run_application_cases envs seconds cs = Inr records"
      using run no by (auto simp: evaluate_run_def rbind_Inr_iff attach_scores_def)
    then show ?thesis using r by (rule no_scores_before_judge)
  qed
  with config fs' run show ?thesis by (auto simp: eval_main_def Let_def)
qed

theorem evaluation_reports_witness:
  "\<exists>records su fs'. eval_main (\<lambda>_. (asc ''{}'')) (\<lambda>_. []) (\<lambda>_. []) ((default_args (asc ''/srv''))\<lparr>ea_limit := 1, ea_no_ragas := True\<rparr>) Map.empty
     Map.empty (\<lambda>_. ok_graph) (\<lambda>_. 2) (Some (Inr (JArr [default_case [] (asc ''hi'') (asc ''there'')]))) (\<lambda>_ _. Inr ([], [])) (JObj []) (asc ''20260101_000000'') []
     Map.empty = Inr (records, su, fs') \<and> (\<forall>r\<in>set records. er_scores r = [])"
proof -
  let ?args = "(default_args (asc ''/srv''))\<lparr>ea_limit := 1, ea_no_ragas := True\<rparr>"
  have args: "ea_limit ?args = 1" "ea_no_ragas ?args" by simp_all
  obtain rs su where "evaluate_run (\<lambda>_. []) (\<lambda>_. ok_graph) (\<lambda>_. 2) (Some (Inr (JArr [default_case [] (asc ''hi'') (asc ''there'')]))) 1 None = Inr (rs, su)"
    using demo_evaluation by blast
  then have run: "evaluate_run (\<lambda>_. []) (\<lambda>_. ok_graph) (\<lambda>_. 2) (Some (Inr (JArr [default_case [] (asc ''hi'') (asc ''there'')]))) (ea_limit ?args)
      (if ea_no_ragas ?args then None else Some (run_ragas (\<lambda>_. []) (\<lambda>_ _. Inr ([], []))
         (configure_environment (ea_trace_langsmith ?args) Map.empty Map.empty) ?args)) = Inr (rs, su)" using args by simp
  have stamp: "(asc ''20260101_000000'') \<noteq> (asc ''latest'')" by code_simp
  show ?thesis using evaluation_reports [OF run refl stamp refl, where dumps = "\<lambda>_. (asc ''{}'')" and now = "[]" and fs = Map.empty] args(2) by blast
qed

end
