(* ===== verification/Spec2Isabelle.thy ===== *)
theory Spec2Isabelle
  imports Knowledge_Base Ranked_System Crag_Graph Memory_Store Accounts Cache Sessions Chat Documents Rag_Service Embedding Evaluation Frontend Dense_Search Service_Config Service_Routes Db_Schema Http_Page Page_Actions
    Http_Documents Deployment Change_Flow Metrics Process_Setup Eval_Output
begin

text \<open>
  A verification library of the FlowxRAG knowledge-base assistant (the Python sources under
  \<open>src/backend\<close>, \<open>src/rag-service\<close>, \<open>src/frontend\<close>, \<open>src/tools\<close> and \<open>src/alembic\<close>).

  \<^bold>\<open>The program.\<close> A PDF is uploaded (\<open>api/v1/documents.py\<close>, or in the background by
  \<open>tasks/document_tasks.py\<close>), cleaned, split into parent and child chunks, embedded and indexed by
  \<open>KnowledgeBase\<close> (\<open>retriever.py\<close>). A question goes through the chat routes (\<open>api/v1/chat.py\<close>) to
  \<open>run_chat\<close> (\<open>services/chat_service.py\<close>), which consults the rate limit and the answer cache on Redis
  (\<open>cache_service.py\<close>), builds the context from the history and the user's memories
  (\<open>memory_service.py\<close>) and runs the LangGraph workflow (\<open>graph.py\<close>), which routes the question, calls
  \<open>KnowledgeBase.search\<close> or the web, and asks the model. The same knowledge base and chat service are
  served over gRPC (\<open>rag-service/server.py\<close>), where document changes arrive as events. A Streamlit page
  (\<open>frontend/app.py\<close>) is the client of the HTTP routes; \<open>tools/ragas_observability_eval.py\<close> evaluates the
  workflow offline.

  \<^bold>\<open>Which theory models what.\<close>
  \<^item> The language: \<open>Prelude\<close> (strings as lists of code points, exceptions, the rule collections),
    \<open>Py_Strings\<close> (methods of \<open>str\<close>), \<open>Py_Regex\<close> (the patterns of \<open>re\<close> with their backtracking order),
    \<open>Py_Collections\<close> (insertion-ordered \<open>dict\<close>, stable \<open>sorted\<close>), \<open>Py_Json\<close> (values of \<open>json.loads\<close> and the
    result monad: \<open>Inl\<close> an exception, \<open>Inr\<close> a value).
  \<^item> \<open>retriever.py\<close>: \<open>Text_Clean\<close> (\<open>clean_text\<close>), \<open>Chunking\<close> (\<open>_split_by_separators\<close>, \<open>_hard_split_text\<close>),
    \<open>Chunk_Merge\<close> (\<open>_merge_segments\<close>, \<open>split_text\<close>), \<open>Ingestion\<close> (\<open>_chunks_from_reader\<close>, chunk dictionaries,
    upload names), \<open>Bm25\<close> (tokenisers and \<open>BM25Index\<close>), \<open>Retrieval\<close> (rank fusion, parent grouping, reranker,
    \<open>search\<close>), \<open>Embedding\<close> (\<open>EmbeddingBackend\<close>), \<open>Dense_Search\<close> (the vector channel of \<open>search\<close>),
    \<open>Knowledge_Base\<close> (every operation of \<open>KnowledgeBase\<close> that changes state, on the record \<open>kb\<close>: the chunk list,
    its file, the vector index and its file, the BM25 index, the upload directory, the identifiers drawn).
  \<^item> \<open>graph.py\<close>: \<open>Routing\<close> (\<open>choose_route\<close>, the evidence test, Tavily results), \<open>Crag_Graph\<close> (state, nodes, edges,
    \<open>invoke_llm\<close>; the step relation \<open>crag_step\<close> and the function \<open>crag_invoke\<close>).
  \<^item> The services and routes: \<open>Memory_Text\<close> and \<open>Memory_Store\<close> (\<open>memory_service.py\<close>, \<open>api/v1/memories.py\<close>),
    \<open>Accounts\<close> (\<open>auth_service.py\<close>, \<open>api/deps.py\<close>, \<open>api/v1/auth.py\<close>), \<open>Cache\<close> (\<open>cache_service.py\<close>), \<open>Sessions\<close>
    (\<open>api/v1/sessions.py\<close> and the history of \<open>chat_service.py\<close>), \<open>Chat\<close> (\<open>run_chat\<close> and the chat routes),
    \<open>Documents\<close> (document and task routes, the background tasks, what they publish), \<open>Rag_Service\<close> (the gRPC
    calls), \<open>Service_Routes\<close> (\<open>api/v1/health.py\<close>, \<open>/embeddings\<close>, \<open>/rerank\<close>), \<open>Service_Config\<close> (settings and life
    cycle), \<open>Db_Schema\<close> (models, start-up DDL and migration).
  \<^item> The HTTP layer: \<open>Http_Schema\<close> (the schemas of \<open>backend/schemas\<close>), \<open>Http_Api\<close> (the endpoints for accounts,
    sessions, memories and questions, the transaction of a request, the exception handlers and the request
    identifier of \<open>main.py\<close>), \<open>Http_Safety\<close> (what any request may do), \<open>Http_Documents\<close> (the endpoints for documents,
    tasks and health, and the dispatch of all endpoints over the state of the whole service).
  \<^item> Around the service: \<open>Frontend\<close> (\<open>frontend/app.py\<close> with \<open>core/exceptions.py\<close>), \<open>Page_Actions\<close> (its views,
    forms and buttons, and one run of the script), \<open>Http_Page\<close> (the page with the HTTP application behind it),
    \<open>Evaluation\<close> and \<open>Eval_Output\<close> (the evaluation tool).
  \<^item> The processes: \<open>Cached_Store\<close> and \<open>Deployment\<close> (several workers on one data directory), \<open>Change_Flow\<close> (an
    upload and its change event, in the two processes that handle them), \<open>Process_Setup\<close> (\<open>tasks/celery_app.py\<close>,
    \<open>core/telemetry.py\<close>, the gRPC server's life), \<open>Metrics\<close> (\<open>core/metrics.py\<close> and what is written to it).

  A class with state is a record and each method a function that returns the updated record with a
  result; tables are lists of rows with the next identifier; routes are functions from the world to
  the world and a result. Every \<open>raise\<close>, refusal and early return is a branch.

  \<^bold>\<open>Interfaces.\<close> \<open>py_dict\<close> and \<open>py_counter\<close> (a dictionary filled in a loop) are interpreted by association lists
  and used by rank fusion, term counts and grouping; \<open>ranked_system\<close> and \<open>deterministic_system\<close> (steps that end)
  by the steps of the graph; \<open>evidence_provider\<close> (what the graph asks of a search) by \<open>KnowledgeBase.search\<close>;
  \<open>source_store\<close> (chunks per document, under replace and remove) by the chunk list; \<open>tenant_store\<close> and
  \<open>tenant_queries\<close> (a store shared by owners) by the memory table; \<open>cached_store\<close> (a value in a file and in the
  memory of several processes) by the chunk list and its file, once for single operations and once for the ways a document
  comes in.

  \<^bold>\<open>What the lemmas show.\<close> For each component an invariant (\<open>kb_wf\<close> and \<open>kb_synced\<close>, \<open>memory_ok\<close>, \<open>users_ok\<close>,
  \<open>records_ok\<close>, \<open>doc_wf\<close>, \<open>lock_inv\<close>, \<open>merge_inv\<close>) and that every operation keeps it; the result of each
  operation, on its error branches too; refinements of an abstract contract (the memory table of a map, the
  event consumer of an abstract store, the page of the chat route); equivalences (stream and plain route, batched
  and pointwise embedding); round trips (log in after registration, restart, event stream, chunk
  dictionaries, registration from the page to the database); what ends and after how many steps; and, composed over the components, what a user relies on: an ingested text
  is found (given room for every chunk), an upload and its change event leave a document once in the files, the memories of a user are unseen by others, the page
  keeps working when the server does not, documents are changed by signed-in accounts only, and documents survive as long as no process writes from a stale memory. Some
  theorems record behaviour that is not meant (\<open>concurrent_upload_lost\<close>, \<open>unseen_until_restart\<close>, \<open>cached_answer_crosses_users\<close>, \<open>deletion_misses_cache\<close>, \<open>task_retry_duplicates\<close>,
  \<open>delete_source_keeps_renamed_upload\<close>, \<open>degraded_restart_mixes_vectors\<close>, \<open>migration_rejects_users\<close>,
  \<open>upload_gauge_zero\<close>, and the calls counted twice in \<open>rpc_metrics_exact\<close>).

  \<^bold>\<open>Bounds.\<close> A graph run has at most five nodes, since each edge lowers the rank of its node; a model call has three
  attempts and a background task four, both structural. The splitter and what calls it return \<open>None\<close> for "does not
  return", which happens for a non-positive size; \<open>split_by_separators_total\<close> says that nothing else does.
  There is no other fuel. Integers are Python's, except the \<open>int32\<close> fields of gRPC, which are 32-bit words.

  \<^bold>\<open>Parameters and hypotheses.\<close> The model, the web tool, the judge, HTTP, Redis, bcrypt, JWT signing, the PDF
  parser, \<open>uuid4\<close>, clocks, \<open>json.loads\<close>, the order of rows with equal sort keys, faiss, torch and MD5 are arguments.
  What is assumed of them is named: \<open>redis_ok\<close> (the Redis commands), \<open>bcrypt_ok\<close>, \<open>jwt_ok\<close>, \<open>libraries_ok\<close>
  (normalisation of rows, MD5 digests of sixteen bytes), \<open>serves\<close> (an embedding service that works on each text
  by itself), \<open>exact_index\<close> (a flat faiss index), \<open>validator_ok\<close> (pydantic's validation), \<open>routed\<close>, \<open>embeds_by\<close>, \<open>argsort_ok\<close>, \<open>env_ok\<close>. Each is satisfied by a
  concrete instance in the witnesses (\<open>spec_redis\<close>, \<open>demo_auth\<close>, \<open>flat_search\<close>, \<open>sort_positions\<close>, \<open>demo_env\<close>).

  \<^bold>\<open>Not modelled.\<close> Floats are reals: rounding, NaN and infinities appear only where an external service reports them.
  Operations that hold the class's lock or a transaction are one step. Of the errors of the database two are modelled: the
  history of a session that does not exist (\<open>record_turn\<close>; the request's writes are undone, and the next statement raises),
  and a value too long for its column (\<open>column_ok\<close>); a request's transaction is committed after its response was sent, as
  FastAPI does from 0.118 on. Other database errors, file-system errors, time limits and
  thread scheduling inside a step are left out. Tokens streamed by a node that raises later or by a repeated attempt of
  a model call are not modelled (\<open>che_chunks\<close> gives those of nodes that finish). A gRPC call that aborts twice sends its
  first status only, as \<open>grpc.aio\<close> does. What Prometheus, OpenTelemetry, Celery's scheduler and structlog do with what they are given,
  generated protobuf code, styling and the identities of widgets are not the program's. pydantic's lax coercions of request fields, foreign keys
  other than those of sessions, indexes and Alembic's machinery belong to those libraries. The Go gateway and the
  sync service are separate programs in another language.
\<close>

section \<open>From ingestion to retrieval\<close>

text \<open>C1: what was ingested can be found, given room for every chunk. After a successful
  \<open>upsert_pdf\<close> on a well-formed knowledge base, take a search with keyword search on (and its
  parameters positive), the default candidate counts, a fusion constant not below zero, the reranker
  off, and a \<open>top_k\<close> above the number of all chunks of the base. Whatever the vector index
  answers, as long as it answers, the search returns, for every chunk of the base that shares a token
  with the query, a result with the chunk's source, its page, and a content that agrees with its
  parent's text in the first 160 characters. The graph asks with \<open>top_k = 5\<close>: there
  the theorem speaks of a base of at most four chunks; for a larger base, or with a reranker, the
  ranking decides which chunks are cut off.\<close>

theorem ingested_text_is_found:
  assumes "env_ok env" "uuids_nonempty env" "kb_wf env st"
    and "\<And>ts vs. ke_embed env ts = Inr vs \<Longrightarrow> length vs = length ts"
    and "bm25_params (kb_bm25 st)" "bm_enabled (kb_bm25 st)"
    and "upsert_pdf env path s st = Some (st', Inr rep)"
    and "0 \<le> sc_rrf_k cfg" "sc_candidate_k cfg = None" "sc_bm25_candidate_k cfg = None"
    and "\<And>n. \<exists>raw. vsearch q n = Inr raw" "\<not> rr_enabled rr"
    and "int (length (kb_chunks st')) < top_k" "ch \<in> set (kb_chunks st')" "shares_token q ch"
  shows "\<exists>rs. search cfg vsearch post em st' q top_k ms rr = (rr, Inr rs) \<and>
     (\<exists>r\<in>set rs. sr_source r = c_source ch \<and> sr_page r = c_page ch \<and>
        take 160 (sr_content r) = take 160 (parent_text ch))"
proof -
  have run: "ingest_pdf (\<lambda>c. c_source c \<noteq> s) env path s st = Some (st', Inr rep)"
    using assms(7) by (simp add: upsert_pdf_def)
  have sync: "kb_synced env st'" by (rule ingest_synced [OF run])
  have wf: "chunks_wf (ke_uuid env) (kb_next st') (kb_chunks st')"
    using ingest_wf [OF assms(1,3) run] by (simp add: kb_wf_def)
  have ne: "kb_chunks st' \<noteq> []" using assms(14) by auto
  have "length (kb_index st') = length (kb_chunks st')"
    using sync ne assms(4) [of "map c_content (kb_chunks st')" "kb_index st'"] by (simp add: kb_synced_def)
  then have index: "length (kb_index st') \<noteq> 0" using ne by simp
  have bm: "bm25_params (kb_bm25 st')" "bm_enabled (kb_bm25 st')"
    "kb_bm25 st' = bm25_rebuild (kb_bm25 st') (kb_chunks st')"
    using ingest_bm25 [OF run] assms(5,6) sync by (simp_all add: kb_synced_def)
  obtain rs where "search cfg vsearch post em st' q top_k ms rr = (rr, Inr rs)"
    "\<exists>r\<in>set rs. merge_key r = chunk_key ch"
    using kb_search_recall [OF assms(8-10) bm _ index assms(13,12) family_of_wf [OF wf assms(2)] assms(14,15),
        where vsearch = vsearch and post = post and em = em and ms = ms] assms(11)
    by (auto simp: search_def)
  then show ?thesis by (auto simp: merge_key_def chunk_key_def)
qed

theorem ingested_text_is_found_witness:
  "\<exists>st' rep rs. upsert_pdf demo_env (asc ''p'') (asc ''a.pdf'') demo_kb = Some (st', Inr rep) \<and>
     search default_config (\<lambda>q n. Inr []) (\<lambda>n ep m q ds k. Inl (OtherError [])) None st' (asc ''hello'') 5 (8/100)
       (reranker_init False [] []) = (reranker_init False [] [], Inr rs) \<and>
     (\<exists>r\<in>set rs. sr_source r = (asc ''a.pdf''))"
proof -
  obtain st' rep where run: "upsert_pdf demo_env (asc ''p'') (asc ''a.pdf'') demo_kb = Some (st', Inr rep)"
    and cs: "kb_chunks st' = [demo_chunk 0 (asc ''a.pdf'')]"
    using demo_upsert [of "(asc ''p'')" "(asc ''a.pdf'')" demo_kb] by (auto simp: demo_kb_def)
  have share: "shares_token (asc ''hello'') (demo_chunk 0 (asc ''a.pdf''))" unfolding shares_token_def by code_simp
  show ?thesis
    using ingested_text_is_found [OF demo_env_ok demo_kb_wf _ _ _ run, where cfg = default_config and
        vsearch = "\<lambda>q n. Inr []" and post = "\<lambda>n ep m q ds k. Inl (OtherError [])" and em = None and
        q = "(asc ''hello'')" and top_k = 5 and ms = "8/100" and rr = "reranker_init False [] []" and
        ch = "demo_chunk 0 (asc ''a.pdf'')", OF _ _ _ _ _ _ _ _ _ _ share] run cs
    by (force simp: demo_env_def demo_kb_def bm25_params_def bm25_init_def default_config_def
        reranker_init_def demo_chunk_def)
qed

end
